(* ===== verification/Prelude.thy ===== *)
theory Prelude
  imports Complex_Main "HOL-Library.Word" "HOL-Library.Sublist"
begin

text \<open>
  What the component theories share: the type of a Python computation (a value or a raised
  exception, with the world it leaves behind), the combinators the methods are composed with,
  the string operations of the standard library the source uses, and the lemma collections.

  A Python \<open>str\<close> is a \<^typ>\<open>string\<close> whose characters are read as the code points below 256;
  every operation below agrees with CPython on those, except where it says otherwise.
\<close>

section \<open>Lemma collections\<close>

named_theorems prog_simps \<open>unfolding of the program combinators\<close>
named_theorems prog_defs \<open>definitions of the code's operations, for symbolic execution\<close>
named_theorems keeps_intros \<open>one rule per combinator for invariants of a program\<close>

section \<open>Computations that may raise\<close>

datatype ('e, 'a) outcome = Ret 'a | Raise 'e

type_synonym ('w, 'e, 'a) prog = "'w \<Rightarrow> ('e, 'a) outcome \<times> 'w"

definition py_ret :: "'a \<Rightarrow> ('w, 'e, 'a) prog" where
  "py_ret a = (\<lambda>w. (Ret a, w))"

definition py_raise :: "'e \<Rightarrow> ('w, 'e, 'a) prog" where
  "py_raise e = (\<lambda>w. (Raise e, w))"

definition py_bind :: "('w, 'e, 'a) prog \<Rightarrow> ('a \<Rightarrow> ('w, 'e, 'b) prog) \<Rightarrow> ('w, 'e, 'b) prog" where
  "py_bind m f = (\<lambda>w. case m w of (Ret a, w') \<Rightarrow> f a w' | (Raise e, w') \<Rightarrow> (Raise e, w'))"

definition py_read :: "('w \<Rightarrow> 'a) \<Rightarrow> ('w, 'e, 'a) prog" where
  "py_read f = (\<lambda>w. (Ret (f w), w))"

definition py_write :: "('w \<Rightarrow> 'w) \<Rightarrow> ('w, 'e, unit) prog" where
  "py_write f = (\<lambda>w. (Ret (), f w))"

text \<open>\<open>except\<close>: the handler sees the exception in the world the body left.\<close>

definition py_catch :: "('w, 'e, 'a) prog \<Rightarrow> ('e \<Rightarrow> ('w, 'e, 'a) prog) \<Rightarrow> ('w, 'e, 'a) prog" where
  "py_catch m h = (\<lambda>w. case m w of (Ret a, w') \<Rightarrow> (Ret a, w') | (Raise e, w') \<Rightarrow> h e w')"

text \<open>A \<open>for\<close> loop whose body returns nothing: the first raise leaves the loop.\<close>

fun py_for :: "'a list \<Rightarrow> ('a \<Rightarrow> ('w, 'e, unit) prog) \<Rightarrow> ('w, 'e, unit) prog" where
  "py_for [] f = py_ret ()"
| "py_for (x # xs) f = py_bind (f x) (\<lambda>_. py_for xs f)"

text \<open>A pure computation that may raise, run inside a program.\<close>

definition py_lift :: "('e, 'a) outcome \<Rightarrow> ('w, 'e, 'a) prog" where
  "py_lift r = (\<lambda>w. (r, w))"

text \<open>The same for a computation without a state, and a loop that collects its results.\<close>

definition oc_bind :: "('e, 'a) outcome \<Rightarrow> ('a \<Rightarrow> ('e, 'b) outcome) \<Rightarrow> ('e, 'b) outcome" where
  "oc_bind m f = (case m of Ret a \<Rightarrow> f a | Raise e \<Rightarrow> Raise e)"

fun oc_mapM :: "('x \<Rightarrow> ('e, 'a) outcome) \<Rightarrow> 'x list \<Rightarrow> ('e, 'a list) outcome" where
  "oc_mapM f [] = Ret []"
| "oc_mapM f (x # xs) = (case f x of Raise e \<Rightarrow> Raise e
     | Ret a \<Rightarrow> (case oc_mapM f xs of Raise e \<Rightarrow> Raise e | Ret ys \<Rightarrow> Ret (a # ys)))"

lemma oc_bind_simps [simp]: "oc_bind (Ret a) f = f a" "oc_bind (Raise e) f = Raise e"
  by (simp_all add: oc_bind_def)

lemma oc_bind_Ret_iff: "oc_bind m f = Ret b \<longleftrightarrow> (\<exists>a. m = Ret a \<and> f a = Ret b)"
  by (cases m) simp_all

lemma oc_mapM_Ret: "(\<And>x. x \<in> set xs \<Longrightarrow> f x = Ret (g x)) \<Longrightarrow> oc_mapM f xs = Ret (map g xs)"
  by (induction xs) simp_all

lemma oc_mapM_Ret_iff: "oc_mapM f xs = Ret ys \<longleftrightarrow> list_all2 (\<lambda>x y. f x = Ret y) xs ys"
proof (induction xs arbitrary: ys)
  case (Cons x xs)
  note [simp] = Cons.IH [symmetric]
  show ?case by (cases "f x"; cases "oc_mapM f xs"; cases ys) auto
qed auto

lemma py_ret_app [simp, prog_simps]: "py_ret a w = (Ret a, w)"
  by (simp add: py_ret_def)

lemma py_raise_app [simp, prog_simps]: "py_raise e w = (Raise e, w)"
  by (simp add: py_raise_def)

lemma py_read_app [simp, prog_simps]: "py_read f w = (Ret (f w), w)"
  by (simp add: py_read_def)

lemma py_write_app [simp, prog_simps]: "py_write f w = (Ret (), f w)"
  by (simp add: py_write_def)

lemma py_lift_app [simp, prog_simps]: "py_lift r w = (r, w)"
  by (simp add: py_lift_def)

lemma py_bind_Ret [simp]: "m w = (Ret a, w') \<Longrightarrow> py_bind m f w = f a w'"
  by (simp add: py_bind_def)

lemma py_bind_Raise [simp]: "m w = (Raise e, w') \<Longrightarrow> py_bind m f w = (Raise e, w')"
  by (simp add: py_bind_def)

lemma py_bind_app:
  "py_bind m f w = (case m w of (Ret a, w') \<Rightarrow> f a w' | (Raise e, w') \<Rightarrow> (Raise e, w'))"
  by (simp add: py_bind_def)

lemma py_bind_assoc: "py_bind (py_bind m f) g = py_bind m (\<lambda>a. py_bind (f a) g)"
  by (rule ext) (auto simp: py_bind_app split: prod.splits outcome.splits)

lemma py_bind_ret_left [simp]: "py_bind (py_ret a) f = f a"
  by (rule ext) simp

lemma py_bind_ret_right [simp]: "py_bind m py_ret = m"
  by (rule ext) (auto simp: py_bind_app split: prod.splits outcome.splits)

lemma py_catch_Ret [simp]: "m w = (Ret a, w') \<Longrightarrow> py_catch m h w = (Ret a, w')"
  by (simp add: py_catch_def)

lemma py_catch_Raise [simp]: "m w = (Raise e, w') \<Longrightarrow> py_catch m h w = h e w'"
  by (simp add: py_catch_def)

lemma py_bind_Ret_iff:
  "py_bind m f w = (Ret b, w') \<longleftrightarrow> (\<exists>a w1. m w = (Ret a, w1) \<and> f a w1 = (Ret b, w'))"
  by (auto simp: py_bind_app split: prod.splits outcome.splits)

lemma py_for_cong: "xs = ys \<Longrightarrow> (\<And>x. x \<in> set ys \<Longrightarrow> f x = g x) \<Longrightarrow> py_for xs f = py_for ys g"
  by (induction ys arbitrary: xs) simp_all

lemma py_for_idle: "(\<And>x. x \<in> set xs \<Longrightarrow> f x w = (Ret (), w)) \<Longrightarrow> py_for xs f w = (Ret (), w)"
  by (induction xs) simp_all

lemma py_for_append:
  "py_for (xs @ ys) f = py_bind (py_for xs f) (\<lambda>_. py_for ys f)"
  by (induction xs) (simp_all add: py_bind_assoc)

section \<open>Invariants of a computation\<close>

text \<open>
  \<open>keeps P m\<close>: whatever \<open>m\<close> does, returning or raising, a world in which \<open>P\<close> holds is left in
  a world in which \<open>P\<close> holds.
\<close>

definition keeps :: "('w \<Rightarrow> bool) \<Rightarrow> ('w, 'e, 'a) prog \<Rightarrow> bool" where
  "keeps P m \<longleftrightarrow> (\<forall>w. P w \<longrightarrow> P (snd (m w)))"

lemma keepsI: "(\<And>w. P w \<Longrightarrow> P (snd (m w))) \<Longrightarrow> keeps P m"
  by (simp add: keeps_def)

lemma keepsD: "keeps P m \<Longrightarrow> P w \<Longrightarrow> P (snd (m w))"
  by (simp add: keeps_def)

lemma keepsE: "keeps P m \<Longrightarrow> m w = (r, w') \<Longrightarrow> P w \<Longrightarrow> P w'"
  by (drule keepsD [of P m w]) simp_all

lemma keeps_ret [keeps_intros]: "keeps P (py_ret a)"
  by (simp add: keeps_def)

lemma keeps_raise [keeps_intros]: "keeps P (py_raise e)"
  by (simp add: keeps_def)

lemma keeps_read [keeps_intros]: "keeps P (py_read f)"
  by (simp add: keeps_def)

lemma keeps_lift [keeps_intros]: "keeps P (py_lift r)"
  by (simp add: keeps_def)

lemma keeps_write: "(\<And>w. P w \<Longrightarrow> P (f w)) \<Longrightarrow> keeps P (py_write f)"
  by (simp add: keeps_def)

lemma keeps_bind [keeps_intros]: "keeps P m \<Longrightarrow> (\<And>a. keeps P (f a)) \<Longrightarrow> keeps P (py_bind m f)"
  by (fastforce simp: keeps_def py_bind_app split: prod.splits outcome.splits)

lemma keeps_catch [keeps_intros]: "keeps P m \<Longrightarrow> (\<And>e. keeps P (h e)) \<Longrightarrow> keeps P (py_catch m h)"
  by (fastforce simp: keeps_def py_catch_def split: prod.splits outcome.splits)

lemma keeps_if [keeps_intros]: "keeps P m \<Longrightarrow> keeps P n \<Longrightarrow> keeps P (if b then m else n)"
  by simp

lemma keeps_for [keeps_intros]: "(\<And>x. keeps P (f x)) \<Longrightarrow> keeps P (py_for xs f)"
  by (induction xs) (auto intro: keeps_intros)

lemma keeps_option [keeps_intros]:
  "keeps P m \<Longrightarrow> (\<And>x. keeps P (f x)) \<Longrightarrow> keeps P (case x of None \<Rightarrow> m | Some x \<Rightarrow> f x)"
  by (cases x) simp_all

lemma keeps_sum [keeps_intros]:
  "(\<And>x. keeps P (f x)) \<Longrightarrow> (\<And>y. keeps P (g y)) \<Longrightarrow> keeps P (case s of Inl x \<Rightarrow> f x | Inr y \<Rightarrow> g y)"
  by (cases s) simp_all

lemma keeps_Let [keeps_intros]: "(\<And>x. keeps P (f x)) \<Longrightarrow> keeps P (let x = a in f x)"
  by simp

section \<open>Pre- and postconditions\<close>

text \<open>
  \<open>hoare P m Q E\<close>: started where \<open>P\<close> holds, \<open>m\<close> either returns a value in a world related by \<open>Q\<close>
  or raises an exception in a world related by \<open>E\<close>.
\<close>

definition hoare :: "('w \<Rightarrow> bool) \<Rightarrow> ('w, 'e, 'a) prog \<Rightarrow> ('a \<Rightarrow> 'w \<Rightarrow> bool) \<Rightarrow> ('e \<Rightarrow> 'w \<Rightarrow> bool) \<Rightarrow> bool" where
  "hoare P m Q E \<longleftrightarrow> (\<forall>w. P w \<longrightarrow>
     (case m w of (Ret a, w') \<Rightarrow> Q a w' | (Raise e, w') \<Rightarrow> E e w'))"

named_theorems hoare_intros \<open>one rule per combinator and operation\<close>

lemma hoareI:
  "(\<And>w. P w \<Longrightarrow> case m w of (Ret a, w') \<Rightarrow> Q a w' | (Raise e, w') \<Rightarrow> E e w') \<Longrightarrow> hoare P m Q E"
  by (simp add: hoare_def)

lemma hoare_Ret: "hoare P m Q E \<Longrightarrow> P w \<Longrightarrow> m w = (Ret a, w') \<Longrightarrow> Q a w'"
  by (force simp: hoare_def)

lemma hoare_Raise: "hoare P m Q E \<Longrightarrow> P w \<Longrightarrow> m w = (Raise e, w') \<Longrightarrow> E e w'"
  by (force simp: hoare_def)

lemma hoare_conseq:
  "hoare P' m Q' E' \<Longrightarrow> (\<And>w. P w \<Longrightarrow> P' w) \<Longrightarrow> (\<And>a w. Q' a w \<Longrightarrow> Q a w) \<Longrightarrow>
   (\<And>e w. E' e w \<Longrightarrow> E e w) \<Longrightarrow> hoare P m Q E"
  by (fastforce simp: hoare_def split: prod.splits outcome.splits)

lemma hoare_bind [hoare_intros]:
  "hoare P m R E \<Longrightarrow> (\<And>a. hoare (R a) (f a) Q E) \<Longrightarrow> hoare P (py_bind m f) Q E"
  by (fastforce simp: hoare_def py_bind_app split: prod.splits outcome.splits)

lemma hoare_ret: "(\<And>w. P w \<Longrightarrow> Q a w) \<Longrightarrow> hoare P (py_ret a) Q E"
  by (simp add: hoare_def)

lemma hoare_raise: "(\<And>w. P w \<Longrightarrow> E e w) \<Longrightarrow> hoare P (py_raise e) Q E"
  by (simp add: hoare_def)

lemma hoare_read: "(\<And>w. P w \<Longrightarrow> Q (f w) w) \<Longrightarrow> hoare P (py_read f) Q E"
  by (simp add: hoare_def)

lemma hoare_write: "(\<And>w. P w \<Longrightarrow> Q () (f w)) \<Longrightarrow> hoare P (py_write f) Q E"
  by (simp add: hoare_def)

lemma hoare_if:
  "(b \<Longrightarrow> hoare P m Q E) \<Longrightarrow> (\<not> b \<Longrightarrow> hoare P n Q E) \<Longrightarrow> hoare P (if b then m else n) Q E"
  by simp

lemma hoare_option:
  "(x = None \<Longrightarrow> hoare P m Q E) \<Longrightarrow> (\<And>y. x = Some y \<Longrightarrow> hoare P (f y) Q E) \<Longrightarrow>
   hoare P (case x of None \<Rightarrow> m | Some y \<Rightarrow> f y) Q E"
  by (cases x) simp_all

lemma hoare_keeps: "keeps P m \<Longrightarrow> hoare P m (\<lambda>_. P) (\<lambda>_. P)"
  by (auto simp: hoare_def dest: keepsE split: prod.splits outcome.splits)

lemma keeps_hoare: "hoare P m (\<lambda>_. P) (\<lambda>_. P) \<Longrightarrow> keeps P m"
proof (rule keepsI)
  fix w assume h: "hoare P m (\<lambda>_. P) (\<lambda>_. P)" and "P w"
  then have "case m w of (Ret a, w') \<Rightarrow> P w' | (Raise e, w') \<Rightarrow> P w'"
    by (simp add: hoare_def)
  then show "P (snd (m w))" by (auto split: prod.splits outcome.splits)
qed

lemma hoare_conj:
  "hoare P m Q E \<Longrightarrow> hoare P' m Q' E' \<Longrightarrow>
   hoare (\<lambda>w. P w \<and> P' w) m (\<lambda>a w. Q a w \<and> Q' a w) (\<lambda>e w. E e w \<and> E' e w)"
  by (fastforce simp: hoare_def split: prod.splits outcome.splits)

section \<open>Strings\<close>

definition py_space :: "char \<Rightarrow> bool" where
  "py_space c = (let n = (of_char c :: nat) in
     (9 \<le> n \<and> n \<le> 13) \<or> (28 \<le> n \<and> n \<le> 32) \<or> n = 133 \<or> n = 160)"

definition py_lstrip :: "string \<Rightarrow> string" where
  "py_lstrip s = dropWhile py_space s"

definition py_strip :: "string \<Rightarrow> string" where
  "py_strip s = rev (dropWhile py_space (rev (dropWhile py_space s)))"

text \<open>\<open>strip_whitespace\<close> of pydantic, which takes Unicode white space: not the separators 28 to 31.\<close>

definition white_space :: "char \<Rightarrow> bool" where
  "white_space c = (let n = (of_char c :: nat) in (9 \<le> n \<and> n \<le> 13) \<or> n = 32 \<or> n = 133 \<or> n = 160)"

definition trim :: "string \<Rightarrow> string" where
  "trim s = rev (dropWhile white_space (rev (dropWhile white_space s)))"

definition lower_char :: "char \<Rightarrow> char" where
  "lower_char c = (let n = (of_char c :: nat) in
     if (65 \<le> n \<and> n \<le> 90) \<or> (192 \<le> n \<and> n \<le> 222 \<and> n \<noteq> 215) then char_of (n + 32) else c)"

definition py_lower :: "string \<Rightarrow> string" where
  "py_lower s = map lower_char s"

text \<open>\<open>str.upper\<close>, on ASCII (the only strings it is applied to that matter are level names).\<close>

definition upper_char :: "char \<Rightarrow> char" where
  "upper_char c = (let n = (of_char c :: nat) in
     if 97 \<le> n \<and> n \<le> 122 then char_of (n - 32) else c)"

definition py_upper :: "string \<Rightarrow> string" where
  "py_upper s = map upper_char s"

text \<open>\<open>s.split(c)\<close> for a one-element separator, of a \<open>str\<close> or of \<open>bytes\<close>: never empty.\<close>

fun py_split :: "'a \<Rightarrow> 'a list \<Rightarrow> 'a list list" where
  "py_split c [] = [[]]"
| "py_split c (x # xs) =
     (if x = c then [] # py_split c xs
      else (case py_split c xs of [] \<Rightarrow> [[x]] | p # ps \<Rightarrow> (x # p) # ps))"

fun py_join :: "'a list \<Rightarrow> 'a list list \<Rightarrow> 'a list" where
  "py_join sep [] = []"
| "py_join sep [x] = x"
| "py_join sep (x # y # ys) = x @ sep @ py_join sep (y # ys)"

definition py_startswith :: "string \<Rightarrow> string \<Rightarrow> bool" where
  "py_startswith s p = (take (length p) s = p)"

definition py_removeprefix :: "string \<Rightarrow> string \<Rightarrow> string" where
  "py_removeprefix s p = (if py_startswith s p then drop (length p) s else s)"

definition py_digit :: "char \<Rightarrow> bool" where
  "py_digit c = (let n = (of_char c :: nat) in 48 \<le> n \<and> n \<le> 57)"

lemma py_split_nonempty [simp]: "py_split c s \<noteq> []"
  by (induction s) (auto split: list.splits)

lemma py_join_Cons: "ys \<noteq> [] \<Longrightarrow> py_join sep (x # ys) = x @ sep @ py_join sep ys"
  by (cases ys) simp_all

lemma py_join_split: "py_join [c] (py_split c s) = s"
proof (induction s)
  case Nil
  then show ?case by simp
next
  case (Cons x xs)
  obtain p ps where p: "py_split c xs = p # ps"
    by (cases "py_split c xs") auto
  then show ?case using Cons.IH
    by (cases ps) (auto simp: py_join_Cons)
qed

lemma py_split_no_sep: "c \<notin> set p \<Longrightarrow> py_split c p = [p]"
  by (induction p) auto

lemma py_split_parts: "p \<in> set (py_split c s) \<Longrightarrow> c \<notin> set p"
  by (induction s arbitrary: p) (fastforce split: if_splits list.splits)+

lemma py_split_append:
  "c \<notin> set p \<Longrightarrow> py_split c (p @ c # s) = p # py_split c s"
  by (induction p) auto

lemma py_startswith_prefix: "py_startswith s p \<longleftrightarrow> prefix p s"
  unfolding py_startswith_def prefix_def by (metis append_eq_conv_conj append_take_drop_id)

lemma dropWhile_hd_id: "(s \<noteq> [] \<Longrightarrow> \<not> P (hd s)) \<Longrightarrow> dropWhile P s = s"
  by (cases s) simp_all

lemma ends_kept:
  assumes "s \<noteq> [] \<Longrightarrow> \<not> P (hd s) \<and> \<not> P (last s)"
  shows "rev (dropWhile P (rev (dropWhile P s))) = s"
  using assms dropWhile_hd_id [of s P] dropWhile_hd_id [of "rev s" P] by (simp add: hd_rev)

lemma stripped_ends:
  assumes "rev (dropWhile P (rev (dropWhile P s))) \<noteq> []" (is "?t \<noteq> []")
  shows "\<not> P (hd ?t) \<and> \<not> P (last ?t)"
proof -
  let ?l = "dropWhile P s"
  have r: "dropWhile P (rev ?l) \<noteq> []" using assms by simp
  then have l: "?l \<noteq> []" by (metis dropWhile.simps(1) rev.simps(1))
  have "last (dropWhile P (rev ?l)) = last (rev ?l)"
    using r by (metis last_append takeWhile_dropWhile_id)
  moreover have "\<not> P (hd ?l)" using hd_dropWhile [OF l] .
  ultimately show ?thesis using hd_dropWhile [OF r] r l by (simp add: hd_rev last_rev)
qed

lemma white_space_py: "white_space c \<Longrightarrow> py_space c"
  by (auto simp: white_space_def py_space_def Let_def)

lemma trim_no_space: "\<forall>c \<in> set s. \<not> py_space c \<Longrightarrow> trim s = s"
  unfolding trim_def by (rule ends_kept) (auto dest: white_space_py)

lemma trim_stripped: "py_strip s = s \<Longrightarrow> trim s = s"
  using stripped_ends [of py_space s] unfolding trim_def py_strip_def by (intro ends_kept) (auto dest: white_space_py)

lemma trim_idem: "trim (trim s) = trim s"
  using stripped_ends [of white_space s] unfolding trim_def by (intro ends_kept) simp

lemma strip_no_space: "\<forall>c \<in> set s. \<not> py_space c \<Longrightarrow> py_strip s = s"
  by (simp add: py_strip_def dropWhile_eq_self_iff) (metis dropWhile_hd_id hd_rev last_in_set rev_is_Nil_conv rev_rev_ident)

section \<open>Decimal notation\<close>

definition digit_char :: "nat \<Rightarrow> char" where
  "digit_char d = char_of (48 + d)"

fun show_nat :: "nat \<Rightarrow> string" where
  "show_nat n = (if n < 10 then [digit_char n] else show_nat (n div 10) @ [digit_char (n mod 10)])"

declare show_nat.simps [simp del]

definition show_int :: "int \<Rightarrow> string" where
  "show_int i = (if i < 0 then CHR ''-'' # show_nat (nat (- i)) else show_nat (nat i))"

lemma digit_char_digit: "d < 10 \<Longrightarrow> py_digit (digit_char d)"
  by (simp add: digit_char_def py_digit_def)

lemma show_nat_digits: "\<forall>c \<in> set (show_nat n). py_digit c"
proof (induction n rule: show_nat.induct)
  case (1 n)
  show ?case
    using 1 by (subst show_nat.simps) (auto simp: digit_char_digit)
qed

lemma show_nat_nonempty [simp]: "show_nat n \<noteq> []"
  by (subst show_nat.simps) simp

lemma show_nat_length: "0 < k \<Longrightarrow> n < 10 ^ k \<Longrightarrow> length (show_nat n) \<le> k"
proof (induction n arbitrary: k rule: show_nat.induct)
  case (1 n)
  show ?case
  proof (cases "n < 10")
    case True
    then show ?thesis using 1 by (subst show_nat.simps) simp
  next
    case False
    then obtain j where k: "k = Suc j" and j: "0 < j"
      using 1(2,3) by (cases k; cases "k - 1") auto
    then have "n div 10 < 10 ^ j"
      using 1(3) by (simp add: less_mult_imp_div_less mult.commute)
    then have "length (show_nat (n div 10)) \<le> j"
      using 1(1) [OF False j] by simp
    then show ?thesis using False k by (subst show_nat.simps) simp
  qed
qed

lemma digit_char_inj: "a < 10 \<Longrightarrow> b < 10 \<Longrightarrow> digit_char a = digit_char b \<Longrightarrow> a = b"
  by (auto simp: digit_char_def dest!: arg_cong [where f = "of_char :: char \<Rightarrow> nat"])

end
