(* ===== verification/Errors.thy ===== *)
theory Errors
  imports Prelude
begin

text \<open>
  The error vocabulary of \<open>shared_kernel/errors\<close> and the \<open>Result\<close> type of
  \<open>shared_kernel/ports/result.py\<close>: status codes, messages, details, \<open>AppException\<close>, and the
  exceptions a method of the model may raise.
\<close>

section \<open>Status codes and messages (errors/constants.py)\<close>

datatype status_code =
    INVALID_LOGIN_CREDENTIALS | INVALID_TOKEN_PROVIDED | ACCESS_TOKEN_REQUIRED
  | INVALID_PASSWORD | INVALID_OTP | OTP_ALREADY_VERIFIED | OTP_EXPIRED
  | INVALID_TOKEN_TYPE | INVALID_REFRESH_TOKEN | ACCESS_DENIED | UNAUTHORIZED
  | INVALID_ACCESS_TOKEN | OTP_RESEND_COOLDOWN
  | UNIQUE_CONSTRAINT | DUPLICATED | REQUIRED_VALUE | STRING_RANGE_LIMIT_EXCEEDED
  | REGEX_NOT_MATCH | INVALID_TYPE | NUMERIC_RANGE_LIMIT_EXCEEDED | LIST_INVALID_RANGE
  | VALIDATION_ERROR | INVALID_VALUE
  | REQUIRED_FILTER | INVALID_FILTER_LOOKUP | UNALLOWED_FILTER_LOOKUP | DUPLICATED_FILTER_FIELD
  | FILE_SIZE_LIMIT_EXCEEDED | FILE_NOT_FOUND_IN_FS | UNSUPPORTED_FILE_FORMAT
  | INVALID_FILE_FORMAT
  | OBJECT_NOT_FOUND | REQUEST_BODY_IS_EMPTY | NOT_ENOUGH_STOCK | INVALID_INPUT | NOT_FOUND
  | RESOURCE_HAS_DEPENDENCIES
  | TOO_SHORT_CONTENT
  | UNKNOWN_ERROR
  | DETAILED_ERROR | NETWORK_ERROR | UNEXPECTED_RESPONSE | TIMEOUT

fun status_value :: "status_code \<Rightarrow> int" where
  "status_value INVALID_LOGIN_CREDENTIALS = 100"
| "status_value INVALID_TOKEN_PROVIDED = 101"
| "status_value ACCESS_TOKEN_REQUIRED = 102"
| "status_value INVALID_PASSWORD = 103"
| "status_value INVALID_OTP = 104"
| "status_value OTP_ALREADY_VERIFIED = 105"
| "status_value OTP_EXPIRED = 106"
| "status_value INVALID_TOKEN_TYPE = 107"
| "status_value INVALID_REFRESH_TOKEN = 108"
| "status_value ACCESS_DENIED = 109"
| "status_value UNAUTHORIZED = 110"
| "status_value INVALID_ACCESS_TOKEN = 111"
| "status_value OTP_RESEND_COOLDOWN = 112"
| "status_value UNIQUE_CONSTRAINT = 200"
| "status_value DUPLICATED = 201"
| "status_value REQUIRED_VALUE = 202"
| "status_value STRING_RANGE_LIMIT_EXCEEDED = 203"
| "status_value REGEX_NOT_MATCH = 204"
| "status_value INVALID_TYPE = 205"
| "status_value NUMERIC_RANGE_LIMIT_EXCEEDED = 206"
| "status_value LIST_INVALID_RANGE = 207"
| "status_value VALIDATION_ERROR = 208"
| "status_value INVALID_VALUE = 209"
| "status_value REQUIRED_FILTER = 210"
| "status_value INVALID_FILTER_LOOKUP = 211"
| "status_value UNALLOWED_FILTER_LOOKUP = 212"
| "status_value DUPLICATED_FILTER_FIELD = 213"
| "status_value FILE_SIZE_LIMIT_EXCEEDED = 300"
| "status_value FILE_NOT_FOUND_IN_FS = 301"
| "status_value UNSUPPORTED_FILE_FORMAT = 302"
| "status_value INVALID_FILE_FORMAT = 303"
| "status_value OBJECT_NOT_FOUND = 400"
| "status_value REQUEST_BODY_IS_EMPTY = 401"
| "status_value NOT_ENOUGH_STOCK = 402"
| "status_value INVALID_INPUT = 403"
| "status_value NOT_FOUND = 404"
| "status_value RESOURCE_HAS_DEPENDENCIES = 411"
| "status_value TOO_SHORT_CONTENT = 500"
| "status_value UNKNOWN_ERROR = 1900"
| "status_value DETAILED_ERROR = 10000"
| "status_value NETWORK_ERROR = 10001"
| "status_value UNEXPECTED_RESPONSE = 10002"
| "status_value TIMEOUT = 10003"

datatype app_message =
    MNotFound | MAccessTokenRequired | MInvalidLoginCredentials | MInvalidTokenProvided
  | MInvalidTokenType | MFileSizeLimitExceeded | MUnsupportedFileFormat | MInvalidFileFormat
  | MInvalidValue | MFileNotFoundInFs | MRequestBodyIsEmpty | MUniqueConstraint | MRequiredValue
  | MInvalidOtp | MOtpAlreadyVerified | MOtpExpired | MOtpResendCooldown | MInvalidPassword
  | MLoginRequired | MAccessDenied | MRequiredFilter | MInvalidFilterLookup
  | MUnallowedFilterLookup | MDuplicatedFilterField | MDuplicatedFilterValue | MUnknownError
  | MDetailedError | MTooShortContent

fun message_text :: "app_message \<Rightarrow> string" where
  "message_text MNotFound = ''Not found''"
| "message_text MAccessTokenRequired = ''Access token is not provided.''"
| "message_text MInvalidLoginCredentials = ''Invalid login credentials.''"
| "message_text MInvalidTokenProvided = ''Invalid access key''"
| "message_text MInvalidTokenType = ''Invalid token type''"
| "message_text MFileSizeLimitExceeded = ''File size limit exceeded''"
| "message_text MUnsupportedFileFormat = ''Unsupported file format''"
| "message_text MInvalidFileFormat = ''Invalid file format''"
| "message_text MInvalidValue = ''Value format is invalid''"
| "message_text MFileNotFoundInFs = ''File exists in database, but not found in file system''"
| "message_text MRequestBodyIsEmpty = ''Request body is empty''"
| "message_text MUniqueConstraint = ''Unique constraint violated. One or more constraints violated''"
| "message_text MRequiredValue = ''Value is required''"
| "message_text MInvalidOtp = ''Invalid OTP provided''"
| "message_text MOtpAlreadyVerified = ''OTP has already been verified''"
| "message_text MOtpExpired = ''OTP has expired''"
| "message_text MOtpResendCooldown = ''OTP was requested too recently''"
| "message_text MInvalidPassword = ''Invalid password''"
| "message_text MLoginRequired = ''Login required''"
| "message_text MAccessDenied = ''Access denied''"
| "message_text MRequiredFilter = ''Filter required''"
| "message_text MInvalidFilterLookup = ''Invalid filter lookup was provided''"
| "message_text MUnallowedFilterLookup = ''Unallowed filter lookup was provided''"
| "message_text MDuplicatedFilterField = ''Filter field was duplicated''"
| "message_text MDuplicatedFilterValue = ''Filter value was duplicated''"
| "message_text MUnknownError = ''Unknown error''"
| "message_text MDetailedError = ''Detailed error. See details''"
| "message_text MTooShortContent = ''File content is too short''"

text \<open>\<open>str.capitalize\<close>: the first character upper case, the rest lower case.\<close>

fun py_capitalize :: "string \<Rightarrow> string" where
  "py_capitalize [] = []"
| "py_capitalize (c # cs) = upper_char c # py_lower cs"

definition add_prefix :: "app_message \<Rightarrow> string \<Rightarrow> string" where
  "add_prefix m pfx = py_capitalize pfx @ '' '' @ py_lower (message_text m)"

section \<open>Python values\<close>

text \<open>
  The values a detail's payload, a filter and a JSON document carry. \<open>VDec\<close> is
  \<open>decimal.Decimal\<close>; \<open>VDate\<close> counts days, \<open>VDatetime\<close> the microseconds of an aware datetime since the
  epoch, \<open>VNaive\<close> the microseconds of a naive one (no time zone) since the same wall-clock time; \<open>VEnum\<close> is a member
  of the named enum with its value.
\<close>

datatype pyval =
    VNone
  | VBool bool
  | VInt int
  | VDec rat
  | VStr string
  | VBytes "8 word list"
  | VDate int
  | VDatetime int
  | VNaive int
  | VEnum string pyval
  | VList "pyval list"
  | VTuple "pyval list"
  | VDict "(string \<times> pyval) list"

section \<open>AppExceptionDetail and AppException (errors/app\_exception.py)\<close>

record detail =
  d_status :: status_code
  d_code :: "string option"
  d_message :: "string option"
  d_field :: "string option"
  d_fields :: "string list option"
  d_payload :: "(string \<times> pyval) list"
  d_critical :: bool

definition mk_detail :: "status_code \<Rightarrow> string option \<Rightarrow> string option \<Rightarrow> detail" where
  "mk_detail st fld msg = \<lparr>d_status = st, d_code = None, d_message = msg, d_field = fld,
     d_fields = None, d_payload = [], d_critical = False\<rparr>"

record app_exc =
  ex_message :: string
  ex_status_code :: "int option"
  ex_exception_status :: "status_code option"
  ex_details :: "detail list option"

text \<open>
  What a method may raise. The classes are those the source raises or the libraries it calls
  document; the message of a \<open>RuntimeError\<close> or \<open>ValueError\<close> is kept, an \<open>HTTPException\<close> has its status,
  detail and extra (\<open>VNone\<close> when none was given), the rest carry what the
  error handlers read.
\<close>

datatype exn =
    RuntimeError string
  | ValueError string
  | KeyError string
  | TypeError string
  | AttributeError string
  | LookupError
  | InvalidOperation
  | IntegrityError string
  | MultipleResultsFound
  | ValidationError "(string list \<times> string) list"
  | HTTPException int string pyval
  | AppException app_exc
  | OtherError string

definition mk_app_exception ::
  "string \<Rightarrow> detail list option \<Rightarrow> status_code option \<Rightarrow> int option \<Rightarrow> (exn, app_exc) outcome" where
  "mk_app_exception message details exception_status status_code =
     (if details = None \<and> exception_status = None
      then Raise (ValueError ''At least one of `details` or `exception_status` must be provided'')
      else Ret \<lparr>ex_message = message, ex_status_code = status_code,
                ex_exception_status =
                  (if details = None then exception_status else Some DETAILED_ERROR),
                ex_details = details\<rparr>)"

text \<open>\<open>AppException.from_details\<close> passes the application code 10000 as the HTTP status code.\<close>

definition from_details :: "detail list \<Rightarrow> app_exc" where
  "from_details details =
     \<lparr>ex_message = message_text MDetailedError,
      ex_status_code = Some (status_value DETAILED_ERROR),
      ex_exception_status = Some DETAILED_ERROR,
      ex_details = Some details\<rparr>"

lemma from_details_constructor:
  "mk_app_exception (message_text MDetailedError) (Some ds) None (Some (status_value DETAILED_ERROR))
     = Ret (from_details ds)"
  by (simp add: mk_app_exception_def from_details_def)

section \<open>Result (ports/result.py)\<close>

datatype ('v, 'er) result = is_ok: Ok (ok_value: 'v) | is_err: Err (err_value: 'er)

type_synonym 'v result_detailed = "('v, detail list) result"

fun unwrap :: "('v, 'er) result \<Rightarrow> (exn, 'v) outcome" where
  "unwrap (Ok v) = Ret v"
| "unwrap (Err e) = Raise (RuntimeError ''called unwrap() on Err'')"

fun unwrap_or :: "('v, 'er) result \<Rightarrow> 'v \<Rightarrow> 'v" where
  "unwrap_or (Ok v) d = v"
| "unwrap_or (Err e) d = d"

fun unwrap_err :: "('v, 'er) result \<Rightarrow> (exn, 'er) outcome" where
  "unwrap_err (Err e) = Ret e"
| "unwrap_err (Ok v) = Raise (RuntimeError ''called unwrap_err() on Ok'')"

fun unwrap_anyway :: "('v, 'er) result \<Rightarrow> (exn, 'v + 'er) outcome" where
  "unwrap_anyway (Ok v) = Ret (Inl v)"
| "unwrap_anyway (Err e) = Ret (Inr e)"

fun map_ok :: "('v \<Rightarrow> 'u) \<Rightarrow> ('v, 'er) result \<Rightarrow> ('u, 'er) result" where
  "map_ok f (Ok v) = Ok (f v)"
| "map_ok f (Err e) = Err e"

fun map_err :: "('er \<Rightarrow> 'fr) \<Rightarrow> ('v, 'er) result \<Rightarrow> ('v, 'fr) result" where
  "map_err f (Err e) = Err (f e)"
| "map_err f (Ok v) = Ok v"

text \<open>
  \<open>as_app_exception\<close> is only reached with a list of details; an empty list is a list, so it is
  still "details given".
\<close>

fun as_app_exception :: "'v result_detailed \<Rightarrow> (exn, app_exc) outcome" where
  "as_app_exception (Err ds) =
     mk_app_exception (message_text MDetailedError) (Some ds) (Some DETAILED_ERROR) None"
| "as_app_exception (Ok v) = Raise (ValueError ''called to_exception() on Ok'')"

text \<open>\<open>merge_errs\<close> flattens an error that is itself a sequence and appends any other.\<close>

datatype 'er err_item = One 'er | Many "'er list"

fun merge_errs_loop :: "('v, 'er err_item) result list \<Rightarrow> 'er list \<Rightarrow> 'er list" where
  "merge_errs_loop [] errs = errs"
| "merge_errs_loop (Ok v # rs) errs = merge_errs_loop rs errs"
| "merge_errs_loop (Err (Many es) # rs) errs = merge_errs_loop rs (errs @ es)"
| "merge_errs_loop (Err (One e) # rs) errs = merge_errs_loop rs (errs @ [e])"

definition merge_errs :: "('v, 'er err_item) result list \<Rightarrow> (unit, 'er list) result" where
  "merge_errs results =
     (let errs = merge_errs_loop results [] in if errs = [] then Ok () else Err errs)"

definition from_errs :: "detail list \<Rightarrow> unit result_detailed" where
  "from_errs errs = (if errs \<noteq> [] then Err errs else Ok ())"

subsection \<open>Lemmas\<close>

fun item_errors :: "'er err_item \<Rightarrow> 'er list" where
  "item_errors (One e) = [e]"
| "item_errors (Many es) = es"

lemma merge_errs_loop_concat:
  "merge_errs_loop rs errs =
     errs @ concat (map (\<lambda>r. case r of Ok v \<Rightarrow> [] | Err i \<Rightarrow> item_errors i) rs)"
  by (induction rs errs rule: merge_errs_loop.induct) simp_all

text \<open>
  Merging results loses no error and invents none: the outcome is \<open>Ok\<close> exactly when no
  result carries an error, and otherwise it carries every error of every failed result, in order.
\<close>

theorem merge_errs_spec:
  "merge_errs rs =
     (let errs = concat (map (\<lambda>r. case r of Ok v \<Rightarrow> [] | Err i \<Rightarrow> item_errors i) rs)
      in if errs = [] then Ok () else Err errs)"
  by (simp add: merge_errs_def merge_errs_loop_concat)

lemma as_app_exception_Err [simp]:
  "as_app_exception (Err ds) =
     Ret \<lparr>ex_message = message_text MDetailedError, ex_status_code = None,
          ex_exception_status = Some DETAILED_ERROR, ex_details = Some ds\<rparr>"
  by (simp add: mk_app_exception_def)

end
