(* ===== verification/Utils.thy ===== *)
theory Utils
  imports Errors "HOL-Library.Code_Target_Nat"
begin

unbundle bit_operations_syntax

text \<open>
  The small pure functions of \<open>shared_kernel/utils\<close> and \<open>infra/functions\<close>: UUIDv7 values on
  128-bit words, one-time codes, money amounts, text clean-up, absolute URLs and the HTML bodies
  of the mails. A random source is an argument, so every function is a function of what it drew.
\<close>

type_synonym uuid = "128 word"

section \<open>UUIDv7 (uuid\_funcs.py)\<close>

text \<open>
  \<open>time_ns\<close> is \<open>time.time_ns()\<close> and \<open>entropy\<close> the ten bytes of \<open>os.urandom(10)\<close> as a
  big-endian number. The masks and shifts are the code's, on the 128 bits of the value.
\<close>

definition uuid7_fallback :: "nat \<Rightarrow> 80 word \<Rightarrow> uuid" where
  "uuid7_fallback time_ns entropy =
     (let unix_ms = (word_of_nat (time_ns div 1000000) :: 128 word);
          rand = (ucast entropy :: 128 word);
          rand_a = drop_bit 62 rand AND 0x0FFF;
          rand_b = rand AND 0x3FFFFFFFFFFFFFFF
      in push_bit 80 (unix_ms AND 0xFFFFFFFFFFFF) OR push_bit 76 0x7 OR push_bit 64 rand_a
         OR push_bit 62 2 OR rand_b)"

definition uuid_timestamp :: "uuid \<Rightarrow> nat" where
  "uuid_timestamp u = unat (drop_bit 80 u)"

section \<open>One-time codes and passwords (security\_funcs.py)\<close>

definition py_zfill :: "nat \<Rightarrow> string \<Rightarrow> string" where
  "py_zfill width s = replicate (width - length s) (CHR ''0'') @ s"

text \<open>\<open>secrets.randbelow(n)\<close> draws a number below \<open>n\<close>: the draw is any number, reduced.\<close>

definition randbelow :: "nat \<Rightarrow> nat \<Rightarrow> nat" where
  "randbelow draw n = draw mod n"

definition generate_numeric_otp :: "nat \<Rightarrow> nat \<Rightarrow> string" where
  "generate_numeric_otp draw len = py_zfill len (show_nat (randbelow draw (10 ^ len)))"

definition password_alphabet :: string where
  "password_alphabet = ''abcdefghijklmnopqrstuvwxyzABCDEFGHIJKLMNOPQRSTUVWXYZ0123456789''"

definition generate_password :: "(nat \<Rightarrow> nat) \<Rightarrow> string" where
  "generate_password draws =
     map (\<lambda>i. password_alphabet ! randbelow (draws i) (length password_alphabet)) [0..<12]"

section \<open>Money (numeric\_funcs.py)\<close>

text \<open>\<open>quantize(Decimal("0.01"), rounding=ROUND_HALF_UP)\<close>: the nearest hundredth, a tie away from zero.\<close>

definition half_up :: "rat \<Rightarrow> int" where
  "half_up q = (if q < 0 then - floor (- q + 1 / 2) else floor (q + 1 / 2))"

definition quantize_money :: "rat \<Rightarrow> rat" where
  "quantize_money number = of_int (half_up (number * 100)) / 100"

text \<open>\<open>int(Decimal)\<close> truncates toward zero.\<close>

definition rat_trunc :: "rat \<Rightarrow> int" where
  "rat_trunc q = (if q < 0 then - floor (- q) else floor q)"

definition split_amount :: "rat \<Rightarrow> int \<times> int" where
  "split_amount number =
     (let v = quantize_money number;
          whole = rat_trunc v;
          fractional = half_up (\<bar>v - of_int whole\<bar> * 100)
      in (whole, fractional))"

section \<open>Text (common\_funcs.py, url.py, mail\_templates.py)\<close>

lemma length_dropWhile_le_Suc [simp, termination_simp]: "length (dropWhile P xs) < Suc (length xs)"
  by (simp add: le_imp_less_Suc length_dropWhile_le)

text \<open>\<open>re.sub(r"\\s+", " ", v)\<close>: every run of whitespace becomes one space.\<close>

fun collapse_ws :: "string \<Rightarrow> string" where
  "collapse_ws [] = []"
| "collapse_ws (c # cs) =
     (if py_space c then CHR '' '' # collapse_ws (dropWhile py_space cs)
      else c # collapse_ws cs)"

definition parse_str :: "string \<Rightarrow> string" where
  "parse_str v = collapse_ws (py_strip v)"

definition parse_single_line_str :: "string \<Rightarrow> string" where
  "parse_single_line_str v = filter (\<lambda>c. c \<noteq> CHR 0x0A) (parse_str v)"

definition lstrip_slash :: "string \<Rightarrow> string" where
  "lstrip_slash s = dropWhile (\<lambda>c. c = CHR ''/'') s"

definition make_full_url :: "string \<Rightarrow> string \<Rightarrow> string" where
  "make_full_url base_url path = base_url @ ''/'' @ lstrip_slash path"

definition make_media_full_url :: "string \<Rightarrow> string \<Rightarrow> string" where
  "make_media_full_url base_url path = make_full_url base_url (''media/'' @ lstrip_slash path)"

text \<open>\<open>html.escape\<close> with \<open>quote=True\<close>, the default.\<close>

definition escape_char :: "char \<Rightarrow> string" where
  "escape_char c =
     (if c = CHR ''&'' then ''&amp;'' else if c = CHR ''<'' then ''&lt;''
      else if c = CHR ''>'' then ''&gt;'' else if c = CHR 0x22 then ''&quot;''
      else if c = CHR 0x27 then ''&#x27;'' else [c])"

definition html_escape :: "string \<Rightarrow> string" where
  "html_escape s = concat (map escape_char s)"

definition wrap_mail :: "string \<Rightarrow> string \<Rightarrow> string" where
  "wrap_mail title body =
     ''<html><body style='' @ [CHR 0x22] @ ''font-family:system-ui,sans-serif;line-height:1.5''
       @ [CHR 0x22] @ ''>'' @ ''<h2>'' @ html_escape title @ ''</h2>'' @ body @ ''</body></html>''"

definition confirmation_code_email :: "string \<Rightarrow> string \<Rightarrow> int \<Rightarrow> string" where
  "confirmation_code_email full_name code ttl_minutes =
     wrap_mail ''Confirm your email''
       (''<p>Hi '' @ html_escape full_name @ '',</p>'' @
        ''<p>Your confirmation code is <b style='' @ [CHR 0x27] @ ''font-size:20px'' @ [CHR 0x27]
          @ ''>'' @ html_escape code @ ''</b>.</p>'' @
        ''<p>It expires in '' @ show_int ttl_minutes @ '' minutes.</p>'')"

definition password_reset_code_email :: "string \<Rightarrow> int \<Rightarrow> string" where
  "password_reset_code_email code ttl_minutes =
     wrap_mail ''Reset your password''
       (''<p>Your password reset code is <b style='' @ [CHR 0x27] @ ''font-size:20px'' @ [CHR 0x27]
          @ ''>'' @ html_escape code @ ''</b>.</p>'' @
        ''<p>It expires in '' @ show_int ttl_minutes
          @ '' minutes. If you did not request it, ignore this email.</p>'')"

definition password_changed_email :: "string \<Rightarrow> string" where
  "password_changed_email full_name =
     wrap_mail ''Your password was changed''
       (''<p>Hi '' @ html_escape full_name @ '',</p>'' @
        ''<p>Your password has just been changed. If this was not you, contact support immediately.</p>'')"

section \<open>Lemmas\<close>

subsection \<open>UUIDv7\<close>

text \<open>The value as disjoint bit fields, which is what the bitwise proofs work on.\<close>

lemma uuid7_fields:
  "uuid7_fallback t r =
     push_bit 80 (word_of_nat (t div 1000000) AND mask 48) OR push_bit 76 (mask 3)
     OR push_bit 64 (drop_bit 62 (ucast r) AND mask 12) OR push_bit 63 (mask 1)
     OR (ucast r AND mask 62)"
  by (simp add: uuid7_fallback_def Let_def mask_eq_exp_minus_1)

lemmas uuid_bits = uuid7_fields bit_or_iff bit_and_iff bit_push_bit_iff bit_drop_bit_eq
  bit_mask_iff possible_bit_word comp_apply

lemma uuid7_top_bits:
  "drop_bit 80 (uuid7_fallback t r) = (word_of_nat (t div 1000000) AND mask 48 :: 128 word)"
  by (rule bit_word_eqI) (simp only: uuid_bits, auto)

lemma uuid7_version_bits: "drop_bit 76 (uuid7_fallback t r) AND mask 4 = mask 3"
  by (rule bit_word_eqI) (simp only: uuid_bits, auto)

lemma uuid7_variant_bits: "drop_bit 62 (uuid7_fallback t r) AND mask 2 = push_bit 1 (mask 1)"
  by (rule bit_word_eqI) (simp only: uuid_bits, auto)

lemma uuid7_timestamp:
  assumes "t div 1000000 < 2 ^ 48"
  shows "uuid_timestamp (uuid7_fallback t r) = t div 1000000"
proof -
  have "t div 1000000 < 2 ^ LENGTH(128)"
    by (rule less_le_trans [OF assms]) simp
  then show ?thesis
    using assms
    by (simp add: uuid_timestamp_def uuid7_top_bits take_bit_eq_mask [symmetric]
        unsigned_take_bit_eq unsigned_of_nat take_bit_nat_eq_self)
qed

lemma uuid_timestamp_less: "uuid_timestamp a < uuid_timestamp b \<Longrightarrow> a < b"
proof -
  assume "uuid_timestamp a < uuid_timestamp b"
  then have "unat a div 2 ^ 80 < unat b div 2 ^ 80"
    unfolding uuid_timestamp_def unat_drop_bit_eq by (simp only: drop_bit_eq_div)
  then have "unat a < unat b"
    by (meson div_le_mono leD le_less_linear)
  then show "a < b" by (simp add: word_less_nat_alt)
qed

text \<open>
  An id generated by the fallback carries version 7 and the RFC variant, its first 48
  bits are the millisecond of its creation, and an id made in a later millisecond is a larger
  number, whatever the random bits are: ids sort by creation time.
\<close>

theorem uuid7_shape_and_order:
  assumes "t div 1000000 < 2 ^ 48" and "t' div 1000000 < 2 ^ 48"
  shows "drop_bit 76 (uuid7_fallback t r) AND 0xF = 7
    \<and> drop_bit 62 (uuid7_fallback t r) AND 3 = 2
    \<and> uuid_timestamp (uuid7_fallback t r) = t div 1000000
    \<and> (t div 1000000 < t' div 1000000 \<longrightarrow> uuid7_fallback t r < uuid7_fallback t' r')"
  using uuid7_version_bits [of t r] uuid7_variant_bits [of t r] assms
  by (simp add: uuid7_timestamp mask_eq_exp_minus_1 uuid_timestamp_less)

theorem uuid7_shape_and_order_witness:
  "uuid7_fallback 1700000000000000000 5 < uuid7_fallback 1700000000001000000 3"
  using uuid7_shape_and_order [of 1700000000000000000 1700000000001000000 5 3] by simp

subsection \<open>One-time codes\<close>

text \<open>\<open>int(code)\<close>: the number a string of digits stands for.\<close>

definition read_digits :: "string \<Rightarrow> nat" where
  "read_digits s = foldl (\<lambda>n c. 10 * n + (of_char c - 48)) 0 s"

lemma read_digits_snoc [simp]: "read_digits (s @ [digit_char d]) = 10 * read_digits s + d"
  if "d < 10"
  using that by (simp add: read_digits_def digit_char_def)

lemma read_digits_show_nat: "read_digits (show_nat n) = n"
proof (induction n rule: show_nat.induct)
  case (1 n)
  show ?case
  proof (cases "n < 10")
    case True
    then have "read_digits ([] @ [digit_char n]) = n"
      by (subst read_digits_snoc) (simp_all add: read_digits_def)
    then show ?thesis using True by (subst show_nat.simps) simp
  next
    case False
    then show ?thesis using 1 by (subst show_nat.simps) simp
  qed
qed

lemma read_digits_zfill: "read_digits (py_zfill k s) = read_digits s"
proof -
  have "foldl (\<lambda>n c. 10 * n + (of_char c - 48)) 0 (replicate m (CHR ''0'')) = (0 :: nat)" for m
    by (induction m) simp_all
  then show ?thesis by (simp add: read_digits_def py_zfill_def)
qed

lemma numeric_otp_length: "0 < len \<Longrightarrow> length (generate_numeric_otp draw len) = len"
  using show_nat_length [of len "draw mod 10 ^ len"]
  by (simp add: generate_numeric_otp_def py_zfill_def randbelow_def)

lemma numeric_otp_digits: "c \<in> set (generate_numeric_otp draw len) \<Longrightarrow> py_digit c"
  using show_nat_digits [of "draw mod 10 ^ len"]
  by (auto simp: generate_numeric_otp_def py_zfill_def randbelow_def py_digit_def)

text \<open>
  Every one-time code has exactly the requested number of characters, all of them
  decimal digits, and it spells the number that was drawn: no two draws share a code, so the
  code is as unpredictable as the draw.
\<close>

theorem numeric_otp_spec:
  assumes "0 < len"
  shows "length (generate_numeric_otp draw len) = len
    \<and> list_all py_digit (generate_numeric_otp draw len)
    \<and> read_digits (generate_numeric_otp draw len) = randbelow draw (10 ^ len)"
  using assms
  by (simp add: numeric_otp_length list_all_iff numeric_otp_digits)
    (simp add: generate_numeric_otp_def read_digits_zfill read_digits_show_nat)

theorem numeric_otp_spec_witness: "length (generate_numeric_otp 42 6) = 6"
  using numeric_otp_spec [of 6 42] by simp

subsection \<open>Text\<close>

definition tidy :: "string \<Rightarrow> bool" where
  "tidy s \<longleftrightarrow> (\<forall>c \<in> set s. py_space c \<longrightarrow> c = CHR '' '')
     \<and> successively (\<lambda>a b. py_space a \<longrightarrow> \<not> py_space b) s
     \<and> (s \<noteq> [] \<longrightarrow> \<not> py_space (hd s) \<and> \<not> py_space (last s))"

lemma py_space_blank [simp]: "py_space (CHR '' '')"
  by (simp add: py_space_def)

lemma hd_dropWhile_py_space: "dropWhile P s \<noteq> [] \<Longrightarrow> \<not> P (hd (dropWhile P s))"
  by (rule hd_dropWhile)

lemma hd_collapse_ws: "s \<noteq> [] \<Longrightarrow> py_space (hd (collapse_ws s)) = py_space (hd s)"
  by (cases s) simp_all

lemma collapse_ws_empty [simp]: "collapse_ws s = [] \<longleftrightarrow> s = []"
  by (cases s) simp_all

lemma collapse_ws_blanks: "c \<in> set (collapse_ws s) \<Longrightarrow> py_space c \<Longrightarrow> c = CHR '' ''"
  by (induction s rule: collapse_ws.induct) (auto split: if_splits)

lemma collapse_ws_successively:
  "successively (\<lambda>a b. py_space a \<longrightarrow> \<not> py_space b) (collapse_ws s)"
proof (induction s rule: collapse_ws.induct)
  case (2 c cs)
  have "cs \<noteq> [] \<Longrightarrow> py_space (hd (collapse_ws cs)) = py_space (hd cs)"
    by (rule hd_collapse_ws)
  moreover have "dropWhile py_space cs \<noteq> [] \<Longrightarrow> \<not> py_space (hd (collapse_ws (dropWhile py_space cs)))"
    by (simp add: hd_collapse_ws hd_dropWhile_py_space)
  ultimately show ?case
    using 2 by (auto simp: successively_Cons)
qed simp

lemma dropWhile_last: "s \<noteq> [] \<Longrightarrow> \<not> P (last s) \<Longrightarrow> dropWhile P s \<noteq> [] \<and> last (dropWhile P s) = last s"
  by (induction s) auto

lemma last_collapse_ws: "s \<noteq> [] \<Longrightarrow> \<not> py_space (last s) \<Longrightarrow> \<not> py_space (last (collapse_ws s))"
proof (induction s rule: collapse_ws.induct)
  case (2 c cs)
  show ?case
  proof (cases "cs = []")
    case False
    then show ?thesis
      using 2 dropWhile_last [of cs py_space] by (auto split: if_splits)
  qed (use 2 in auto)
qed simp

lemma py_strip_ends:
  "py_strip s \<noteq> [] \<Longrightarrow> \<not> py_space (hd (py_strip s)) \<and> \<not> py_space (last (py_strip s))"
proof -
  let ?l = "dropWhile py_space s"
  let ?r = "dropWhile py_space (rev ?l)"
  assume ne: "py_strip s \<noteq> []"
  then have r: "?r \<noteq> []" by (simp only: py_strip_def rev_is_Nil_conv not_False_eq_True)
  then have l: "?l \<noteq> []" by (metis dropWhile.simps(1) rev.simps(1))
  have 1: "\<not> py_space (hd ?r)" using r by (rule hd_dropWhile)
  have "\<not> py_space (last (rev ?l))"
    using l hd_dropWhile [of py_space s] by (simp add: last_rev)
  then have "last ?r = last (rev ?l)"
    using l dropWhile_last [of "rev ?l" py_space] by simp
  then have 2: "\<not> py_space (last ?r)"
    using l hd_dropWhile [of py_space s] by (simp add: last_rev)
  show ?thesis
    using 1 2 r by (simp add: py_strip_def hd_rev last_rev)
qed

lemma parse_str_tidy: "tidy (parse_str s)"
  unfolding tidy_def parse_str_def
  using py_strip_ends [of s]
  by (auto simp: collapse_ws_blanks collapse_ws_successively hd_collapse_ws last_collapse_ws)

lemma tidy_strip: "tidy s \<Longrightarrow> py_strip s = s"
  using dropWhile_hd_id [of s py_space] dropWhile_hd_id [of "rev s" py_space]
  by (simp add: tidy_def py_strip_def hd_rev)

lemma tidy_collapse:
  "\<forall>c \<in> set s. py_space c \<longrightarrow> c = CHR '' '' \<Longrightarrow>
   successively (\<lambda>a b. py_space a \<longrightarrow> \<not> py_space b) s \<Longrightarrow> collapse_ws s = s"
proof (induction s rule: collapse_ws.induct)
  case (2 c cs)
  then have IH: "\<not> py_space c \<Longrightarrow> collapse_ws cs = cs"
    by (auto simp: successively_Cons)
  have "py_space c \<Longrightarrow> dropWhile py_space cs = cs"
    using 2 by (cases cs) (auto simp: successively_Cons)
  then show ?case using 2 IH by (auto simp: successively_Cons)
qed simp

text \<open>
  Text clean-up leaves no leading, trailing or doubled whitespace and no whitespace
  other than the space character, and cleaning twice is cleaning once.
\<close>

theorem parse_str_spec: "tidy (parse_str s) \<and> parse_str (parse_str s) = parse_str s"
proof -
  have t: "tidy (parse_str s)" by (rule parse_str_tidy)
  then have "collapse_ws (py_strip (parse_str s)) = parse_str s"
    unfolding tidy_strip [OF t] by (intro tidy_collapse) (auto simp: tidy_def)
  then show ?thesis using t by (simp add: parse_str_def)
qed

text \<open>
  A value escaped into a mail body can neither open a tag nor close an attribute:
  the escaped text holds no angle bracket and no quote.
\<close>

theorem html_escape_inert:
  "set (html_escape s) \<inter> {CHR ''<'', CHR ''>'', CHR 0x22, CHR 0x27} = {}"
  by (induction s) (auto simp: html_escape_def escape_char_def)

lemma html_escape_plain:
  "set s \<inter> {CHR ''&'', CHR ''<'', CHR ''>'', CHR 0x22, CHR 0x27} = {} \<Longrightarrow> html_escape s = s"
  by (induction s) (auto simp: html_escape_def escape_char_def)

subsection \<open>Money\<close>

lemma half_up_bounds: "\<bar>of_int (half_up q) - q\<bar> \<le> (1 / 2 :: rat)"
proof (cases "q < 0")
  case True
  then show ?thesis
    using floor_correct [of "- q + 1 / 2"] unfolding half_up_def abs_le_iff by (simp, linarith)
next
  case False
  then show ?thesis
    using floor_correct [of "q + 1 / 2"] unfolding half_up_def abs_le_iff by (simp, linarith)
qed

lemma half_up_int [simp]: "half_up (of_int k) = k"
  unfolding half_up_def by (auto simp: floor_unique)

lemma trunc_hundredths: "rat_trunc (of_int k / 100) = sgn k * (\<bar>k\<bar> div 100)"
proof -
  have f: "floor (of_int a / 100 :: rat) = a div 100" for a
    using floor_divide_of_int_eq [of a 100] by simp
  show ?thesis
    using f [of k] f [of "- k"] by (auto simp: rat_trunc_def sgn_if)
qed

lemma rem_hundredths:
  "\<bar>of_int k / 100 - of_int (sgn k * (\<bar>k\<bar> div 100))\<bar> * 100 = (of_int (\<bar>k\<bar> mod 100) :: rat)"
proof -
  define d m where "d = \<bar>k\<bar> div 100" and "m = \<bar>k\<bar> mod 100"
  have k: "k = sgn k * (100 * d + m)" and m: "0 \<le> m"
    by (simp_all add: d_def m_def sgn_mult_abs)
  have "(of_int k / 100 - of_int (sgn k * d)) * 100 = (of_int (sgn k * m) :: rat)"
    by (subst k) (simp add: field_simps)
  then have "\<bar>of_int k / 100 - of_int (sgn k * d)\<bar> * 100 = (\<bar>of_int (sgn k * m)\<bar> :: rat)"
    by (metis abs_mult abs_numeral)
  also have "\<dots> = of_int m"
    using m k by (cases "k = 0") (auto simp: abs_mult m_def simp flip: of_int_abs)
  finally show ?thesis by (simp add: d_def m_def)
qed

lemma split_amount_hundredths:
  "k = half_up (q * 100) \<Longrightarrow> split_amount q = (sgn k * (\<bar>k\<bar> div 100), \<bar>k\<bar> mod 100)"
  by (simp add: split_amount_def quantize_money_def trunc_hundredths rem_hundredths del: of_int_mult)

text \<open>
  An amount is rounded to the nearest hundredth before it is split: the hundredths are
  between 0 and 99, whole part and hundredths together are exactly the rounded amount (the carry
  of 1234.999 is not lost), and the rounding moves it by at most half a hundredth.
\<close>

theorem split_amount_spec:
  "case split_amount q of (whole, cents) \<Rightarrow>
     0 \<le> cents \<and> cents < 100
     \<and> of_int (100 * \<bar>whole\<bar> + cents) = 100 * \<bar>quantize_money q\<bar>
     \<and> \<bar>quantize_money q - q\<bar> \<le> 1 / 200"
proof -
  define k where "k = half_up (q * 100)"
  have b: "\<bar>of_int k / 100 - q\<bar> \<le> 1 / 200"
    using half_up_bounds [of "q * 100"] by (simp add: k_def abs_le_iff field_simps)
  have "100 * \<bar>sgn k * (\<bar>k\<bar> div 100)\<bar> + \<bar>k\<bar> mod 100 = \<bar>k\<bar>"
    by (simp add: abs_mult abs_sgn_eq)
  then have "(of_int (100 * \<bar>sgn k * (\<bar>k\<bar> div 100)\<bar> + \<bar>k\<bar> mod 100) :: rat) = of_int \<bar>k\<bar>"
    by (rule arg_cong)
  then show ?thesis
    using b split_amount_hundredths [OF k_def]
    by (simp add: quantize_money_def k_def [symmetric] del: of_int_add of_int_mult)
qed

end
