(* ===== verification/Orm.thy ===== *)
theory Orm
  imports Utils
begin

text \<open>
  The state every operation works on: the tables of the database as a committed and a working
  copy, the ORM session (pending inserts, loaded users with their original and current columns),
  the clock, the random sources, the outbox of mails and the files of the media root, and the
  order in which the server delivers the users a statement selects when the statement does not
  fix it (\<open>w_scan\<close>, a permutation: SQL promises no more); and the
  session's operations: flush with the audit listeners of \<open>event_listeners.py\<close>, commit, rollback,
  and the unit of work of \<open>unit_of_work.py\<close>.
\<close>

section \<open>Rows (data\_access/orm/*/models)\<close>

datatype content_type = CT_USER

datatype otp_kind = EMAIL_CONFIRMATION | FORGOT_PASSWORD

datatype blob_kind = BK_RAW | BK_IMAGE

datatype api_key_status = KEY_ACTIVE | KEY_INACTIVE | KEY_BLOCKED

fun otp_kind_value :: "otp_kind \<Rightarrow> int" where
  "otp_kind_value EMAIL_CONFIRMATION = 1"
| "otp_kind_value FORGOT_PASSWORD = 3"

text \<open>Timestamps are microseconds since the epoch; \<open>used_at\<close> and \<open>expires_at\<close> are epoch seconds.\<close>

record otp_row =
  o_id :: uuid
  o_created_at :: int
  o_otp :: "string option"
  o_content_id :: uuid
  o_content_type :: content_type
  o_kind :: otp_kind
  o_used_at :: "int option"
  o_expires_at :: int
  o_target_value :: string
  o_verified :: bool

record user_row =
  u_id :: uuid
  u_created_at :: int
  u_updated_at :: int
  u_status :: int
  u_email :: string
  u_password :: "string option"
  u_phone :: "string option"
  u_first_name :: string
  u_last_name :: string
  u_address :: "string option"
  u_description :: "string option"
  u_information :: "string option"
  u_avatar_id :: "uuid option"
  u_is_active :: bool
  u_is_superuser :: bool
  u_email_confirmed :: bool
  u_date_joined :: "int option"
  u_last_login_time :: "int option"

record blob_row =
  b_id :: uuid
  b_created_at :: int
  b_updated_at :: int
  b_created_by_id :: "uuid option"
  b_updated_by_id :: "uuid option"
  b_name :: string
  b_kind :: blob_kind
  b_content_type :: "string option"
  b_size :: "int option"
  b_path :: string
  b_medium_path :: "string option"
  b_thumbnail_path :: "string option"

record api_key_row =
  k_id :: uuid
  k_created_at :: int
  k_updated_at :: int
  k_key :: "8 word list"
  k_status :: api_key_status
  k_last_used_at :: "int option"
  k_owner_id :: uuid

record db =
  db_users :: "user_row list"
  db_otps :: "otp_row list"
  db_blobs :: "blob_row list"
  db_api_keys :: "api_key_row list"

text \<open>What the schema enforces: primary keys, the unique email, the foreign keys.\<close>

definition db_ok :: "db \<Rightarrow> bool" where
  "db_ok d \<longleftrightarrow>
     distinct (map u_id (db_users d)) \<and> distinct (map u_email (db_users d))
     \<and> distinct (map o_id (db_otps d)) \<and> distinct (map b_id (db_blobs d))
     \<and> distinct (map k_id (db_api_keys d))
     \<and> list_all (\<lambda>u. case u_avatar_id u of None \<Rightarrow> True
         | Some b \<Rightarrow> b \<in> set (map b_id (db_blobs d))) (db_users d)
     \<and> list_all (\<lambda>b. case b_created_by_id b of None \<Rightarrow> True
         | Some u \<Rightarrow> u \<in> set (map u_id (db_users d))) (db_blobs d)
     \<and> list_all (\<lambda>b. case b_updated_by_id b of None \<Rightarrow> True
         | Some u \<Rightarrow> u \<in> set (map u_id (db_users d))) (db_blobs d)
     \<and> list_all (\<lambda>k. k_owner_id k \<in> set (map u_id (db_users d))) (db_api_keys d)"

section \<open>The world\<close>

text \<open>A loaded or new user object of the session: its columns when loaded, and now.\<close>

record user_obj =
  uo_new :: bool
  uo_orig :: user_row
  uo_cur :: user_row

record mail =
  m_dest :: string
  m_subject :: string
  m_content :: string

record world =
  w_committed :: db
  w_work :: db
  w_objs :: "user_obj list"
  w_new_otps :: "otp_row list"
  w_new_blobs :: "blob_row list"
  w_new_keys :: "api_key_row list"
  w_clock :: "nat \<Rightarrow> int"
  w_tick :: nat
  w_dbnow :: int
  w_ids :: "nat \<Rightarrow> uuid"
  w_idn :: nat
  w_rand :: "nat \<Rightarrow> nat"
  w_randn :: nat
  w_mails :: "mail list"
  w_files :: "(string \<times> 8 word list) list"
  w_user :: "uuid option"
  w_scan :: "user_row list \<Rightarrow> user_row list"

type_synonym 'a app = "(world, exn, 'a) prog"

definition get_now :: "int app" where
  "get_now = (\<lambda>w. (Ret (w_clock w (w_tick w)), w\<lparr>w_tick := Suc (w_tick w)\<rparr>))"

text \<open>\<open>int(clock.get_utc_epoch())\<close>\<close>

definition utc_epoch_int :: "int app" where
  "utc_epoch_int = py_bind get_now (\<lambda>t. py_ret (t div 1000000))"

definition uuid7 :: "uuid app" where
  "uuid7 = (\<lambda>w. (Ret (w_ids w (w_idn w)), w\<lparr>w_idn := Suc (w_idn w)\<rparr>))"

definition draw :: "nat app" where
  "draw = (\<lambda>w. (Ret (w_rand w (w_randn w)), w\<lparr>w_randn := Suc (w_randn w)\<rparr>))"

definition send_mail :: "mail \<Rightarrow> unit app" where
  "send_mail m = py_write (\<lambda>w. w\<lparr>w_mails := w_mails w @ [m]\<rparr>)"

section \<open>Transactions\<close>

definition clear_session :: "world \<Rightarrow> world" where
  "clear_session w = w\<lparr>w_objs := [], w_new_otps := [], w_new_blobs := [], w_new_keys := []\<rparr>"

definition rollback_world :: "world \<Rightarrow> world" where
  "rollback_world w = (clear_session w)\<lparr>w_work := w_committed w\<rparr>"

definition rollback :: "unit app" where
  "rollback = py_write rollback_world"

text \<open>
  A statement that changes the working copy. One that violates a constraint aborts the
  transaction, and the session drops what it held.
\<close>

definition sql_write :: "(db \<Rightarrow> db) \<Rightarrow> unit app" where
  "sql_write f = (\<lambda>w.
     if db_ok (f (w_work w)) then (Ret (), w\<lparr>w_work := f (w_work w)\<rparr>)
     else (Raise (IntegrityError ''constraint violated''), rollback_world w))"

text \<open>
  \<open>before_insert\<close>: \<open>created_at\<close> is stamped from the application's clock, \<open>created_by_id\<close> from the
  execution context when it is not set; \<open>updated_at\<close> is the column default \<open>now()\<close>.
\<close>

definition insert_user :: "user_row \<Rightarrow> unit app" where
  "insert_user r = py_bind get_now (\<lambda>now. py_bind (py_read w_dbnow) (\<lambda>t.
     sql_write (\<lambda>d. d\<lparr>db_users := db_users d @ [r\<lparr>u_created_at := now, u_updated_at := t\<rparr>]\<rparr>)))"

definition insert_otp :: "otp_row \<Rightarrow> unit app" where
  "insert_otp r = py_bind get_now (\<lambda>now. py_bind uuid7 (\<lambda>i.
     sql_write (\<lambda>d. d\<lparr>db_otps := db_otps d @ [r\<lparr>o_id := i, o_created_at := now\<rparr>]\<rparr>)))"

definition current_user_id :: "uuid option app" where
  "current_user_id = py_read w_user"

definition insert_blob :: "blob_row \<Rightarrow> unit app" where
  "insert_blob r = py_bind get_now (\<lambda>now. py_bind (py_read w_dbnow) (\<lambda>t.
     py_bind current_user_id (\<lambda>me.
     sql_write (\<lambda>d. d\<lparr>db_blobs := db_blobs d @
       [r\<lparr>b_created_at := now, b_updated_at := t,
          b_created_by_id := (case b_created_by_id r of None \<Rightarrow> me | Some u \<Rightarrow> Some u)\<rparr>]\<rparr>))))"

definition insert_key :: "api_key_row \<Rightarrow> unit app" where
  "insert_key r = py_bind get_now (\<lambda>now. py_bind (py_read w_dbnow) (\<lambda>t.
     sql_write (\<lambda>d. d\<lparr>db_api_keys := db_api_keys d @
       [r\<lparr>k_created_at := now, k_updated_at := t\<rparr>]\<rparr>)))"

text \<open>An ORM \<open>UPDATE\<close> sets the columns whose value changed since the object was loaded.\<close>

definition pick :: "'a \<Rightarrow> 'a \<Rightarrow> 'a \<Rightarrow> 'a" where
  "pick old new stored = (if new = old then stored else new)"

definition merge_user :: "user_row \<Rightarrow> user_row \<Rightarrow> user_row \<Rightarrow> user_row" where
  "merge_user a b r = \<lparr>u_id = u_id r,
     u_created_at = u_created_at r,
     u_updated_at = pick (u_updated_at a) (u_updated_at b) (u_updated_at r),
     u_status = pick (u_status a) (u_status b) (u_status r),
     u_email = pick (u_email a) (u_email b) (u_email r),
     u_password = pick (u_password a) (u_password b) (u_password r),
     u_phone = pick (u_phone a) (u_phone b) (u_phone r),
     u_first_name = pick (u_first_name a) (u_first_name b) (u_first_name r),
     u_last_name = pick (u_last_name a) (u_last_name b) (u_last_name r),
     u_address = pick (u_address a) (u_address b) (u_address r),
     u_description = pick (u_description a) (u_description b) (u_description r),
     u_information = pick (u_information a) (u_information b) (u_information r),
     u_avatar_id = pick (u_avatar_id a) (u_avatar_id b) (u_avatar_id r),
     u_is_active = pick (u_is_active a) (u_is_active b) (u_is_active r),
     u_is_superuser = pick (u_is_superuser a) (u_is_superuser b) (u_is_superuser r),
     u_email_confirmed = pick (u_email_confirmed a) (u_email_confirmed b) (u_email_confirmed r),
     u_date_joined = pick (u_date_joined a) (u_date_joined b) (u_date_joined r),
     u_last_login_time = pick (u_last_login_time a) (u_last_login_time b) (u_last_login_time r)\<rparr>"

definition update_user_obj :: "user_row \<Rightarrow> user_row \<Rightarrow> unit app" where
  "update_user_obj a b = py_bind get_now (\<lambda>now.
     sql_write (\<lambda>d. d\<lparr>db_users := map (\<lambda>r. if u_id r = u_id a
       then merge_user a (b\<lparr>u_updated_at := now\<rparr>) r else r) (db_users d)\<rparr>))"

definition flush_user :: "user_obj \<Rightarrow> unit app" where
  "flush_user ob =
     (if uo_new ob then insert_user (uo_cur ob)
      else if uo_cur ob = uo_orig ob then py_ret ()
      else update_user_obj (uo_orig ob) (uo_cur ob))"

text \<open>After a flush every object of the session is persistent and unchanged.\<close>

definition settle :: "world \<Rightarrow> world" where
  "settle w = w\<lparr>w_objs := map (\<lambda>ob. ob\<lparr>uo_new := False, uo_orig := uo_cur ob\<rparr>) (w_objs w),
     w_new_otps := [], w_new_blobs := [], w_new_keys := []\<rparr>"

definition flush :: "unit app" where
  "flush =
     py_bind (py_read w_new_blobs) (\<lambda>blobs. py_bind (py_for blobs insert_blob) (\<lambda>_.
     py_bind (py_read w_objs) (\<lambda>objs. py_bind (py_for objs flush_user) (\<lambda>_.
     py_bind (py_read w_new_otps) (\<lambda>otps. py_bind (py_for otps insert_otp) (\<lambda>_.
     py_bind (py_read w_new_keys) (\<lambda>new_keys. py_bind (py_for new_keys insert_key) (\<lambda>_.
     py_write settle))))))))"

definition commit :: "unit app" where
  "commit = py_bind flush (\<lambda>_. py_write (\<lambda>w. w\<lparr>w_committed := w_work w\<rparr>))"

text \<open>
  \<open>async with self._uow\<close>: on an exception roll back and re-raise, otherwise commit (an early
  \<open>return\<close> of the body included); the session is closed in either case.
\<close>

definition with_uow :: "'a app \<Rightarrow> 'a app" where
  "with_uow body = (\<lambda>w.
     let (r, w') =
       (case body w of
          (Raise e, w1) \<Rightarrow> (Raise e, rollback_world w1)
        | (Ret a, w1) \<Rightarrow>
            (case commit w1 of (Raise e, w2) \<Rightarrow> (Raise e, w2) | (Ret _, w2) \<Rightarrow> (Ret a, w2)))
     in (r, rollback_world w'))"

section \<open>Reading\<close>

text \<open>\<open>one_or_none\<close> and \<open>scalar_one_or_none\<close>\<close>

fun one_or_none :: "'a list \<Rightarrow> 'a option app" where
  "one_or_none [] = py_ret None"
| "one_or_none [x] = py_ret (Some x)"
| "one_or_none (x # y # zs) = py_raise MultipleResultsFound"

definition select_users :: "(user_row \<Rightarrow> bool) \<Rightarrow> user_row list app" where
  "select_users P = py_read (\<lambda>w. filter P (db_users (w_work w)))"

definition select_otps :: "(otp_row \<Rightarrow> bool) \<Rightarrow> otp_row list app" where
  "select_otps P = py_read (\<lambda>w. filter P (db_otps (w_work w)))"

definition select_blobs :: "(blob_row \<Rightarrow> bool) \<Rightarrow> blob_row list app" where
  "select_blobs P = py_read (\<lambda>w. filter P (db_blobs (w_work w)))"

text \<open>
  Selecting the mapped class puts the object into the session; an object the session already
  holds keeps its unflushed changes.
\<close>

definition remember :: "user_row \<Rightarrow> world \<Rightarrow> world" where
  "remember r w =
     (if list_ex (\<lambda>ob. u_id (uo_cur ob) = u_id r) (w_objs w) then w
      else w\<lparr>w_objs := w_objs w @ [\<lparr>uo_new = False, uo_orig = r, uo_cur = r\<rparr>]\<rparr>)"

text \<open>The columns of a user object of the session, read, loaded and assigned.\<close>

definition obj_row :: "uuid \<Rightarrow> user_row app" where
  "obj_row i = (\<lambda>w. case find (\<lambda>ob. u_id (uo_cur ob) = i) (w_objs w) of
       Some ob \<Rightarrow> (Ret (uo_cur ob), w)
     | None \<Rightarrow> (Raise (OtherError ''DetachedInstanceError''), w))"

definition load_user :: "(user_row \<Rightarrow> bool) \<Rightarrow> user_row option app" where
  "load_user P = py_bind (select_users P) (\<lambda>rows. py_bind (one_or_none rows) (\<lambda>x.
     case x of None \<Rightarrow> py_ret None
     | Some r \<Rightarrow> py_bind (py_write (remember r)) (\<lambda>_.
         py_bind (obj_row (u_id r)) (\<lambda>cur. py_ret (Some cur)))))"

definition obj_set :: "uuid \<Rightarrow> (user_row \<Rightarrow> user_row) \<Rightarrow> unit app" where
  "obj_set i f = py_write (\<lambda>w. w\<lparr>w_objs :=
     map (\<lambda>ob. if u_id (uo_cur ob) = i then ob\<lparr>uo_cur := f (uo_cur ob)\<rparr> else ob) (w_objs w)\<rparr>)"

definition obj_add :: "user_row \<Rightarrow> unit app" where
  "obj_add r = py_write (\<lambda>w. w\<lparr>w_objs := w_objs w @ [\<lparr>uo_new = True, uo_orig = r, uo_cur = r\<rparr>]\<rparr>)"

section \<open>Lemmas\<close>

lemmas world_defs = get_now_def utc_epoch_int_def uuid7_def draw_def send_mail_def rollback_def
  sql_write_def obj_set_def obj_add_def remember_def settle_def rollback_world_def clear_session_def

subsection \<open>What an operation keeps of the two database copies\<close>

definition on_db :: "(db \<Rightarrow> db \<Rightarrow> bool) \<Rightarrow> world \<Rightarrow> bool" where
  "on_db Q w \<longleftrightarrow> Q (w_committed w) (w_work w)"

text \<open>A predicate a rollback keeps, and one a commit keeps.\<close>

definition rollback_closed :: "(db \<Rightarrow> db \<Rightarrow> bool) \<Rightarrow> bool" where
  "rollback_closed Q \<longleftrightarrow> (\<forall>c k. Q c k \<longrightarrow> Q c c)"

definition commit_closed :: "(db \<Rightarrow> db \<Rightarrow> bool) \<Rightarrow> bool" where
  "commit_closed Q \<longleftrightarrow> (\<forall>c k. Q c k \<longrightarrow> Q k k)"

text \<open>A change of the working copy that keeps the predicate when the schema accepts it.\<close>

definition write_closed :: "(db \<Rightarrow> db \<Rightarrow> bool) \<Rightarrow> (db \<Rightarrow> db) \<Rightarrow> bool" where
  "write_closed Q f \<longleftrightarrow> (\<forall>c k. Q c k \<longrightarrow> db_ok (f k) \<longrightarrow> Q c (f k))"

lemma on_db_session [simp]:
  "on_db Q (w\<lparr>w_tick := a\<rparr>) = on_db Q w" "on_db Q (w\<lparr>w_idn := a\<rparr>) = on_db Q w"
  "on_db Q (w\<lparr>w_randn := a\<rparr>) = on_db Q w" "on_db Q (w\<lparr>w_mails := m\<rparr>) = on_db Q w"
  "on_db Q (w\<lparr>w_objs := os\<rparr>) = on_db Q w" "on_db Q (w\<lparr>w_new_otps := no\<rparr>) = on_db Q w"
  "on_db Q (w\<lparr>w_new_blobs := nb\<rparr>) = on_db Q w" "on_db Q (w\<lparr>w_new_keys := nk\<rparr>) = on_db Q w"
  "on_db Q (w\<lparr>w_files := fs\<rparr>) = on_db Q w" "on_db Q (w\<lparr>w_user := us\<rparr>) = on_db Q w"
  by (simp_all add: on_db_def)

lemma keeps_on_db_basic [keeps_intros]:
  "keeps (on_db Q) get_now" "keeps (on_db Q) uuid7" "keeps (on_db Q) draw"
  "keeps (on_db Q) (send_mail m)" "keeps (on_db Q) (obj_set i f)" "keeps (on_db Q) (obj_add r)"
  "keeps (on_db Q) (py_write settle)" "keeps (on_db Q) (py_write (remember r))"
  "keeps (on_db Q) (select_users P)" "keeps (on_db Q) (select_otps P')"
  "keeps (on_db Q) (select_blobs P'')"
  by (auto simp: keeps_def world_defs select_users_def select_otps_def select_blobs_def)

lemma keeps_utc_epoch_int [keeps_intros]: "keeps (on_db Q) utc_epoch_int"
  unfolding utc_epoch_int_def by (intro keeps_intros)

lemma keeps_obj_row [keeps_intros]: "keeps P (obj_row i)"
  by (auto simp: keeps_def obj_row_def split: option.splits)

lemma keeps_one_or_none [keeps_intros]: "keeps P (one_or_none xs)"
  by (induction xs rule: one_or_none.induct) (simp_all only: one_or_none.simps keeps_intros)

lemma keeps_load_user [keeps_intros]: "keeps (on_db Q) (load_user P)"
  unfolding load_user_def by (intro keeps_intros)

lemma keeps_rollback [keeps_intros]: "rollback_closed Q \<Longrightarrow> keeps (on_db Q) rollback"
  by (auto simp: keeps_def world_defs on_db_def rollback_closed_def)

lemma on_db_rollback_world: "rollback_closed Q \<Longrightarrow> on_db Q w \<Longrightarrow> on_db Q (rollback_world w)"
  by (auto simp: world_defs on_db_def rollback_closed_def)

lemma keeps_sql_write [keeps_intros]:
  "rollback_closed Q \<Longrightarrow> write_closed Q f \<Longrightarrow> keeps (on_db Q) (sql_write f)"
  by (auto simp: keeps_def sql_write_def on_db_rollback_world)
    (simp add: on_db_def write_closed_def)

text \<open>A predicate on which no insert and no column update of the session has an effect.\<close>

definition flush_closed :: "(db \<Rightarrow> db \<Rightarrow> bool) \<Rightarrow> bool" where
  "flush_closed Q \<longleftrightarrow>
     (\<forall>r. write_closed Q (\<lambda>d. d\<lparr>db_users := db_users d @ [r]\<rparr>))
     \<and> (\<forall>r. write_closed Q (\<lambda>d. d\<lparr>db_otps := db_otps d @ [r]\<rparr>))
     \<and> (\<forall>r. write_closed Q (\<lambda>d. d\<lparr>db_blobs := db_blobs d @ [r]\<rparr>))
     \<and> (\<forall>r. write_closed Q (\<lambda>d. d\<lparr>db_api_keys := db_api_keys d @ [r]\<rparr>))
     \<and> (\<forall>i a b. write_closed Q (\<lambda>d. d\<lparr>db_users :=
           map (\<lambda>r. if u_id r = i then merge_user a b r else r) (db_users d)\<rparr>))"

lemma keeps_flush_rows:
  assumes "rollback_closed Q" "flush_closed Q"
  shows "keeps (on_db Q) (insert_user r)" "keeps (on_db Q) (insert_otp q)"
    "keeps (on_db Q) (insert_blob s)" "keeps (on_db Q) (insert_key k)"
    "keeps (on_db Q) (update_user_obj a b)"
  using assms
  unfolding insert_user_def insert_otp_def insert_blob_def insert_key_def update_user_obj_def
    current_user_id_def flush_closed_def
  by (intro keeps_intros; simp)+

lemma keeps_flush_user:
  "rollback_closed Q \<Longrightarrow> flush_closed Q \<Longrightarrow> keeps (on_db Q) (flush_user ob)"
  unfolding flush_user_def by (intro keeps_intros keeps_flush_rows)

lemma keeps_flush [keeps_intros]:
  "rollback_closed Q \<Longrightarrow> flush_closed Q \<Longrightarrow> keeps (on_db Q) flush"
  unfolding flush_def by (intro keeps_intros keeps_flush_rows keeps_flush_user)

lemma keeps_commit [keeps_intros]:
  "rollback_closed Q \<Longrightarrow> flush_closed Q \<Longrightarrow> commit_closed Q \<Longrightarrow> keeps (on_db Q) commit"
  unfolding commit_def
  by (intro keeps_intros keeps_write) (auto simp: on_db_def commit_closed_def)

lemma keeps_with_uow [keeps_intros]:
  assumes "rollback_closed Q" "flush_closed Q" "commit_closed Q" "keeps (on_db Q) body"
  shows "keeps (on_db Q) (with_uow body)"
proof (rule keepsI)
  fix w assume w: "on_db Q w"
  note c = keeps_commit [OF assms(1-3)] and r = on_db_rollback_world [OF assms(1)]
  show "on_db Q (snd (with_uow body w))"
    unfolding with_uow_def
    by (auto split: prod.splits outcome.splits
        intro!: r intro: keepsE [OF c] keepsE [OF assms(4) _ w])
qed

subsection \<open>The schema's constraints hold at every moment\<close>

definition db_sound :: "db \<Rightarrow> db \<Rightarrow> bool" where
  "db_sound c k \<longleftrightarrow> db_ok c \<and> db_ok k"

lemma db_sound_closed [keeps_intros]:
  "rollback_closed db_sound" "commit_closed db_sound" "flush_closed db_sound"
  by (auto simp: rollback_closed_def commit_closed_def flush_closed_def write_closed_def db_sound_def)

lemma db_sound_write_closed [keeps_intros]: "write_closed db_sound f"
  by (simp add: write_closed_def db_sound_def)

subsection \<open>The committed copy changes at commit only\<close>

definition committed_is :: "db \<Rightarrow> db \<Rightarrow> db \<Rightarrow> bool" where
  "committed_is d c k \<longleftrightarrow> c = d"

lemma committed_is_closed [keeps_intros]:
  "rollback_closed (committed_is d)" "flush_closed (committed_is d)"
  "write_closed (committed_is d) f"
  by (auto simp: rollback_closed_def flush_closed_def write_closed_def committed_is_def)

definition session_clear :: "world \<Rightarrow> bool" where
  "session_clear w \<longleftrightarrow> w_work w = w_committed w \<and> w_objs w = [] \<and> w_new_otps w = []
     \<and> w_new_blobs w = [] \<and> w_new_keys w = []"

lemma session_clear_rollback [simp]: "session_clear (rollback_world w)"
  by (simp add: session_clear_def world_defs)

lemma committed_rollback [simp]: "w_committed (rollback_world w) = w_committed w"
  by (simp add: world_defs)

lemma with_uow_session_clear: "session_clear (snd (with_uow body w))"
  by (auto simp: with_uow_def split: prod.splits outcome.splits)

lemma with_uow_Raise:
  "body w = (Raise e, w1) \<Longrightarrow> with_uow body w = (Raise e, rollback_world (rollback_world w1))"
  by (simp add: with_uow_def)

lemma with_uow_fail:
  "body w = (Ret a, w1) \<Longrightarrow> commit w1 = (Raise e, w2) \<Longrightarrow>
     with_uow body w = (Raise e, rollback_world w2)"
  by (simp add: with_uow_def)

lemma with_uow_Ret:
  "body w = (Ret a, w1) \<Longrightarrow> commit w1 = (Ret b, w2) \<Longrightarrow>
     with_uow body w = (Ret a, rollback_world w2)"
  by (simp add: with_uow_def)

lemma commit_failed_committed: "commit w = (Raise e, w') \<Longrightarrow> w_committed w' = w_committed w"
proof -
  assume c: "commit w = (Raise e, w')"
  then have "flush w = (Raise e, w')"
    by (auto simp: commit_def py_bind_app split: prod.splits outcome.splits)
  moreover have "keeps (on_db (committed_is (w_committed w))) flush"
    by (intro keeps_intros)
  ultimately show ?thesis
    by (auto dest!: keepsE simp: on_db_def committed_is_def)
qed

lemma commit_Ret: "commit w = (Ret a, w') \<Longrightarrow>
    \<exists>w1. flush w = (Ret (), w1) \<and> w' = w1\<lparr>w_committed := w_work w1\<rparr>"
  by (auto simp: commit_def py_bind_app split: prod.splits outcome.splits)

text \<open>
  Claim C8. A unit of work is all or nothing, for every body that does not commit by itself: when
  it raises (in the body or in the commit) the committed tables are exactly what they were, when
  it returns they are the flushed working copy of the body; and in either case the session is
  left empty, with no open transaction and no pending object.
\<close>

theorem with_uow_atomic:
  assumes "keeps (on_db (committed_is (w_committed w))) body"
  shows "session_clear (snd (with_uow body w))
    \<and> (case with_uow body w of
         (Raise e, w') \<Rightarrow> w_committed w' = w_committed w
       | (Ret a, w') \<Rightarrow> (\<exists>w1 w2. body w = (Ret a, w1) \<and> flush w1 = (Ret (), w2)
            \<and> w_committed w' = w_work w2))"
proof -
  have b: "body w = (r, w1) \<Longrightarrow> w_committed w1 = w_committed w" for r w1
    using keepsE [OF assms] by (force simp: on_db_def committed_is_def)
  obtain r w1 where bw: "body w = (r, w1)" by (cases "body w")
  obtain q w2 where cw: "commit w1 = (q, w2)" by (cases "commit w1")
  show ?thesis
  proof (cases r)
    case (Raise e)
    then show ?thesis using bw by (simp add: with_uow_Raise b [OF bw])
  next
    case (Ret a)
    show ?thesis
    proof (cases q)
      case (Raise e)
      then show ?thesis
        using bw cw Ret by (simp add: with_uow_fail commit_failed_committed b [OF bw])
    next
      case q: (Ret u)
      obtain w3 where "flush w1 = (Ret (), w3)" "w2 = w3\<lparr>w_committed := w_work w3\<rparr>"
        using commit_Ret cw q by blast
      then show ?thesis using bw cw Ret q by (simp add: with_uow_Ret)
    qed
  qed
qed

subsection \<open>A session that changed nothing\<close>

text \<open>No pending object, no changed object, and the working copy is the committed one.\<close>

definition clean_obj :: "user_obj \<Rightarrow> bool" where
  "clean_obj ob \<longleftrightarrow> \<not> uo_new ob \<and> uo_cur ob = uo_orig ob"

definition untouched :: "db \<Rightarrow> world \<Rightarrow> bool" where
  "untouched d w \<longleftrightarrow> w_committed w = d \<and> w_work w = d \<and> list_all clean_obj (w_objs w)
     \<and> w_new_otps w = [] \<and> w_new_blobs w = [] \<and> w_new_keys w = []"

lemma session_clear_untouched: "session_clear w \<Longrightarrow> untouched (w_committed w) w"
  by (simp add: session_clear_def untouched_def)

lemma untouched_rollback: "w_committed w = d \<Longrightarrow> untouched d (rollback_world w)"
  by (simp add: untouched_def world_defs)

lemma untouched_frame [simp]:
  "untouched d (w\<lparr>w_tick := a\<rparr>) = untouched d w" "untouched d (w\<lparr>w_idn := a\<rparr>) = untouched d w"
  "untouched d (w\<lparr>w_randn := a\<rparr>) = untouched d w" "untouched d (w\<lparr>w_mails := m\<rparr>) = untouched d w"
  "untouched d (w\<lparr>w_files := fs\<rparr>) = untouched d w" "untouched d (w\<lparr>w_user := us\<rparr>) = untouched d w"
  by (simp_all add: untouched_def)

lemma keeps_untouched [keeps_intros]:
  "keeps (untouched d) get_now" "keeps (untouched d) uuid7" "keeps (untouched d) draw"
  "keeps (untouched d) (send_mail m)" "keeps (untouched d) (select_users P)"
  "keeps (untouched d) (select_otps P')" "keeps (untouched d) (select_blobs P'')"
  "keeps (untouched d) rollback" "keeps (untouched d) (py_write (remember r))"
  by (auto simp: keeps_def get_now_def uuid7_def draw_def send_mail_def select_users_def
      select_otps_def select_blobs_def rollback_def untouched_rollback)
    (auto simp: untouched_def remember_def clean_obj_def rollback_world_def clear_session_def)

lemma keeps_untouched_composed [keeps_intros]:
  "keeps (untouched d) utc_epoch_int" "keeps (untouched d) (load_user P)"
  unfolding utc_epoch_int_def load_user_def by (intro keeps_intros)+

lemma flush_users_clean:
  "list_all clean_obj obs \<Longrightarrow> py_for obs flush_user w = (Ret (), w)"
  by (induction obs) (simp_all add: flush_user_def clean_obj_def py_bind_app)

lemma flush_untouched:
  assumes "untouched d w"
  shows "\<exists>w'. flush w = (Ret (), w') \<and> untouched d w'"
proof -
  have "flush w = (Ret (), settle w)"
    using assms by (simp add: flush_def untouched_def py_bind_app flush_users_clean)
  moreover have "untouched d (settle w)"
    using assms by (auto simp: untouched_def settle_def list_all_iff clean_obj_def)
  ultimately show ?thesis by blast
qed

lemma commit_untouched:
  assumes "untouched d w"
  shows "\<exists>w'. commit w = (Ret (), w') \<and> untouched d w'"
proof -
  obtain w1 where "flush w = (Ret (), w1)" "untouched d w1"
    using flush_untouched [OF assms] by blast
  then show ?thesis by (auto simp: commit_def py_bind_app untouched_def)
qed

text \<open>A unit of work whose body changed nothing leaves the committed tables as they were.\<close>

lemma with_uow_untouched:
  assumes "hoare (untouched d) body (\<lambda>a w. R a \<longrightarrow> untouched d w) (\<lambda>_ _. True)"
    and "keeps (on_db (committed_is d)) body"
    and "session_clear w" "w_committed w = d"
  shows "case with_uow body w of
      (Ret a, w') \<Rightarrow> R a \<longrightarrow> w_committed w' = d | (Raise e, w') \<Rightarrow> w_committed w' = d"
proof -
  obtain r w1 where bw: "body w = (r, w1)" by (cases "body w")
  have u: "untouched d w" using assms(3,4) session_clear_untouched by auto
  have c: "w_committed w1 = d"
    using keepsE [OF assms(2) bw] assms(4) by (simp add: on_db_def committed_is_def)
  show ?thesis
  proof (cases r)
    case (Raise e)
    then show ?thesis using bw c by (simp add: with_uow_Raise)
  next
    case (Ret a)
    obtain q w2 where cw: "commit w1 = (q, w2)" by (cases "commit w1")
    have "q = Ret () \<and> untouched d w2" if "R a"
      using commit_untouched [of d w1] hoare_Ret [OF assms(1) u bw [unfolded Ret]] cw that by auto
    moreover have "w_committed w2 = d" if "q = Raise e" for e
      using commit_failed_committed [of w1 e w2] cw that c by simp
    ultimately show ?thesis
      using bw cw Ret by (cases q) (auto simp: with_uow_Ret with_uow_fail untouched_def)
  qed
qed

end
