(* ===== verification/Security.thy ===== *)
theory Security
  imports Orm
begin

text \<open>
  The security services of \<open>infra/services\<close> and \<open>infra/providers\<close>: password hashing, signatures,
  encryption and JSON web tokens. bcrypt, HMAC, AES-GCM, base64 and PyJWT are libraries: they are
  the fields of the record \<open>libs\<close>, an argument of every service.
\<close>

type_synonym bytes = "8 word list"

text \<open>\<open>bytes.startswith\<close>-style helpers are not needed; \<open>str.encode("utf-8")\<close> of the code points below 256.\<close>

definition utf8_char :: "char \<Rightarrow> bytes" where
  "utf8_char c = (let n = (of_char c :: nat) in
     if n < 128 then [word_of_nat n] else [word_of_nat (192 + n div 64), word_of_nat (128 + n mod 64)])"

definition utf8_encode :: "string \<Rightarrow> bytes" where
  "utf8_encode s = concat (map utf8_char s)"

datatype jwt_type = ACCESS_TOKEN | REFRESH_TOKEN

record jwt_payload =
  jp_token_type :: "jwt_type option"
  jp_exp :: int
  jp_iat :: int
  jp_jti :: uuid
  jp_user_id :: "uuid option"
  jp_last_login_time :: "int option"

text \<open>The claims a token carries, as \<open>jwt.decode\<close> returns them.\<close>

type_synonym claims = "(string \<times> pyval) list"

text \<open>
  \<open>bc_hashpw password salt\<close>, \<open>bc_checkpw password hash\<close> (\<open>None\<close> is \<open>ValueError\<close>);
  \<open>jw_decode token key algorithm now\<close> is \<open>None\<close> for an \<open>InvalidTokenError\<close>; \<open>jw_payload claims\<close> is
  pydantic's validation of the decoded claims by the fields of \<open>JwtPayload\<close>, \<open>Inl\<close> the errors of a
  \<open>ValidationError\<close>; \<open>mac_sha256 key data\<close>;
  \<open>aes_encrypt key nonce data aad\<close> and \<open>aes_decrypt key nonce data aad\<close> (\<open>None\<close> is \<open>InvalidTag\<close>).
\<close>

record libs =
  bc_hashpw :: "bytes \<Rightarrow> nat \<Rightarrow> string"
  bc_checkpw :: "bytes \<Rightarrow> string \<Rightarrow> bool option"
  jw_encode :: "jwt_payload \<Rightarrow> string \<Rightarrow> string \<Rightarrow> string"
  jw_decode :: "string \<Rightarrow> string \<Rightarrow> string \<Rightarrow> int \<Rightarrow> claims option"
  jw_payload :: "claims \<Rightarrow> (string list \<times> string) list + jwt_payload"
  mac_sha256 :: "bytes \<Rightarrow> bytes \<Rightarrow> bytes"
  b64_encode :: "bytes \<Rightarrow> string"
  b64_decode :: "string \<Rightarrow> bytes option"
  aes_encrypt :: "bytes \<Rightarrow> bytes \<Rightarrow> bytes \<Rightarrow> bytes option \<Rightarrow> bytes"
  aes_decrypt :: "bytes \<Rightarrow> bytes \<Rightarrow> bytes \<Rightarrow> bytes option \<Rightarrow> bytes option"

section \<open>Passwords (password\_service.py)\<close>

definition bcrypt_prefixed :: "string \<Rightarrow> bool" where
  "bcrypt_prefixed h \<longleftrightarrow> py_startswith h ''$2b$'' \<or> py_startswith h ''$2a$'' \<or> py_startswith h ''$2y$''"

definition bcrypt_max_bytes :: nat where
  "bcrypt_max_bytes = 72"

definition to_bytes :: "string \<Rightarrow> (exn, bytes) outcome" where
  "to_bytes v = (let encoded = utf8_encode v in
     if bcrypt_max_bytes < length encoded
     then Raise (ValueError ''Password exceeds bcrypt's 72-byte limit'') else Ret encoded)"

text \<open>The salt is drawn before hashing; a password that is too long raises before the draw.\<close>

definition hash_password :: "libs \<Rightarrow> string \<Rightarrow> string app" where
  "hash_password L password = py_bind (py_lift (to_bytes password)) (\<lambda>b.
     py_bind draw (\<lambda>salt. py_ret (bc_hashpw L b salt)))"

definition needs_rehash :: "string \<Rightarrow> bool" where
  "needs_rehash h \<longleftrightarrow> \<not> bcrypt_prefixed h"

definition verify_password :: "libs \<Rightarrow> string \<Rightarrow> string \<Rightarrow> bool" where
  "verify_password L password h =
     (if \<not> bcrypt_prefixed h then False
      else case to_bytes password of
        Raise e \<Rightarrow> False
      | Ret b \<Rightarrow> (case bc_checkpw L b h of None \<Rightarrow> False | Some r \<Rightarrow> r))"

section \<open>Signatures, encryption, secrets (security\_services.py)\<close>

definition sign :: "libs \<Rightarrow> bytes \<Rightarrow> bytes \<Rightarrow> bytes option \<Rightarrow> bytes" where
  "sign L secret data key =
     mac_sha256 L (case key of None \<Rightarrow> secret | Some k \<Rightarrow> if k = [] then secret else k) data"

definition verify_signature :: "libs \<Rightarrow> bytes \<Rightarrow> bytes \<Rightarrow> bytes \<Rightarrow> bytes option \<Rightarrow> bool" where
  "verify_signature L secret data signature key \<longleftrightarrow> sign L secret data key = signature"

definition aes_service_key :: "bytes \<Rightarrow> (exn, bytes) outcome" where
  "aes_service_key key = (if length key \<noteq> 32
     then Raise (ValueError ''AESGCMEncryptionService requires 32 byte key'') else Ret key)"

text \<open>The nonce is the twelve bytes the operating system returned.\<close>

definition encrypt :: "libs \<Rightarrow> bytes \<Rightarrow> bytes \<Rightarrow> bytes \<Rightarrow> bytes option \<Rightarrow> bytes" where
  "encrypt L key nonce data pub_data = nonce @ aes_encrypt L key nonce data pub_data"

definition decrypt :: "libs \<Rightarrow> bytes \<Rightarrow> bytes \<Rightarrow> bytes option \<Rightarrow> bytes option" where
  "decrypt L key data pub_data = aes_decrypt L key (take 12 data) (drop 12 data) pub_data"

text \<open>\<open>os.urandom(length)\<close>: one draw per byte.\<close>

fun generate_secret :: "nat \<Rightarrow> bytes app" where
  "generate_secret 0 = py_ret []"
| "generate_secret (Suc n) = py_bind draw (\<lambda>d.
     py_bind (generate_secret n) (\<lambda>bs. py_ret (word_of_nat d # bs)))"

definition generate_b64 :: "libs \<Rightarrow> nat \<Rightarrow> string app" where
  "generate_b64 L n = py_bind (generate_secret n) (\<lambda>b. py_ret (b64_encode L b))"

section \<open>Tokens (jwt\_provider.py)\<close>

record jwt_config =
  jc_secret_key :: string
  jc_algorithm :: string
  jc_access_token_lifetime :: int
  jc_refresh_token_lifetime :: int

text \<open>The field defaults of \<open>JwtConfig\<close>; the secret key has none.\<close>

definition default_jwt_config :: "string \<Rightarrow> jwt_config" where
  "default_jwt_config key = \<lparr>jc_secret_key = key, jc_algorithm = ''HS256'',
     jc_access_token_lifetime = 3600, jc_refresh_token_lifetime = 30\<rparr>"

record token_pair =
  tp_access_token :: string
  tp_refresh_token :: string

record user_claims =
  uc_user_id :: uuid
  uc_last_login_time :: "int option"
  uc_jti :: uuid

definition payload_from_user :: "uuid \<Rightarrow> int option \<Rightarrow> user_claims app" where
  "payload_from_user user_id last_login = py_bind uuid7 (\<lambda>j.
     py_ret \<lparr>uc_user_id = user_id, uc_last_login_time = last_login, uc_jti = j\<rparr>)"

text \<open>
  \<open>JwtPayload(...)\<close> is given every field. \<open>last_login_time: datetime = None\<close> is not optional: leaving it
  out is accepted, but the \<open>None\<close> that is passed for an account without one is not a datetime.
\<close>

definition no_last_login :: exn where
  "no_last_login = ValidationError [([''last_login_time''], ''Input should be a valid datetime'')]"

definition get_payload :: "int \<Rightarrow> jwt_type \<Rightarrow> user_claims \<Rightarrow> jwt_payload app" where
  "get_payload expire token_type c = py_bind utc_epoch_int (\<lambda>iat.
     case uc_last_login_time c of
       None \<Rightarrow> py_raise no_last_login
     | Some t \<Rightarrow> py_ret \<lparr>jp_token_type = Some token_type, jp_exp = iat + expire, jp_iat = iat,
         jp_jti = uc_jti c, jp_user_id = Some (uc_user_id c), jp_last_login_time = Some t\<rparr>)"

definition generate_token :: "libs \<Rightarrow> jwt_config \<Rightarrow> jwt_payload \<Rightarrow> string" where
  "generate_token L cfg p = jw_encode L p (jc_secret_key cfg) (jc_algorithm cfg)"

definition for_user :: "libs \<Rightarrow> jwt_config \<Rightarrow> uuid \<Rightarrow> int option \<Rightarrow> token_pair app" where
  "for_user L cfg user_id last_login =
     py_bind (payload_from_user user_id last_login) (\<lambda>c.
     py_bind (get_payload (jc_access_token_lifetime cfg) ACCESS_TOKEN c) (\<lambda>a.
     py_bind (get_payload (jc_refresh_token_lifetime cfg) REFRESH_TOKEN c) (\<lambda>r.
     py_ret \<lparr>tp_access_token = generate_token L cfg a, tp_refresh_token = generate_token L cfg r\<rparr>)))"

text \<open>
  \<open>jwt.decode\<close> compares the expiry with the current time, one more reading of the clock. Only its own
  error is caught: the \<open>ValidationError\<close> of claims that are no payload leaves the provider.
\<close>

definition decode_payload :: "libs \<Rightarrow> jwt_config \<Rightarrow> string \<Rightarrow> jwt_payload option app" where
  "decode_payload L cfg token = py_bind utc_epoch_int (\<lambda>now.
     case jw_decode L token (jc_secret_key cfg) (jc_algorithm cfg) now of
       None \<Rightarrow> py_ret None
     | Some decoded \<Rightarrow> (case jw_payload L decoded of
           Inl errors \<Rightarrow> py_raise (ValidationError errors)
         | Inr p \<Rightarrow> py_ret (Some p)))"

definition is_valid_access_token :: "libs \<Rightarrow> jwt_config \<Rightarrow> string \<Rightarrow> bool app" where
  "is_valid_access_token L cfg token = py_bind (decode_payload L cfg token) (\<lambda>p.
     py_ret (p \<noteq> None))"

section \<open>Lemmas\<close>

lemma utf8_length: "length s \<le> length (utf8_encode s)"
proof (induction s)
  case (Cons c s)
  have "1 \<le> length (utf8_char c)" by (simp add: utf8_char_def Let_def)
  then show ?case using Cons by (simp add: utf8_encode_def)
qed (simp add: utf8_encode_def)

lemma to_bytes_long: "72 < length p \<Longrightarrow> \<exists>e. to_bytes p = Raise (ValueError e)"
  using utf8_length [of p] by (simp add: to_bytes_def Let_def bcrypt_max_bytes_def)

lemma to_bytes_Ret: "to_bytes p = Ret b \<Longrightarrow> length p \<le> 72 \<and> b = utf8_encode p"
  using utf8_length [of p] by (auto simp: to_bytes_def Let_def bcrypt_max_bytes_def split: if_splits)

text \<open>
  A stored hash verifies the password it was made from (for a bcrypt whose check accepts
  its own hashes and whose hashes carry its prefix) and needs no rehash; an account without a
  usable hash verifies nothing; and a password of more than 72 characters can neither be hashed
  (the service raises) nor verify against any hash, so no long passphrase is cut to a prefix.
\<close>

theorem password_service_spec:
  assumes "\<forall>b s. bc_checkpw L b (bc_hashpw L b s) = Some True \<and> bcrypt_prefixed (bc_hashpw L b s)"
  shows "(case hash_password L p w of
      (Ret h, w') \<Rightarrow> length p \<le> 72 \<and> verify_password L p h \<and> \<not> needs_rehash h
    | (Raise e, w') \<Rightarrow> w' = w \<and> (\<forall>h. \<not> verify_password L p h))
    \<and> \<not> verify_password L p []
    \<and> (72 < length p \<longrightarrow> (\<exists>e. hash_password L p w = (Raise (ValueError e), w)))"
proof (intro conjI)
  show "case hash_password L p w of
      (Ret h, w') \<Rightarrow> length p \<le> 72 \<and> verify_password L p h \<and> \<not> needs_rehash h
    | (Raise e, w') \<Rightarrow> w' = w \<and> (\<forall>h. \<not> verify_password L p h)"
  proof (cases "to_bytes p")
    case (Ret b)
    then show ?thesis
      using assms to_bytes_Ret [OF Ret]
      by (simp add: hash_password_def draw_def py_bind_app verify_password_def needs_rehash_def)
  next
    case (Raise e)
    then show ?thesis by (simp add: hash_password_def py_bind_app verify_password_def)
  qed
  show "\<not> verify_password L p []"
    by (simp add: verify_password_def bcrypt_prefixed_def py_startswith_def)
  show "72 < length p \<longrightarrow> (\<exists>e. hash_password L p w = (Raise (ValueError e), w))"
    using to_bytes_long [of p] by (auto simp: hash_password_def py_bind_app)
qed

text \<open>
  What was encrypted decrypts to itself, for an AES-GCM that inverts itself on the same
  key, nonce and associated data: the twelve bytes stored in front are the nonce the cipher used.
\<close>

theorem encrypt_decrypt:
  assumes "\<forall>k n x a. aes_decrypt L k n (aes_encrypt L k n x a) a = Some x" and "length nonce = 12"
  shows "decrypt L key (encrypt L key nonce data pub_data) pub_data = Some data"
  using assms by (simp add: decrypt_def encrypt_def)

text \<open>
  The tokens of a user who has a last login time carry its id, their type and a common token id,
  and expire the configured number of seconds after they were made; for a user without one the
  provider raises. The configured refresh lifetime is read as
  seconds: with the default of 30, which the configuration documents as days, the refresh token
  expires long before the access token it is meant to renew.
\<close>

theorem for_user_spec:
  "(\<exists>w'. for_user L cfg i None w = (Raise no_last_login, w'))
   \<and> (\<exists>a r w'. for_user L cfg i (Some t) w = (Ret \<lparr>tp_access_token = generate_token L cfg a,
       tp_refresh_token = generate_token L cfg r\<rparr>, w')
     \<and> jp_token_type a = Some ACCESS_TOKEN \<and> jp_token_type r = Some REFRESH_TOKEN
     \<and> jp_user_id a = Some i \<and> jp_user_id r = Some i \<and> jp_jti a = jp_jti r
     \<and> jp_exp a = jp_iat a + jc_access_token_lifetime cfg
     \<and> jp_exp r = jp_iat r + jc_refresh_token_lifetime cfg
     \<and> jc_access_token_lifetime (default_jwt_config key) = 3600 \<and> jc_refresh_token_lifetime (default_jwt_config key) = 30)"
  by (auto simp: for_user_def payload_from_user_def get_payload_def uuid7_def utc_epoch_int_def
      get_now_def py_bind_app default_jwt_config_def intro!: exI)

end
