(* ===== verification/Values.thy ===== *)
theory Values
  imports Errors "HOL-Library.Char_ord" "HOL-Library.List_Lexorder"
begin

text \<open>
  Python's comparison operators on the values of the model: equality across the number types and
  the string and integer enums, and the order the filters, their bounds and \<open>ORDER BY\<close> use.
\<close>

section \<open>Keys\<close>

fun py_number :: "pyval \<Rightarrow> rat option" where
  "py_number (VBool b) = Some (if b then 1 else 0)"
| "py_number (VInt i) = Some (of_int i)"
| "py_number (VDec q) = Some q"
| "py_number (VEnum n v) = py_number v"
| "py_number _ = None"

text \<open>
  What a scalar is compared by. The members of the enums of the code are integers or strings
  (\<open>IntEnum\<close>, \<open>StrEnum\<close>) and compare as those. A \<open>date\<close> and a \<open>datetime\<close> do not compare, nor do a
  naive and an aware \<open>datetime\<close>, which are never equal either.
\<close>

datatype order_key = KNum rat | KStr string | KDate int | KDatetime int | KNaive int

fun cmp_key :: "pyval \<Rightarrow> order_key option" where
  "cmp_key (VStr s) = Some (KStr s)"
| "cmp_key (VDate d) = Some (KDate d)"
| "cmp_key (VDatetime t) = Some (KDatetime t)"
| "cmp_key (VNaive t) = Some (KNaive t)"
| "cmp_key (VEnum n v) = cmp_key v"
| "cmp_key v = map_option KNum (py_number v)"

text \<open>
  The order of the keys of one kind is Python's; between kinds, which no column and no filter
  mixes, the kinds come in the order they are declared in.
\<close>

instantiation order_key :: linorder
begin

fun less_eq_order_key :: "order_key \<Rightarrow> order_key \<Rightarrow> bool" where
  "less_eq_order_key (KNum x) (KNum y) = (x \<le> y)"
| "less_eq_order_key (KNum x) _ = True"
| "less_eq_order_key (KStr x) (KStr y) = (x \<le> y)"
| "less_eq_order_key (KStr x) (KNum y) = False"
| "less_eq_order_key (KStr x) _ = True"
| "less_eq_order_key (KDate x) (KDate y) = (x \<le> y)"
| "less_eq_order_key (KDate x) (KDatetime y) = True"
| "less_eq_order_key (KDate x) (KNaive y) = True"
| "less_eq_order_key (KDate x) _ = False"
| "less_eq_order_key (KDatetime x) (KDatetime y) = (x \<le> y)"
| "less_eq_order_key (KDatetime x) (KNaive y) = True"
| "less_eq_order_key (KDatetime x) _ = False"
| "less_eq_order_key (KNaive x) (KNaive y) = (x \<le> y)"
| "less_eq_order_key (KNaive x) _ = False"

definition less_order_key :: "order_key \<Rightarrow> order_key \<Rightarrow> bool" where
  "less_order_key x y \<longleftrightarrow> x \<le> y \<and> \<not> y \<le> x"

instance
proof
  fix x y z :: order_key
  show "x < y \<longleftrightarrow> x \<le> y \<and> \<not> y \<le> x" by (rule less_order_key_def)
  show "x \<le> x" by (cases x) simp_all
  show "x \<le> y \<Longrightarrow> y \<le> z \<Longrightarrow> x \<le> z" by (cases x; cases y; cases z) auto
  show "x \<le> y \<Longrightarrow> y \<le> x \<Longrightarrow> x = y" by (cases x; cases y) auto
  show "x \<le> y \<or> y \<le> x" by (cases x; cases y) auto
qed

end

lemma order_key_less [simp]:
  "KNum a < KNum b \<longleftrightarrow> a < b" "KStr s < KStr t \<longleftrightarrow> s < t"
  "KDate d < KDate e \<longleftrightarrow> d < e" "KDatetime m < KDatetime n \<longleftrightarrow> m < n"
  "KNaive p < KNaive q \<longleftrightarrow> p < q"
  by (auto simp: less_order_key_def)

fun same_kind :: "order_key \<Rightarrow> order_key \<Rightarrow> bool" where
  "same_kind (KNum x) (KNum y) = True"
| "same_kind (KStr x) (KStr y) = True"
| "same_kind (KDate x) (KDate y) = True"
| "same_kind (KDatetime x) (KDatetime y) = True"
| "same_kind (KNaive x) (KNaive y) = True"
| "same_kind _ _ = False"

lemma same_kind_refl [simp]: "same_kind k k"
  by (cases k) simp_all

lemma same_kind_sym: "same_kind a b \<Longrightarrow> same_kind b a"
  by (cases a; cases b) simp_all

lemma same_kind_trans: "same_kind a b \<Longrightarrow> same_kind b c \<Longrightarrow> same_kind a c"
  by (cases a; cases b; cases c) simp_all

section \<open>Operators\<close>

definition py_equal :: "pyval \<Rightarrow> pyval \<Rightarrow> bool" where
  "py_equal a b \<longleftrightarrow> (case (cmp_key a, cmp_key b) of
      (Some x, Some y) \<Rightarrow> x = y | _ \<Rightarrow> a = b)"

text \<open>\<open>a < b\<close>: a \<open>TypeError\<close> unless both are numbers, both strings, both dates, both aware or both naive datetimes.\<close>

definition py_less :: "pyval \<Rightarrow> pyval \<Rightarrow> (exn, bool) outcome" where
  "py_less a b = (case (cmp_key a, cmp_key b) of
      (Some x, Some y) \<Rightarrow> if same_kind x y then Ret (x < y) else Raise (TypeError ''not supported'')
    | _ \<Rightarrow> Raise (TypeError ''not supported''))"

text \<open>\<open>a <= b\<close>\<close>

definition py_less_eq :: "pyval \<Rightarrow> pyval \<Rightarrow> (exn, bool) outcome" where
  "py_less_eq a b = (case (cmp_key a, cmp_key b) of
      (Some x, Some y) \<Rightarrow> if same_kind x y then Ret (x \<le> y) else Raise (TypeError ''not supported'')
    | _ \<Rightarrow> Raise (TypeError ''not supported''))"

text \<open>The truth value of a value.\<close>

fun py_truthy :: "pyval \<Rightarrow> bool" where
  "py_truthy VNone = False"
| "py_truthy (VBool b) = b"
| "py_truthy (VInt i) = (i \<noteq> 0)"
| "py_truthy (VDec d) = (d \<noteq> 0)"
| "py_truthy (VStr s) = (s \<noteq> [])"
| "py_truthy (VBytes b) = (b \<noteq> [])"
| "py_truthy (VDate d) = True"
| "py_truthy (VDatetime t) = True"
| "py_truthy (VNaive t) = True"
| "py_truthy (VEnum n v) = py_truthy v"
| "py_truthy (VList xs) = (xs \<noteq> [])"
| "py_truthy (VTuple xs) = (xs \<noteq> [])"
| "py_truthy (VDict d) = (d \<noteq> [])"

text \<open>\<open>a\<close> and \<open>b\<close> can be compared.\<close>

definition comparable :: "pyval \<Rightarrow> pyval \<Rightarrow> bool" where
  "comparable a b \<longleftrightarrow> (case (cmp_key a, cmp_key b) of (Some x, Some y) \<Rightarrow> same_kind x y | _ \<Rightarrow> False)"

text \<open>The order of two values that compare.\<close>

definition val_less :: "pyval \<Rightarrow> pyval \<Rightarrow> bool" where
  "val_less a b \<longleftrightarrow> comparable a b \<and> the (cmp_key a) < the (cmp_key b)"

definition val_le :: "pyval \<Rightarrow> pyval \<Rightarrow> bool" where
  "val_le a b \<longleftrightarrow> comparable a b \<and> the (cmp_key a) \<le> the (cmp_key b)"

lemma py_less_val: "comparable a b \<Longrightarrow> py_less a b = Ret (val_less a b)"
  by (auto simp: py_less_def val_less_def comparable_def split: option.splits)

lemma py_less_eq_val: "comparable a b \<Longrightarrow> py_less_eq a b = Ret (val_le a b)"
  by (auto simp: py_less_eq_def val_le_def comparable_def split: option.splits)

lemma py_less_clash: "\<not> comparable a b \<Longrightarrow> py_less a b = Raise (TypeError ''not supported'')"
  by (auto simp: py_less_def comparable_def split: option.splits)

lemma py_less_eq_clash: "\<not> comparable a b \<Longrightarrow> py_less_eq a b = Raise (TypeError ''not supported'')"
  by (auto simp: py_less_eq_def comparable_def split: option.splits)

lemma comparable_sym: "comparable a b \<Longrightarrow> comparable b a"
  by (auto simp: comparable_def split: option.splits intro: same_kind_sym)

lemma comparable_trans: "comparable a b \<Longrightarrow> comparable b c \<Longrightarrow> comparable a c"
  by (auto simp: comparable_def split: option.splits intro: same_kind_trans)

lemma not_val_le: "comparable a b \<Longrightarrow> \<not> val_le a b \<longleftrightarrow> val_less b a"
  by (auto simp: val_le_def val_less_def comparable_sym)

lemma py_equal_refl [simp]: "py_equal v v"
  by (auto simp: py_equal_def split: option.splits)

lemma py_equal_sym: "py_equal a b = py_equal b a"
  by (auto simp: py_equal_def split: option.splits)

lemma py_equal_trans: "py_equal a b \<Longrightarrow> py_equal b c \<Longrightarrow> py_equal a c"
  by (auto simp: py_equal_def split: option.splits)

end
