(* ===== verification/UserDomain.thy ===== *)
theory UserDomain
  imports Security Values
begin

text \<open>
  The identity domain: the value types every entry point validates with
  (\<open>domain/identity/params/annotated.py\<close>), the entity proxy, the aggregate root and the
  \<open>UserAggregate\<close> with its events, and the constants of the one-time codes.
\<close>

section \<open>Value types (annotated.py, identity\_constraints.py, validators.py)\<close>

text \<open>
  A value type takes the raw string to the value the model stores, or rejects it. Pydantic strips,
  checks the length, matches the pattern and lower-cases, in that order.
\<close>

definition len_in :: "nat \<Rightarrow> nat \<Rightarrow> string \<Rightarrow> bool" where
  "len_in lo hi s \<longleftrightarrow> lo \<le> length s \<and> length s \<le> hi"

definition is_upper :: "char \<Rightarrow> bool" where
  "is_upper c = (let n = (of_char c :: nat) in 65 \<le> n \<and> n \<le> 90)"

definition is_lower :: "char \<Rightarrow> bool" where
  "is_lower c = (let n = (of_char c :: nat) in 97 \<le> n \<and> n \<le> 122)"

definition ascii_alpha :: "char \<Rightarrow> bool" where
  "ascii_alpha c = (is_upper c \<or> is_lower c)"

text \<open>\<open>\\p{L}\<close> on the code points below 256.\<close>

definition letter :: "char \<Rightarrow> bool" where
  "letter c = (let n = (of_char c :: nat) in ascii_alpha c \<or> n = 170 \<or> n = 181 \<or> n = 186
     \<or> (192 \<le> n \<and> n \<noteq> 215 \<and> n \<noteq> 247))"

text \<open>
  \<open>normalize_string\<close>: NFKC, the zero-width characters removed (there are none below 256), then
  \<open>strip\<close>. Below 256 NFKC rewrites the no-break space, the ordinal indicators and the superscript
  digits; the characters it takes out of this range stay as they are (they are no letters, except
  the micro sign, which is a letter before and after).
\<close>

definition nfkc_char :: "char \<Rightarrow> char" where
  "nfkc_char c = (let n = (of_char c :: nat) in
     if n = 160 then CHR '' '' else if n = 170 then CHR ''a'' else if n = 178 then CHR ''2''
     else if n = 179 then CHR ''3'' else if n = 185 then CHR ''1'' else if n = 186 then CHR ''o''
     else c)"

definition normalize_string :: "string \<Rightarrow> string" where
  "normalize_string s = py_strip (map nfkc_char s)"

text \<open>\<open>^\\p{L}+(?:[\\s-]\\p{L}+)*$\<close>: letters, with single blanks or hyphens between groups of them.\<close>

fun name_rest :: "bool \<Rightarrow> string \<Rightarrow> bool" where
  "name_rest after_letter [] = after_letter"
| "name_rest after_letter (c # cs) =
     (if letter c then name_rest True cs
      else if after_letter \<and> (py_space c \<or> c = CHR ''-'') then name_rest False cs
      else False)"

definition name_pattern :: "string \<Rightarrow> bool" where
  "name_pattern s = name_rest False s"

definition at_user_name :: "string \<Rightarrow> string option" where
  "at_user_name raw =
     (let s = trim raw; v = normalize_string s
      in if len_in 1 50 s \<and> name_pattern v then Some v else None)"

definition email_local_char :: "char \<Rightarrow> bool" where
  "email_local_char c = (ascii_alpha c \<or> py_digit c \<or> c \<in> set ''._%+-'')"

definition email_domain_char :: "char \<Rightarrow> bool" where
  "email_domain_char c = (ascii_alpha c \<or> py_digit c \<or> c \<in> set ''.-'')"

text \<open>\<open>^[A-Za-z0-9._%+-]+@[A-Za-z0-9.-]+\\.[A-Za-z]{2,}$\<close>: the last dot starts the top level.\<close>

definition domain_pattern :: "string \<Rightarrow> bool" where
  "domain_pattern d =
     (let parts = py_split (CHR ''.'') d; top = last parts; rest = py_join ''.'' (butlast parts)
      in 2 \<le> length parts \<and> rest \<noteq> [] \<and> list_all email_domain_char rest
         \<and> 2 \<le> length top \<and> list_all ascii_alpha top)"

definition email_pattern :: "string \<Rightarrow> bool" where
  "email_pattern s =
     (case py_split (CHR ''@'') s of
        [user, host] \<Rightarrow> user \<noteq> [] \<and> list_all email_local_char user \<and> domain_pattern host
      | _ \<Rightarrow> False)"

definition at_user_email :: "string \<Rightarrow> string option" where
  "at_user_email raw =
     (let s = trim raw
      in if len_in 5 254 s \<and> email_pattern s then Some (py_lower s) else None)"

text \<open>\<open>^\\+?[1-9]\\d{7,14}$\<close>\<close>

definition phone_digits :: "string \<Rightarrow> bool" where
  "phone_digits s = (case s of [] \<Rightarrow> False | c # cs \<Rightarrow>
     py_digit c \<and> c \<noteq> CHR ''0'' \<and> len_in 7 14 cs \<and> list_all py_digit cs)"

definition phone_pattern :: "string \<Rightarrow> bool" where
  "phone_pattern s = phone_digits (case s of [] \<Rightarrow> [] | c # cs \<Rightarrow> if c = CHR ''+'' then cs else s)"

definition at_phone :: "string \<Rightarrow> string option" where
  "at_phone raw = (let s = trim raw in if len_in 12 15 s \<and> phone_pattern s then Some s else None)"

definition at_password :: "string \<Rightarrow> string option" where
  "at_password raw = (if len_in 8 128 raw then Some raw else None)"

definition at_address :: "string \<Rightarrow> string option" where
  "at_address raw = (let s = trim raw in if length s \<le> 500 then Some s else None)"

definition at_description :: "string \<Rightarrow> string option" where
  "at_description raw = (if length raw \<le> 5000 then Some raw else None)"

definition at_information :: "string \<Rightarrow> string option" where
  "at_information raw = (if length raw \<le> 5000 then Some raw else None)"

definition at_otp :: "string \<Rightarrow> string option" where
  "at_otp raw = (let s = trim raw in if len_in 6 6 s then Some s else None)"

text \<open>An optional field: absent stays absent.\<close>

definition optional :: "('a \<Rightarrow> 'b option) \<Rightarrow> 'a option \<Rightarrow> 'b option option" where
  "optional f x = (case x of None \<Rightarrow> Some None | Some a \<Rightarrow> map_option Some (f a))"

section \<open>Codes (consts.py)\<close>

fun otp_ttl_minutes :: "otp_kind \<Rightarrow> int" where
  "otp_ttl_minutes EMAIL_CONFIRMATION = 15"
| "otp_ttl_minutes FORGOT_PASSWORD = 15"

fun otp_cooldown_minutes :: "otp_kind \<Rightarrow> int" where
  "otp_cooldown_minutes EMAIL_CONFIRMATION = 1"
| "otp_cooldown_minutes FORGOT_PASSWORD = 1"

definition otp_code_length :: nat where
  "otp_code_length = 6"

section \<open>Events (events.py)\<close>

text \<open>The event classes: recipient, code and full name; target value; recipient and code; recipient,
  new password and full name. \<open>order\<close> is 0 unless given, and none of them gives it.\<close>

datatype event_body =
    UserRegisteredEvent string string string
  | UserEmailConfirmedEvent string
  | ForgotPasswordStep1Event string string
  | ForgotPasswordStep2Event string string string

record event =
  ev_id :: uuid
  ev_order :: int
  ev_aggregate_id :: uuid
  ev_body :: event_body

definition mk_event :: "uuid \<Rightarrow> event_body \<Rightarrow> event app" where
  "mk_event aggregate body = py_bind uuid7 (\<lambda>i.
     py_ret \<lparr>ev_id = i, ev_order = 0, ev_aggregate_id = aggregate, ev_body = body\<rparr>)"

section \<open>Entity proxy (ports/domain/entity\_proxy.py)\<close>

text \<open>
  The source is a map from attribute names to values; \<open>_slots\<close> are the attributes the proxy keeps
  itself.
\<close>

record proxy =
  px_slots :: "string list"
  px_fields :: "string list"
  px_source :: "string \<rightharpoonup> pyval"
  px_own :: "string \<rightharpoonup> pyval"
  px_changed :: "string list"

definition proxy_setattr :: "string \<Rightarrow> pyval \<Rightarrow> proxy \<Rightarrow> (exn, proxy) outcome" where
  "proxy_setattr key v p =
     (if key \<in> set (px_slots p) then Ret (p\<lparr>px_own := (px_own p)(key \<mapsto> v)\<rparr>)
      else if key \<in> set (px_fields p) then
        (let old = (case px_source p key of None \<Rightarrow> VNone | Some x \<Rightarrow> x)
         in if py_equal old v then Ret p
            else Ret (p\<lparr>px_source := (px_source p)(key \<mapsto> v),
                        px_changed := List.insert key (px_changed p)\<rparr>))
      else Raise (AttributeError key))"

definition proxy_getattr :: "string \<Rightarrow> proxy \<Rightarrow> (exn, pyval) outcome" where
  "proxy_getattr key p =
     (if key \<in> set (px_fields p)
      then (case px_source p key of None \<Rightarrow> Raise (AttributeError key) | Some v \<Rightarrow> Ret v)
      else if key \<in> set (px_slots p)
      then (case px_own p key of None \<Rightarrow> Raise (AttributeError key) | Some v \<Rightarrow> Ret v)
      else Raise (AttributeError key))"

definition clear_changes :: "proxy \<Rightarrow> proxy" where
  "clear_changes p = p\<lparr>px_changed := []\<rparr>"

definition user_proxy_fields :: "string list" where
  "user_proxy_fields = [''id'', ''email'', ''password'', ''phone'', ''first_name'', ''last_name'',
     ''address'', ''description'', ''avatar_id'', ''information'', ''email_confirmed'',
     ''is_active'', ''is_superuser'', ''last_login_time'']"

definition otp_proxy_fields :: "string list" where
  "otp_proxy_fields = [''otp'', ''content_id'', ''content_type'', ''kind'', ''expires_at'',
     ''used_at'', ''target_value'', ''verified'']"

section \<open>Aggregate root (ports/domain/aggregate\_root.py)\<close>

text \<open>
  \<open>filter_cb = lambda x: ..., self._events\<close> is a pair, not a function: filtering by type raises as
  soon as there is an event to filter. The events are never removed.
\<close>

definition pull_events :: "'t list \<Rightarrow> bool \<Rightarrow> 'e list \<Rightarrow> (exn, 'e list) outcome" where
  "pull_events types except_filter events =
     (if types = [] then Ret events
      else if events = [] then Ret []
      else Raise (TypeError ''tuple object is not callable''))"

section \<open>UserAggregate (aggregates/user\_aggregate.py)\<close>

record user_create_params =
  cp_email :: string
  cp_first_name :: string
  cp_last_name :: string
  cp_phone :: "string option"
  cp_address :: "string option"
  cp_description :: "string option"
  cp_information :: "string option"
  cp_avatar_id :: "uuid option"

record user_update_params =
  up_first_name :: string
  up_last_name :: string
  up_phone :: "string option"
  up_address :: "string option"
  up_description :: "string option"
  up_information :: "string option"
  up_avatar_id :: "uuid option"

text \<open>
  Constructing a params object validates every field and raises with the list of those that
  failed; what it keeps are the normalised values.
\<close>

definition bad_field :: "string \<Rightarrow> 'a option \<Rightarrow> (string list \<times> string) list" where
  "bad_field name v = (if v = None then [([name], ''value_error'')] else [])"

definition mk_user_create_params :: "user_create_params \<Rightarrow> (exn, user_create_params) outcome" where
  "mk_user_create_params raw =
     (case (at_user_email (cp_email raw), at_user_name (cp_first_name raw),
            at_user_name (cp_last_name raw), optional at_phone (cp_phone raw),
            optional at_address (cp_address raw), optional at_description (cp_description raw),
            optional at_information (cp_information raw)) of
        (Some e, Some f, Some l, Some ph, Some ad, Some de, Some info) \<Rightarrow>
          Ret \<lparr>cp_email = e, cp_first_name = f, cp_last_name = l, cp_phone = ph, cp_address = ad,
               cp_description = de, cp_information = info, cp_avatar_id = cp_avatar_id raw\<rparr>
      | (e, f, l, ph, ad, de, info) \<Rightarrow>
          Raise (ValidationError (bad_field ''email'' e @ bad_field ''first_name'' f
            @ bad_field ''last_name'' l @ bad_field ''phone'' ph @ bad_field ''address'' ad
            @ bad_field ''description'' de @ bad_field ''information'' info)))"

definition mk_user_update_params :: "user_update_params \<Rightarrow> (exn, user_update_params) outcome" where
  "mk_user_update_params raw =
     (case (at_user_name (up_first_name raw), at_user_name (up_last_name raw),
            optional at_phone (up_phone raw), optional at_address (up_address raw),
            optional at_description (up_description raw),
            optional at_information (up_information raw)) of
        (Some f, Some l, Some ph, Some ad, Some de, Some info) \<Rightarrow>
          Ret \<lparr>up_first_name = f, up_last_name = l, up_phone = ph, up_address = ad,
               up_description = de, up_information = info, up_avatar_id = up_avatar_id raw\<rparr>
      | (f, l, ph, ad, de, info) \<Rightarrow>
          Raise (ValidationError (bad_field ''first_name'' f @ bad_field ''last_name'' l
            @ bad_field ''phone'' ph @ bad_field ''address'' ad @ bad_field ''description'' de
            @ bad_field ''information'' info)))"

text \<open>The aggregate: the ORM object it proxies and the events it raised.\<close>

record user_aggr =
  ag_row :: user_row
  ag_events :: "event list"

definition full_name :: "string \<Rightarrow> string \<Rightarrow> string" where
  "full_name fname lname = py_strip (fname @ '' '' @ lname)"

definition aggr_full_name :: "user_aggr \<Rightarrow> string" where
  "aggr_full_name a = full_name (u_first_name (ag_row a)) (u_last_name (ag_row a))"

text \<open>
  \<open>source_factory.empty\<close>: a new ORM object with the given columns, its id stamped at once; the
  columns not given are unset until the insert (\<open>None\<close>, and timestamps the flush stamps).
\<close>

definition source_empty :: "user_create_params \<Rightarrow> bool \<Rightarrow> bool \<Rightarrow> bool \<Rightarrow> int \<Rightarrow> int \<Rightarrow> int option
    \<Rightarrow> user_row app" where
  "source_empty p confirmed active superuser status joined last_login = py_bind uuid7 (\<lambda>i.
     py_ret \<lparr>u_id = i, u_created_at = 0, u_updated_at = 0, u_status = status,
       u_email = cp_email p, u_password = None, u_phone = cp_phone p,
       u_first_name = cp_first_name p, u_last_name = cp_last_name p, u_address = cp_address p,
       u_description = cp_description p, u_information = cp_information p,
       u_avatar_id = cp_avatar_id p, u_is_active = active, u_is_superuser = superuser,
       u_email_confirmed = confirmed, u_date_joined = Some joined,
       u_last_login_time = last_login\<rparr>)"

definition aggr_register :: "user_create_params \<Rightarrow> user_aggr app" where
  "aggr_register p = py_bind get_now (\<lambda>now.
     py_bind (source_empty p False False False 0 now None) (\<lambda>r.
     py_ret \<lparr>ag_row = r, ag_events = []\<rparr>))"

definition aggr_create :: "user_create_params \<Rightarrow> bool \<Rightarrow> user_aggr app" where
  "aggr_create p is_superuser = py_bind get_now (\<lambda>now.
     py_bind (source_empty p True True is_superuser 1 now (Some now)) (\<lambda>r.
     py_ret \<lparr>ag_row = r, ag_events = []\<rparr>))"

text \<open>An assignment through the proxy reaches the ORM object, in the session or not yet.\<close>

definition aggr_set :: "(user_row \<Rightarrow> user_row) \<Rightarrow> user_aggr \<Rightarrow> user_aggr app" where
  "aggr_set f a = py_bind (obj_set (u_id (ag_row a)) f) (\<lambda>_.
     py_ret (a\<lparr>ag_row := f (ag_row a)\<rparr>))"

definition aggr_update :: "user_update_params \<Rightarrow> user_aggr \<Rightarrow> user_aggr app" where
  "aggr_update p = aggr_set (\<lambda>r. r\<lparr>u_first_name := up_first_name p, u_last_name := up_last_name p,
     u_phone := up_phone p, u_address := up_address p, u_description := up_description p,
     u_information := up_information p, u_avatar_id := up_avatar_id p\<rparr>)"

definition aggr_change_email :: "string \<Rightarrow> user_aggr \<Rightarrow> user_aggr app" where
  "aggr_change_email email a =
     (if email = u_email (ag_row a) then py_ret a
      else aggr_set (\<lambda>r. r\<lparr>u_email := email, u_email_confirmed := False\<rparr>) a)"

definition aggr_set_password :: "libs \<Rightarrow> string \<Rightarrow> user_aggr \<Rightarrow> user_aggr app" where
  "aggr_set_password L raw a = py_bind (hash_password L raw) (\<lambda>h.
     aggr_set (\<lambda>r. r\<lparr>u_password := Some h\<rparr>) a)"

definition aggr_confirm_email :: "user_aggr \<Rightarrow> user_aggr app" where
  "aggr_confirm_email = aggr_set (\<lambda>r. r\<lparr>u_email_confirmed := True, u_is_active := True\<rparr>)"

definition aggr_touch_login :: "user_aggr \<Rightarrow> user_aggr app" where
  "aggr_touch_login a = py_bind get_now (\<lambda>now.
     aggr_set (\<lambda>r. r\<lparr>u_last_login_time := Some now\<rparr>) a)"

definition add_domain_event :: "event \<Rightarrow> user_aggr \<Rightarrow> user_aggr" where
  "add_domain_event e a = a\<lparr>ag_events := ag_events a @ [e]\<rparr>"

definition aggr_mark_registered :: "string \<Rightarrow> user_aggr \<Rightarrow> user_aggr app" where
  "aggr_mark_registered code a =
     (if u_email (ag_row a) = [] then py_raise (RuntimeError ''Email for user is not set'')
      else py_bind (mk_event (u_id (ag_row a))
             (UserRegisteredEvent (u_email (ag_row a)) code (aggr_full_name a))) (\<lambda>e.
        py_ret (add_domain_event e a)))"

section \<open>Lemmas\<close>

subsection \<open>Normal forms of the value types\<close>

lemma py_split_map:
  assumes "\<And>x. x \<in> set s \<Longrightarrow> f x = c \<longleftrightarrow> x = c"
  shows "py_split c (map f s) = map (map f) (py_split c s)"
  using assms by (induction s) (auto split: list.splits)

lemma py_split_nonsep: "p \<in> set (py_split c s) \<Longrightarrow> x \<in> set p \<Longrightarrow> x \<in> set s"
  by (induction s arbitrary: p) (fastforce split: if_splits list.splits)+

lemma py_split_chars: "x \<in> set s \<Longrightarrow> x = c \<or> (\<exists>p \<in> set (py_split c s). x \<in> set p)"
proof (induction s)
  case (Cons y s)
  obtain p ps where p: "py_split c s = p # ps" by (cases "py_split c s") auto
  then show ?case using Cons by auto
qed simp

text \<open>Lower-casing on the characters of an address.\<close>

definition email_char :: "char \<Rightarrow> bool" where
  "email_char c \<longleftrightarrow> email_local_char c \<or> c = CHR ''@''"

lemma email_char_ascii: "email_char c \<Longrightarrow> (of_char c :: nat) < 128 \<and> \<not> py_space c"
  by (auto simp: email_char_def email_local_char_def ascii_alpha_def is_upper_def is_lower_def
      py_digit_def py_space_def Let_def)

lemma of_lower_char:
  "(of_char c :: nat) < 128 \<Longrightarrow> (of_char (lower_char c) :: nat) = (if is_upper c then of_char c + 32 else of_char c)"
  by (simp add: lower_char_def is_upper_def Let_def)

lemma char_of_nat_cases: "(of_char c :: nat) = of_char d \<Longrightarrow> c = d"
  by simp

lemma lower_char_keeps:
  assumes "(of_char c :: nat) < 128"
  shows "\<not> is_upper c \<Longrightarrow> lower_char c = c" "is_lower (lower_char c) \<longleftrightarrow> is_upper c \<or> is_lower c"
    "\<not> is_upper (lower_char c)" "py_digit (lower_char c) = py_digit c"
  using of_lower_char [OF assms] assms
  by (auto simp: is_upper_def is_lower_def py_digit_def Let_def intro: char_of_nat_cases)

lemma lower_char_punct:
  assumes "(of_char c :: nat) < 128" "\<not> ascii_alpha d"
  shows "lower_char c = d \<longleftrightarrow> c = d"
proof (cases "is_upper c")
  case True
  then show ?thesis
    using lower_char_keeps(2) [OF assms(1)] assms(2) by (auto simp: ascii_alpha_def)
next
  case False
  then show ?thesis using lower_char_keeps(1) [OF assms(1)] by simp
qed

lemma lower_char_class:
  assumes "(of_char c :: nat) < 128"
  shows "ascii_alpha (lower_char c) = ascii_alpha c"
    "email_local_char (lower_char c) = email_local_char c"
    "email_domain_char (lower_char c) = email_domain_char c"
proof -
  show a: "ascii_alpha (lower_char c) = ascii_alpha c"
    using lower_char_keeps [OF assms] by (auto simp: ascii_alpha_def)
  have p: "lower_char c \<in> set ds \<longleftrightarrow> c \<in> set ds" if "list_all (\<lambda>d. \<not> ascii_alpha d) ds" for ds
    using that by (induction ds) (auto simp: lower_char_punct [OF assms])
  show "email_local_char (lower_char c) = email_local_char c"
    unfolding email_local_char_def a lower_char_keeps(4) [OF assms]
    by (subst p) (auto simp: ascii_alpha_def is_upper_def is_lower_def)
  show "email_domain_char (lower_char c) = email_domain_char c"
    unfolding email_domain_char_def a lower_char_keeps(4) [OF assms]
    by (subst p) (auto simp: ascii_alpha_def is_upper_def is_lower_def)
qed

lemma py_join_map: "map f (py_join sep ps) = py_join (map f sep) (map (map f) ps)"
  by (induction sep ps rule: py_join.induct) simp_all

lemma py_join_chars: "x \<in> set (py_join sep ps) \<Longrightarrow> x \<in> set sep \<or> (\<exists>p \<in> set ps. x \<in> set p)"
  by (induction sep ps rule: py_join.induct) auto

lemma py_join_member: "p \<in> set ps \<Longrightarrow> x \<in> set p \<Longrightarrow> x \<in> set (py_join sep ps)"
  by (induction sep ps rule: py_join.induct) auto

lemma domain_is_local: "email_domain_char c \<Longrightarrow> email_local_char c"
  by (auto simp: email_domain_char_def email_local_char_def)

lemma domain_pattern_chars:
  assumes "domain_pattern d" "x \<in> set d"
  shows "email_local_char x"
proof -
  let ?parts = "py_split (CHR ''.'') d"
  have top: "\<And>x. x \<in> set (last ?parts) \<Longrightarrow> ascii_alpha x" and
    rest: "\<And>x. x \<in> set (py_join ''.'' (butlast ?parts)) \<Longrightarrow> email_domain_char x"
    using assms(1) by (auto simp: domain_pattern_def Let_def list_all_iff)
  consider "x = CHR ''.''" | p where "p \<in> set ?parts" "x \<in> set p"
    using py_split_chars [OF assms(2)] by blast
  then show ?thesis
  proof cases
    case 1
    then show ?thesis by (simp add: email_local_char_def)
  next
    case 2
    then have "p = last ?parts \<or> p \<in> set (butlast ?parts)"
      using append_butlast_last_id [OF py_split_nonempty, of "CHR ''.''" d]
      by (metis Un_iff empty_iff insert_iff list.set set_append)
    then show ?thesis
      using 2 top rest py_join_member domain_is_local by (fastforce simp: email_local_char_def)
  qed
qed

lemma email_pattern_chars:
  assumes "email_pattern s" "x \<in> set s"
  shows "email_char x"
proof -
  obtain user host where p: "py_split (CHR ''@'') s = [user, host]"
      "list_all email_local_char user" "domain_pattern host"
    using assms(1) by (auto simp: email_pattern_def split: list.splits)
  have "x = CHR ''@'' \<or> x \<in> set user \<or> x \<in> set host"
    using py_split_chars [OF assms(2), of "CHR ''@''"] p(1) by auto
  then show ?thesis
    using p(2) domain_pattern_chars [OF p(3)] by (auto simp: email_char_def list_all_iff)
qed

lemma lower_eq_list_all:
  "\<forall>x \<in> set s. (of_char x :: nat) < 128 \<Longrightarrow>
    list_all email_local_char (py_lower s) = list_all email_local_char s
    \<and> list_all email_domain_char (py_lower s) = list_all email_domain_char s
    \<and> list_all ascii_alpha (py_lower s) = list_all ascii_alpha s"
  by (induction s) (auto simp: py_lower_def lower_char_class)

lemma split_lower:
  assumes "\<forall>x \<in> set s. (of_char x :: nat) < 128" "\<not> ascii_alpha c"
  shows "py_split c (py_lower s) = map py_lower (py_split c s)"
proof -
  have "py_split c (map lower_char s) = map (map lower_char) (py_split c s)"
    using assms lower_char_punct by (intro py_split_map) auto
  then show ?thesis by (simp add: py_lower_def [abs_def])
qed

lemma domain_pattern_lower:
  assumes "domain_pattern d"
  shows "domain_pattern (py_lower d)"
proof -
  have a: "\<forall>x \<in> set d. (of_char x :: nat) < 128"
    using domain_pattern_chars [OF assms] email_char_ascii by (auto simp: email_char_def)
  let ?parts = "py_split (CHR ''.'') d"
  have dot: "\<not> ascii_alpha (CHR ''.'')" by (simp add: ascii_alpha_def is_upper_def is_lower_def)
  have sub: "\<forall>x \<in> set p. (of_char x :: nat) < 128" if "p \<in> set ?parts" for p
    using a py_split_nonsep [OF that] by blast
  have j: "py_join ''.'' (map py_lower (butlast ?parts)) = py_lower (py_join ''.'' (butlast ?parts))"
    using py_join_map [of lower_char "''.''" "butlast ?parts"] by (simp add: py_lower_def [abs_def] lower_char_def)
  have r: "\<forall>x \<in> set (py_join ''.'' (butlast ?parts)). (of_char x :: nat) < 128"
    using py_join_chars [of _ "''.''" "butlast ?parts"] sub by (fastforce dest: in_set_butlastD)
  show ?thesis
    using assms lower_eq_list_all [OF r] lower_eq_list_all [OF sub [of "last ?parts"]]
    unfolding domain_pattern_def Let_def split_lower [OF a dot]
    by (simp add: map_butlast [symmetric] last_map j, simp add: py_lower_def)
qed

lemma email_pattern_lower:
  assumes "email_pattern s"
  shows "email_pattern (py_lower s)"
proof -
  have a: "\<forall>x \<in> set s. (of_char x :: nat) < 128"
    using email_pattern_chars [OF assms] email_char_ascii by blast
  obtain user host where p: "py_split (CHR ''@'') s = [user, host]" "user \<noteq> []"
      "list_all email_local_char user" "domain_pattern host"
    using assms by (auto simp: email_pattern_def split: list.splits)
  have "\<forall>x \<in> set user. (of_char x :: nat) < 128"
    using a py_split_nonsep [of user "CHR ''@''" s] p(1) by auto
  then have "list_all email_local_char (py_lower user)"
    using p(3) lower_eq_list_all by blast
  then show ?thesis
    using p domain_pattern_lower [OF p(4)] split_lower [OF a, of "CHR ''@''"]
    by (simp add: email_pattern_def ascii_alpha_def is_upper_def is_lower_def, simp add: py_lower_def)
qed

lemma at_user_email_facts:
  assumes "at_user_email raw = Some e"
  shows "at_user_email e = Some e \<and> list_all (\<lambda>c. \<not> is_upper c \<and> \<not> py_space c) e
    \<and> length (py_split (CHR ''@'') e) = 2 \<and> len_in 5 254 e"
proof -
  let ?s = "trim raw"
  have pat: "email_pattern ?s" and len: "len_in 5 254 ?s" and e: "e = py_lower ?s"
    using assms by (auto simp: at_user_email_def Let_def split: if_splits)
  have ascii: "\<forall>x \<in> set ?s. (of_char x :: nat) < 128"
    using email_pattern_chars [OF pat] email_char_ascii by blast
  have pat': "email_pattern e" unfolding e by (rule email_pattern_lower [OF pat])
  have ns: "\<forall>x \<in> set e. \<not> py_space x"
    using email_pattern_chars [OF pat'] email_char_ascii by blast
  have nu: "\<forall>x \<in> set e. \<not> is_upper x"
    using ascii lower_char_keeps(3) unfolding e py_lower_def by auto
  have "\<forall>x \<in> set e. lower_char x = x"
    using nu email_pattern_chars [OF pat'] email_char_ascii lower_char_keeps(1) by blast
  then have low: "py_lower e = e" unfolding py_lower_def by (simp add: map_idI)
  have len': "len_in 5 254 e" using len unfolding e by (simp add: len_in_def py_lower_def)
  have "length (py_split (CHR ''@'') e) = 2"
    using pat' by (auto simp: email_pattern_def split: list.splits)
  then show ?thesis
    using ns nu low len' pat' trim_no_space [OF ns] by (simp add: at_user_email_def list_all_iff)
qed

text \<open>
  An accepted address is stored in one normal form: without surrounding blanks, with no
  capital letter, with exactly one at sign and a dotted host; and validating it again (as the
  params object does after the command) accepts it unchanged.
\<close>

theorem at_user_email_normal:
  assumes "at_user_email raw = Some e"
  shows "at_user_email e = Some e \<and> list_all (\<lambda>c. \<not> is_upper c \<and> \<not> py_space c) e
    \<and> length (py_split (CHR ''@'') e) = 2 \<and> len_in 5 254 e"
  by (rule at_user_email_facts [OF assms])

theorem at_user_email_normal_witness:
  "at_user_email ''ann.lee@example.com'' = Some ''ann.lee@example.com''"
proof -
  have "at_user_email '' Ann.Lee@Example.com '' = Some ''ann.lee@example.com''"
    by code_simp
  then show ?thesis using at_user_email_normal by blast
qed

subsection \<open>Validating twice\<close>

lemma py_strip_idem: "py_strip (py_strip s) = py_strip s"
proof (cases "py_strip s = []")
  case False
  then show ?thesis
    using py_strip_ends [OF False] dropWhile_hd_id [of "py_strip s" py_space]
      dropWhile_hd_id [of "rev (py_strip s)" py_space]
    by (simp add: py_strip_def [of "py_strip s"] hd_rev)
next
  case True
  then show ?thesis unfolding True by (simp add: py_strip_def)
qed

lemma nfkc_idem: "nfkc_char (nfkc_char c) = nfkc_char c"
  by (simp add: nfkc_char_def Let_def)

lemma set_py_strip: "set (py_strip s) \<subseteq> set s"
  by (auto simp: py_strip_def dest!: set_dropWhileD)

lemma normalize_idem: "normalize_string (normalize_string s) = normalize_string s"
proof -
  have "\<forall>c \<in> set (py_strip (map nfkc_char s)). nfkc_char c = c"
    using set_py_strip [of "map nfkc_char s"] nfkc_idem by auto
  then show ?thesis by (simp add: normalize_string_def map_idI py_strip_idem)
qed

lemma strip_normalize: "py_strip (normalize_string s) = normalize_string s"
  by (simp add: normalize_string_def py_strip_idem)

lemma length_strip: "length (py_strip s) \<le> length s"
  using length_dropWhile_le [of py_space "rev (dropWhile py_space s)"] length_dropWhile_le [of py_space s]
  by (simp add: py_strip_def)

lemma at_user_name_idem: "at_user_name raw = Some v \<Longrightarrow> at_user_name v = Some v"
proof -
  assume a: "at_user_name raw = Some v"
  then have v: "v = normalize_string (trim raw)" "name_pattern v" "len_in 1 50 (trim raw)"
    by (auto simp: at_user_name_def Let_def split: if_splits)
  have "v \<noteq> []" using v(2) by (auto simp: name_pattern_def)
  moreover have "length v \<le> length (trim raw)"
    unfolding v(1) normalize_string_def using length_strip [of "map nfkc_char (trim raw)"] by simp
  ultimately have "len_in 1 50 v"
    using v(3) by (cases v) (auto simp: len_in_def)
  then show ?thesis
    using v(2) by (simp add: at_user_name_def Let_def v(1) normalize_idem trim_stripped [OF strip_normalize])
qed

lemma at_idem:
  "at_phone raw = Some v \<Longrightarrow> at_phone v = Some v" "at_address raw = Some v \<Longrightarrow> at_address v = Some v"
  "at_description raw = Some v \<Longrightarrow> at_description v = Some v"
  "at_information raw = Some v \<Longrightarrow> at_information v = Some v" "at_otp raw = Some v \<Longrightarrow> at_otp v = Some v"
  by (auto simp: at_phone_def at_address_def at_description_def at_information_def at_otp_def Let_def
      trim_idem split: if_splits)

lemma at_user_email_idem: "at_user_email raw = Some e \<Longrightarrow> at_user_email e = Some e"
  using at_user_email_facts by blast

lemma optional_idem:
  "(\<And>a b. f a = Some b \<Longrightarrow> f b = Some b) \<Longrightarrow> optional f x = Some y \<Longrightarrow> optional f y = Some y"
  by (auto simp: optional_def split: option.splits)

lemma mk_create_fields:
  assumes "mk_user_create_params raw = Ret p"
  shows "at_user_email (cp_email raw) = Some (cp_email p)"
    "at_user_name (cp_first_name raw) = Some (cp_first_name p)"
    "at_user_name (cp_last_name raw) = Some (cp_last_name p)"
    "optional at_phone (cp_phone raw) = Some (cp_phone p)"
    "optional at_address (cp_address raw) = Some (cp_address p)"
    "optional at_description (cp_description raw) = Some (cp_description p)"
    "optional at_information (cp_information raw) = Some (cp_information p)"
  using assms by (auto simp: mk_user_create_params_def split: option.splits)

text \<open>
  A params object built from already validated values is built without an error and
  holds exactly those values: the second validation, in the registration service, can neither
  reject nor alter what the command accepted.
\<close>

theorem create_params_idempotent:
  assumes "mk_user_create_params raw = Ret p"
  shows "mk_user_create_params p = Ret p"
proof -
  note f = mk_create_fields [OF assms]
  have "at_user_email (cp_email p) = Some (cp_email p)"
    "at_user_name (cp_first_name p) = Some (cp_first_name p)"
    "at_user_name (cp_last_name p) = Some (cp_last_name p)"
    using f(1-3) at_user_email_idem at_user_name_idem by blast+
  moreover have "optional at_phone (cp_phone p) = Some (cp_phone p)"
    "optional at_address (cp_address p) = Some (cp_address p)"
    "optional at_description (cp_description p) = Some (cp_description p)"
    "optional at_information (cp_information p) = Some (cp_information p)"
    using f(4-) optional_idem at_idem by metis+
  ultimately show ?thesis by (simp add: mk_user_create_params_def)
qed

definition sample_params :: user_create_params where
  "sample_params = \<lparr>cp_email = ''ann@x.io'', cp_first_name = ''Ann'', cp_last_name = ''Lee'',
     cp_phone = Some ''+4915112345678'', cp_address = None, cp_description = None,
     cp_information = None, cp_avatar_id = None\<rparr>"

theorem create_params_idempotent_witness: "mk_user_create_params sample_params = Ret sample_params"
proof -
  have "mk_user_create_params (sample_params\<lparr>cp_email := ''Ann@X.io ''\<rparr>) = Ret sample_params"
    by code_simp
  then show ?thesis by (rule create_params_idempotent)
qed

end
