(* ===== verification/Repositories.thy ===== *)
theory Repositories
  imports UserDomain
begin

text \<open>
  The repositories of \<open>data_access/orm/*/repositories\<close>: each query and statement on the tables of
  the working copy, with the value objects they return. A repository adds no transaction of its
  own: it reads and writes the working copy of the unit of work that is open.
\<close>

section \<open>One-time codes (otp\_orm\_repository.py)\<close>

record otp_create =
  oc_otp :: string
  oc_content_id :: uuid
  oc_content_type :: content_type
  oc_kind :: otp_kind
  oc_expires_at :: int
  oc_target_value :: string
  oc_verified :: bool

record otp_detailed =
  od_id :: uuid
  od_otp :: string
  od_content_id :: uuid
  od_expires_at :: int
  od_target_value :: string
  od_verified :: bool
  od_used_at :: "int option"

text \<open>The DTO's \<open>otp\<close> is a string: a row without one fails its validation.\<close>

definition to_detailed :: "otp_row option \<Rightarrow> (exn, otp_detailed option) outcome" where
  "to_detailed row = (case row of
     None \<Rightarrow> Ret None
   | Some r \<Rightarrow> (case o_otp r of
       None \<Rightarrow> Raise (ValidationError [([''otp''], ''string_type'')])
     | Some code \<Rightarrow> Ret (Some \<lparr>od_id = o_id r, od_otp = code, od_content_id = o_content_id r,
         od_expires_at = o_expires_at r, od_target_value = o_target_value r,
         od_verified = o_verified r, od_used_at = o_used_at r\<rparr>)))"

text \<open>\<open>db.add\<close>: the row is pending until the flush, which gives it its id and creation time.\<close>

definition otp_create_row :: "otp_create \<Rightarrow> unit app" where
  "otp_create_row data = py_write (\<lambda>w. w\<lparr>w_new_otps := w_new_otps w @
     [\<lparr>o_id = 0, o_created_at = 0, o_otp = Some (oc_otp data), o_content_id = oc_content_id data,
       o_content_type = oc_content_type data, o_kind = oc_kind data, o_used_at = None,
       o_expires_at = oc_expires_at data, o_target_value = oc_target_value data,
       o_verified = oc_verified data\<rparr>]\<rparr>)"

definition find_active_by_otp :: "string \<Rightarrow> otp_kind \<Rightarrow> content_type \<Rightarrow> otp_detailed option app" where
  "find_active_by_otp otp kind ct =
     py_bind (select_otps (\<lambda>r. o_otp r = Some otp \<and> o_kind r = kind \<and> o_content_type r = ct)) (\<lambda>rows.
     py_bind (one_or_none rows) (\<lambda>r. py_lift (to_detailed r)))"

text \<open>\<open>ORDER BY created_at DESC LIMIT 1\<close>\<close>

definition newest_first :: "otp_row list \<Rightarrow> otp_row list" where
  "newest_first rows = sort_key (\<lambda>r. - o_created_at r) rows"

definition otp_matches :: "string \<Rightarrow> uuid \<Rightarrow> otp_kind \<Rightarrow> content_type \<Rightarrow> otp_row \<Rightarrow> bool" where
  "otp_matches otp content_id kind ct r \<longleftrightarrow>
     o_otp r = Some otp \<and> o_content_id r = content_id \<and> o_kind r = kind \<and> o_content_type r = ct"

definition find_active_for_content ::
  "string \<Rightarrow> uuid \<Rightarrow> otp_kind \<Rightarrow> content_type \<Rightarrow> otp_detailed option app" where
  "find_active_for_content otp content_id kind ct =
     py_bind (select_otps (otp_matches otp content_id kind ct)) (\<lambda>rows.
     py_bind (one_or_none (take 1 (newest_first rows))) (\<lambda>r. py_lift (to_detailed r)))"

text \<open>
  \<open>UPDATE ... WHERE id = :id AND used_at IS NULL AND expires_at >= :now\<close>; true when it matched
  one row.
\<close>

definition claimable :: "uuid \<Rightarrow> int \<Rightarrow> otp_row \<Rightarrow> bool" where
  "claimable i now r \<longleftrightarrow> o_id r = i \<and> o_used_at r = None \<and> now \<le> o_expires_at r"

definition consume_otps :: "uuid \<Rightarrow> int \<Rightarrow> otp_row list \<Rightarrow> otp_row list" where
  "consume_otps i now rows =
     map (\<lambda>r. if claimable i now r then r\<lparr>o_used_at := Some now, o_verified := True\<rparr> else r) rows"

definition consume_by_id :: "uuid \<Rightarrow> int \<Rightarrow> bool app" where
  "consume_by_id i now = py_bind (select_otps (claimable i now)) (\<lambda>rows.
     py_bind (sql_write (\<lambda>d. d\<lparr>db_otps := consume_otps i now (db_otps d)\<rparr>)) (\<lambda>_.
     py_ret (length rows = 1)))"

definition owned_by :: "uuid \<Rightarrow> content_type \<Rightarrow> otp_kind \<Rightarrow> otp_row \<Rightarrow> bool" where
  "owned_by content_id ct kind r \<longleftrightarrow>
     o_content_id r = content_id \<and> o_content_type r = ct \<and> o_kind r = kind"

text \<open>\<open>created_at >= now() - make_interval(mins)\<close>, on the database's clock.\<close>

definition has_recent_issue :: "uuid \<Rightarrow> content_type \<Rightarrow> otp_kind \<Rightarrow> int \<Rightarrow> bool app" where
  "has_recent_issue content_id ct kind minutes = py_read (\<lambda>w.
     list_ex (\<lambda>r. owned_by content_id ct kind r
       \<and> w_dbnow w - minutes * 60 * 1000000 \<le> o_created_at r) (db_otps (w_work w)))"

definition invalidate_otps ::
  "uuid \<Rightarrow> content_type \<Rightarrow> otp_kind \<Rightarrow> int \<Rightarrow> otp_row list \<Rightarrow> otp_row list" where
  "invalidate_otps content_id ct kind now rows =
     map (\<lambda>r. if owned_by content_id ct kind r \<and> o_used_at r = None
              then r\<lparr>o_used_at := Some now\<rparr> else r) rows"

definition invalidate_pending :: "uuid \<Rightarrow> content_type \<Rightarrow> otp_kind \<Rightarrow> int \<Rightarrow> unit app" where
  "invalidate_pending content_id ct kind now =
     sql_write (\<lambda>d. d\<lparr>db_otps := invalidate_otps content_id ct kind now (db_otps d)\<rparr>)"

section \<open>Users (user\_orm\_repository.py)\<close>

record user_auth =
  ua_id :: uuid
  ua_email :: string
  ua_password :: string
  ua_is_active :: bool
  ua_email_confirmed :: bool
  ua_last_login_time :: "int option"

record user_context =
  ux_id :: uuid
  ux_email :: string
  ux_first_name :: string
  ux_last_name :: string
  ux_is_active :: bool

record user_credentials =
  ur_id :: uuid
  ur_email :: string
  ur_full_name :: string

record recovery_user =
  rv_id :: uuid
  rv_full_name :: string
  rv_email :: string
  rv_avatar_url :: "string option"

record user_detailed =
  ud_id :: uuid
  ud_email :: string
  ud_full_name :: string
  ud_first_name :: string
  ud_last_name :: string
  ud_phone :: "string option"
  ud_address :: "string option"
  ud_description :: "string option"
  ud_information :: "string option"
  ud_status :: int
  ud_created_at :: int
  ud_updated_at :: int
  ud_email_confirmed :: bool
  ud_is_active :: bool
  ud_last_login_time :: "int option"
  ud_avatar_url :: "string option"

definition user_create_obj :: "user_aggr \<Rightarrow> unit app" where
  "user_create_obj a = obj_add (ag_row a)"

definition load_aggregate :: "(user_row \<Rightarrow> bool) \<Rightarrow> user_aggr option app" where
  "load_aggregate P = py_bind (load_user P) (\<lambda>x.
     py_ret (map_option (\<lambda>r. \<lparr>ag_row = r, ag_events = []\<rparr>) x))"

definition get_aggregate_for_update :: "uuid \<Rightarrow> user_aggr option app" where
  "get_aggregate_for_update i = load_aggregate (\<lambda>r. u_id r = i)"

definition get_aggregate_for_update_by_email :: "string \<Rightarrow> user_aggr option app" where
  "get_aggregate_for_update_by_email email = load_aggregate (\<lambda>r. u_email r = email)"

definition get_for_password_reset :: "string \<Rightarrow> user_aggr option app" where
  "get_for_password_reset email = get_aggregate_for_update_by_email email"

definition get_for_context :: "uuid \<Rightarrow> user_context option app" where
  "get_for_context i = py_bind (select_users (\<lambda>r. u_id r = i)) (\<lambda>rows.
     py_bind (one_or_none rows) (\<lambda>x.
     py_ret (map_option (\<lambda>r. \<lparr>ux_id = u_id r, ux_email = u_email r,
       ux_first_name = u_first_name r, ux_last_name = u_last_name r,
       ux_is_active = u_is_active r\<rparr>) x)))"

definition exists_by_email :: "string \<Rightarrow> bool option \<Rightarrow> bool app" where
  "exists_by_email email is_active = py_bind (select_users (\<lambda>r. u_email r = email \<and>
       (case is_active of None \<Rightarrow> True | Some b \<Rightarrow> u_is_active r = b))) (\<lambda>rows. py_ret (rows \<noteq> []))"

definition get_credentials_by_email :: "string \<Rightarrow> user_auth option app" where
  "get_credentials_by_email email = py_bind (select_users (\<lambda>r. u_email r = email)) (\<lambda>rows.
     py_bind (one_or_none rows) (\<lambda>x.
     py_ret (map_option (\<lambda>r. \<lparr>ua_id = u_id r, ua_email = u_email r,
       ua_password = (case u_password r of None \<Rightarrow> [] | Some h \<Rightarrow> h),
       ua_is_active = u_is_active r, ua_email_confirmed = u_email_confirmed r,
       ua_last_login_time = u_last_login_time r\<rparr>) x)))"

text \<open>\<open>row["avatar_path"]\<close> of the outer join, and the URL unless it is absent or empty.\<close>

definition avatar_of :: "(blob_row \<Rightarrow> string option) \<Rightarrow> db \<Rightarrow> user_row \<Rightarrow> string option" where
  "avatar_of path d r = (case u_avatar_id r of None \<Rightarrow> None
     | Some i \<Rightarrow> (case find (\<lambda>b. b_id b = i) (db_blobs d) of None \<Rightarrow> None | Some b \<Rightarrow> path b))"

definition media_url :: "string \<Rightarrow> string option \<Rightarrow> string option" where
  "media_url base path = (case path of None \<Rightarrow> None
     | Some p \<Rightarrow> if p = [] then None else Some (make_media_full_url base p))"

definition get_by_email_for_password_recovery :: "string \<Rightarrow> string \<Rightarrow> recovery_user option app" where
  "get_by_email_for_password_recovery base email =
     py_bind (select_users (\<lambda>r. u_email r = email)) (\<lambda>rows.
     py_bind (one_or_none rows) (\<lambda>x. py_bind (py_read w_work) (\<lambda>d.
     py_ret (map_option (\<lambda>r. \<lparr>rv_id = u_id r,
       rv_full_name = full_name (u_first_name r) (u_last_name r), rv_email = u_email r,
       rv_avatar_url = media_url base (avatar_of (\<lambda>b. Some (b_path b)) d r)\<rparr>) x))))"

definition user_exists :: "uuid \<Rightarrow> bool app" where
  "user_exists i = py_bind (select_users (\<lambda>r. u_id r = i)) (\<lambda>rows. py_ret (rows \<noteq> []))"

text \<open>
  \<open>UPDATE ... SET status = abs(status - 1), is_active = NOT is_active\<close>; \<open>updated_at\<close> is set by the
  column's \<open>onupdate\<close>.
\<close>

definition toggle_user :: "int \<Rightarrow> user_row \<Rightarrow> user_row" where
  "toggle_user t r = r\<lparr>u_status := \<bar>u_status r - 1\<bar>, u_is_active := \<not> u_is_active r,
     u_updated_at := t\<rparr>"

definition update_users :: "(user_row \<Rightarrow> bool) \<Rightarrow> (user_row \<Rightarrow> user_row) \<Rightarrow> db \<Rightarrow> db" where
  "update_users P f d = d\<lparr>db_users := map (\<lambda>r. if P r then f r else r) (db_users d)\<rparr>"

definition toggle_status :: "uuid \<Rightarrow> bool app" where
  "toggle_status i = py_bind (select_users (\<lambda>r. u_id r = i)) (\<lambda>rows. py_bind (py_read w_dbnow) (\<lambda>t.
     py_bind (sql_write (update_users (\<lambda>r. u_id r = i) (toggle_user t))) (\<lambda>_.
     py_ret (length rows = 1))))"

definition credentials_of :: "user_row \<Rightarrow> user_credentials" where
  "credentials_of r = \<lparr>ur_id = u_id r, ur_email = u_email r,
     ur_full_name = full_name (u_first_name r) (u_last_name r)\<rparr>"

definition activate :: "uuid \<Rightarrow> user_credentials option app" where
  "activate i = py_bind (py_read w_dbnow) (\<lambda>t.
     py_bind (sql_write (update_users (\<lambda>r. u_id r = i) (\<lambda>r. r\<lparr>u_is_active := True, u_status := 1,
       u_email_confirmed := True, u_updated_at := t\<rparr>))) (\<lambda>_.
     py_bind (select_users (\<lambda>r. u_id r = i)) (\<lambda>rows.
     py_bind (one_or_none rows) (\<lambda>x. py_ret (map_option credentials_of x)))))"

definition get_credentials_for_resend :: "uuid \<Rightarrow> user_credentials option app" where
  "get_credentials_for_resend i = py_bind (select_users (\<lambda>r. u_id r = i)) (\<lambda>rows.
     py_bind (one_or_none rows) (\<lambda>x. py_ret (map_option credentials_of x)))"

definition get_detailed_user :: "string \<Rightarrow> uuid \<Rightarrow> user_detailed option app" where
  "get_detailed_user base i = py_bind (select_users (\<lambda>r. u_id r = i)) (\<lambda>rows.
     py_bind (one_or_none rows) (\<lambda>x. py_bind (py_read w_work) (\<lambda>d.
     py_ret (map_option (\<lambda>r. \<lparr>ud_id = u_id r, ud_email = u_email r,
       ud_full_name = full_name (u_first_name r) (u_last_name r),
       ud_first_name = u_first_name r, ud_last_name = u_last_name r, ud_phone = u_phone r,
       ud_address = u_address r, ud_description = u_description r,
       ud_information = u_information r, ud_status = u_status r, ud_created_at = u_created_at r,
       ud_updated_at = u_updated_at r, ud_email_confirmed = u_email_confirmed r,
       ud_is_active = u_is_active r, ud_last_login_time = u_last_login_time r,
       ud_avatar_url = media_url base (avatar_of (\<lambda>b. Some (b_path b)) d r)\<rparr>) x))))"

section \<open>Lemmas\<close>

lemmas otp_repo_defs = otp_create_row_def find_active_by_otp_def find_active_for_content_def
  consume_by_id_def has_recent_issue_def invalidate_pending_def

lemmas user_reads = get_for_context_def exists_by_email_def get_credentials_by_email_def
  get_by_email_for_password_recovery_def user_exists_def get_credentials_for_resend_def
  get_detailed_user_def load_aggregate_def get_aggregate_for_update_def
  get_aggregate_for_update_by_email_def get_for_password_reset_def

text \<open>A read leaves an untouched session untouched, and both database copies as they are.\<close>

lemma reads_untouched [keeps_intros]:
  "keeps (untouched d) (find_active_by_otp otp kind ct)"
  "keeps (untouched d) (find_active_for_content otp i kind ct)"
  "keeps (untouched d) (has_recent_issue i ct kind m)"
  unfolding otp_repo_defs by (intro keeps_intros)+

lemma user_reads_untouched [keeps_intros]:
  "keeps (untouched d) (get_for_context i)"
  "keeps (untouched d) (exists_by_email email a)"
  "keeps (untouched d) (get_credentials_by_email email)"
  "keeps (untouched d) (get_by_email_for_password_recovery base email)"
  "keeps (untouched d) (user_exists i)"
  "keeps (untouched d) (get_credentials_for_resend i)"
  "keeps (untouched d) (get_detailed_user base i)"
  "keeps (untouched d) (get_aggregate_for_update i)"
  "keeps (untouched d) (get_aggregate_for_update_by_email email)"
  "keeps (untouched d) (get_for_password_reset email)"
  unfolding user_reads by (intro keeps_intros)+

lemma reads_on_db [keeps_intros]:
  "keeps (on_db Q) (find_active_by_otp otp kind ct)"
  "keeps (on_db Q) (find_active_for_content otp i kind ct)"
  "keeps (on_db Q) (has_recent_issue i ct kind m)"
  "keeps (on_db Q) (otp_create_row data)"
  unfolding otp_repo_defs by (intro keeps_intros keeps_write; simp)+

lemma user_reads_on_db [keeps_intros]:
  "keeps (on_db Q) (get_for_context i)"
  "keeps (on_db Q) (exists_by_email email a)"
  "keeps (on_db Q) (get_credentials_by_email email)"
  "keeps (on_db Q) (get_by_email_for_password_recovery base email)"
  "keeps (on_db Q) (user_exists i)"
  "keeps (on_db Q) (get_credentials_for_resend i)"
  "keeps (on_db Q) (get_detailed_user base i)"
  "keeps (on_db Q) (get_aggregate_for_update i)"
  "keeps (on_db Q) (get_aggregate_for_update_by_email email)"
  "keeps (on_db Q) (get_for_password_reset email)"
  "keeps (on_db Q) (user_create_obj a')"
  unfolding user_reads user_create_obj_def by (intro keeps_intros)+

lemma committed_is_writes [keeps_intros]:
  "keeps (on_db (committed_is d)) (consume_by_id i now)"
  "keeps (on_db (committed_is d)) (invalidate_pending c ct kind now)"
  "keeps (on_db (committed_is d)) (toggle_status i)"
  "keeps (on_db (committed_is d)) (activate i)"
  unfolding otp_repo_defs toggle_status_def activate_def by (intro keeps_intros)+

subsection \<open>Claiming a code\<close>

lemma consume_otps_none:
  "filter (claimable i now) rows = [] \<Longrightarrow> consume_otps i now rows = rows"
  by (induction rows) (auto simp: consume_otps_def split: if_splits)

lemma claimable_unique:
  "distinct (map o_id rows) \<Longrightarrow> length (filter (claimable i now) rows) \<le> 1"
proof (induction rows)
  case (Cons r rows)
  have "filter (claimable i now) rows = []" if "claimable i now r"
    using Cons.prems that unfolding filter_empty_conv claimable_def
    by (metis distinct.simps(2) image_eqI list.set_map list.simps(9))
  then show ?case using Cons by auto
qed simp

lemma consume_false_untouched:
  "db_ok d \<Longrightarrow> hoare (untouched d) (consume_by_id i now)
     (\<lambda>won w. \<not> won \<longrightarrow> untouched d w) (\<lambda>_ _. True)"
proof (rule hoareI)
  fix w assume d: "db_ok d" and u: "untouched d w"
  let ?rows = "filter (claimable i now) (db_otps d)"
  have len: "length ?rows \<le> 1"
    using d by (intro claimable_unique) (simp add: db_ok_def)
  show "case consume_by_id i now w of (Ret won, w') \<Rightarrow> \<not> won \<longrightarrow> untouched d w' | (Raise e, w') \<Rightarrow> True"
  proof (cases "?rows = []")
    case True
    then show ?thesis
      using u d by (simp add: consume_by_id_def select_otps_def sql_write_def py_bind_app
          untouched_def consume_otps_none)
  next
    case False
    then have "length ?rows = 1" using len by (cases ?rows) auto
    then show ?thesis
      using u by (simp add: consume_by_id_def select_otps_def sql_write_def py_bind_app untouched_def)
  qed
qed

end
