(* ===== verification/EventBus.thy ===== *)
theory EventBus
  imports UserDomain
begin

text \<open>
  The in-process event bus of \<open>infra/event_sourcing/event_bus.py\<close>, generic in the events and in the
  state its handlers change, and the identity subscriptions with the mails they send.
\<close>

section \<open>The bus (event\_bus.py)\<close>

text \<open>A middleware is a pair: what it does before and after.\<close>

type_synonym ('w, 'ev) bus_handler = "'ev \<Rightarrow> ('w, exn, unit) prog"

record ('w, 'ev, 'ty) bus =
  bus_publisher_mws :: "(('w, 'ev) bus_handler \<times> ('w, 'ev) bus_handler) list"
  bus_handler_mws :: "(('w, 'ev) bus_handler \<times> ('w, 'ev) bus_handler) list"
  bus_handlers :: "'ty \<Rightarrow> ('w, 'ev) bus_handler list"

definition new_bus :: "(('w, 'ev) bus_handler \<times> ('w, 'ev) bus_handler) list \<Rightarrow>
    (('w, 'ev) bus_handler \<times> ('w, 'ev) bus_handler) list \<Rightarrow> ('w, 'ev, 'ty) bus" where
  "new_bus pub hnd = \<lparr>bus_publisher_mws = pub, bus_handler_mws = hnd, bus_handlers = (\<lambda>t. [])\<rparr>"

definition wrap_handler :: "(('w, 'ev) bus_handler \<times> ('w, 'ev) bus_handler) list \<Rightarrow>
    ('w, 'ev) bus_handler \<Rightarrow> ('w, 'ev) bus_handler" where
  "wrap_handler mws h = (\<lambda>event.
     py_bind (py_for mws (\<lambda>m. fst m event)) (\<lambda>_.
     py_bind (h event) (\<lambda>_.
     py_for mws (\<lambda>m. snd m event))))"

definition subscribe :: "'ty \<Rightarrow> ('w, 'ev) bus_handler \<Rightarrow> ('w, 'ev, 'ty) bus \<Rightarrow> ('w, 'ev, 'ty) bus" where
  "subscribe t h b = b\<lparr>bus_handlers :=
     (bus_handlers b)(t := bus_handlers b t @ [wrap_handler (bus_handler_mws b) h])\<rparr>"

definition publish :: "('ev \<Rightarrow> 'ty) \<Rightarrow> ('w, 'ev, 'ty) bus \<Rightarrow> ('w, 'ev) bus_handler" where
  "publish type_of b event =
     py_bind (py_for (bus_publisher_mws b) (\<lambda>m. fst m event)) (\<lambda>_.
     py_bind (py_for (bus_handlers b (type_of event)) (\<lambda>h. h event)) (\<lambda>_.
     py_for (bus_publisher_mws b) (\<lambda>m. snd m event)))"

text \<open>\<open>sorted(events, key=lambda e: e.order)\<close> is stable.\<close>

definition publish_many ::
  "('ev \<Rightarrow> 'ty) \<Rightarrow> ('ev \<Rightarrow> int) \<Rightarrow> ('w, 'ev, 'ty) bus \<Rightarrow> 'ev list \<Rightarrow> ('w, exn, unit) prog" where
  "publish_many type_of order b events =
     (if events = [] then py_ret () else py_for (sort_key order events) (publish type_of b))"

section \<open>Identity subscriptions (identity/handlers/user\_event\_handlers.py, register\_events.py)\<close>

datatype event_type = TUserRegistered | TUserEmailConfirmed | TForgotStep1 | TForgotStep2

fun body_type :: "event_body \<Rightarrow> event_type" where
  "body_type (UserRegisteredEvent r c n) = TUserRegistered"
| "body_type (UserEmailConfirmedEvent t) = TUserEmailConfirmed"
| "body_type (ForgotPasswordStep1Event r c) = TForgotStep1"
| "body_type (ForgotPasswordStep2Event r p n) = TForgotStep2"

definition event_type_of :: "event \<Rightarrow> event_type" where
  "event_type_of e = body_type (ev_body e)"

text \<open>
  The factory of an event type builds the handler of that type, so a handler only meets its own
  class; another would fail on the first attribute it reads.
\<close>

definition user_registered_handler :: "event \<Rightarrow> unit app" where
  "user_registered_handler e = (case ev_body e of
     UserRegisteredEvent to code name \<Rightarrow> send_mail \<lparr>m_dest = to, m_subject = ''Confirm your email'',
       m_content = confirmation_code_email name code (otp_ttl_minutes EMAIL_CONFIRMATION)\<rparr>
   | _ \<Rightarrow> py_raise (AttributeError ''otp_code''))"

definition user_email_confirmed_handler :: "event \<Rightarrow> unit app" where
  "user_email_confirmed_handler e = py_ret ()"

definition forgot_step1_handler :: "event \<Rightarrow> unit app" where
  "forgot_step1_handler e = (case ev_body e of
     ForgotPasswordStep1Event to code \<Rightarrow> send_mail \<lparr>m_dest = to, m_subject = ''Password reset code'',
       m_content = password_reset_code_email code (otp_ttl_minutes FORGOT_PASSWORD)\<rparr>
   | _ \<Rightarrow> py_raise (AttributeError ''otp_code''))"

definition forgot_step2_handler :: "event \<Rightarrow> unit app" where
  "forgot_step2_handler e = (case ev_body e of
     ForgotPasswordStep2Event to pwd name \<Rightarrow> send_mail \<lparr>m_dest = to,
       m_subject = ''Your password was changed'', m_content = password_changed_email name\<rparr>
   | _ \<Rightarrow> py_raise (AttributeError ''full_name''))"

text \<open>The logging and timing middlewares only write log records, which are not part of the world.\<close>

definition log_middleware :: "(event \<Rightarrow> unit app) \<times> (event \<Rightarrow> unit app)" where
  "log_middleware = (\<lambda>e. py_ret (), \<lambda>e. py_ret ())"

definition identity_bus :: "(world, event, event_type) bus" where
  "identity_bus =
     subscribe TUserEmailConfirmed user_email_confirmed_handler
     (subscribe TForgotStep2 forgot_step2_handler
     (subscribe TForgotStep1 forgot_step1_handler
     (subscribe TUserRegistered user_registered_handler
     (new_bus [log_middleware] [log_middleware]))))"

definition bus_publish :: "event \<Rightarrow> unit app" where
  "bus_publish = publish event_type_of identity_bus"

definition bus_publish_many :: "event list \<Rightarrow> unit app" where
  "bus_publish_many = publish_many event_type_of ev_order identity_bus"

section \<open>Lemmas\<close>

lemma py_for_no_ops [simp]: "py_for xs (\<lambda>x. py_ret ()) = py_ret ()"
  by (induction xs) simp_all

text \<open>What the identity bus does with an event, as one equation per event class.\<close>

fun event_mail :: "event_body \<Rightarrow> mail list" where
  "event_mail (UserRegisteredEvent to code name) = [\<lparr>m_dest = to, m_subject = ''Confirm your email'',
     m_content = confirmation_code_email name code 15\<rparr>]"
| "event_mail (UserEmailConfirmedEvent t) = []"
| "event_mail (ForgotPasswordStep1Event to code) = [\<lparr>m_dest = to,
     m_subject = ''Password reset code'', m_content = password_reset_code_email code 15\<rparr>]"
| "event_mail (ForgotPasswordStep2Event to pwd name) = [\<lparr>m_dest = to,
     m_subject = ''Your password was changed'', m_content = password_changed_email name\<rparr>]"

lemma bus_publish_spec:
  "bus_publish e w = (Ret (), w\<lparr>w_mails := w_mails w @ event_mail (ev_body e)\<rparr>)"
  by (cases "ev_body e")
    (simp_all add: bus_publish_def publish_def identity_bus_def subscribe_def new_bus_def
      wrap_handler_def log_middleware_def event_type_of_def user_registered_handler_def
      user_email_confirmed_handler_def forgot_step1_handler_def forgot_step2_handler_def
      send_mail_def py_bind_app)

lemma py_for_publish:
  "py_for es bus_publish w
     = (Ret (), w\<lparr>w_mails := w_mails w @ concat (map (event_mail \<circ> ev_body) es)\<rparr>)"
  by (induction es arbitrary: w) (simp_all add: py_bind_app bus_publish_spec)

lemma bus_publish_many_eq:
  "bus_publish_many es w = (Ret (), w\<lparr>w_mails := w_mails w
     @ concat (map (event_mail \<circ> ev_body) (sort_key ev_order es))\<rparr>)"
  using py_for_publish [of "sort_key ev_order es" w]
  by (simp add: bus_publish_many_def publish_many_def bus_publish_def [symmetric])

lemma keeps_bus_publish [keeps_intros]: "keeps (on_db Q) (bus_publish e)"
  by (simp add: keeps_def bus_publish_spec)

lemma keeps_bus_publish_many [keeps_intros]: "keeps (on_db Q) (bus_publish_many es)"
  by (simp add: keeps_def bus_publish_many_eq)

text \<open>
  Publishing a batch sends, for every event in the order of its \<open>order\<close> field (equal
  orders in the order they were raised), exactly the mail of its class to its recipient, and
  changes nothing else; it never raises. The mail that announces a new password is the same
  whatever the password is.
\<close>

theorem bus_publish_many_spec:
  "bus_publish_many es w = (Ret (), w\<lparr>w_mails := w_mails w
     @ concat (map (event_mail \<circ> ev_body) (sort_key ev_order es))\<rparr>)
   \<and> event_mail (ForgotPasswordStep2Event to pwd name) = event_mail (ForgotPasswordStep2Event to pwd' name)"
  by (simp add: bus_publish_many_eq)

end
