(* ===== verification/Services.thy ===== *)
theory Services
  imports Repositories EventBus
begin

text \<open>
  The application services of identity (\<open>application/identity/services\<close>): the confirmation
  service, which owns the rules of the one-time codes, registration and password reset, login and
  token refresh, and the API keys. A service opens no unit of work; its caller does.
\<close>

section \<open>Confirmation (user\_confirmation\_service.py)\<close>

definition invalid_otp :: detail where
  "invalid_otp = mk_detail INVALID_OTP (Some ''otp'') (Some (message_text MInvalidOtp))"

definition already_used :: detail where
  "already_used = mk_detail OTP_ALREADY_VERIFIED (Some ''otp'') (Some (message_text MOtpAlreadyVerified))"

definition expired_otp :: detail where
  "expired_otp = mk_detail OTP_EXPIRED (Some ''otp'') (Some (message_text MOtpExpired))"

definition cooldown_error :: "int \<Rightarrow> detail" where
  "cooldown_error minutes = mk_detail OTP_RESEND_COOLDOWN None
     (Some (''A new code can be requested once every '' @ show_int minutes @ '' min.''))"

text \<open>\<open>_EVENT_BY_KIND\<close>: the event a confirmed kind announces; a reset code has none.\<close>

fun event_by_kind :: "otp_kind \<Rightarrow> (string \<Rightarrow> event_body) option" where
  "event_by_kind EMAIL_CONFIRMATION = Some UserEmailConfirmedEvent"
| "event_by_kind FORGOT_PASSWORD = None"

text \<open>The generator is \<open>generate_numeric_otp(OTP_CODE_LENGTH)\<close> (identity\_di.py).\<close>

definition otp_generator :: "string app" where
  "otp_generator = py_bind draw (\<lambda>d. py_ret (generate_numeric_otp d otp_code_length))"

definition issue :: "uuid \<Rightarrow> otp_kind \<Rightarrow> string \<Rightarrow> string result_detailed app" where
  "issue content_id kind target =
     py_bind (has_recent_issue content_id CT_USER kind (otp_cooldown_minutes kind)) (\<lambda>recent.
     if recent then py_ret (Err [cooldown_error (otp_cooldown_minutes kind)])
     else py_bind utc_epoch_int (\<lambda>now.
       py_bind (invalidate_pending content_id CT_USER kind now) (\<lambda>_.
       py_bind otp_generator (\<lambda>code.
       py_bind (otp_create_row \<lparr>oc_otp = code, oc_content_id = content_id,
           oc_content_type = CT_USER, oc_kind = kind,
           oc_expires_at = now + otp_ttl_minutes kind * 60, oc_target_value = target,
           oc_verified = False\<rparr>) (\<lambda>_.
       py_ret (Ok code))))))"

definition confirm :: "uuid \<Rightarrow> string \<Rightarrow> otp_kind \<Rightarrow> uuid result_detailed app" where
  "confirm content_id otp kind =
     (case event_by_kind kind of
        None \<Rightarrow> py_raise (RuntimeError ''kind has no confirmation event; it is not served by this service.'')
      | Some event_of \<Rightarrow>
          py_bind (find_active_for_content otp content_id kind CT_USER) (\<lambda>found.
          case found of
            None \<Rightarrow> py_ret (Err [invalid_otp])
          | Some f \<Rightarrow>
              if od_used_at f \<noteq> None \<or> od_verified f then py_ret (Err [already_used])
              else py_bind utc_epoch_int (\<lambda>t1.
                if od_expires_at f < t1 then py_ret (Err [expired_otp])
                else py_bind utc_epoch_int (\<lambda>t2.
                  py_bind (consume_by_id (od_id f) t2) (\<lambda>won.
                  if \<not> won then py_ret (Err [already_used])
                  else py_bind (mk_event (od_content_id f) (event_of (od_target_value f))) (\<lambda>e.
                    py_bind (bus_publish e) (\<lambda>_. py_ret (Ok (od_content_id f)))))))))"

section \<open>Registration and password reset (registration\_service.py)\<close>

record register_command =
  rc_email :: string
  rc_password :: string
  rc_first_name :: string
  rc_last_name :: string
  rc_phone :: "string option"
  rc_address :: "string option"

definition create_params_of :: "register_command \<Rightarrow> user_create_params" where
  "create_params_of cmd = \<lparr>cp_email = rc_email cmd, cp_first_name = rc_first_name cmd,
     cp_last_name = rc_last_name cmd, cp_phone = rc_phone cmd, cp_address = rc_address cmd,
     cp_description = None, cp_information = None, cp_avatar_id = None\<rparr>"

definition register_user :: "libs \<Rightarrow> register_command \<Rightarrow> user_aggr result_detailed app" where
  "register_user L cmd =
     py_bind (py_lift (mk_user_create_params (create_params_of cmd))) (\<lambda>param.
     py_bind (aggr_register param) (\<lambda>user0.
     py_bind (aggr_set_password L (rc_password cmd) user0) (\<lambda>user.
     py_bind (user_create_obj user) (\<lambda>_.
     py_bind flush (\<lambda>_.
     py_bind (issue (u_id (ag_row user)) EMAIL_CONFIRMATION (u_email (ag_row user))) (\<lambda>res.
     case res of
       Err e \<Rightarrow> py_ret (Err e)
     | Ok code \<Rightarrow> py_bind (aggr_mark_registered code user) (\<lambda>user'. py_ret (Ok user'))))))))"

definition issue_reset_code :: "user_aggr \<Rightarrow> user_aggr result_detailed app" where
  "issue_reset_code a =
     py_bind (issue (u_id (ag_row a)) FORGOT_PASSWORD (u_email (ag_row a))) (\<lambda>res.
     case res of
       Err e \<Rightarrow> py_ret (Err e)
     | Ok code \<Rightarrow> py_bind (mk_event (u_id (ag_row a))
           (ForgotPasswordStep1Event (u_email (ag_row a)) code)) (\<lambda>e.
         py_ret (Ok (add_domain_event e a))))"

definition announce_password_changed :: "string \<Rightarrow> user_aggr \<Rightarrow> user_aggr app" where
  "announce_password_changed new_pwd a =
     py_bind (mk_event (u_id (ag_row a))
       (ForgotPasswordStep2Event (u_email (ag_row a)) new_pwd (aggr_full_name a))) (\<lambda>e.
     py_ret (add_domain_event e a))"

section \<open>Login and refresh (auth\_service.py)\<close>

definition invalid_credentials :: detail where
  "invalid_credentials =
     mk_detail INVALID_LOGIN_CREDENTIALS None (Some (message_text MInvalidLoginCredentials))"

definition login :: "libs \<Rightarrow> jwt_config \<Rightarrow> string \<Rightarrow> string \<Rightarrow> token_pair result_detailed app" where
  "login L cfg email password =
     py_bind (get_credentials_by_email email) (\<lambda>found.
     case found of
       None \<Rightarrow> (let _ = verify_password L password [] in py_ret (Err [invalid_credentials]))
     | Some u \<Rightarrow>
         if \<not> verify_password L password (ua_password u) then py_ret (Err [invalid_credentials])
         else if \<not> ua_is_active u \<or> \<not> ua_email_confirmed u then py_ret (Err [invalid_credentials])
         else py_bind (for_user L cfg (ua_id u) (ua_last_login_time u)) (\<lambda>t. py_ret (Ok t)))"

definition refresh :: "libs \<Rightarrow> jwt_config \<Rightarrow> string \<Rightarrow> token_pair result_detailed app" where
  "refresh L cfg token =
     py_bind (decode_payload L cfg token) (\<lambda>payload.
     case payload of
       None \<Rightarrow> py_ret (Err [mk_detail INVALID_REFRESH_TOKEN None (Some (message_text MInvalidTokenProvided))])
     | Some p \<Rightarrow>
         if jp_token_type p \<noteq> Some REFRESH_TOKEN
         then py_ret (Err [mk_detail INVALID_TOKEN_TYPE None (Some (message_text MInvalidTokenType))])
         else py_bind (case jp_user_id p of None \<Rightarrow> py_ret None | Some i \<Rightarrow> get_for_context i) (\<lambda>user.
           case user of
             None \<Rightarrow> py_ret (Err [invalid_credentials])
           | Some u \<Rightarrow>
               if \<not> ux_is_active u then py_ret (Err [invalid_credentials])
               else py_bind (for_user L cfg (ux_id u) None) (\<lambda>t. py_ret (Ok t))))"

section \<open>API keys (api\_key\_services.py, api\_key\_orm\_repository.py)\<close>

definition api_key_byte_length :: nat where
  "api_key_byte_length = 64"

record api_key_dto =
  ak_id :: uuid
  ak_key :: string

definition api_key_repo_create :: "bytes \<Rightarrow> uuid \<Rightarrow> uuid app" where
  "api_key_repo_create mac owner = py_bind uuid7 (\<lambda>i.
     py_bind (py_write (\<lambda>w. w\<lparr>w_new_keys := w_new_keys w @ [\<lparr>k_id = i, k_created_at = 0,
       k_updated_at = 0, k_key = mac, k_status = KEY_ACTIVE, k_last_used_at = None,
       k_owner_id = owner\<rparr>]\<rparr>)) (\<lambda>_.
     py_bind flush (\<lambda>_. py_ret i)))"

text \<open>\<open>db.scalar\<close>: the first row, with the owner it joins.\<close>

definition api_key_repo_get :: "bytes \<Rightarrow> (api_key_row \<times> user_row) option app" where
  "api_key_repo_get mac = py_read (\<lambda>w.
     case filter (\<lambda>k. k_key k = mac) (db_api_keys (w_work w)) of
       [] \<Rightarrow> None
     | k # ks \<Rightarrow> map_option (Pair k) (find (\<lambda>u. u_id u = k_owner_id k) (db_users (w_work w))))"

definition api_key_create :: "libs \<Rightarrow> bytes \<Rightarrow> uuid \<Rightarrow> api_key_dto result_detailed app" where
  "api_key_create L secret user_id =
     py_bind (generate_secret api_key_byte_length) (\<lambda>raw.
     py_bind (api_key_repo_create (sign L secret raw None) user_id) (\<lambda>i.
     py_ret (Ok \<lparr>ak_id = i, ak_key = b64_encode L raw\<rparr>)))"

definition api_key_get_with_owner :: "libs \<Rightarrow> bytes \<Rightarrow> bytes \<Rightarrow> (api_key_row \<times> user_row) option app" where
  "api_key_get_with_owner L secret raw = api_key_repo_get (sign L secret raw None)"

section \<open>Lemmas\<close>

subsection \<open>A refusal changes nothing\<close>

text \<open>
  \<open>refusal_safe d m\<close>: when \<open>m\<close> answers with an error, the session is still untouched;
  \<open>never_err m\<close>: \<open>m\<close> never answers with an error.
\<close>

definition refusal_safe :: "db \<Rightarrow> ('v, 'er) result app \<Rightarrow> bool" where
  "refusal_safe d m \<longleftrightarrow> hoare (untouched d) m (\<lambda>r w. is_err r \<longrightarrow> untouched d w) (\<lambda>_ _. True)"

definition never_err :: "('v, 'er) result app \<Rightarrow> bool" where
  "never_err m \<longleftrightarrow> hoare (\<lambda>_. True) m (\<lambda>r _. is_ok r) (\<lambda>_ _. True)"

named_theorems refusal_intros

lemma never_err_ok [refusal_intros]: "never_err (py_ret (Ok v))"
  by (simp add: never_err_def hoare_ret)

lemma never_err_bind: "(\<And>a. never_err (f a)) \<Longrightarrow> never_err (py_bind m f)"
  unfolding never_err_def
  by (rule hoare_bind [where R = "\<lambda>_ _. True"]) (auto simp: hoare_def split: prod.splits outcome.splits)

lemma refusal_never: "never_err m \<Longrightarrow> refusal_safe d m"
  by (auto simp: never_err_def refusal_safe_def hoare_def split: prod.splits outcome.splits)

lemma refusal_ret [refusal_intros]: "refusal_safe d (py_ret r)"
  by (simp add: refusal_safe_def hoare_ret)

lemma refusal_raise [refusal_intros]: "refusal_safe d (py_raise e)"
  by (simp add: refusal_safe_def hoare_raise)

lemma refusal_if [refusal_intros]:
  "refusal_safe d m \<Longrightarrow> refusal_safe d n \<Longrightarrow> refusal_safe d (if b then m else n)"
  by simp

lemma refusal_option [refusal_intros]:
  "refusal_safe d m \<Longrightarrow> (\<And>x. refusal_safe d (f x)) \<Longrightarrow>
   refusal_safe d (case x of None \<Rightarrow> m | Some x \<Rightarrow> f x)"
  by (cases x) simp_all

lemma refusal_keep:
  "keeps (untouched d) m \<Longrightarrow> (\<And>a. refusal_safe d (f a)) \<Longrightarrow> refusal_safe d (py_bind m f)"
  unfolding refusal_safe_def
  by (rule hoare_bind [where R = "\<lambda>_. untouched d"]) (erule hoare_conseq [OF hoare_keeps]; simp)

text \<open>A step whose error is passed on, and whose success leads to no error.\<close>

lemma refusal_result:
  "refusal_safe d m \<Longrightarrow> (\<And>e. refusal_safe d (f (Err e))) \<Longrightarrow> (\<And>v. never_err (f (Ok v))) \<Longrightarrow>
   refusal_safe d (py_bind m f)"
  unfolding refusal_safe_def never_err_def
proof (erule hoare_bind)
  fix r
  assume e: "\<And>e. hoare (untouched d) (f (Err e)) (\<lambda>r w. is_err r \<longrightarrow> untouched d w) (\<lambda>_ _. True)"
    and ok: "\<And>v. hoare (\<lambda>_. True) (f (Ok v)) (\<lambda>r _. is_ok r) (\<lambda>_ _. True)"
  show "hoare (\<lambda>w. is_err r \<longrightarrow> untouched d w) (f r)
      (\<lambda>r w. is_err r \<longrightarrow> untouched d w) (\<lambda>_ _. True)"
  proof (cases r)
    case (Ok v)
    show ?thesis
      unfolding Ok by (rule hoare_conseq [OF ok]) (auto simp: result.disc_eq_case split: result.splits)
  next
    case (Err x)
    show ?thesis
      unfolding Err by (rule hoare_conseq [OF e]) simp_all
  qed
qed

lemma refusal_claim:
  assumes d: "db_ok d" and a: "refusal_safe d a" and b: "never_err b"
  shows "refusal_safe d (py_bind (consume_by_id i now) (\<lambda>won. if \<not> won then a else b))"
  unfolding refusal_safe_def
proof (rule hoare_bind [OF consume_false_untouched [OF d]])
  fix won
  show "hoare (\<lambda>w. \<not> won \<longrightarrow> untouched d w) (if \<not> won then a else b)
      (\<lambda>r w. is_err r \<longrightarrow> untouched d w) (\<lambda>_ _. True)"
  proof (cases won)
    case True
    then show ?thesis
      using b [unfolded never_err_def]
      by simp (erule hoare_conseq; auto simp: result.disc_eq_case split: result.splits)
  next
    case False
    then show ?thesis
      using a [unfolded refusal_safe_def] by simp
  qed
qed

lemmas refusal_steps = refusal_keep [OF keeps_untouched(1)] refusal_keep [OF keeps_untouched(8)]
  refusal_keep [OF keeps_untouched_composed(1)] refusal_keep [OF reads_untouched(1)]
  refusal_keep [OF reads_untouched(2)] refusal_keep [OF reads_untouched(3)]

lemma issue_refusal [refusal_intros]: "refusal_safe d (issue i kind target)"
  unfolding issue_def
  by (intro refusal_intros refusal_steps refusal_never never_err_bind)

lemma confirm_refusal [refusal_intros]: "db_ok d \<Longrightarrow> refusal_safe d (confirm i otp kind)"
  unfolding confirm_def
  by (intro refusal_intros refusal_steps refusal_claim never_err_bind)

end
