(* ===== verification/Handlers.thy ===== *)
theory Handlers
  imports Services
begin

text \<open>
  The command and query handlers of identity (\<open>application/identity/handlers\<close>), each with the unit
  of work it opens, its early returns and rollbacks, in the order of the code.
\<close>

section \<open>auth\_handlers.py\<close>

definition neutral_sent :: string where
  "neutral_sent = ''If the address is registered, a code has been sent to it''"

definition email_taken :: detail where
  "email_taken = mk_detail UNIQUE_CONSTRAINT (Some ''email'')
     (Some ''This email address is already registered'')"

definition register_validator :: "register_command \<Rightarrow> unit result_detailed app" where
  "register_validator cmd = py_bind (exists_by_email (rc_email cmd) None) (\<lambda>ex.
     py_ret (if ex then Err [email_taken] else Ok ()))"

definition register_handler :: "libs \<Rightarrow> register_command \<Rightarrow> unit result_detailed app" where
  "register_handler L cmd =
     py_bind (register_validator cmd) (\<lambda>v.
     case v of
       Err e \<Rightarrow> py_ret (Err e)
     | Ok _ \<Rightarrow> with_uow (
         py_bind (register_user L cmd) (\<lambda>res.
         case res of
           Err e \<Rightarrow> py_bind rollback (\<lambda>_. py_ret (Err e))
         | Ok user \<Rightarrow>
             py_bind (py_lift (pull_events ([] :: event_type list) False (ag_events user))) (\<lambda>evs.
             py_bind (bus_publish_many evs) (\<lambda>_. py_ret (Ok ()))))))"

definition invalid_code :: detail where
  "invalid_code = mk_detail INVALID_OTP (Some ''otp'') (Some ''Invalid confirmation code'')"

definition confirm_email_handler :: "string \<Rightarrow> string \<Rightarrow> unit result_detailed app" where
  "confirm_email_handler email otp = with_uow (
     py_bind (get_aggregate_for_update_by_email email) (\<lambda>found.
     case found of
       None \<Rightarrow> py_ret (Err [invalid_code])
     | Some user \<Rightarrow>
         py_bind (confirm (u_id (ag_row user)) otp EMAIL_CONFIRMATION) (\<lambda>res.
         case res of
           Err e \<Rightarrow> py_bind rollback (\<lambda>_. py_ret (Err e))
         | Ok _ \<Rightarrow> py_bind (aggr_confirm_email user) (\<lambda>_. py_ret (Ok ())))))"

definition resend_handler :: "string \<Rightarrow> string result_detailed app" where
  "resend_handler email = with_uow (
     py_bind (get_aggregate_for_update_by_email email) (\<lambda>found.
     case found of
       None \<Rightarrow> py_ret (Ok neutral_sent)
     | Some user \<Rightarrow>
         if u_email_confirmed (ag_row user) then py_ret (Ok neutral_sent)
         else py_bind (issue (u_id (ag_row user)) EMAIL_CONFIRMATION (u_email (ag_row user))) (\<lambda>res.
           case res of
             Err e \<Rightarrow> py_bind rollback (\<lambda>_. py_ret (Err e))
           | Ok code \<Rightarrow>
               py_bind (aggr_mark_registered code user) (\<lambda>user'.
               py_bind (py_lift (pull_events ([] :: event_type list) False (ag_events user'))) (\<lambda>evs.
               py_bind (bus_publish_many evs) (\<lambda>_. py_ret (Ok neutral_sent)))))))"

definition login_handler :: "libs \<Rightarrow> jwt_config \<Rightarrow> string \<Rightarrow> string \<Rightarrow> token_pair result_detailed app" where
  "login_handler L cfg email password = with_uow (login L cfg email password)"

definition refresh_handler :: "libs \<Rightarrow> jwt_config \<Rightarrow> string \<Rightarrow> token_pair result_detailed app" where
  "refresh_handler L cfg token = with_uow (refresh L cfg token)"

section \<open>forgot\_password\_handlers.py\<close>

definition neutral_reset :: string where
  "neutral_reset = ''If the address is registered, a reset code has been sent to it''"

definition forgot_step1 :: "string \<Rightarrow> string result_detailed app" where
  "forgot_step1 email = with_uow (
     py_bind (get_for_password_reset email) (\<lambda>found.
     case found of
       None \<Rightarrow> py_ret (Ok neutral_reset)
     | Some user \<Rightarrow>
         py_bind (issue_reset_code user) (\<lambda>res.
         case res of
           Err e \<Rightarrow> py_bind rollback (\<lambda>_. py_ret (Err e))
         | Ok user' \<Rightarrow>
             py_bind (py_lift (pull_events ([] :: event_type list) False (ag_events user'))) (\<lambda>evs.
             py_bind (bus_publish_many evs) (\<lambda>_. py_ret (Ok neutral_reset))))))"

definition forgot_step2 :: "string \<Rightarrow> string \<Rightarrow> string \<Rightarrow> recovery_user result_detailed app" where
  "forgot_step2 base email otp = with_uow (
     py_bind (get_by_email_for_password_recovery base email) (\<lambda>found.
     case found of
       None \<Rightarrow> py_ret (Err [invalid_otp])
     | Some u \<Rightarrow>
         py_bind (find_active_for_content otp (rv_id u) FORGOT_PASSWORD CT_USER) (\<lambda>code.
         case code of
           None \<Rightarrow> py_ret (Err [invalid_otp])
         | Some c \<Rightarrow>
             if od_used_at c \<noteq> None then py_ret (Err [invalid_otp])
             else py_bind utc_epoch_int (\<lambda>now.
               if od_expires_at c < now then py_ret (Err [expired_otp])
               else py_ret (Ok u)))))"

definition forgot_step3 :: "libs \<Rightarrow> string \<Rightarrow> string \<Rightarrow> string \<Rightarrow> string result_detailed app" where
  "forgot_step3 L email otp new_pwd = with_uow (
     py_bind (get_for_password_reset email) (\<lambda>found.
     case found of
       None \<Rightarrow> py_ret (Err [invalid_otp])
     | Some user \<Rightarrow>
         py_bind (find_active_for_content otp (u_id (ag_row user)) FORGOT_PASSWORD CT_USER) (\<lambda>code.
         case code of
           None \<Rightarrow> py_ret (Err [invalid_otp])
         | Some c \<Rightarrow>
             py_bind utc_epoch_int (\<lambda>t1.
             if od_expires_at c < t1 then py_ret (Err [expired_otp])
             else py_bind utc_epoch_int (\<lambda>t2.
               py_bind (consume_by_id (od_id c) t2) (\<lambda>won.
               if \<not> won then py_bind rollback (\<lambda>_. py_ret (Err [invalid_otp]))
               else py_bind (aggr_set_password L new_pwd user) (\<lambda>user1.
                 py_bind (announce_password_changed new_pwd user1) (\<lambda>user2.
                 py_bind (py_lift (pull_events ([] :: event_type list) False (ag_events user2))) (\<lambda>evs.
                 py_bind (bus_publish_many evs) (\<lambda>_. py_ret (Ok ''Password updated'')))))))))))"

section \<open>user\_account\_handlers.py\<close>

definition user_not_found :: detail where
  "user_not_found = mk_detail OBJECT_NOT_FOUND None (Some (add_prefix MNotFound ''User''))"

definition toggle_status_handler :: "uuid \<Rightarrow> unit result_detailed app" where
  "toggle_status_handler i = with_uow (
     py_bind (user_exists i) (\<lambda>ex.
     if \<not> ex then py_ret (Err [user_not_found])
     else py_bind (toggle_status i) (\<lambda>_. py_ret (Ok ()))))"

text \<open>A caller without a user has no id; \<open>WHERE id IS NULL\<close> finds nothing.\<close>

definition own_aggregate :: "uuid option \<Rightarrow> user_aggr option app" where
  "own_aggregate uid = (case uid of None \<Rightarrow> py_ret None | Some i \<Rightarrow> get_aggregate_for_update i)"

definition update_me_handler :: "user_update_params \<Rightarrow> unit result_detailed app" where
  "update_me_handler message =
     py_bind current_user_id (\<lambda>uid.
     py_bind (py_lift (mk_user_update_params message)) (\<lambda>param.
     with_uow (
       py_bind (own_aggregate uid) (\<lambda>found.
       case found of
         None \<Rightarrow> py_ret (Err [user_not_found])
       | Some user \<Rightarrow> py_bind (aggr_update param user) (\<lambda>_. py_ret (Ok ()))))))"

definition wrong_password :: detail where
  "wrong_password = mk_detail INVALID_PASSWORD (Some ''old_password'') (Some ''Current password is incorrect'')"

text \<open>\<open>user.password\<close> is \<open>None\<close> for an account without a usable password: \<open>decode\<close> then fails.\<close>

definition change_password_handler :: "libs \<Rightarrow> string \<Rightarrow> string \<Rightarrow> unit result_detailed app" where
  "change_password_handler L old_pwd new_pwd =
     py_bind current_user_id (\<lambda>uid.
     with_uow (
       py_bind (own_aggregate uid) (\<lambda>found.
       case found of
         None \<Rightarrow> py_ret (Err [user_not_found])
       | Some user \<Rightarrow>
           (case u_password (ag_row user) of
              None \<Rightarrow> py_raise (AttributeError ''decode'')
            | Some h \<Rightarrow>
                if \<not> verify_password L old_pwd h
                then py_bind rollback (\<lambda>_. py_ret (Err [wrong_password]))
                else py_bind (aggr_set_password L new_pwd user) (\<lambda>_. py_ret (Ok ()))))))"

definition me_handler :: "string \<Rightarrow> uuid \<Rightarrow> user_detailed result_detailed app" where
  "me_handler base i = py_bind (get_detailed_user base i) (\<lambda>x.
     py_ret (case x of None \<Rightarrow> Err [user_not_found] | Some u \<Rightarrow> Ok u))"

definition user_detailed_handler :: "string \<Rightarrow> uuid \<Rightarrow> user_detailed result_detailed app" where
  "user_detailed_handler base i = py_bind (get_detailed_user base i) (\<lambda>x.
     py_ret (case x of None \<Rightarrow> Err [user_not_found] | Some u \<Rightarrow> Ok u))"

section \<open>A refused request changes nothing\<close>

lemma refusal_rollback:
  assumes m: "keeps (on_db (committed_is d)) m" and ok: "\<And>v. never_err (g v)"
  shows "refusal_safe d (py_bind m (\<lambda>res. case res of
     Err e \<Rightarrow> py_bind rollback (\<lambda>_. py_ret (Err e)) | Ok v \<Rightarrow> g v))"
  unfolding refusal_safe_def
proof (rule hoare_bind [where R = "\<lambda>_ w. w_committed w = d"])
  show "hoare (untouched d) m (\<lambda>_ w. w_committed w = d) (\<lambda>_ _. True)"
    by (rule hoare_conseq [OF hoare_keeps [OF m]]) (simp_all add: on_db_def committed_is_def untouched_def)
  show "hoare (\<lambda>w. w_committed w = d)
      (case r of Err e \<Rightarrow> py_bind rollback (\<lambda>_. py_ret (Err e)) | Ok v \<Rightarrow> g v)
      (\<lambda>r w. is_err r \<longrightarrow> untouched d w) (\<lambda>_ _. True)" for r
  proof (cases r)
    case (Ok v)
    show ?thesis
      using ok [of v, unfolded never_err_def] unfolding Ok
      by simp (erule hoare_conseq; auto simp: result.disc_eq_case split: result.splits)
  next
    case (Err e)
    then show ?thesis
      by (auto simp: hoare_def rollback_def py_bind_app untouched_rollback)
  qed
qed

text \<open>What every handler keeps of the two database copies.\<close>

lemma issue_committed [keeps_intros]: "keeps (on_db (committed_is d)) (issue i kind t)"
  unfolding issue_def otp_generator_def by (intro keeps_intros)

lemma confirm_committed [keeps_intros]: "keeps (on_db (committed_is d)) (confirm i otp kind)"
  unfolding confirm_def mk_event_def by (intro keeps_intros)

lemma keeps_result [keeps_intros]:
  "(\<And>v. keeps P (f v)) \<Longrightarrow> (\<And>e. keeps P (g e)) \<Longrightarrow> keeps P (case r of Ok v \<Rightarrow> f v | Err e \<Rightarrow> g e)"
  by (cases r) simp_all

lemma aggr_on_db [keeps_intros]:
  "keeps (on_db Q) (aggr_confirm_email a)" "keeps (on_db Q) (aggr_set_password L p a)"
  "keeps (on_db Q) (aggr_update prm a)" "keeps (on_db Q) (aggr_mark_registered c a)"
  "keeps (on_db Q) (aggr_register cp)" "keeps (on_db Q) (announce_password_changed p a)"
  unfolding aggr_confirm_email_def aggr_set_password_def aggr_update_def aggr_mark_registered_def
    aggr_register_def announce_password_changed_def aggr_set_def hash_password_def mk_event_def
    source_empty_def
  by (intro keeps_intros)+

lemma register_user_committed [keeps_intros]: "keeps (on_db (committed_is d)) (register_user L cmd)"
  unfolding register_user_def by (intro keeps_intros)

lemma issue_reset_code_committed [keeps_intros]: "keeps (on_db (committed_is d)) (issue_reset_code a)"
  unfolding issue_reset_code_def mk_event_def by (intro keeps_intros)

text \<open>
  \<open>refusal_keeps_db m\<close>: started with an empty session, when \<open>m\<close> answers with an error or raises, the
  committed tables are what they were.
\<close>

definition refusal_keeps_db :: "('v, 'er) result app \<Rightarrow> bool" where
  "refusal_keeps_db m \<longleftrightarrow> (\<forall>w. session_clear w \<longrightarrow> db_ok (w_committed w) \<longrightarrow>
     (case m w of
        (Ret r, w') \<Rightarrow> is_err r \<longrightarrow> w_committed w' = w_committed w
      | (Raise e, w') \<Rightarrow> w_committed w' = w_committed w))"

lemma refusal_uow:
  assumes "\<And>d. db_ok d \<Longrightarrow> refusal_safe d body" and "\<And>d. keeps (on_db (committed_is d)) body"
  shows "refusal_keeps_db (with_uow body)"
  unfolding refusal_keeps_db_def
proof (intro allI impI)
  fix w assume w: "session_clear w" "db_ok (w_committed w)"
  show "case with_uow body w of
      (Ret r, w') \<Rightarrow> is_err r \<longrightarrow> w_committed w' = w_committed w
    | (Raise e, w') \<Rightarrow> w_committed w' = w_committed w"
    by (rule with_uow_untouched [OF assms(1) [OF w(2), unfolded refusal_safe_def] assms(2) w(1)]) simp
qed

lemma refusal_pure:
  assumes "\<And>w. snd (m w) = w" and "\<And>a. refusal_keeps_db (f a)"
  shows "refusal_keeps_db (py_bind m f)"
  unfolding refusal_keeps_db_def
proof (intro allI impI)
  fix w assume w: "session_clear w" "db_ok (w_committed w)"
  obtain r where m: "m w = (r, w)" using assms(1) [of w] by (cases "m w") auto
  show "case py_bind m f w of
      (Ret r, w') \<Rightarrow> is_err r \<longrightarrow> w_committed w' = w_committed w
    | (Raise e, w') \<Rightarrow> w_committed w' = w_committed w"
    using assms(2) w m by (cases r) (auto simp: refusal_keeps_db_def)
qed

lemma refusal_keeps_ret: "refusal_keeps_db (py_ret r)"
  by (simp add: refusal_keeps_db_def)

lemma reads_pure:
  "snd (exists_by_email email a w) = w" "snd (current_user_id w) = w" "snd (py_lift r w) = w"
  by (simp_all add: exists_by_email_def select_users_def current_user_id_def py_bind_app)

lemma validator_pure: "snd (register_validator cmd w) = w"
  by (simp add: register_validator_def exists_by_email_def select_users_def py_bind_app)

lemmas refusal_reads = refusal_keep [OF user_reads_untouched(5)]
  refusal_keep [OF user_reads_untouched(8)] refusal_keep [OF user_reads_untouched(9)]
  refusal_keep [OF user_reads_untouched(10)] refusal_keep [OF user_reads_untouched(4)]

lemma own_aggregate_keeps [keeps_intros]:
  "keeps (untouched d) (own_aggregate uid)" "keeps (on_db Q) (own_aggregate uid)"
  unfolding own_aggregate_def by (intro keeps_intros)+

lemma register_refusal: "refusal_keeps_db (register_handler L cmd)"
  unfolding register_handler_def
proof (rule refusal_pure [OF validator_pure])
  fix v :: "unit result_detailed"
  show "refusal_keeps_db (case v of Err e \<Rightarrow> py_ret (Err e)
     | Ok _ \<Rightarrow> with_uow (py_bind (register_user L cmd) (\<lambda>res. case res of
         Err e \<Rightarrow> py_bind rollback (\<lambda>_. py_ret (Err e))
       | Ok user \<Rightarrow> py_bind (py_lift (pull_events ([] :: event_type list) False (ag_events user)))
           (\<lambda>evs. py_bind (bus_publish_many evs) (\<lambda>_. py_ret (Ok ()))))))"
    by (cases v) (simp_all, intro refusal_uow refusal_rollback keeps_intros never_err_bind never_err_ok,
        rule refusal_keeps_ret)
qed

lemma confirm_email_refusal: "refusal_keeps_db (confirm_email_handler email otp)"
  unfolding confirm_email_handler_def
  by (intro refusal_uow refusal_reads refusal_option refusal_ret refusal_rollback keeps_intros
      never_err_bind never_err_ok)

lemma resend_refusal: "refusal_keeps_db (resend_handler email)"
  unfolding resend_handler_def
  by (intro refusal_uow refusal_reads refusal_option refusal_ret refusal_if refusal_rollback
      keeps_intros never_err_bind never_err_ok)

lemma forgot_step1_refusal: "refusal_keeps_db (forgot_step1 email)"
  unfolding forgot_step1_def
  by (intro refusal_uow refusal_reads refusal_option refusal_ret refusal_rollback
      keeps_intros never_err_bind never_err_ok)

lemma forgot_step3_refusal: "refusal_keeps_db (forgot_step3 L email otp pwd)"
  unfolding forgot_step3_def
  by (intro refusal_uow refusal_reads refusal_option refusal_ret refusal_if refusal_steps
      refusal_claim keeps_intros never_err_bind never_err_ok)

lemma toggle_refusal: "refusal_keeps_db (toggle_status_handler i)"
  unfolding toggle_status_handler_def
  by (intro refusal_uow refusal_reads refusal_ret refusal_if refusal_never
      keeps_intros never_err_bind never_err_ok)

lemma update_me_refusal: "refusal_keeps_db (update_me_handler m)"
  unfolding update_me_handler_def
  by (intro refusal_pure reads_pure refusal_uow refusal_keep [OF own_aggregate_keeps(1)] refusal_option
      refusal_ret refusal_never keeps_intros never_err_bind never_err_ok)

lemma change_password_refusal: "refusal_keeps_db (change_password_handler L old new)"
  unfolding change_password_handler_def
  by (intro refusal_pure reads_pure refusal_uow refusal_keep [OF own_aggregate_keeps(1)] refusal_option
      refusal_raise refusal_ret refusal_if refusal_steps refusal_never keeps_intros never_err_bind never_err_ok)

end
