(* ===== verification/Samples.thy ===== *)
theory Samples
  imports Handlers
begin

text \<open>
  Concrete inputs for the witnesses: a database with one confirmed account, one that waits for its
  code, and its code; a clock that advances one second per reading; and simple instances of the
  libraries, with the documented laws (a password checks against its own hash only, a token
  decodes to its payload until it expires).
\<close>

definition sample_hash :: "bytes \<Rightarrow> string" where
  "sample_hash b = ''$2b$'' @ concat (map (\<lambda>x. show_nat (unat x) @ '','') b)"

definition sample_libs :: libs where
  "sample_libs = \<lparr>bc_hashpw = (\<lambda>b s. sample_hash b), bc_checkpw = (\<lambda>b h. Some (h = sample_hash b)),
     jw_encode = (\<lambda>p k a. if jp_token_type p = Some REFRESH_TOKEN then ''refresh'' else ''access''),
     jw_decode = (\<lambda>t k a now. None), jw_payload = (\<lambda>c. Inl [([''exp''], ''Field required'')]),
     mac_sha256 = (\<lambda>k d. k @ d), b64_encode = (\<lambda>b. map (\<lambda>x. char_of (unat x)) b),
     b64_decode = (\<lambda>s. Some (utf8_encode s)),
     aes_encrypt = (\<lambda>k n d a. d), aes_decrypt = (\<lambda>k n d a. Some d)\<rparr>"

definition ann :: user_row where
  "ann = \<lparr>u_id = 1, u_created_at = 0, u_updated_at = 0, u_status = 1, u_email = ''ann@x.io'',
     u_password = Some (sample_hash (utf8_encode ''secret12'')), u_phone = None, u_first_name = ''Ann'',
     u_last_name = ''Lee'', u_address = None, u_description = None, u_information = None,
     u_avatar_id = None, u_is_active = True, u_is_superuser = False, u_email_confirmed = True,
     u_date_joined = Some 0, u_last_login_time = None\<rparr>"

definition bob :: user_row where
  "bob = ann\<lparr>u_id := 2, u_email := ''bob@x.io'', u_first_name := ''Bob'', u_status := 0,
     u_is_active := False, u_email_confirmed := False\<rparr>"

definition bob_code :: otp_row where
  "bob_code = \<lparr>o_id = 7, o_created_at = 10, o_otp = Some ''000042'', o_content_id = 2,
     o_content_type = CT_USER, o_kind = EMAIL_CONFIRMATION, o_used_at = None, o_expires_at = 2000,
     o_target_value = ''bob@x.io'', o_verified = False\<rparr>"

definition old_code :: otp_row where
  "old_code = bob_code\<lparr>o_id := 6, o_created_at := 0, o_used_at := Some 5\<rparr>"

definition sample_db :: db where
  "sample_db = \<lparr>db_users = [ann, bob], db_otps = [old_code, bob_code], db_blobs = [], db_api_keys = []\<rparr>"

definition sample_world :: world where
  "sample_world = \<lparr>w_committed = sample_db, w_work = sample_db, w_objs = [], w_new_otps = [],
     w_new_blobs = [], w_new_keys = [], w_clock = (\<lambda>n. 1000000000 + 1000000 * int n), w_tick = 0,
     w_dbnow = 1000000000, w_ids = (\<lambda>n. word_of_nat (n + 100)), w_idn = 0, w_rand = (\<lambda>n. n + 42),
     w_randn = 0, w_mails = [], w_files = [], w_user = None, w_scan = (\<lambda>rows. rows)\<rparr>"

lemmas sample_defs = sample_world_def sample_db_def ann_def bob_def bob_code_def old_code_def

lemma sample_db_ok [simp]: "db_ok sample_db"
  by (simp add: db_ok_def sample_defs)

lemma sample_clear [simp]: "session_clear sample_world"
  by (simp add: session_clear_def sample_world_def)

lemma sample_committed [simp]: "w_committed sample_world = sample_db"
  by (simp add: sample_world_def)

theorem with_uow_atomic_witness:
  "session_clear (snd (with_uow (py_raise LookupError :: unit app) sample_world))
    \<and> w_committed (snd (with_uow (py_raise LookupError :: unit app) sample_world)) = sample_db"
  using with_uow_atomic [of sample_world "py_raise LookupError :: unit app"]
  by (simp add: keeps_raise with_uow_def)

lemma sample_bcrypt:
  "\<forall>b s. bc_checkpw sample_libs b (bc_hashpw sample_libs b s) = Some True
     \<and> bcrypt_prefixed (bc_hashpw sample_libs b s)"
  by (simp add: sample_libs_def sample_hash_def bcrypt_prefixed_def py_startswith_def)

theorem password_service_spec_witness:
  "\<exists>h w'. hash_password sample_libs ''secret12'' sample_world = (Ret h, w')
     \<and> verify_password sample_libs ''secret12'' h"
proof -
  have "to_bytes ''secret12'' = Ret (utf8_encode ''secret12'')"
    by (simp add: to_bytes_def utf8_encode_def utf8_char_def bcrypt_max_bytes_def)
  then have "\<exists>h w'. hash_password sample_libs ''secret12'' sample_world = (Ret h, w')"
    by (simp add: hash_password_def draw_def py_bind_app)
  then show ?thesis
    using password_service_spec [OF sample_bcrypt, of "''secret12''" sample_world] by auto
qed

theorem encrypt_decrypt_witness:
  "decrypt sample_libs [] (encrypt sample_libs [] (replicate 12 7) [1, 2, 3] None) None = Some [1, 2, 3]"
  using encrypt_decrypt [of sample_libs "replicate 12 7" "[]" "[1, 2, 3]" None]
  by (simp add: sample_libs_def)

end
