(* ===== verification/Invariants.thy ===== *)
theory Invariants
  imports Handlers Samples
begin

text \<open>
  Invariants of the stored codes, proved once for every handler. The locale \<open>otp_invariant\<close> states
  what a predicate on the committed tables, the working copy and the pending codes must satisfy;
  inside it every handler is shown to keep the predicate. The interpretations at the end supply
  the invariants of the code: the schema's constraints, that a spent code stays spent, that an
  account has at most one usable code of a kind, and that a verified code is a spent one.
\<close>

section \<open>Predicates on the stored data\<close>

definition on_data :: "(db \<Rightarrow> db \<Rightarrow> otp_row list \<Rightarrow> bool) \<Rightarrow> world \<Rightarrow> bool" where
  "on_data R w \<longleftrightarrow> R (w_committed w) (w_work w) (w_new_otps w)"

text \<open>Between requests nothing is pending.\<close>

definition idle :: "(db \<Rightarrow> db \<Rightarrow> otp_row list \<Rightarrow> bool) \<Rightarrow> db \<Rightarrow> db \<Rightarrow> otp_row list \<Rightarrow> bool" where
  "idle P c k n \<longleftrightarrow> P c k n \<and> n = []"

lemma on_data_frame [simp]:
  "on_data R (w\<lparr>w_tick := a\<rparr>) = on_data R w" "on_data R (w\<lparr>w_idn := a\<rparr>) = on_data R w"
  "on_data R (w\<lparr>w_randn := a\<rparr>) = on_data R w" "on_data R (w\<lparr>w_mails := m\<rparr>) = on_data R w"
  "on_data R (w\<lparr>w_objs := os\<rparr>) = on_data R w" "on_data R (w\<lparr>w_new_blobs := nb\<rparr>) = on_data R w"
  "on_data R (w\<lparr>w_new_keys := nk\<rparr>) = on_data R w" "on_data R (w\<lparr>w_files := fs\<rparr>) = on_data R w"
  "on_data R (w\<lparr>w_user := us\<rparr>) = on_data R w" "on_data R (w\<lparr>w_dbnow := dn\<rparr>) = on_data R w"
  by (simp_all add: on_data_def)

lemma keeps_on_data_basic [keeps_intros]:
  "keeps (on_data R) get_now" "keeps (on_data R) uuid7" "keeps (on_data R) draw"
  "keeps (on_data R) (send_mail m)" "keeps (on_data R) (obj_set i f)" "keeps (on_data R) (obj_add r)"
  "keeps (on_data R) (py_write (remember r))" "keeps (on_data R) (select_users P)"
  "keeps (on_data R) (select_otps P')" "keeps (on_data R) (select_blobs P'')"
  "keeps (on_data R) (bus_publish e)" "keeps (on_data R) (bus_publish_many es)"
  by (auto simp: keeps_def get_now_def uuid7_def draw_def send_mail_def obj_set_def obj_add_def
      remember_def select_users_def select_otps_def select_blobs_def bus_publish_spec
      bus_publish_many_eq)

lemma keeps_on_data_clock [keeps_intros]: "keeps (on_data R) utc_epoch_int"
  unfolding utc_epoch_int_def by (intro keeps_intros)

lemma keeps_on_data_load [keeps_intros]: "keeps (on_data R) (load_user P)"
  unfolding load_user_def by (intro keeps_intros)

lemma keeps_on_data_reads [keeps_intros]:
  "keeps (on_data R) (find_active_by_otp otp kind ct)"
  "keeps (on_data R) (find_active_for_content otp i kind ct)"
  "keeps (on_data R) (has_recent_issue i ct kind m)"
  "keeps (on_data R) (get_for_context i)"
  "keeps (on_data R) (exists_by_email email a)"
  "keeps (on_data R) (get_credentials_by_email email)"
  "keeps (on_data R) (get_by_email_for_password_recovery base email)"
  "keeps (on_data R) (user_exists i)"
  "keeps (on_data R) (get_detailed_user base i)"
  "keeps (on_data R) (get_aggregate_for_update i)"
  "keeps (on_data R) (get_aggregate_for_update_by_email email)"
  "keeps (on_data R) (get_for_password_reset email)"
  "keeps (on_data R) (user_create_obj a')"
  "keeps (on_data R) current_user_id"
  unfolding otp_repo_defs user_reads user_create_obj_def current_user_id_def
  by (intro keeps_intros)+

lemma keeps_on_data_aggr [keeps_intros]:
  "keeps (on_data R) (aggr_confirm_email a)" "keeps (on_data R) (aggr_set_password L p a)"
  "keeps (on_data R) (aggr_update prm a)" "keeps (on_data R) (aggr_mark_registered c a)"
  "keeps (on_data R) (aggr_register cp)" "keeps (on_data R) (announce_password_changed p a)"
  "keeps (on_data R) (mk_event i b)" "keeps (on_data R) otp_generator"
  unfolding aggr_confirm_email_def aggr_set_password_def aggr_update_def aggr_mark_registered_def
    aggr_register_def announce_password_changed_def aggr_set_def hash_password_def mk_event_def
    source_empty_def otp_generator_def
  by (intro keeps_intros)+

section \<open>The invariant interface\<close>

text \<open>A stored row is its pending row with the id and creation time the insert gave it.\<close>

definition stamped :: "otp_row \<Rightarrow> otp_row \<Rightarrow> bool" where
  "stamped r r' \<longleftrightarrow> r' = r\<lparr>o_id := o_id r', o_created_at := o_created_at r'\<rparr>"

locale otp_invariant =
  fixes P :: "db \<Rightarrow> db \<Rightarrow> otp_row list \<Rightarrow> bool"
  assumes rollback_law: "P c k n \<Longrightarrow> P c c []"
    and commit_law: "P c k [] \<Longrightarrow> P k k []"
    and tables_law: "P c k n \<Longrightarrow> db_ok k' \<Longrightarrow> db_otps k' = db_otps k \<Longrightarrow> P c k' n"
    and claim_law: "P c k n \<Longrightarrow> db_ok (k\<lparr>db_otps := consume_otps i now (db_otps k)\<rparr>) \<Longrightarrow>
      P c (k\<lparr>db_otps := consume_otps i now (db_otps k)\<rparr>) n"
    and retire_law: "P c k n \<Longrightarrow> db_ok (k\<lparr>db_otps := invalidate_otps u ct kind now (db_otps k)\<rparr>) \<Longrightarrow>
      P c (k\<lparr>db_otps := invalidate_otps u ct kind now (db_otps k)\<rparr>) n"
    and issue_law: "P c k [] \<Longrightarrow> \<forall>r \<in> set (db_otps k). owned_by u ct kind r \<longrightarrow> o_used_at r \<noteq> None \<Longrightarrow>
      owned_by u ct kind q \<Longrightarrow> o_used_at q = None \<Longrightarrow> \<not> o_verified q \<Longrightarrow> P c k [q]"
    and flush_law: "P c k n \<Longrightarrow> list_all2 stamped n rs \<Longrightarrow> db_ok (k\<lparr>db_otps := db_otps k @ rs\<rparr>) \<Longrightarrow>
      P c (k\<lparr>db_otps := db_otps k @ rs\<rparr>) []"
begin

lemma rollback_idle: "on_data P w \<Longrightarrow> on_data (idle P) (rollback_world w)"
  by (auto simp: on_data_def idle_def world_defs intro: rollback_law)

lemma idle_data: "on_data (idle P) w \<Longrightarrow> on_data P w"
  unfolding on_data_def idle_def by (rule conjunct1)

lemma hoare_sql_write:
  assumes "\<And>c k. P c k n \<Longrightarrow> db_ok (f k) \<Longrightarrow> P c (f k) n"
  shows "hoare (\<lambda>w. on_data P w \<and> w_new_otps w = n) (sql_write f)
    (\<lambda>_ w. on_data P w \<and> w_new_otps w = n) (\<lambda>_. on_data (idle P))"
  using assms by (auto simp: hoare_def sql_write_def rollback_idle) (auto simp: on_data_def)

lemma keeps_sql_write_data:
  assumes "\<And>c k n. P c k n \<Longrightarrow> db_ok (f k) \<Longrightarrow> P c (f k) n"
  shows "keeps (on_data P) (sql_write f)" "keeps (on_data (idle P)) (sql_write f)"
  using assms
  by (auto simp: keeps_def sql_write_def idle_data rollback_idle) (auto simp: on_data_def idle_def)

lemma keeps_writes [keeps_intros]:
  "keeps (on_data P) (consume_by_id i now)" "keeps (on_data (idle P)) (consume_by_id i now)"
  "keeps (on_data P) (invalidate_pending u ct kind now)"
  "keeps (on_data (idle P)) (invalidate_pending u ct kind now)"
  "keeps (on_data P) (toggle_status j)" "keeps (on_data (idle P)) (toggle_status j)"
  unfolding consume_by_id_def invalidate_pending_def toggle_status_def update_users_def
  by (intro keeps_intros keeps_sql_write_data; simp add: claim_law retire_law tables_law)+

lemma keeps_rollback_data [keeps_intros]:
  "keeps (on_data P) rollback" "keeps (on_data (idle P)) rollback"
  by (auto simp: keeps_def rollback_def rollback_idle idle_data)

lemma flush_tables:
  "keeps (on_data P) (insert_user r)" "keeps (on_data P) (insert_blob b)"
  "keeps (on_data P) (flush_user ob)"
  unfolding insert_user_def insert_blob_def flush_user_def update_user_obj_def current_user_id_def
  by (intro keeps_intros keeps_sql_write_data(1); simp add: tables_law)+

text \<open>While the codes are inserted the working copy grows by the stamped rows, one at a time.\<close>

definition growing :: "db \<Rightarrow> db \<Rightarrow> otp_row list \<Rightarrow> world \<Rightarrow> bool" where
  "growing c k todo_done w \<longleftrightarrow> w_committed w = c \<and> (\<exists>rs. list_all2 stamped todo_done rs
     \<and> w_work w = k\<lparr>db_otps := db_otps k @ rs\<rparr> \<and> (rs = [] \<or> db_ok (w_work w)))"

lemma growing_start: "w_committed w = c \<Longrightarrow> w_work w = k \<Longrightarrow> growing c k [] w"
  by (simp add: growing_def)

lemma insert_otp_growing:
  assumes "P c k n"
  shows "hoare (growing c k rows) (insert_otp r) (\<lambda>_. growing c k (rows @ [r])) (\<lambda>_. on_data (idle P))"
proof (rule hoareI)
  fix w assume g: "growing c k rows w"
  then obtain rs where rs: "list_all2 stamped rows rs" "w_work w = k\<lparr>db_otps := db_otps k @ rs\<rparr>"
    and c: "w_committed w = c" by (auto simp: growing_def)
  let ?q = "r\<lparr>o_id := w_ids w (w_idn w), o_created_at := w_clock w (w_tick w)\<rparr>"
  have "list_all2 stamped (rows @ [r]) (rs @ [?q])"
    using rs(1) by (intro list_all2_appendI) (simp_all add: stamped_def)
  then show "case insert_otp r w of (Ret a, w') \<Rightarrow> growing c k (rows @ [r]) w'
      | (Raise e, w') \<Rightarrow> on_data (idle P) w'"
    using rs c rollback_law [OF assms]
    by (auto simp: insert_otp_def get_now_def uuid7_def sql_write_def py_bind_app growing_def
        on_data_def idle_def world_defs intro!: exI [of _ "rs @ [?q]"])
qed

lemma insert_otps_growing:
  assumes "P c k n"
  shows "hoare (growing c k rows) (py_for todo insert_otp) (\<lambda>_. growing c k (rows @ todo)) (\<lambda>_. on_data (idle P))"
proof (induction todo arbitrary: rows)
  case Nil
  show ?case by (simp add: hoare_def)
next
  case (Cons r todo)
  show ?case
    using Cons.IH [of "rows @ [r]"]
    by (simp, intro hoare_bind [OF insert_otp_growing [OF assms]]) simp
qed

lemma growing_flushed:
  assumes "P c k n" "growing c k n w"
  shows "P c (w_work w) []"
proof -
  obtain rs where rs: "list_all2 stamped n rs" "w_work w = k\<lparr>db_otps := db_otps k @ rs\<rparr>"
    "rs = [] \<or> db_ok (w_work w)" using assms(2) by (auto simp: growing_def)
  show ?thesis
  proof (cases "rs = []")
    case True
    then show ?thesis using rs assms(1) by simp
  next
    case False
    then show ?thesis using rs flush_law [OF assms(1) rs(1)] by simp
  qed
qed

text \<open>After the codes the pending list is spent: only the two database copies count.\<close>

definition spent_pending :: "world \<Rightarrow> bool" where
  "spent_pending w \<longleftrightarrow> P (w_committed w) (w_work w) []"

lemma keys_spent_pending:
  "hoare spent_pending (py_for ks insert_key) (\<lambda>_. spent_pending) (\<lambda>_. on_data (idle P))"
proof (induction ks)
  case Nil
  show ?case by (simp add: hoare_def)
next
  case (Cons q ks)
  have "hoare spent_pending (insert_key q) (\<lambda>_. spent_pending) (\<lambda>_. on_data (idle P))"
  proof (rule hoareI)
    fix w assume w: "spent_pending w"
    then have "P (w_committed w) (w_committed w) []"
      unfolding spent_pending_def by (rule rollback_law)
    then show "case insert_key q w of (Ret a, w') \<Rightarrow> spent_pending w' | (Raise e, w') \<Rightarrow> on_data (idle P) w'"
      using w tables_law
      by (auto simp: insert_key_def get_now_def sql_write_def py_bind_app spent_pending_def
          on_data_def idle_def world_defs)
  qed
  then show ?case using Cons by (simp, intro hoare_bind) auto
qed

lemma insert_otps_spent:
  "hoare (\<lambda>w. on_data P w \<and> w_new_otps w = n) (py_for n insert_otp) (\<lambda>_. spent_pending)
     (\<lambda>_. on_data (idle P))"
proof (rule hoareI)
  fix w assume w: "on_data P w \<and> w_new_otps w = n"
  let ?c = "w_committed w" and ?k = "w_work w"
  have P: "P ?c ?k n" using w by (auto simp: on_data_def)
  have "hoare (growing ?c ?k []) (py_for n insert_otp) (\<lambda>_. growing ?c ?k n) (\<lambda>_. on_data (idle P))"
    using insert_otps_growing [OF P, of "[]"] by simp
  moreover have "growing ?c ?k n w' \<Longrightarrow> spent_pending w'" for w'
    using growing_flushed [OF P] by (simp add: spent_pending_def growing_def)
  ultimately show "case py_for n insert_otp w of (Ret a, w') \<Rightarrow> spent_pending w'
      | (Raise e, w') \<Rightarrow> on_data (idle P) w'"
    using growing_start [of w ?c ?k]
    by (auto simp: hoare_def split: prod.splits outcome.splits)
qed

lemma hoare_data: "keeps (on_data P) m \<Longrightarrow> hoare (on_data P) m (\<lambda>_. on_data P) (\<lambda>_. on_data P)"
  by (rule hoare_keeps)

lemma hoare_flush: "hoare (on_data P) flush (\<lambda>_. on_data (idle P)) (\<lambda>_. on_data P)"
  unfolding flush_def
proof (intro hoare_bind)
  show "hoare (on_data P) (py_read w_new_blobs) (\<lambda>_. on_data P) (\<lambda>_. on_data P)"
    by (intro hoare_data keeps_intros)
  show "hoare (on_data P) (py_for bs insert_blob) (\<lambda>_. on_data P) (\<lambda>_. on_data P)" for bs
    by (intro hoare_data keeps_intros flush_tables)
  show "hoare (on_data P) (py_read w_objs) (\<lambda>_. on_data P) (\<lambda>_. on_data P)"
    by (intro hoare_data keeps_intros)
  show "hoare (on_data P) (py_for obs flush_user) (\<lambda>_. on_data P) (\<lambda>_. on_data P)" for obs
    by (intro hoare_data keeps_intros flush_tables)
  show "hoare (on_data P) (py_read w_new_otps) (\<lambda>n w. on_data P w \<and> w_new_otps w = n) (\<lambda>_. on_data P)"
    by (simp add: hoare_def)
  show "hoare (\<lambda>w. on_data P w \<and> w_new_otps w = n) (py_for n insert_otp) (\<lambda>_. spent_pending) (\<lambda>_. on_data P)" for n
    by (rule hoare_conseq [OF insert_otps_spent]) (auto intro: idle_data)
  show "hoare spent_pending (py_read w_new_keys) (\<lambda>_. spent_pending) (\<lambda>_. on_data P)"
    by (simp add: hoare_def)
  show "hoare spent_pending (py_for ks insert_key) (\<lambda>_. spent_pending) (\<lambda>_. on_data P)" for ks
    by (rule hoare_conseq [OF keys_spent_pending]) (auto intro: idle_data)
  show "hoare spent_pending (py_write settle) (\<lambda>_. on_data (idle P)) (\<lambda>_. on_data P)"
    by (simp add: hoare_def settle_def spent_pending_def on_data_def idle_def)
qed

lemma hoare_commit: "hoare (on_data P) commit (\<lambda>_. on_data (idle P)) (\<lambda>_. on_data P)"
  unfolding commit_def
  by (rule hoare_bind [OF hoare_flush]) (auto simp: hoare_def on_data_def idle_def intro: commit_law)

text \<open>A unit of work started between requests, whose body keeps the predicate, ends between requests.\<close>

definition body_ok :: "'a app \<Rightarrow> bool" where
  "body_ok m \<longleftrightarrow> hoare (on_data (idle P)) m (\<lambda>_. on_data P) (\<lambda>_. on_data P)"

lemma with_uow_idle:
  assumes "body_ok body"
  shows "keeps (on_data (idle P)) (with_uow body)"
proof (rule keepsI)
  fix w assume w: "on_data (idle P) w"
  obtain r w1 where bw: "body w = (r, w1)" by (cases "body w")
  have d: "on_data P w1"
    using assms w bw by (cases r) (auto simp: body_ok_def dest: hoare_Ret hoare_Raise)
  obtain q w2 where cw: "commit w1 = (q, w2)" by (cases "commit w1")
  have d2: "on_data P w2"
    using hoare_commit d cw by (cases q) (auto dest: hoare_Ret hoare_Raise idle_data)
  show "on_data (idle P) (snd (with_uow body w))"
    using bw cw rollback_idle [OF d] rollback_idle [OF d2] idle_data rollback_idle
    by (cases r; cases q) (simp_all add: with_uow_Raise with_uow_Ret with_uow_fail)
qed

text \<open>How bodies compose: what keeps the idle state comes first, then one step that may leave a code pending.\<close>

lemma hoare_idle:
  "keeps (on_data (idle P)) m \<Longrightarrow> hoare (on_data (idle P)) m (\<lambda>_. on_data (idle P)) (\<lambda>_. on_data P)"
  by (drule hoare_keeps, erule hoare_conseq) (auto intro: idle_data)

lemma body_keeps_idle: "keeps (on_data (idle P)) m \<Longrightarrow> body_ok m"
  unfolding body_ok_def by (drule hoare_idle, erule hoare_conseq) (auto intro: idle_data)

lemma body_bind: "keeps (on_data (idle P)) m \<Longrightarrow> (\<And>a. body_ok (f a)) \<Longrightarrow> body_ok (py_bind m f)"
  unfolding body_ok_def by (rule hoare_bind [OF hoare_idle])

lemma body_bind_last: "body_ok m \<Longrightarrow> (\<And>a. keeps (on_data P) (f a)) \<Longrightarrow> body_ok (py_bind m f)"
  unfolding body_ok_def by (erule hoare_bind) (rule hoare_keeps)

lemma body_flush_bind: "(\<And>a. body_ok (f a)) \<Longrightarrow> body_ok (py_bind flush f)"
  unfolding body_ok_def
  by (rule hoare_bind [where R = "\<lambda>_. on_data (idle P)"], rule hoare_conseq [OF hoare_flush])
    (auto intro: idle_data)

lemma body_option: "body_ok m \<Longrightarrow> (\<And>x. body_ok (f x)) \<Longrightarrow> body_ok (case y of None \<Rightarrow> m | Some x \<Rightarrow> f x)"
  by (cases y) simp_all

lemma body_if: "body_ok m \<Longrightarrow> body_ok m' \<Longrightarrow> body_ok (if b then m else m')"
  by simp

lemma body_ret: "body_ok (py_ret a)" "body_ok (py_raise e)"
  by (intro body_keeps_idle keeps_intros)+

subsection \<open>Every handler keeps the invariant\<close>

lemma retire_all:
  "\<forall>r \<in> set (invalidate_otps u ct kind now rows). owned_by u ct kind r \<longrightarrow> o_used_at r \<noteq> None"
proof
  fix r assume "r \<in> set (invalidate_otps u ct kind now rows)"
  then obtain r0 where r: "r = (if owned_by u ct kind r0 \<and> o_used_at r0 = None
      then r0\<lparr>o_used_at := Some now\<rparr> else r0)"
    unfolding invalidate_otps_def set_map by (elim imageE)
  show "owned_by u ct kind r \<longrightarrow> o_used_at r \<noteq> None"
    unfolding r by (cases "o_used_at r0") auto
qed

text \<open>After retiring an account's codes the working copy holds no usable code of that kind.\<close>

definition retired :: "uuid \<Rightarrow> otp_kind \<Rightarrow> world \<Rightarrow> bool" where
  "retired u kind w \<longleftrightarrow> on_data (idle P) w
     \<and> (\<forall>r \<in> set (db_otps (w_work w)). owned_by u CT_USER kind r \<longrightarrow> o_used_at r \<noteq> None)"

lemma retire_retired:
  "hoare (on_data (idle P)) (invalidate_pending u CT_USER kind now) (\<lambda>_. retired u kind) (\<lambda>_. on_data P)"
proof (rule hoareI)
  fix w assume w: "on_data (idle P) w"
  then have "P (w_committed w) (w_work w) []" by (auto simp: on_data_def idle_def)
  then show "case invalidate_pending u CT_USER kind now w of
      (Ret a, w') \<Rightarrow> retired u kind w' | (Raise e, w') \<Rightarrow> on_data P w'"
    using retire_all [of u CT_USER kind now] rollback_idle [OF idle_data [OF w]] w
    by (auto simp: invalidate_pending_def sql_write_def retired_def on_data_def idle_def
        intro: retire_law idle_data)
qed

lemma retired_generator: "hoare (retired u kind) otp_generator (\<lambda>_. retired u kind) (\<lambda>_. on_data P)"
  by (auto simp: hoare_def otp_generator_def draw_def py_bind_app retired_def)

lemma create_retired:
  assumes "oc_content_id q = u" "oc_content_type q = CT_USER" "oc_kind q = kind" "\<not> oc_verified q"
  shows "hoare (retired u kind) (otp_create_row q) (\<lambda>_. on_data P) (\<lambda>_. on_data P)"
  using assms
  by (auto simp: hoare_def otp_create_row_def retired_def on_data_def idle_def owned_by_def
      intro!: issue_law [where u = u and ct = CT_USER and kind = kind])

lemma issue_ok: "body_ok (issue u kind target)"
  unfolding issue_def
proof (rule body_bind [OF keeps_on_data_reads(3)], rule body_if, rule body_ret(1),
    rule body_bind [OF keeps_on_data_clock])
  fix now
  show "body_ok (py_bind (invalidate_pending u CT_USER kind now) (\<lambda>_. py_bind otp_generator (\<lambda>code.
      py_bind (otp_create_row \<lparr>oc_otp = code, oc_content_id = u, oc_content_type = CT_USER,
        oc_kind = kind, oc_expires_at = now + otp_ttl_minutes kind * 60, oc_target_value = target,
        oc_verified = False\<rparr>) (\<lambda>_. py_ret (Ok code)))))"
    unfolding body_ok_def
    by (rule hoare_bind [OF retire_retired], rule hoare_bind [OF retired_generator],
        rule hoare_bind [OF create_retired]) (auto simp: hoare_def)
qed

lemma confirm_keeps: "keeps (on_data (idle P)) (confirm u otp kind)"
  unfolding confirm_def by (intro keeps_intros)

lemma register_user_ok: "body_ok (register_user L cmd)"
  unfolding register_user_def
  by (intro body_bind body_flush_bind body_bind_last [OF issue_ok] keeps_intros)

lemma issue_reset_code_ok: "body_ok (issue_reset_code a)"
  unfolding issue_reset_code_def
  by (intro body_bind_last [OF issue_ok] keeps_intros)

lemma register_keeps: "keeps (on_data (idle P)) (register_handler L cmd)"
  unfolding register_handler_def register_validator_def
  by (intro keeps_bind keeps_result with_uow_idle body_bind_last [OF register_user_ok]; intro keeps_intros)

lemma confirm_email_keeps: "keeps (on_data (idle P)) (confirm_email_handler email otp)"
  unfolding confirm_email_handler_def
  by (intro with_uow_idle body_keeps_idle keeps_intros confirm_keeps)

lemma resend_keeps: "keeps (on_data (idle P)) (resend_handler email)"
  unfolding resend_handler_def
  by (intro with_uow_idle body_bind body_option body_if body_ret body_bind_last [OF issue_ok]; intro keeps_intros)

lemma forgot_step1_keeps: "keeps (on_data (idle P)) (forgot_step1 email)"
  unfolding forgot_step1_def
  by (intro with_uow_idle body_bind body_option body_ret body_bind_last [OF issue_reset_code_ok]; intro keeps_intros)

lemma forgot_step2_keeps: "keeps (on_data (idle P)) (forgot_step2 base email otp)"
  unfolding forgot_step2_def by (intro with_uow_idle body_keeps_idle keeps_intros)

lemma forgot_step3_keeps: "keeps (on_data (idle P)) (forgot_step3 L email otp pwd)"
  unfolding forgot_step3_def by (intro with_uow_idle body_keeps_idle keeps_intros)

lemma login_keeps:
  "keeps (on_data (idle P)) (login_handler L cfg email pwd)"
  "keeps (on_data (idle P)) (refresh_handler L cfg token)"
  unfolding login_handler_def refresh_handler_def login_def refresh_def decode_payload_def
    for_user_def payload_from_user_def get_payload_def Let_def
  by (intro with_uow_idle body_keeps_idle keeps_intros)+

lemma toggle_keeps: "keeps (on_data (idle P)) (toggle_status_handler i)"
  unfolding toggle_status_handler_def by (intro with_uow_idle body_keeps_idle keeps_intros)

lemma own_aggregate_idle: "keeps (on_data R) (own_aggregate uid)"
  unfolding own_aggregate_def by (intro keeps_intros)

lemma update_me_keeps: "keeps (on_data (idle P)) (update_me_handler m)"
  unfolding update_me_handler_def
  by (intro keeps_bind with_uow_idle body_keeps_idle own_aggregate_idle keeps_option; intro keeps_intros)

lemma change_password_keeps: "keeps (on_data (idle P)) (change_password_handler L old new)"
  unfolding change_password_handler_def
  by (intro keeps_bind with_uow_idle body_keeps_idle own_aggregate_idle keeps_option keeps_if; intro keeps_intros)

end

section \<open>Requests\<close>

text \<open>
  One step of the running application: a request served by one of the handlers, or a new request
  context (another caller, a later database clock).
\<close>

inductive request :: "libs \<Rightarrow> jwt_config \<Rightarrow> string \<Rightarrow> world \<Rightarrow> world \<Rightarrow> bool"
  for L cfg base where
  req_register: "request L cfg base w (snd (register_handler L cmd w))"
| req_confirm: "request L cfg base w (snd (confirm_email_handler email otp w))"
| req_resend: "request L cfg base w (snd (resend_handler email w))"
| req_login: "request L cfg base w (snd (login_handler L cfg email pwd w))"
| req_refresh: "request L cfg base w (snd (refresh_handler L cfg token w))"
| req_forgot1: "request L cfg base w (snd (forgot_step1 email w))"
| req_forgot2: "request L cfg base w (snd (forgot_step2 base email otp w))"
| req_forgot3: "request L cfg base w (snd (forgot_step3 L email otp pwd w))"
| req_toggle: "request L cfg base w (snd (toggle_status_handler i w))"
| req_update: "request L cfg base w (snd (update_me_handler params w))"
| req_change: "request L cfg base w (snd (change_password_handler L pwd pwd' w))"
| req_context: "request L cfg base w (w\<lparr>w_user := u, w_dbnow := t\<rparr>)"

inductive_cases requestE: "request L cfg base w w'"

definition reachable :: "libs \<Rightarrow> jwt_config \<Rightarrow> string \<Rightarrow> world \<Rightarrow> world \<Rightarrow> bool" where
  "reachable L cfg base = (request L cfg base)\<^sup>*\<^sup>*"

context otp_invariant
begin

lemma request_keeps:
  assumes "request L cfg base w w'" "on_data (idle P) w"
  shows "on_data (idle P) w'"
  using assms
  by (cases rule: request.cases)
    (auto intro: keepsD [OF register_keeps] keepsD [OF confirm_email_keeps] keepsD [OF resend_keeps]
      keepsD [OF login_keeps(1)] keepsD [OF login_keeps(2)] keepsD [OF forgot_step1_keeps]
      keepsD [OF forgot_step2_keeps] keepsD [OF forgot_step3_keeps] keepsD [OF toggle_keeps]
      keepsD [OF update_me_keeps] keepsD [OF change_password_keeps])

lemma reachable_keeps: "reachable L cfg base w w' \<Longrightarrow> on_data (idle P) w \<Longrightarrow> on_data (idle P) w'"
  unfolding reachable_def by (induction rule: rtranclp_induct) (auto intro: request_keeps)

end

section \<open>The invariants of the code\<close>

subsection \<open>The schema's constraints\<close>

definition sound :: "db \<Rightarrow> db \<Rightarrow> otp_row list \<Rightarrow> bool" where
  "sound c k n \<longleftrightarrow> db_ok c \<and> db_ok k"

interpretation sound: otp_invariant sound
  by unfold_locales (auto simp: sound_def)

subsection \<open>A spent code stays spent\<close>

definition spent :: "uuid \<Rightarrow> db \<Rightarrow> bool" where
  "spent i d \<longleftrightarrow> (\<exists>r \<in> set (db_otps d). o_id r = i \<and> o_used_at r \<noteq> None)"

definition stays_spent :: "uuid \<Rightarrow> db \<Rightarrow> db \<Rightarrow> otp_row list \<Rightarrow> bool" where
  "stays_spent i c k n \<longleftrightarrow> spent i c \<and> spent i k"

lemma spent_map:
  assumes "spent i k" and "\<And>r. o_used_at r \<noteq> None \<Longrightarrow> f r = r"
  shows "spent i (k\<lparr>db_otps := map f (db_otps k)\<rparr>)"
proof -
  obtain r where r: "r \<in> set (db_otps k)" "o_id r = i" "o_used_at r \<noteq> None"
    using assms(1) by (auto simp: spent_def)
  have "f r \<in> set (map f (db_otps k))" using r(1) by simp
  then show ?thesis using r assms(2) [OF r(3)] by (force simp: spent_def)
qed

interpretation spent: otp_invariant "stays_spent i"
proof unfold_locales
  fix c k :: db and n rs :: "otp_row list" and now j u ct kind
  assume P: "stays_spent i c k n"
  show "stays_spent i c (k\<lparr>db_otps := consume_otps j now (db_otps k)\<rparr>) n"
    using P unfolding stays_spent_def consume_otps_def
    by (auto intro!: spent_map simp: claimable_def)
  show "stays_spent i c (k\<lparr>db_otps := invalidate_otps u ct kind now (db_otps k)\<rparr>) n"
    using P unfolding stays_spent_def invalidate_otps_def by (auto intro!: spent_map)
  show "stays_spent i c (k\<lparr>db_otps := db_otps k @ rs\<rparr>) []"
    using P by (auto simp: stays_spent_def spent_def)
qed (auto simp: stays_spent_def spent_def)

subsection \<open>A verified code is a spent one\<close>

definition verified_spent :: "otp_row \<Rightarrow> bool" where
  "verified_spent r \<longleftrightarrow> (o_verified r \<longrightarrow> o_used_at r \<noteq> None)"

definition all_verified_spent :: "db \<Rightarrow> db \<Rightarrow> otp_row list \<Rightarrow> bool" where
  "all_verified_spent c k n \<longleftrightarrow> list_all verified_spent (db_otps c)
     \<and> list_all verified_spent (db_otps k) \<and> list_all verified_spent n"

lemma stamped_same:
  assumes "stamped r r'"
  shows "o_verified r' = o_verified r" "o_used_at r' = o_used_at r" "owned_by u ct kind r' = owned_by u ct kind r"
    "o_expires_at r' = o_expires_at r" "o_otp r' = o_otp r"
  using assms unfolding stamped_def owned_by_def by (cases r; cases r'; simp)+

lemma stamped_verified: "list_all2 stamped n rs \<Longrightarrow> list_all verified_spent n \<Longrightarrow> list_all verified_spent rs"
  by (induction rule: list_all2_induct) (simp_all add: verified_spent_def stamped_same)

lemma verified_updates:
  "list_all verified_spent rows \<Longrightarrow> list_all verified_spent (consume_otps i now rows)"
  "list_all verified_spent rows \<Longrightarrow> list_all verified_spent (invalidate_otps u ct kind now rows)"
  by (auto simp: consume_otps_def invalidate_otps_def list_all_iff verified_spent_def)

interpretation verified: otp_invariant all_verified_spent
  by unfold_locales
    (simp_all add: all_verified_spent_def stamped_verified verified_updates, simp add: verified_spent_def)

subsection \<open>At most one usable code\<close>

text \<open>Two codes are rivals when they are for the same account and purpose and both are unused.\<close>

definition rival :: "otp_row \<Rightarrow> otp_row \<Rightarrow> bool" where
  "rival a b \<longleftrightarrow> owned_by (o_content_id a) (o_content_type a) (o_kind a) b
     \<and> o_used_at a = None \<and> o_used_at b = None"

definition no_rivals :: "otp_row list \<Rightarrow> bool" where
  "no_rivals rows \<longleftrightarrow> sorted_wrt (\<lambda>a b. \<not> rival a b) rows"

definition one_usable :: "db \<Rightarrow> db \<Rightarrow> otp_row list \<Rightarrow> bool" where
  "one_usable c k n \<longleftrightarrow> no_rivals (db_otps c) \<and> no_rivals (db_otps k @ n)"

lemma no_rivals_map:
  assumes "no_rivals (rows @ n)"
    and "\<And>a b. rival (f a) (f b) \<Longrightarrow> rival a b" "\<And>a b. rival (f a) b \<Longrightarrow> rival a b"
  shows "no_rivals (map f rows @ n)"
  using assms(1) by (induction rows) (auto simp: no_rivals_def dest: assms(2,3))

lemma no_rivals_consume:
  "no_rivals (rows @ n) \<Longrightarrow> no_rivals (consume_otps i now rows @ n)"
  unfolding consume_otps_def
  by (erule no_rivals_map) (auto simp: rival_def owned_by_def split: if_splits)

lemma no_rivals_invalidate:
  "no_rivals (rows @ n) \<Longrightarrow> no_rivals (invalidate_otps u ct kind now rows @ n)"
  unfolding invalidate_otps_def
  by (erule no_rivals_map) (auto simp: rival_def owned_by_def split: if_splits)

lemma rival_stamped: "stamped a a' \<Longrightarrow> stamped b b' \<Longrightarrow> rival a' b' = rival a b"
  unfolding stamped_def rival_def owned_by_def by (cases a; cases a'; cases b; cases b'; simp)

lemma stamped_refl: "stamped a a"
  by (simp add: stamped_def)

lemma no_rivals_stamped:
  assumes "list_all2 stamped xs ys" "no_rivals xs"
  shows "no_rivals ys"
  unfolding no_rivals_def sorted_wrt_iff_nth_less
proof (intro allI impI)
  fix i j assume ij: "i < j" "j < length ys"
  then have "stamped (xs ! i) (ys ! i)" "stamped (xs ! j) (ys ! j)" "j < length xs"
    using assms(1) by (auto simp: list_all2_conv_all_nth)
  then show "\<not> rival (ys ! i) (ys ! j)"
    using assms(2) ij rival_stamped by (simp add: no_rivals_def sorted_wrt_iff_nth_less)
qed

lemma no_rivals_flush:
  "list_all2 stamped n rs \<Longrightarrow> no_rivals (rows @ n) \<Longrightarrow> no_rivals (rows @ rs)"
  by (rule no_rivals_stamped [of "rows @ n"])
    (auto intro!: list_all2_appendI simp: list_all2_same stamped_refl)

lemma rival_owned:
  "rival r q \<Longrightarrow> owned_by u ct kind q \<Longrightarrow> owned_by u ct kind r \<and> o_used_at r = None"
  by (simp add: rival_def owned_by_def)

lemma no_rivals_issue:
  assumes "no_rivals rows" "\<forall>r \<in> set rows. owned_by u ct kind r \<longrightarrow> o_used_at r \<noteq> None"
    "owned_by u ct kind q"
  shows "no_rivals (rows @ [q])"
  using assms rival_owned [OF _ assms(3)] unfolding no_rivals_def sorted_wrt_append by fastforce

lemma no_rivals_prefix: "no_rivals (rows @ n) \<Longrightarrow> no_rivals rows"
  by (simp add: no_rivals_def sorted_wrt_append)

interpretation one_usable: otp_invariant one_usable
proof unfold_locales
  fix c k :: db and n rs :: "otp_row list" and q :: otp_row and i now u ct kind
  assume P: "one_usable c k n"
  then have n: "no_rivals (db_otps c)" "no_rivals (db_otps k @ n)"
    by (simp_all add: one_usable_def)
  show "one_usable c c []" using n(1) by (simp add: one_usable_def)
  show "one_usable c (k\<lparr>db_otps := consume_otps i now (db_otps k)\<rparr>) n"
    using n no_rivals_consume by (simp add: one_usable_def)
  show "one_usable c (k\<lparr>db_otps := invalidate_otps u ct kind now (db_otps k)\<rparr>) n"
    using n no_rivals_invalidate by (simp add: one_usable_def)
  show "one_usable c (k\<lparr>db_otps := db_otps k @ rs\<rparr>) []" if "list_all2 stamped n rs"
    using n no_rivals_flush [OF that] by (simp add: one_usable_def)
next
  fix c k :: db and q :: otp_row and u ct kind
  assume "one_usable c k []" "\<forall>r \<in> set (db_otps k). owned_by u ct kind r \<longrightarrow> o_used_at r \<noteq> None"
    "owned_by u ct kind q"
  then show "one_usable c k [q]"
    using no_rivals_issue unfolding one_usable_def by simp
qed (simp_all add: one_usable_def)

section \<open>Properties of every reachable state\<close>

lemma idle_start: "session_clear w \<Longrightarrow> P (w_committed w) (w_committed w) [] \<Longrightarrow> on_data (idle P) w"
  by (simp add: session_clear_def on_data_def idle_def)

lemma reachable_ok:
  "reachable L cfg base w0 w \<Longrightarrow> session_clear w0 \<Longrightarrow> db_ok (w_committed w0) \<Longrightarrow>
   db_ok (w_committed w) \<and> db_ok (w_work w)"
  using sound.reachable_keeps [of L cfg base w0 w] idle_start [of w0 sound]
  by (auto simp: on_data_def idle_def sound_def)

lemma spent_not_claimable:
  assumes "db_ok d" "spent i d"
  shows "filter (claimable i now) (db_otps d) = []"
proof -
  obtain r where r: "r \<in> set (db_otps d)" "o_id r = i" "o_used_at r \<noteq> None"
    using assms(2) by (auto simp: spent_def)
  have "inj_on o_id (set (db_otps d))"
    using assms(1) by (simp add: db_ok_def distinct_map)
  then have "x \<in> set (db_otps d) \<Longrightarrow> o_id x = i \<Longrightarrow> x = r" for x
    using r(1,2) by (auto dest: inj_onD)
  then show ?thesis
    using r(3) by (auto simp: filter_empty_conv claimable_def)
qed

lemma consume_spent:
  "db_ok (w_work w) \<Longrightarrow> spent i (w_work w) \<Longrightarrow> consume_by_id i now w = (Ret False, w)"
  by (simp add: consume_by_id_def select_otps_def sql_write_def py_bind_app spent_not_claimable
      consume_otps_none)

text \<open>
  Claim C1. A one-time code is used at most once: once a code has been spent, no later request in
  any run of the application can claim it again, whatever requests were served in between (the
  claim answers false and changes nothing), and the code stays marked as spent.
\<close>

theorem spent_code_is_dead:
  assumes "reachable L cfg base w0 w" "session_clear w0" "db_ok (w_committed w0)"
    and "spent i (w_committed w0)"
  shows "consume_by_id i now w = (Ret False, w) \<and> spent i (w_committed w)"
  using spent.reachable_keeps [OF assms(1), of i] idle_start [OF assms(2), of "stays_spent i"] assms(4)
    reachable_ok [OF assms(1-3)]
  by (auto simp: on_data_def idle_def stays_spent_def consume_spent)

theorem spent_code_is_dead_witness:
  "consume_by_id 6 0 (snd (toggle_status_handler 1 sample_world))
     = (Ret False, snd (toggle_status_handler 1 sample_world))"
proof -
  have "spent 6 (w_committed sample_world)"
    by (simp add: spent_def sample_defs)
  then show ?thesis
    using spent_code_is_dead [of sample_libs "default_jwt_config []" "[]" sample_world
        "snd (toggle_status_handler 1 sample_world)" 6 0] req_toggle
    by (simp add: reachable_def r_into_rtranclp)
qed

lemma no_rivals_unique:
  assumes "no_rivals rows" "a \<in> set rows" "b \<in> set rows" "rival a b"
  shows "a = b"
proof -
  obtain i j where ij: "i < length rows" "j < length rows" "a = rows ! i" "b = rows ! j"
    using assms(2,3) by (metis in_set_conv_nth)
  have "rival b a" using assms(4) by (auto simp: rival_def owned_by_def)
  then have "\<not> i < j" "\<not> j < i"
    using assms(1,4) ij by (auto simp: no_rivals_def sorted_wrt_iff_nth_less)
  then show ?thesis using ij by simp
qed

text \<open>
  Claim C2. At most one code of a purpose is usable per account: starting from tables in which
  this holds (no codes at all, say), after any requests two unused codes of the same account and
  purpose are the same code. A reissued code has retired its predecessor.
\<close>

theorem at_most_one_usable_code:
  assumes "reachable L cfg base w0 w" "session_clear w0" "no_rivals (db_otps (w_committed w0))"
    and "a \<in> set (db_otps (w_committed w))" "b \<in> set (db_otps (w_committed w))"
    and "o_content_id a = o_content_id b" "o_content_type a = o_content_type b" "o_kind a = o_kind b"
    and "o_used_at a = None" "o_used_at b = None"
  shows "a = b"
proof -
  have "no_rivals (db_otps (w_committed w))"
    using one_usable.reachable_keeps [OF assms(1)] idle_start [OF assms(2), of one_usable] assms(2,3)
    by (auto simp: on_data_def idle_def one_usable_def session_clear_def)
  then show ?thesis
    using assms(4-) by (intro no_rivals_unique) (auto simp: rival_def owned_by_def)
qed

theorem at_most_one_usable_code_witness:
  "card {r. r \<in> set (db_otps (w_committed (snd (resend_handler ''bob@x.io'' sample_world))))
     \<and> owned_by 2 CT_USER EMAIL_CONFIRMATION r \<and> o_used_at r = None} \<le> 1"
proof -
  let ?w = "snd (resend_handler ''bob@x.io'' sample_world)"
  let ?S = "{r. r \<in> set (db_otps (w_committed ?w)) \<and> owned_by 2 CT_USER EMAIL_CONFIRMATION r \<and> o_used_at r = None}"
  have "reachable sample_libs (default_jwt_config []) [] sample_world ?w"
    unfolding reachable_def by (intro r_into_rtranclp req_resend)
  moreover have "no_rivals (db_otps (w_committed sample_world))"
    by (simp add: no_rivals_def rival_def owned_by_def sample_db_def old_code_def bob_code_def)
  ultimately have "a = b" if "a \<in> ?S" "b \<in> ?S" for a b
    using that at_most_one_usable_code [of sample_libs "default_jwt_config []" "[]" sample_world ?w a b]
    by (simp add: owned_by_def)
  moreover have "finite ?S" by simp
  ultimately show ?thesis by (simp add: card_le_Suc0_iff_eq)
qed

text \<open>
  Claim C14. In every reachable state the constraints of the schema hold (ids and email addresses
  are unique, references point at existing rows) and a code marked verified is a spent one.
\<close>

theorem reachable_constraints:
  assumes "reachable L cfg base w0 w" "session_clear w0" "db_ok (w_committed w0)"
    and "list_all verified_spent (db_otps (w_committed w0))"
  shows "db_ok (w_committed w) \<and> list_all verified_spent (db_otps (w_committed w))"
  using reachable_ok [OF assms(1-3)] verified.reachable_keeps [OF assms(1)]
    idle_start [OF assms(2), of all_verified_spent] assms(4)
  by (simp add: on_data_def idle_def all_verified_spent_def)

theorem reachable_constraints_witness:
  "db_ok (w_committed (snd (resend_handler ''bob@x.io'' sample_world)))"
proof -
  have "list_all verified_spent (db_otps (w_committed sample_world))"
    by (simp add: verified_spent_def sample_defs)
  then show ?thesis
    using reachable_constraints [of sample_libs "default_jwt_config []" "[]" sample_world
        "snd (resend_handler ''bob@x.io'' sample_world)"] req_resend
    by (simp add: reachable_def r_into_rtranclp)
qed

end
