(* ===== verification/Flows.thy ===== *)
theory Flows
  imports Invariants
begin

text \<open>
  The functional behaviour of the identity flows, end to end: which answer each request gets and
  what it leaves in the committed tables, on every branch.
\<close>

section \<open>Lookups under the schema's constraints\<close>

lemma filter_unique:
  "distinct (map g rows) \<Longrightarrow> filter (\<lambda>r. g r = x) rows = (case find (\<lambda>r. g r = x) rows of None \<Rightarrow> [] | Some r \<Rightarrow> [r])"
proof (induction rows)
  case (Cons r rows)
  show ?case
  proof (cases "g r = x")
    case True
    then have "filter (\<lambda>r. g r = x) rows = []"
      using Cons.prems unfolding filter_empty_conv
      by (metis distinct.simps(2) image_eqI list.set_map list.simps(9))
    then show ?thesis using True by simp
  next
    case False
    then show ?thesis using Cons by simp
  qed
qed simp

lemma users_by_email:
  "db_ok d \<Longrightarrow> filter (\<lambda>r. u_email r = email) (db_users d)
     = (case find (\<lambda>r. u_email r = email) (db_users d) of None \<Rightarrow> [] | Some u \<Rightarrow> [u])"
  by (rule filter_unique) (simp add: db_ok_def)

lemma users_by_id:
  "db_ok d \<Longrightarrow> filter (\<lambda>r. u_id r = i) (db_users d)
     = (case find (\<lambda>r. u_id r = i) (db_users d) of None \<Rightarrow> [] | Some u \<Rightarrow> [u])"
  by (rule filter_unique) (simp add: db_ok_def)

definition loaded :: "user_row \<Rightarrow> world \<Rightarrow> world" where
  "loaded u w = w\<lparr>w_objs := [\<lparr>uo_new = False, uo_orig = u, uo_cur = u\<rparr>]\<rparr>"

lemma load_user_clear:
  assumes "session_clear w" and "filter P (db_users (w_committed w)) = (case x of None \<Rightarrow> [] | Some u \<Rightarrow> [u])"
  shows "load_user P w = (Ret x, case x of None \<Rightarrow> w | Some u \<Rightarrow> loaded u w)"
  using assms
  by (cases x) (simp_all add: load_user_def select_users_def session_clear_def py_bind_app
      remember_def obj_row_def loaded_def)

lemma load_by_email:
  assumes "session_clear w" "db_ok (w_committed w)"
  shows "get_aggregate_for_update_by_email email w =
    (case find (\<lambda>r. u_email r = email) (db_users (w_committed w)) of
       None \<Rightarrow> (Ret None, w)
     | Some u \<Rightarrow> (Ret (Some \<lparr>ag_row = u, ag_events = []\<rparr>), loaded u w))"
  using load_user_clear [OF assms(1) users_by_email [OF assms(2)], of email]
  by (simp add: get_aggregate_for_update_by_email_def load_aggregate_def py_bind_app split: option.splits)

section \<open>Which changes the schema accepts\<close>

lemma db_ok_otps:
  "db_ok d \<Longrightarrow> distinct (map o_id rows) \<Longrightarrow> db_ok (d\<lparr>db_otps := rows\<rparr>)"
  by (simp add: db_ok_def cong: option.case_cong)

lemma db_ok_consume [simp]:
  "db_ok d \<Longrightarrow> db_ok (d\<lparr>db_otps := consume_otps i now (db_otps d)\<rparr>)"
proof (rule db_ok_otps)
  have "map o_id (consume_otps i now rows) = map o_id rows" for rows
    by (induction rows) (simp_all add: consume_otps_def)
  then show "db_ok d \<Longrightarrow> distinct (map o_id (consume_otps i now (db_otps d)))"
    by (simp add: db_ok_def)
qed simp

lemma db_ok_invalidate [simp]:
  "db_ok d \<Longrightarrow> db_ok (d\<lparr>db_otps := invalidate_otps u ct kind now (db_otps d)\<rparr>)"
proof (rule db_ok_otps)
  have "map o_id (invalidate_otps u ct kind now rows) = map o_id rows" for rows
    by (induction rows) (simp_all add: invalidate_otps_def)
  then show "db_ok d \<Longrightarrow> distinct (map o_id (invalidate_otps u ct kind now (db_otps d)))"
    by (simp add: db_ok_def)
qed simp

text \<open>A change of user rows that touches neither ids nor addresses nor avatars.\<close>

lemma db_ok_map_users:
  assumes "db_ok d"
    and "\<And>r. r \<in> set (db_users d) \<Longrightarrow> u_id (f r) = u_id r \<and> u_email (f r) = u_email r \<and> u_avatar_id (f r) = u_avatar_id r"
  shows "db_ok (d\<lparr>db_users := map f (db_users d)\<rparr>)"
proof -
  have "map u_id (map f (db_users d)) = map u_id (db_users d)"
    "map u_email (map f (db_users d)) = map u_email (db_users d)"
    using assms(2) by simp_all
  then show ?thesis
    using assms(1) unfolding db_ok_def
    by (auto simp: list_all_iff assms(2) image_image simp flip: map_map split: option.splits)
qed

section \<open>Committing one changed user\<close>

definition save_user :: "user_row \<Rightarrow> user_row \<Rightarrow> int \<Rightarrow> db \<Rightarrow> db" where
  "save_user a b now d = (if b = a then d else d\<lparr>db_users := map (\<lambda>r. if u_id r = u_id a
     then merge_user a (b\<lparr>u_updated_at := now\<rparr>) r else r) (db_users d)\<rparr>)"

lemma commit_user:
  assumes "w_objs w = [\<lparr>uo_new = False, uo_orig = a, uo_cur = b\<rparr>]"
    and "w_new_otps w = []" "w_new_blobs w = []" "w_new_keys w = []"
    and "db_ok (save_user a b (w_clock w (w_tick w)) (w_work w))"
  shows "\<exists>w'. commit w = (Ret (), w') \<and> w_committed w' = save_user a b (w_clock w (w_tick w)) (w_work w)"
  using assms
  by (cases "b = a")
    (simp_all add: commit_def flush_def flush_user_def update_user_obj_def get_now_def sql_write_def
      settle_def save_user_def py_bind_app)

lemma merge_same_columns:
  "u_id (merge_user a b r) = u_id r"
  "u_email b = u_email a \<Longrightarrow> u_email (merge_user a b r) = u_email r"
  "u_avatar_id b = u_avatar_id a \<Longrightarrow> u_avatar_id (merge_user a b r) = u_avatar_id r"
  by (simp_all add: merge_user_def pick_def)

lemma save_user_ok:
  "db_ok d \<Longrightarrow> u_email b = u_email a \<Longrightarrow> u_avatar_id b = u_avatar_id a \<Longrightarrow> db_ok (save_user a b now d)"
  unfolding save_user_def by (auto intro!: db_ok_map_users simp: merge_same_columns)

section \<open>Confirming an email address\<close>

text \<open>
  The verdict on a code, as a function of the tables and of the two readings of the clock, and what
  a confirmed address changes.
\<close>

definition pick_code :: "db \<Rightarrow> uuid \<Rightarrow> string \<Rightarrow> otp_kind \<Rightarrow> otp_row option" where
  "pick_code d i otp kind =
     (case newest_first (filter (otp_matches otp i kind CT_USER) (db_otps d)) of
        [] \<Rightarrow> None | r # rs \<Rightarrow> Some r)"

definition confirm_verdict :: "db \<Rightarrow> string \<Rightarrow> string \<Rightarrow> int \<Rightarrow> int \<Rightarrow> unit result_detailed" where
  "confirm_verdict d email otp t1 t2 =
     (case find (\<lambda>r. u_email r = email) (db_users d) of
        None \<Rightarrow> Err [invalid_code]
      | Some u \<Rightarrow> (case pick_code d (u_id u) otp EMAIL_CONFIRMATION of
            None \<Rightarrow> Err [invalid_otp]
          | Some r \<Rightarrow> if o_used_at r \<noteq> None \<or> o_verified r then Err [already_used]
              else if o_expires_at r < t1 then Err [expired_otp]
              else if o_expires_at r < t2 then Err [already_used]
              else Ok ()))"

definition confirmed_row :: "user_row \<Rightarrow> user_row" where
  "confirmed_row u = u\<lparr>u_email_confirmed := True, u_is_active := True\<rparr>"

lemma pick_code_props:
  assumes "pick_code d i otp kind = Some r"
  shows "r \<in> set (db_otps d)" "otp_matches otp i kind CT_USER r"
proof -
  have "r \<in> set (newest_first (filter (otp_matches otp i kind CT_USER) (db_otps d)))"
    using assms by (auto simp: pick_code_def split: list.splits)
  then show "r \<in> set (db_otps d)" "otp_matches otp i kind CT_USER r"
    by (auto simp: newest_first_def)
qed

text \<open>The code the lookup returns is the newest of those that match.\<close>

lemma pick_code_newest:
  assumes "pick_code d i otp kind = Some r" "q \<in> set (db_otps d)" "otp_matches otp i kind CT_USER q"
  shows "o_created_at q \<le> o_created_at r"
proof -
  let ?l = "newest_first (filter (otp_matches otp i kind CT_USER) (db_otps d))"
  obtain rs where l: "?l = r # rs"
    using assms(1) by (auto simp: pick_code_def split: list.splits)
  have "sorted (map (\<lambda>r. - o_created_at r) ?l)" by (simp add: newest_first_def)
  moreover have "q \<in> set ?l" using assms(2,3) by (simp add: newest_first_def)
  ultimately show ?thesis using l by auto
qed

definition detailed_of :: "string \<Rightarrow> otp_row \<Rightarrow> otp_detailed" where
  "detailed_of otp r = \<lparr>od_id = o_id r, od_otp = otp, od_content_id = o_content_id r,
     od_expires_at = o_expires_at r, od_target_value = o_target_value r,
     od_verified = o_verified r, od_used_at = o_used_at r\<rparr>"

lemma find_content_spec:
  "find_active_for_content otp i kind CT_USER w
     = (Ret (map_option (detailed_of otp) (pick_code (w_work w) i otp kind)), w)"
proof (cases "newest_first (filter (otp_matches otp i kind CT_USER) (db_otps (w_work w)))")
  case Nil
  then show ?thesis
    by (simp add: find_active_for_content_def select_otps_def py_bind_app to_detailed_def pick_code_def)
next
  case (Cons r rs)
  then have p: "pick_code (w_work w) i otp kind = Some r" by (simp add: pick_code_def)
  then have "o_otp r = Some otp" using pick_code_props(2) by (auto simp: otp_matches_def)
  then show ?thesis
    using Cons p by (simp add: find_active_for_content_def select_otps_def py_bind_app to_detailed_def
        detailed_of_def)
qed

text \<open>A claim succeeds exactly on an unused, unexpired code.\<close>

lemma consume_spec:
  assumes "db_ok (w_work w)" "r \<in> set (db_otps (w_work w))"
  shows "consume_by_id (o_id r) now w =
     (Ret (claimable (o_id r) now r),
      w\<lparr>w_work := (w_work w)\<lparr>db_otps := consume_otps (o_id r) now (db_otps (w_work w))\<rparr>\<rparr>)"
proof -
  let ?rows = "filter (claimable (o_id r) now) (db_otps (w_work w))"
  have inj: "inj_on o_id (set (db_otps (w_work w)))"
    using assms(1) by (simp add: db_ok_def distinct_map)
  have le: "length ?rows \<le> 1"
    using assms(1) by (intro claimable_unique) (simp add: db_ok_def)
  have "length ?rows = 1 \<longleftrightarrow> claimable (o_id r) now r"
  proof
    assume "length ?rows = 1"
    then obtain q where "q \<in> set ?rows" by (metis length_greater_0_conv less_numeral_extra(1) list.set_sel(1))
    then show "claimable (o_id r) now r"
      using inj assms(2) by (auto simp: claimable_def dest: inj_onD)
  next
    assume "claimable (o_id r) now r"
    then have "r \<in> set ?rows" using assms(2) by simp
    then show "length ?rows = 1" using le by (cases ?rows) auto
  qed
  then show ?thesis
    using assms(1) by (simp add: consume_by_id_def select_otps_def sql_write_def py_bind_app)
qed

text \<open>The k-th reading of the clock from here, in epoch seconds.\<close>

definition epoch :: "world \<Rightarrow> nat \<Rightarrow> int" where
  "epoch w k = w_clock w (w_tick w + k) div 1000000"

definition claimed :: "otp_row \<Rightarrow> int \<Rightarrow> world \<Rightarrow> world" where
  "claimed r now w = w\<lparr>w_tick := Suc (Suc (w_tick w)),
     w_work := (w_work w)\<lparr>db_otps := consume_otps (o_id r) now (db_otps (w_work w))\<rparr>\<rparr>"

lemma confirm_run:
  assumes "db_ok (w_work w)"
  shows "confirm i otp EMAIL_CONFIRMATION w =
    (case pick_code (w_work w) i otp EMAIL_CONFIRMATION of
       None \<Rightarrow> (Ret (Err [invalid_otp]), w)
     | Some r \<Rightarrow>
         if o_used_at r \<noteq> None \<or> o_verified r then (Ret (Err [already_used]), w)
         else if o_expires_at r < epoch w 0
         then (Ret (Err [expired_otp]), w\<lparr>w_tick := Suc (w_tick w)\<rparr>)
         else if o_expires_at r < epoch w 1
         then (Ret (Err [already_used]), claimed r (epoch w 1) w)
         else (Ret (Ok i), (claimed r (epoch w 1) w)\<lparr>w_idn := Suc (w_idn w)\<rparr>))"
proof (cases "pick_code (w_work w) i otp EMAIL_CONFIRMATION")
  case None
  then show ?thesis by (simp add: confirm_def py_bind_app find_content_spec)
next
  case (Some r)
  let ?w2 = "w\<lparr>w_tick := Suc (Suc (w_tick w))\<rparr>"
  have r: "r \<in> set (db_otps (w_work w))" "o_content_id r = i"
    using pick_code_props [OF Some] by (simp_all add: otp_matches_def)
  have c: "consume_by_id (o_id r) now ?w2 = (Ret (claimable (o_id r) now r),
      ?w2\<lparr>w_work := (w_work w)\<lparr>db_otps := consume_otps (o_id r) now (db_otps (w_work w))\<rparr>\<rparr>)" for now
    using consume_spec [of ?w2 r now] assms r by simp
  show ?thesis
    using Some r(2)
    by (auto simp: confirm_def py_bind_app find_content_spec detailed_of_def utc_epoch_int_def
        get_now_def epoch_def c claimable_def claimed_def mk_event_def uuid7_def bus_publish_spec)
qed

lemma commit_after_rollback:
  "\<exists>w'. commit (rollback_world w) = (Ret (), w') \<and> w_committed w' = w_committed w"
  using commit_untouched [OF untouched_rollback [OF refl, of w]] by (auto simp: untouched_def)

lemma with_uow_rolled_back:
  "body w = (Ret a, rollback_world w1) \<Longrightarrow> w_committed w1 = d \<Longrightarrow>
     \<exists>w'. with_uow body w = (Ret a, w') \<and> w_committed w' = d"
  using commit_after_rollback [of w1] by (auto simp: with_uow_Ret)

lemma with_uow_unchanged:
  "body w = (Ret a, w1) \<Longrightarrow> untouched d w1 \<Longrightarrow> \<exists>w'. with_uow body w = (Ret a, w') \<and> w_committed w' = d"
  using commit_untouched [of d w1] by (auto simp: with_uow_Ret untouched_def)

text \<open>What a confirmation leaves in the tables: the code claimed, the user confirmed and active.\<close>

definition confirm_effect :: "db \<Rightarrow> user_row \<Rightarrow> otp_row \<Rightarrow> int \<Rightarrow> int \<Rightarrow> db" where
  "confirm_effect d u r claimed_at stamped_at =
     save_user u (confirmed_row u) stamped_at (d\<lparr>db_otps := consume_otps (o_id r) claimed_at (db_otps d)\<rparr>)"

lemma confirm_email_unknown:
  assumes "session_clear w" "db_ok (w_committed w)"
    and "find (\<lambda>r. u_email r = email) (db_users (w_committed w)) = None"
  shows "\<exists>w'. confirm_email_handler email otp w = (Ret (Err [invalid_code]), w')
    \<and> w_committed w' = w_committed w"
  unfolding confirm_email_handler_def
  by (rule with_uow_unchanged [OF _ session_clear_untouched [OF assms(1)]])
    (simp add: assms(3) py_bind_app load_by_email [OF assms(1,2)])

lemma confirm_email_refused:
  assumes "session_clear w" "db_ok (w_committed w)"
    and "find (\<lambda>r. u_email r = email) (db_users (w_committed w)) = Some u"
    and "confirm (u_id u) otp EMAIL_CONFIRMATION (loaded u w) = (Ret (Err x), w1)"
    and "w_committed w1 = w_committed w"
  shows "\<exists>w'. confirm_email_handler email otp w = (Ret (Err x), w') \<and> w_committed w' = w_committed w"
  unfolding confirm_email_handler_def
  by (rule with_uow_rolled_back [OF _ assms(5)])
    (simp add: assms(3,4) py_bind_app load_by_email [OF assms(1,2)] rollback_def)

lemma aggr_confirm_loaded:
  "w_objs w = [\<lparr>uo_new = False, uo_orig = u, uo_cur = u\<rparr>] \<Longrightarrow>
   aggr_confirm_email \<lparr>ag_row = u, ag_events = es\<rparr> w = (Ret \<lparr>ag_row = confirmed_row u, ag_events = es\<rparr>,
     w\<lparr>w_objs := [\<lparr>uo_new = False, uo_orig = u, uo_cur = confirmed_row u\<rparr>]\<rparr>)"
  by (simp add: aggr_confirm_email_def aggr_set_def obj_set_def py_bind_app confirmed_row_def)

lemma claimed_loaded_objs:
  "w_objs ((claimed r t (loaded u w))\<lparr>w_idn := n\<rparr>) = [\<lparr>uo_new = False, uo_orig = u, uo_cur = u\<rparr>]"
  by (simp add: claimed_def loaded_def)

lemma confirm_email_accepted:
  assumes "session_clear w" "db_ok (w_committed w)"
    and "find (\<lambda>r. u_email r = email) (db_users (w_committed w)) = Some u"
    and "confirm (u_id u) otp EMAIL_CONFIRMATION (loaded u w)
      = (Ret (Ok i), (claimed r t (loaded u w))\<lparr>w_idn := Suc (w_idn w)\<rparr>)"
  shows "\<exists>w'. confirm_email_handler email otp w = (Ret (Ok ()), w')
    \<and> w_committed w' = confirm_effect (w_committed w) u r t (w_clock w (w_tick w + 2))"
proof -
  let ?w1 = "(claimed r t (loaded u w))\<lparr>w_idn := Suc (w_idn w),
    w_objs := [\<lparr>uo_new = False, uo_orig = u, uo_cur = confirmed_row u\<rparr>]\<rparr>"
  obtain w2 where w2: "commit ?w1 = (Ret (), w2)"
      "w_committed w2 = confirm_effect (w_committed w) u r t (w_clock w (w_tick w + 2))"
    using commit_user [of ?w1 u "confirmed_row u"] assms(1,2)
    by (auto simp: claimed_def loaded_def session_clear_def confirm_effect_def save_user_ok confirmed_row_def)
  have "confirm_email_handler email otp w = (Ret (Ok ()), rollback_world w2)"
    unfolding confirm_email_handler_def
    by (rule with_uow_Ret [OF _ w2(1)])
      (simp add: assms(3,4) py_bind_app load_by_email [OF assms(1,2)]
        aggr_confirm_loaded [OF claimed_loaded_objs])
  then show ?thesis using w2(2) by simp
qed

text \<open>The tables a confirmation request leaves, by its verdict.\<close>

definition confirm_result :: "db \<Rightarrow> string \<Rightarrow> string \<Rightarrow> int \<Rightarrow> int \<Rightarrow> int \<Rightarrow> db" where
  "confirm_result d email otp t1 t2 stamp =
     (case find (\<lambda>r. u_email r = email) (db_users d) of
        None \<Rightarrow> d
      | Some u \<Rightarrow> (case pick_code d (u_id u) otp EMAIL_CONFIRMATION of
            None \<Rightarrow> d
          | Some r \<Rightarrow> if is_ok (confirm_verdict d email otp t1 t2)
              then confirm_effect d u r t2 stamp else d))"

text \<open>
  Claim C4. Confirming an address answers, on every branch, by the newest matching code of the
  account: an unknown address or no matching code is invalid, a used or verified code is already
  used, an expired one is expired (or already used when it expires between the check and the
  claim), and otherwise the request succeeds. Only then do the tables change: that code is claimed
  and the user is confirmed and active.
\<close>

theorem confirm_email_spec:
  assumes "session_clear w" "db_ok (w_committed w)"
  shows "\<exists>w'. confirm_email_handler email otp w
      = (Ret (confirm_verdict (w_committed w) email otp (epoch w 0) (epoch w 1)), w')
    \<and> w_committed w' = confirm_result (w_committed w) email otp (epoch w 0) (epoch w 1) (w_clock w (w_tick w + 2))"
proof (cases "find (\<lambda>r. u_email r = email) (db_users (w_committed w))")
  case None
  then show ?thesis
    using confirm_email_unknown [OF assms None, of otp] by (simp add: confirm_verdict_def confirm_result_def)
next
  case u: (Some u)
  have k: "w_work (loaded u w) = w_committed w" "w_committed (loaded u w) = w_committed w"
    "w_tick (loaded u w) = w_tick w" "w_idn (loaded u w) = w_idn w"
    using assms(1) by (simp_all add: session_clear_def loaded_def)
  have e: "epoch (loaded u w) n = epoch w n" for n by (simp add: epoch_def loaded_def)
  note run = confirm_run [of "loaded u w" "u_id u" otp, unfolded k e, OF assms(2)]
  note refused = confirm_email_refused [OF assms u] and accepted = confirm_email_accepted [OF assms u]
  show ?thesis
  proof (cases "pick_code (w_committed w) (u_id u) otp EMAIL_CONFIRMATION")
    case None
    then show ?thesis
      using refused run u k by (simp add: confirm_verdict_def confirm_result_def)
  next
    case (Some r)
    then show ?thesis
      using run u k accepted [of otp "u_id u" r "epoch w 1"]
      by (auto simp: confirm_verdict_def confirm_result_def claimed_def split: if_splits intro!: refused)
  qed
qed

theorem confirm_email_spec_witness:
  "fst (confirm_email_handler ''bob@x.io'' ''000042'' sample_world) = Ret (Ok ())"
proof -
  have "find (\<lambda>r. u_email r = ''bob@x.io'') (db_users sample_db) = Some bob"
    by (simp add: sample_defs)
  moreover have "pick_code sample_db 2 ''000042'' EMAIL_CONFIRMATION = Some bob_code"
    by (simp add: pick_code_def otp_matches_def newest_first_def sample_db_def old_code_def bob_code_def)
  ultimately have "confirm_verdict sample_db ''bob@x.io'' ''000042'' (epoch sample_world 0) (epoch sample_world 1) = Ok ()"
    by (simp add: confirm_verdict_def epoch_def sample_world_def bob_code_def bob_def)
  then show ?thesis
    using confirm_email_spec [of sample_world "''bob@x.io''" "''000042''"] by fastforce
qed

subsection \<open>Two columns for one fact\<close>

text \<open>\<open>status\<close> and \<open>is_active\<close> agree when the account is active exactly with status 1.\<close>

definition columns_agree :: "user_row \<Rightarrow> bool" where
  "columns_agree r \<longleftrightarrow> (u_status r = 1 \<longleftrightarrow> u_is_active r)"

text \<open>
  Toggling an account flips both columns: it keeps them in agreement where they agree,
  and keeps them in disagreement where they do not, and toggling twice restores both.
\<close>

theorem toggle_user_columns:
  assumes "u_status r = 0 \<or> u_status r = 1"
  shows "columns_agree (toggle_user t r) = columns_agree r
    \<and> u_is_active (toggle_user t r) = (\<not> u_is_active r)
    \<and> u_status (toggle_user t' (toggle_user t r)) = u_status r
    \<and> u_is_active (toggle_user t' (toggle_user t r)) = u_is_active r"
  using assms by (auto simp: toggle_user_def columns_agree_def)

theorem toggle_user_columns_witness: "columns_agree (toggle_user 5 ann)"
  using toggle_user_columns [of ann 5 6] by (simp add: ann_def columns_agree_def)

text \<open>
  Confirming an address sets \<open>is_active\<close> but leaves \<open>status\<close> at INACTIVE: a freshly registered
  account is confirmed into the disagreement that the aggregate's comments exclude.
\<close>

lemma confirmation_breaks_agreement:
  assumes "u_status u = 0"
  shows "\<not> columns_agree (merge_user u ((confirmed_row u)\<lparr>u_updated_at := t\<rparr>) u)"
  using assms by (simp add: columns_agree_def merge_user_def pick_def confirmed_row_def)

section \<open>Login\<close>

text \<open>The one condition under which a login succeeds.\<close>

definition may_login :: "libs \<Rightarrow> db \<Rightarrow> string \<Rightarrow> string \<Rightarrow> bool" where
  "may_login L d email password \<longleftrightarrow>
     (\<exists>u \<in> set (db_users d). u_email u = email \<and> u_is_active u \<and> u_email_confirmed u
       \<and> (\<exists>h. u_password u = Some h \<and> verify_password L password h))"

lemma for_user_untouched: "keeps (untouched d) (for_user L cfg i t)"
  unfolding for_user_def payload_from_user_def get_payload_def by (intro keeps_intros)

text \<open>The tokens an accepted login answers with, for an account whose last login was at \<open>t\<close>.\<close>

definition login_tokens :: "libs \<Rightarrow> jwt_config \<Rightarrow> world \<Rightarrow> uuid \<Rightarrow> int \<Rightarrow> token_pair" where
  "login_tokens L cfg w i t =
     (let token = (\<lambda>kind iat lifetime. jw_encode L \<lparr>jp_token_type = Some kind, jp_exp = iat + lifetime, jp_iat = iat,
        jp_jti = w_ids w (w_idn w), jp_user_id = Some i, jp_last_login_time = Some t\<rparr> (jc_secret_key cfg) (jc_algorithm cfg))
      in \<lparr>tp_access_token = token ACCESS_TOKEN (epoch w 0) (jc_access_token_lifetime cfg),
          tp_refresh_token = token REFRESH_TOKEN (epoch w 1) (jc_refresh_token_lifetime cfg)\<rparr>)"

lemma for_user_runs:
  "\<exists>w'. for_user L cfg i (Some t) w = (Ret (login_tokens L cfg w i t), w')"
  "\<exists>w'. for_user L cfg i None w = (Raise no_last_login, w')"
  by (simp_all add: for_user_def payload_from_user_def get_payload_def uuid7_def utc_epoch_int_def
      get_now_def py_bind_app login_tokens_def generate_token_def epoch_def Let_def)

lemma verify_empty [simp]: "\<not> verify_password L password []"
  by (simp add: verify_password_def bcrypt_prefixed_def py_startswith_def)

lemma find_email:
  assumes "db_ok d"
  shows "find (\<lambda>r. u_email r = email) (db_users d) = Some u \<longleftrightarrow> u \<in> set (db_users d) \<and> u_email u = email"
proof -
  have "u \<in> set (filter (\<lambda>r. u_email r = email) (db_users d)) \<longleftrightarrow> find (\<lambda>r. u_email r = email) (db_users d) = Some u"
    unfolding users_by_email [OF assms] by (auto split: option.splits)
  then show ?thesis by auto
qed

definition auth_of :: "user_row \<Rightarrow> user_auth" where
  "auth_of r = \<lparr>ua_id = u_id r, ua_email = u_email r,
     ua_password = (case u_password r of None \<Rightarrow> [] | Some h \<Rightarrow> h), ua_is_active = u_is_active r,
     ua_email_confirmed = u_email_confirmed r, ua_last_login_time = u_last_login_time r\<rparr>"

lemma credentials_by_email:
  assumes "session_clear w" "db_ok (w_committed w)"
  shows "get_credentials_by_email email w =
    (Ret (map_option auth_of (find (\<lambda>r. u_email r = email) (db_users (w_committed w)))), w)"
  using assms users_by_email [OF assms(2), of email]
  by (cases "find (\<lambda>r. u_email r = email) (db_users (w_committed w))")
    (simp_all add: get_credentials_by_email_def select_users_def py_bind_app session_clear_def auth_of_def)

definition login_accepts :: "libs \<Rightarrow> string \<Rightarrow> user_row \<Rightarrow> bool" where
  "login_accepts L password u \<longleftrightarrow> verify_password L password (ua_password (auth_of u))
     \<and> u_is_active u \<and> u_email_confirmed u"

lemma may_login_find:
  "db_ok d \<Longrightarrow> may_login L d email password \<longleftrightarrow>
     (\<exists>u. find (\<lambda>r. u_email r = email) (db_users d) = Some u \<and> login_accepts L password u)"
  unfolding may_login_def login_accepts_def auth_of_def find_email
  by (auto split: option.splits)

lemma login_refused:
  assumes "session_clear w" "db_ok (w_committed w)" "\<not> may_login L (w_committed w) email password"
  shows "login L cfg email password w = (Ret (Err [invalid_credentials]), w)"
  using assms(3) unfolding may_login_find [OF assms(2)]
  by (auto simp: login_def py_bind_app credentials_by_email [OF assms(1,2)] login_accepts_def auth_of_def
      split: option.splits)

text \<open>What a login ends with, by the account of the address.\<close>

definition login_outcome :: "libs \<Rightarrow> jwt_config \<Rightarrow> string \<Rightarrow> string \<Rightarrow> world \<Rightarrow> (exn, token_pair result_detailed) outcome" where
  "login_outcome L cfg email password w =
     (if \<not> may_login L (w_committed w) email password then Ret (Err [invalid_credentials])
      else case find (\<lambda>r. u_email r = email) (db_users (w_committed w)) of
        None \<Rightarrow> Ret (Err [invalid_credentials])
      | Some u \<Rightarrow> (case u_last_login_time u of
            None \<Rightarrow> Raise no_last_login
          | Some t \<Rightarrow> Ret (Ok (login_tokens L cfg w (u_id u) t))))"

lemma login_accepted:
  assumes "session_clear w" "db_ok (w_committed w)" "may_login L (w_committed w) email password"
  shows "\<exists>w'. login L cfg email password w = (login_outcome L cfg email password w, w') \<and> untouched (w_committed w) w'"
proof -
  obtain u where u: "find (\<lambda>r. u_email r = email) (db_users (w_committed w)) = Some u" "login_accepts L password u"
    using assms(3) may_login_find [OF assms(2)] by blast
  obtain r w' where t: "for_user L cfg (u_id u) (u_last_login_time u) w = (r, w')"
      "r = (case u_last_login_time u of None \<Rightarrow> Raise no_last_login | Some t \<Rightarrow> Ret (login_tokens L cfg w (u_id u) t))"
    using for_user_runs(1) [of L cfg "u_id u" "the (u_last_login_time u)" w] for_user_runs(2) [of L cfg "u_id u" w]
    by (cases "u_last_login_time u") auto
  have "untouched (w_committed w) w'"
    using keepsE [OF for_user_untouched t(1)] session_clear_untouched [OF assms(1)] by blast
  moreover have "ua_is_active (auth_of u)" "ua_email_confirmed (auth_of u)" "ua_id (auth_of u) = u_id u"
      "ua_last_login_time (auth_of u) = u_last_login_time u"
    using u(2) by (simp_all add: login_accepts_def auth_of_def)
  ultimately show ?thesis
    using u t assms(3) by (cases "u_last_login_time u")
      (simp_all add: login_def login_outcome_def py_bind_app credentials_by_email [OF assms(1,2)] login_accepts_def)
qed


text \<open>An account that is active, confirmed and has logged in before, beside one that never has.\<close>

definition returning_ann :: user_row where
  "returning_ann = ann\<lparr>u_last_login_time := Some 5\<rparr>"

definition login_world :: world where
  "login_world = (let d = sample_db\<lparr>db_users := [returning_ann, bob, ann\<lparr>u_id := 3, u_email := ''eve@x.io''\<rparr>]\<rparr>
     in sample_world\<lparr>w_committed := d, w_work := d\<rparr>)"

lemma login_world_facts:
  "session_clear login_world" "db_ok (w_committed login_world)"
  by (simp_all add: login_world_def session_clear_def db_ok_def sample_defs returning_ann_def Let_def)

lemma secret_verifies: "verify_password sample_libs ''secret12'' (sample_hash (utf8_encode ''secret12''))"
proof -
  have "to_bytes ''secret12'' = Ret (utf8_encode ''secret12'')"
    by (simp add: to_bytes_def utf8_encode_def utf8_char_def bcrypt_max_bytes_def)
  then show ?thesis
    by (simp add: verify_password_def sample_libs_def sample_hash_def bcrypt_prefixed_def py_startswith_def)
qed


section \<open>Refused requests\<close>

text \<open>
  Claim C9. A refused request changes nothing: when a request to register, confirm, resend, reset
  (first and last step), toggle, edit the own record or change the password answers with an error
  or raises, the committed tables are exactly what they were before it.
\<close>

theorem refused_requests_change_nothing:
  "refusal_keeps_db (register_handler L cmd) \<and> refusal_keeps_db (confirm_email_handler email otp)
   \<and> refusal_keeps_db (resend_handler email) \<and> refusal_keeps_db (forgot_step1 email)
   \<and> refusal_keeps_db (forgot_step3 L email otp pwd) \<and> refusal_keeps_db (toggle_status_handler i)
   \<and> refusal_keeps_db (update_me_handler params) \<and> refusal_keeps_db (change_password_handler L old pwd)"
  by (intro conjI register_refusal confirm_email_refusal resend_refusal forgot_step1_refusal
      forgot_step3_refusal toggle_refusal update_me_refusal change_password_refusal)

end
