(* ===== verification/AccountFlows.thy ===== *)
theory AccountFlows
  imports Flows
begin

text \<open>
  Issuing codes, registration and password reset, end to end: the rows and mails a successful
  request leaves, and the verdict of the last reset step on every branch.
\<close>

section \<open>Issuing a code\<close>

definition recent_issue :: "world \<Rightarrow> uuid \<Rightarrow> otp_kind \<Rightarrow> bool" where
  "recent_issue w i kind \<longleftrightarrow> (\<exists>r \<in> set (db_otps (w_work w)). owned_by i CT_USER kind r
     \<and> w_dbnow w - otp_cooldown_minutes kind * 60000000 \<le> o_created_at r)"

definition fresh_code :: "world \<Rightarrow> string" where
  "fresh_code w = generate_numeric_otp (w_rand w (w_randn w)) 6"

definition issued_row :: "uuid \<Rightarrow> otp_kind \<Rightarrow> string \<Rightarrow> int \<Rightarrow> string \<Rightarrow> otp_row" where
  "issued_row i kind target now code = \<lparr>o_id = 0, o_created_at = 0, o_otp = Some code,
     o_content_id = i, o_content_type = CT_USER, o_kind = kind, o_used_at = None,
     o_expires_at = now + 15 * 60, o_target_value = target, o_verified = False\<rparr>"

definition after_issue :: "uuid \<Rightarrow> otp_kind \<Rightarrow> string \<Rightarrow> world \<Rightarrow> world" where
  "after_issue i kind target w = w\<lparr>w_tick := Suc (w_tick w), w_randn := Suc (w_randn w),
     w_work := (w_work w)\<lparr>db_otps := invalidate_otps i CT_USER kind (epoch w 0) (db_otps (w_work w))\<rparr>,
     w_new_otps := w_new_otps w @ [issued_row i kind target (epoch w 0) (fresh_code w)]\<rparr>"

lemma otp_ttl_15 [simp]: "otp_ttl_minutes kind = 15"
  by (cases kind) simp_all

lemma issue_run:
  assumes "db_ok (w_work w)"
  shows "issue i kind target w =
    (if recent_issue w i kind then (Ret (Err [cooldown_error (otp_cooldown_minutes kind)]), w)
     else (Ret (Ok (fresh_code w)), after_issue i kind target w))"
proof -
  have "has_recent_issue i CT_USER kind (otp_cooldown_minutes kind) w = (Ret (recent_issue w i kind), w)"
    by (simp add: has_recent_issue_def recent_issue_def list_ex_iff mult.commute [of _ 60000000])
  then show ?thesis
    using assms
    by (simp add: issue_def py_bind_app utc_epoch_int_def get_now_def invalidate_pending_def
        sql_write_def otp_generator_def draw_def otp_create_row_def after_issue_def issued_row_def
        fresh_code_def otp_code_length_def epoch_def split: prod.splits)
qed

text \<open>
  A code is refused while one of the same account and purpose is younger than a minute,
  and the refusal burns nothing: the older code stays usable. Otherwise every unused code of the
  account and purpose is retired and exactly one new code is pending, of six digits, unused, for
  the given target, expiring 15 minutes after it was made.
\<close>

theorem issue_spec:
  assumes "db_ok (w_work w)"
  shows "if recent_issue w i kind
    then issue i kind target w = (Ret (Err [cooldown_error (otp_cooldown_minutes kind)]), w)
    else \<exists>code w'. issue i kind target w = (Ret (Ok code), w') \<and> length code = 6 \<and> list_all py_digit code
      \<and> w_new_otps w' = w_new_otps w @ [issued_row i kind target (epoch w 0) code]
      \<and> w_committed w' = w_committed w
      \<and> (\<forall>r \<in> set (db_otps (w_work w')). owned_by i CT_USER kind r \<longrightarrow> o_used_at r \<noteq> None)"
  using issue_run [OF assms, of i kind target] sound.retire_all
    numeric_otp_length [of 6] numeric_otp_digits
  by (auto simp: after_issue_def fresh_code_def list_all_iff)

theorem issue_spec_witness:
  "\<exists>code w'. issue 1 FORGOT_PASSWORD ''ann@x.io'' sample_world = (Ret (Ok code), w') \<and> length code = 6"
proof -
  have "\<not> recent_issue sample_world 1 FORGOT_PASSWORD"
    by (simp add: recent_issue_def owned_by_def sample_world_def sample_db_def old_code_def bob_code_def)
  then show ?thesis
    using issue_spec [of sample_world 1 FORGOT_PASSWORD "''ann@x.io''"] sample_db_ok
    by (auto simp: sample_world_def)
qed

section \<open>Registration\<close>

lemma db_ok_new_user:
  assumes "db_ok d" "u_id r \<notin> set (map u_id (db_users d))" "u_email r \<notin> set (map u_email (db_users d))"
    "u_avatar_id r = None"
  shows "db_ok (d\<lparr>db_users := db_users d @ [r]\<rparr>)"
  using assms unfolding db_ok_def by (auto simp: list_all_iff split: option.splits)

lemma db_ok_new_otp:
  "db_ok d \<Longrightarrow> o_id r \<notin> set (map o_id (db_otps d)) \<Longrightarrow> db_ok (d\<lparr>db_otps := db_otps d @ [r]\<rparr>)"
  by (rule db_ok_otps) (auto simp: db_ok_def)

lemma invalidate_none:
  "\<forall>r \<in> set rows. o_content_id r \<noteq> i \<Longrightarrow> invalidate_otps i ct kind now rows = rows"
  by (induction rows) (simp_all add: invalidate_otps_def owned_by_def)

definition registered_row :: "libs \<Rightarrow> world \<Rightarrow> user_create_params \<Rightarrow> bytes \<Rightarrow> user_row" where
  "registered_row L w p b = \<lparr>u_id = w_ids w (w_idn w), u_created_at = 0, u_updated_at = 0,
     u_status = 0, u_email = cp_email p, u_password = Some (bc_hashpw L b (w_rand w (w_randn w))),
     u_phone = cp_phone p, u_first_name = cp_first_name p, u_last_name = cp_last_name p,
     u_address = cp_address p, u_description = cp_description p, u_information = cp_information p,
     u_avatar_id = cp_avatar_id p, u_is_active = False, u_is_superuser = False,
     u_email_confirmed = False, u_date_joined = Some (w_clock w (w_tick w)), u_last_login_time = None\<rparr>"

text \<open>The world after the new user was flushed, before its code is issued.\<close>

definition registered_world :: "libs \<Rightarrow> world \<Rightarrow> user_create_params \<Rightarrow> bytes \<Rightarrow> world" where
  "registered_world L w p b = w\<lparr>w_idn := Suc (w_idn w), w_randn := Suc (w_randn w), w_tick := w_tick w + 2,
     w_work := (w_work w)\<lparr>db_users := db_users (w_work w) @ [(registered_row L w p b)
        \<lparr>u_created_at := w_clock w (Suc (w_tick w)), u_updated_at := w_dbnow w\<rparr>]\<rparr>,
     w_objs := [\<lparr>uo_new = False, uo_orig = registered_row L w p b, uo_cur = registered_row L w p b\<rparr>]\<rparr>"

lemma register_insert_run:
  assumes "session_clear w" "to_bytes pwd = Ret b"
    and "db_ok ((w_work w)\<lparr>db_users := db_users (w_work w) @ [(registered_row L w p b)
        \<lparr>u_created_at := w_clock w (Suc (w_tick w)), u_updated_at := w_dbnow w\<rparr>]\<rparr>)"
  shows "py_bind (aggr_register p) (\<lambda>user0. py_bind (aggr_set_password L pwd user0) (\<lambda>user.
      py_bind (user_create_obj user) (\<lambda>_. py_bind flush (\<lambda>_. f user)))) w
    = f \<lparr>ag_row = registered_row L w p b, ag_events = []\<rparr> (registered_world L w p b)"
  using assms
  by (simp add: py_bind_app aggr_register_def source_empty_def get_now_def uuid7_def
      aggr_set_password_def hash_password_def draw_def aggr_set_def obj_set_def user_create_obj_def
      obj_add_def flush_def flush_user_def insert_user_def sql_write_def settle_def
      session_clear_def registered_row_def registered_world_def)
    (rule arg_cong2 [where f = f], simp, cases w, simp)


text \<open>What a successful registration adds: the account, its code, and the mail with the code.\<close>

definition new_user_row :: "libs \<Rightarrow> world \<Rightarrow> register_command \<Rightarrow> bytes \<Rightarrow> user_row" where
  "new_user_row L w cmd b = (registered_row L w (create_params_of cmd) b)
     \<lparr>u_created_at := w_clock w (Suc (w_tick w)), u_updated_at := w_dbnow w\<rparr>"

definition new_code :: "world \<Rightarrow> string" where
  "new_code w = generate_numeric_otp (w_rand w (Suc (w_randn w))) 6"

definition new_code_row :: "world \<Rightarrow> register_command \<Rightarrow> otp_row" where
  "new_code_row w cmd = (issued_row (w_ids w (w_idn w)) EMAIL_CONFIRMATION (rc_email cmd) (epoch w 2) (new_code w))
     \<lparr>o_id := w_ids w (w_idn w + 2), o_created_at := w_clock w (w_tick w + 3)\<rparr>"

definition with_account :: "libs \<Rightarrow> world \<Rightarrow> register_command \<Rightarrow> bytes \<Rightarrow> db \<Rightarrow> db" where
  "with_account L w cmd b d = d\<lparr>db_users := db_users d @ [new_user_row L w cmd b],
     db_otps := db_otps d @ [new_code_row w cmd]\<rparr>"

text \<open>The ids a registration draws for the account and for its code are not in use.\<close>

definition fresh_ids :: "world \<Rightarrow> bool" where
  "fresh_ids w \<longleftrightarrow> w_ids w (w_idn w) \<notin> set (map u_id (db_users (w_committed w)))
     \<and> (\<forall>r \<in> set (db_otps (w_committed w)). o_content_id r \<noteq> w_ids w (w_idn w))
     \<and> w_ids w (w_idn w + 2) \<notin> set (map o_id (db_otps (w_committed w)))"

lemma commit_new_otp:
  assumes "w_objs w = [\<lparr>uo_new = False, uo_orig = a, uo_cur = a\<rparr>]" "w_new_otps w = [r]"
    and "w_new_blobs w = []" "w_new_keys w = []"
    and "db_ok ((w_work w)\<lparr>db_otps := db_otps (w_work w) @
      [r\<lparr>o_id := w_ids w (w_idn w), o_created_at := w_clock w (w_tick w)\<rparr>]\<rparr>)"
  shows "\<exists>w'. commit w = (Ret (), w') \<and> w_mails w' = w_mails w \<and> w_committed w' = (w_work w)\<lparr>db_otps :=
    db_otps (w_work w) @ [r\<lparr>o_id := w_ids w (w_idn w), o_created_at := w_clock w (w_tick w)\<rparr>]\<rparr>"
  using assms
  by (simp add: commit_def flush_def flush_user_def insert_otp_def get_now_def uuid7_def sql_write_def
      settle_def py_bind_app)

lemma register_body_run:
  assumes "session_clear w" "db_ok (w_committed w)" "fresh_ids w"
    and "mk_user_create_params (create_params_of cmd) = Ret (create_params_of cmd)"
    and "to_bytes (rc_password cmd) = Ret b"
    and "rc_email cmd \<notin> set (map u_email (db_users (w_committed w)))" "rc_email cmd \<noteq> []"
  shows "\<exists>ev w1. register_user L cmd w = (Ret (Ok \<lparr>ag_row = registered_row L w (create_params_of cmd) b, ag_events = [ev]\<rparr>), w1)
    \<and> ev_body ev = UserRegisteredEvent (rc_email cmd) (new_code w) (full_name (rc_first_name cmd) (rc_last_name cmd))
    \<and> w1 = (after_issue (w_ids w (w_idn w)) EMAIL_CONFIRMATION (rc_email cmd)
          (registered_world L w (create_params_of cmd) b))\<lparr>w_idn := w_idn w + 2\<rparr>"
proof -
  let ?p = "create_params_of cmd"
  let ?W = "registered_world L w ?p b"
  have ok: "db_ok ((w_work w)\<lparr>db_users := db_users (w_work w) @ [(registered_row L w ?p b)
        \<lparr>u_created_at := w_clock w (Suc (w_tick w)), u_updated_at := w_dbnow w\<rparr>]\<rparr>)"
    using assms by (intro db_ok_new_user) (auto simp: session_clear_def fresh_ids_def registered_row_def create_params_of_def)
  then have okW: "db_ok (w_work ?W)" by (simp add: registered_world_def)
  have "\<not> recent_issue ?W (w_ids w (w_idn w)) EMAIL_CONFIRMATION"
    using assms(1,3) by (auto simp: recent_issue_def registered_world_def session_clear_def fresh_ids_def owned_by_def)
  note iss = issue_run [OF okW, of "w_ids w (w_idn w)" EMAIL_CONFIRMATION "rc_email cmd", unfolded if_not_P [OF this]]
  show ?thesis
    unfolding register_user_def
    using assms(4,7) iss
    by (simp add: py_bind_app [where m = "py_lift x" for x] register_insert_run [OF assms(1,5) ok])
      (simp add: py_bind_app registered_row_def create_params_of_def aggr_mark_registered_def mk_event_def
        uuid7_def add_domain_event_def aggr_full_name_def fresh_code_def new_code_def after_issue_def registered_world_def)
qed


lemma fresh_account_ok:
  assumes "db_ok d" "i \<notin> set (map u_id (db_users d))" "fresh_ids w" "w_committed w = d"
    and "rc_email cmd \<notin> set (map u_email (db_users d))"
  shows "db_ok (with_account L w cmd b d)"
proof -
  have "db_ok (d\<lparr>db_users := db_users d @ [new_user_row L w cmd b]\<rparr>)"
    using assms by (intro db_ok_new_user)
      (auto simp: new_user_row_def registered_row_def create_params_of_def fresh_ids_def)
  then show ?thesis
    using assms(3,4) db_ok_new_otp [of "d\<lparr>db_users := db_users d @ [new_user_row L w cmd b]\<rparr>" "new_code_row w cmd"]
    by (simp add: with_account_def fresh_ids_def new_code_row_def)
qed

lemma valid_email_nonempty: "at_user_email e \<noteq> None \<Longrightarrow> e \<noteq> []"
  by (auto simp: at_user_email_def trim_def email_pattern_def)

lemma filter_no_match: "x \<notin> set (map g xs) \<Longrightarrow> filter (\<lambda>r. g r = x) xs = []"
  by (induction xs) auto

lemma register_taken:
  assumes "session_clear w" "rc_email cmd \<in> set (map u_email (db_users (w_committed w)))"
  shows "register_handler L cmd w = (Ret (Err [email_taken]), w)"
  using assms
  by (auto simp: register_handler_def register_validator_def exists_by_email_def select_users_def
      py_bind_app session_clear_def filter_empty_conv)

lemma register_accepted:
  assumes "session_clear w" "db_ok (w_committed w)" "fresh_ids w"
    and "mk_user_create_params (create_params_of cmd) = Ret (create_params_of cmd)"
    and "to_bytes (rc_password cmd) = Ret b"
    and "rc_email cmd \<notin> set (map u_email (db_users (w_committed w)))"
  shows "\<exists>w'. register_handler L cmd w = (Ret (Ok ()), w')
    \<and> w_committed w' = with_account L w cmd b (w_committed w)
    \<and> w_mails w' = w_mails w @ [\<lparr>m_dest = rc_email cmd, m_subject = ''Confirm your email'',
         m_content = confirmation_code_email (full_name (rc_first_name cmd) (rc_last_name cmd)) (new_code w) 15\<rparr>]"
proof -
  have ne: "rc_email cmd \<noteq> []"
    using mk_create_fields(1) [OF assms(4)] valid_email_nonempty by (simp add: create_params_of_def)
  have none: "filter (\<lambda>r. u_email r = rc_email cmd) (db_users (w_committed w)) = []"
    using assms(6) by (rule filter_no_match)
  obtain ev w1 where run: "register_user L cmd w
        = (Ret (Ok \<lparr>ag_row = registered_row L w (create_params_of cmd) b, ag_events = [ev]\<rparr>), w1)"
      "ev_body ev = UserRegisteredEvent (rc_email cmd) (new_code w) (full_name (rc_first_name cmd) (rc_last_name cmd))"
      "w1 = (after_issue (w_ids w (w_idn w)) EMAIL_CONFIRMATION (rc_email cmd)
          (registered_world L w (create_params_of cmd) b))\<lparr>w_idn := w_idn w + 2\<rparr>"
    using register_body_run [OF assms ne] by blast
  let ?w2 = "w1\<lparr>w_mails := w_mails w1 @ event_mail (ev_body ev)\<rparr>"
  have inv: "invalidate_otps (w_ids w (w_idn w)) CT_USER EMAIL_CONFIRMATION t (db_otps (w_committed w))
      = db_otps (w_committed w)" for t
    using assms(3) by (intro invalidate_none) (simp add: fresh_ids_def)
  have ok: "db_ok (with_account L w cmd b (w_committed w))"
    using assms by (intro fresh_account_ok [where i = "w_ids w (w_idn w)"]) (simp_all add: fresh_ids_def)
  have "\<exists>w'. commit ?w2 = (Ret (), w') \<and> w_mails w' = w_mails ?w2
      \<and> w_committed w' = with_account L w cmd b (w_committed w)"
    using commit_new_otp [of ?w2 "registered_row L w (create_params_of cmd) b"
        "issued_row (w_ids w (w_idn w)) EMAIL_CONFIRMATION (rc_email cmd) (epoch w 2) (new_code w)"]
      assms(1) inv ok
    by (simp add: run(3) with_account_def new_user_row_def new_code_row_def after_issue_def
      registered_world_def session_clear_def fresh_code_def new_code_def epoch_def eval_nat_numeral)
  then obtain w' where "commit ?w2 = (Ret (), w')" "w_mails w' = w_mails ?w2"
      "w_committed w' = with_account L w cmd b (w_committed w)"
    by blast
  then show ?thesis
    using run none assms(1)
    by (auto simp: register_handler_def register_validator_def exists_by_email_def select_users_def
      py_bind_app session_clear_def pull_events_def bus_publish_many_eq with_uow_def rollback_world_def
      clear_session_def after_issue_def registered_world_def)
qed


text \<open>
  Claim C5. Registering an address that is taken is refused and changes nothing. Registering a
  free one stores exactly one new account, inactive and unconfirmed, with the hash of the password,
  and one unused six-digit code for it that expires 15 minutes later, and mails that code to the
  address; nothing else changes.
\<close>

theorem register_spec:
  assumes "session_clear w" "db_ok (w_committed w)" "fresh_ids w"
    and "mk_user_create_params (create_params_of cmd) = Ret (create_params_of cmd)"
    and "to_bytes (rc_password cmd) = Ret b"
  shows "if rc_email cmd \<in> set (map u_email (db_users (w_committed w)))
    then register_handler L cmd w = (Ret (Err [email_taken]), w)
    else \<exists>w'. register_handler L cmd w = (Ret (Ok ()), w')
      \<and> w_committed w' = with_account L w cmd b (w_committed w)
      \<and> w_mails w' = w_mails w @ [\<lparr>m_dest = rc_email cmd, m_subject = ''Confirm your email'',
           m_content = confirmation_code_email (full_name (rc_first_name cmd) (rc_last_name cmd)) (new_code w) 15\<rparr>]"
  using register_taken [OF assms(1)] register_accepted [OF assms] by presburger

definition cat_command :: register_command where
  "cat_command = \<lparr>rc_email = ''cat@x.io'', rc_password = ''secret12'', rc_first_name = ''Cat'',
     rc_last_name = ''Lee'', rc_phone = None, rc_address = None\<rparr>"

theorem register_spec_witness:
  "\<exists>w'. register_handler sample_libs cat_command sample_world = (Ret (Ok ()), w')
    \<and> length (db_users (w_committed w')) = 3"
proof -
  have "mk_user_create_params (create_params_of cat_command) = Ret (create_params_of cat_command)"
    by (simp add: cat_command_def create_params_of_def) code_simp
  moreover have "to_bytes (rc_password cat_command) = Ret (utf8_encode ''secret12'')"
    by (simp add: cat_command_def to_bytes_def utf8_encode_def utf8_char_def bcrypt_max_bytes_def)
  moreover have "fresh_ids sample_world"
    by (simp add: fresh_ids_def sample_defs)
  moreover have "rc_email cat_command \<notin> set (map u_email (db_users (w_committed sample_world)))"
    by (simp add: cat_command_def sample_defs)
  ultimately obtain w' where "register_handler sample_libs cat_command sample_world = (Ret (Ok ()), w')"
      "w_committed w' = with_account sample_libs sample_world cat_command (utf8_encode ''secret12'') sample_db"
    using register_spec [of sample_world cat_command "utf8_encode ''secret12''" sample_libs] by auto
  then show ?thesis by (simp add: with_account_def sample_db_def)
qed


section \<open>Resetting a password\<close>

text \<open>
  The verdict of the last step, as a function of the tables and of the two readings of the clock.
\<close>

definition reset_verdict :: "db \<Rightarrow> string \<Rightarrow> string \<Rightarrow> int \<Rightarrow> int \<Rightarrow> string result_detailed" where
  "reset_verdict d email otp t1 t2 =
     (case find (\<lambda>r. u_email r = email) (db_users d) of
        None \<Rightarrow> Err [invalid_otp]
      | Some u \<Rightarrow> (case pick_code d (u_id u) otp FORGOT_PASSWORD of
            None \<Rightarrow> Err [invalid_otp]
          | Some r \<Rightarrow> if o_expires_at r < t1 then Err [expired_otp]
              else if claimable (o_id r) t2 r then Ok ''Password updated''
              else Err [invalid_otp]))"

definition reset_row :: "libs \<Rightarrow> bytes \<Rightarrow> nat \<Rightarrow> user_row \<Rightarrow> user_row" where
  "reset_row L b salt u = u\<lparr>u_password := Some (bc_hashpw L b salt)\<rparr>"

definition reset_result :: "libs \<Rightarrow> bytes \<Rightarrow> nat \<Rightarrow> db \<Rightarrow> string \<Rightarrow> string \<Rightarrow> int \<Rightarrow> int \<Rightarrow> int \<Rightarrow> db" where
  "reset_result L b salt d email otp t1 t2 stamp =
     (case find (\<lambda>r. u_email r = email) (db_users d) of
        None \<Rightarrow> d
      | Some u \<Rightarrow> (case pick_code d (u_id u) otp FORGOT_PASSWORD of
            None \<Rightarrow> d
          | Some r \<Rightarrow> if is_ok (reset_verdict d email otp t1 t2)
              then save_user u (reset_row L b salt u) stamp (d\<lparr>db_otps := consume_otps (o_id r) t2 (db_otps d)\<rparr>)
              else d))"

definition reset_mails :: "db \<Rightarrow> string \<Rightarrow> string result_detailed \<Rightarrow> mail list" where
  "reset_mails d email r = (case find (\<lambda>r. u_email r = email) (db_users d) of
     None \<Rightarrow> []
   | Some u \<Rightarrow> if is_ok r then [\<lparr>m_dest = u_email u, m_subject = ''Your password was changed'',
       m_content = password_changed_email (full_name (u_first_name u) (u_last_name u))\<rparr>] else [])"


subsection \<open>The outbox through a commit\<close>

lemma keeps_mails [keeps_intros]:
  "keeps (\<lambda>w. w_mails w = ms) get_now" "keeps (\<lambda>w. w_mails w = ms) uuid7"
  "keeps (\<lambda>w. w_mails w = ms) (sql_write f)" "keeps (\<lambda>w. w_mails w = ms) (py_write settle)"
  "keeps (\<lambda>w. w_mails w = ms) rollback"
  by (auto simp: keeps_def world_defs)

lemma commit_mails: "commit w = (r, w') \<Longrightarrow> w_mails w' = w_mails w"
proof -
  have "keeps (\<lambda>x. w_mails x = w_mails w) commit"
    unfolding commit_def flush_def insert_blob_def flush_user_def insert_user_def update_user_obj_def
      insert_otp_def insert_key_def current_user_id_def
    by (intro keeps_intros) (simp add: keeps_def)
  then show "commit w = (r, w') \<Longrightarrow> w_mails w' = w_mails w"
    by (auto dest: keepsE)
qed

lemma with_uow_mails: "body w = (r, w1) \<Longrightarrow> w_mails (snd (with_uow body w)) = w_mails w1"
  by (auto simp: with_uow_def rollback_world_def clear_session_def commit_mails
      split: prod.splits outcome.splits)

lemma unchanged_answer:
  assumes "body w = (Ret a, w1)" "untouched d w1" "w_mails w1 = ms"
  shows "\<exists>w'. with_uow body w = (Ret a, w') \<and> w_committed w' = d \<and> w_mails w' = ms"
  using with_uow_unchanged [of body w a w1 d] with_uow_mails [of body w "Ret a" w1] assms by auto

lemma rolled_back_answer:
  assumes "body w = (Ret a, rollback_world w1)" "w_committed w1 = d" "w_mails w1 = ms"
  shows "\<exists>w'. with_uow body w = (Ret a, w') \<and> w_committed w' = d \<and> w_mails w' = ms"
  using with_uow_rolled_back [of body w a w1 d] with_uow_mails [of body w "Ret a" "rollback_world w1"] assms
  by (auto simp: rollback_world_def clear_session_def)

lemma committed_answer:
  assumes "body w = (Ret a, w1)" "commit w1 = (Ret (), w2)" "w_committed w2 = d" "w_mails w1 = ms"
  shows "\<exists>w'. with_uow body w = (Ret a, w') \<and> w_committed w' = d \<and> w_mails w' = ms"
  using with_uow_Ret [of body w a w1 "()" w2] with_uow_mails [of body w "Ret a" w1] assms by simp

lemma load_for_reset:
  assumes "session_clear w" "db_ok (w_committed w)" "find (\<lambda>r. u_email r = email) (db_users (w_committed w)) = x"
  shows "get_for_password_reset email w = (case x of None \<Rightarrow> (Ret None, w)
    | Some u \<Rightarrow> (Ret (Some \<lparr>ag_row = u, ag_events = []\<rparr>), loaded u w))"
  using load_by_email [OF assms(1,2), of email] assms(3) by (simp add: get_for_password_reset_def)

lemma untouched_loaded: "session_clear w \<Longrightarrow> untouched (w_committed w) (loaded u w)"
  by (simp add: untouched_def session_clear_def loaded_def clean_obj_def)

lemma loaded_fields [simp]:
  "w_committed (loaded u w) = w_committed w" "w_mails (loaded u w) = w_mails w"
  "w_work (loaded u w) = w_work w" "w_tick (loaded u w) = w_tick w" "w_clock (loaded u w) = w_clock w"
  "w_rand (loaded u w) = w_rand w" "w_randn (loaded u w) = w_randn w" "w_new_otps (loaded u w) = w_new_otps w"
  "w_new_blobs (loaded u w) = w_new_blobs w" "w_new_keys (loaded u w) = w_new_keys w"
  "w_ids (loaded u w) = w_ids w" "w_idn (loaded u w) = w_idn w"
  "w_objs (loaded u w) = [\<lparr>uo_new = False, uo_orig = u, uo_cur = u\<rparr>]"
  by (simp_all add: loaded_def)

lemma reset_unknown:
  assumes "session_clear w" "db_ok (w_committed w)"
    and "find (\<lambda>r. u_email r = email) (db_users (w_committed w)) = None"
  shows "\<exists>w'. forgot_step3 L email otp pwd w = (Ret (Err [invalid_otp]), w') \<and> w_committed w' = w_committed w
    \<and> w_mails w' = w_mails w"
  unfolding forgot_step3_def
  by (rule unchanged_answer [OF _ session_clear_untouched [OF assms(1)]])
    (simp_all add: py_bind_app load_for_reset [OF assms])

lemma reset_no_code:
  assumes "session_clear w" "db_ok (w_committed w)"
    and "find (\<lambda>r. u_email r = email) (db_users (w_committed w)) = Some u"
    and "pick_code (w_committed w) (u_id u) otp FORGOT_PASSWORD = None"
  shows "\<exists>w'. forgot_step3 L email otp pwd w = (Ret (Err [invalid_otp]), w') \<and> w_committed w' = w_committed w
    \<and> w_mails w' = w_mails w"
  unfolding forgot_step3_def using assms(1,4)
  by (intro unchanged_answer [OF _ untouched_loaded [OF assms(1)]])
    (simp_all add: py_bind_app load_for_reset [OF assms(1-3)] find_content_spec session_clear_def)

lemma reset_expired:
  assumes "session_clear w" "db_ok (w_committed w)"
    and "find (\<lambda>r. u_email r = email) (db_users (w_committed w)) = Some u"
    and "pick_code (w_committed w) (u_id u) otp FORGOT_PASSWORD = Some r" "o_expires_at r < epoch w 0"
  shows "\<exists>w'. forgot_step3 L email otp pwd w = (Ret (Err [expired_otp]), w') \<and> w_committed w' = w_committed w
    \<and> w_mails w' = w_mails w"
proof -
  have "untouched (w_committed w) ((loaded u w)\<lparr>w_tick := Suc (w_tick w)\<rparr>)"
    using untouched_loaded [OF assms(1)] by simp
  then show ?thesis
    unfolding forgot_step3_def using assms(1,4,5)
    by (elim unchanged_answer [rotated])
      (simp_all add: py_bind_app load_for_reset [OF assms(1-3)] find_content_spec session_clear_def
        detailed_of_def utc_epoch_int_def get_now_def epoch_def)
qed


lemma consume_loaded:
  assumes "session_clear w" "db_ok (w_committed w)"
    and "pick_code (w_committed w) i otp kind = Some r"
  shows "consume_by_id (o_id r) now ((loaded u w)\<lparr>w_tick := k\<rparr>) = (Ret (claimable (o_id r) now r),
    (loaded u w)\<lparr>w_tick := k, w_work := (w_committed w)\<lparr>db_otps := consume_otps (o_id r) now (db_otps (w_committed w))\<rparr>\<rparr>)"
  using consume_spec [of "(loaded u w)\<lparr>w_tick := k\<rparr>" r now] assms pick_code_props(1) [OF assms(3)]
  by (simp add: session_clear_def)

lemma reset_lost:
  assumes "session_clear w" "db_ok (w_committed w)"
    and "find (\<lambda>r. u_email r = email) (db_users (w_committed w)) = Some u"
    and "pick_code (w_committed w) (u_id u) otp FORGOT_PASSWORD = Some r"
    and "\<not> o_expires_at r < epoch w 0" "\<not> claimable (o_id r) (epoch w 1) r"
  shows "\<exists>w'. forgot_step3 L email otp pwd w = (Ret (Err [invalid_otp]), w') \<and> w_committed w' = w_committed w
    \<and> w_mails w' = w_mails w"
  unfolding forgot_step3_def using assms(1,5,6)
  by (intro rolled_back_answer [where ?w1.0 = "(loaded u w)\<lparr>w_tick := Suc (Suc (w_tick w)),
      w_work := (w_committed w)\<lparr>db_otps := consume_otps (o_id r) (epoch w 1) (db_otps (w_committed w))\<rparr>\<rparr>"])
    (simp_all add: py_bind_app load_for_reset [OF assms(1-3)] find_content_spec session_clear_def assms(4)
      detailed_of_def utc_epoch_int_def get_now_def epoch_def consume_loaded [OF assms(1,2,4)] rollback_def)

lemma reset_accepted:
  assumes "session_clear w" "db_ok (w_committed w)" "to_bytes pwd = Ret b"
    and "find (\<lambda>r. u_email r = email) (db_users (w_committed w)) = Some u"
    and "pick_code (w_committed w) (u_id u) otp FORGOT_PASSWORD = Some r"
    and "\<not> o_expires_at r < epoch w 0" "claimable (o_id r) (epoch w 1) r"
  shows "\<exists>w'. forgot_step3 L email otp pwd w = (Ret (Ok ''Password updated''), w')
    \<and> w_committed w' = save_user u (reset_row L b (w_rand w (w_randn w)) u) (w_clock w (w_tick w + 2))
        ((w_committed w)\<lparr>db_otps := consume_otps (o_id r) (epoch w 1) (db_otps (w_committed w))\<rparr>)
    \<and> w_mails w' = w_mails w @ [\<lparr>m_dest = u_email u, m_subject = ''Your password was changed'',
       m_content = password_changed_email (full_name (u_first_name u) (u_last_name u))\<rparr>]"
proof -
  let ?b = "reset_row L b (w_rand w (w_randn w)) u"
  let ?w1 = "(loaded u w)\<lparr>w_tick := Suc (Suc (w_tick w)),
      w_work := (w_committed w)\<lparr>db_otps := consume_otps (o_id r) (epoch w 1) (db_otps (w_committed w))\<rparr>,
      w_randn := Suc (w_randn w), w_objs := [\<lparr>uo_new = False, uo_orig = u, uo_cur = ?b\<rparr>],
      w_idn := Suc (w_idn w),
      w_mails := w_mails w @ [\<lparr>m_dest = u_email u, m_subject = ''Your password was changed'',
        m_content = password_changed_email (full_name (u_first_name u) (u_last_name u))\<rparr>]\<rparr>"
  obtain w2 where w2: "commit ?w1 = (Ret (), w2)"
      "w_committed w2 = save_user u ?b (w_clock w (w_tick w + 2))
        ((w_committed w)\<lparr>db_otps := consume_otps (o_id r) (epoch w 1) (db_otps (w_committed w))\<rparr>)"
    using commit_user [of ?w1 u ?b] assms(1,2)
    by (auto simp: session_clear_def save_user_ok reset_row_def)
  show ?thesis
    unfolding forgot_step3_def using assms(1,6,7)
    by (intro committed_answer [OF _ w2]; simp add: py_bind_app load_for_reset [OF assms(1,2,4)] find_content_spec session_clear_def assms(3,5)
        detailed_of_def utc_epoch_int_def get_now_def epoch_def consume_loaded [OF assms(1,2,5)]
        aggr_set_password_def hash_password_def draw_def aggr_set_def obj_set_def announce_password_changed_def
        mk_event_def uuid7_def add_domain_event_def pull_events_def bus_publish_many_eq reset_row_def
        aggr_full_name_def)
qed

text \<open>
  Claim C6. The last step of a password reset answers, on every branch, by the newest matching
  code of the account: no account or no matching code is invalid, an expired code is expired, one
  that cannot be claimed (used before, or expired in between) is invalid; otherwise the password is
  updated. Exactly then that code is claimed, the stored hash is the new password's, and the owner
  is told by mail; in every other case nothing is stored and nothing is sent.
\<close>

theorem forgot_step3_spec:
  assumes "session_clear w" "db_ok (w_committed w)" "to_bytes pwd = Ret b"
  shows "let v = reset_verdict (w_committed w) email otp (epoch w 0) (epoch w 1) in
    \<exists>w'. forgot_step3 L email otp pwd w = (Ret v, w')
      \<and> w_committed w' = reset_result L b (w_rand w (w_randn w)) (w_committed w) email otp
          (epoch w 0) (epoch w 1) (w_clock w (w_tick w + 2))
      \<and> w_mails w' = w_mails w @ reset_mails (w_committed w) email v"
proof (cases "find (\<lambda>r. u_email r = email) (db_users (w_committed w))")
  case None
  then show ?thesis
    using reset_unknown [OF assms(1,2) None] by (simp add: reset_verdict_def reset_result_def reset_mails_def)
next
  case u: (Some u)
  show ?thesis
  proof (cases "pick_code (w_committed w) (u_id u) otp FORGOT_PASSWORD")
    case None
    then show ?thesis
      using reset_no_code [OF assms(1,2) u None] u
      by (simp add: reset_verdict_def reset_result_def reset_mails_def)
  next
    case (Some r)
    then show ?thesis
      using u reset_expired [OF assms(1,2) u Some] reset_lost [OF assms(1,2) u Some]
        reset_accepted [OF assms u Some]
      by (simp add: reset_verdict_def reset_result_def reset_mails_def)
  qed
qed


definition ann_code :: otp_row where
  "ann_code = bob_code\<lparr>o_id := 8, o_content_id := 1, o_kind := FORGOT_PASSWORD, o_target_value := ''ann@x.io''\<rparr>"

definition reset_world :: world where
  "reset_world = sample_world\<lparr>w_committed := sample_db\<lparr>db_otps := [ann_code]\<rparr>,
     w_work := sample_db\<lparr>db_otps := [ann_code]\<rparr>\<rparr>"

theorem forgot_step3_spec_witness:
  "\<exists>w'. forgot_step3 sample_libs ''ann@x.io'' ''000042'' ''secret34'' reset_world = (Ret (Ok ''Password updated''), w')
    \<and> length (w_mails w') = 1"
proof -
  have ok: "session_clear reset_world" "db_ok (w_committed reset_world)"
    by (simp_all add: reset_world_def session_clear_def sample_defs db_ok_def ann_code_def)
  have b: "to_bytes ''secret34'' = Ret (utf8_encode ''secret34'')"
    by (simp add: to_bytes_def utf8_encode_def utf8_char_def bcrypt_max_bytes_def)
  have f: "find (\<lambda>r. u_email r = ''ann@x.io'') (db_users (w_committed reset_world)) = Some ann"
    by (simp add: reset_world_def sample_defs)
  have "pick_code (w_committed reset_world) (u_id ann) ''000042'' FORGOT_PASSWORD = Some ann_code"
    by (simp add: pick_code_def otp_matches_def newest_first_def reset_world_def ann_code_def bob_code_def ann_def)
  then have "reset_verdict (w_committed reset_world) ''ann@x.io'' ''000042'' (epoch reset_world 0) (epoch reset_world 1)
      = Ok ''Password updated''"
    by (simp add: reset_verdict_def f) (simp add: claimable_def ann_code_def bob_code_def epoch_def reset_world_def sample_world_def)
  then show ?thesis
    using forgot_step3_spec [OF ok b, of "''ann@x.io''" "''000042''" sample_libs] f
    by (auto simp: Let_def reset_mails_def reset_world_def sample_world_def)
qed

end
