(* ===== verification/Config.thy ===== *)
theory Config
  imports Security "HOL-Library.Char_ord" "HOL-Library.List_Lexorder"
begin

text \<open>
  The settings of \<open>shared_kernel/config\<close>: the values the operations read, the defaults, and the
  properties the code derives from them. Reading them from the environment is pydantic's part.
\<close>

section \<open>AppConfig (app\_config.py)\<close>

datatype environment = Production | Development | Testing

record app_config =
  ac_environment :: environment
  ac_secret_key :: string
  ac_domain :: string
  ac_timezone :: string
  ac_aes_key :: bytes
  ac_cors_allowed_origins :: string

definition app_debug :: "app_config \<Rightarrow> bool" where
  "app_debug c \<longleftrightarrow> ac_environment c = Development \<or> ac_environment c = Testing"

definition app_scheme :: "app_config \<Rightarrow> string" where
  "app_scheme c = (if app_debug c then ''http'' else ''https'')"

definition app_base_url :: "app_config \<Rightarrow> string" where
  "app_base_url c = app_scheme c @ ''://'' @ ac_domain c"

definition comma_list :: "string \<Rightarrow> string list" where
  "comma_list s = filter (\<lambda>p. p \<noteq> []) (map py_strip (py_split (CHR '','') s))"

definition cors_origins :: "app_config \<Rightarrow> string list" where
  "cors_origins c =
     (let raw = py_strip (ac_cors_allowed_origins c)
      in if raw \<noteq> [] then comma_list raw else if app_debug c then [''*''] else [])"

definition file_path :: string where
  "file_path = ''files''"

definition image_path :: string where
  "image_path = ''images''"

section \<open>Infrastructure (infra\_configs.py)\<close>

record database_config =
  dc_db :: string
  dc_user :: string
  dc_password :: string
  dc_host :: string
  dc_port :: int
  dc_driver :: string

definition postgres_url :: "database_config \<Rightarrow> string" where
  "postgres_url c = ''postgresql+'' @ dc_driver c @ ''://'' @ dc_user c @ '':'' @ dc_password c
     @ ''@'' @ dc_host c @ '':'' @ show_int (dc_port c) @ ''/'' @ dc_db c"

definition asyncpg_dsn :: "database_config \<Rightarrow> string" where
  "asyncpg_dsn c = ''postgresql://'' @ dc_user c @ '':'' @ dc_password c @ ''@'' @ dc_host c
     @ '':'' @ show_int (dc_port c) @ ''/'' @ dc_db c"

record smtp_config =
  sc_host :: "string option"
  sc_port :: int
  sc_username :: "string option"
  sc_password :: "string option"
  sc_timeout :: int

text \<open>\<open>_require_all_or_none\<close> of \<open>base_pydantic_config.py\<close>: a group of settings is complete or absent.\<close>

definition missing_settings :: "(string \<times> string option) list \<Rightarrow> string list" where
  "missing_settings grp = sort (map fst (filter (\<lambda>(n, v). v = None) grp))"

definition require_all_or_none ::
  "(string \<times> string option) list \<Rightarrow> string \<Rightarrow> string \<Rightarrow> (exn, unit) outcome" where
  "require_all_or_none grp label env =
     (if list_ex (\<lambda>(n, v). v \<noteq> None) grp \<and> \<not> list_all (\<lambda>(n, v). v \<noteq> None) grp
      then Raise (ValueError (label @ '' is partially configured; missing: ''
             @ py_join '', '' (map (\<lambda>n. py_upper (env @ n)) (missing_settings grp))))
      else Ret ())"

definition smtp_group :: "smtp_config \<Rightarrow> (string \<times> string option) list" where
  "smtp_group c = [(''host'', sc_host c), (''username'', sc_username c), (''password'', sc_password c)]"

definition smtp_post_init :: "smtp_config \<Rightarrow> (exn, smtp_config) outcome" where
  "smtp_post_init c = (case require_all_or_none (smtp_group c) ''SMTP'' ''SMTP_'' of
     Ret u \<Rightarrow> Ret c | Raise e \<Rightarrow> Raise e)"

text \<open>The truth value of an optional string.\<close>

definition filled :: "string option \<Rightarrow> bool" where
  "filled s = (case s of None \<Rightarrow> False | Some v \<Rightarrow> v \<noteq> [])"

definition smtp_enabled :: "smtp_config \<Rightarrow> bool" where
  "smtp_enabled c \<longleftrightarrow> filled (sc_host c) \<and> filled (sc_username c) \<and> filled (sc_password c)"

record telegram_config =
  tg_bot_token :: "string option"
  tg_chat_id :: "string option"
  tg_system_chat_id :: "string option"
  tg_service_routes :: string
  tg_level_routes :: string
  tg_global_rate :: rat
  tg_per_chat_rate :: rat

definition telegram_enabled :: "telegram_config \<Rightarrow> bool" where
  "telegram_enabled c \<longleftrightarrow> filled (tg_bot_token c) \<and> filled (tg_chat_id c)"

definition default_exclude_url_prefixes :: string where
  "default_exclude_url_prefixes = ''/healthcheck,/api/v1/docs,/api/v1/get-schema''"

definition excluded_prefixes :: "string \<Rightarrow> string list" where
  "excluded_prefixes exclude_url_prefixes = comma_list exclude_url_prefixes"

section \<open>Lemmas\<close>

lemma comma_list_items:
  "p \<in> set (comma_list s) \<longleftrightarrow> p \<noteq> [] \<and> p \<in> py_strip ` set (py_split (CHR '','') s)"
  by (auto simp: comma_list_def)

text \<open>
  Only origins that the setting lists may call the API: when it is blank, every origin
  in a debug environment and none elsewhere; otherwise exactly the listed ones, without the spaces
  around them.
\<close>

theorem cors_origins_spec:
  "origin \<in> set (cors_origins c) \<longleftrightarrow>
     (if py_strip (ac_cors_allowed_origins c) = []
      then origin = ''*'' \<and> ac_environment c \<noteq> Production
      else origin \<noteq> [] \<and> origin \<in> py_strip ` set (py_split (CHR '','') (py_strip (ac_cors_allowed_origins c))))"
proof -
  have "app_debug c \<longleftrightarrow> ac_environment c \<noteq> Production"
    by (cases "ac_environment c") (simp_all add: app_debug_def)
  then show ?thesis by (auto simp: cors_origins_def Let_def comma_list_items)
qed

text \<open>
  A mail configuration that is accepted is complete or absent: with its three
  credentials all given or all missing; a partial one is rejected when the application starts.
\<close>

theorem smtp_post_init_spec:
  "(\<exists>c'. smtp_post_init c = Ret c') \<longleftrightarrow>
     (sc_host c = None \<and> sc_username c = None \<and> sc_password c = None)
     \<or> (sc_host c \<noteq> None \<and> sc_username c \<noteq> None \<and> sc_password c \<noteq> None)"
  by (cases "sc_host c"; cases "sc_username c"; cases "sc_password c")
    (simp_all add: smtp_post_init_def require_all_or_none_def smtp_group_def)

end
