(* ===== verification/Http.thy ===== *)
theory Http
  imports Services Config Values
begin

text \<open>
  The boundary of the application: the mediator that finds the handler of a message
  (\<open>application/cqrs/mediator.py\<close>), the middleware that finds out who asks and the dependencies that
  guard a route (\<open>deps_middleware.py\<close>, \<open>context_deps.py\<close>), and the error handler that turns every
  exception into a response (\<open>exception_middleware.py\<close>).
\<close>

section \<open>Mediator (mediator.py)\<close>

text \<open>
  A handler factory is called for every message; \<open>'m\<close> are the messages, \<open>'t\<close> their classes. A
  handler that is not a coroutine function is wrapped into one; both are programs here.
\<close>

type_synonym ('w, 'm, 'r) cq_handler = "'m \<Rightarrow> ('w, exn, 'r) prog"

record ('w, 'm, 't, 'r) mediator =
  md_pipelines :: "(('w, 'm, 'r) cq_handler \<Rightarrow> ('w, 'm, 'r) cq_handler) list"
  md_commands :: "'t \<rightharpoonup> (unit \<Rightarrow> ('w, 'm, 'r) cq_handler)"
  md_queries :: "'t \<rightharpoonup> (unit \<Rightarrow> ('w, 'm, 'r) cq_handler)"

definition new_mediator :: "('w, 'm, 't, 'r) mediator" where
  "new_mediator = \<lparr>md_pipelines = [], md_commands = (\<lambda>t. None), md_queries = (\<lambda>t. None)\<rparr>"

definition register_command_factory ::
  "'t \<Rightarrow> (unit \<Rightarrow> ('w, 'm, 'r) cq_handler) \<Rightarrow> ('w, 'm, 't, 'r) mediator \<Rightarrow> ('w, 'm, 't, 'r) mediator" where
  "register_command_factory t h md = md\<lparr>md_commands := (md_commands md)(t \<mapsto> h)\<rparr>"

definition register_query_factory ::
  "'t \<Rightarrow> (unit \<Rightarrow> ('w, 'm, 'r) cq_handler) \<Rightarrow> ('w, 'm, 't, 'r) mediator \<Rightarrow> ('w, 'm, 't, 'r) mediator" where
  "register_query_factory t h md = md\<lparr>md_queries := (md_queries md)(t \<mapsto> h)\<rparr>"

definition invoke :: "('w, 'm, 'r) cq_handler \<Rightarrow> 'm \<Rightarrow> ('w, exn, 'r) prog" where
  "invoke runner msg = runner msg"

definition send_command :: "('m \<Rightarrow> 't) \<Rightarrow> ('w, 'm, 't, 'r) mediator \<Rightarrow> 'm \<Rightarrow> ('w, exn, 'r) prog" where
  "send_command type_of md cmd = (case md_commands md (type_of cmd) of
     None \<Rightarrow> py_raise (KeyError ''command'')
   | Some factory \<Rightarrow> invoke (factory ()) cmd)"

definition ask_query :: "('m \<Rightarrow> 't) \<Rightarrow> ('w, 'm, 't, 'r) mediator \<Rightarrow> 'm \<Rightarrow> ('w, exn, 'r) prog" where
  "ask_query type_of md q = (case md_queries md (type_of q) of
     None \<Rightarrow> py_raise (KeyError ''query'')
   | Some factory \<Rightarrow> invoke (factory ()) q)"

definition wrap_pipelines :: "('w, 'm, 't, 'r) mediator \<Rightarrow> ('w, 'm, 'r) cq_handler \<Rightarrow> ('w, 'm, 'r) cq_handler" where
  "wrap_pipelines md handler = fold (\<lambda>p fn. p fn) (rev (md_pipelines md)) handler"

section \<open>Who asks (context\_deps.py, deps\_middleware.py)\<close>

definition raise_unauthorized :: "app_message \<Rightarrow> status_code \<Rightarrow> 'a app" where
  "raise_unauthorized msg st = (case mk_app_exception (message_text msg) None (Some st) (Some 401) of
     Ret e \<Rightarrow> py_raise (AppException e) | Raise e \<Rightarrow> py_raise e)"

definition get_current_user_from_token :: "libs \<Rightarrow> jwt_config \<Rightarrow> string \<Rightarrow> user_context app" where
  "get_current_user_from_token L cfg token =
     (if token = [] then raise_unauthorized MAccessTokenRequired ACCESS_TOKEN_REQUIRED
      else py_bind (decode_payload L cfg token) (\<lambda>payload.
        case Option.bind payload jp_user_id of
          None \<Rightarrow> raise_unauthorized MInvalidTokenProvided INVALID_ACCESS_TOKEN
        | Some i \<Rightarrow> py_bind (get_for_context i) (\<lambda>user.
            case user of
              None \<Rightarrow> raise_unauthorized MInvalidLoginCredentials INVALID_LOGIN_CREDENTIALS
            | Some u \<Rightarrow>
                if \<not> ux_is_active u then raise_unauthorized MInvalidLoginCredentials INVALID_LOGIN_CREDENTIALS
                else py_ret u)))"

text \<open>A request acts as the user of its token, or as the owner of its API key.\<close>

datatype principal = TokenUser user_context | KeyOwner user_row

fun principal_id :: "principal \<Rightarrow> uuid" where
  "principal_id (TokenUser u) = ux_id u"
| "principal_id (KeyOwner u) = u_id u"

record request_state =
  rq_user :: "principal option"
  rq_api_key :: "(api_key_row \<times> user_row) option"

text \<open>The truth value of an optional header.\<close>

definition header_given :: "string option \<Rightarrow> bool" where
  "header_given h \<longleftrightarrow> h \<noteq> None \<and> h \<noteq> Some []"

definition authenticate :: "libs \<Rightarrow> jwt_config \<Rightarrow> bytes \<Rightarrow> string option \<Rightarrow> string option \<Rightarrow> request_state app" where
  "authenticate L cfg secret jwt api_key =
     (if header_given jwt \<and> header_given api_key
      then py_raise (HTTPException 400 ''Provide either API key or bearer token, not both'' VNone)
      else if header_given jwt
      then (case py_split (CHR '' '') (py_strip (the jwt)) of
          [scheme, token] \<Rightarrow> py_bind (get_current_user_from_token L cfg token) (\<lambda>u.
             py_ret \<lparr>rq_user = Some (TokenUser u), rq_api_key = None\<rparr>)
        | _ \<Rightarrow> py_ret \<lparr>rq_user = None, rq_api_key = None\<rparr>)
      else if header_given api_key
      then (case b64_decode L (the api_key) of
          None \<Rightarrow> py_raise (HTTPException 401 ''Provided invalid api_key'' VNone)
        | Some raw \<Rightarrow> py_bind (api_key_get_with_owner L secret raw) (\<lambda>k.
            py_ret \<lparr>rq_user = map_option (KeyOwner \<circ> snd) k, rq_api_key = k\<rparr>))
      else py_ret \<lparr>rq_user = None, rq_api_key = None\<rparr>)"

text \<open>\<open>ExecutionContextProvider.create\<close> around the rest of the request, and \<open>clear\<close> in \<open>finally\<close>.\<close>

definition with_context :: "uuid option \<Rightarrow> 'a app \<Rightarrow> 'a app" where
  "with_context who body = (\<lambda>w.
     let (r, w') = body (w\<lparr>w_user := who\<rparr>) in (r, w'\<lparr>w_user := w_user w\<rparr>))"

definition auth_middleware ::
  "libs \<Rightarrow> jwt_config \<Rightarrow> bytes \<Rightarrow> string option \<Rightarrow> string option \<Rightarrow> (request_state \<Rightarrow> 'a app) \<Rightarrow> 'a app" where
  "auth_middleware L cfg secret jwt api_key rest =
     py_bind (authenticate L cfg secret jwt api_key) (\<lambda>st.
     with_context (map_option principal_id (rq_user st)) (rest st))"

definition get_current_user_from_request :: "bool \<Rightarrow> bool \<Rightarrow> request_state \<Rightarrow> principal option app" where
  "get_current_user_from_request required allow_api_key_access st =
     (if rq_api_key st \<noteq> None \<and> \<not> allow_api_key_access
      then py_raise (HTTPException 401 (message_text MAccessTokenRequired) VNone)
      else if rq_api_key st = None \<and> required \<and> rq_user st = None
      then py_raise (HTTPException 401 (message_text MAccessTokenRequired) VNone)
      else py_ret (rq_user st))"

text \<open>A route behind the middleware whose \<open>user\<close> dependency is \<open>DepUser\<close>.\<close>

definition user_route ::
  "libs \<Rightarrow> jwt_config \<Rightarrow> bytes \<Rightarrow> string option \<Rightarrow> string option \<Rightarrow> (principal option \<Rightarrow> 'a app) \<Rightarrow> 'a app" where
  "user_route L cfg secret jwt api_key handler =
     auth_middleware L cfg secret jwt api_key (\<lambda>st.
       py_bind (get_current_user_from_request True False st) handler)"

section \<open>Error responses (exception\_middleware.py)\<close>

record response =
  rs_status :: int
  rs_body :: pyval

text \<open>A dict display: a repeated key keeps its place and takes the later value.\<close>

fun dict_put :: "string \<Rightarrow> pyval \<Rightarrow> (string \<times> pyval) list \<Rightarrow> (string \<times> pyval) list" where
  "dict_put k v [] = [(k, v)]"
| "dict_put k v ((j, x) # d) = (if j = k then (j, v) # d else (j, x) # dict_put k v d)"

definition dict_of :: "(string \<times> pyval) list \<Rightarrow> pyval" where
  "dict_of items = VDict (fold (\<lambda>(k, v). dict_put k v) items [])"

definition opt_str :: "string option \<Rightarrow> pyval" where
  "opt_str s = (case s of None \<Rightarrow> VNone | Some t \<Rightarrow> VStr t)"

definition detail_dump :: "detail \<Rightarrow> pyval" where
  "detail_dump d = VDict [(''status'', VInt (status_value (d_status d))), (''code'', opt_str (d_code d)),
     (''message'', opt_str (d_message d)), (''field'', opt_str (d_field d)),
     (''fields'', (case d_fields d of None \<Rightarrow> VNone | Some fs \<Rightarrow> VList (map VStr fs))),
     (''payload'', VDict (d_payload d)), (''critical'', VBool (d_critical d))]"

definition format_validation_error :: "(string list \<times> string) list \<Rightarrow> pyval" where
  "format_validation_error errs =
     dict_of (map (\<lambda>(loc, msg). (if py_join ''.'' loc = [] then ''detail'' else py_join ''.'' loc, VStr msg)) errs)"

definition format_single :: "detail \<Rightarrow> pyval" where
  "format_single d =
     (if filled (d_field d)
      then dict_of [(the (d_field d), opt_str (d_message d)),
             (''payload'', dict_of ([(''message'', opt_str (d_message d)),
                (''status'', VInt (status_value (d_status d)))] @ d_payload d))]
      else if filled (d_message d) then VDict [(''detail'', opt_str (d_message d))]
      else detail_dump d)"

definition format_app_exception :: "app_exc \<Rightarrow> pyval" where
  "format_app_exception e =
     (case ex_details e of
        Some [d] \<Rightarrow> format_single d
      | Some (d # d' # ds) \<Rightarrow>
          if list_all (\<lambda>x. filled (d_field x) \<and> filled (d_message x)) (d # d' # ds)
          then dict_of (map (\<lambda>x. (the (d_field x), opt_str (d_message x))) (d # d' # ds))
          else VList (map detail_dump (d # d' # ds))
      | _ \<Rightarrow> VDict [(''detail'', VStr (ex_message e))])"

definition max_exception_text :: nat where
  "max_exception_text = 500"

text \<open>What the debug body shows; entries that are empty are left out.\<close>

record error_context =
  ec_text :: string
  ec_trace_id :: string
  ec_user_id :: string
  ec_url :: string
  ec_method :: string

definition format_internal_server_error :: "error_context \<Rightarrow> pyval" where
  "format_internal_server_error c =
     (let msg = (if max_exception_text < length (ec_text c)
                 then take (max_exception_text - 3) (ec_text c) @ ''...'' else ec_text c);
          entry = (\<lambda>k s. if s = [] then [] else [(k, VStr s)])
      in VDict (entry ''message'' ''Internal Server Error'' @ entry ''detail'' msg
           @ entry ''trace_id'' (ec_trace_id c) @ [(''status'', VInt 500)] @ entry ''user_id'' (ec_user_id c)
           @ entry ''url'' (ec_url c) @ entry ''method'' (ec_method c)))"

definition exception_handler :: "bool \<Rightarrow> (exn \<Rightarrow> error_context) \<Rightarrow> exn \<Rightarrow> response" where
  "exception_handler debug ctx e = (case e of
     AppException x \<Rightarrow> \<lparr>rs_status = 400, rs_body = format_app_exception x\<rparr>
   | ValidationError errs \<Rightarrow> \<lparr>rs_status = 422, rs_body = format_validation_error errs\<rparr>
   | HTTPException st det extra \<Rightarrow> \<lparr>rs_status = st, rs_body = VDict (filter (\<lambda>kv. py_truthy (snd kv))
        [(''detail'', VStr det), (''extra'', extra), (''status_code'', VInt st)])\<rparr>
   | _ \<Rightarrow> \<lparr>rs_status = 500, rs_body =
        (if debug then format_internal_server_error (ctx e) else VDict [(''detail'', VStr ''Internal Server Error'')])\<rparr>)"

text \<open>A controller raises \<open>as_app_exception\<close> for an error result and returns the value otherwise.\<close>

definition respond :: "bool \<Rightarrow> (exn \<Rightarrow> error_context) \<Rightarrow> int \<Rightarrow> ('v \<Rightarrow> pyval) \<Rightarrow> 'v result_detailed app \<Rightarrow> world \<Rightarrow> response \<times> world" where
  "respond debug ctx success render m w =
     (case m w of
        (Ret (Ok v), w') \<Rightarrow> (\<lparr>rs_status = success, rs_body = render v\<rparr>, w')
      | (Ret (Err ds), w') \<Rightarrow> (exception_handler debug ctx
            (case as_app_exception (Err ds :: 'v result_detailed) of Ret x \<Rightarrow> AppException x | Raise e \<Rightarrow> e), w')
      | (Raise e, w') \<Rightarrow> (exception_handler debug ctx e, w'))"

end
