(* ===== verification/Blob.thy ===== *)
theory Blob
  imports Repositories Config
begin

text \<open>
  Stored files (\<open>application/blob\<close>, \<open>infra/adapters/local_blob_storage.py\<close>,
  \<open>blob_orm_repository.py\<close>): the checks of an upload, the storage under the media root with the
  image variants, the repository, and the handlers that keep rows and files together.

  A file of the media root is an entry of \<open>w_files\<close>, by its path relative to the root. The
  image library and the disk are parameters: \<open>md_variant edge content\<close> is the WEBP copy whose
  longest edge is at most \<open>edge\<close> (\<open>None\<close> when Pillow raises on the content), and
  \<open>md_disk_ok path\<close> says whether a write to the path succeeds.
\<close>

section \<open>Validation (blob\_validators.py, constraints.py)\<close>

definition max_blob_size_bytes :: nat where
  "max_blob_size_bytes = 15 * 1024 * 1024"

definition max_image_size_bytes :: nat where
  "max_image_size_bytes = 10 * 1024 * 1024"

definition allowed_file_signatures :: "(string \<times> bytes list) list" where
  "allowed_file_signatures =
    [(''pdf'', [[0x25, 0x50, 0x44, 0x46, 0x2D]]),
     (''zip'', [[0x50, 0x4B, 3, 4], [0x50, 0x4B, 5, 6], [0x50, 0x4B, 7, 8]]),
     (''rar'', [[0x52, 0x61, 0x72, 0x21, 0x1A, 7, 0], [0x52, 0x61, 0x72, 0x21, 0x1A, 7, 1, 0]]),
     (''docx'', [[0x50, 0x4B, 3, 4]]),
     (''xlsx'', [[0x50, 0x4B, 3, 4]]),
     (''pptx'', [[0x50, 0x4B, 3, 4]]),
     (''csv'', []),
     (''txt'', [])]"

definition allowed_image_signatures :: "(string \<times> bytes list) list" where
  "allowed_image_signatures =
    [(''png'', [[0x89, 0x50, 0x4E, 0x47, 0x0D, 0x0A, 0x1A, 0x0A]]),
     (''jpg'', [[0xFF, 0xD8, 0xFF]]),
     (''jpeg'', [[0xFF, 0xD8, 0xFF]]),
     (''gif'', [[0x47, 0x49, 0x46, 0x38, 0x37, 0x61], [0x47, 0x49, 0x46, 0x38, 0x39, 0x61]]),
     (''webp'', [[0x52, 0x49, 0x46, 0x46]])]"

record blob_upload =
  bu_name :: string
  bu_kind :: blob_kind
  bu_content :: bytes

definition blob_extension :: "string \<Rightarrow> string" where
  "blob_extension filename =
     (if CHR ''.'' \<in> set filename then py_lower (last (py_split (CHR ''.'') filename)) else [])"

definition size_exceeded :: detail where
  "size_exceeded = mk_detail FILE_SIZE_LIMIT_EXCEEDED None (Some (message_text MFileSizeLimitExceeded))"

definition extension_unsupported :: "string \<Rightarrow> detail" where
  "extension_unsupported ext = mk_detail UNSUPPORTED_FILE_FORMAT None
     (Some (''Extension .'' @ ext @ '' is not supported''))"

definition content_mismatch :: "string \<Rightarrow> detail" where
  "content_mismatch ext = mk_detail UNSUPPORTED_FILE_FORMAT None
     (Some (''File content does not match the .'' @ ext @ '' extension''))"

definition validate_signature :: "bytes \<Rightarrow> string \<Rightarrow> bool \<Rightarrow> unit result_detailed" where
  "validate_signature content filename is_image =
     (let allowed = (if is_image then allowed_image_signatures else allowed_file_signatures);
          extension = blob_extension filename
      in case map_of allowed extension of
           None \<Rightarrow> Err [extension_unsupported extension]
         | Some signatures \<Rightarrow>
             if signatures = [] then Ok ()
             else if list_ex (\<lambda>s. take (length s) content = s) signatures then Ok ()
             else Err [content_mismatch extension])"

definition upload_validator :: "blob_upload \<Rightarrow> unit result_detailed" where
  "upload_validator cmd =
     (let is_image = (bu_kind cmd = BK_IMAGE);
          max_size = (if is_image then max_image_size_bytes else max_blob_size_bytes)
      in if max_size < length (bu_content cmd) then Err [size_exceeded]
         else validate_signature (bu_content cmd) (bu_name cmd) is_image)"

section \<open>Storage (local\_blob\_storage.py)\<close>

record media =
  md_variant :: "nat \<Rightarrow> bytes \<Rightarrow> bytes option"
  md_disk_ok :: "string \<Rightarrow> bool"

record stored_blob =
  sb_path :: string
  sb_medium_path :: "string option"
  sb_thumbnail_path :: "string option"

text \<open>\<open>str(uuid)\<close>: 32 lower-case hexadecimal digits in groups of 8, 4, 4, 4 and 12.\<close>

definition hex_char :: "nat \<Rightarrow> char" where
  "hex_char d = (if d < 10 then char_of (48 + d) else char_of (87 + d))"

definition hex_digits :: "nat \<Rightarrow> nat \<Rightarrow> string" where
  "hex_digits k n = map (\<lambda>j. hex_char (n div 16 ^ j mod 16)) (rev [0..<k])"

definition uuid_str :: "uuid \<Rightarrow> string" where
  "uuid_str i = (let h = hex_digits 32 (unat i)
     in take 8 h @ ''-'' @ take 4 (drop 8 h) @ ''-'' @ take 4 (drop 12 h) @ ''-''
        @ take 4 (drop 16 h) @ ''-'' @ drop 20 h)"

definition put_file :: "string \<Rightarrow> bytes \<Rightarrow> world \<Rightarrow> world" where
  "put_file path content w =
     w\<lparr>w_files := (path, content) # filter (\<lambda>f. fst f \<noteq> path) (w_files w)\<rparr>"

definition write_file :: "media \<Rightarrow> string \<Rightarrow> string \<Rightarrow> bytes \<Rightarrow> string app" where
  "write_file M relative_dir filename content =
     (let path = relative_dir @ ''/'' @ filename
      in if md_disk_ok M path then py_bind (py_write (put_file path content)) (\<lambda>_. py_ret path)
         else py_raise (OtherError ''OSError''))"

definition image_medium_max_edge :: nat where
  "image_medium_max_edge = 1024"

definition image_thumbnail_max_edge :: nat where
  "image_thumbnail_max_edge = 256"

text \<open>One variant: any failure leaves it absent.\<close>

definition make_variant :: "media \<Rightarrow> bytes \<Rightarrow> string \<Rightarrow> string \<Rightarrow> string \<Rightarrow> nat \<Rightarrow> string option app" where
  "make_variant M content relative_dir stem variant max_edge =
     (case md_variant M max_edge content of
        None \<Rightarrow> py_ret None
      | Some webp \<Rightarrow> py_catch
          (py_bind (write_file M (relative_dir @ ''/'' @ variant) (stem @ ''.webp'') webp) (\<lambda>p. py_ret (Some p)))
          (\<lambda>_. py_ret None))"

definition store_blob :: "media \<Rightarrow> bytes \<Rightarrow> string \<Rightarrow> blob_kind \<Rightarrow> stored_blob app" where
  "store_blob M content name kind =
     (let extension = (if CHR ''.'' \<in> set name then py_lower (last (py_split (CHR ''.'') name)) else ''bin'')
      in py_bind uuid7 (\<lambda>i.
         let stem = uuid_str i; relative_dir = (if kind = BK_IMAGE then image_path else file_path)
         in py_bind (write_file M relative_dir (stem @ ''.'' @ extension) content) (\<lambda>original.
            if kind \<noteq> BK_IMAGE
            then py_ret \<lparr>sb_path = original, sb_medium_path = None, sb_thumbnail_path = None\<rparr>
            else py_bind (make_variant M content relative_dir stem ''medium'' image_medium_max_edge) (\<lambda>m.
                 py_bind (make_variant M content relative_dir stem ''thumbnail'' image_thumbnail_max_edge) (\<lambda>t.
                 py_ret \<lparr>sb_path = original, sb_medium_path = m, sb_thumbnail_path = t\<rparr>)))))"

definition strip_root :: "string \<Rightarrow> string" where
  "strip_root path = py_removeprefix (py_removeprefix path ''/'') ''media/''"

definition unlink :: "string \<Rightarrow> world \<Rightarrow> world" where
  "unlink path w = w\<lparr>w_files := filter (\<lambda>f. fst f \<noteq> path) (w_files w)\<rparr>"

definition delete_files :: "string list \<Rightarrow> unit app" where
  "delete_files paths = py_for paths (\<lambda>path.
     if path = [] then py_ret () else py_write (unlink (strip_root path)))"

section \<open>Repository (blob\_orm\_repository.py)\<close>

record blob_list_dto =
  bl_id :: uuid
  bl_name :: string
  bl_kind :: blob_kind
  bl_url :: string

record blob_detailed =
  bd_id :: uuid
  bd_name :: string
  bd_kind :: blob_kind
  bd_url :: string
  bd_size :: "int option"
  bd_content_type :: "string option"
  bd_extension :: string
  bd_medium_url :: "string option"
  bd_thumbnail_url :: "string option"

record blob_create =
  bc_name :: string
  bc_kind :: blob_kind
  bc_content_type :: "string option"
  bc_size :: int
  bc_path :: string
  bc_medium_path :: "string option"
  bc_thumbnail_path :: "string option"

definition blob_list_of :: "string \<Rightarrow> blob_row \<Rightarrow> blob_list_dto" where
  "blob_list_of base b = \<lparr>bl_id = b_id b, bl_name = b_name b, bl_kind = b_kind b,
     bl_url = make_media_full_url base (b_path b)\<rparr>"

definition blob_repo_create :: "string \<Rightarrow> blob_create \<Rightarrow> blob_list_dto app" where
  "blob_repo_create base dto = py_bind uuid7 (\<lambda>i.
     let obj = \<lparr>b_id = i, b_created_at = 0, b_updated_at = 0, b_created_by_id = None,
       b_updated_by_id = None, b_name = bc_name dto, b_kind = bc_kind dto,
       b_content_type = bc_content_type dto, b_size = Some (bc_size dto), b_path = bc_path dto,
       b_medium_path = bc_medium_path dto, b_thumbnail_path = bc_thumbnail_path dto\<rparr>
     in py_bind (py_write (\<lambda>w. w\<lparr>w_new_blobs := w_new_blobs w @ [obj]\<rparr>)) (\<lambda>_.
        py_bind flush (\<lambda>_. py_ret (blob_list_of base obj))))"

text \<open>Deleting a row sets the avatars that point at it to \<open>NULL\<close> (\<open>ON DELETE SET NULL\<close>).\<close>

definition drop_avatar :: "uuid \<Rightarrow> user_row \<Rightarrow> user_row" where
  "drop_avatar i u = (if u_avatar_id u = Some i then u\<lparr>u_avatar_id := None\<rparr> else u)"

definition remove_blob :: "uuid \<Rightarrow> db \<Rightarrow> db" where
  "remove_blob i d = d\<lparr>db_blobs := filter (\<lambda>b. b_id b \<noteq> i) (db_blobs d),
     db_users := map (drop_avatar i) (db_users d)\<rparr>"

definition blob_repo_delete :: "uuid \<Rightarrow> unit app" where
  "blob_repo_delete i = sql_write (remove_blob i)"

definition blob_exist_many :: "uuid list \<Rightarrow> bool app" where
  "blob_exist_many ids = (if ids = [] then py_ret True
     else py_bind (select_blobs (\<lambda>b. b_id b \<in> set ids)) (\<lambda>rows.
       py_ret (length rows = length (remdups ids))))"

definition blob_exist_by_id :: "uuid \<Rightarrow> bool app" where
  "blob_exist_by_id i = py_bind (select_blobs (\<lambda>b. b_id b = i)) (\<lambda>rows. py_ret (rows \<noteq> []))"

definition nonempty :: "string option \<Rightarrow> string list" where
  "nonempty p = (case p of None \<Rightarrow> [] | Some s \<Rightarrow> if s = [] then [] else [s])"

definition blob_paths :: "blob_row \<Rightarrow> string list" where
  "blob_paths b = nonempty (Some (b_path b)) @ nonempty (b_medium_path b) @ nonempty (b_thumbnail_path b)"

definition blob_get_paths :: "uuid \<Rightarrow> string list app" where
  "blob_get_paths i = py_bind (select_blobs (\<lambda>b. b_id b = i)) (\<lambda>rows.
     py_bind (one_or_none rows) (\<lambda>row.
     py_ret (case row of None \<Rightarrow> [] | Some b \<Rightarrow> blob_paths b)))"

definition blob_get_detailed :: "string \<Rightarrow> uuid \<Rightarrow> blob_detailed option app" where
  "blob_get_detailed base i = py_bind (select_blobs (\<lambda>b. b_id b = i)) (\<lambda>rows.
     py_bind (one_or_none rows) (\<lambda>x.
     py_ret (map_option (\<lambda>b. \<lparr>bd_id = b_id b, bd_name = b_name b, bd_kind = b_kind b,
       bd_url = make_media_full_url base (b_path b), bd_size = b_size b,
       bd_content_type = b_content_type b,
       bd_extension = (if CHR ''.'' \<in> set (b_name b) then last (py_split (CHR ''.'') (b_name b)) else []),
       bd_medium_url = media_url base (b_medium_path b),
       bd_thumbnail_url = media_url base (b_thumbnail_path b)\<rparr>) x)))"

definition blob_get_list :: "string \<Rightarrow> nat \<Rightarrow> nat \<Rightarrow> (nat \<times> blob_list_dto list) app" where
  "blob_get_list base limit offset = py_read (\<lambda>w.
     let rows = take limit (drop offset (sort_key (\<lambda>b. - b_created_at b) (db_blobs (w_work w))))
     in (length (db_blobs (w_work w)), map (blob_list_of base) rows))"

section \<open>Handlers (blob\_handlers.py)\<close>

definition stored_paths :: "stored_blob \<Rightarrow> string list" where
  "stored_paths s = nonempty (Some (sb_path s)) @ nonempty (sb_medium_path s) @ nonempty (sb_thumbnail_path s)"

definition upload_handler :: "media \<Rightarrow> string \<Rightarrow> blob_upload \<Rightarrow> blob_list_dto result_detailed app" where
  "upload_handler M base cmd =
     (case upload_validator cmd of
        Err e \<Rightarrow> py_ret (Err e)
      | Ok u \<Rightarrow>
          py_bind (store_blob M (bu_content cmd) (bu_name cmd) (bu_kind cmd)) (\<lambda>stored.
          with_uow (
            py_bind (py_catch
              (blob_repo_create base \<lparr>bc_name = bu_name cmd, bc_kind = bu_kind cmd,
                 bc_content_type = None, bc_size = int (length (bu_content cmd)),
                 bc_path = sb_path stored, bc_medium_path = sb_medium_path stored,
                 bc_thumbnail_path = sb_thumbnail_path stored\<rparr>)
              (\<lambda>e. py_bind (delete_files (stored_paths stored)) (\<lambda>_. py_raise e))) (\<lambda>data.
            py_ret (Ok data)))))"

definition blob_not_found :: detail where
  "blob_not_found = mk_detail OBJECT_NOT_FOUND None (Some (add_prefix MNotFound ''Blob''))"

definition delete_validator :: "uuid \<Rightarrow> unit result_detailed app" where
  "delete_validator i = py_bind (blob_exist_by_id i) (\<lambda>ex.
     py_ret (if ex then Ok () else Err [blob_not_found]))"

definition delete_handler :: "uuid \<Rightarrow> unit result_detailed app" where
  "delete_handler i = py_bind (delete_validator i) (\<lambda>v.
     case v of
       Err e \<Rightarrow> py_ret (Err e)
     | Ok u \<Rightarrow>
         py_bind (with_uow (
           py_bind (blob_get_paths i) (\<lambda>paths.
           py_bind (blob_repo_delete i) (\<lambda>_. py_ret paths)))) (\<lambda>paths.
         py_bind (delete_files paths) (\<lambda>_. py_ret (Ok ()))))"

definition blob_list_handler :: "string \<Rightarrow> nat \<Rightarrow> nat \<Rightarrow> (nat \<times> blob_list_dto list) app" where
  "blob_list_handler base limit offset = blob_get_list base limit offset"

definition blob_detailed_handler :: "string \<Rightarrow> uuid \<Rightarrow> blob_detailed result_detailed app" where
  "blob_detailed_handler base i = py_bind (blob_get_detailed base i) (\<lambda>found.
     py_ret (case found of None \<Rightarrow> Err [blob_not_found] | Some d \<Rightarrow> Ok d))"

end
