(* ===== verification/FilterSpecs.thy ===== *)
theory FilterSpecs
  imports Values
begin

text \<open>
  The declarations and the validation of the filter language (\<open>modules/filtering\<close>): the lookups
  (\<open>enums.py\<close>), \<open>FilterSpec\<close> with its factories (\<open>types.py\<close>) and \<open>FilterValidator\<close>
  (\<open>validator.py\<close>), with the reference predicate that says which values a specification admits.
\<close>

section \<open>Lookups and specifications (enums.py, types.py)\<close>

datatype lookup = L_EQ | L_GT | L_LT | L_GTE | L_LTE | L_IN | L_RANGE | L_SEARCH | L_JSON

fun lookup_value :: "lookup \<Rightarrow> string" where
  "lookup_value L_EQ = ''eq''"
| "lookup_value L_GT = ''gt''"
| "lookup_value L_LT = ''lt''"
| "lookup_value L_GTE = ''gte''"
| "lookup_value L_LTE = ''lte''"
| "lookup_value L_IN = ''in''"
| "lookup_value L_RANGE = ''rn''"
| "lookup_value L_SEARCH = ''search''"
| "lookup_value L_JSON = ''json''"

text \<open>
  The types a filter is declared over: Python's scalars, an enum with its members, the item model
  of a structured filter by its name and fields.
\<close>

datatype base_type =
    BT_Str
  | BT_Int
  | BT_Decimal
  | BT_Bool
  | BT_Date
  | BT_Datetime
  | BT_Enum string "pyval list"
  | BT_Model string "(string \<times> base_type) list"

text \<open>\<open>isinstance(v, base_type)\<close>: \<open>bool\<close> is an \<open>int\<close>, a \<open>datetime\<close> a \<open>date\<close>, an enum member its mixin.\<close>

fun py_isinstance :: "pyval \<Rightarrow> base_type \<Rightarrow> bool" where
  "py_isinstance (VStr s) t = (t = BT_Str)"
| "py_isinstance (VInt i) t = (t = BT_Int)"
| "py_isinstance (VBool b) t = (t = BT_Bool \<or> t = BT_Int)"
| "py_isinstance (VDec d) t = (t = BT_Decimal)"
| "py_isinstance (VDate d) t = (t = BT_Date)"
| "py_isinstance (VDatetime d) t = (t = BT_Datetime \<or> t = BT_Date)"
| "py_isinstance (VNaive d) t = (t = BT_Datetime \<or> t = BT_Date)"
| "py_isinstance (VEnum n v) t = ((case t of BT_Enum m ms \<Rightarrow> m = n \<and> VEnum n v \<in> set ms | _ \<Rightarrow> False)
     \<or> py_isinstance v t)"
| "py_isinstance (VDict d) t = (case t of BT_Model n fs \<Rightarrow> map fst d = map fst fs | _ \<Rightarrow> False)"
| "py_isinstance _ t = False"

record filter_spec =
  fs_base_type :: base_type
  fs_lookup :: lookup
  fs_field :: "string option"
  fs_required :: bool
  fs_both_required :: bool
  fs_gt :: "pyval option"
  fs_gte :: "pyval option"
  fs_lt :: "pyval option"
  fs_lte :: "pyval option"
  fs_min_length :: "int option"
  fs_max_length :: "int option"
  fs_choices :: "pyval list option"
  fs_description :: "string option"
  fs_unique :: bool

text \<open>The dataclass with its defaults.\<close>

definition mk_spec :: "base_type \<Rightarrow> lookup \<Rightarrow> string option \<Rightarrow> bool \<Rightarrow> string option \<Rightarrow> filter_spec" where
  "mk_spec bt lk fld req descr = \<lparr>fs_base_type = bt, fs_lookup = lk, fs_field = fld, fs_required = req,
     fs_both_required = False, fs_gt = None, fs_gte = None, fs_lt = None, fs_lte = None,
     fs_min_length = None, fs_max_length = None, fs_choices = None, fs_description = descr,
     fs_unique = True\<rparr>"

section \<open>Factories (types.py)\<close>

text \<open>
  \<open>Decimal(text)\<close> on numerals: an optional sign, digits with an optional point, an optional
  exponent, surrounded by blanks; underscores are ignored. The special values (infinities, NaN) are not numbers of the model.
\<close>

fun digits_value :: "nat \<Rightarrow> string \<Rightarrow> nat" where
  "digits_value acc [] = acc"
| "digits_value acc (c # cs) = digits_value (10 * acc + (of_char c - 48)) cs"

definition signed_text :: "string \<Rightarrow> bool \<times> string" where
  "signed_text s = (if py_startswith s ''-'' then (True, tl s)
     else if py_startswith s ''+'' then (False, tl s) else (False, s))"

definition exponent_of :: "string \<Rightarrow> int option" where
  "exponent_of s = (case signed_text s of (neg, ds) \<Rightarrow>
     if ds \<noteq> [] \<and> list_all py_digit ds
     then Some (if neg then - int (digits_value 0 ds) else int (digits_value 0 ds)) else None)"

definition scale10 :: "rat \<Rightarrow> int \<Rightarrow> rat" where
  "scale10 q e = (if 0 \<le> e then q * 10 ^ nat e else q / 10 ^ nat (- e))"

definition mantissa_of :: "string \<Rightarrow> rat option" where
  "mantissa_of s = (case py_split (CHR ''.'') s of
       [a] \<Rightarrow> if a \<noteq> [] \<and> list_all py_digit a then Some (of_nat (digits_value 0 a)) else None
     | [a, b] \<Rightarrow> if a @ b \<noteq> [] \<and> list_all py_digit (a @ b)
         then Some (of_nat (digits_value 0 (a @ b)) / 10 ^ length b) else None
     | _ \<Rightarrow> None)"

definition decimal_of_text :: "string \<Rightarrow> rat option" where
  "decimal_of_text raw = (case signed_text (filter (\<lambda>c. c \<noteq> CHR ''_'') (py_strip raw)) of (neg, s) \<Rightarrow>
     (case py_split (CHR ''e'') (py_lower s) of
        [m] \<Rightarrow> map_option (\<lambda>q. if neg then - q else q) (mantissa_of m)
      | [m, e] \<Rightarrow> (case (mantissa_of m, exponent_of e) of
            (Some q, Some x) \<Rightarrow> Some (scale10 (if neg then - q else q) x) | _ \<Rightarrow> None)
      | _ \<Rightarrow> None))"

fun decimal :: "pyval \<Rightarrow> (exn, pyval) outcome" where
  "decimal (VBool b) = Ret (VDec (if b then 1 else 0))"
| "decimal (VInt i) = Ret (VDec (of_int i))"
| "decimal (VDec q) = Ret (VDec q)"
| "decimal (VStr s) = (case decimal_of_text s of None \<Rightarrow> Raise InvalidOperation | Some q \<Rightarrow> Ret (VDec q))"
| "decimal (VEnum n v) = decimal v"
| "decimal v = Raise (TypeError ''conversion to Decimal is not supported'')"

definition to_decimal :: "pyval option \<Rightarrow> (exn, pyval option) outcome" where
  "to_decimal x = (case x of None \<Rightarrow> Ret None | Some v \<Rightarrow> oc_bind (decimal v) (\<lambda>d. Ret (Some d)))"

definition ensure_scalar_lookup :: "lookup \<Rightarrow> (exn, unit) outcome" where
  "ensure_scalar_lookup lk = (if lk \<in> {L_EQ, L_GT, L_LT, L_GTE, L_LTE} then Ret ()
     else Raise (ValueError ''not a scalar lookup''))"

text \<open>\<open>choices\<close>: a tuple of values or a whole enum; a tuple that holds \<open>None\<close> keeps it.\<close>

datatype choices_arg = ChoiceTuple "pyval list" | ChoiceEnum string "pyval list"

definition choice_decimal :: "pyval \<Rightarrow> (exn, pyval) outcome" where
  "choice_decimal c = (if c = VNone then Ret VNone else decimal c)"

definition parse_choices :: "choices_arg option \<Rightarrow> (exn, pyval list option) outcome" where
  "parse_choices ch = (case ch of
       None \<Rightarrow> Ret None
     | Some (ChoiceEnum n ms) \<Rightarrow> Ret (Some ms)
     | Some (ChoiceTuple cs) \<Rightarrow> oc_bind (oc_mapM choice_decimal cs) (\<lambda>ds. Ret (Some ds)))"

text \<open>The bounds of a comparable filter, in the order the factories take them.\<close>

record bounds =
  bd_gt :: "pyval option"
  bd_gte :: "pyval option"
  bd_lt :: "pyval option"
  bd_lte :: "pyval option"

definition no_bounds :: bounds where
  "no_bounds = \<lparr>bd_gt = None, bd_gte = None, bd_lt = None, bd_lte = None\<rparr>"

definition with_bounds :: "bounds \<Rightarrow> filter_spec \<Rightarrow> filter_spec" where
  "with_bounds b s = s\<lparr>fs_gt := bd_gt b, fs_gte := bd_gte b, fs_lt := bd_lt b, fs_lte := bd_lte b\<rparr>"

definition decimal_bounds :: "bounds \<Rightarrow> (exn, bounds) outcome" where
  "decimal_bounds b =
     oc_bind (to_decimal (bd_gt b)) (\<lambda>g. oc_bind (to_decimal (bd_gte b)) (\<lambda>ge.
     oc_bind (to_decimal (bd_lt b)) (\<lambda>l. oc_bind (to_decimal (bd_lte b)) (\<lambda>le.
     Ret \<lparr>bd_gt = g, bd_gte = ge, bd_lt = l, bd_lte = le\<rparr>))))"

definition spec_numeric :: "base_type \<Rightarrow> string option \<Rightarrow> lookup \<Rightarrow> bool \<Rightarrow> bounds \<Rightarrow> choices_arg option \<Rightarrow>
    string option \<Rightarrow> (exn, filter_spec) outcome" where
  "spec_numeric bt fld lk req b ch descr =
     oc_bind (ensure_scalar_lookup lk) (\<lambda>_. oc_bind (decimal_bounds b) (\<lambda>db.
     oc_bind (parse_choices ch) (\<lambda>cs.
     Ret ((with_bounds db (mk_spec bt lk fld req descr))\<lparr>fs_choices := cs\<rparr>))))"

definition spec_date :: "string option \<Rightarrow> lookup \<Rightarrow> bool \<Rightarrow> bounds \<Rightarrow> string option \<Rightarrow> (exn, filter_spec) outcome" where
  "spec_date fld lk req b descr = oc_bind (ensure_scalar_lookup lk) (\<lambda>_.
     Ret (with_bounds b (mk_spec BT_Date lk fld req descr)))"

definition spec_datetime :: "string option \<Rightarrow> lookup \<Rightarrow> bool \<Rightarrow> bounds \<Rightarrow> string option \<Rightarrow> (exn, filter_spec) outcome" where
  "spec_datetime fld lk req b descr = oc_bind (ensure_scalar_lookup lk) (\<lambda>_.
     Ret (with_bounds b (mk_spec BT_Datetime lk fld req descr)))"

definition spec_string :: "string option \<Rightarrow> bool \<Rightarrow> int option \<Rightarrow> int option \<Rightarrow> choices_arg option \<Rightarrow>
    string option \<Rightarrow> (exn, filter_spec) outcome" where
  "spec_string fld req mn mx ch descr = oc_bind (parse_choices ch) (\<lambda>cs.
     Ret ((mk_spec BT_Str L_EQ fld req descr)\<lparr>fs_min_length := mn, fs_max_length := mx, fs_choices := cs\<rparr>))"

text \<open>An empty tuple of choices is falsy: the whole enum is taken.\<close>

definition choices_given :: "choices_arg option \<Rightarrow> bool" where
  "choices_given ch = (case ch of None \<Rightarrow> False | Some (ChoiceTuple cs) \<Rightarrow> cs \<noteq> [] | Some (ChoiceEnum n ms) \<Rightarrow> True)"

definition spec_enum :: "string \<Rightarrow> pyval list \<Rightarrow> string option \<Rightarrow> bool \<Rightarrow> choices_arg option \<Rightarrow>
    string option \<Rightarrow> (exn, filter_spec) outcome" where
  "spec_enum name members fld req ch descr =
     oc_bind (if choices_given ch then parse_choices ch else Ret (Some members)) (\<lambda>cs.
     Ret ((mk_spec (BT_Enum name members) L_EQ fld req descr)\<lparr>fs_choices := cs\<rparr>))"

definition range_spec :: "base_type \<Rightarrow> string option \<Rightarrow> bool \<Rightarrow> bool \<Rightarrow> bounds \<Rightarrow> string option \<Rightarrow> filter_spec" where
  "range_spec bt fld req both b descr =
     (with_bounds b (mk_spec bt L_RANGE fld (req \<or> both) descr))\<lparr>fs_both_required := both\<rparr>"

definition spec_numeric_range :: "base_type \<Rightarrow> string option \<Rightarrow> bool \<Rightarrow> bool \<Rightarrow> bounds \<Rightarrow> string option \<Rightarrow>
    (exn, filter_spec) outcome" where
  "spec_numeric_range bt fld req both b descr =
     oc_bind (decimal_bounds b) (\<lambda>db. Ret (range_spec bt fld req both db descr))"

definition spec_date_range :: "string option \<Rightarrow> bool \<Rightarrow> bool \<Rightarrow> bounds \<Rightarrow> string option \<Rightarrow> filter_spec" where
  "spec_date_range fld req both b descr = range_spec BT_Date fld req both b descr"

definition spec_datetime_range :: "string option \<Rightarrow> bool \<Rightarrow> bool \<Rightarrow> bounds \<Rightarrow> string option \<Rightarrow> filter_spec" where
  "spec_datetime_range fld req both b descr = range_spec BT_Datetime fld req both b descr"

definition spec_boolean :: "bool \<Rightarrow> string option \<Rightarrow> filter_spec" where
  "spec_boolean req descr =
     (mk_spec BT_Bool L_EQ None req descr)\<lparr>fs_choices := Some [VStr ''true'', VStr ''false'']\<rparr>"

definition spec_json :: "base_type \<Rightarrow> string option \<Rightarrow> bool \<Rightarrow> int option \<Rightarrow> string option \<Rightarrow> filter_spec" where
  "spec_json bt fld req mx descr = (mk_spec bt L_JSON fld req descr)\<lparr>fs_max_length := mx\<rparr>"

text \<open>
  \<open>collection\<close>: what \<open>choices\<close> parses to is overwritten; a \<open>base_type\<close>, being a class, is never an
  instance of \<open>Enum\<close>, so the second assignment is always the one to \<open>None\<close>.
\<close>

definition spec_collection :: "base_type \<Rightarrow> lookup \<Rightarrow> bool \<Rightarrow> string option \<Rightarrow> choices_arg option \<Rightarrow> bool \<Rightarrow>
    (exn, filter_spec) outcome" where
  "spec_collection bt lk req descr ch uniq =
     (if lk \<noteq> L_IN then Raise (RuntimeError ''Invalid lookup for collection filter'')
      else oc_bind (if choices_given ch then parse_choices ch else Ret None) (\<lambda>_.
        Ret ((mk_spec bt lk None req descr)\<lparr>fs_choices := None, fs_unique := uniq\<rparr>)))"

section \<open>Details (validator.py)\<close>

definition lookup_member :: "lookup \<Rightarrow> pyval" where
  "lookup_member lk = VEnum ''FilterLookupEnum'' (VStr (lookup_value lk))"

definition query_params_loc :: "string \<times> pyval" where
  "query_params_loc = (''location'', VEnum ''AppExceptionLocationEnum'' (VStr ''query_params''))"

definition required_detail :: "filter_spec \<Rightarrow> detail" where
  "required_detail s = (mk_detail REQUIRED_FILTER (fs_field s) (Some (message_text MRequiredValue)))
     \<lparr>d_payload := [(''lookup'', lookup_member (fs_lookup s)), query_params_loc]\<rparr>"

definition invalid_with :: "filter_spec \<Rightarrow> (string \<times> pyval) list \<Rightarrow> detail" where
  "invalid_with s p = (mk_detail INVALID_VALUE (fs_field s) (Some (message_text MInvalidValue)))\<lparr>d_payload := p\<rparr>"

definition invalid_value_detail :: "filter_spec \<Rightarrow> detail" where
  "invalid_value_detail s = invalid_with s [query_params_loc]"

definition bound_detail :: "filter_spec \<Rightarrow> string \<Rightarrow> pyval \<Rightarrow> detail" where
  "bound_detail s bound v = invalid_with s [(''ranges'', VDict [(bound, v)])]"

definition range_order_detail :: "filter_spec \<Rightarrow> pyval \<Rightarrow> pyval \<Rightarrow> detail" where
  "range_order_detail s low high = invalid_with s [(''ranges'', VDict [(''low'', low), (''high'', high)])]"

definition opt_int :: "int option \<Rightarrow> pyval" where
  "opt_int x = (case x of None \<Rightarrow> VNone | Some i \<Rightarrow> VInt i)"

definition length_detail :: "filter_spec \<Rightarrow> detail" where
  "length_detail s = invalid_with s [query_params_loc,
     (''ranges'', VDict [(''min_length'', opt_int (fs_min_length s)), (''max_length'', opt_int (fs_max_length s))])]"

definition enum_value :: "pyval \<Rightarrow> pyval" where
  "enum_value c = (case c of VEnum n v \<Rightarrow> v | _ \<Rightarrow> c)"

definition choices_detail :: "filter_spec \<Rightarrow> pyval list \<Rightarrow> detail" where
  "choices_detail s cs = invalid_with s [query_params_loc, (''values'', VList (map enum_value cs))]"

text \<open>The payload is the Python set of the duplicated values; here in the order they were found.\<close>

definition duplicate_detail :: "filter_spec \<Rightarrow> pyval list \<Rightarrow> detail" where
  "duplicate_detail s dups = (mk_detail DUPLICATED (fs_field s) (Some (message_text MDuplicatedFilterValue)))
     \<lparr>d_payload := [query_params_loc, (''values'', VList dups)]\<rparr>"

section \<open>Constraint checks (validator.py)\<close>

definition check_bound :: "filter_spec \<Rightarrow> string \<Rightarrow> (pyval \<Rightarrow> (exn, bool) outcome) \<Rightarrow> pyval option \<Rightarrow>
    (exn, detail list) outcome" where
  "check_bound s name test bound = (case bound of None \<Rightarrow> Ret []
     | Some b \<Rightarrow> oc_bind (test b) (\<lambda>ok. Ret (if ok then [] else [bound_detail s name b])))"

definition validate_bounds :: "filter_spec \<Rightarrow> pyval \<Rightarrow> (exn, detail list) outcome" where
  "validate_bounds s v =
     oc_bind (check_bound s ''gt'' (\<lambda>b. py_less b v) (fs_gt s)) (\<lambda>a.
     oc_bind (check_bound s ''gte'' (\<lambda>b. py_less_eq b v) (fs_gte s)) (\<lambda>b.
     oc_bind (check_bound s ''lt'' (\<lambda>b. py_less v b) (fs_lt s)) (\<lambda>c.
     oc_bind (check_bound s ''lte'' (\<lambda>b. py_less_eq v b) (fs_lte s)) (\<lambda>d.
     Ret (a @ b @ c @ d)))))"

fun py_len :: "pyval \<Rightarrow> (exn, int) outcome" where
  "py_len (VStr s) = Ret (int (length s))"
| "py_len (VBytes b) = Ret (int (length b))"
| "py_len (VList xs) = Ret (int (length xs))"
| "py_len (VTuple xs) = Ret (int (length xs))"
| "py_len (VDict d) = Ret (int (length d))"
| "py_len (VEnum n v) = py_len v"
| "py_len _ = Raise (TypeError ''object has no len()'')"

definition length_fits :: "filter_spec \<Rightarrow> int \<Rightarrow> bool" where
  "length_fits s n \<longleftrightarrow> (case fs_min_length s of None \<Rightarrow> True | Some m \<Rightarrow> m \<le> n)
     \<and> (case fs_max_length s of None \<Rightarrow> True | Some m \<Rightarrow> n \<le> m)"

definition validate_length :: "filter_spec \<Rightarrow> pyval \<Rightarrow> (exn, detail list) outcome" where
  "validate_length s v =
     (if fs_min_length s = None \<and> fs_max_length s = None then Ret []
      else oc_bind (py_len v) (\<lambda>n. Ret (if length_fits s n then [] else [length_detail s])))"

definition validate_choices :: "filter_spec \<Rightarrow> pyval \<Rightarrow> detail list" where
  "validate_choices s v = (case fs_choices s of None \<Rightarrow> []
     | Some cs \<Rightarrow> if list_ex (py_equal v) cs then [] else [choices_detail s cs])"

text \<open>\<open>if details: raise\<close>\<close>

definition raise_details :: "detail list \<Rightarrow> (exn, unit) outcome" where
  "raise_details ds = (if ds = [] then Ret () else Raise (AppException (from_details ds)))"

section \<open>Validation by lookup (validator.py)\<close>

definition absent :: "filter_spec \<Rightarrow> (exn, unit) outcome" where
  "absent s = (if fs_required s then raise_details [required_detail s] else Ret ())"

definition validate_scalar :: "filter_spec \<Rightarrow> pyval \<Rightarrow> (exn, unit) outcome" where
  "validate_scalar s v =
     (if v = VNone then absent s
      else oc_bind (validate_bounds s v) (\<lambda>b. oc_bind (validate_length s v) (\<lambda>l.
        raise_details (b @ l @ validate_choices s v))))"

text \<open>The items of a tuple or a list; anything else is not a sequence here.\<close>

fun seq_items :: "pyval \<Rightarrow> pyval list option" where
  "seq_items (VTuple xs) = Some xs"
| "seq_items (VList xs) = Some xs"
| "seq_items _ = None"

definition check_endpoint :: "filter_spec \<Rightarrow> pyval \<Rightarrow> (exn, detail list) outcome" where
  "check_endpoint s v = (if v = VNone then Ret []
     else oc_bind (validate_bounds s v) (\<lambda>b. Ret (b @ validate_choices s v)))"

definition order_details :: "filter_spec \<Rightarrow> pyval \<Rightarrow> pyval \<Rightarrow> (exn, detail list) outcome" where
  "order_details s low high = (if low = VNone \<or> high = VNone then Ret []
     else oc_bind (py_less high low) (\<lambda>wrong. Ret (if wrong then [range_order_detail s low high] else [])))"

definition validate_range :: "filter_spec \<Rightarrow> pyval \<Rightarrow> (exn, unit) outcome" where
  "validate_range s v =
     (if v = VNone then absent s
      else (case seq_items v of
          Some [low, high] \<Rightarrow>
            if low = VNone \<and> high = VNone
            then Raise (ValueError ''Range filter requires at least one boundary.'')
            else if (low = VNone \<or> high = VNone) \<and> fs_both_required s
            then raise_details [required_detail s]
            else oc_bind (order_details s low high) (\<lambda>a.
              oc_bind (check_endpoint s low) (\<lambda>b. oc_bind (check_endpoint s high) (\<lambda>c.
              raise_details (a @ b @ c))))
        | _ \<Rightarrow> raise_details [invalid_value_detail s]))"

text \<open>What a set can hold: lists, dicts and the items of a structured filter (pydantic models) have no hash.\<close>

fun hashable :: "pyval \<Rightarrow> bool" where
  "hashable (VList xs) = False"
| "hashable (VDict d) = False"
| "hashable (VTuple xs) = list_all hashable xs"
| "hashable _ = True"

text \<open>The loop over a collection: the details, the values seen and the duplicates.\<close>

fun collect_items :: "filter_spec \<Rightarrow> pyval list \<Rightarrow> pyval list \<Rightarrow> pyval list \<Rightarrow> detail list \<Rightarrow>
    (exn, detail list \<times> pyval list) outcome" where
  "collect_items s [] seen dups ds = Ret (ds, dups)"
| "collect_items s (v # vs) seen dups ds =
     oc_bind (validate_bounds s v) (\<lambda>b.
       if \<not> hashable v then Raise (TypeError ''unhashable type'')
       else if list_ex (py_equal v) seen
       then collect_items s vs seen (if list_ex (py_equal v) dups then dups else dups @ [v])
         (ds @ b @ validate_choices s v)
       else collect_items s vs (seen @ [v]) dups (ds @ b @ validate_choices s v))"

definition validate_collection :: "filter_spec \<Rightarrow> pyval \<Rightarrow> (exn, unit) outcome" where
  "validate_collection s v =
     (if v = VNone then absent s
      else (case seq_items v of
          None \<Rightarrow> raise_details [invalid_value_detail s]
        | Some vs \<Rightarrow>
            if list_all (\<lambda>x. x = VNone) vs then absent s
            else if list_ex (\<lambda>x. x = VNone) vs then raise_details [invalid_value_detail s]
            else if list_ex (\<lambda>x. \<not> py_isinstance x (fs_base_type s)) vs
            then raise_details [invalid_value_detail s]
            else oc_bind (collect_items s vs [] [] []) (\<lambda>(ds, dups).
              raise_details (ds @ (if dups = [] then [] else [duplicate_detail s dups])))))"

definition validate_json :: "filter_spec \<Rightarrow> pyval \<Rightarrow> (exn, unit) outcome" where
  "validate_json s v =
     (if v = VNone \<or> seq_items v = Some [] then absent s
      else if seq_items v = None then raise_details [invalid_value_detail s]
      else oc_bind (validate_length s v) raise_details)"

definition validate :: "filter_spec \<Rightarrow> pyval \<Rightarrow> (exn, unit) outcome" where
  "validate s v =
     (if fs_field s = None then Raise (RuntimeError ''FilterSpec.field must be set before validation'')
      else if fs_lookup s = L_EQ then validate_scalar s v
      else if fs_lookup s = L_RANGE then validate_range s v
      else if fs_lookup s = L_IN then validate_collection s v
      else if fs_lookup s = L_JSON then validate_json s v
      else Raise (RuntimeError ''Undefined filter lookup type''))"

end
