(* ===== verification/FilterAccepts.thy ===== *)
theory FilterAccepts
  imports FilterSpecs
begin

text \<open>
  What a filter specification means, stated without the validator, and the proof that the
  validator decides exactly that; which specifications the factories build.
\<close>

section \<open>Typed values\<close>

text \<open>The values the schema of a base type produces.\<close>

fun of_type :: "base_type \<Rightarrow> pyval \<Rightarrow> bool" where
  "of_type t (VStr s) = (t = BT_Str)"
| "of_type t (VInt i) = (t = BT_Int)"
| "of_type t (VDec d) = (t = BT_Decimal)"
| "of_type t (VBool b) = (t = BT_Bool)"
| "of_type t (VDate d) = (t = BT_Date)"
| "of_type t (VDatetime d) = (t = BT_Datetime)"
| "of_type t (VNaive d) = (t = BT_Datetime)"
| "of_type t (VEnum n v) = (case t of BT_Enum m ms \<Rightarrow> m = n \<and> VEnum n v \<in> set ms | _ \<Rightarrow> False)"
| "of_type t (VDict d) = (case t of BT_Model n fs \<Rightarrow> map fst d = map fst fs | _ \<Rightarrow> False)"
| "of_type t _ = False"

text \<open>
  The items of a range, a collection and a JSON filter go through \<open>ATDatetime\<close>, which leaves no naive
  datetime; the schema of a scalar filter is the one of its type.
\<close>

definition item_type :: "base_type \<Rightarrow> pyval \<Rightarrow> bool" where
  "item_type t x \<longleftrightarrow> of_type t x \<and> (case x of VNaive d \<Rightarrow> False | _ \<Rightarrow> True)"

text \<open>What the pipeline hands to the validator, by lookup.\<close>

definition typed_value :: "filter_spec \<Rightarrow> pyval \<Rightarrow> bool" where
  "typed_value s v \<longleftrightarrow> v = VNone \<or>
     (case fs_lookup s of
        L_RANGE \<Rightarrow> (case v of VTuple [a, b] \<Rightarrow> (a = VNone \<or> item_type (fs_base_type s) a)
            \<and> (b = VNone \<or> item_type (fs_base_type s) b) | _ \<Rightarrow> False)
      | L_IN \<Rightarrow> (case v of VTuple xs \<Rightarrow> list_all (\<lambda>x. x = VNone \<or> item_type (fs_base_type s) x) xs | _ \<Rightarrow> False)
      | L_JSON \<Rightarrow> (case v of VTuple xs \<Rightarrow> list_all (item_type (fs_base_type s)) xs | _ \<Rightarrow> False)
      | _ \<Rightarrow> of_type (fs_base_type s) v)"

text \<open>
  A bound of the type, where the type has an order: a value to which every value of the type
  compares, but for datetimes, where a naive and an aware one do not.
\<close>

fun bounds_type :: "base_type \<Rightarrow> pyval \<Rightarrow> bool" where
  "bounds_type BT_Str b = (\<exists>s. cmp_key b = Some (KStr s))"
| "bounds_type BT_Int b = (\<exists>q. cmp_key b = Some (KNum q))"
| "bounds_type BT_Decimal b = (\<exists>q. cmp_key b = Some (KNum q))"
| "bounds_type BT_Bool b = (\<exists>q. cmp_key b = Some (KNum q))"
| "bounds_type BT_Date b = (\<exists>d. cmp_key b = Some (KDate d))"
| "bounds_type BT_Datetime b = (\<exists>t. cmp_key b = Some (KDatetime t) \<or> cmp_key b = Some (KNaive t))"
| "bounds_type (BT_Enum n ms) b = False"
| "bounds_type (BT_Model n fs) b = False"

fun ordered_type :: "base_type \<Rightarrow> bool" where
  "ordered_type (BT_Enum n ms) = False"
| "ordered_type (BT_Model n fs) = False"
| "ordered_type _ = True"

definition bound_ok :: "base_type \<Rightarrow> pyval option \<Rightarrow> bool" where
  "bound_ok t x \<longleftrightarrow> (case x of None \<Rightarrow> True | Some b \<Rightarrow> bounds_type t b)"

text \<open>A well-formed specification: the field is set, bounds and lengths fit the type and the lookup.\<close>

definition spec_ok :: "filter_spec \<Rightarrow> bool" where
  "spec_ok s \<longleftrightarrow> fs_field s \<noteq> None \<and> fs_lookup s \<in> {L_EQ, L_RANGE, L_IN, L_JSON}
     \<and> bound_ok (fs_base_type s) (fs_gt s) \<and> bound_ok (fs_base_type s) (fs_gte s)
     \<and> bound_ok (fs_base_type s) (fs_lt s) \<and> bound_ok (fs_base_type s) (fs_lte s)
     \<and> (fs_lookup s = L_RANGE \<longrightarrow> ordered_type (fs_base_type s))
     \<and> (fs_lookup s = L_EQ \<longrightarrow> fs_base_type s = BT_Str \<or> (fs_min_length s = None \<and> fs_max_length s = None))"

section \<open>The reference predicate\<close>

definition in_bounds :: "filter_spec \<Rightarrow> pyval \<Rightarrow> bool" where
  "in_bounds s x \<longleftrightarrow>
     (case fs_gt s of None \<Rightarrow> True | Some b \<Rightarrow> val_less b x)
     \<and> (case fs_gte s of None \<Rightarrow> True | Some b \<Rightarrow> val_le b x)
     \<and> (case fs_lt s of None \<Rightarrow> True | Some b \<Rightarrow> val_less x b)
     \<and> (case fs_lte s of None \<Rightarrow> True | Some b \<Rightarrow> val_le x b)"

definition chosen :: "filter_spec \<Rightarrow> pyval \<Rightarrow> bool" where
  "chosen s x \<longleftrightarrow> (case fs_choices s of None \<Rightarrow> True | Some cs \<Rightarrow> \<exists>c \<in> set cs. py_equal x c)"

definition allowed :: "filter_spec \<Rightarrow> pyval \<Rightarrow> bool" where
  "allowed s x \<longleftrightarrow> in_bounds s x \<and> chosen s x"

definition length_ok :: "filter_spec \<Rightarrow> pyval \<Rightarrow> bool" where
  "length_ok s x \<longleftrightarrow> (case x of VStr t \<Rightarrow> length_fits s (int (length t))
     | VTuple xs \<Rightarrow> length_fits s (int (length xs)) | _ \<Rightarrow> True)"

text \<open>No two values of the list are equal for Python.\<close>

fun all_different :: "pyval list \<Rightarrow> bool" where
  "all_different [] = True"
| "all_different (v # vs) = (list_all (\<lambda>x. \<not> py_equal v x) vs \<and> all_different vs)"

definition given :: "filter_spec \<Rightarrow> pyval \<Rightarrow> bool" where
  "given s v \<longleftrightarrow> v \<noteq> VNone \<and>
     (case fs_lookup s of
        L_IN \<Rightarrow> (case v of VTuple xs \<Rightarrow> \<not> list_all (\<lambda>x. x = VNone) xs | _ \<Rightarrow> True)
      | L_JSON \<Rightarrow> v \<noteq> VTuple []
      | _ \<Rightarrow> True)"

definition admits :: "filter_spec \<Rightarrow> pyval \<Rightarrow> bool" where
  "admits s v \<longleftrightarrow>
     (if \<not> given s v then \<not> fs_required s
      else (case fs_lookup s of
          L_RANGE \<Rightarrow> (case v of VTuple [a, b] \<Rightarrow>
              (a \<noteq> VNone \<or> b \<noteq> VNone) \<and> (fs_both_required s \<longrightarrow> a \<noteq> VNone \<and> b \<noteq> VNone)
              \<and> (a \<noteq> VNone \<longrightarrow> b \<noteq> VNone \<longrightarrow> val_le a b)
              \<and> (a \<noteq> VNone \<longrightarrow> allowed s a) \<and> (b \<noteq> VNone \<longrightarrow> allowed s b) | _ \<Rightarrow> False)
        | L_IN \<Rightarrow> (case v of VTuple xs \<Rightarrow> VNone \<notin> set xs \<and> list_all (allowed s) xs \<and> all_different xs | _ \<Rightarrow> False)
        | L_JSON \<Rightarrow> length_ok s v
        | _ \<Rightarrow> allowed s v \<and> length_ok s v))"

text \<open>
  A given value that is compared with a bound it has no order with, or put into a set though it has
  no hash. A scalar datetime filter with an aware bound and a naive value is such a case.
\<close>

definition clear_of_bounds :: "filter_spec \<Rightarrow> pyval \<Rightarrow> bool" where
  "clear_of_bounds s x \<longleftrightarrow>
     (\<forall>b \<in> {fs_gt s, fs_gte s, fs_lt s, fs_lte s}. case b of None \<Rightarrow> True | Some y \<Rightarrow> comparable x y)"

definition crashes :: "filter_spec \<Rightarrow> pyval \<Rightarrow> bool" where
  "crashes s v \<longleftrightarrow> given s v \<and>
     (case fs_lookup s of
        L_RANGE \<Rightarrow> (case v of VTuple [a, b] \<Rightarrow>
            \<not> (fs_both_required s \<and> (a = VNone \<or> b = VNone))
            \<and> (a \<noteq> VNone \<and> \<not> clear_of_bounds s a \<or> b \<noteq> VNone \<and> \<not> clear_of_bounds s b) | _ \<Rightarrow> False)
      | L_IN \<Rightarrow> (case v of VTuple xs \<Rightarrow> VNone \<notin> set xs
            \<and> list_ex (\<lambda>x. \<not> clear_of_bounds s x \<or> \<not> hashable x) xs | _ \<Rightarrow> False)
      | L_JSON \<Rightarrow> False
      | _ \<Rightarrow> \<not> clear_of_bounds s v)"

definition empty_range :: "filter_spec \<Rightarrow> pyval \<Rightarrow> bool" where
  "empty_range s v \<longleftrightarrow> fs_lookup s = L_RANGE \<and> v = VTuple [VNone, VNone]"

text \<open>A refusal names the field in every detail.\<close>

definition refusal :: "filter_spec \<Rightarrow> (exn, unit) outcome \<Rightarrow> bool" where
  "refusal s r \<longleftrightarrow> (\<exists>ds. r = Raise (AppException (from_details ds)) \<and> ds \<noteq> []
     \<and> (\<forall>d \<in> set ds. d_field d = fs_field s \<and> d_status d \<in> {REQUIRED_FILTER, INVALID_VALUE, DUPLICATED}))"

section \<open>Lemmas\<close>

named_theorems filter_simps \<open>the validator on typed values\<close>

lemma of_type_key: "of_type t x \<Longrightarrow> ordered_type t \<Longrightarrow> bounds_type t x"
  by (cases x) (auto split: base_type.splits)

lemma bounds_type_comparable: "bounds_type t a \<Longrightarrow> bounds_type t b \<Longrightarrow> t \<noteq> BT_Datetime \<Longrightarrow> comparable a b"
  by (cases t) (auto simp: comparable_def)

lemma bounds_type_ordered: "bounds_type t b \<Longrightarrow> ordered_type t"
  by (cases t) simp_all

lemma of_type_comparable: "of_type t x \<Longrightarrow> bounds_type t b \<Longrightarrow> t \<noteq> BT_Datetime \<Longrightarrow> comparable x b"
  by (meson bounds_type_comparable bounds_type_ordered of_type_key)

lemma item_type_of: "item_type t x \<Longrightarrow> of_type t x"
  by (simp add: item_type_def)

lemma item_type_datetime: "item_type BT_Datetime x \<Longrightarrow> \<exists>d. x = VDatetime d"
  by (cases x) (auto simp: item_type_def)

lemma item_type_ordered:
  assumes "item_type t x" "item_type t y" "ordered_type t"
  shows "comparable x y"
proof (cases "t = BT_Datetime")
  case True
  then show ?thesis using assms(1,2) by (auto dest!: item_type_datetime simp: comparable_def)
next
  case False
  then show ?thesis
    using bounds_type_comparable of_type_key [OF item_type_of assms(3)] assms(1,2) by blast
qed

lemma item_type_not_None [simp]: "\<not> item_type t VNone"
  by (simp add: item_type_def)

lemma clear_typed: "spec_ok s \<Longrightarrow> of_type (fs_base_type s) x \<Longrightarrow> fs_base_type s \<noteq> BT_Datetime \<Longrightarrow> clear_of_bounds s x"
  by (auto simp: clear_of_bounds_def spec_ok_def bound_ok_def of_type_comparable split: option.splits)

lemma of_type_isinstance: "of_type t x \<Longrightarrow> py_isinstance x t"
  by (cases x) auto

lemma of_type_not_None [simp]: "\<not> of_type t VNone"
  by simp

lemma raise_details_cases: "raise_details ds = (if ds = [] then Ret () else Raise (AppException (from_details ds)))"
  by (simp add: raise_details_def)

definition about_field :: "filter_spec \<Rightarrow> detail list \<Rightarrow> bool" where
  "about_field s ds \<longleftrightarrow> (\<forall>d \<in> set ds. d_field d = fs_field s \<and> d_status d \<in> {REQUIRED_FILTER, INVALID_VALUE, DUPLICATED})"

lemmas detail_defs = required_detail_def invalid_with_def invalid_value_detail_def bound_detail_def
  range_order_detail_def length_detail_def choices_detail_def duplicate_detail_def mk_detail_def

lemma about_field_simps [simp]:
  "about_field s []" "about_field s (a @ b) \<longleftrightarrow> about_field s a \<and> about_field s b"
  by (auto simp: about_field_def)

lemma about_details [simp]:
  "about_field s [required_detail s]" "about_field s [invalid_value_detail s]"
  "about_field s [bound_detail s n v]" "about_field s [range_order_detail s v w]"
  "about_field s [length_detail s]" "about_field s [choices_detail s cs]" "about_field s [duplicate_detail s cs]"
  by (simp_all add: about_field_def detail_defs)

lemma raise_refusal: "about_field s ds \<Longrightarrow> ds \<noteq> [] \<Longrightarrow> refusal s (raise_details ds)"
  unfolding refusal_def about_field_def raise_details_def by auto

lemma check_bound_typed:
  assumes "\<And>b. x = Some b \<Longrightarrow> test b = Ret (P b)"
  shows "\<exists>ds. check_bound s n test x = Ret ds \<and> about_field s ds \<and> (ds = [] \<longleftrightarrow> (case x of None \<Rightarrow> True | Some b \<Rightarrow> P b))"
  using assms by (cases x) (simp_all add: check_bound_def)

lemma validate_bounds_typed:
  assumes "clear_of_bounds s x"
  shows "\<exists>ds. validate_bounds s x = Ret ds \<and> about_field s ds \<and> (ds = [] \<longleftrightarrow> in_bounds s x)"
proof -
  have t: "comparable x b" "comparable b x"
    if "fs_gt s = Some b \<or> fs_gte s = Some b \<or> fs_lt s = Some b \<or> fs_lte s = Some b" for b
    using assms that by (auto simp: clear_of_bounds_def comparable_sym)
  obtain a where a: "check_bound s ''gt'' (\<lambda>b. py_less b x) (fs_gt s) = Ret a" "about_field s a"
      "a = [] \<longleftrightarrow> (case fs_gt s of None \<Rightarrow> True | Some b \<Rightarrow> val_less b x)"
    using check_bound_typed [of "fs_gt s" "\<lambda>b. py_less b x" "\<lambda>b. val_less b x" s "''gt''"] t by (auto simp: py_less_val)
  obtain b where b: "check_bound s ''gte'' (\<lambda>b. py_less_eq b x) (fs_gte s) = Ret b" "about_field s b"
      "b = [] \<longleftrightarrow> (case fs_gte s of None \<Rightarrow> True | Some b \<Rightarrow> val_le b x)"
    using check_bound_typed [of "fs_gte s" "\<lambda>b. py_less_eq b x" "\<lambda>b. val_le b x" s "''gte''"] t by (auto simp: py_less_eq_val)
  obtain d where d: "check_bound s ''lt'' (\<lambda>b. py_less x b) (fs_lt s) = Ret d" "about_field s d"
      "d = [] \<longleftrightarrow> (case fs_lt s of None \<Rightarrow> True | Some b \<Rightarrow> val_less x b)"
    using check_bound_typed [of "fs_lt s" "\<lambda>b. py_less x b" "\<lambda>b. val_less x b" s "''lt''"] t by (auto simp: py_less_val)
  obtain e where e: "check_bound s ''lte'' (\<lambda>b. py_less_eq x b) (fs_lte s) = Ret e" "about_field s e"
      "e = [] \<longleftrightarrow> (case fs_lte s of None \<Rightarrow> True | Some b \<Rightarrow> val_le x b)"
    using check_bound_typed [of "fs_lte s" "\<lambda>b. py_less_eq x b" "\<lambda>b. val_le x b" s "''lte''"] t by (auto simp: py_less_eq_val)
  show ?thesis using a b d e by (simp add: validate_bounds_def in_bounds_def)
qed

lemma check_bound_clash:
  assumes "\<And>b. test b = Ret (P b) \<or> test b = Raise (TypeError ''not supported'')"
  shows "(\<exists>ds. check_bound s n test x = Ret ds) \<or> check_bound s n test x = Raise (TypeError ''not supported'')"
proof (cases x)
  case (Some b)
  then show ?thesis using assms [of b] by (auto simp: check_bound_def)
qed (simp add: check_bound_def)

lemma py_less_or: "py_less a b = Ret (val_less a b) \<or> py_less a b = Raise (TypeError ''not supported'')"
  "py_less_eq a b = Ret (val_le a b) \<or> py_less_eq a b = Raise (TypeError ''not supported'')"
  by (cases "comparable a b"; simp add: py_less_val py_less_eq_val py_less_clash py_less_eq_clash)+

lemma validate_bounds_clash:
  assumes "\<not> clear_of_bounds s x"
  shows "validate_bounds s x = Raise (TypeError ''not supported'')"
proof -
  have c: "(\<exists>ds. check_bound s ''gt'' (\<lambda>b. py_less b x) (fs_gt s) = Ret ds)
      \<or> check_bound s ''gt'' (\<lambda>b. py_less b x) (fs_gt s) = Raise (TypeError ''not supported'')"
    "(\<exists>ds. check_bound s ''gte'' (\<lambda>b. py_less_eq b x) (fs_gte s) = Ret ds)
      \<or> check_bound s ''gte'' (\<lambda>b. py_less_eq b x) (fs_gte s) = Raise (TypeError ''not supported'')"
    "(\<exists>ds. check_bound s ''lt'' (\<lambda>b. py_less x b) (fs_lt s) = Ret ds)
      \<or> check_bound s ''lt'' (\<lambda>b. py_less x b) (fs_lt s) = Raise (TypeError ''not supported'')"
    "(\<exists>ds. check_bound s ''lte'' (\<lambda>b. py_less_eq x b) (fs_lte s) = Ret ds)
      \<or> check_bound s ''lte'' (\<lambda>b. py_less_eq x b) (fs_lte s) = Raise (TypeError ''not supported'')"
    by (rule check_bound_clash; rule py_less_or)+
  have n: "check_bound s n test (Some b) = Raise e" if "test b = Raise e" for n test b and e :: exn
    using that by (simp add: check_bound_def)
  obtain b where b: "\<not> comparable x b" "\<not> comparable b x"
      "fs_gt s = Some b \<or> fs_gte s = Some b \<or> fs_lt s = Some b \<or> fs_lte s = Some b"
    using assms by (auto simp: clear_of_bounds_def dest: comparable_sym split: option.splits)
  note e = py_less_clash [OF b(1)] py_less_clash [OF b(2)] py_less_eq_clash [OF b(1)] py_less_eq_clash [OF b(2)]
  show ?thesis
    using b(3) c by (elim disjE exE) (simp_all add: validate_bounds_def n e)
qed

lemma validate_choices_typed: "about_field s (validate_choices s x) \<and> (validate_choices s x = [] \<longleftrightarrow> chosen s x)"
  by (simp add: validate_choices_def chosen_def list_ex_iff split: option.splits)

lemma check_endpoint_typed:
  assumes "x = VNone \<or> clear_of_bounds s x"
  shows "\<exists>ds. check_endpoint s x = Ret ds \<and> about_field s ds \<and> (ds = [] \<longleftrightarrow> (x \<noteq> VNone \<longrightarrow> allowed s x))"
  using validate_bounds_typed [of s x] validate_choices_typed [of s x] assms
  by (auto simp: check_endpoint_def allowed_def)

lemma check_endpoint_clash:
  "x \<noteq> VNone \<Longrightarrow> \<not> clear_of_bounds s x \<Longrightarrow> check_endpoint s x = Raise (TypeError ''not supported'')"
  by (simp add: check_endpoint_def validate_bounds_clash)

lemma validate_length_typed:
  assumes "fs_min_length s = None \<and> fs_max_length s = None \<or> (\<exists>t. x = VStr t) \<or> (\<exists>xs. x = VTuple xs)"
  shows "\<exists>ds. validate_length s x = Ret ds \<and> about_field s ds \<and> (ds = [] \<longleftrightarrow> length_ok s x)"
  using assms by (auto simp: validate_length_def length_ok_def length_fits_def split: pyval.splits option.splits)

lemma absent_cases: "(fs_required s \<longrightarrow> refusal s (absent s)) \<and> (\<not> fs_required s \<longrightarrow> absent s = Ret ())"
  by (simp add: absent_def raise_refusal)

text \<open>The validator's answer on a value, as a decision; \<open>c\<close> tells when it fails.\<close>

definition type_clash :: "(exn, 'a) outcome \<Rightarrow> bool" where
  "type_clash r \<longleftrightarrow> (\<exists>m. r = Raise (TypeError m))"

definition decides :: "filter_spec \<Rightarrow> (exn, unit) outcome \<Rightarrow> bool \<Rightarrow> bool" where
  "decides s r p \<longleftrightarrow> (p \<longrightarrow> r = Ret ()) \<and> (\<not> p \<longrightarrow> refusal s r)"

definition answers :: "filter_spec \<Rightarrow> (exn, unit) outcome \<Rightarrow> bool \<Rightarrow> bool \<Rightarrow> bool" where
  "answers s r c p \<longleftrightarrow> (if c then type_clash r else decides s r p)"

lemma decides_details: "about_field s ds \<Longrightarrow> (ds = [] \<longleftrightarrow> p) \<Longrightarrow> decides s (raise_details ds) p"
  by (auto simp: decides_def raise_details_def refusal_def about_field_def)

lemma decides_absent: "decides s (absent s) (\<not> fs_required s)"
  using absent_cases by (auto simp: decides_def)

lemma scalar_decides:
  assumes "spec_ok s" "fs_lookup s = L_EQ" "typed_value s v"
  shows "answers s (validate_scalar s v) (crashes s v) (admits s v)"
proof -
  consider (none) "v = VNone" | (clash) "v \<noteq> VNone" "\<not> clear_of_bounds s v" | (fits) "v \<noteq> VNone" "clear_of_bounds s v"
    by blast
  then show ?thesis
  proof cases
    case none
    then show ?thesis using decides_absent by (simp add: validate_scalar_def admits_def given_def crashes_def answers_def)
  next
    case clash
    then show ?thesis using assms(2)
      by (simp add: answers_def crashes_def given_def validate_scalar_def validate_bounds_clash type_clash_def)
  next
    case fits
    then have t: "of_type (fs_base_type s) v" using assms by (simp add: typed_value_def)
    then have "fs_min_length s = None \<and> fs_max_length s = None \<or> (\<exists>t. v = VStr t)"
      using assms(1,2) by (cases v) (auto simp: spec_ok_def)
    then obtain b l where "validate_bounds s v = Ret b" "about_field s b" "b = [] \<longleftrightarrow> in_bounds s v"
        "validate_length s v = Ret l" "about_field s l" "l = [] \<longleftrightarrow> length_ok s v"
      using validate_bounds_typed [OF fits(2)] validate_length_typed [of s v] by auto
    then show ?thesis using fits assms(2) validate_choices_typed [of s v]
      by (auto simp: answers_def crashes_def validate_scalar_def admits_def given_def allowed_def intro!: decides_details)
  qed
qed

lemma order_details_typed:
  assumes "a \<noteq> VNone \<longrightarrow> b \<noteq> VNone \<longrightarrow> comparable a b"
  shows "\<exists>d. order_details s a b = Ret d \<and> about_field s d \<and> (d = [] \<longleftrightarrow> (a \<noteq> VNone \<longrightarrow> b \<noteq> VNone \<longrightarrow> val_le a b))"
  using assms by (auto simp: order_details_def py_less_val comparable_sym simp flip: not_val_le)

lemma range_typed:
  assumes "spec_ok s" "fs_lookup s = L_RANGE" "typed_value s v" "v \<noteq> VNone"
  obtains a b where "v = VTuple [a, b]" "a \<noteq> VNone \<longrightarrow> b \<noteq> VNone \<longrightarrow> comparable a b"
proof -
  obtain a b where v: "v = VTuple [a, b]"
      "a = VNone \<or> item_type (fs_base_type s) a" "b = VNone \<or> item_type (fs_base_type s) b"
    using assms(2-4) by (auto simp: typed_value_def split: pyval.splits list.splits)
  moreover have "comparable a b" if "a \<noteq> VNone" "b \<noteq> VNone"
    using v that assms(1,2) item_type_ordered by (auto simp: spec_ok_def)
  ultimately show ?thesis using that by blast
qed

lemma range_ends:
  assumes "fs_lookup s = L_RANGE" "a \<noteq> VNone \<or> b \<noteq> VNone" "a \<noteq> VNone \<longrightarrow> b \<noteq> VNone \<longrightarrow> comparable a b"
  shows "answers s (validate_range s (VTuple [a, b])) (crashes s (VTuple [a, b])) (admits s (VTuple [a, b]))"
proof -
  let ?v = "VTuple [a, b]"
  obtain d where d: "order_details s a b = Ret d" "about_field s d" "d = [] \<longleftrightarrow> (a \<noteq> VNone \<longrightarrow> b \<noteq> VNone \<longrightarrow> val_le a b)"
    using order_details_typed [OF assms(3)] by blast
  consider (half) "fs_both_required s" "a = VNone \<or> b = VNone"
    | (clash) "\<not> (fs_both_required s \<and> (a = VNone \<or> b = VNone))"
        "a \<noteq> VNone \<and> \<not> clear_of_bounds s a \<or> b \<noteq> VNone \<and> \<not> clear_of_bounds s b"
    | (fits) "\<not> (fs_both_required s \<and> (a = VNone \<or> b = VNone))" "a = VNone \<or> clear_of_bounds s a" "b = VNone \<or> clear_of_bounds s b"
    by blast
  then show ?thesis
  proof cases
    case half
    then show ?thesis using assms(1,2)
      by (auto simp: answers_def crashes_def validate_range_def admits_def given_def intro!: decides_details)
  next
    case clash
    have c: "crashes s ?v" using clash assms(1) by (simp add: crashes_def given_def)
    have "check_endpoint s a = Raise (TypeError ''not supported'') \<or> (\<exists>ds. check_endpoint s a = Ret ds)"
      using check_endpoint_clash [of a s] check_endpoint_typed [of a s] by blast
    moreover have "check_endpoint s b = Raise (TypeError ''not supported'')" if "check_endpoint s a = Ret ds" for ds
      using clash(2) that check_endpoint_clash [of a s] check_endpoint_clash [of b s] by auto
    ultimately have "validate_range s ?v = Raise (TypeError ''not supported'')"
      using clash(1) assms(2) d(1) by (auto simp: validate_range_def)
    then show ?thesis using c by (simp add: answers_def type_clash_def)
  next
    case fits
    obtain da where da: "check_endpoint s a = Ret da" "about_field s da" "da = [] \<longleftrightarrow> (a \<noteq> VNone \<longrightarrow> allowed s a)"
      using check_endpoint_typed [OF fits(2)] by blast
    obtain db where db: "check_endpoint s b = Ret db" "about_field s db" "db = [] \<longleftrightarrow> (b \<noteq> VNone \<longrightarrow> allowed s b)"
      using check_endpoint_typed [OF fits(3)] by blast
    have "\<not> crashes s ?v" using fits assms(1) by (auto simp: crashes_def)
    moreover have "validate_range s ?v = raise_details (d @ da @ db)"
      using fits(1) assms(2) d(1) da(1) db(1) by (auto simp: validate_range_def)
    moreover have "admits s ?v \<longleftrightarrow> d = [] \<and> da = [] \<and> db = []"
      using assms(1,2) fits(1) d(3) da(3) db(3) by (auto simp: admits_def given_def)
    moreover have "decides s (raise_details (d @ da @ db)) (d = [] \<and> da = [] \<and> db = [])"
      using d(2) da(2) db(2) by (intro decides_details) auto
    ultimately show ?thesis by (simp add: answers_def)
  qed
qed

lemma range_decides:
  assumes "spec_ok s" "fs_lookup s = L_RANGE" "typed_value s v" "v \<noteq> VTuple [VNone, VNone]"
  shows "answers s (validate_range s v) (crashes s v) (admits s v)"
proof (cases "v = VNone")
  case True
  then show ?thesis using decides_absent by (simp add: validate_range_def admits_def given_def crashes_def answers_def)
next
  case False
  from range_typed [OF assms(1-3) False] obtain a b where "v = VTuple [a, b]" "a \<noteq> VNone \<longrightarrow> b \<noteq> VNone \<longrightarrow> comparable a b" .
  then show ?thesis using range_ends [OF assms(2), of a b] assms(4) by auto
qed

text \<open>The loop over a collection.\<close>

lemma list_all_True [simp]: "list_all (\<lambda>x. True) xs"
  by (simp add: list_all_iff)

lemma collect_items_typed:
  assumes "list_all (\<lambda>x. clear_of_bounds s x \<and> hashable x) vs"
  shows "\<exists>ds' dups'. collect_items s vs seen dups ds = Ret (ds @ ds', dups') \<and> about_field s ds'
     \<and> (ds' = [] \<longleftrightarrow> list_all (allowed s) vs)
     \<and> (dups' = [] \<longleftrightarrow> dups = [] \<and> all_different vs \<and> list_all (\<lambda>v. \<not> list_ex (py_equal v) seen) vs)"
  using assms
proof (induction vs arbitrary: seen dups ds)
  case (Cons v vs)
  then have tv: "clear_of_bounds s v" and h: "hashable v"
    and tvs: "list_all (\<lambda>x. clear_of_bounds s x \<and> hashable x) vs" by simp_all
  obtain b where b: "validate_bounds s v = Ret b" "about_field s b" "b = [] \<longleftrightarrow> in_bounds s v"
    using validate_bounds_typed [OF tv] by auto
  have al: "allowed s v \<longleftrightarrow> in_bounds s v \<and> chosen s v" by (rule allowed_def)
  note c = validate_choices_typed [of s v]
  show ?case
  proof (cases "list_ex (py_equal v) seen")
    case True
    let ?dups = "if list_ex (py_equal v) dups then dups else dups @ [v]"
    obtain ds' dups' where ih:
      "collect_items s vs seen ?dups (ds @ b @ validate_choices s v) = Ret ((ds @ b @ validate_choices s v) @ ds', dups')"
      "about_field s ds'" "ds' = [] \<longleftrightarrow> list_all (allowed s) vs"
      "dups' = [] \<longleftrightarrow> ?dups = [] \<and> all_different vs \<and> list_all (\<lambda>v. \<not> list_ex (py_equal v) seen) vs"
      using Cons.IH [OF tvs] by blast
    have "?dups \<noteq> []" by auto
    then show ?thesis using True b c ih h
      by (intro exI [of _ "b @ validate_choices s v @ ds'"] exI [of _ dups']) (auto simp: al)
  next
    case False
    obtain ds' dups' where ih:
      "collect_items s vs (seen @ [v]) dups (ds @ b @ validate_choices s v) = Ret ((ds @ b @ validate_choices s v) @ ds', dups')"
      "about_field s ds'" "ds' = [] \<longleftrightarrow> list_all (allowed s) vs"
      "dups' = [] \<longleftrightarrow> dups = [] \<and> all_different vs \<and> list_all (\<lambda>x. \<not> list_ex (py_equal x) (seen @ [v])) vs"
      using Cons.IH [OF tvs] by blast
    have "list_all (\<lambda>x. \<not> list_ex (py_equal x) (seen @ [v])) vs \<longleftrightarrow>
        list_all (\<lambda>x. \<not> py_equal v x) vs \<and> list_all (\<lambda>x. \<not> list_ex (py_equal x) seen) vs"
      by (auto simp: list_all_iff py_equal_sym)
    then show ?thesis using False b c ih h
      by (intro exI [of _ "b @ validate_choices s v @ ds'"] exI [of _ dups']) (auto simp: al)
  qed
qed simp

lemma collect_items_clash:
  "list_ex (\<lambda>x. \<not> clear_of_bounds s x \<or> \<not> hashable x) vs \<Longrightarrow> type_clash (collect_items s vs seen dups ds)"
proof (induction vs arbitrary: seen dups ds)
  case (Cons v vs)
  consider "\<not> clear_of_bounds s v" | "clear_of_bounds s v" "\<not> hashable v"
    | "clear_of_bounds s v" "hashable v" "list_ex (\<lambda>x. \<not> clear_of_bounds s x \<or> \<not> hashable x) vs"
    using Cons.prems by auto
  then show ?case
  proof cases
    case 1
    then show ?thesis by (simp add: validate_bounds_clash type_clash_def)
  next
    case 2
    then show ?thesis using validate_bounds_typed [of s v] by (auto simp: type_clash_def)
  next
    case 3
    then show ?thesis using validate_bounds_typed [of s v] Cons.IH by auto
  qed
qed simp

lemma collection_decides:
  assumes "spec_ok s" "fs_lookup s = L_IN" "typed_value s v"
  shows "answers s (validate_collection s v) (crashes s v) (admits s v)"
proof (cases "given s v")
  case False
  then have "validate_collection s v = absent s"
    using assms(2,3) by (auto simp: validate_collection_def given_def typed_value_def split: pyval.splits)
  then show ?thesis using False decides_absent by (simp add: admits_def answers_def crashes_def)
next
  case True
  then obtain xs where xs: "v = VTuple xs" "\<not> list_all (\<lambda>x. x = VNone) xs"
      "list_all (\<lambda>x. x = VNone \<or> item_type (fs_base_type s) x) xs"
    using assms(2,3) by (auto simp: given_def typed_value_def split: pyval.splits)
  show ?thesis
  proof (cases "VNone \<in> set xs")
    case none: True
    then have "validate_collection s v = raise_details [invalid_value_detail s]"
      using xs by (auto simp: validate_collection_def list_ex_iff)
    moreover have "\<not> admits s v" "\<not> crashes s v" using none xs(1) assms(2) True by (auto simp: admits_def crashes_def)
    ultimately show ?thesis by (auto simp: answers_def intro!: decides_details)
  next
    case some: False
    then have "list_all (of_type (fs_base_type s)) xs"
      using xs(3) by (auto simp: list_all_iff dest: item_type_of)
    then have inst: "\<not> list_ex (\<lambda>x. \<not> py_isinstance x (fs_base_type s)) xs" "\<not> list_ex (\<lambda>x. x = VNone) xs"
      using some by (auto simp: list_all_iff list_ex_iff of_type_isinstance)
    have run: "validate_collection s v = oc_bind (collect_items s xs [] [] []) (\<lambda>(ds, dups).
        raise_details (ds @ (if dups = [] then [] else [duplicate_detail s dups])))"
      using xs inst by (simp add: validate_collection_def)
    have cr: "crashes s v \<longleftrightarrow> list_ex (\<lambda>x. \<not> clear_of_bounds s x \<or> \<not> hashable x) xs"
      using True xs(1) assms(2) some by (simp add: crashes_def)
    show ?thesis
    proof (cases "crashes s v")
      case clash: True
      then have "type_clash (collect_items s xs [] [] [])" using cr collect_items_clash by blast
      then show ?thesis using clash by (auto simp: run answers_def type_clash_def)
    next
      case fits: False
      then have t: "list_all (\<lambda>x. clear_of_bounds s x \<and> hashable x) xs"
        unfolding cr by (auto simp: list_all_iff list_ex_iff)
      obtain ds dups where c: "collect_items s xs [] [] [] = Ret (ds, dups)" "about_field s ds"
          "ds = [] \<longleftrightarrow> list_all (allowed s) xs" "dups = [] \<longleftrightarrow> all_different xs"
        using collect_items_typed [OF t, of "[]" "[]" "[]"] by auto
      have "admits s v \<longleftrightarrow> ds = [] \<and> dups = []"
        using c(3,4) some xs(1) assms(2) True by (simp add: admits_def)
      then show ?thesis using fits c(1,2) by (auto simp: run answers_def intro!: decides_details)
    qed
  qed
qed

lemma json_decides:
  assumes "spec_ok s" "fs_lookup s = L_JSON" "typed_value s v"
  shows "answers s (validate_json s v) (crashes s v) (admits s v)"
proof (cases "given s v")
  case False
  then have "validate_json s v = absent s"
    using assms(2) by (auto simp: validate_json_def given_def)
  then show ?thesis using False decides_absent by (simp add: admits_def answers_def crashes_def)
next
  case True
  then obtain xs where xs: "v = VTuple xs" "xs \<noteq> []"
    using assms(2,3) by (auto simp: given_def typed_value_def split: pyval.splits)
  obtain l where l: "validate_length s v = Ret l" "about_field s l" "l = [] \<longleftrightarrow> length_ok s v"
    using validate_length_typed [of s v] xs(1) by auto
  then show ?thesis using xs True assms(2)
    by (auto simp: validate_json_def admits_def answers_def crashes_def intro!: decides_details)
qed

section \<open>The validator decides the reference predicate\<close>

lemma validator_decides:
  assumes "spec_ok s" "typed_value s v" "\<not> empty_range s v"
  shows "answers s (validate s v) (crashes s v) (admits s v)"
proof -
  have f: "fs_field s \<noteq> None" and l: "fs_lookup s \<in> {L_EQ, L_RANGE, L_IN, L_JSON}"
    using assms(1) by (auto simp: spec_ok_def)
  then show ?thesis
    using assms scalar_decides [OF assms(1) _ assms(2)] range_decides [OF assms(1) _ assms(2)]
      collection_decides [OF assms(1) _ assms(2)] json_decides [OF assms(1) _ assms(2)]
    by (auto simp: validate_def empty_range_def)
qed

lemma validate_empty_range:
  "spec_ok s \<Longrightarrow> empty_range s v \<Longrightarrow>
   validate s v = Raise (ValueError ''Range filter requires at least one boundary.'')"
  by (auto simp: validate_def validate_range_def spec_ok_def empty_range_def)

text \<open>Only a datetime filter compares naive and aware values, and only a collection of models needs a hash.\<close>

lemma crashes_only:
  assumes "spec_ok s" "typed_value s v" "crashes s v"
  shows "fs_base_type s = BT_Datetime \<or> (fs_lookup s = L_IN \<and> (\<exists>n fs. fs_base_type s = BT_Model n fs))"
proof (rule ccontr)
  assume a: "\<not> ?thesis"
  then have c: "of_type (fs_base_type s) x \<Longrightarrow> clear_of_bounds s x" for x
    using clear_typed [OF assms(1)] by blast
  have h: "of_type t x \<Longrightarrow> \<not> hashable x \<Longrightarrow> \<exists>n fs. t = BT_Model n fs" for t x
    by (cases x) (auto split: base_type.splits)
  have i: "clear_of_bounds s x" "fs_lookup s = L_IN \<Longrightarrow> hashable x" if "item_type (fs_base_type s) x" for x
    using c h a item_type_of [OF that] by blast+
  have l: "fs_lookup s \<in> {L_EQ, L_RANGE, L_IN, L_JSON}" using assms(1) by (simp add: spec_ok_def)
  show False
    using l assms(2,3) c i
    by (elim insertE; fastforce simp: crashes_def given_def typed_value_def list_ex_iff list_all_iff
        split: pyval.splits list.splits)
qed

text \<open>Specifications whose values never fail: their bounds are aware, and so are their values.\<close>

definition aware_bounds :: "filter_spec \<Rightarrow> bool" where
  "aware_bounds s \<longleftrightarrow>
     (\<forall>b \<in> {fs_gt s, fs_gte s, fs_lt s, fs_lte s}. case b of None \<Rightarrow> True | Some y \<Rightarrow> \<forall>t. cmp_key y \<noteq> Some (KNaive t))"

definition never_crashes :: "filter_spec \<Rightarrow> bool" where
  "never_crashes s \<longleftrightarrow> (\<forall>x. typed_value s x \<longrightarrow> \<not> crashes s x)"

lemma clear_aware:
  assumes "spec_ok s" "fs_base_type s = BT_Datetime" "aware_bounds s"
  shows "clear_of_bounds s (VDatetime d)"
proof -
  have "comparable (VDatetime d) y"
    if y: "y \<in> set_option (fs_gt s) \<union> set_option (fs_gte s) \<union> set_option (fs_lt s) \<union> set_option (fs_lte s)" for y
  proof -
    have "bounds_type BT_Datetime y" "\<forall>t. cmp_key y \<noteq> Some (KNaive t)"
      using y assms by (auto simp: spec_ok_def bound_ok_def aware_bounds_def)
    then show ?thesis by (auto simp: comparable_def)
  qed
  then show ?thesis by (auto simp: clear_of_bounds_def split: option.splits)
qed

lemma never_crashesI:
  assumes "spec_ok s" "fs_base_type s = BT_Datetime \<longrightarrow> aware_bounds s \<and> fs_lookup s \<noteq> L_EQ"
    and "\<not> (\<exists>n fs. fs_base_type s = BT_Model n fs)"
  shows "never_crashes s"
  unfolding never_crashes_def
proof (intro allI impI notI)
  fix x assume x: "typed_value s x" "crashes s x"
  then have d: "fs_base_type s = BT_Datetime" using crashes_only [OF assms(1)] assms(3) by blast
  then have c: "y = VDatetime t \<Longrightarrow> clear_of_bounds s y" for y t
    using clear_aware [OF assms(1)] assms(2) by blast
  have i: "item_type (fs_base_type s) y \<Longrightarrow> clear_of_bounds s y \<and> hashable y" for y
    using c d by (auto dest: item_type_datetime)
  have "fs_lookup s \<in> {L_RANGE, L_IN, L_JSON}" using assms(1,2) d by (auto simp: spec_ok_def)
  then show False
    using x i by (elim insertE; fastforce simp: crashes_def given_def typed_value_def list_ex_iff list_all_iff
        split: pyval.splits list.splits)
qed


definition age_range :: filter_spec where
  "age_range = (range_spec BT_Int (Some ''age'') False False
     \<lparr>bd_gt = None, bd_gte = Some (VDec 18), bd_lt = None, bd_lte = Some (VDec 99)\<rparr> None)"

text \<open>A scalar datetime filter with an aware upper bound.\<close>

definition before_2030 :: filter_spec where
  "before_2030 = (with_bounds (no_bounds\<lparr>bd_lt := Some (VDatetime 1893456000000000)\<rparr>)
     (mk_spec BT_Datetime L_EQ (Some ''seen'') False None))"


section \<open>What the factories build\<close>

lemma mk_spec_fields [simp]:
  "fs_lookup (mk_spec bt lk fld req d) = lk" "fs_base_type (mk_spec bt lk fld req d) = bt"
  "fs_required (mk_spec bt lk fld req d) = req" "fs_choices (mk_spec bt lk fld req d) = None"
  "fs_min_length (mk_spec bt lk fld req d) = None" "fs_max_length (mk_spec bt lk fld req d) = None"
  "fs_gt (mk_spec bt lk fld req d) = None" "fs_gte (mk_spec bt lk fld req d) = None"
  "fs_lt (mk_spec bt lk fld req d) = None" "fs_lte (mk_spec bt lk fld req d) = None"
  by (simp_all add: mk_spec_def)

lemma with_bounds_fields [simp]:
  "fs_lookup (with_bounds b s) = fs_lookup s" "fs_base_type (with_bounds b s) = fs_base_type s"
  "fs_gt (with_bounds b s) = bd_gt b" "fs_gte (with_bounds b s) = bd_gte b"
  "fs_lt (with_bounds b s) = bd_lt b" "fs_lte (with_bounds b s) = bd_lte b"
  "fs_min_length (with_bounds b s) = fs_min_length s" "fs_max_length (with_bounds b s) = fs_max_length s"
  by (simp_all add: with_bounds_def)

lemma decimal_number: "decimal v = Ret d \<Longrightarrow> \<exists>q. d = VDec q"
  by (induction v rule: decimal.induct) (auto split: option.splits)

lemma to_decimal_ok:
  "to_decimal x = Ret y \<Longrightarrow> bt \<in> {BT_Int, BT_Decimal} \<Longrightarrow> bound_ok bt y"
  using decimal_number by (fastforce simp: to_decimal_def bound_ok_def oc_bind_Ret_iff split: option.splits)

text \<open>A numeric filter with the equality lookup, and every range over numbers, is well-formed.\<close>

lemma spec_numeric_ok:
  "spec_numeric bt fld L_EQ req b ch d = Ret s \<Longrightarrow> bt \<in> {BT_Int, BT_Decimal} \<Longrightarrow> spec_ok (s\<lparr>fs_field := Some f\<rparr>)"
  by (auto simp: spec_numeric_def oc_bind_Ret_iff decimal_bounds_def spec_ok_def dest!: to_decimal_ok)

lemma spec_numeric_range_ok:
  "spec_numeric_range bt fld req bth b d = Ret s \<Longrightarrow> bt \<in> {BT_Int, BT_Decimal} \<Longrightarrow> spec_ok (s\<lparr>fs_field := Some f\<rparr>)"
  by (auto simp: spec_numeric_range_def range_spec_def oc_bind_Ret_iff decimal_bounds_def spec_ok_def dest!: to_decimal_ok)

lemma spec_string_ok:
  "spec_string fld req mn mx ch d = Ret s \<Longrightarrow> spec_ok (s\<lparr>fs_field := Some f\<rparr>)"
  by (auto simp: spec_string_def oc_bind_Ret_iff spec_ok_def bound_ok_def)

lemma spec_json_ok: "spec_ok ((spec_json bt fld req mx d)\<lparr>fs_field := Some f\<rparr>)"
  by (simp add: spec_json_def spec_ok_def bound_ok_def)

lemma spec_collection_ok:
  "spec_collection bt lk req d ch uniq = Ret s \<Longrightarrow> spec_ok (s\<lparr>fs_field := Some f\<rparr>)"
  by (auto simp: spec_collection_def oc_bind_Ret_iff spec_ok_def bound_ok_def split: if_splits)

text \<open>
  Four kinds of filter that the factories build, or refuse to build, can never be used: a
  boolean filter refuses both truth values, since its choices are texts; a scalar filter with an
  ordering lookup is accepted by its factory and stopped by the validator with a \<open>RuntimeError\<close> on
  every value; a string filter cannot be declared with a choice that is no numeral, and refuses
  every string when its choices are numerals; the choices of a collection are forgotten.
\<close>

theorem unusable_filters:
  "(\<forall>v req d f. of_type BT_Bool v
      \<longrightarrow> refusal ((spec_boolean req d)\<lparr>fs_field := Some f\<rparr>) (validate ((spec_boolean req d)\<lparr>fs_field := Some f\<rparr>) v))
   \<and> (\<forall>bt fld lk req b ch d s f v. spec_numeric bt fld lk req b ch d = Ret s \<longrightarrow> lk \<noteq> L_EQ
      \<longrightarrow> validate (s\<lparr>fs_field := Some f\<rparr>) v = Raise (RuntimeError ''Undefined filter lookup type''))
   \<and> (\<forall>fld req mn mx t d. decimal_of_text t = None
      \<longrightarrow> spec_string fld req mn mx (Some (ChoiceTuple [VStr t])) d = Raise InvalidOperation)
   \<and> (\<forall>fld req mn mx t d s f x q. decimal_of_text t = Some q \<longrightarrow> spec_string fld req mn mx (Some (ChoiceTuple [VStr t])) d = Ret s
      \<longrightarrow> refusal (s\<lparr>fs_field := Some f\<rparr>) (validate (s\<lparr>fs_field := Some f\<rparr>) (VStr x)))
   \<and> (\<forall>bt lk req d ch uniq s. spec_collection bt lk req d ch uniq = Ret s \<longrightarrow> fs_choices s = None)"
proof (intro conjI allI impI)
  fix v req d f
  assume "of_type BT_Bool v"
  then obtain b where "v = VBool b" by (cases v) auto
  then have "\<not> admits ((spec_boolean req d)\<lparr>fs_field := Some f\<rparr>) v"
    by (simp add: admits_def given_def spec_boolean_def allowed_def chosen_def py_equal_def)
  moreover have "spec_ok ((spec_boolean req d)\<lparr>fs_field := Some f\<rparr>)"
    by (simp add: spec_ok_def spec_boolean_def bound_ok_def)
  moreover have "typed_value ((spec_boolean req d)\<lparr>fs_field := Some f\<rparr>) v"
    using \<open>of_type BT_Bool v\<close> by (simp add: typed_value_def spec_boolean_def)
  ultimately show "refusal ((spec_boolean req d)\<lparr>fs_field := Some f\<rparr>) (validate ((spec_boolean req d)\<lparr>fs_field := Some f\<rparr>) v)"
    using validator_decides crashes_only by (fastforce simp: answers_def decides_def empty_range_def spec_boolean_def)
next
  fix bt fld lk req b ch d s f v
  assume "spec_numeric bt fld lk req b ch d = Ret s" "lk \<noteq> L_EQ"
  then show "validate (s\<lparr>fs_field := Some f\<rparr>) v = Raise (RuntimeError ''Undefined filter lookup type'')"
    by (auto simp: spec_numeric_def ensure_scalar_lookup_def oc_bind_Ret_iff validate_def split: if_splits)
next
  fix fld req mn mx t d
  assume "decimal_of_text t = None"
  then show "spec_string fld req mn mx (Some (ChoiceTuple [VStr t])) d = Raise InvalidOperation"
    by (simp add: spec_string_def parse_choices_def choice_decimal_def)
next
  fix fld req mn mx t d s f x q
  assume a: "decimal_of_text t = Some q" "spec_string fld req mn mx (Some (ChoiceTuple [VStr t])) d = Ret s"
  then have s: "s = (mk_spec BT_Str L_EQ fld req d)\<lparr>fs_min_length := mn, fs_max_length := mx, fs_choices := Some [VDec q]\<rparr>"
    by (simp add: spec_string_def parse_choices_def choice_decimal_def)
  then have "\<not> admits (s\<lparr>fs_field := Some f\<rparr>) (VStr x)"
    by (simp add: admits_def given_def allowed_def chosen_def py_equal_def)
  moreover have "typed_value (s\<lparr>fs_field := Some f\<rparr>) (VStr x)" using s by (simp add: typed_value_def)
  ultimately show "refusal (s\<lparr>fs_field := Some f\<rparr>) (validate (s\<lparr>fs_field := Some f\<rparr>) (VStr x))"
    using validator_decides [OF spec_string_ok [OF a(2)]] crashes_only [OF spec_string_ok [OF a(2)]] s
    by (fastforce simp: answers_def decides_def empty_range_def)
next
  fix bt lk req d ch uniq s
  assume "spec_collection bt lk req d ch uniq = Ret s"
  then show "fs_choices s = None" by (auto simp: spec_collection_def oc_bind_Ret_iff split: if_splits)
qed

theorem unusable_filters_witness:
  "refusal ((spec_boolean True None)\<lparr>fs_field := Some ''active''\<rparr>)
     (validate ((spec_boolean True None)\<lparr>fs_field := Some ''active''\<rparr>) (VBool True))
   \<and> spec_string None False None None (Some (ChoiceTuple [VStr ''red''])) None = Raise InvalidOperation"
proof -
  have "of_type BT_Bool (VBool True)" "decimal_of_text ''red'' = None" by code_simp+
  then show ?thesis
    using unusable_filters [THEN conjunct1, rule_format, where v = "VBool True"]
      unusable_filters [THEN conjunct2, THEN conjunct2, THEN conjunct1, rule_format, where t = "''red''"]
    by simp
qed

end
