(* ===== verification/Queries.thy ===== *)
theory Queries
  imports Orm Values
begin

text \<open>
  Generic reading and saving: the ordering parameter of list requests
  (\<open>shared_kernel/params/ordering.py\<close>) and the base repository
  (\<open>data_access/orm/base/base_orm_repository.py\<close>) over one table. A table is the list of its rows
  in the order the database returns them, a column a function on rows; \<open>cols\<close> has the attributes
  of the mapped class.
\<close>

section \<open>Ordering (params/ordering.py)\<close>

datatype direction = ASC | DESC

record ordering_item =
  oi_direction :: direction
  oi_field :: string

definition field_char :: "char \<Rightarrow> bool" where
  "field_char c \<longleftrightarrow> (let n = (of_char c :: nat) in (65 \<le> n \<and> n \<le> 90) \<or> (97 \<le> n \<and> n \<le> 122) \<or> n = 95)"

text \<open>\<open>^-?[A-Za-z_]+(?:,-?[A-Za-z_]+)*$\<close>\<close>

definition item_pattern :: "string \<Rightarrow> bool" where
  "item_pattern s = (let f = py_removeprefix s ''-'' in f \<noteq> [] \<and> list_all field_char f)"

definition ordering_pattern :: "string \<Rightarrow> bool" where
  "ordering_pattern s = list_all item_pattern (py_split (CHR '','') s)"

definition ordering_part :: "string \<Rightarrow> ordering_item" where
  "ordering_part part = \<lparr>oi_direction = (if py_startswith part ''-'' then DESC else ASC),
     oi_field = dropWhile (\<lambda>c. c = CHR ''-'') part\<rparr>"

definition ordering_from_str :: "string \<Rightarrow> ordering_item list option" where
  "ordering_from_str v = (if v = [] then None else Some (map ordering_part (py_split (CHR '','') v)))"

text \<open>The schema of the parameter: stripped, at most 100 characters, of the pattern, then parsed.\<close>

definition parse_ordering_param :: "string \<Rightarrow> (exn, ordering_item list option) outcome" where
  "parse_ordering_param raw =
     (let v = trim raw
      in if 100 < length v then Raise (ValidationError [([''ordering''], ''string_too_long'')])
         else if \<not> ordering_pattern v then Raise (ValidationError [([''ordering''], ''value_error'')])
         else Ret (ordering_from_str v))"

section \<open>Base repository (base\_orm\_repository.py)\<close>

type_synonym 'r columns = "string \<rightharpoonup> ('r \<Rightarrow> pyval)"

definition get_column :: "'r columns \<Rightarrow> string \<Rightarrow> (exn, 'r \<Rightarrow> pyval) outcome" where
  "get_column cols name = (case cols name of None \<Rightarrow> Raise (AttributeError name) | Some c \<Rightarrow> Ret c)"

text \<open>\<open>column == value\<close>: \<open>IS NULL\<close> for \<open>None\<close>, and never true of a \<open>NULL\<close> otherwise.\<close>

definition sql_eq :: "pyval \<Rightarrow> pyval \<Rightarrow> bool" where
  "sql_eq v x = (v = x)"

text \<open>\<open>LIKE\<close>: \<open>%\<close> any text, \<open>_\<close> any character, a backslash makes the next one literal.\<close>

fun like_match :: "string \<Rightarrow> string \<Rightarrow> bool" where
  "like_match [] s = (s = [])"
| "like_match (p # ps) s =
     (if p = CHR ''%'' then like_match ps s \<or> (case s of [] \<Rightarrow> False | c # cs \<Rightarrow> like_match (p # ps) cs)
      else (case s of
          [] \<Rightarrow> False
        | c # cs \<Rightarrow>
            if p = CHR ''_'' then like_match ps cs
            else if p = CHR 0x5C then (case ps of [] \<Rightarrow> False | q # qs \<Rightarrow> c = q \<and> like_match qs cs)
            else c = p \<and> like_match ps cs))"

definition ilike_contains :: "pyval \<Rightarrow> string \<Rightarrow> bool" where
  "ilike_contains v needle = (case v of
     VStr s \<Rightarrow> like_match (py_lower (''%'' @ needle @ ''%'')) (py_lower s) | _ \<Rightarrow> False)"

definition column_test :: "'r columns \<Rightarrow> (pyval \<Rightarrow> 'v \<Rightarrow> bool) \<Rightarrow> string \<times> 'v \<Rightarrow> (exn, 'r \<Rightarrow> bool) outcome" where
  "column_test cols test kv = (case get_column cols (fst kv) of Raise e \<Rightarrow> Raise e
     | Ret c \<Rightarrow> Ret (\<lambda>r. test (c r) (snd kv)))"

definition get_by_field :: "'r columns \<Rightarrow> string \<Rightarrow> pyval \<Rightarrow> 'r list \<Rightarrow> (exn, 'r option) outcome" where
  "get_by_field cols name x table =
     (case cols name of
        None \<Rightarrow> Raise (ValueError name)
      | Some c \<Rightarrow> (case filter (\<lambda>r. sql_eq (c r) x) table of
            [] \<Rightarrow> Ret None | [r] \<Rightarrow> Ret (Some r) | _ \<Rightarrow> Raise MultipleResultsFound))"

definition page :: "nat option \<Rightarrow> nat \<Rightarrow> 'r list \<Rightarrow> 'r list" where
  "page limit offset rows =
     (case limit of None \<Rightarrow> drop offset rows | Some l \<Rightarrow> take l (drop offset rows))"

definition repo_all :: "nat \<Rightarrow> nat \<Rightarrow> 'r list \<Rightarrow> 'r list" where
  "repo_all offset limit table = page (Some limit) offset table"

text \<open>\<open>filter_by\<close>: the limit and the offset only apply when loader options are given.\<close>

definition filter_by :: "'r columns \<Rightarrow> nat \<Rightarrow> nat \<Rightarrow> bool \<Rightarrow> (string \<times> pyval) list \<Rightarrow> 'r list \<Rightarrow> (exn, 'r list) outcome" where
  "filter_by cols offset limit has_options kwargs table =
     (let given = filter (\<lambda>kv. snd kv \<noteq> VNone) kwargs
      in if list_ex (\<lambda>kv. cols (fst kv) = None) given then Raise (KeyError ''Temp error.'')
         else if given = [] then Raise (ValueError ''At least one filter must be provided'')
         else (case oc_mapM (column_test cols sql_eq) given of
             Raise e \<Rightarrow> Raise e
           | Ret tests \<Rightarrow> (let rows = filter (\<lambda>r. list_all (\<lambda>t. t r) tests) table
               in Ret (if has_options then page (Some limit) offset rows else rows))))"

definition parse_ordering :: "'r columns \<Rightarrow> ordering_item list option \<Rightarrow> (exn, (('r \<Rightarrow> pyval) \<times> direction) list) outcome" where
  "parse_ordering cols requested = (case requested of None \<Rightarrow> Ret []
     | Some items \<Rightarrow> oc_mapM (\<lambda>i. case get_column cols (oi_field i) of
         Raise e \<Rightarrow> Raise e | Ret c \<Rightarrow> Ret (c, oi_direction i)) items)"

text \<open>\<open>None\<close> when no condition is left.\<close>

definition parse_to_statement ::
  "'r columns \<Rightarrow> (string \<times> string) list \<Rightarrow> (string \<times> pyval) list \<Rightarrow> (exn, ('r \<Rightarrow> bool) option) outcome" where
  "parse_to_statement cols search filters =
     (case oc_mapM (column_test cols sql_eq) (filter (\<lambda>kv. py_truthy (snd kv)) filters) of
        Raise e \<Rightarrow> Raise e
      | Ret tests \<Rightarrow> (case oc_mapM (column_test cols ilike_contains) (filter (\<lambda>kv. snd kv \<noteq> []) search) of
            Raise e \<Rightarrow> Raise e
          | Ret searches \<Rightarrow> (if tests @ searches = [] then Ret None
              else Ret (Some (\<lambda>r. list_all (\<lambda>t. t r) (tests @ searches))))))"

definition repo_filter :: "'r columns \<Rightarrow> nat option \<Rightarrow> nat \<Rightarrow> (string \<times> string) list \<Rightarrow> bool \<Rightarrow>
    (string \<times> pyval) list \<Rightarrow> 'r list \<Rightarrow> (exn, 'r list \<times> nat option) outcome" where
  "repo_filter cols limit offset search need_count filters table =
     (case (if filters = [] \<and> search = [] then Ret (Some (\<lambda>r. True)) else parse_to_statement cols search filters) of
        Raise e \<Rightarrow> Raise e
      | Ret None \<Rightarrow> Raise (AttributeError ''NoneType object has no attribute limit'')
      | Ret (Some P) \<Rightarrow>
          (let rows = page limit offset (filter P table); res_len = length rows
           in Ret (rows, if \<not> need_count then None
                else if Some res_len = limit then Some (length (page limit offset (filter P table)))
                else if 0 < res_len then Some (offset + res_len) else Some 0)))"

definition filter_exists :: "'r columns \<Rightarrow> (string \<times> string) list \<Rightarrow> (string \<times> pyval) list \<Rightarrow> 'r list \<Rightarrow> (exn, bool) outcome" where
  "filter_exists cols search filters table =
     (case parse_to_statement cols search filters of
        Raise e \<Rightarrow> Raise e
      | Ret None \<Rightarrow> Ret False
      | Ret (Some P) \<Rightarrow> Ret (filter P table \<noteq> []))"

definition repo_remove :: "('r \<Rightarrow> uuid) \<Rightarrow> uuid \<Rightarrow> 'r list \<Rightarrow> nat \<times> 'r list" where
  "repo_remove id_of i table =
     (length (filter (\<lambda>r. id_of r = i) table), filter (\<lambda>r. id_of r \<noteq> i) table)"

section \<open>Saving in batches\<close>

text \<open>\<open>xs[a:b]\<close> with negative bounds counted from the end.\<close>

definition slice_bound :: "int \<Rightarrow> nat \<Rightarrow> nat" where
  "slice_bound i n = (if i < 0 then nat (i + int n) else min (nat i) n)"

definition py_slice :: "'a list \<Rightarrow> int \<Rightarrow> int \<Rightarrow> 'a list" where
  "py_slice xs a b = (let i = slice_bound a (length xs); j = slice_bound b (length xs)
     in take (j - i) (drop i xs))"

text \<open>The loop of \<open>batch_save\<close>: it returns the objects handed to the session; \<open>None\<close> never returns.\<close>

partial_function (option) batch_loop :: "int \<Rightarrow> 'a list \<Rightarrow> int \<Rightarrow> 'a list \<Rightarrow> 'a list option" where
  "batch_loop batch_size objs offset added =
     (if offset < int (length objs)
      then let n = min batch_size (int (length objs) - offset)
           in batch_loop batch_size objs (offset + n) (added @ py_slice objs offset (offset + n))
      else Some added)"

definition batch_save :: "int \<Rightarrow> 'a list \<Rightarrow> 'a list option" where
  "batch_save batch_size objs = batch_loop batch_size objs 0 []"

section \<open>Lemmas\<close>

lemma batch_loop_all:
  assumes "0 < b" "k \<le> length objs"
  shows "batch_loop b objs (int k) (take k objs) = Some objs"
  using assms(2)
proof (induction "length objs - k" arbitrary: k rule: less_induct)
  case less
  show ?case
  proof (cases "k < length objs")
    case True
    define n where "n = nat (min b (int (length objs) - int k))"
    have n: "0 < n" "k + n \<le> length objs" "int n = min b (int (length objs) - int k)"
      using True assms(1) by (auto simp: n_def)
    have s: "take k objs @ py_slice objs (int k) (int k + int n) = take (k + n) objs"
      using n(2) True by (simp add: py_slice_def slice_bound_def nat_add_distrib take_add)
    have "batch_loop b objs (int k) (take k objs) = batch_loop b objs (int (k + n)) (take (k + n) objs)"
      by (subst batch_loop.simps) (use True n s in \<open>simp add: Let_def\<close>)
    also have "\<dots> = Some objs"
      using n less.prems True by (intro less.hyps) auto
    finally show ?thesis .
  next
    case False
    then show ?thesis using less.prems by (subst batch_loop.simps) simp
  qed
qed

lemma batch_loop_stuck:
  assumes "batch_loop b objs off added = Some ys"
  shows "b \<le> 0 \<longrightarrow> int (length objs) \<le> off"
  by (rule batch_loop.raw_induct [where P = "\<lambda>b objs off added ys. b \<le> 0 \<longrightarrow> int (length objs) \<le> off", OF _ assms])
    (fastforce simp: Let_def split: if_splits)

text \<open>
  Saving in batches hands every object to the session, once and in order, for every
  positive batch size; with a batch size of zero or less it only returns when there is nothing to
  save.
\<close>

theorem batch_save_spec:
  "batch_save b objs = (if 0 < b \<or> objs = [] then Some objs else None)"
proof (cases "0 < b")
  case True
  then show ?thesis using batch_loop_all [of b 0 objs] by (simp add: batch_save_def)
next
  case False
  show ?thesis
  proof (cases objs)
    case Nil
    then show ?thesis by (simp add: batch_save_def batch_loop.simps)
  next
    case (Cons x xs)
    then have "batch_save b objs = None"
      using batch_loop_stuck [of b objs 0 "[]"] False
      by (cases "batch_save b objs") (auto simp: batch_save_def)
    then show ?thesis using False Cons by simp
  qed
qed


section \<open>Search\<close>

definition plain_pattern_char :: "char \<Rightarrow> bool" where
  "plain_pattern_char c \<longleftrightarrow> c \<noteq> CHR ''%'' \<and> c \<noteq> CHR ''_'' \<and> c \<noteq> CHR 0x5C"

declare like_match.simps(2) [simp del]

lemma like_any_nil: "like_match (CHR ''%'' # ps) [] \<longleftrightarrow> like_match ps []"
  by (subst like_match.simps(2)) simp

lemma like_any_cons:
  "like_match (CHR ''%'' # ps) (c # cs) \<longleftrightarrow> like_match ps (c # cs) \<or> like_match (CHR ''%'' # ps) cs"
  by (subst like_match.simps(2)) simp

lemma like_plain:
  "plain_pattern_char p \<Longrightarrow> like_match (p # ps) s \<longleftrightarrow> (\<exists>cs. s = p # cs \<and> like_match ps cs)"
  by (subst like_match.simps(2)) (cases s; simp add: plain_pattern_char_def)

lemma like_any: "like_match (CHR ''%'' # ps) s \<longleftrightarrow> (\<exists>a b. s = a @ b \<and> like_match ps b)"
proof (induction s)
  case (Cons c cs)
  have "like_match (CHR ''%'' # ps) (c # cs) \<longleftrightarrow> like_match ps (c # cs) \<or> (\<exists>a b. cs = a @ b \<and> like_match ps b)"
    unfolding like_any_cons Cons ..
  also have "\<dots> \<longleftrightarrow> (\<exists>a b. c # cs = a @ b \<and> like_match ps b)"
    by (auto simp: Cons_eq_append_conv)
  finally show ?case .
qed (simp add: like_any_nil)

lemma like_literal:
  "list_all plain_pattern_char p \<Longrightarrow> like_match (p @ ps) s \<longleftrightarrow> (\<exists>b. s = p @ b \<and> like_match ps b)"
  by (induction p arbitrary: s) (auto simp: like_plain)

lemma plain_code: "plain_pattern_char c \<longleftrightarrow> (let n = (of_char c :: nat) in n \<noteq> 37 \<and> n \<noteq> 95 \<and> n \<noteq> 92)"
proof -
  have "c = d \<longleftrightarrow> (of_char c :: nat) = of_char d" for d
    by simp
  from this [of "CHR ''%''"] this [of "CHR ''_''"] this [of "CHR 0x5C"] show ?thesis
    by (simp add: plain_pattern_char_def Let_def)
qed

lemma lower_plain: "plain_pattern_char c \<Longrightarrow> plain_pattern_char (lower_char c)"
  by (auto simp: plain_code lower_char_def Let_def)

text \<open>
  A search finds the rows whose text contains the words searched for, ignoring case, when
  the words have no character that is special in a pattern.
\<close>

theorem search_spec:
  assumes "list_all plain_pattern_char needle"
  shows "ilike_contains (VStr s) needle \<longleftrightarrow> (\<exists>a b. py_lower s = a @ py_lower needle @ b)"
proof -
  have l: "list_all plain_pattern_char (py_lower needle)"
    using assms by (simp add: py_lower_def list_all_iff lower_plain)
  have "lower_char (CHR ''%'') = CHR ''%''" by code_simp
  then have "py_lower (''%'' @ needle @ ''%'') = CHR ''%'' # py_lower needle @ ''%''"
    by (simp add: py_lower_def)
  moreover have "like_match (py_lower needle @ ''%'') t \<longleftrightarrow> (\<exists>b. t = py_lower needle @ b)" for t
    unfolding like_literal [OF l] by (simp add: like_any)
  ultimately show ?thesis
    by (simp only: ilike_contains_def pyval.case like_any) blast
qed

theorem search_spec_witness: "ilike_contains (VStr ''Ann Lee'') ''NN l''"
proof -
  have "list_all plain_pattern_char ''NN l''" "py_lower ''Ann Lee'' = ''a'' @ py_lower ''NN l'' @ ''ee''"
    by code_simp+
  then show ?thesis using search_spec by blast
qed

section \<open>Pages and counts\<close>

text \<open>
  A filtered page has the matching rows from the offset on, at most the limit. With a
  count: a page that is neither empty nor full reports the number of all matching rows, but a full
  page reports its own size, and an empty one zero, however many rows match.
\<close>

theorem repo_filter_spec:
  assumes "parse_to_statement cols search filters = Ret (Some P)" "filters \<noteq> [] \<or> search \<noteq> []"
  shows "repo_filter cols (Some l) offset search True filters table =
      Ret (take l (drop offset (filter P table)),
        Some (let n = length (filter P table); shown = min l (n - offset)
          in if shown = l then l else if shown = 0 then 0 else n))"
  using assms by (auto simp: repo_filter_def page_def Let_def min_def)

definition ages :: "(string \<times> int) columns" where
  "ages = [''name'' \<mapsto> \<lambda>r. VStr (fst r), ''age'' \<mapsto> \<lambda>r. VInt (snd r)]"

theorem repo_filter_spec_witness:
  "repo_filter ages (Some 2) 0 [] True [(''age'', VInt 4)] [(''a'', 4), (''b'', 4), (''c'', 5), (''d'', 4)]
     = Ret ([(''a'', 4), (''b'', 4)], Some 2)"
proof -
  have "parse_to_statement ages [] [(''age'', VInt 4)] = Ret (Some (\<lambda>r. list_all (\<lambda>t. t r) [\<lambda>r. sql_eq (VInt (snd r)) (VInt 4)]))"
    by (simp add: parse_to_statement_def column_test_def get_column_def ages_def)
  from repo_filter_spec [OF this] show ?thesis by (simp add: sql_eq_def)
qed

section \<open>Ordering\<close>

definition show_item :: "ordering_item \<Rightarrow> string" where
  "show_item i = (if oi_direction i = DESC then ''-'' else []) @ oi_field i"

definition show_ordering :: "ordering_item list \<Rightarrow> string" where
  "show_ordering items = py_join '','' (map show_item items)"

definition field_ok :: "string \<Rightarrow> bool" where
  "field_ok f \<longleftrightarrow> f \<noteq> [] \<and> list_all field_char f"

lemma field_char_plain: "field_char c \<Longrightarrow> c \<noteq> CHR '','' \<and> c \<noteq> CHR ''-'' \<and> \<not> py_space c"
  by (auto simp: field_char_def py_space_def Let_def)

lemma field_start: "field_ok f \<Longrightarrow> \<exists>c cs. f = c # cs \<and> c \<noteq> CHR ''-''"
  by (cases f) (auto simp: field_ok_def field_char_plain)

lemma part_of_item: "field_ok (oi_field i) \<Longrightarrow> ordering_part (show_item i) = i"
  using field_start [of "oi_field i"]
  by (cases "oi_direction i") (auto simp: ordering_part_def show_item_def py_startswith_def)

lemma part_of_pattern:
  assumes "item_pattern s"
  shows "show_item (ordering_part s) = s \<and> field_ok (oi_field (ordering_part s))"
proof (cases "py_startswith s ''-''")
  case True
  then obtain f where s: "s = CHR ''-'' # f" by (auto simp: py_startswith_prefix prefix_def)
  then have f: "field_ok f" using assms by (simp add: item_pattern_def py_removeprefix_def py_startswith_def field_ok_def)
  then show ?thesis
    using field_start [OF f] s by (auto simp: ordering_part_def show_item_def py_startswith_def)
next
  case False
  then have f: "field_ok s" using assms by (simp add: item_pattern_def py_removeprefix_def field_ok_def)
  then show ?thesis
    using field_start [OF f] False by (auto simp: ordering_part_def show_item_def)
qed

lemma split_join:
  assumes "items \<noteq> []" "\<forall>p \<in> set items. c \<notin> set p"
  shows "py_split c (py_join [c] items) = items"
  using assms
proof (induction items)
  case (Cons p ps)
  show ?case
  proof (cases ps)
    case Nil
    then show ?thesis using Cons by (simp add: py_split_no_sep)
  next
    case (Cons q qs)
    then show ?thesis
      using Cons.IH Cons.prems py_split_append [of c p "py_join [c] ps"] by (simp add: py_join_Cons)
  qed
qed simp

lemma field_char_comma: "\<not> py_space (CHR '','')"
  by (simp add: py_space_def)

lemma show_item_chars: "field_ok (oi_field i) \<Longrightarrow> c \<in> set (show_item i) \<Longrightarrow> c \<noteq> CHR '','' \<and> \<not> py_space c"
proof -
  assume f: "field_ok (oi_field i)" and c: "c \<in> set (show_item i)"
  have "\<not> py_space (CHR ''-'')" by (simp add: py_space_def)
  moreover have "c = CHR ''-'' \<or> field_char c"
    using f c by (auto simp: show_item_def field_ok_def list_all_iff split: if_splits)
  ultimately show ?thesis using field_char_plain by auto
qed

lemma show_item_pattern: "field_ok (oi_field i) \<Longrightarrow> item_pattern (show_item i)"
  using field_start [of "oi_field i"]
  by (auto simp: item_pattern_def show_item_def py_removeprefix_def py_startswith_def field_ok_def)

lemma joined_chars: "c \<in> set (py_join [d] ps) \<Longrightarrow> c = d \<or> (\<exists>p \<in> set ps. c \<in> set p)"
  by (induction "[d]" ps rule: py_join.induct) auto

text \<open>
  The ordering parameter is a faithful notation: every accepted text is exactly the text
  of the items it is parsed into, and every non-empty list of fields with directions whose text fits
  the limit is parsed back from its text; so no two orders share a text and none is unreachable.
\<close>

theorem ordering_roundtrip:
  "(\<forall>raw items. parse_ordering_param raw = Ret (Some items) \<longrightarrow> show_ordering items = trim raw)
   \<and> (\<forall>items. items \<noteq> [] \<longrightarrow> list_all (\<lambda>i. field_ok (oi_field i)) items \<longrightarrow> length (show_ordering items) \<le> 100
        \<longrightarrow> parse_ordering_param (show_ordering items) = Ret (Some items))"
proof (intro conjI allI impI)
  fix raw items
  assume "parse_ordering_param raw = Ret (Some items)"
  then have p: "ordering_pattern (trim raw)" "items = map ordering_part (py_split (CHR '','') (trim raw))"
    by (auto simp: parse_ordering_param_def ordering_from_str_def Let_def split: if_splits)
  have "map (show_item \<circ> ordering_part) (py_split (CHR '','') (trim raw)) = py_split (CHR '','') (trim raw)"
    using p(1) by (intro map_idI) (simp add: ordering_pattern_def list_all_iff part_of_pattern)
  then show "show_ordering items = trim raw"
    by (simp add: show_ordering_def p(2) py_join_split)
next
  fix items
  assume i: "items \<noteq> []" "list_all (\<lambda>i. field_ok (oi_field i)) items" "length (show_ordering items) \<le> 100"
  show "parse_ordering_param (show_ordering items) = Ret (Some items)"
  proof -
    have f: "field_ok (oi_field i)" if "i \<in> set items" for i
      using i(2) that by (simp add: list_all_iff)
    have chars: "c \<noteq> CHR '','' \<and> \<not> py_space c" if "x \<in> set items" "c \<in> set (show_item x)" for x c
      using show_item_chars [OF f] that by blast
    then have split: "py_split (CHR '','') (show_ordering items) = map show_item items"
      unfolding show_ordering_def using i(1) by (intro split_join) auto
    have "c = CHR '','' \<or> (\<exists>x \<in> set items. c \<in> set (show_item x))" if "c \<in> set (py_join '','' (map show_item items))" for c
      using joined_chars [OF that] by auto
    then have "\<forall>c \<in> set (show_ordering items). \<not> py_space c"
      using chars field_char_comma unfolding show_ordering_def by blast
    then have "trim (show_ordering items) = show_ordering items"
      by (rule trim_no_space)
    moreover have "ordering_pattern (show_ordering items)"
      unfolding ordering_pattern_def split using f by (simp add: list_all_iff show_item_pattern)
    moreover have "map ordering_part (map show_item items) = items"
      using f by (simp add: map_idI part_of_item)
    moreover have "show_item (hd items) \<noteq> []"
      using f [of "hd items"] i(1) by (simp add: show_item_def field_ok_def)
    then have "show_ordering items \<noteq> []"
      using split i(1) by (cases items) auto
    ultimately show ?thesis
      using i(3) by (simp add: parse_ordering_param_def ordering_from_str_def Let_def split)
  qed
qed

theorem ordering_roundtrip_witness:
  "parse_ordering_param ''-created_at,name'' =
     Ret (Some [\<lparr>oi_direction = DESC, oi_field = ''created_at''\<rparr>, \<lparr>oi_direction = ASC, oi_field = ''name''\<rparr>])"
proof -
  let ?items = "[\<lparr>oi_direction = DESC, oi_field = ''created_at''\<rparr>, \<lparr>oi_direction = ASC, oi_field = ''name''\<rparr>]"
  have s: "show_ordering ?items = ''-created_at,name''"
    by (simp add: show_ordering_def show_item_def)
  have "list_all (\<lambda>i. field_ok (oi_field i)) ?items"
    by (simp add: field_ok_def field_char_def)
  then show ?thesis
    using ordering_roundtrip [THEN conjunct2, rule_format, of ?items] by (simp add: s)
qed

end
