(* ===== verification/FilterPipeline.thy ===== *)
theory FilterPipeline
  imports FilterAccepts Queries
begin

text \<open>
  From the raw parameters of a request to validated filters: the metaclass that turns declared
  specifications into model fields and the schema that coerces and validates each value
  (\<open>modules/filtering/meta.py\<close>), the parser that collects the given filters
  (\<open>modules/filtering/parser.py\<close>), the merging of the request's sources
  (\<open>modules/filtering/litestar_integration.py\<close>) and the ordering check
  (\<open>shared_kernel/params/query_mixins.py\<close>).

  Pydantic is a parameter: \<open>py_coerce t v\<close> is the schema of the type \<open>t\<close> applied to \<open>v\<close>, a value or
  the type of the error; \<open>py_json\<close> is \<open>json.loads\<close>, with \<open>None\<close> for a malformed text; \<open>py_local\<close>, the
  third parameter, is the offset of the machine's time zone at a wall-clock time. How pydantic
  combines schemas is modelled: it collects the errors of the fields of a model, turns a
  \<open>ValueError\<close> of a validator into one of them, and lets any other exception pass.
\<close>

record pydantic =
  py_coerce :: "base_type \<Rightarrow> pyval \<Rightarrow> (string, pyval) outcome"
  py_json :: "string \<Rightarrow> pyval option"
  py_local :: "int \<Rightarrow> int"

text \<open>What the schemas promise: a value they return has the type, and is not \<open>None\<close>.\<close>

definition coerces :: "pydantic \<Rightarrow> bool" where
  "coerces P \<longleftrightarrow> (\<forall>t v x. py_coerce P t v = Ret x \<longrightarrow> of_type t x)"

section \<open>Reading raw values (meta.py)\<close>

definition strip_or_none :: "string \<Rightarrow> pyval" where
  "strip_or_none p = (if py_strip p = [] then VNone else VStr (py_strip p))"

definition split_range :: "pyval \<Rightarrow> pyval" where
  "split_range v = (case v of
       VStr s \<Rightarrow> (let parts = py_split (CHR '','') s
         in if length parts \<noteq> 2 then v else VTuple (map strip_or_none parts))
     | _ \<Rightarrow> v)"

definition split_collection :: "pyval \<Rightarrow> pyval" where
  "split_collection v = (case v of VStr s \<Rightarrow> VList (map VStr (py_split (CHR '','') s)) | _ \<Rightarrow> v)"

definition parse_json :: "pydantic \<Rightarrow> pyval \<Rightarrow> pyval" where
  "parse_json P v = (case v of
       VStr s \<Rightarrow> (case py_json P s of None \<Rightarrow> v | Some x \<Rightarrow> x)
     | _ \<Rightarrow> v)"

text \<open>A nullable schema, and the schema of a tuple: the errors of all items, or the values.\<close>

definition nullable :: "(pyval \<Rightarrow> ('e, pyval) outcome) \<Rightarrow> pyval \<Rightarrow> ('e, pyval) outcome" where
  "nullable f v = (if v = VNone then Ret VNone else f v)"

type_synonym errors = "(string list \<times> string) list"

fun run_items :: "(pyval \<Rightarrow> (string, pyval) outcome) \<Rightarrow> nat \<Rightarrow> pyval list \<Rightarrow> errors \<times> pyval list" where
  "run_items f i [] = ([], [])"
| "run_items f i (v # vs) = (case run_items f (Suc i) vs of (es, xs) \<Rightarrow>
     (case f v of Ret x \<Rightarrow> (es, x # xs) | Raise e \<Rightarrow> (([show_nat i], e) # es, xs)))"

definition tuple_schema :: "(pyval \<Rightarrow> (string, pyval) outcome) \<Rightarrow> nat option \<Rightarrow> pyval \<Rightarrow> (exn, pyval) outcome" where
  "tuple_schema f arity v = (case seq_items v of
       None \<Rightarrow> Raise (ValidationError [([], ''tuple_type'')])
     | Some xs \<Rightarrow>
         if arity \<noteq> None \<and> Some (length xs) \<noteq> arity then Raise (ValidationError [([], ''tuple_length'')])
         else (case run_items f 0 xs of (es, ys) \<Rightarrow>
           if es \<noteq> [] then Raise (ValidationError es) else Ret (VTuple ys)))"

section \<open>The pipeline of a field (meta.py)\<close>

text \<open>
  \<open>_get_base_type\<close>: the items of a range, a collection and a JSON filter over datetimes are
  \<open>ATDatetime\<close>, whose validator \<open>set_timezone\<close> reads a naive one as the machine's local time. (A
  datetime so near the ends of the calendar that this overflows is not modelled.)
\<close>

definition in_zone :: "pydantic \<Rightarrow> pyval \<Rightarrow> pyval" where
  "in_zone P v = (case v of VNaive t \<Rightarrow> VDatetime (t - py_local P t) | _ \<Rightarrow> v)"

definition item_schema :: "pydantic \<Rightarrow> base_type \<Rightarrow> pyval \<Rightarrow> (string, pyval) outcome" where
  "item_schema P t v = (if t = BT_Datetime
     then (case py_coerce P BT_Datetime v of Raise e \<Rightarrow> Raise e | Ret x \<Rightarrow> Ret (in_zone P x))
     else py_coerce P t v)"

definition value_schema :: "pydantic \<Rightarrow> filter_spec \<Rightarrow> pyval \<Rightarrow> (exn, pyval) outcome" where
  "value_schema P s v =
     (case fs_lookup s of
        L_RANGE \<Rightarrow> tuple_schema (nullable (item_schema P (fs_base_type s))) (Some 2) (split_range v)
      | L_IN \<Rightarrow> tuple_schema (nullable (item_schema P (fs_base_type s))) None (split_collection v)
      | L_JSON \<Rightarrow> tuple_schema (item_schema P (fs_base_type s)) None (parse_json P v)
      | _ \<Rightarrow> (case py_coerce P (fs_base_type s) v of
            Ret x \<Rightarrow> Ret x | Raise e \<Rightarrow> Raise (ValidationError [([], e)])))"

text \<open>The validator function of the chain: pydantic reports a \<open>ValueError\<close> as an error of the field.\<close>

definition run_validator :: "filter_spec \<Rightarrow> pyval \<Rightarrow> (exn, pyval) outcome" where
  "run_validator s v = (case validate s v of
       Ret u \<Rightarrow> Ret v
     | Raise (ValueError m) \<Rightarrow> Raise (ValidationError [([], ''value_error'')])
     | Raise e \<Rightarrow> Raise e)"

definition filter_pipeline :: "pydantic \<Rightarrow> filter_spec \<Rightarrow> pyval \<Rightarrow> (exn, pyval) outcome" where
  "filter_pipeline P s v =
     (if \<not> fs_required s \<and> v = VNone then Ret VNone
      else oc_bind (value_schema P s v) (run_validator s))"

section \<open>Fields of a query model (meta.py)\<close>

text \<open>
  An annotation of a class body: a bare specification, \<open>Annotated[type, ...]\<close> with its metadata, or
  a plain type. \<open>M_Gt\<close> and \<open>M_Lt\<close> are the constraints of pydantic's \<open>Field\<close>.
\<close>

datatype ann_meta = M_Spec filter_spec | M_Injector filter_spec | M_Gt int | M_Lt int | M_Other string

datatype annotation = A_Spec filter_spec | A_Annotated base_type "ann_meta list" | A_Plain base_type

fun first_spec :: "ann_meta list \<Rightarrow> filter_spec option" where
  "first_spec [] = None"
| "first_spec (M_Spec s # ms) = Some s"
| "first_spec (m # ms) = first_spec ms"

definition extract_declared :: "annotation \<Rightarrow> filter_spec option" where
  "extract_declared a = (case a of A_Spec s \<Rightarrow> Some s | A_Annotated t ms \<Rightarrow> first_spec ms | A_Plain t \<Rightarrow> None)"

text \<open>\<open>name.split("__")[0]\<close>\<close>

fun field_part :: "string \<Rightarrow> string" where
  "field_part [] = []"
| "field_part [c] = [c]"
| "field_part (c # d # cs) = (if c = CHR ''_'' \<and> d = CHR ''_'' then [] else c # field_part (d # cs))"

record model_field =
  mf_name :: string
  mf_type :: base_type
  mf_metadata :: "ann_meta list"
  mf_default :: "pyval option"

fun not_spec :: "ann_meta \<Rightarrow> bool" where
  "not_spec (M_Spec s) = False"
| "not_spec m = True"

text \<open>
  One field of the class body, with the value the body assigns: a declared specification gets its
  field name, is wrapped into the injector, and loses the assigned value: a required filter has
  no default, any other the default \<open>None\<close>.
\<close>

definition bind_field :: "string \<Rightarrow> filter_spec \<Rightarrow> filter_spec" where
  "bind_field name s = (if fs_field s = None then s\<lparr>fs_field := Some (field_part name)\<rparr> else s)"

definition meta_field :: "string \<times> annotation \<times> pyval option \<Rightarrow> model_field" where
  "meta_field decl = (case decl of (name, ann, assigned) \<Rightarrow>
     (case extract_declared ann of
        None \<Rightarrow> (case ann of
            A_Annotated t ms \<Rightarrow> \<lparr>mf_name = name, mf_type = t, mf_metadata = ms, mf_default = assigned\<rparr>
          | A_Plain t \<Rightarrow> \<lparr>mf_name = name, mf_type = t, mf_metadata = [], mf_default = assigned\<rparr>
          | A_Spec s \<Rightarrow> \<lparr>mf_name = name, mf_type = fs_base_type s, mf_metadata = [], mf_default = assigned\<rparr>)
      | Some s \<Rightarrow> \<lparr>mf_name = name,
          mf_type = (case ann of A_Annotated t ms \<Rightarrow> t | _ \<Rightarrow> fs_base_type s),
          mf_metadata = (case ann of A_Annotated t ms \<Rightarrow> filter not_spec ms | _ \<Rightarrow> [])
            @ [M_Injector (bind_field name s)],
          mf_default = (if fs_required s then None else Some VNone)\<rparr>))"

definition filter_meta :: "(string \<times> annotation \<times> pyval option) list \<Rightarrow> model_field list" where
  "filter_meta decls = map meta_field decls"

section \<open>Parsing a validated model (parser.py)\<close>

fun extract_spec :: "ann_meta list \<Rightarrow> filter_spec option" where
  "extract_spec [] = None"
| "extract_spec (M_Spec s # ms) = Some s"
| "extract_spec (M_Injector s # ms) = Some s"
| "extract_spec (m # ms) = extract_spec ms"

record container =
  fc_value :: pyval
  fc_lookup :: lookup
  fc_field :: string

type_synonym attrs = "(string \<times> pyval) list"

definition attr :: "attrs \<Rightarrow> string \<Rightarrow> pyval" where
  "attr obj name = (case map_of obj name of None \<Rightarrow> VNone | Some v \<Rightarrow> v)"

definition container_of :: "attrs \<Rightarrow> model_field \<Rightarrow> container list" where
  "container_of obj f = (case extract_spec (mf_metadata f) of
       None \<Rightarrow> []
     | Some s \<Rightarrow> (let v = attr obj (mf_name f) in
         if v = VNone then []
         else [\<lparr>fc_value = v, fc_lookup = fs_lookup s,
                fc_field = (case fs_field s of Some n \<Rightarrow> (if n = [] then field_part (mf_name f) else n)
                  | None \<Rightarrow> field_part (mf_name f))\<rparr>]))"

definition parse_filters :: "model_field list \<Rightarrow> attrs \<Rightarrow> container list" where
  "parse_filters fds obj = concat (map (container_of obj) fds)"

section \<open>Validating a query model\<close>

type_synonym raw_query = "string \<rightharpoonup> pyval"

fun check_metadata :: "ann_meta list \<Rightarrow> pyval \<Rightarrow> (exn, pyval) outcome" where
  "check_metadata [] v = Ret v"
| "check_metadata (M_Gt i # ms) v = (if val_less (VInt i) v then check_metadata ms v
     else Raise (ValidationError [([], ''greater_than'')]))"
| "check_metadata (M_Lt i # ms) v = (if val_less v (VInt i) then check_metadata ms v
     else Raise (ValidationError [([], ''less_than'')]))"
| "check_metadata (m # ms) v = check_metadata ms v"

definition at_loc :: "string \<Rightarrow> (exn, 'a) outcome \<Rightarrow> (exn, 'a) outcome" where
  "at_loc name r = (case r of
       Raise (ValidationError es) \<Rightarrow> Raise (ValidationError (map (\<lambda>(loc, m). (name # loc, m)) es))
     | _ \<Rightarrow> r)"

text \<open>
  The injector's schema takes the place of the annotated type's own: it asks for the schema of the
  specification's \<open>base_type\<close>, so other constraints of the annotation are not applied to the value.
\<close>

definition validate_field :: "pydantic \<Rightarrow> raw_query \<Rightarrow> model_field \<Rightarrow> (exn, string \<times> pyval) outcome" where
  "validate_field P raw f = at_loc (mf_name f)
     (oc_bind (case raw (mf_name f) of
         None \<Rightarrow> (case mf_default f of
             None \<Rightarrow> Raise (ValidationError [([], ''missing'')]) | Some d \<Rightarrow> Ret d)
       | Some v \<Rightarrow> (case extract_spec (mf_metadata f) of
             Some s \<Rightarrow> filter_pipeline P s v
           | None \<Rightarrow> (case py_coerce P (mf_type f) v of
                 Raise e \<Rightarrow> Raise (ValidationError [([], e)])
               | Ret x \<Rightarrow> check_metadata (mf_metadata f) x)))
       (\<lambda>x. Ret (mf_name f, x)))"

text \<open>Both results, or the errors of both; an exception that is no \<open>ValidationError\<close> passes at once.\<close>

definition both :: "(exn, 'a) outcome \<Rightarrow> (exn, 'b) outcome \<Rightarrow> (exn, 'a \<times> 'b) outcome" where
  "both m n = (case m of
       Ret a \<Rightarrow> (case n of Ret b \<Rightarrow> Ret (a, b) | Raise e \<Rightarrow> Raise e)
     | Raise (ValidationError es) \<Rightarrow> (case n of
           Ret b \<Rightarrow> Raise (ValidationError es)
         | Raise (ValidationError fs) \<Rightarrow> Raise (ValidationError (es @ fs))
         | Raise e \<Rightarrow> Raise e)
     | Raise e \<Rightarrow> Raise e)"

fun validate_fields :: "pydantic \<Rightarrow> raw_query \<Rightarrow> model_field list \<Rightarrow> (exn, attrs) outcome" where
  "validate_fields P raw [] = Ret []"
| "validate_fields P raw (f # fs) =
     oc_bind (both (validate_field P raw f) (validate_fields P raw fs)) (\<lambda>(x, xs). Ret (x # xs))"

section \<open>Ordering of a query (query\_mixins.py)\<close>

definition ordering_field :: "raw_query \<Rightarrow> (exn, ordering_item list option) outcome" where
  "ordering_field raw = (case raw ''ordering'' of
       None \<Rightarrow> Ret None
     | Some VNone \<Rightarrow> Ret None
     | Some (VStr s) \<Rightarrow> parse_ordering_param s
     | Some v \<Rightarrow> Raise (ValidationError [([''ordering''], ''string_type'')]))"

definition validate_ordering :: "string list \<Rightarrow> ordering_item list option \<Rightarrow> (exn, unit) outcome" where
  "validate_ordering names ord = (case ord of
       None \<Rightarrow> Ret ()
     | Some items \<Rightarrow> if list_all (\<lambda>i. oi_field i \<in> set names) items then Ret ()
         else Raise (ValueError ''Unexpected fields for ordering''))"

section \<open>Sources of a request (litestar\_integration.py)\<close>

text \<open>
  \<open>dict()\<close> of the query parameters keeps the first value of a key; the body counts when it is a
  JSON object, without its nulls; the path parameters come last.
\<close>

definition merge_sources :: "(string \<times> pyval) list \<Rightarrow> pyval option \<Rightarrow> (string \<times> pyval) list \<Rightarrow> raw_query" where
  "merge_sources query body path =
     (map_of query
      ++ (case body of Some (VDict d) \<Rightarrow> map_of (filter (\<lambda>kv. snd kv \<noteq> VNone) d) | _ \<Rightarrow> Map.empty))
      ++ map_of path"

text \<open>The \<open>ValidationException\<close> of a query that does not validate: its \<open>extra\<close>, one entry per error.\<close>

datatype bind_error = BadQuery "(string \<times> string) list" | Passed exn

definition error_entry :: "string list \<times> string \<Rightarrow> string \<times> string" where
  "error_entry e = ((let k = py_join ''.'' (fst e) in if k = [] then ''detail'' else k), snd e)"

definition path_bound_query :: "(raw_query \<Rightarrow> (exn, 'q) outcome) \<Rightarrow> (string \<times> pyval) list \<Rightarrow> pyval option \<Rightarrow>
    (string \<times> pyval) list \<Rightarrow> (bind_error, 'q) outcome" where
  "path_bound_query model_validate query body path =
     (case model_validate (merge_sources query body path) of
        Ret q \<Rightarrow> Ret q
      | Raise (ValidationError es) \<Rightarrow> Raise (BadQuery (map error_entry es))
      | Raise e \<Rightarrow> Raise (Passed e))"

section \<open>Lemmas\<close>

lemma run_items_typed:
  "run_items f i vs = ([], xs) \<Longrightarrow> list_all2 (\<lambda>v x. f v = Ret x) vs xs"
  by (induction f i vs arbitrary: xs rule: run_items.induct)
    (auto simp: list_all2_Cons1 split: prod.splits outcome.splits)

lemma tuple_schema_Ret:
  assumes "tuple_schema f n v = Ret x" "\<And>a b. f a = Ret b \<Longrightarrow> Q b"
  shows "\<exists>xs. x = VTuple xs \<and> list_all Q xs \<and> (\<forall>k. n = Some k \<longrightarrow> length xs = k)"
proof -
  obtain vs ys where v: "seq_items v = Some vs" "n \<noteq> None \<longrightarrow> Some (length vs) = n"
      "run_items f 0 vs = ([], ys)" "x = VTuple ys"
    using assms(1) by (auto simp: tuple_schema_def split: option.splits if_splits prod.splits)
  have l: "list_all2 (\<lambda>v x. f v = Ret x) vs ys" by (rule run_items_typed [OF v(3)])
  then have "list_all Q ys"
    by (auto simp: list_all_length list_all2_conv_all_nth intro: assms(2))
  moreover have "length ys = length vs" using l by (simp add: list_all2_lengthD)
  ultimately show ?thesis using v(2,4) by auto
qed

lemma item_schema_typed:
  assumes "coerces P" "item_schema P t v = Ret x"
  shows "item_type t x"
proof (cases "t = BT_Datetime")
  case True
  then obtain y where y: "py_coerce P BT_Datetime v = Ret y" "x = in_zone P y"
    using assms(2) by (auto simp: item_schema_def split: outcome.splits)
  then have "of_type BT_Datetime y" using assms(1) by (auto simp: coerces_def)
  then show ?thesis using y(2) True by (cases y) (auto simp: in_zone_def item_type_def)
next
  case False
  then have "of_type t x" using assms by (auto simp: item_schema_def coerces_def)
  then show ?thesis using False by (cases x) (auto simp: item_type_def)
qed

lemma value_schema_typed:
  assumes "coerces P" "value_schema P s v = Ret x"
  shows "typed_value s x"
proof -
  have c: "of_type t b" if "py_coerce P t a = Ret b" for t a b
    using assms(1) that by (auto simp: coerces_def)
  have i: "item_type t b" if "item_schema P t a = Ret b" for t a b
    using item_schema_typed [OF assms(1) that] .
  have n: "b = VNone \<or> item_type t b" if "nullable (item_schema P t) a = Ret b" for t a b
    using that i by (auto simp: nullable_def split: if_splits)
  consider "fs_lookup s = L_RANGE" | "fs_lookup s = L_IN" | "fs_lookup s = L_JSON"
    | "fs_lookup s \<notin> {L_RANGE, L_IN, L_JSON}" by blast
  then show ?thesis
  proof cases
    case 1
    then have "tuple_schema (nullable (item_schema P (fs_base_type s))) (Some 2) (split_range v) = Ret x"
      using assms(2) by (simp add: value_schema_def)
    from tuple_schema_Ret [OF this, of "\<lambda>b. b = VNone \<or> item_type (fs_base_type s) b"] n obtain xs where "x = VTuple xs" "length xs = 2"
        "list_all (\<lambda>b. b = VNone \<or> item_type (fs_base_type s) b) xs" by auto
    then show ?thesis using 1 by (auto simp: typed_value_def length_Suc_conv numeral_2_eq_2)
  next
    case 2
    then have "tuple_schema (nullable (item_schema P (fs_base_type s))) None (split_collection v) = Ret x"
      using assms(2) by (simp add: value_schema_def)
    from tuple_schema_Ret [OF this, of "\<lambda>b. b = VNone \<or> item_type (fs_base_type s) b"] n show ?thesis using 2 by (auto simp: typed_value_def)
  next
    case 3
    then have "tuple_schema (item_schema P (fs_base_type s)) None (parse_json P v) = Ret x"
      using assms(2) by (simp add: value_schema_def)
    from tuple_schema_Ret [OF this, of "item_type (fs_base_type s)"] i show ?thesis using 3 by (auto simp: typed_value_def)
  next
    case 4
    then show ?thesis using assms(2) c
      by (cases "fs_lookup s") (auto simp: value_schema_def typed_value_def split: outcome.splits)
  qed
qed

lemma value_schema_Raise: "value_schema P s v = Raise e \<Longrightarrow> \<exists>es. e = ValidationError es"
  by (auto simp: value_schema_def tuple_schema_def split: lookup.splits option.splits if_splits prod.splits outcome.splits)

text \<open>What the pipeline answers, from what the schema and the validator do.\<close>

lemma pipeline_runs:
  assumes "coerces P" "spec_ok s" "\<not> (\<not> fs_required s \<and> v = VNone)"
  shows "case value_schema P s v of
      Raise e \<Rightarrow> (\<exists>es. e = ValidationError es) \<and> filter_pipeline P s v = Raise e
    | Ret x \<Rightarrow> typed_value s x
        \<and> (if empty_range s x then \<exists>es. filter_pipeline P s v = Raise (ValidationError es)
           else if crashes s x then type_clash (filter_pipeline P s v)
           else if admits s x then filter_pipeline P s v = Ret x
           else \<exists>e. filter_pipeline P s v = Raise e \<and> refusal s (Raise e))"
proof -
  have p: "filter_pipeline P s v = oc_bind (value_schema P s v) (run_validator s)"
    using assms(3) by (auto simp: filter_pipeline_def)
  show ?thesis
  proof (cases "value_schema P s v")
    case (Raise e)
    then show ?thesis using value_schema_Raise [OF Raise] by (simp add: p)
  next
    case (Ret x)
    note t = value_schema_typed [OF assms(1) Ret]
    show ?thesis
    proof (cases "empty_range s x")
      case True
      then show ?thesis using validate_empty_range [OF assms(2) True] Ret t by (simp add: p run_validator_def)
    next
      case False
      have r: "\<exists>x. validate s x0 = Raise (AppException x)" if "refusal s (validate s x0)" for x0
        using that by (auto simp: refusal_def)
      show ?thesis
        using validator_decides [OF assms(2) t False] t Ret False r [of x]
        by (auto simp: p run_validator_def answers_def decides_def type_clash_def split: if_splits)
    qed
  qed
qed

lemma pipeline_sound:
  assumes "coerces P" "spec_ok s"
  shows "case filter_pipeline P s v of
       Ret x \<Rightarrow> typed_value s x \<and> admits s x
     | Raise e \<Rightarrow> (\<exists>es. e = ValidationError es) \<or> refusal s (Raise e)
         \<or> (\<exists>m x. e = TypeError m \<and> value_schema P s v = Ret x \<and> typed_value s x \<and> crashes s x)"
proof (cases "\<not> fs_required s \<and> v = VNone")
  case True
  then show ?thesis by (simp add: filter_pipeline_def typed_value_def admits_def given_def)
next
  case False
  then show ?thesis
    using pipeline_runs [OF assms False]
    by (cases "value_schema P s v") (auto simp: type_clash_def split: outcome.splits if_splits)
qed

lemma pipeline_safe:
  assumes "coerces P" "spec_ok s" "fs_base_type s \<noteq> BT_Datetime"
    and "fs_lookup s = L_IN \<longrightarrow> \<not> (\<exists>n fs. fs_base_type s = BT_Model n fs)"
  shows "case filter_pipeline P s v of
       Ret x \<Rightarrow> typed_value s x \<and> admits s x
     | Raise e \<Rightarrow> (\<exists>es. e = ValidationError es) \<or> refusal s (Raise e)"
  using pipeline_sound [OF assms(1,2), of v] crashes_only [OF assms(2)] assms(3,4)
  by (auto split: outcome.splits)

text \<open>
  Claim C33. What a filter's pipeline makes of any raw value, for a well-formed specification: when
  the schema produces a value (and the value is not the omitted one of an optional filter), the
  pipeline returns it exactly when it is of the declared type and admitted; a value the schema
  refuses and a range without ends are validation errors of pydantic, every other value that is not
  admitted is a refusal that names the field; and a \<open>TypeError\<close> escapes exactly where a value meets a
  bound it does not compare with (a naive datetime and an aware bound) or a collection has models as
  items, so only for filters over datetimes and collections of models.
\<close>

theorem pipeline_typed:
  assumes "coerces P" "spec_ok s"
  shows "if \<not> fs_required s \<and> v = VNone then filter_pipeline P s v = Ret VNone
    else (case value_schema P s v of
      Raise e \<Rightarrow> (\<exists>es. e = ValidationError es) \<and> filter_pipeline P s v = Raise e
    | Ret x \<Rightarrow> typed_value s x
        \<and> (if empty_range s x then \<exists>es. filter_pipeline P s v = Raise (ValidationError es)
           else if crashes s x then type_clash (filter_pipeline P s v)
             \<and> (fs_base_type s = BT_Datetime \<or> (fs_lookup s = L_IN \<and> (\<exists>n fs. fs_base_type s = BT_Model n fs)))
           else if admits s x then filter_pipeline P s v = Ret x
           else \<exists>e. filter_pipeline P s v = Raise e \<and> refusal s (Raise e)))"
  using pipeline_runs [OF assms, of v] crashes_only [OF assms(2)]
  by (auto simp: filter_pipeline_def split: outcome.splits)

text \<open>A small instance of the schemas: numbers from digits, instants from microseconds, enum members.\<close>

definition sample_coerce :: "base_type \<Rightarrow> pyval \<Rightarrow> (string, pyval) outcome" where
  "sample_coerce t v =
     (if of_type t v then Ret v
      else (case v of
          VStr s \<Rightarrow>
            if t = BT_Int \<and> s \<noteq> [] \<and> list_all py_digit s then Ret (VInt (int (digits_value 0 s)))
            else if t = BT_Datetime \<and> s \<noteq> [] \<and> list_all py_digit s then Ret (VDatetime (int (digits_value 0 s)))
            else (case t of BT_Enum n ms \<Rightarrow>
                (case find (\<lambda>m. of_type t m \<and> (enum_value m = v \<or> enum_value m = VInt (int (digits_value 0 s)))) ms of
                   None \<Rightarrow> Raise ''enum'' | Some m \<Rightarrow> Ret m)
              | _ \<Rightarrow> Raise ''type'')
        | _ \<Rightarrow> Raise ''type''))"

definition sample_pydantic :: pydantic where
  "sample_pydantic = \<lparr>py_coerce = sample_coerce, py_json = (\<lambda>s. None), py_local = (\<lambda>t. 0)\<rparr>"

lemma sample_coerces [simp]: "coerces sample_pydantic"
  by (auto simp: coerces_def sample_pydantic_def sample_coerce_def find_Some_iff
      split: if_splits pyval.splits base_type.splits option.splits)

theorem pipeline_typed_witness:
  "filter_pipeline sample_pydantic age_range (VStr ''20,'') = Ret (VTuple [VInt 20, VNone])
   \<and> type_clash (filter_pipeline sample_pydantic before_2030 (VNaive 0))"
proof -
  have ok: "spec_ok age_range" "spec_ok before_2030"
    by (simp_all add: spec_ok_def age_range_def range_spec_def with_bounds_def mk_spec_def bound_ok_def
        before_2030_def no_bounds_def)
  have r: "value_schema sample_pydantic age_range (VStr ''20,'') = Ret (VTuple [VInt 20, VNone])"
    "value_schema sample_pydantic before_2030 (VNaive 0) = Ret (VNaive 0)"
    by code_simp+
  have a: "\<not> empty_range age_range (VTuple [VInt 20, VNone])" "\<not> crashes age_range (VTuple [VInt 20, VNone])"
      "admits age_range (VTuple [VInt 20, VNone])" "\<not> empty_range before_2030 (VNaive 0)" "crashes before_2030 (VNaive 0)"
    by (simp_all add: empty_range_def crashes_def admits_def given_def clear_of_bounds_def comparable_def allowed_def
        in_bounds_def chosen_def val_le_def age_range_def range_spec_def with_bounds_def mk_spec_def before_2030_def no_bounds_def)
  show ?thesis
    using pipeline_typed [OF sample_coerces ok(1), of "VStr ''20,''"] pipeline_typed [OF sample_coerces ok(2), of "VNaive 0"]
      r a by simp
qed

end
