(* ===== verification/FilterCompiler.thy ===== *)
theory FilterCompiler
  imports FilterPipeline
begin

text \<open>
  The compiler of filters into conditions (\<open>data_access/orm/adapters/filter_compilers.py\<close>), the
  conditions' meaning on the rows of a table, and the interface a repository relies on.

  A compiler class is a record: the methods found on it by name (its own before the inherited
  ones), its scopes, and the attributes of the mapped model. A method that declares \<open>**meta\<close> gets
  the caller's context, any other only the container.
\<close>

section \<open>Conditions\<close>

datatype sql_cond =
    SqlEq string pyval
  | SqlBetween string pyval pyval
  | SqlGe string pyval
  | SqlLe string pyval
  | SqlGt string pyval
  | SqlLt string pyval
  | SqlIn string "pyval list"
  | SqlIlike string string
  | SqlOr "sql_cond list"

definition ilike :: "pyval \<Rightarrow> string \<Rightarrow> bool" where
  "ilike v pattern = (case v of VStr s \<Rightarrow> like_match (py_lower pattern) (py_lower s) | _ \<Rightarrow> False)"

text \<open>
  Whether a row is selected by a condition. A comparison with \<open>NULL\<close>, on either side, selects
  nothing (\<^const>\<open>val_le\<close> and \<^const>\<open>val_less\<close> are false of \<open>None\<close>).
\<close>

fun cond_holds :: "'r columns \<Rightarrow> 'r \<Rightarrow> sql_cond \<Rightarrow> bool" where
  "cond_holds cols r (SqlEq c x) = (case cols c of None \<Rightarrow> False | Some f \<Rightarrow> f r \<noteq> VNone \<and> py_equal (f r) x)"
| "cond_holds cols r (SqlBetween c x y) = (case cols c of None \<Rightarrow> False | Some f \<Rightarrow> val_le x (f r) \<and> val_le (f r) y)"
| "cond_holds cols r (SqlGe c x) = (case cols c of None \<Rightarrow> False | Some f \<Rightarrow> val_le x (f r))"
| "cond_holds cols r (SqlLe c x) = (case cols c of None \<Rightarrow> False | Some f \<Rightarrow> val_le (f r) x)"
| "cond_holds cols r (SqlGt c x) = (case cols c of None \<Rightarrow> False | Some f \<Rightarrow> val_less x (f r))"
| "cond_holds cols r (SqlLt c x) = (case cols c of None \<Rightarrow> False | Some f \<Rightarrow> val_less (f r) x)"
| "cond_holds cols r (SqlIn c xs) = (case cols c of None \<Rightarrow> False
     | Some f \<Rightarrow> f r \<noteq> VNone \<and> list_ex (py_equal (f r)) xs)"
| "cond_holds cols r (SqlIlike c p) = (case cols c of None \<Rightarrow> False | Some f \<Rightarrow> ilike (f r) p)"
| "cond_holds cols r (SqlOr cs) = list_ex (cond_holds cols r) cs"

definition all_hold :: "'r columns \<Rightarrow> sql_cond list \<Rightarrow> 'r \<Rightarrow> bool" where
  "all_hold cols cs r = list_all (cond_holds cols r) cs"

section \<open>The compiler (filter\_compilers.py)\<close>

record compile_method =
  cm_meta :: bool
  cm_run :: "container \<Rightarrow> attrs \<Rightarrow> (exn, sql_cond) outcome"

record compiler =
  cp_methods :: "(string \<times> compile_method) list"
  cp_scopes :: "string list"
  cp_scoped_fields :: "string list"
  cp_columns :: "string list"

text \<open>\<open>f"{container.value}%"\<close>, for the string values a search is declared over.\<close>

definition prefix_pattern :: "pyval \<Rightarrow> (exn, string) outcome" where
  "prefix_pattern v = (case v of VStr s \<Rightarrow> Ret (s @ ''%'') | _ \<Rightarrow> Raise (OtherError ''the value of a search is a string''))"

text \<open>The inherited \<open>compile_search__eq\<close>, on the model's \<open>name\<close>.\<close>

definition search_by_name :: "string list \<Rightarrow> compile_method" where
  "search_by_name cols = \<lparr>cm_meta = False, cm_run = (\<lambda>c meta.
     if ''name'' \<notin> set cols then Raise (AttributeError ''name'')
     else oc_bind (prefix_pattern (fc_value c)) (\<lambda>p. Ret (SqlIlike ''name'' p)))\<rparr>"

text \<open>
  \<open>__init_subclass__\<close>: every scoped field needs some method for every scope. A class that passes
  gets the inherited method after its own.
\<close>

definition method_prefix :: "string \<Rightarrow> string \<Rightarrow> string" where
  "method_prefix scope fld = scope @ ''__'' @ fld @ ''__''"

definition declare_compiler :: "compiler \<Rightarrow> (exn, compiler) outcome" where
  "declare_compiler cp =
     (let cp' = cp\<lparr>cp_methods := cp_methods cp @ [(''compile_search__eq'', search_by_name (cp_columns cp))]\<rparr>;
          declared = map (\<lambda>n. py_removeprefix n ''compile_'')
            (filter (\<lambda>n. py_startswith n ''compile_'') (map fst (cp_methods cp')));
          missing = concat (map (\<lambda>fld. map (\<lambda>scope. (scope, fld))
            (filter (\<lambda>scope. \<not> list_ex (\<lambda>n. py_startswith n (method_prefix scope fld)) declared) (cp_scopes cp)))
            (cp_scoped_fields cp))
      in if cp_scoped_fields cp = [] then Ret cp'
         else if cp_scopes cp = [] then Raise (TypeError ''scoped_fields without scopes'')
         else if missing \<noteq> [] then Raise (TypeError ''scoped fields without a handler for every scope'')
         else Ret cp')"

definition compile_range :: "string \<Rightarrow> pyval \<Rightarrow> (exn, sql_cond) outcome" where
  "compile_range column v = (case seq_items v of
       Some [low, high] \<Rightarrow>
         if low \<noteq> VNone \<and> high \<noteq> VNone then Ret (SqlBetween column low high)
         else if low \<noteq> VNone then Ret (SqlGe column low)
         else if high \<noteq> VNone then Ret (SqlLe column high)
         else Raise (RuntimeError ''Range filter has no boundary'')
     | _ \<Rightarrow> Raise (ValueError ''not enough or too many values to unpack''))"

text \<open>\<open>not container.value\<close> of a JSON or IN filter counts as no constraint.\<close>

definition is_absent :: "container \<Rightarrow> bool" where
  "is_absent c \<longleftrightarrow> fc_value c = VNone \<or> (fc_lookup c \<in> {L_JSON, L_IN} \<and> \<not> py_truthy (fc_value c))"

definition method_suffix :: "container \<Rightarrow> string" where
  "method_suffix c = fc_field c @ ''__'' @ lookup_value (fc_lookup c)"

definition find_method :: "compiler \<Rightarrow> string \<Rightarrow> compile_method option" where
  "find_method cp name = map_of (cp_methods cp) name"

definition resolve :: "compiler \<Rightarrow> container \<Rightarrow> string option \<Rightarrow> (exn, compile_method option) outcome" where
  "resolve cp c scope =
     (case (case scope of None \<Rightarrow> None
         | Some s \<Rightarrow> find_method cp (''compile_'' @ s @ ''__'' @ method_suffix c)) of
        Some m \<Rightarrow> Ret (Some m)
      | None \<Rightarrow>
          if fc_field c \<in> set (cp_scoped_fields cp)
          then Raise (RuntimeError (if scope = None then ''the caller must pass scope'' else ''no method for the scope''))
          else Ret (find_method cp (''compile_'' @ method_suffix c)))"

definition compile_one :: "compiler \<Rightarrow> attrs \<Rightarrow> string option \<Rightarrow> container \<Rightarrow> (exn, sql_cond) outcome" where
  "compile_one cp meta scope c =
     oc_bind (resolve cp c scope) (\<lambda>found.
       case found of
         Some m \<Rightarrow> cm_run m c (if meta \<noteq> [] \<and> cm_meta m then meta else [])
       | None \<Rightarrow>
           if fc_lookup c = L_JSON then Raise (RuntimeError ''no handler for JSON filter'')
           else if fc_field c \<notin> set (cp_columns cp) then Raise (RuntimeError ''no such column'')
           else (case fc_lookup c of
               L_EQ \<Rightarrow> Ret (SqlEq (fc_field c) (fc_value c))
             | L_RANGE \<Rightarrow> compile_range (fc_field c) (fc_value c)
             | L_IN \<Rightarrow> (case seq_items (fc_value c) of
                   Some xs \<Rightarrow> Ret (SqlIn (fc_field c) xs)
                 | None \<Rightarrow> Raise (OtherError ''in_() accepts a sequence''))
             | L_GT \<Rightarrow> Ret (SqlGt (fc_field c) (fc_value c))
             | L_LT \<Rightarrow> Ret (SqlLt (fc_field c) (fc_value c))
             | L_GTE \<Rightarrow> Ret (SqlGe (fc_field c) (fc_value c))
             | L_LTE \<Rightarrow> Ret (SqlLe (fc_field c) (fc_value c))
             | _ \<Rightarrow> Raise (RuntimeError ''Unknown filter lookup'')))"

definition compile :: "compiler \<Rightarrow> attrs \<Rightarrow> string option \<Rightarrow> container list \<Rightarrow> (exn, sql_cond list) outcome" where
  "compile cp meta scope cs =
     (if (case scope of None \<Rightarrow> False | Some s \<Rightarrow> s \<notin> set (cp_scopes cp))
      then Raise (RuntimeError ''unknown scope'')
      else oc_mapM (compile_one cp meta scope) (filter (\<lambda>c. \<not> is_absent c) cs))"

text \<open>\<open>_compile_filters\<close> of the base repository: no filters, no conditions.\<close>

definition compile_filters :: "compiler \<Rightarrow> container list \<Rightarrow> (exn, sql_cond list) outcome" where
  "compile_filters cp cs = (if cs = [] then Ret [] else compile cp [] None cs)"

section \<open>The meaning of a filter on a column\<close>

text \<open>What a filter of a column asks of the column's value, by lookup.\<close>

definition value_matches :: "lookup \<Rightarrow> pyval \<Rightarrow> pyval \<Rightarrow> bool" where
  "value_matches lk x v = (case lk of
       L_EQ \<Rightarrow> v \<noteq> VNone \<and> py_equal v x
     | L_RANGE \<Rightarrow> (case seq_items x of
           Some [a, b] \<Rightarrow> v \<noteq> VNone \<and> (a \<noteq> VNone \<longrightarrow> val_le a v) \<and> (b \<noteq> VNone \<longrightarrow> val_le v b) | _ \<Rightarrow> False)
     | L_IN \<Rightarrow> (case seq_items x of
           Some xs \<Rightarrow> xs = [] \<or> (v \<noteq> VNone \<and> (\<exists>y \<in> set xs. py_equal v y)) | None \<Rightarrow> False)
     | L_GT \<Rightarrow> val_less x v
     | L_LT \<Rightarrow> val_less v x
     | L_GTE \<Rightarrow> val_le x v
     | L_LTE \<Rightarrow> val_le v x
     | _ \<Rightarrow> False)"

definition column_value :: "'r columns \<Rightarrow> string \<Rightarrow> 'r \<Rightarrow> pyval" where
  "column_value cols name r = (case cols name of None \<Rightarrow> VNone | Some f \<Rightarrow> f r)"

text \<open>A filter on a column without a method of its own, holding a value its specification admits.\<close>

definition column_filter :: "compiler \<Rightarrow> 'r columns \<Rightarrow> filter_spec \<Rightarrow> container \<Rightarrow> bool" where
  "column_filter cp cols s c \<longleftrightarrow> spec_ok s \<and> fs_lookup s \<noteq> L_JSON \<and> fc_lookup c = fs_lookup s
     \<and> typed_value s (fc_value c) \<and> admits s (fc_value c) \<and> fc_value c \<noteq> VNone
     \<and> fc_field c \<in> set (cp_columns cp) \<and> cols (fc_field c) \<noteq> None
     \<and> fc_field c \<notin> set (cp_scoped_fields cp) \<and> find_method cp (''compile_'' @ method_suffix c) = None"

section \<open>Lemmas\<close>

lemma val_le_None [simp]: "\<not> val_le VNone v" "\<not> val_le v VNone" "\<not> val_less VNone v" "\<not> val_less v VNone"
  by (simp_all add: val_le_def val_less_def comparable_def split: option.splits)

lemma val_le_not_None: "val_le a v \<Longrightarrow> v \<noteq> VNone" "val_le v b \<Longrightarrow> v \<noteq> VNone"
  by auto

lemma py_equal_None: "py_equal VNone v \<Longrightarrow> cmp_key v = None"
  by (auto simp: py_equal_def split: option.splits)

lemma compile_method_column:
  "fc_field c \<notin> set (cp_scoped_fields cp) \<Longrightarrow> find_method cp (''compile_'' @ method_suffix c) = None \<Longrightarrow>
   resolve cp c None = Ret None"
  by (simp add: resolve_def)

text \<open>
  A column filter whose value was validated always compiles, and its condition selects a row
  exactly when the row's column matches.
\<close>

lemma compile_column:
  assumes "column_filter cp cols s c" "\<not> is_absent c"
  shows "\<exists>q. compile_one cp meta None c = Ret q
     \<and> (\<forall>r. cond_holds cols r q \<longleftrightarrow> value_matches (fc_lookup c) (fc_value c) (column_value cols (fc_field c) r))"
proof -
  have res: "resolve cp c None = Ret None" and col: "fc_field c \<in> set (cp_columns cp)"
    using assms(1) by (auto simp: column_filter_def compile_method_column)
  obtain f where f: "cols (fc_field c) = Some f" using assms(1) by (auto simp: column_filter_def)
  have lk: "fc_lookup c = fs_lookup s" "typed_value s (fc_value c)" "admits s (fc_value c)" "fc_value c \<noteq> VNone"
      "fs_lookup s \<in> {L_EQ, L_RANGE, L_IN}"
    using assms(1) by (auto simp: column_filter_def spec_ok_def)
  then consider "fc_lookup c = L_EQ" | "fc_lookup c = L_RANGE" | "fc_lookup c = L_IN" by auto
  then show ?thesis
  proof cases
    case 1
    then show ?thesis using res col f by (simp add: compile_one_def value_matches_def column_value_def)
  next
    case 2
    then obtain a b where v: "fc_value c = VTuple [a, b]" "a \<noteq> VNone \<or> b \<noteq> VNone"
      using lk by (auto simp: typed_value_def admits_def given_def split: pyval.splits list.splits)
    then show ?thesis using 2 res col f
      by (auto simp: compile_one_def compile_range_def value_matches_def column_value_def)
  next
    case 3
    then obtain xs where xs: "fc_value c = VTuple xs"
      using lk by (auto simp: typed_value_def split: pyval.splits)
    then have "xs \<noteq> []" using assms(2) 3 by (auto simp: is_absent_def)
    then show ?thesis using 3 res col f xs
      by (auto simp: compile_one_def value_matches_def column_value_def list_ex_iff)
  qed
qed

lemma compile_all:
  assumes "\<And>c. c \<in> set cs \<Longrightarrow> \<not> is_absent c \<Longrightarrow>
      \<exists>q. compile_one cp meta None c = Ret q \<and> (\<forall>r. cond_holds cols r q \<longleftrightarrow> means c r)"
    and "\<And>c r. c \<in> set cs \<Longrightarrow> is_absent c \<Longrightarrow> means c r"
  shows "\<exists>qs. compile cp meta None cs = Ret qs \<and> (\<forall>r. all_hold cols qs r \<longleftrightarrow> (\<forall>c \<in> set cs. means c r))"
  using assms
proof (induction cs)
  case Nil
  then show ?case by (simp add: compile_def all_hold_def)
next
  case (Cons c cs)
  from Cons.IH Cons.prems obtain qs where qs: "compile cp meta None cs = Ret qs"
      "\<And>r. all_hold cols qs r \<longleftrightarrow> (\<forall>c \<in> set cs. means c r)"
    by fastforce
  show ?case
  proof (cases "is_absent c")
    case True
    then show ?thesis using qs Cons.prems(2) by (auto simp: compile_def)
  next
    case False
    then obtain q where "compile_one cp meta None c = Ret q" "\<And>r. cond_holds cols r q \<longleftrightarrow> means c r"
      using Cons.prems(1) [of c] by auto
    then show ?thesis using qs False by (auto simp: compile_def all_hold_def)
  qed
qed

end
