(* ===== verification/UserList.thy ===== *)
theory UserList
  imports FilterCompiler Repositories
begin

text \<open>
  The list of users: \<open>UserListQuery\<close> (\<open>application/identity/queries/user_queries.py\<close>), its filter
  compiler (\<open>data_access/orm/identity/filter_compilers.py\<close>), \<open>get_list\<close> of the user repository, the
  query handler and the route; and, over the interface of a filter compiler, what a list request
  answers.
\<close>

section \<open>ORDER BY\<close>

text \<open>
  \<open>ORDER BY\<close> compares the columns in turn; \<open>NULL\<close> counts as greater than any value. Rows that are
  equal in every column keep the order in which this statement's scan delivers them, which is any.
\<close>

fun null_less :: "order_key option \<Rightarrow> order_key option \<Rightarrow> bool" where
  "null_less (Some a) (Some b) = (a < b)"
| "null_less (Some a) None = True"
| "null_less None y = False"

type_synonym 'r order_exprs = "(('r \<Rightarrow> pyval) \<times> direction) list"

fun row_before :: "'r order_exprs \<Rightarrow> 'r \<Rightarrow> 'r \<Rightarrow> bool" where
  "row_before [] a b = True"
| "row_before ((f, d) # ks) a b =
     (let x = cmp_key (f a); y = cmp_key (f b)
      in if x = y then row_before ks a b
         else (case d of ASC \<Rightarrow> null_less x y | DESC \<Rightarrow> null_less y x))"

fun insert_row :: "('r \<Rightarrow> 'r \<Rightarrow> bool) \<Rightarrow> 'r \<Rightarrow> 'r list \<Rightarrow> 'r list" where
  "insert_row le x [] = [x]"
| "insert_row le x (y # ys) = (if le x y then x # y # ys else y # insert_row le x ys)"

definition sort_rows :: "('r \<Rightarrow> 'r \<Rightarrow> bool) \<Rightarrow> 'r list \<Rightarrow> 'r list" where
  "sort_rows le rows = foldr (insert_row le) rows []"

text \<open>\<open>_apply_ordering\<close>: no ordering leaves the statement as it is.\<close>

definition apply_ordering :: "'r columns \<Rightarrow> ordering_item list option \<Rightarrow> 'r list \<Rightarrow> (exn, 'r list) outcome" where
  "apply_ordering cols ord rows = (if ord = None \<or> ord = Some [] then Ret rows
     else oc_bind (parse_ordering cols ord) (\<lambda>es. Ret (sort_rows (row_before es) rows)))"

section \<open>The query (user\_queries.py, pydantic/types.py)\<close>

text \<open>\<open>ListQuery\<close>: between 1 and 300 rows, 10 by default.\<close>

definition list_query_decls :: "(string \<times> annotation \<times> pyval option) list" where
  "list_query_decls =
     [(''limit'', A_Annotated BT_Int [M_Gt (1 - 1), M_Lt (300 + 1)], Some (VInt 10)),
      (''offset'', A_Annotated BT_Int [M_Gt (0 - 1)], Some (VInt 0))]"

definition status_members :: "pyval list" where
  "status_members = [VEnum ''StatusEnum'' (VInt 1), VEnum ''StatusEnum'' (VInt 0)]"

text \<open>\<open>DATETIME_MAX\<close>, the end of the first day of 2080, in microseconds.\<close>

definition datetime_max :: int where
  "datetime_max = 3471379199 * 1000000"

definition created_at_rn :: annotation where
  "created_at_rn = A_Annotated BT_Datetime [M_Spec (spec_datetime_range None False False
     (no_bounds\<lparr>bd_lte := Some (VDatetime datetime_max)\<rparr>) None)]"

definition user_list_fields :: "(exn, model_field list) outcome" where
  "user_list_fields =
     oc_bind (spec_string None False None None None None) (\<lambda>search.
     oc_bind (spec_enum ''StatusEnum'' status_members None False None None) (\<lambda>status.
     Ret (map meta_field list_query_decls @ filter_meta
       [(''search'', A_Annotated BT_Str [M_Other ''max_length=100, strip_whitespace'', M_Spec search], Some VNone),
        (''status'', A_Annotated (BT_Enum ''StatusEnum'' status_members) [M_Spec status], None),
        (''created_at__rn'', created_at_rn, None)])))"

record user_list_query =
  uq_ordering :: "ordering_item list option"
  uq_attrs :: attrs

definition ordering_allowed :: "string list" where
  "ordering_allowed = [''created_at'', ''email'']"

definition user_list_query_validate :: "pydantic \<Rightarrow> raw_query \<Rightarrow> (exn, user_list_query) outcome" where
  "user_list_query_validate P raw =
     oc_bind user_list_fields (\<lambda>fs.
     oc_bind (both (ordering_field raw) (validate_fields P raw fs)) (\<lambda>(ord, obj).
     case validate_ordering ordering_allowed ord of
       Ret u \<Rightarrow> Ret \<lparr>uq_ordering = ord, uq_attrs = obj\<rparr>
     | Raise (ValueError m) \<Rightarrow> Raise (ValidationError [([], ''value_error'')])
     | Raise e \<Rightarrow> Raise e))"

section \<open>The compiler of user filters (identity/filter\_compilers.py)\<close>

definition opt_text :: "string option \<Rightarrow> pyval" where
  "opt_text x = (case x of None \<Rightarrow> VNone | Some s \<Rightarrow> VStr s)"

definition user_column_list :: "(string \<times> (user_row \<Rightarrow> pyval)) list" where
  "user_column_list =
     [(''email'', \<lambda>u. VStr (u_email u)), (''first_name'', \<lambda>u. VStr (u_first_name u)),
      (''last_name'', \<lambda>u. VStr (u_last_name u)), (''phone'', \<lambda>u. opt_text (u_phone u)),
      (''status'', \<lambda>u. VInt (u_status u)), (''created_at'', \<lambda>u. VDatetime (u_created_at u)),
      (''updated_at'', \<lambda>u. VDatetime (u_updated_at u)), (''is_active'', \<lambda>u. VBool (u_is_active u)),
      (''is_superuser'', \<lambda>u. VBool (u_is_superuser u)),
      (''email_confirmed'', \<lambda>u. VBool (u_email_confirmed u)),
      (''address'', \<lambda>u. opt_text (u_address u)), (''description'', \<lambda>u. opt_text (u_description u)),
      (''information'', \<lambda>u. opt_text (u_information u)), (''password'', \<lambda>u. opt_text (u_password u))]"

definition user_columns :: "user_row columns" where
  "user_columns = map_of user_column_list"

definition user_search :: compile_method where
  "user_search = \<lparr>cm_meta = False, cm_run = (\<lambda>c meta.
     oc_bind (prefix_pattern (fc_value c)) (\<lambda>p.
     Ret (SqlOr [SqlIlike ''first_name'' p, SqlIlike ''last_name'' p, SqlIlike ''email'' p])))\<rparr>"

definition user_compiler_class :: compiler where
  "user_compiler_class = \<lparr>cp_methods = [(''compile_search__eq'', user_search)], cp_scopes = [],
     cp_scoped_fields = [], cp_columns = map fst user_column_list\<rparr>"

section \<open>get\_list (user\_orm\_repository.py)\<close>

record user_list_dto =
  ul_id :: uuid
  ul_email :: string
  ul_full_name :: string
  ul_status :: int
  ul_created_at :: int
  ul_first_name :: string
  ul_last_name :: string
  ul_phone :: "string option"
  ul_avatar_url :: "string option"

record 'd list_response =
  lr_count :: nat
  lr_rows :: "'d list"

definition user_list_dto_of :: "string \<Rightarrow> db \<Rightarrow> user_row \<Rightarrow> user_list_dto" where
  "user_list_dto_of base d r = \<lparr>ul_id = u_id r, ul_email = u_email r,
     ul_full_name = full_name (u_first_name r) (u_last_name r), ul_status = u_status r,
     ul_created_at = u_created_at r, ul_first_name = u_first_name r, ul_last_name = u_last_name r,
     ul_phone = u_phone r, ul_avatar_url = media_url base (avatar_of b_thumbnail_path d r)\<rparr>"

text \<open>
  The statement, over any compiler: the conditions, the count of the matching rows, one page. \<open>scan\<close>
  is the order in which the server delivers the matching rows of this statement; neither a default
  \<open>ORDER BY\<close> nor a unique last sort key fixes it.
\<close>

definition select_page :: "(container list \<Rightarrow> (exn, 'q list) outcome) \<Rightarrow> ('r \<Rightarrow> 'q \<Rightarrow> bool) \<Rightarrow>
    ('r list \<Rightarrow> (exn, 'r list) outcome) \<Rightarrow> nat \<Rightarrow> nat \<Rightarrow> container list \<Rightarrow> ('r list \<Rightarrow> 'r list) \<Rightarrow> 'r list \<Rightarrow>
    (exn, nat \<times> 'r list) outcome" where
  "select_page compile_cs holds order limit offset filters scan table =
     oc_bind (compile_cs filters) (\<lambda>conds.
       let matching = filter (\<lambda>r. list_all (holds r) conds) table
       in oc_bind (order (scan matching)) (\<lambda>rows. Ret (length matching, take limit (drop offset rows))))"

definition get_list :: "string \<Rightarrow> nat \<Rightarrow> nat \<Rightarrow> container list \<Rightarrow> ordering_item list option \<Rightarrow>
    user_list_dto list_response app" where
  "get_list base limit offset filters ord = (\<lambda>w.
     (oc_bind (declare_compiler user_compiler_class) (\<lambda>cp.
      oc_bind (select_page (compile_filters cp) (cond_holds user_columns) (apply_ordering user_columns ord)
        limit offset filters (w_scan w) (db_users (w_work w))) (\<lambda>(n, rows).
      Ret \<lparr>lr_count = n, lr_rows = map (user_list_dto_of base (w_work w)) rows\<rparr>)), w))"

section \<open>Handler and route\<close>

definition int_attr :: "attrs \<Rightarrow> string \<Rightarrow> nat" where
  "int_attr obj name = (case attr obj name of VInt i \<Rightarrow> nat i | _ \<Rightarrow> 0)"

definition user_list_handler :: "string \<Rightarrow> user_list_query \<Rightarrow> user_list_dto list_response app" where
  "user_list_handler base q = py_bind (py_lift user_list_fields) (\<lambda>fs.
     get_list base (int_attr (uq_attrs q) ''limit'') (int_attr (uq_attrs q) ''offset'')
       (parse_filters fs (uq_attrs q)) (uq_ordering q))"

text \<open>
  The \<open>ValidationException\<close> is Litestar's \<open>HTTPException\<close> with status 400; its detail names the request
  (\<open>line\<close>, the method and the URL), its extra lists the errors.
\<close>

definition extra_entry :: "string \<times> string \<Rightarrow> pyval" where
  "extra_entry e = VDict [(''key'', VStr (fst e)), (''message'', VStr (snd e))]"

definition bind_exn :: "string \<Rightarrow> (bind_error, 'q) outcome \<Rightarrow> (exn, 'q) outcome" where
  "bind_exn line r = (case r of Ret q \<Rightarrow> Ret q
     | Raise (BadQuery extra) \<Rightarrow>
         Raise (HTTPException 400 (''Validation failed for '' @ line) (VList (map extra_entry extra)))
     | Raise (Passed e) \<Rightarrow> Raise e)"

definition list_users :: "pydantic \<Rightarrow> string \<Rightarrow> string \<Rightarrow> (string \<times> pyval) list \<Rightarrow> pyval option \<Rightarrow> (string \<times> pyval) list \<Rightarrow>
    user_list_dto list_response app" where
  "list_users P base line query body path =
     py_bind (py_lift (bind_exn line (path_bound_query (user_list_query_validate P) query body path)))
       (user_list_handler base)"

end
