(* ===== verification/Routes.thy ===== *)
theory Routes
  imports Handlers Http Blob UserList
begin

text \<open>
  The whole way of a request: the registration of the handlers with the mediator
  (\<open>infra/cqrs/*/register_*.py\<close>), the controllers (\<open>api/http/routers/v1\<close>) and the middleware and error
  handler around them.
\<close>

section \<open>Messages and answers\<close>

datatype message =
    RegisterCommand register_command
  | ConfirmEmailCommand string string
  | ResendEmailConfirmationCommand string
  | LoginCommand string string
  | RefreshTokenCommand string
  | ForgotPasswordStep1Command string
  | ForgotPasswordStep2Command string string
  | ForgotPasswordStep3Command string string string
  | UserUpdateMeCommand user_update_params
  | ChangePasswordCommand string string
  | UserToggleStatusCommand uuid
  | MeQuery uuid
  | UserDetailedQuery uuid
  | UserListQuery user_list_query
  | BlobUploadCommand blob_upload
  | BlobDeleteCommand uuid
  | BlobByIdQuery uuid
  | BlobListQuery nat nat

text \<open>The class of a message, the key of the mediator's registries.\<close>

datatype message_class = RegisterC | ConfirmEmailC | ResendEmailConfirmationC | LoginC | RefreshTokenC
  | ForgotPasswordStep1C | ForgotPasswordStep2C | ForgotPasswordStep3C | UserUpdateMeC | ChangePasswordC
  | UserToggleStatusC | MeQ | UserDetailedQ | UserListQ | BlobUploadC | BlobDeleteC | BlobByIdQ | BlobListQ

fun class_of_message :: "message \<Rightarrow> message_class" where
  "class_of_message (RegisterCommand c) = RegisterC"
| "class_of_message (ConfirmEmailCommand e code) = ConfirmEmailC"
| "class_of_message (ResendEmailConfirmationCommand e) = ResendEmailConfirmationC"
| "class_of_message (LoginCommand e p) = LoginC"
| "class_of_message (RefreshTokenCommand t) = RefreshTokenC"
| "class_of_message (ForgotPasswordStep1Command e) = ForgotPasswordStep1C"
| "class_of_message (ForgotPasswordStep2Command e code) = ForgotPasswordStep2C"
| "class_of_message (ForgotPasswordStep3Command e code p) = ForgotPasswordStep3C"
| "class_of_message (UserUpdateMeCommand p) = UserUpdateMeC"
| "class_of_message (ChangePasswordCommand old new) = ChangePasswordC"
| "class_of_message (UserToggleStatusCommand i) = UserToggleStatusC"
| "class_of_message (MeQuery i) = MeQ"
| "class_of_message (UserDetailedQuery i) = UserDetailedQ"
| "class_of_message (UserListQuery q) = UserListQ"
| "class_of_message (BlobUploadCommand b) = BlobUploadC"
| "class_of_message (BlobDeleteCommand i) = BlobDeleteC"
| "class_of_message (BlobByIdQuery i) = BlobByIdQ"
| "class_of_message (BlobListQuery l k) = BlobListQ"

datatype answer = Nothing | Message string | Tokens token_pair | Recovery recovery_user | User user_detailed
  | Users "user_list_dto list_response" | Stored blob_list_dto | Stored_Detailed blob_detailed
  | Stored_List nat "blob_list_dto list"

text \<open>A handler answers with a \<open>Result\<close>, the two list handlers with a plain value.\<close>

datatype reply = Res "answer result_detailed" | Plain answer

text \<open>What the containers of \<open>infra/di\<close> put into the handlers.\<close>

record deps =
  dp_libs :: libs
  dp_jwt :: jwt_config
  dp_key_secret :: bytes
  dp_media_base :: string
  dp_media :: media
  dp_pydantic :: pydantic

type_synonym handler = "(world, message, reply) cq_handler"

definition answers :: "('v \<Rightarrow> answer) \<Rightarrow> 'v result_detailed app \<Rightarrow> reply app" where
  "answers f m = py_bind m (\<lambda>r. py_ret (Res (case r of Ok v \<Rightarrow> Ok (f v) | Err e \<Rightarrow> Err e)))"

definition lists :: "('v \<Rightarrow> answer) \<Rightarrow> 'v app \<Rightarrow> reply app" where
  "lists f m = py_bind m (\<lambda>v. py_ret (Plain (f v)))"

text \<open>A handler is only called with messages of the class it is registered for.\<close>

definition wrong_message :: "reply app" where
  "wrong_message = py_raise (TypeError ''message'')"

section \<open>Registration (register\_identity.py, register\_blob.py)\<close>

text \<open>The handler objects, as the factories of the container make them.\<close>

definition identity_commands :: "deps \<Rightarrow> (message_class \<times> handler) list" where
  "identity_commands D =
     [(RegisterC, \<lambda>m. case m of RegisterCommand c \<Rightarrow> answers (\<lambda>_. Nothing) (register_handler (dp_libs D) c) | _ \<Rightarrow> wrong_message),
      (ConfirmEmailC, \<lambda>m. case m of ConfirmEmailCommand e c \<Rightarrow> answers (\<lambda>_. Nothing) (confirm_email_handler e c) | _ \<Rightarrow> wrong_message),
      (ResendEmailConfirmationC, \<lambda>m. case m of ResendEmailConfirmationCommand e \<Rightarrow> answers Message (resend_handler e) | _ \<Rightarrow> wrong_message),
      (LoginC, \<lambda>m. case m of LoginCommand e p \<Rightarrow> answers Tokens (login_handler (dp_libs D) (dp_jwt D) e p) | _ \<Rightarrow> wrong_message),
      (RefreshTokenC, \<lambda>m. case m of RefreshTokenCommand t \<Rightarrow> answers Tokens (refresh_handler (dp_libs D) (dp_jwt D) t) | _ \<Rightarrow> wrong_message),
      (ForgotPasswordStep1C, \<lambda>m. case m of ForgotPasswordStep1Command e \<Rightarrow> answers Message (forgot_step1 e) | _ \<Rightarrow> wrong_message),
      (ForgotPasswordStep2C, \<lambda>m. case m of ForgotPasswordStep2Command e c \<Rightarrow> answers Recovery (forgot_step2 (dp_media_base D) e c) | _ \<Rightarrow> wrong_message),
      (ForgotPasswordStep3C, \<lambda>m. case m of ForgotPasswordStep3Command e c p \<Rightarrow> answers Message (forgot_step3 (dp_libs D) e c p) | _ \<Rightarrow> wrong_message),
      (UserUpdateMeC, \<lambda>m. case m of UserUpdateMeCommand p \<Rightarrow> answers (\<lambda>_. Nothing) (update_me_handler p) | _ \<Rightarrow> wrong_message),
      (ChangePasswordC, \<lambda>m. case m of ChangePasswordCommand a b \<Rightarrow> answers (\<lambda>_. Nothing) (change_password_handler (dp_libs D) a b) | _ \<Rightarrow> wrong_message),
      (UserToggleStatusC, \<lambda>m. case m of UserToggleStatusCommand i \<Rightarrow> answers (\<lambda>_. Nothing) (toggle_status_handler i) | _ \<Rightarrow> wrong_message)]"

definition identity_queries :: "deps \<Rightarrow> (message_class \<times> handler) list" where
  "identity_queries D =
     [(MeQ, \<lambda>m. case m of MeQuery i \<Rightarrow> answers User (me_handler (dp_media_base D) i) | _ \<Rightarrow> wrong_message),
      (UserDetailedQ, \<lambda>m. case m of UserDetailedQuery i \<Rightarrow> answers User (user_detailed_handler (dp_media_base D) i) | _ \<Rightarrow> wrong_message),
      (UserListQ, \<lambda>m. case m of UserListQuery q \<Rightarrow> lists Users (user_list_handler (dp_media_base D) q) | _ \<Rightarrow> wrong_message)]"

definition blob_commands :: "deps \<Rightarrow> (message_class \<times> handler) list" where
  "blob_commands D =
     [(BlobUploadC, \<lambda>m. case m of BlobUploadCommand b \<Rightarrow> answers Stored (upload_handler (dp_media D) (dp_media_base D) b) | _ \<Rightarrow> wrong_message),
      (BlobDeleteC, \<lambda>m. case m of BlobDeleteCommand i \<Rightarrow> answers (\<lambda>_. Nothing) (delete_handler i) | _ \<Rightarrow> wrong_message)]"

definition blob_queries :: "deps \<Rightarrow> (message_class \<times> handler) list" where
  "blob_queries D =
     [(BlobByIdQ, \<lambda>m. case m of BlobByIdQuery i \<Rightarrow> answers Stored_Detailed (blob_detailed_handler (dp_media_base D) i) | _ \<Rightarrow> wrong_message),
      (BlobListQ, \<lambda>m. case m of BlobListQuery l k \<Rightarrow> lists (\<lambda>(n, bs). Stored_List n bs) (blob_list_handler (dp_media_base D) l k) | _ \<Rightarrow> wrong_message)]"

type_synonym app_mediator = "(world, message, message_class, reply) mediator"

definition register_all :: "(message_class \<times> handler) list \<Rightarrow> (message_class \<times> handler) list \<Rightarrow> app_mediator \<Rightarrow> app_mediator" where
  "register_all commands queries md =
     fold (\<lambda>(t, h). register_query_factory t (\<lambda>u. h)) queries
       (fold (\<lambda>(t, h). register_command_factory t (\<lambda>u. h)) commands md)"

definition setup_identity :: "deps \<Rightarrow> app_mediator \<Rightarrow> app_mediator" where
  "setup_identity D = register_all (identity_commands D) (identity_queries D)"

definition setup_blob :: "deps \<Rightarrow> app_mediator \<Rightarrow> app_mediator" where
  "setup_blob D = register_all (blob_commands D) (blob_queries D)"

definition app_mediator :: "deps \<Rightarrow> app_mediator" where
  "app_mediator D = setup_blob D (setup_identity D new_mediator)"

section \<open>Controllers\<close>

definition unwrap_reply :: "reply \<Rightarrow> answer app" where
  "unwrap_reply r = (case r of
       Res (Ok a) \<Rightarrow> py_ret a
     | Res (Err ds) \<Rightarrow> py_raise (case as_app_exception (Err ds :: answer result_detailed) of Ret x \<Rightarrow> AppException x | Raise e \<Rightarrow> e)
     | Plain a \<Rightarrow> py_ret a)"

definition send_to :: "deps \<Rightarrow> message \<Rightarrow> answer app" where
  "send_to D m = py_bind (send_command class_of_message (app_mediator D) m) unwrap_reply"

definition ask_for :: "deps \<Rightarrow> message \<Rightarrow> answer app" where
  "ask_for D m = py_bind (ask_query class_of_message (app_mediator D) m) unwrap_reply"

text \<open>
  A request to one of the routes of each controller, with its validated body, the id of its path or
  the sources of its query; and the status of success of its decorator.
\<close>

datatype auth_request = Register register_command | Confirm_Email string string | Resend string
  | Login string string | Refresh string

fun auth_controller :: "deps \<Rightarrow> auth_request \<Rightarrow> answer app" where
  "auth_controller D (Register c) = send_to D (RegisterCommand c)"
| "auth_controller D (Confirm_Email e code) = send_to D (ConfirmEmailCommand e code)"
| "auth_controller D (Resend e) = send_to D (ResendEmailConfirmationCommand e)"
| "auth_controller D (Login e p) = send_to D (LoginCommand e p)"
| "auth_controller D (Refresh t) = send_to D (RefreshTokenCommand t)"

fun auth_status :: "auth_request \<Rightarrow> int" where
  "auth_status (Register c) = 201"
| "auth_status (Confirm_Email e code) = 204"
| "auth_status r = 200"

datatype forgot_request = Step1 string | Step2 string string | Step3 string string string

fun forgot_controller :: "deps \<Rightarrow> forgot_request \<Rightarrow> answer app" where
  "forgot_controller D (Step1 e) = send_to D (ForgotPasswordStep1Command e)"
| "forgot_controller D (Step2 e code) = send_to D (ForgotPasswordStep2Command e code)"
| "forgot_controller D (Step3 e code p) = send_to D (ForgotPasswordStep3Command e code p)"

datatype user_request = Me | Update_Me user_update_params | Change_Password string string
  | List_Users string "(string \<times> pyval) list" "pyval option" | User_Detailed uuid | Toggle_Status uuid

text \<open>Every route has the \<open>user\<close>; only \<open>me\<close> reads it. A list request carries its method and URL.\<close>

fun user_controller :: "deps \<Rightarrow> principal option \<Rightarrow> user_request \<Rightarrow> answer app" where
  "user_controller D user Me = (case user of
     None \<Rightarrow> py_raise (AttributeError ''id'') | Some p \<Rightarrow> ask_for D (MeQuery (principal_id p)))"
| "user_controller D user (Update_Me p) = send_to D (UserUpdateMeCommand p)"
| "user_controller D user (Change_Password a b) = send_to D (ChangePasswordCommand a b)"
| "user_controller D user (List_Users line query body) =
     py_bind (py_lift (bind_exn line (path_bound_query (user_list_query_validate (dp_pydantic D)) query body [])))
       (\<lambda>q. ask_for D (UserListQuery q))"
| "user_controller D user (User_Detailed i) = ask_for D (UserDetailedQuery i)"
| "user_controller D user (Toggle_Status i) = send_to D (UserToggleStatusCommand i)"

fun user_status :: "user_request \<Rightarrow> int" where
  "user_status (Update_Me p) = 204"
| "user_status (Change_Password a b) = 204"
| "user_status (Toggle_Status i) = 204"
| "user_status r = 200"

datatype blob_request = Upload blob_upload | List_Blobs nat nat | Blob_Detailed uuid | Delete_Blob uuid

fun blob_controller :: "deps \<Rightarrow> blob_request \<Rightarrow> answer app" where
  "blob_controller D (Upload b) = send_to D (BlobUploadCommand b)"
| "blob_controller D (List_Blobs l k) = ask_for D (BlobListQuery l k)"
| "blob_controller D (Blob_Detailed i) = ask_for D (BlobByIdQuery i)"
| "blob_controller D (Delete_Blob i) = send_to D (BlobDeleteCommand i)"

fun blob_status :: "blob_request \<Rightarrow> int" where
  "blob_status (Upload b) = 201"
| "blob_status (Delete_Blob i) = 204"
| "blob_status r = 200"

section \<open>A request\<close>

text \<open>
  The middleware finds out who asks, the \<open>user\<close> of a guarded route is resolved before its other
  dependencies, the controller runs, and the error handler answers for an exception. \<open>render\<close> is the
  serialisation of the answer.
\<close>

datatype request = Auth_Route auth_request | Forgot_Route forgot_request | User_Route user_request | Blob_Route blob_request

definition guarded :: "request \<Rightarrow> bool" where
  "guarded r = (case r of User_Route _ \<Rightarrow> True | Blob_Route _ \<Rightarrow> True | _ \<Rightarrow> False)"

definition success_status :: "request \<Rightarrow> int" where
  "success_status r = (case r of Auth_Route a \<Rightarrow> auth_status a | Forgot_Route f \<Rightarrow> 200
     | User_Route u \<Rightarrow> user_status u | Blob_Route b \<Rightarrow> blob_status b)"

record credentials =
  cr_bearer :: "string option"
  cr_api_key :: "string option"

definition run_request :: "deps \<Rightarrow> credentials \<Rightarrow> request \<Rightarrow> answer app" where
  "run_request D c r =
     (let unguarded = (\<lambda>body. auth_middleware (dp_libs D) (dp_jwt D) (dp_key_secret D) (cr_bearer c) (cr_api_key c) (\<lambda>st. body));
          with_user = user_route (dp_libs D) (dp_jwt D) (dp_key_secret D) (cr_bearer c) (cr_api_key c)
      in case r of
           Auth_Route a \<Rightarrow> unguarded (auth_controller D a)
         | Forgot_Route f \<Rightarrow> unguarded (forgot_controller D f)
         | User_Route u \<Rightarrow> with_user (\<lambda>user. user_controller D user u)
         | Blob_Route b \<Rightarrow> with_user (\<lambda>user. blob_controller D b))"

definition serve_request ::
  "bool \<Rightarrow> (exn \<Rightarrow> error_context) \<Rightarrow> (answer \<Rightarrow> pyval) \<Rightarrow> deps \<Rightarrow> credentials \<Rightarrow> request \<Rightarrow> world \<Rightarrow> response \<times> world" where
  "serve_request debug ctx render D c r w =
     (case run_request D c r w of
        (Ret a, w') \<Rightarrow> (\<lparr>rs_status = success_status r, rs_body = render a\<rparr>, w')
      | (Raise e, w') \<Rightarrow> (exception_handler debug ctx e, w'))"

end
