(* ===== verification/HttpFlows.thy ===== *)
theory HttpFlows
  imports Http AccountFlows
begin

text \<open>
  The boundary end to end: which requests reach a guarded route and as whom, what stays behind
  after a request, and what the error responses tell.
\<close>

section \<open>Dispatch\<close>

lemma send_registered:
  "send_command type_of (register_command_factory t h md) m =
     (if type_of m = t then h () m else send_command type_of md m)"
  "ask_query type_of (register_command_factory t h md) = ask_query type_of md"
  "ask_query type_of (register_query_factory t h md) m =
     (if type_of m = t then h () m else ask_query type_of md m)"
  "send_command type_of (register_query_factory t h md) = send_command type_of md"
  by (auto simp: send_command_def ask_query_def register_command_factory_def register_query_factory_def invoke_def)

lemma send_unregistered: "send_command type_of new_mediator m w = (Raise (KeyError ''command''), w)"
  by (simp add: send_command_def new_mediator_def)

text \<open>The first pipeline is the outermost; a message never meets one, for \<open>_invoke\<close> does not wrap.\<close>

lemma wrap_pipelines_order:
  "wrap_pipelines (md\<lparr>md_pipelines := p # ps\<rparr>) h = p (wrap_pipelines (md\<lparr>md_pipelines := ps\<rparr>) h)"
  by (simp add: wrap_pipelines_def)

lemma pipelines_ignored:
  "send_command type_of (md\<lparr>md_pipelines := ps\<rparr>) = send_command type_of md"
  by (rule ext) (simp add: send_command_def)

section \<open>Who reaches a guarded route\<close>

definition context_of :: "user_row \<Rightarrow> user_context" where
  "context_of r = \<lparr>ux_id = u_id r, ux_email = u_email r, ux_first_name = u_first_name r,
     ux_last_name = u_last_name r, ux_is_active = u_is_active r\<rparr>"

text \<open>
  The account a token stands for, if it may act: it decodes, its claims are those of a payload, and
  its user exists and is active. A token whose signature holds but whose claims are no payload is
  malformed: the validation error of its claims.
\<close>

definition token_claims :: "libs \<Rightarrow> jwt_config \<Rightarrow> int \<Rightarrow> string \<Rightarrow> claims option" where
  "token_claims L cfg now token = jw_decode L token (jc_secret_key cfg) (jc_algorithm cfg) now"

definition token_malformed :: "libs \<Rightarrow> jwt_config \<Rightarrow> int \<Rightarrow> string \<Rightarrow> (string list \<times> string) list option" where
  "token_malformed L cfg now token = (case token_claims L cfg now token of
     None \<Rightarrow> None
   | Some c \<Rightarrow> (case jw_payload L c of Inl errors \<Rightarrow> Some errors | Inr p \<Rightarrow> None))"

definition token_account :: "libs \<Rightarrow> jwt_config \<Rightarrow> db \<Rightarrow> int \<Rightarrow> string \<Rightarrow> user_row option" where
  "token_account L cfg d now token =
     (case token_claims L cfg now token of
        None \<Rightarrow> None
      | Some c \<Rightarrow> (case jw_payload L c of
            Inl errors \<Rightarrow> None
          | Inr p \<Rightarrow> (case jp_user_id p of
                None \<Rightarrow> None
              | Some i \<Rightarrow> find (\<lambda>r. u_id r = i \<and> u_is_active r) (db_users d))))"

lemma raise_unauthorized_run:
  "raise_unauthorized msg st w = (Raise (AppException \<lparr>ex_message = message_text msg, ex_status_code = Some 401,
     ex_exception_status = Some st, ex_details = None\<rparr>), w)"
  by (simp add: raise_unauthorized_def mk_app_exception_def)

lemma context_read:
  assumes "db_ok (w_work w)"
  shows "get_for_context i w = (Ret (map_option context_of (find (\<lambda>r. u_id r = i) (db_users (w_work w)))), w)"
  using users_by_id [OF assms, of i]
  by (cases "find (\<lambda>r. u_id r = i) (db_users (w_work w))")
    (simp_all add: get_for_context_def select_users_def py_bind_app context_of_def)

lemma find_active:
  assumes "distinct (map u_id us)"
  shows "find (\<lambda>r. u_id r = i \<and> u_is_active r) us =
    (case find (\<lambda>r. u_id r = i) us of None \<Rightarrow> None | Some r \<Rightarrow> if u_is_active r then Some r else None)"
  using assms
proof (induction us)
  case (Cons u us)
  show ?case
  proof (cases "u_id u = i \<and> \<not> u_is_active u")
    case True
    then have "\<forall>r \<in> set us. u_id r \<noteq> i" using Cons.prems by auto (metis image_eqI)
    then show ?thesis using True by (auto simp: find_None_iff)
  next
    case False
    then show ?thesis using Cons by auto
  qed
qed simp

lemma token_run:
  assumes "db_ok (w_work w)" "token \<noteq> []"
  shows "case token_account L cfg (w_work w) (epoch w 0) token of
      Some r \<Rightarrow> get_current_user_from_token L cfg token w = (Ret (context_of r), w\<lparr>w_tick := Suc (w_tick w)\<rparr>)
    | None \<Rightarrow> (case token_malformed L cfg (epoch w 0) token of
          Some errors \<Rightarrow> get_current_user_from_token L cfg token w = (Raise (ValidationError errors), w\<lparr>w_tick := Suc (w_tick w)\<rparr>)
        | None \<Rightarrow> \<exists>x. get_current_user_from_token L cfg token w = (Raise (AppException x), w\<lparr>w_tick := Suc (w_tick w)\<rparr>)
            \<and> ex_status_code x = Some 401)"
proof -
  let ?w = "w\<lparr>w_tick := Suc (w_tick w)\<rparr>"
  have d: "distinct (map u_id (db_users (w_work w)))" using assms(1) by (simp add: db_ok_def)
  have g: "get_for_context i ?w = (Ret (map_option context_of (find (\<lambda>r. u_id r = i) (db_users (w_work w)))), ?w)" for i
    using context_read [of ?w i] assms(1) by simp
  show ?thesis
    using assms(2)
    by (auto simp: token_account_def token_malformed_def token_claims_def find_active [OF d] get_current_user_from_token_def py_bind_app
        decode_payload_def utc_epoch_int_def get_now_def epoch_def g raise_unauthorized_run context_of_def
        split: option.splits sum.splits)
qed

lemma malformed_no_account: "token_malformed L cfg now token = Some es \<Longrightarrow> token_account L cfg d now token = None"
  by (auto simp: token_malformed_def token_account_def split: option.splits sum.splits)

text \<open>The token of a request: two words in the authorization header, and no API key beside it.\<close>

definition bearer_token :: "string option \<Rightarrow> string option \<Rightarrow> string option" where
  "bearer_token jwt api_key =
     (if header_given api_key \<or> \<not> header_given jwt then None
      else case py_split (CHR '' '') (py_strip (the jwt)) of
        [scheme, token] \<Rightarrow> if token = [] then None else Some token
      | _ \<Rightarrow> None)"

definition auth_error :: "exn \<Rightarrow> bool" where
  "auth_error e \<longleftrightarrow> (case e of
       HTTPException st m extra \<Rightarrow> st = 400 \<or> st = 401
     | AppException x \<Rightarrow> ex_status_code x = Some 401 | _ \<Rightarrow> False)"

lemma authenticate_token:
  assumes "db_ok (w_work w)" "bearer_token jwt api_key = Some token"
  shows "case token_account L cfg (w_work w) (epoch w 0) token of
      Some r \<Rightarrow> authenticate L cfg secret jwt api_key w
        = (Ret \<lparr>rq_user = Some (TokenUser (context_of r)), rq_api_key = None\<rparr>, w\<lparr>w_tick := Suc (w_tick w)\<rparr>)
    | None \<Rightarrow> (case token_malformed L cfg (epoch w 0) token of
          Some errors \<Rightarrow> authenticate L cfg secret jwt api_key w = (Raise (ValidationError errors), w\<lparr>w_tick := Suc (w_tick w)\<rparr>)
        | None \<Rightarrow> \<exists>x. authenticate L cfg secret jwt api_key w = (Raise (AppException x), w\<lparr>w_tick := Suc (w_tick w)\<rparr>)
            \<and> ex_status_code x = Some 401)"
proof -
  obtain scheme where t: "py_split (CHR '' '') (py_strip (the jwt)) = [scheme, token]" "token \<noteq> []"
      "header_given jwt" "\<not> header_given api_key"
    using assms(2) by (auto simp: bearer_token_def split: if_splits list.splits)
  show ?thesis
    using token_run [OF assms(1) t(2), of L cfg] t
    by (auto simp: authenticate_def py_bind_app split: option.splits)
qed

lemma authenticate_other:
  assumes "bearer_token jwt api_key = None"
  shows "\<exists>r. authenticate L cfg secret jwt api_key w = (r, w)
    \<and> (case r of Raise e \<Rightarrow> auth_error e | Ret st \<Rightarrow> rq_api_key st = None \<longrightarrow> rq_user st = None)"
proof -
  have "(case py_split (CHR '' '') (py_strip (the jwt)) of [scheme, token] \<Rightarrow> token = [] | _ \<Rightarrow> True)"
    if "header_given jwt" "\<not> header_given api_key"
    using assms that by (auto simp: bearer_token_def split: if_splits list.splits)
  then show ?thesis
    by (auto simp: authenticate_def auth_error_def py_bind_app get_current_user_from_token_def
        raise_unauthorized_run api_key_get_with_owner_def api_key_repo_get_def split: option.splits list.splits)
qed

lemma refused_guard:
  assumes "rq_api_key st = None \<longrightarrow> rq_user st = None"
  shows "with_context u (py_bind (get_current_user_from_request True False st) h) w
    = (Raise (HTTPException 401 (message_text MAccessTokenRequired) VNone), w)"
  using assms
  by (cases w) (auto simp: with_context_def get_current_user_from_request_def py_bind_app)

lemma user_route_runs:
  assumes "db_ok (w_work w)"
  shows "case Option.bind (bearer_token jwt api_key) (token_account L cfg (w_work w) (epoch w 0)) of
      Some r \<Rightarrow> user_route L cfg secret jwt api_key h w =
        (let (res, w') = h (Some (TokenUser (context_of r))) (w\<lparr>w_tick := Suc (w_tick w), w_user := Some (u_id r)\<rparr>)
         in (res, w'\<lparr>w_user := w_user w\<rparr>))
    | None \<Rightarrow> \<exists>e k. user_route L cfg secret jwt api_key h w = (Raise e, w\<lparr>w_tick := k\<rparr>)
        \<and> (case Option.bind (bearer_token jwt api_key) (token_malformed L cfg (epoch w 0)) of
             Some errors \<Rightarrow> e = ValidationError errors | None \<Rightarrow> auth_error e)"
proof (cases "bearer_token jwt api_key")
  case None
  obtain r where r: "authenticate L cfg secret jwt api_key w = (r, w)"
      "case r of Raise e \<Rightarrow> auth_error e | Ret st \<Rightarrow> rq_api_key st = None \<longrightarrow> rq_user st = None"
    using authenticate_other [OF None] by blast
  have "\<exists>e. user_route L cfg secret jwt api_key h w = (Raise e, w) \<and> auth_error e"
    using r by (cases r) (auto simp: user_route_def auth_middleware_def py_bind_app [of "authenticate _ _ _ _ _"]
        refused_guard auth_error_def)
  then show ?thesis using None by (auto intro!: exI [of _ "w_tick w"])
next
  case (Some token)
  note a = authenticate_token [OF assms Some, of L cfg secret]
  show ?thesis
  proof (cases "token_account L cfg (w_work w) (epoch w 0) token")
    case None
    then show ?thesis using a Some
      by (cases "token_malformed L cfg (epoch w 0) token")
        (auto simp: user_route_def auth_middleware_def py_bind_app auth_error_def intro!: exI [of _ "Suc (w_tick w)"])
  next
    case r: (Some r)
    then show ?thesis using a Some
      by (auto simp: user_route_def auth_middleware_def py_bind_app auth_error_def with_context_def
          get_current_user_from_request_def context_of_def split: prod.splits)
  qed
qed

text \<open>
  Claim C7. A route that needs a user runs exactly for requests that carry a token, and no API key,
  whose token is valid now and whose account exists and is active: then it runs once, as that
  account, and the acting user is forgotten afterwards, whether it returns or raises. Every other
  request (a disabled or deleted account included) fails before the route runs, with 400 or 401, or,
  for a signed token whose claims are no payload, with the validation error of its claims, and
  changes nothing.
\<close>

theorem user_route_spec:
  assumes "db_ok (w_work w)"
  shows "case Option.bind (bearer_token jwt api_key) (token_account L cfg (w_work w) (epoch w 0)) of
      Some r \<Rightarrow> user_route L cfg secret jwt api_key h w =
        (let (res, w') = h (Some (TokenUser (context_of r))) (w\<lparr>w_tick := Suc (w_tick w), w_user := Some (u_id r)\<rparr>)
         in (res, w'\<lparr>w_user := w_user w\<rparr>))
    | None \<Rightarrow> \<exists>e k. user_route L cfg secret jwt api_key h w = (Raise e, w\<lparr>w_tick := k\<rparr>)
        \<and> (case Option.bind (bearer_token jwt api_key) (token_malformed L cfg (epoch w 0)) of
             Some errors \<Rightarrow> e = ValidationError errors | None \<Rightarrow> auth_error e)"
  using assms by (rule user_route_runs)


definition token_libs :: libs where
  "token_libs = sample_libs\<lparr>jw_decode := (\<lambda>t k a now. if now < 5000 then Some [(''user_id'', VStr t)] else None),
     jw_payload := (\<lambda>c. if map_of c ''user_id'' = Some (VStr ''eve'') then Inl [([''exp''], ''Input should be a valid integer'')]
       else Inr \<lparr>jp_token_type = Some ACCESS_TOKEN, jp_exp = 5000, jp_iat = 0, jp_jti = 0,
         jp_user_id = (if map_of c ''user_id'' = Some (VStr ''ann'') then Some 1 else Some 2), jp_last_login_time = None\<rparr>)\<rparr>"

theorem user_route_spec_witness:
  "fst (user_route token_libs (default_jwt_config []) [] (Some ''Bearer ann'') None (\<lambda>u. py_read w_user) sample_world)
     = Ret (Some 1)"
proof -
  have b: "bearer_token (Some ''Bearer ann'') None = Some ''ann''" by code_simp
  have t: "token_account token_libs (default_jwt_config []) (w_work sample_world) (epoch sample_world 0) ''ann'' = Some ann"
    by (simp add: token_account_def token_claims_def token_libs_def epoch_def sample_defs)
  have "db_ok (w_work sample_world)" using sample_db_ok by (simp add: sample_world_def)
  note r = user_route_spec [OF this, of token_libs "default_jwt_config []" "[]" "Some ''Bearer ann''" None
      "\<lambda>u. py_read w_user", unfolded b bind.bind_lunit t option.case]
  show ?thesis unfolding r by (simp add: ann_def)
qed

text \<open>A refresh token opens a route just as an access token does: its type is never looked at.\<close>

lemma token_type_ignored:
  assumes "token_claims L cfg now t1 = Some c1" "jw_payload L c1 = Inr p"
    and "token_claims L cfg now t2 = Some c2" "jw_payload L c2 = Inr (p\<lparr>jp_token_type := Some REFRESH_TOKEN\<rparr>)"
  shows "token_account L cfg d now t1 = token_account L cfg d now t2"
  using assms by (simp add: token_account_def)

section \<open>What responses tell\<close>

definition expected_error :: "exn \<Rightarrow> bool" where
  "expected_error e \<longleftrightarrow> (case e of AppException x \<Rightarrow> True | ValidationError v \<Rightarrow> True | HTTPException st m extra \<Rightarrow> True | _ \<Rightarrow> False)"

text \<open>
  Business errors are answered with 400 (whatever status code they carry), validation
  errors with 422, HTTP errors with their own status, and every other exception with 500; outside
  debug environments the body of a 500 is one constant, whatever was raised.
\<close>

theorem exception_handler_spec:
  "rs_status (exception_handler debug ctx e) =
     (case e of AppException x \<Rightarrow> 400 | ValidationError v \<Rightarrow> 422 | HTTPException st m extra \<Rightarrow> st | _ \<Rightarrow> 500)
   \<and> (expected_error e \<or> expected_error e' \<or> exception_handler False ctx e = exception_handler False ctx' e')"
  by (cases e; cases e') (simp_all add: exception_handler_def expected_error_def)

text \<open>
  Every refused login gets the same response, status and body: neither tells an unknown
  address from a wrong password or from an account that is disabled or not confirmed.
\<close>

theorem refused_login_response:
  assumes "session_clear w" "db_ok (w_committed w)" "\<not> may_login L (w_committed w) email password"
  shows "fst (respond debug ctx 200 render (login_handler L cfg email password) w) =
    \<lparr>rs_status = 400, rs_body = VDict [(''detail'', VStr ''Invalid login credentials.'')]\<rparr>"
proof -
  obtain w' where "login_handler L cfg email password w = (Ret (Err [invalid_credentials]), w')"
    using with_uow_unchanged [of "login L cfg email password", OF login_refused [OF assms]
        session_clear_untouched [OF assms(1)]]
    by (auto simp: login_handler_def)
  then show ?thesis
    by (simp add: respond_def exception_handler_def format_app_exception_def format_single_def
        invalid_credentials_def mk_detail_def filled_def opt_str_def mk_app_exception_def)
qed

theorem refused_login_response_witness:
  "fst (respond False (\<lambda>e. \<lparr>ec_text = [], ec_trace_id = [], ec_user_id = [], ec_url = [], ec_method = []\<rparr>) 200
     (\<lambda>t. VNone) (login_handler sample_libs (default_jwt_config []) ''bob@x.io'' ''secret12'') sample_world) =
    \<lparr>rs_status = 400, rs_body = VDict [(''detail'', VStr ''Invalid login credentials.'')]\<rparr>"
proof -
  have "\<not> may_login sample_libs (w_committed sample_world) ''bob@x.io'' ''secret12''"
    by (simp add: may_login_def sample_db_def ann_def bob_def)
  then show ?thesis
    using refused_login_response [of sample_world] sample_clear sample_db_ok by simp
qed

end
