(* ===== verification/BlobFlows.thy ===== *)
theory BlobFlows
  imports Blob AccountFlows
begin

text \<open>
  Stored files end to end: the names an upload can produce, what an upload and a deletion leave in
  the tables and on disk on every branch, and the agreement of rows and files over any sequence of
  requests.
\<close>

section \<open>Names\<close>

lemma hex_char_inj: "a < 16 \<Longrightarrow> b < 16 \<Longrightarrow> hex_char a = hex_char b \<Longrightarrow> a = b"
  by (auto simp: hex_char_def split: if_splits)

lemma hex_digits_inj:
  "n < 16 ^ k \<Longrightarrow> m < 16 ^ k \<Longrightarrow> hex_digits k n = hex_digits k m \<Longrightarrow> n = m"
proof (induction k arbitrary: n m)
  case (Suc k)
  have split: "hex_digits (Suc k) x = hex_digits k (x div 16) @ [hex_char (x mod 16)]" for x
    by (simp add: hex_digits_def upt_rec [of 0] map_Suc_upt [symmetric] rev_map div_mult2_eq
        del: upt_Suc)
  have "n div 16 = m div 16"
    using Suc split by (intro Suc.IH) (simp_all add: less_mult_imp_div_less mult.commute)
  moreover have "n mod 16 = m mod 16"
    using Suc.prems(3) split by (intro hex_char_inj) simp_all
  ultimately show ?case by (metis div_mult_mod_eq)
qed simp

lemma hex_digits_length [simp]: "length (hex_digits k n) = k"
  by (simp add: hex_digits_def)

definition rejoin :: "string \<Rightarrow> string" where
  "rejoin xs = take 8 xs @ take 4 (drop 8 xs) @ take 4 (drop 12 xs) @ take 4 (drop 16 xs) @ drop 20 xs"

lemma rejoin_id: "rejoin xs = xs"
proof -
  have d: "take k (drop n xs) @ drop (n + k) xs = drop n xs" for k n
    using append_take_drop_id [of k "drop n xs"] by (simp add: add.commute)
  show ?thesis
    using d [of 4 16] d [of 4 12] d [of 4 8] by (simp add: rejoin_def)
qed

text \<open>Different ids have different names.\<close>

lemma uuid_str_inj: "uuid_str i = uuid_str j \<Longrightarrow> i = j"
proof -
  assume e: "uuid_str i = uuid_str j"
  let ?a = "hex_digits 32 (unat i)" and ?b = "hex_digits 32 (unat j)"
  have "take 8 ?a = take 8 ?b \<and> take 4 (drop 8 ?a) = take 4 (drop 8 ?b)
      \<and> take 4 (drop 12 ?a) = take 4 (drop 12 ?b) \<and> take 4 (drop 16 ?a) = take 4 (drop 16 ?b)
      \<and> drop 20 ?a = drop 20 ?b"
    using e by (simp add: uuid_str_def Let_def)
  then have "rejoin ?a = rejoin ?b" by (simp add: rejoin_def)
  then have "?a = ?b" by (simp only: rejoin_id)
  moreover have "unat i < 16 ^ 32" "unat j < 16 ^ 32"
    using unsigned_less [of i] unsigned_less [of j] by simp_all
  ultimately have "unat i = unat j" by (intro hex_digits_inj)
  then show ?thesis by (rule unsigned_word_eqI)
qed

definition name_char :: "char \<Rightarrow> bool" where
  "name_char c \<longleftrightarrow> c \<noteq> CHR ''/'' \<and> c \<noteq> CHR ''.''"

lemma hex_char_name: "d < 16 \<Longrightarrow> name_char (hex_char d) \<and> hex_char d \<noteq> CHR ''m'' \<and> hex_char d \<noteq> CHR ''t''"
proof -
  have "\<forall>d \<in> set [0..<16]. name_char (hex_char d) \<and> hex_char d \<noteq> CHR ''m'' \<and> hex_char d \<noteq> CHR ''t''"
    by code_simp
  then show "d < 16 \<Longrightarrow> ?thesis" by simp
qed

lemma uuid_str_chars: "list_all name_char (uuid_str i)"
proof -
  have h: "list_all name_char (hex_digits k n)" for k n
    by (simp add: hex_digits_def list_all_iff hex_char_name)
  have "name_char (CHR ''-'')" by code_simp
  then show ?thesis
    using h [of 32 "unat i"]
    by (auto simp: uuid_str_def Let_def list_all_iff dest!: in_set_takeD in_set_dropD)
qed

lemma uuid_str_hd: "\<exists>c cs. uuid_str i = c # cs \<and> c \<noteq> CHR ''m'' \<and> c \<noteq> CHR ''t''"
proof -
  obtain c cs where h: "hex_digits 32 (unat i) = c # cs"
    by (metis hex_digits_length length_Suc_conv numeral_eq_Suc)
  have "c \<in> set (hex_digits 32 (unat i))" by (simp add: h)
  then have "c \<noteq> CHR ''m'' \<and> c \<noteq> CHR ''t''"
    by (auto simp: hex_digits_def hex_char_name)
  then show ?thesis by (simp add: uuid_str_def Let_def h)
qed


section \<open>What the storage writes\<close>

text \<open>The files of an upload: the original, then the variants that could be built.\<close>

definition blob_dir :: "blob_kind \<Rightarrow> string" where
  "blob_dir kind = (if kind = BK_IMAGE then image_path else file_path)"

definition stored_extension :: "string \<Rightarrow> string" where
  "stored_extension name =
     (if CHR ''.'' \<in> set name then py_lower (last (py_split (CHR ''.'') name)) else ''bin'')"

definition original_path :: "uuid \<Rightarrow> blob_upload \<Rightarrow> string" where
  "original_path i cmd = blob_dir (bu_kind cmd) @ ''/'' @ uuid_str i @ ''.'' @ stored_extension (bu_name cmd)"

definition variant_path :: "uuid \<Rightarrow> blob_upload \<Rightarrow> string \<Rightarrow> string" where
  "variant_path i cmd v = blob_dir (bu_kind cmd) @ ''/'' @ v @ ''/'' @ uuid_str i @ ''.webp''"

definition variant_file :: "media \<Rightarrow> uuid \<Rightarrow> blob_upload \<Rightarrow> string \<Rightarrow> nat \<Rightarrow> (string \<times> bytes) list" where
  "variant_file M i cmd v edge =
     (if bu_kind cmd \<noteq> BK_IMAGE then []
      else case md_variant M edge (bu_content cmd) of None \<Rightarrow> []
        | Some webp \<Rightarrow> if md_disk_ok M (variant_path i cmd v) then [(variant_path i cmd v, webp)] else [])"

definition written_files :: "media \<Rightarrow> uuid \<Rightarrow> blob_upload \<Rightarrow> (string \<times> bytes) list" where
  "written_files M i cmd = (original_path i cmd, bu_content cmd)
     # variant_file M i cmd ''medium'' 1024 @ variant_file M i cmd ''thumbnail'' 256"

definition path_of :: "(string \<times> bytes) list \<Rightarrow> string option" where
  "path_of fs = (case fs of [] \<Rightarrow> None | f # rest \<Rightarrow> Some (fst f))"

definition stored_of :: "media \<Rightarrow> uuid \<Rightarrow> blob_upload \<Rightarrow> stored_blob" where
  "stored_of M i cmd = \<lparr>sb_path = original_path i cmd,
     sb_medium_path = path_of (variant_file M i cmd ''medium'' 1024),
     sb_thumbnail_path = path_of (variant_file M i cmd ''thumbnail'' 256)\<rparr>"

definition put_files :: "(string \<times> bytes) list \<Rightarrow> world \<Rightarrow> world" where
  "put_files fs w = fold (\<lambda>f. put_file (fst f) (snd f)) fs w"

lemma put_files_simps [simp]:
  "put_files [] w = w" "put_files (f # fs) w = put_files fs (put_file (fst f) (snd f) w)"
  "put_files (fs @ gs) w = put_files gs (put_files fs w)"
  by (simp_all add: put_files_def)

lemma make_variant_run:
  assumes "bu_kind cmd = BK_IMAGE"
  shows "make_variant M (bu_content cmd) image_path (uuid_str i) v edge w
    = (Ret (path_of (variant_file M i cmd v edge)), put_files (variant_file M i cmd v edge) w)"
  using assms
  by (simp add: make_variant_def variant_file_def write_file_def py_bind_app py_catch_def Let_def
      variant_path_def blob_dir_def path_of_def split: option.splits)

lemma store_run:
  "store_blob M (bu_content cmd) (bu_name cmd) (bu_kind cmd) w =
    (let i = w_ids w (w_idn w); w1 = w\<lparr>w_idn := Suc (w_idn w)\<rparr>
     in if md_disk_ok M (original_path i cmd)
        then (Ret (stored_of M i cmd), put_files (written_files M i cmd) w1)
        else (Raise (OtherError ''OSError''), w1))"
  by (cases "bu_kind cmd")
    (simp_all add: store_blob_def Let_def py_bind_app uuid7_def write_file_def make_variant_run
      original_path_def blob_dir_def stored_extension_def stored_of_def written_files_def
      variant_file_def path_of_def image_medium_max_edge_def image_thumbnail_max_edge_def)

text \<open>The paths recorded for an upload are those of its files, in order.\<close>

lemma path_nonempty: "nonempty (path_of (variant_file M i cmd v edge)) = map fst (variant_file M i cmd v edge)"
  by (simp add: variant_file_def path_of_def nonempty_def variant_path_def blob_dir_def image_path_def
      split: option.splits)

lemma stored_paths_written: "stored_paths (stored_of M i cmd) = map fst (written_files M i cmd)"
  by (simp add: stored_paths_def stored_of_def written_files_def path_nonempty)
    (simp add: nonempty_def original_path_def)

lemma variant_paths: "map fst (variant_file M i cmd v edge) \<in> {[], [variant_path i cmd v]}"
  by (simp add: variant_file_def split: option.splits)

lemma original_not_variant:
  assumes "v = ''medium'' \<or> v = ''thumbnail''"
  shows "original_path i cmd \<noteq> variant_path j cmd v"
  using uuid_str_hd [of i] assms by (auto simp: original_path_def variant_path_def)

lemma written_distinct: "distinct (map fst (written_files M i cmd))"
proof -
  have "variant_path i cmd ''medium'' \<noteq> variant_path i cmd ''thumbnail''"
    by (simp add: variant_path_def)
  then show ?thesis
    using variant_paths [of M i cmd "''medium''" 1024] variant_paths [of M i cmd "''thumbnail''" 256]
      original_not_variant [of "''medium''" i cmd i] original_not_variant [of "''thumbnail''" i cmd i]
    by (auto simp: written_files_def)
qed


section \<open>What an upload leaves\<close>

definition fresh_files :: "(string \<times> bytes) list \<Rightarrow> (string \<times> bytes) list \<Rightarrow> bool" where
  "fresh_files fs files \<longleftrightarrow> set (map fst fs) \<inter> set (map fst files) = {}"

lemma put_files_fresh:
  "distinct (map fst fs) \<Longrightarrow> fresh_files fs (w_files w) \<Longrightarrow>
     put_files fs w = w\<lparr>w_files := rev fs @ w_files w\<rparr>"
proof (induction fs arbitrary: w)
  case (Cons f fs)
  have "filter (\<lambda>g. fst g \<noteq> fst f) (w_files w) = w_files w"
    using Cons.prems(2) by (auto simp: fresh_files_def filter_id_conv image_iff)
  then have p: "put_file (fst f) (snd f) w = w\<lparr>w_files := f # w_files w\<rparr>"
    by (simp add: put_file_def)
  have "fresh_files fs (f # w_files w)"
    using Cons.prems by (auto simp: fresh_files_def)
  then show ?case using Cons by (simp add: p)
qed simp

lemma strip_root_blob: "strip_root (original_path i cmd) = original_path i cmd"
    "strip_root (variant_path i cmd v) = variant_path i cmd v"
  by (simp_all add: strip_root_def py_removeprefix_def py_startswith_def original_path_def variant_path_def
      blob_dir_def image_path_def file_path_def)

definition plain_path :: "string \<Rightarrow> bool" where
  "plain_path p \<longleftrightarrow> p \<noteq> [] \<and> strip_root p = p"

lemma plain_blob_paths: "plain_path (original_path i cmd)" "plain_path (variant_path i cmd v)"
  by (simp_all add: plain_path_def strip_root_blob) (simp_all add: original_path_def variant_path_def)

lemma written_plain: "list_all plain_path (map fst (written_files M i cmd))"
  using variant_paths [of M i cmd "''medium''" 1024] variant_paths [of M i cmd "''thumbnail''" 256]
  by (auto simp: written_files_def list_all_iff plain_blob_paths)

lemma delete_files_run:
  "list_all plain_path ps \<Longrightarrow>
     delete_files ps w = (Ret (), w\<lparr>w_files := filter (\<lambda>f. fst f \<notin> set ps) (w_files w)\<rparr>)"
  by (induction ps arbitrary: w)
    (simp_all add: delete_files_def py_bind_app plain_path_def unlink_def conj_commute)

definition new_blob_row :: "world \<Rightarrow> blob_create \<Rightarrow> blob_row" where
  "new_blob_row w dto = \<lparr>b_id = w_ids w (w_idn w), b_created_at = w_clock w (w_tick w),
     b_updated_at = w_dbnow w, b_created_by_id = w_user w, b_updated_by_id = None,
     b_name = bc_name dto, b_kind = bc_kind dto, b_content_type = bc_content_type dto,
     b_size = Some (bc_size dto), b_path = bc_path dto, b_medium_path = bc_medium_path dto,
     b_thumbnail_path = bc_thumbnail_path dto\<rparr>"

definition with_blob :: "blob_row \<Rightarrow> db \<Rightarrow> db" where
  "with_blob b d = d\<lparr>db_blobs := db_blobs d @ [b]\<rparr>"

lemma create_blob_run:
  assumes "session_clear w"
  shows "let w1 = w\<lparr>w_idn := Suc (w_idn w), w_tick := Suc (w_tick w)\<rparr>;
      b = new_blob_row w dto; d = with_blob b (w_committed w) in
    blob_repo_create base dto w =
      (if db_ok d then (Ret (blob_list_of base b), w1\<lparr>w_work := d\<rparr>)
       else (Raise (IntegrityError ''constraint violated''), w1))"
proof (cases w)
  case (fields committed work objs otps blobs new_keys clock tick dbnow ids idn rand randn mails files user)
  then have c: "work = committed" "objs = []" "otps = []" "blobs = []" "new_keys = []"
    using assms by (simp_all add: session_clear_def)
  show ?thesis
    unfolding fields c
    by (cases user)
      (simp_all add: blob_repo_create_def Let_def py_bind_app uuid7_def flush_def insert_blob_def get_now_def
        current_user_id_def sql_write_def settle_def rollback_world_def clear_session_def
        new_blob_row_def with_blob_def blob_list_of_def)
qed


definition upload_dto :: "media \<Rightarrow> uuid \<Rightarrow> blob_upload \<Rightarrow> blob_create" where
  "upload_dto M i cmd = \<lparr>bc_name = bu_name cmd, bc_kind = bu_kind cmd, bc_content_type = None,
     bc_size = int (length (bu_content cmd)), bc_path = original_path i cmd,
     bc_medium_path = path_of (variant_file M i cmd ''medium'' 1024),
     bc_thumbnail_path = path_of (variant_file M i cmd ''thumbnail'' 256)\<rparr>"

text \<open>The row of an accepted upload: its id is the second one drawn, after the name of the file.\<close>

definition upload_row :: "media \<Rightarrow> world \<Rightarrow> blob_upload \<Rightarrow> blob_row" where
  "upload_row M w cmd =
     new_blob_row (w\<lparr>w_idn := Suc (w_idn w)\<rparr>) (upload_dto M (w_ids w (w_idn w)) cmd)"

lemma upload_row_paths: "blob_paths (upload_row M w cmd) = map fst (written_files M (w_ids w (w_idn w)) cmd)"
  using stored_paths_written [of M "w_ids w (w_idn w)" cmd]
  by (simp add: blob_paths_def stored_paths_def stored_of_def upload_row_def new_blob_row_def upload_dto_def)

lemma commit_clear_objs:
  assumes "w_objs w = []" "w_new_otps w = []" "w_new_blobs w = []" "w_new_keys w = []"
  shows "commit w = (Ret (), w\<lparr>w_committed := w_work w\<rparr>)"
proof (cases w)
  case (fields committed work objs otps blobs new_keys clock tick dbnow ids idn rand randn mails files user)
  then have c: "objs = []" "otps = []" "blobs = []" "new_keys = []"
    using assms by simp_all
  show ?thesis
    unfolding fields c by (simp add: commit_def flush_def py_bind_app settle_def)
qed

lemma filter_written:
  assumes "fresh_files fs files"
  shows "filter (\<lambda>f. fst f \<notin> set (map fst fs)) (rev fs @ files) = files"
proof -
  have "filter (\<lambda>f. fst f \<notin> set (map fst fs)) files = files"
    using assms by (intro filter_True) (auto simp: fresh_files_def)
  moreover have "filter (\<lambda>f. fst f \<notin> set (map fst fs)) (rev fs) = []"
    by (intro filter_False) (force simp: image_iff)
  ultimately show ?thesis by (simp only: filter_append append_Nil)
qed

lemma upload_runs:
  assumes "session_clear w" "upload_validator cmd = Ok ()"
    and "md_disk_ok M (original_path (w_ids w (w_idn w)) cmd)"
    and "fresh_files (written_files M (w_ids w (w_idn w)) cmd) (w_files w)"
  shows "let fs = written_files M (w_ids w (w_idn w)) cmd; b = upload_row M w cmd;
      d = with_blob b (w_committed w) in
    \<exists>w'. upload_handler M base cmd w =
      (if db_ok d then Ret (Ok (blob_list_of base b)) else Raise (IntegrityError ''constraint violated''), w')
    \<and> w_committed w' = (if db_ok d then d else w_committed w)
    \<and> w_files w' = (if db_ok d then rev fs @ w_files w else w_files w) \<and> session_clear w'"
proof -
  let ?i = "w_ids w (w_idn w)"
  let ?fs = "written_files M ?i cmd"
  let ?w1 = "w\<lparr>w_idn := Suc (w_idn w), w_files := rev ?fs @ w_files w\<rparr>"
  let ?d = "with_blob (upload_row M w cmd) (w_committed w)"
  have store: "store_blob M (bu_content cmd) (bu_name cmd) (bu_kind cmd) w = (Ret (stored_of M ?i cmd), ?w1)"
    using put_files_fresh [OF written_distinct, of M ?i cmd "w\<lparr>w_idn := Suc (w_idn w)\<rparr>"] assms(3,4)
    by (simp add: store_run Let_def)
  have c: "session_clear ?w1" using assms(1) by (simp add: session_clear_def)
  have row: "new_blob_row ?w1 (upload_dto M ?i cmd) = upload_row M w cmd"
    by (simp add: new_blob_row_def upload_row_def)
  note create = create_blob_run [OF c, of "upload_dto M ?i cmd" base, unfolded row Let_def, simplified]
  have dto: "\<lparr>bc_name = bu_name cmd, bc_kind = bu_kind cmd, bc_content_type = None,
      bc_size = int (length (bu_content cmd)), bc_path = sb_path (stored_of M ?i cmd),
      bc_medium_path = sb_medium_path (stored_of M ?i cmd),
      bc_thumbnail_path = sb_thumbnail_path (stored_of M ?i cmd)\<rparr> = upload_dto M ?i cmd"
    by (simp add: stored_of_def upload_dto_def)
  have handler: "upload_handler M base cmd w = with_uow (
      py_bind (py_catch (blob_repo_create base (upload_dto M ?i cmd))
        (\<lambda>e. py_bind (delete_files (map fst ?fs)) (\<lambda>_. py_raise e))) (\<lambda>data. py_ret (Ok data))) ?w1"
    using assms(2) by (simp add: upload_handler_def py_bind_app [of "store_blob _ _ _ _"] store dto stored_paths_written)
  show ?thesis
  proof (cases "db_ok ?d")
    case True
    let ?w2 = "?w1\<lparr>w_idn := Suc (Suc (w_idn w)), w_tick := Suc (w_tick w), w_work := ?d\<rparr>"
    have "commit ?w2 = (Ret (), ?w2\<lparr>w_committed := w_work ?w2\<rparr>)"
      using assms(1) by (intro commit_clear_objs) (simp_all add: session_clear_def)
    then have "upload_handler M base cmd w
        = (Ret (Ok (blob_list_of base (upload_row M w cmd))), rollback_world (?w2\<lparr>w_committed := w_work ?w2\<rparr>))"
      unfolding handler using create True by (intro with_uow_Ret) (simp_all add: py_bind_app py_catch_def)
    then show ?thesis
      using True by (simp add: Let_def rollback_world_def clear_session_def session_clear_def)
  next
    case False
    let ?w2 = "?w1\<lparr>w_idn := Suc (Suc (w_idn w)), w_tick := Suc (w_tick w)\<rparr>"
    have d: "delete_files (map fst ?fs) ?w2 = (Ret (), ?w2\<lparr>w_files := w_files w\<rparr>)"
      using delete_files_run [OF written_plain, of M ?i cmd ?w2] filter_written [OF assms(4)] by simp
    have "upload_handler M base cmd w = (Raise (IntegrityError ''constraint violated''),
        rollback_world (rollback_world (?w2\<lparr>w_files := w_files w\<rparr>)))"
      unfolding handler using create False d
      by (intro with_uow_Raise) (simp_all add: py_bind_app py_catch_def)
    then show ?thesis
      using False by (simp add: Let_def rollback_world_def clear_session_def session_clear_def)
  qed
qed

text \<open>
  Claim C25. An accepted upload keeps rows and files together: when its row can be stored, exactly
  that row is added, it names the files that were written with their content, and its address is
  returned; when the row is refused, the request fails, the tables are as they were, and so are the
  files: none of the upload's files is left behind.
\<close>

theorem upload_spec:
  assumes "session_clear w" "upload_validator cmd = Ok ()"
    and "md_disk_ok M (original_path (w_ids w (w_idn w)) cmd)"
    and "fresh_files (written_files M (w_ids w (w_idn w)) cmd) (w_files w)"
  shows "let fs = written_files M (w_ids w (w_idn w)) cmd; b = upload_row M w cmd;
      d = with_blob b (w_committed w) in
    blob_paths b = map fst fs \<and> snd (hd fs) = bu_content cmd \<and>
    (\<exists>w'. upload_handler M base cmd w =
      (if db_ok d then Ret (Ok (blob_list_of base b)) else Raise (IntegrityError ''constraint violated''), w')
    \<and> w_committed w' = (if db_ok d then d else w_committed w)
    \<and> w_files w' = (if db_ok d then rev fs @ w_files w else w_files w))"
  using upload_runs [OF assms, of base] upload_row_paths [of M w cmd]
  by (auto simp: Let_def written_files_def)

definition png_upload :: blob_upload where
  "png_upload = \<lparr>bu_name = ''cat.PNG'', bu_kind = BK_IMAGE,
     bu_content = [0x89, 0x50, 0x4E, 0x47, 0x0D, 0x0A, 0x1A, 0x0A, 5]\<rparr>"

definition sample_media :: media where
  "sample_media = \<lparr>md_variant = (\<lambda>edge c. if edge = 256 then None else Some (take 3 c)), md_disk_ok = (\<lambda>p. True)\<rparr>"

theorem upload_spec_witness:
  "\<exists>w'. upload_handler sample_media ''http://h'' png_upload sample_world
      = (Ret (Ok (blob_list_of ''http://h'' (upload_row sample_media sample_world png_upload))), w')
    \<and> length (w_files w') = 2"
proof -
  have v: "upload_validator png_upload = Ok ()" by code_simp
  have "variant_file sample_media i png_upload ''medium'' 1024 = [(variant_path i png_upload ''medium'', [0x89, 0x50, 0x4E])]"
    "variant_file sample_media i png_upload ''thumbnail'' 256 = []" for i
    by (simp_all add: variant_file_def sample_media_def png_upload_def)
  then have f: "length (written_files sample_media i png_upload) = 2" for i
    by (simp add: written_files_def)
  have d: "db_ok (with_blob (upload_row sample_media sample_world png_upload) sample_db)"
    using sample_db_ok
    by (simp add: db_ok_def with_blob_def upload_row_def new_blob_row_def sample_defs)
  have m: "md_disk_ok sample_media p" "w_files sample_world = []" for p
    by (simp_all add: sample_media_def sample_world_def)
  show ?thesis
    using upload_spec [of sample_world png_upload sample_media "''http://h''"] v f d m
    by (auto simp: Let_def fresh_files_def)
qed

section \<open>Where an upload can write\<close>

lemma accepted_signature:
  assumes "upload_validator cmd = Ok ()"
  shows "\<exists>sigs. (stored_extension (bu_name cmd), sigs) \<in> set (if bu_kind cmd = BK_IMAGE then allowed_image_signatures else allowed_file_signatures)
    \<and> (sigs = [] \<or> (\<exists>s \<in> set sigs. prefix s (bu_content cmd)))"
proof -
  let ?ext = "blob_extension (bu_name cmd)"
  let ?table = "if bu_kind cmd = BK_IMAGE then allowed_image_signatures else allowed_file_signatures"
  obtain sigs where m: "map_of ?table ?ext = Some sigs" "sigs = [] \<or> (\<exists>s \<in> set sigs. take (length s) (bu_content cmd) = s)"
    using assms by (auto simp: upload_validator_def validate_signature_def Let_def list_ex_iff split: if_splits option.splits)
  have "[] \<notin> set (map fst ?table)"
    by (simp add: allowed_image_signatures_def allowed_file_signatures_def)
  then have "?ext \<noteq> []" using map_of_SomeD [OF m(1)] by force
  then have "stored_extension (bu_name cmd) = ?ext"
    by (auto simp: stored_extension_def blob_extension_def split: if_splits)
  then show ?thesis using map_of_SomeD [OF m(1)] m(2) by (metis take_is_prefix)
qed

lemma accepted_size:
  "upload_validator cmd = Ok () \<Longrightarrow>
   length (bu_content cmd) \<le> (if bu_kind cmd = BK_IMAGE then 10 else 15) * 1024 * 1024"
  by (auto simp: upload_validator_def Let_def max_blob_size_bytes_def max_image_size_bytes_def split: if_splits)

text \<open>The files after writing some, whatever was there.\<close>

definition files_put :: "(string \<times> bytes) list \<Rightarrow> (string \<times> bytes) list \<Rightarrow> (string \<times> bytes) list" where
  "files_put fs files = fold (\<lambda>f acc. f # filter (\<lambda>g. fst g \<noteq> fst f) acc) fs files"

lemma put_files_eq: "put_files fs w = w\<lparr>w_files := files_put fs (w_files w)\<rparr>"
  by (induction fs arbitrary: w) (simp_all add: put_file_def files_put_def)

lemma map_of_filter_key: "map_of (filter (\<lambda>g. P (fst g)) files) p = (if P p then map_of files p else None)"
  by (induction files) auto

lemmas map_of_without = map_of_filter_key [where P = "\<lambda>k. k \<noteq> a" for a] map_of_filter_key [where P = "\<lambda>k. k \<notin> S" for S]

lemma map_of_files_put:
  "distinct (map fst fs) \<Longrightarrow> map_of (files_put fs files) p = (case map_of fs p of Some c \<Rightarrow> Some c | None \<Rightarrow> map_of files p)"
proof (induction fs arbitrary: files)
  case (Cons f fs)
  have "map_of fs p = None" if "fst f = p" using Cons.prems that by (auto simp: map_of_eq_None_iff)
  then show ?case using Cons.IH [of "f # filter (\<lambda>g. fst g \<noteq> fst f) files"] Cons.prems
    by (cases f) (auto simp: files_put_def map_of_without split: option.splits)
qed (simp add: files_put_def)

text \<open>Whatever becomes of an upload, its files are all written, written and removed again, or not touched.\<close>

lemma upload_files:
  assumes "session_clear w"
  shows "w_files (snd (upload_handler M base cmd w)) = w_files w
    \<or> (upload_validator cmd = Ok () \<and>
       (let fs = written_files M (w_ids w (w_idn w)) cmd in
        w_files (snd (upload_handler M base cmd w)) \<in> {files_put fs (w_files w),
          filter (\<lambda>f. fst f \<notin> set (map fst fs)) (files_put fs (w_files w))}))"
proof (cases "upload_validator cmd = Ok () \<and> md_disk_ok M (original_path (w_ids w (w_idn w)) cmd)")
  case False
  then show ?thesis
    by (cases "upload_validator cmd") (auto simp: upload_handler_def py_bind_app store_run Let_def)
next
  case ok: True
  let ?i = "w_ids w (w_idn w)"
  let ?fs = "written_files M ?i cmd"
  let ?w1 = "w\<lparr>w_idn := Suc (w_idn w), w_files := files_put ?fs (w_files w)\<rparr>"
  have store: "store_blob M (bu_content cmd) (bu_name cmd) (bu_kind cmd) w = (Ret (stored_of M ?i cmd), ?w1)"
    using ok by (simp add: store_run Let_def put_files_eq)
  let ?dto = "\<lparr>bc_name = bu_name cmd, bc_kind = bu_kind cmd, bc_content_type = None,
      bc_size = int (length (bu_content cmd)), bc_path = sb_path (stored_of M ?i cmd),
      bc_medium_path = sb_medium_path (stored_of M ?i cmd), bc_thumbnail_path = sb_thumbnail_path (stored_of M ?i cmd)\<rparr>"
  have c: "session_clear ?w1" using assms by (simp add: session_clear_def)
  let ?d = "with_blob (new_blob_row ?w1 ?dto) (w_committed ?w1)"
  let ?w2 = "?w1\<lparr>w_idn := Suc (w_idn ?w1), w_tick := Suc (w_tick ?w1)\<rparr>"
  note create = create_blob_run [OF c, of ?dto base, unfolded Let_def]
  have handler: "upload_handler M base cmd w = with_uow (
      py_bind (py_catch (blob_repo_create base ?dto)
        (\<lambda>e. py_bind (delete_files (map fst ?fs)) (\<lambda>_. py_raise e))) (\<lambda>data. py_ret (Ok data))) ?w1"
    using ok by (simp add: upload_handler_def py_bind_app [of "store_blob _ _ _ _"] store stored_paths_written)
  show ?thesis
  proof (cases "db_ok ?d")
    case True
    have "commit (?w2\<lparr>w_work := ?d\<rparr>) = (Ret (), (?w2\<lparr>w_work := ?d\<rparr>)\<lparr>w_committed := ?d\<rparr>)"
      using c by (subst commit_clear_objs) (simp_all add: session_clear_def)
    then have "upload_handler M base cmd w
        = (Ret (Ok (blob_list_of base (new_blob_row ?w1 ?dto))), rollback_world ((?w2\<lparr>w_work := ?d\<rparr>)\<lparr>w_committed := ?d\<rparr>))"
      unfolding handler using create True by (intro with_uow_Ret) (simp_all add: py_bind_app py_catch_def)
    then show ?thesis using ok by (simp add: Let_def rollback_world_def clear_session_def)
  next
    case False
    have d: "delete_files (map fst ?fs) ?w2 = (Ret (), ?w2\<lparr>w_files := filter (\<lambda>f. fst f \<notin> set (map fst ?fs)) (w_files ?w2)\<rparr>)"
      by (rule delete_files_run [OF written_plain])
    have "upload_handler M base cmd w = (Raise (IntegrityError ''constraint violated''),
        rollback_world (rollback_world (?w2\<lparr>w_files := filter (\<lambda>f. fst f \<notin> set (map fst ?fs)) (w_files ?w2)\<rparr>)))"
      unfolding handler using create False d
      by (intro with_uow_Raise) (simp_all add: py_bind_app py_catch_def)
    then show ?thesis using ok by (simp add: Let_def rollback_world_def clear_session_def)
  qed
qed

lemma upload_changes:
  assumes "session_clear w" "upload_handler M base cmd w = (r, w')" "map_of (w_files w') p \<noteq> map_of (w_files w) p"
  obtains c where "upload_validator cmd = Ok ()" "map_of (written_files M (w_ids w (w_idn w)) cmd) p = Some c"
    "map_of (w_files w') p \<in> {None, Some c}"
proof -
  let ?fs = "written_files M (w_ids w (w_idn w)) cmd"
  have v: "upload_validator cmd = Ok ()" and f: "w_files w' \<in> {files_put ?fs (w_files w),
      filter (\<lambda>f. fst f \<notin> set (map fst ?fs)) (files_put ?fs (w_files w))}"
    using upload_files [OF assms(1), of M base cmd] assms(2,3) by (auto simp: Let_def)
  note m = map_of_files_put [OF written_distinct, of M "w_ids w (w_idn w)" cmd]
  have "map_of ?fs p \<noteq> None"
  proof
    assume n: "map_of ?fs p = None"
    then have "p \<notin> set (map fst ?fs)" by (simp add: map_of_eq_None_iff)
    then show False using f n assms(3) by (auto simp: m map_of_without simp del: set_map)
  qed
  then obtain c where c: "map_of ?fs p = Some c" by auto
  then have "p \<in> set (map fst ?fs)" by (metis domI dom_map_of_conv_image_fst list.set_map)
  then have "map_of (w_files w') p \<in> {None, Some c}"
    using f c by (auto simp: m map_of_without simp del: set_map)
  then show ?thesis using that v c by blast
qed

text \<open>
  Claim C27. An upload can only change files of its own, whatever the client called the file, whatever
  the media root holds and however the upload ends. The only paths whose content can differ
  afterwards are: the storage directory of the kind, the id the server drew and an extension that the
  table of the kind lists, for a content that fits the extension's signatures and the size limit (the
  path then holds that content, or nothing when the upload was undone); and, for an image, the WEBP
  previews of that id in their two directories. A refused upload changes no file.
\<close>

theorem upload_contained:
  assumes "session_clear w" "upload_handler M base cmd w = (r, w')" "map_of (w_files w') p \<noteq> map_of (w_files w) p"
  shows "((\<exists>ext sigs. p = (if bu_kind cmd = BK_IMAGE then ''images'' else ''files'') @ ''/'' @ uuid_str (w_ids w (w_idn w)) @ ''.'' @ ext
        \<and> (ext, sigs) \<in> set (if bu_kind cmd = BK_IMAGE then allowed_image_signatures else allowed_file_signatures)
        \<and> (sigs = [] \<or> (\<exists>s \<in> set sigs. prefix s (bu_content cmd)))
        \<and> map_of (w_files w') p \<in> {None, Some (bu_content cmd)})
      \<or> (\<exists>variant edge. (variant, edge) \<in> {(''medium'', 1024), (''thumbnail'', 256)} \<and> bu_kind cmd = BK_IMAGE
        \<and> p = ''images/'' @ variant @ ''/'' @ uuid_str (w_ids w (w_idn w)) @ ''.webp''
        \<and> map_of (w_files w') p \<in> {None, md_variant M edge (bu_content cmd)}))
    \<and> length (bu_content cmd) \<le> (if bu_kind cmd = BK_IMAGE then 10 else 15) * 1024 * 1024"
proof -
  let ?i = "w_ids w (w_idn w)"
  obtain c where c: "upload_validator cmd = Ok ()" "map_of (written_files M ?i cmd) p = Some c"
      "map_of (w_files w') p \<in> {None, Some c}"
    by (rule upload_changes [OF assms])
  have size: "length (bu_content cmd) \<le> (if bu_kind cmd = BK_IMAGE then 10 else 15) * 1024 * 1024"
    by (rule accepted_size [OF c(1)])
  consider (orig) "p = original_path ?i cmd" "c = bu_content cmd"
    | (variant) v e where "(v, e) \<in> {(''medium'', 1024), (''thumbnail'', 256)}" "(p, c) \<in> set (variant_file M ?i cmd v e)"
    using map_of_SomeD [OF c(2)] by (auto simp: written_files_def)
  then show ?thesis
  proof cases
    case orig
    then show ?thesis using accepted_signature [OF c(1)] c(3) size
      by (intro conjI disjI1) (auto simp: original_path_def blob_dir_def image_path_def file_path_def)
  next
    case variant
    then have "bu_kind cmd = BK_IMAGE" "p = variant_path ?i cmd v" "md_variant M e (bu_content cmd) = Some c"
      by (auto simp: variant_file_def split: if_splits option.splits)
    then show ?thesis using variant(1) c(3) size
      by (intro conjI disjI2 exI [of _ v] exI [of _ e]) (auto simp: variant_path_def blob_dir_def image_path_def)
  qed
qed

text \<open>An upload with a hostile name: the file lands under the server's id.\<close>

definition sly_upload :: blob_upload where
  "sly_upload = png_upload\<lparr>bu_name := ''../../etc/cron.d/x.png''\<rparr>"

theorem upload_contained_witness:
  "\<exists>r w' p. upload_handler sample_media ''http://h'' sly_upload sample_world = (r, w')
     \<and> map_of (w_files w') p = Some (bu_content png_upload)
     \<and> (\<exists>ext. p = ''images/'' @ uuid_str 100 @ ''.'' @ ext \<or> p = ''images/medium/'' @ uuid_str 100 @ ''.webp''
          \<or> p = ''images/thumbnail/'' @ uuid_str 100 @ ''.webp'')"
proof -
  let ?p = "original_path 100 sly_upload"
  have v: "upload_validator sly_upload = Ok ()" by code_simp
  have d: "db_ok (with_blob (upload_row sample_media sample_world sly_upload) (w_committed sample_world))"
    using sample_db_ok by (simp add: db_ok_def with_blob_def upload_row_def new_blob_row_def sample_defs)
  have m: "md_disk_ok sample_media q" "w_files sample_world = []" "w_ids sample_world (w_idn sample_world) = 100" for q
    by (simp_all add: sample_media_def sample_world_def)
  have f: "fresh_files fs (w_files sample_world)" for fs by (simp add: fresh_files_def m)
  obtain r w' where u: "upload_handler sample_media ''http://h'' sly_upload sample_world = (r, w')"
      "w_files w' = rev (written_files sample_media 100 sly_upload)"
    using upload_runs [OF sample_clear v m(1) f, of "''http://h''"] d m(2,3) by (auto simp: Let_def)
  have "distinct (map fst (rev (written_files sample_media 100 sly_upload)))"
    by (simp only: rev_map [symmetric] distinct_rev written_distinct)
  then have c: "map_of (w_files w') ?p = Some (bu_content png_upload)"
    unfolding u(2) by (intro map_of_is_SomeI) (simp_all add: written_files_def sly_upload_def)
  then have "map_of (w_files w') ?p \<noteq> map_of (w_files sample_world) ?p" by (simp add: m)
  from upload_contained [OF sample_clear u(1) this] show ?thesis
    using u(1) c by (intro exI [of _ r] exI [of _ w'] exI [of _ ?p]) (auto simp: m sly_upload_def png_upload_def)
qed


section \<open>What a deletion leaves\<close>

lemma drop_avatar_columns [simp]:
  "u_id (drop_avatar i u) = u_id u" "u_email (drop_avatar i u) = u_email u"
  "u_avatar_id (drop_avatar i u) = (if u_avatar_id u = Some i then None else u_avatar_id u)"
  by (simp_all add: drop_avatar_def)

lemma other_ids: "x \<in> g ` {b \<in> B. g b \<noteq> i} \<longleftrightarrow> x \<in> g ` B \<and> x \<noteq> i"
  by auto

lemma db_ok_remove_blob:
  assumes "db_ok d"
  shows "db_ok (remove_blob i d)"
proof -
  have "map u_id (map (drop_avatar i) us) = map u_id us"
      "map u_email (map (drop_avatar i) us) = map u_email us" for us
    by simp_all
  moreover have "distinct (map b_id (filter (\<lambda>b. b_id b \<noteq> i) (db_blobs d)))"
    using assms by (simp add: db_ok_def distinct_map_filter)
  ultimately show ?thesis
    using assms unfolding db_ok_def remove_blob_def
    by (auto simp: list_all_iff image_image other_ids simp del: map_map image_iff split: option.splits)
qed

lemma blobs_by_id:
  "db_ok d \<Longrightarrow> filter (\<lambda>b. b_id b = i) (db_blobs d)
     = (case find (\<lambda>b. b_id b = i) (db_blobs d) of None \<Rightarrow> [] | Some b \<Rightarrow> [b])"
  by (rule filter_unique) (simp add: db_ok_def)

lemma delete_unknown:
  assumes "session_clear w" "db_ok (w_committed w)"
    and "find (\<lambda>b. b_id b = i) (db_blobs (w_committed w)) = None"
  shows "delete_handler i w = (Ret (Err [blob_not_found]), w)"
  using assms(1) blobs_by_id [OF assms(2), of i] assms(3)
  by (simp add: delete_handler_def delete_validator_def blob_exist_by_id_def select_blobs_def py_bind_app
      session_clear_def)

lemma delete_known:
  assumes "session_clear w" "db_ok (w_committed w)"
    and "find (\<lambda>b. b_id b = i) (db_blobs (w_committed w)) = Some b"
    and "list_all plain_path (blob_paths b)"
  shows "\<exists>w'. delete_handler i w = (Ret (Ok ()), w') \<and> w_committed w' = remove_blob i (w_committed w)
    \<and> w_files w' = filter (\<lambda>f. fst f \<notin> set (blob_paths b)) (w_files w) \<and> session_clear w'"
proof -
  let ?d = "remove_blob i (w_committed w)"
  let ?w1 = "w\<lparr>w_work := ?d\<rparr>"
  have rows: "filter (\<lambda>b. b_id b = i) (db_blobs (w_work w)) = [b]"
    using assms(1) blobs_by_id [OF assms(2), of i] assms(3) by (simp add: session_clear_def)
  have c: "commit ?w1 = (Ret (), ?w1\<lparr>w_committed := w_work ?w1\<rparr>)"
    using assms(1) by (intro commit_clear_objs) (simp_all add: session_clear_def)
  let ?w2 = "rollback_world (?w1\<lparr>w_committed := w_work ?w1\<rparr>)"
  have u: "with_uow (py_bind (blob_get_paths i) (\<lambda>paths. py_bind (blob_repo_delete i) (\<lambda>_. py_ret paths))) w
      = (Ret (blob_paths b), ?w2)"
    using rows assms(1) db_ok_remove_blob [OF assms(2), of i]
    by (intro with_uow_Ret [OF _ c])
      (simp add: blob_get_paths_def select_blobs_def py_bind_app blob_repo_delete_def sql_write_def session_clear_def)
  have "delete_handler i w = (Ret (Ok ()), ?w2\<lparr>w_files := filter (\<lambda>f. fst f \<notin> set (blob_paths b)) (w_files ?w2)\<rparr>)"
    using rows u delete_files_run [OF assms(4), of ?w2]
    by (simp add: delete_handler_def delete_validator_def blob_exist_by_id_def select_blobs_def py_bind_app)
  then show ?thesis
    by (simp add: rollback_world_def clear_session_def session_clear_def)
qed

text \<open>
  Deleting a stored object that does not exist is refused and changes nothing. Deleting
  one that exists removes exactly its row and its files, and clears it as the avatar of every user
  that had it; no other user column, row or file changes.
\<close>

theorem delete_spec:
  assumes "session_clear w" "db_ok (w_committed w)"
    and "\<forall>b \<in> set (db_blobs (w_committed w)). list_all plain_path (blob_paths b)"
  shows "case find (\<lambda>b. b_id b = i) (db_blobs (w_committed w)) of
      None \<Rightarrow> delete_handler i w = (Ret (Err [blob_not_found]), w)
    | Some b \<Rightarrow> \<exists>w'. delete_handler i w = (Ret (Ok ()), w')
        \<and> db_blobs (w_committed w') = filter (\<lambda>c. b_id c \<noteq> i) (db_blobs (w_committed w))
        \<and> db_users (w_committed w') = map (drop_avatar i) (db_users (w_committed w))
        \<and> db_otps (w_committed w') = db_otps (w_committed w)
        \<and> w_files w' = filter (\<lambda>f. fst f \<notin> set (blob_paths b)) (w_files w)"
proof (cases "find (\<lambda>b. b_id b = i) (db_blobs (w_committed w))")
  case None
  then show ?thesis using delete_unknown [OF assms(1,2) None] by simp
next
  case (Some b)
  then have "b \<in> set (db_blobs (w_committed w))" by (auto simp: find_Some_iff)
  then show ?thesis
    using delete_known [OF assms(1,2) Some] assms(3) Some by (auto simp: remove_blob_def)
qed

definition cat_blob :: blob_row where
  "cat_blob = upload_row sample_media sample_world png_upload"

definition blob_world :: world where
  "blob_world = sample_world\<lparr>w_committed := sample_db\<lparr>db_users := [ann\<lparr>u_avatar_id := Some (b_id cat_blob)\<rparr>, bob],
       db_blobs := [cat_blob]\<rparr>,
     w_work := sample_db\<lparr>db_users := [ann\<lparr>u_avatar_id := Some (b_id cat_blob)\<rparr>, bob], db_blobs := [cat_blob]\<rparr>,
     w_files := written_files sample_media 100 png_upload\<rparr>"

lemma cat_blob_paths: "blob_paths cat_blob = map fst (written_files sample_media 100 png_upload)"
  using stored_paths_written [of sample_media 100 png_upload]
  by (simp add: blob_paths_def stored_paths_def stored_of_def cat_blob_def upload_row_def new_blob_row_def
      upload_dto_def sample_world_def)

theorem delete_spec_witness:
  "\<exists>w'. delete_handler (b_id cat_blob) blob_world = (Ret (Ok ()), w') \<and> w_files w' = []
    \<and> list_all (\<lambda>u. u_avatar_id u = None) (db_users (w_committed w'))"
proof -
  have "session_clear blob_world" "db_ok (w_committed blob_world)"
    by (simp_all add: blob_world_def session_clear_def db_ok_def sample_defs cat_blob_def upload_row_def
        new_blob_row_def)
  moreover have "list_all plain_path (blob_paths cat_blob)"
    unfolding cat_blob_paths by (rule written_plain)
  moreover have "db_blobs (w_committed blob_world) = [cat_blob]"
    "w_files blob_world = written_files sample_media 100 png_upload"
    "db_users (w_committed blob_world) = [ann\<lparr>u_avatar_id := Some (b_id cat_blob)\<rparr>, bob]"
    by (simp_all add: blob_world_def)
  ultimately show ?thesis
    using delete_spec [of blob_world "b_id cat_blob"]
    by (auto simp: cat_blob_paths filter_empty_conv drop_avatar_def bob_def ann_def)
qed


section \<open>Rows and files agree\<close>

text \<open>
  Every path a row names has its file, no two rows (nor two paths of one row) share a file, and the
  paths are plain ones, which the storage deletes under the name they are stored with.
\<close>

definition media_ok :: "db \<Rightarrow> (string \<times> bytes) list \<Rightarrow> bool" where
  "media_ok d files \<longleftrightarrow> (let ps = concat (map blob_paths (db_blobs d))
     in distinct ps \<and> list_all plain_path ps \<and> set ps \<subseteq> set (map fst files))"

definition media_inv :: "world \<Rightarrow> bool" where
  "media_inv w \<longleftrightarrow> session_clear w \<and> db_ok (w_committed w) \<and> media_ok (w_committed w) (w_files w)"

text \<open>
  One request; an upload draws an id whose file names are not in use (\<open>uuid_str_inj\<close>: different ids
  have different names).
\<close>

inductive blob_call :: "media \<Rightarrow> string \<Rightarrow> world \<Rightarrow> world \<Rightarrow> bool" for M base where
  req_upload: "fresh_files (written_files M (w_ids w (w_idn w)) cmd) (w_files w)
     \<Longrightarrow> blob_call M base w (snd (upload_handler M base cmd w))"
| req_delete: "blob_call M base w (snd (delete_handler i w))"

inductive_cases blob_callE: "blob_call M base w w'"

lemma media_ok_upload:
  assumes "media_ok d files" "fresh_files fs files" "distinct (map fst fs)" "list_all plain_path (map fst fs)"
    and "blob_paths b = map fst fs"
  shows "media_ok (with_blob b d) (rev fs @ files)"
proof -
  have "set (map fst fs) \<inter> set (concat (map blob_paths (db_blobs d))) = {}"
    using assms(1,2) unfolding media_ok_def fresh_files_def Let_def by blast
  then show ?thesis
    using assms(1,3,4,5) unfolding media_ok_def with_blob_def Let_def
    by (auto simp del: set_concat set_map) auto
qed

lemma upload_keeps_media:
  assumes inv: "media_inv w" and fr: "fresh_files (written_files M (w_ids w (w_idn w)) cmd) (w_files w)"
  shows "media_inv (snd (upload_handler M base cmd w))"
proof (cases "upload_validator cmd")
  case (Err e)
  then show ?thesis using inv by (simp add: upload_handler_def)
next
  case (Ok u)
  then have v: "upload_validator cmd = Ok ()" by simp
  let ?i = "w_ids w (w_idn w)"
  let ?b = "upload_row M w cmd"
  have c: "session_clear w" using inv by (simp add: media_inv_def)
  show ?thesis
  proof (cases "md_disk_ok M (original_path ?i cmd)")
    case False
    then have "snd (upload_handler M base cmd w) = w\<lparr>w_idn := Suc (w_idn w)\<rparr>"
      using v by (simp add: upload_handler_def py_bind_app store_run Let_def)
    then show ?thesis using inv by (simp add: media_inv_def session_clear_def)
  next
    case True
    note run = upload_runs [OF c v True fr, of base]
    have "media_ok (with_blob ?b (w_committed w)) (rev (written_files M ?i cmd) @ w_files w)"
      using media_ok_upload [OF _ fr written_distinct written_plain upload_row_paths] inv by (simp add: media_inv_def)
    then show ?thesis
      using run inv by (auto simp: media_inv_def Let_def split: if_splits)
  qed
qed

lemma media_ok_remove:
  assumes "media_ok d files" "find (\<lambda>b. b_id b = i) (db_blobs d) = Some b" "db_ok d"
  shows "media_ok (remove_blob i d) (filter (\<lambda>f. fst f \<notin> set (blob_paths b)) files)"
proof -
  have "b \<in> set (db_blobs d)" "b_id b = i"
    using assms(2) by (auto simp: find_Some_iff)
  then obtain xs ys where xy: "db_blobs d = xs @ b # ys" "b_id b = i"
    by (auto dest: split_list)
  have "distinct (map b_id (db_blobs d))" using assms(3) by (simp add: db_ok_def)
  then have "filter (\<lambda>c. b_id c \<noteq> i) (db_blobs d) = xs @ ys"
    using xy by (auto intro!: arg_cong2 [where f = append] filter_True) (metis image_eqI)+
  then have rest: "db_blobs (remove_blob i d) = xs @ ys" by (simp add: remove_blob_def)
  let ?P = "\<lambda>xs. concat (map blob_paths xs)"
  have all: "?P (db_blobs d) = ?P xs @ blob_paths b @ ?P ys" by (simp add: xy)
  have "set (map fst (filter (\<lambda>f. fst f \<notin> set (blob_paths b)) files)) = set (map fst files) - set (blob_paths b)"
    by auto
  moreover have "distinct (?P xs @ ?P ys)" "list_all plain_path (?P xs @ ?P ys)"
      "set (?P xs @ ?P ys) \<subseteq> set (map fst files) - set (blob_paths b)"
    using assms(1) unfolding media_ok_def Let_def all by auto
  ultimately show ?thesis
    unfolding media_ok_def Let_def rest by (simp only: map_append concat_append)
qed

lemma delete_keeps_media:
  assumes inv: "media_inv w"
  shows "media_inv (snd (delete_handler i w))"
proof (cases "find (\<lambda>b. b_id b = i) (db_blobs (w_committed w))")
  case None
  then show ?thesis using inv delete_unknown [of w i] by (simp add: media_inv_def)
next
  case (Some b)
  have "b \<in> set (db_blobs (w_committed w))" using Some by (auto simp: find_Some_iff)
  then have "list_all plain_path (blob_paths b)"
    using inv by (auto simp: media_inv_def media_ok_def Let_def list_all_iff)
  then obtain w' where "delete_handler i w = (Ret (Ok ()), w')" "w_committed w' = remove_blob i (w_committed w)"
      "w_files w' = filter (\<lambda>f. fst f \<notin> set (blob_paths b)) (w_files w)" "session_clear w'"
    using delete_known [of w i b] inv Some by (auto simp: media_inv_def)
  then show ?thesis
    using inv media_ok_remove [OF _ Some] db_ok_remove_blob by (simp add: media_inv_def)
qed

text \<open>
  Claim C26. Over any sequence of uploads and deletions, accepted, refused or failed (the disk, the
  image library and the schema included), rows and files agree: every path a row names has its
  file and no two rows share one, so no deletion can take another object's file.
\<close>

theorem media_agreement:
  assumes "(blob_call M base)\<^sup>*\<^sup>* w0 w" "media_inv w0"
  shows "media_ok (w_committed w) (w_files w) \<and> db_ok (w_committed w)"
proof -
  have "media_inv w"
    using assms by (induction rule: rtranclp_induct)
      (auto elim!: blob_callE intro: upload_keeps_media delete_keeps_media)
  then show ?thesis by (simp add: media_inv_def)
qed

theorem media_agreement_witness:
  "media_ok (w_committed (snd (upload_handler sample_media ''http://h'' png_upload sample_world)))
     (w_files (snd (upload_handler sample_media ''http://h'' png_upload sample_world)))"
proof -
  have "fresh_files (written_files sample_media (w_ids sample_world (w_idn sample_world)) png_upload) (w_files sample_world)"
    by (simp add: fresh_files_def sample_world_def)
  then have "(blob_call sample_media ''http://h'')\<^sup>*\<^sup>* sample_world
      (snd (upload_handler sample_media ''http://h'' png_upload sample_world))"
    by (intro r_into_rtranclp req_upload)
  moreover have "media_inv sample_world"
    by (simp add: media_inv_def media_ok_def sample_db_def)
      (simp flip: sample_db_def)
  ultimately show ?thesis using media_agreement by blast
qed

section \<open>Upload, then deletion\<close>

lemma remove_added_blob:
  assumes "db_ok d" "db_ok (with_blob b d)"
  shows "remove_blob (b_id b) (with_blob b d) = d"
proof -
  have n: "b_id b \<notin> set (map b_id (db_blobs d))"
    using assms(2) by (simp add: db_ok_def with_blob_def)
  then have "filter (\<lambda>c. b_id c \<noteq> b_id b) (db_blobs d) = db_blobs d"
    by (intro filter_True) (metis image_eqI list.set_map)
  moreover have "drop_avatar (b_id b) u = u" if "u \<in> set (db_users d)" for u
    using assms(1) that n by (auto simp: db_ok_def list_all_iff drop_avatar_def)
  then have "map (drop_avatar (b_id b)) (db_users d) = db_users d"
    by (intro map_idI)
  ultimately show ?thesis by (simp add: remove_blob_def with_blob_def)
qed

text \<open>
  Claim C34. Uploading an object and deleting it again restores everything: the tables and the files
  of the media root are exactly what they were.
\<close>

theorem upload_delete_roundtrip:
  assumes "session_clear w" "db_ok (w_committed w)"
    and "fresh_files (written_files M (w_ids w (w_idn w)) cmd) (w_files w)"
    and "upload_handler M base cmd w = (Ret (Ok dto), w1)"
  shows "\<exists>w2. delete_handler (bl_id dto) w1 = (Ret (Ok ()), w2)
    \<and> w_committed w2 = w_committed w \<and> w_files w2 = w_files w"
proof -
  let ?fs = "written_files M (w_ids w (w_idn w)) cmd"
  let ?b = "upload_row M w cmd"
  let ?d = "with_blob ?b (w_committed w)"
  have v: "upload_validator cmd = Ok ()"
    using assms(4) by (cases "upload_validator cmd") (simp_all add: upload_handler_def)
  have "md_disk_ok M (original_path (w_ids w (w_idn w)) cmd)"
    using assms(4) v by (auto simp: upload_handler_def py_bind_app store_run Let_def split: if_splits)
  note run = upload_runs [OF assms(1) v this assms(3), of base, unfolded Let_def assms(4)]
  then have ok: "db_ok ?d" by (auto split: if_splits)
  then have w1: "dto = blob_list_of base ?b" "w_committed w1 = ?d" "w_files w1 = rev ?fs @ w_files w" "session_clear w1"
    using run by auto
  have id: "bl_id dto = b_id ?b" by (simp add: w1(1) blob_list_of_def)
  have "find (\<lambda>b. b_id b = b_id ?b) (db_blobs ?d) = Some ?b"
    using ok by (auto simp: with_blob_def db_ok_def find_Some_iff nth_append distinct_map image_iff
        intro!: exI [of _ "length (db_blobs (w_committed w))"]) (metis nth_mem)
  then obtain w2 where w2: "delete_handler (b_id ?b) w1 = (Ret (Ok ()), w2)"
      "w_committed w2 = remove_blob (b_id ?b) ?d"
      "w_files w2 = filter (\<lambda>f. fst f \<notin> set (map fst ?fs)) (rev ?fs @ w_files w)"
    using delete_known [OF w1(4), of "b_id ?b" ?b] ok written_plain
    unfolding w1(2,3) upload_row_paths by auto
  then show ?thesis
    using remove_added_blob [OF assms(2) ok] filter_written [OF assms(3)] id by auto
qed

theorem upload_delete_roundtrip_witness:
  "\<exists>dto w1 w2. upload_handler sample_media ''http://h'' png_upload sample_world = (Ret (Ok dto), w1)
     \<and> delete_handler (bl_id dto) w1 = (Ret (Ok ()), w2) \<and> w_files w2 = []"
proof -
  have v: "upload_validator png_upload = Ok ()" by code_simp
  have d: "db_ok (with_blob (upload_row sample_media sample_world png_upload) (w_committed sample_world))"
    using sample_db_ok by (simp add: db_ok_def with_blob_def upload_row_def new_blob_row_def sample_defs)
  have m: "md_disk_ok sample_media p" "w_files sample_world = []" for p
    by (simp_all add: sample_media_def sample_world_def)
  have f: "fresh_files fs (w_files sample_world)" for fs
    by (simp add: fresh_files_def sample_world_def)
  obtain w1 where u: "upload_handler sample_media ''http://h'' png_upload sample_world
      = (Ret (Ok (blob_list_of ''http://h'' (upload_row sample_media sample_world png_upload))), w1)"
    using upload_runs [OF sample_clear v m(1) f, of "''http://h''", unfolded Let_def] d by auto
  then show ?thesis
    using upload_delete_roundtrip [OF sample_clear _ f u] sample_db_ok m(2) by auto
qed

end
