(* ===== verification/RoutesFlows.thy ===== *)
theory RoutesFlows
  imports Routes HttpFlows BlobFlows
begin

text \<open>
  Requests from end to end: every route reaches the handler written for it, and what a request is
  answered when nobody, or nobody active, stands behind it.
\<close>

section \<open>The registries\<close>

text \<open>The handler each message is meant for, without a mediator.\<close>

fun reference_handler :: "deps \<Rightarrow> message \<Rightarrow> reply app" where
  "reference_handler D (RegisterCommand c) = answers (\<lambda>_. Nothing) (register_handler (dp_libs D) c)"
| "reference_handler D (ConfirmEmailCommand e code) = answers (\<lambda>_. Nothing) (confirm_email_handler e code)"
| "reference_handler D (ResendEmailConfirmationCommand e) = answers Message (resend_handler e)"
| "reference_handler D (LoginCommand e p) = answers Tokens (login_handler (dp_libs D) (dp_jwt D) e p)"
| "reference_handler D (RefreshTokenCommand t) = answers Tokens (refresh_handler (dp_libs D) (dp_jwt D) t)"
| "reference_handler D (ForgotPasswordStep1Command e) = answers Message (forgot_step1 e)"
| "reference_handler D (ForgotPasswordStep2Command e code) = answers Recovery (forgot_step2 (dp_media_base D) e code)"
| "reference_handler D (ForgotPasswordStep3Command e code p) = answers Message (forgot_step3 (dp_libs D) e code p)"
| "reference_handler D (UserUpdateMeCommand p) = answers (\<lambda>_. Nothing) (update_me_handler p)"
| "reference_handler D (ChangePasswordCommand a b) = answers (\<lambda>_. Nothing) (change_password_handler (dp_libs D) a b)"
| "reference_handler D (UserToggleStatusCommand i) = answers (\<lambda>_. Nothing) (toggle_status_handler i)"
| "reference_handler D (MeQuery i) = answers User (me_handler (dp_media_base D) i)"
| "reference_handler D (UserDetailedQuery i) = answers User (user_detailed_handler (dp_media_base D) i)"
| "reference_handler D (UserListQuery q) = lists Users (user_list_handler (dp_media_base D) q)"
| "reference_handler D (BlobUploadCommand b) = answers Stored (upload_handler (dp_media D) (dp_media_base D) b)"
| "reference_handler D (BlobDeleteCommand i) = answers (\<lambda>_. Nothing) (delete_handler i)"
| "reference_handler D (BlobByIdQuery i) = answers Stored_Detailed (blob_detailed_handler (dp_media_base D) i)"
| "reference_handler D (BlobListQuery l k) = lists (\<lambda>(n, bs). Stored_List n bs) (blob_list_handler (dp_media_base D) l k)"

definition is_query :: "message \<Rightarrow> bool" where
  "is_query m \<longleftrightarrow> class_of_message m \<in> {MeQ, UserDetailedQ, UserListQ, BlobByIdQ, BlobListQ}"

lemma registered_commands:
  "send_command t (register_all cs qs md) m =
     (case map_of (rev cs) (t m) of Some h \<Rightarrow> h m | None \<Rightarrow> send_command t md m)"
proof -
  have q: "send_command t (fold (\<lambda>(t, h). register_query_factory t (\<lambda>u. h)) qs md) = send_command t md" for md
    by (induction qs arbitrary: md) (auto simp: send_registered)
  have c: "send_command t (fold (\<lambda>(t, h). register_command_factory t (\<lambda>u. h)) cs md) m =
     (case map_of (rev cs) (t m) of Some h \<Rightarrow> h m | None \<Rightarrow> send_command t md m)" for md
    by (induction cs arbitrary: md) (auto simp: send_registered map_add_def split: option.splits)
  show ?thesis by (simp add: register_all_def q c)
qed

lemma registered_queries:
  "ask_query t (register_all cs qs md) m =
     (case map_of (rev qs) (t m) of Some h \<Rightarrow> h m | None \<Rightarrow> ask_query t md m)"
proof -
  have c: "ask_query t (fold (\<lambda>(t, h). register_command_factory t (\<lambda>u. h)) cs md) = ask_query t md" for md
    by (induction cs arbitrary: md) (auto simp: send_registered)
  have q: "ask_query t (fold (\<lambda>(t, h). register_query_factory t (\<lambda>u. h)) qs md) m =
     (case map_of (rev qs) (t m) of Some h \<Rightarrow> h m | None \<Rightarrow> ask_query t md m)" for md
    by (induction qs arbitrary: md) (auto simp: send_registered map_add_def split: option.splits)
  show ?thesis by (simp add: register_all_def q c cong: option.case_cong)
qed

lemmas registries = app_mediator_def setup_identity_def setup_blob_def registered_commands registered_queries
  identity_commands_def identity_queries_def blob_commands_def blob_queries_def

lemma every_message_handled:
  "(if is_query m then ask_query else send_command) class_of_message (app_mediator D) m = reference_handler D m"
  by (cases m) (simp_all add: is_query_def registries)

lemma reach_commands:
  "\<not> is_query m \<Longrightarrow> send_to D m = py_bind (reference_handler D m) unwrap_reply"
  "is_query m \<Longrightarrow> ask_for D m = py_bind (reference_handler D m) unwrap_reply"
  using every_message_handled [of m D] by (simp_all add: send_to_def ask_for_def)

section \<open>End to end\<close>

definition via :: "deps \<Rightarrow> message \<Rightarrow> answer app" where
  "via D m = py_bind (reference_handler D m) unwrap_reply"

lemma reach [simp]:
  "send_to D (RegisterCommand c) = via D (RegisterCommand c)"
  "send_to D (ConfirmEmailCommand e code) = via D (ConfirmEmailCommand e code)"
  "send_to D (ResendEmailConfirmationCommand e) = via D (ResendEmailConfirmationCommand e)"
  "send_to D (LoginCommand e p) = via D (LoginCommand e p)"
  "send_to D (RefreshTokenCommand t) = via D (RefreshTokenCommand t)"
  "send_to D (ForgotPasswordStep1Command e) = via D (ForgotPasswordStep1Command e)"
  "send_to D (ForgotPasswordStep2Command e code) = via D (ForgotPasswordStep2Command e code)"
  "send_to D (ForgotPasswordStep3Command e code p) = via D (ForgotPasswordStep3Command e code p)"
  "send_to D (UserUpdateMeCommand u) = via D (UserUpdateMeCommand u)"
  "send_to D (ChangePasswordCommand a b) = via D (ChangePasswordCommand a b)"
  "send_to D (UserToggleStatusCommand i) = via D (UserToggleStatusCommand i)"
  "send_to D (BlobUploadCommand f) = via D (BlobUploadCommand f)"
  "send_to D (BlobDeleteCommand i) = via D (BlobDeleteCommand i)"
  "ask_for D (MeQuery i) = via D (MeQuery i)"
  "ask_for D (UserDetailedQuery i) = via D (UserDetailedQuery i)"
  "ask_for D (UserListQuery q) = via D (UserListQuery q)"
  "ask_for D (BlobByIdQuery i) = via D (BlobByIdQuery i)"
  "ask_for D (BlobListQuery l k) = via D (BlobListQuery l k)"
  by (simp_all add: via_def reach_commands is_query_def)

text \<open>The message of a request of a user, or of nobody; a list query is bound first.\<close>

fun message_of :: "pydantic \<Rightarrow> principal option \<Rightarrow> request \<Rightarrow> (exn, message) outcome" where
  "message_of P u (Auth_Route (Register c)) = Ret (RegisterCommand c)"
| "message_of P u (Auth_Route (Confirm_Email e code)) = Ret (ConfirmEmailCommand e code)"
| "message_of P u (Auth_Route (Resend e)) = Ret (ResendEmailConfirmationCommand e)"
| "message_of P u (Auth_Route (Login e p)) = Ret (LoginCommand e p)"
| "message_of P u (Auth_Route (Refresh t)) = Ret (RefreshTokenCommand t)"
| "message_of P u (Forgot_Route (Step1 e)) = Ret (ForgotPasswordStep1Command e)"
| "message_of P u (Forgot_Route (Step2 e code)) = Ret (ForgotPasswordStep2Command e code)"
| "message_of P u (Forgot_Route (Step3 e code p)) = Ret (ForgotPasswordStep3Command e code p)"
| "message_of P u (User_Route Me) = (case u of Some p \<Rightarrow> Ret (MeQuery (principal_id p)) | None \<Rightarrow> Raise (AttributeError ''id''))"
| "message_of P u (User_Route (Update_Me c)) = Ret (UserUpdateMeCommand c)"
| "message_of P u (User_Route (Change_Password a b)) = Ret (ChangePasswordCommand a b)"
| "message_of P u (User_Route (List_Users line query body)) = oc_bind (bind_exn line (path_bound_query (user_list_query_validate P) query body []))
     (\<lambda>q. Ret (UserListQuery q))"
| "message_of P u (User_Route (User_Detailed i)) = Ret (UserDetailedQuery i)"
| "message_of P u (User_Route (Toggle_Status i)) = Ret (UserToggleStatusCommand i)"
| "message_of P u (Blob_Route (Upload f)) = Ret (BlobUploadCommand f)"
| "message_of P u (Blob_Route (List_Blobs l k)) = Ret (BlobListQuery l k)"
| "message_of P u (Blob_Route (Blob_Detailed i)) = Ret (BlobByIdQuery i)"
| "message_of P u (Blob_Route (Delete_Blob i)) = Ret (BlobDeleteCommand i)"

definition reference_route :: "deps \<Rightarrow> principal option \<Rightarrow> request \<Rightarrow> answer app" where
  "reference_route D u r = (case message_of (dp_pydantic D) u r of Ret m \<Rightarrow> via D m | Raise e \<Rightarrow> py_raise e)"

lemma lift_bind: "py_bind (py_lift m) f = (case m of Ret a \<Rightarrow> f a | Raise e \<Rightarrow> py_raise e)"
  by (rule ext) (simp add: py_bind_app split: outcome.splits)

lemma controllers:
  "auth_controller D a = reference_route D u (Auth_Route a)"
  "forgot_controller D f = reference_route D u (Forgot_Route f)"
  "user_controller D u x = reference_route D u (User_Route x)"
  "blob_controller D b = reference_route D u (Blob_Route b)"
proof -
  show "auth_controller D a = reference_route D u (Auth_Route a)" by (cases a) (simp_all add: reference_route_def)
  show "forgot_controller D f = reference_route D u (Forgot_Route f)" by (cases f) (simp_all add: reference_route_def)
  show "user_controller D u x = reference_route D u (User_Route x)"
    by (cases x) (simp_all add: reference_route_def lift_bind split: option.splits outcome.splits)
  show "blob_controller D b = reference_route D u (Blob_Route b)" by (cases b) (simp_all add: reference_route_def)
qed

text \<open>The response to what a route does as a user, who is forgotten afterwards.\<close>

definition answer_as ::
  "bool \<Rightarrow> (exn \<Rightarrow> error_context) \<Rightarrow> (answer \<Rightarrow> pyval) \<Rightarrow> request \<Rightarrow> answer app \<Rightarrow> uuid option \<Rightarrow> world \<Rightarrow> response \<times> world" where
  "answer_as debug ctx render r m who w = (case m (w\<lparr>w_user := who\<rparr>) of
       (Ret a, w') \<Rightarrow> (\<lparr>rs_status = success_status r, rs_body = render a\<rparr>, w'\<lparr>w_user := w_user w\<rparr>)
     | (Raise e, w') \<Rightarrow> (exception_handler debug ctx e, w'\<lparr>w_user := w_user w\<rparr>))"

lemma auth_error_status: "auth_error e \<Longrightarrow> rs_status (exception_handler debug ctx e) = 400 \<or> rs_status (exception_handler debug ctx e) = 401"
  by (cases e) (auto simp: auth_error_def exception_handler_def)

lemma guarded_run: "guarded r \<Longrightarrow> run_request D c r = user_route (dp_libs D) (dp_jwt D) (dp_key_secret D) (cr_bearer c) (cr_api_key c)
    (\<lambda>u. reference_route D u r)"
proof (cases r)
  case (Blob_Route b)
  have "(\<lambda>u :: principal option. blob_controller D b) = (\<lambda>u. reference_route D u (Blob_Route b))" by (rule ext) (rule controllers(4))
  then show ?thesis using Blob_Route by (simp add: run_request_def Let_def)
qed (simp_all add: guarded_def run_request_def Let_def controllers(3))

lemma public_run: "\<not> guarded r \<Longrightarrow> run_request D c r = auth_middleware (dp_libs D) (dp_jwt D) (dp_key_secret D) (cr_bearer c) (cr_api_key c)
    (\<lambda>st. reference_route D None r)"
  by (cases r) (simp_all add: guarded_def run_request_def Let_def controllers [where u = None])

section \<open>Who stands behind a request\<close>

text \<open>
  The caller that the two headers of a request name, read off the tables: nobody; the user of a token;
  the owner of an API key; or none that is let in: both headers, a token that stands for no active
  account, a key that is not base64, or (\<open>Malformed\<close>) a signed token whose claims are no payload. An
  authorization header that is not two words names nobody.
\<close>

datatype caller = Nobody | By_Token user_row | By_Key user_row | Malformed "(string list \<times> string) list" | Turned_Away

definition key_owner :: "libs \<Rightarrow> bytes \<Rightarrow> db \<Rightarrow> bytes \<Rightarrow> user_row option" where
  "key_owner L secret d raw = (case filter (\<lambda>k. k_key k = sign L secret raw None) (db_api_keys d) of
     [] \<Rightarrow> None | k # ks \<Rightarrow> find (\<lambda>u. u_id u = k_owner_id k) (db_users d))"

definition caller_of :: "libs \<Rightarrow> jwt_config \<Rightarrow> bytes \<Rightarrow> db \<Rightarrow> int \<Rightarrow> credentials \<Rightarrow> caller" where
  "caller_of L cfg secret d now c =
     (case (header_given (cr_bearer c), header_given (cr_api_key c)) of
        (True, True) \<Rightarrow> Turned_Away
      | (True, False) \<Rightarrow> (case py_split (CHR '' '') (py_strip (the (cr_bearer c))) of
            [scheme, token] \<Rightarrow> if token = [] then Turned_Away
              else (case token_malformed L cfg now token of
                  Some errors \<Rightarrow> Malformed errors
                | None \<Rightarrow> (case token_account L cfg d now token of None \<Rightarrow> Turned_Away | Some u \<Rightarrow> By_Token u))
          | _ \<Rightarrow> Nobody)
      | (False, True) \<Rightarrow> (case b64_decode L (the (cr_api_key c)) of
            None \<Rightarrow> Turned_Away
          | Some raw \<Rightarrow> (case key_owner L secret d raw of None \<Rightarrow> Nobody | Some u \<Rightarrow> By_Key u))
      | (False, False) \<Rightarrow> Nobody)"

text \<open>The world once the credentials were looked at: a token reads the clock.\<close>

definition looked :: "credentials \<Rightarrow> world \<Rightarrow> world" where
  "looked c w = (if bearer_token (cr_bearer c) (cr_api_key c) = None then w else w\<lparr>w_tick := Suc (w_tick w)\<rparr>)"

fun caller_id :: "caller \<Rightarrow> uuid option" where
  "caller_id (By_Token u) = Some (u_id u)"
| "caller_id (By_Key u) = Some (u_id u)"
| "caller_id c = None"

fun caller_user :: "caller \<Rightarrow> principal option" where
  "caller_user (By_Token u) = Some (TokenUser (context_of u))"
| "caller_user c = None"

definition caller_state :: "caller \<Rightarrow> request_state \<Rightarrow> bool" where
  "caller_state who st \<longleftrightarrow> (case who of
       By_Token u \<Rightarrow> st = \<lparr>rq_user = Some (TokenUser (context_of u)), rq_api_key = None\<rparr>
     | By_Key u \<Rightarrow> \<exists>k. st = \<lparr>rq_user = Some (KeyOwner u), rq_api_key = Some (k, u)\<rparr>
     | _ \<Rightarrow> st = \<lparr>rq_user = None, rq_api_key = None\<rparr>)"

lemma key_found:
  "case key_owner L secret (w_work w) raw of
     None \<Rightarrow> api_key_get_with_owner L secret raw w = (Ret None, w)
   | Some u \<Rightarrow> \<exists>k. api_key_get_with_owner L secret raw w = (Ret (Some (k, u)), w)"
  by (auto simp: key_owner_def api_key_get_with_owner_def api_key_repo_get_def split: list.splits option.splits)

lemma authenticate_caller:
  assumes "db_ok (w_work w)"
  shows "case caller_of L cfg secret (w_work w) (epoch w 0) c of
      Malformed errors \<Rightarrow> authenticate L cfg secret (cr_bearer c) (cr_api_key c) w = (Raise (ValidationError errors), looked c w)
    | Turned_Away \<Rightarrow> \<exists>e. authenticate L cfg secret (cr_bearer c) (cr_api_key c) w = (Raise e, looked c w) \<and> auth_error e
    | who \<Rightarrow> \<exists>st. authenticate L cfg secret (cr_bearer c) (cr_api_key c) w = (Ret st, looked c w) \<and> caller_state who st"
proof (cases "bearer_token (cr_bearer c) (cr_api_key c)")
  case (Some token)
  then obtain scheme where t: "py_split (CHR '' '') (py_strip (the (cr_bearer c))) = [scheme, token]" "token \<noteq> []"
      "header_given (cr_bearer c)" "\<not> header_given (cr_api_key c)"
    by (auto simp: bearer_token_def split: if_splits list.splits)
  have l: "looked c w = w\<lparr>w_tick := Suc (w_tick w)\<rparr>" using Some by (simp add: looked_def)
  show ?thesis
    using authenticate_token [OF assms Some, of L cfg secret] t malformed_no_account [of L cfg "epoch w 0" token _ "w_work w"]
    by (cases "token_malformed L cfg (epoch w 0) token"; cases "token_account L cfg (w_work w) (epoch w 0) token")
      (auto simp: caller_of_def caller_state_def l auth_error_def)
next
  case None
  then have l: "looked c w = w" by (simp add: looked_def)
  consider (both) "header_given (cr_bearer c)" "header_given (cr_api_key c)"
    | (bearer) "header_given (cr_bearer c)" "\<not> header_given (cr_api_key c)"
    | (key) "\<not> header_given (cr_bearer c)" "header_given (cr_api_key c)"
    | (neither) "\<not> header_given (cr_bearer c)" "\<not> header_given (cr_api_key c)"
    by blast
  then show ?thesis
  proof cases
    case both
    then show ?thesis by (simp add: caller_of_def authenticate_def auth_error_def l)
  next
    case bearer
    then have "\<And>scheme token. py_split (CHR '' '') (py_strip (the (cr_bearer c))) = [scheme, token] \<Longrightarrow> token = []"
      using None by (auto simp: bearer_token_def split: if_splits)
    then show ?thesis using bearer
      by (auto simp: caller_of_def authenticate_def auth_error_def l caller_state_def py_bind_app
          get_current_user_from_token_def raise_unauthorized_run split: list.splits)
  next
    case key
    show ?thesis
    proof (cases "b64_decode L (the (cr_api_key c))")
      case None
      then show ?thesis using key by (simp add: caller_of_def authenticate_def auth_error_def l)
    next
      case (Some raw)
      then show ?thesis using key key_found [of L secret raw w]
        by (cases "key_owner L secret (w_work w) raw")
          (auto simp: caller_of_def authenticate_def l caller_state_def py_bind_app)
    qed
  next
    case neither
    then show ?thesis by (simp add: caller_of_def authenticate_def l caller_state_def)
  qed
qed

text \<open>What the middleware makes of the rest of a request, by the caller.\<close>

definition let_in :: "caller \<Rightarrow> bool" where
  "let_in who \<longleftrightarrow> (case who of Malformed es \<Rightarrow> False | Turned_Away \<Rightarrow> False | _ \<Rightarrow> True)"

lemma caller_in:
  assumes "db_ok (w_work w)" "who = caller_of L cfg secret (w_work w) (epoch w 0) c" "let_in who"
  obtains st where "authenticate L cfg secret (cr_bearer c) (cr_api_key c) w = (Ret st, looked c w)" "caller_state who st"
    "map_option principal_id (rq_user st) = caller_id who"
proof -
  obtain st where st: "authenticate L cfg secret (cr_bearer c) (cr_api_key c) w = (Ret st, looked c w)" "caller_state who st"
    using authenticate_caller [OF assms(1), of L cfg secret c] assms(2,3) by (auto simp: let_in_def split: caller.splits)
  moreover have "map_option principal_id (rq_user st) = caller_id who"
    using st(2) assms(3) by (cases who) (auto simp: caller_state_def let_in_def context_of_def)
  ultimately show ?thesis using that by blast
qed

lemma caller_guard:
  assumes "caller_state who st" "let_in who"
  shows "get_current_user_from_request True False st w = (case who of
      By_Token u \<Rightarrow> (Ret (Some (TokenUser (context_of u))), w)
    | _ \<Rightarrow> (Raise (HTTPException 401 (message_text MAccessTokenRequired) VNone), w))"
  using assms by (cases who) (auto simp: caller_state_def get_current_user_from_request_def let_in_def)

lemma serve_refused:
  assumes "authenticate (dp_libs D) (dp_jwt D) (dp_key_secret D) (cr_bearer c) (cr_api_key c) w = (Raise e, w')"
  shows "serve_request debug ctx render D c r w = (exception_handler debug ctx e, w')"
  using assms by (cases "guarded r")
    (simp_all add: serve_request_def guarded_run public_run user_route_def auth_middleware_def py_bind_app)

text \<open>
  Claim C12. Every request, end to end: any of the routes with any two headers. Who is asking
  (\<open>caller_of\<close>) decides. A caller that is not let in gets 400 or 401, or the validation error of the
  token's claims (422), whatever the route, and nothing has changed. The routes of the users and of
  the stored objects are for the user of a token only: nobody and the owner of an API key get 401
  and nothing has changed. In every other case (a token user on any route; anybody let in on the
  routes of sign-up, login and password reset) the response is that of the handler written for the
  route's message, run as the caller, who is forgotten afterwards.
\<close>

theorem requests_end_to_end:
  assumes "db_ok (w_work w)" and "who = caller_of (dp_libs D) (dp_jwt D) (dp_key_secret D) (w_work w) (epoch w 0) c"
  shows "case who of
      Malformed errors \<Rightarrow> serve_request debug ctx render D c r w =
        (\<lparr>rs_status = 422, rs_body = format_validation_error errors\<rparr>, looked c w)
    | Turned_Away \<Rightarrow> \<exists>body st. serve_request debug ctx render D c r w = (\<lparr>rs_status = st, rs_body = body\<rparr>, looked c w)
        \<and> (st = 400 \<or> st = 401)
    | _ \<Rightarrow> if guarded r \<and> caller_user who = None
        then \<exists>body. serve_request debug ctx render D c r w = (\<lparr>rs_status = 401, rs_body = body\<rparr>, looked c w)
        else serve_request debug ctx render D c r w =
          answer_as debug ctx render r (reference_route D (caller_user who) r) (caller_id who) (looked c w)"
proof (cases "let_in who")
  case False
  let ?a = "authenticate (dp_libs D) (dp_jwt D) (dp_key_secret D) (cr_bearer c) (cr_api_key c) w"
  note a = authenticate_caller [OF assms(1), of "dp_libs D" "dp_jwt D" "dp_key_secret D" c, folded assms(2)]
  show ?thesis
  proof (cases who)
    case (Malformed errors)
    then have "?a = (Raise (ValidationError errors), looked c w)" using a by simp
    from serve_refused [OF this] show ?thesis by (simp add: Malformed exception_handler_def)
  next
    case Turned_Away
    then obtain e where e: "?a = (Raise e, looked c w)" "auth_error e" using a by auto
    obtain st body where "exception_handler debug ctx e = \<lparr>rs_status = st, rs_body = body\<rparr>"
      by (cases "exception_handler debug ctx e")
    then show ?thesis
      using serve_refused [OF e(1), of debug ctx render r] auth_error_status [OF e(2), of debug ctx] by (simp add: Turned_Away)
  qed (use False in \<open>simp_all add: let_in_def\<close>)
next
  case True
  obtain st where st: "authenticate (dp_libs D) (dp_jwt D) (dp_key_secret D) (cr_bearer c) (cr_api_key c) w = (Ret st, looked c w)"
      "caller_state who st" "map_option principal_id (rq_user st) = caller_id who"
    by (rule caller_in [OF assms True])
  have any: "\<not> guarded r \<Longrightarrow> reference_route D u r = reference_route D u' r" for u u'
    by (cases r) (simp_all add: guarded_def controllers [symmetric])
  have public: "serve_request debug ctx render D c r w =
      answer_as debug ctx render r (reference_route D (caller_user who) r) (caller_id who) (looked c w)" if "\<not> guarded r"
    using st any [OF that, of None "caller_user who"]
    by (auto simp: serve_request_def public_run [OF that] answer_as_def auth_middleware_def
        with_context_def py_bind_app Let_def split: prod.splits outcome.splits)
  have own: "serve_request debug ctx render D c r w = (case who of
        By_Token u \<Rightarrow> answer_as debug ctx render r (reference_route D (caller_user who) r) (caller_id who) (looked c w)
      | _ \<Rightarrow> (exception_handler debug ctx (HTTPException 401 (message_text MAccessTokenRequired) VNone), looked c w))"
    if "guarded r"
    using st caller_guard [OF st(2) True] True
    by (cases who) (auto simp: serve_request_def guarded_run [OF that] user_route_def answer_as_def auth_middleware_def
        with_context_def py_bind_app Let_def let_in_def split: prod.splits outcome.splits)
  show ?thesis
    using True public own by (cases who; cases "guarded r") (auto simp: let_in_def exception_handler_def)
qed

text \<open>
  Ann's own profile with her token, a deletion that nobody asks for, a login with a malformed token, and
  a login request beside an API key that nobody owns.
\<close>

definition sample_deps :: deps where
  "sample_deps = \<lparr>dp_libs = token_libs, dp_jwt = default_jwt_config [], dp_key_secret = [], dp_media_base = ''http://h'',
     dp_media = sample_media, dp_pydantic = sample_pydantic\<rparr>"

definition no_context :: "exn \<Rightarrow> error_context" where
  "no_context e = \<lparr>ec_text = [], ec_trace_id = [], ec_user_id = [], ec_url = [], ec_method = []\<rparr>"

definition serve_sample :: "credentials \<Rightarrow> request \<Rightarrow> response \<times> world" where
  "serve_sample c r = serve_request False no_context (\<lambda>a. VNone) sample_deps c r sample_world"

theorem requests_end_to_end_witness:
  "serve_sample \<lparr>cr_bearer = Some ''Bearer ann'', cr_api_key = None\<rparr> (User_Route Me)
     = answer_as False no_context (\<lambda>a. VNone) (User_Route Me) (via sample_deps (MeQuery 1)) (Some 1)
         (sample_world\<lparr>w_tick := Suc (w_tick sample_world)\<rparr>)
   \<and> (\<exists>body. serve_sample \<lparr>cr_bearer = None, cr_api_key = None\<rparr> (Blob_Route (Delete_Blob 5))
         = (\<lparr>rs_status = 401, rs_body = body\<rparr>, sample_world))
   \<and> rs_status (fst (serve_sample \<lparr>cr_bearer = Some ''Bearer eve'', cr_api_key = None\<rparr> (Auth_Route (Login ''a'' ''b'')))) = 422
   \<and> serve_sample \<lparr>cr_bearer = None, cr_api_key = Some ''k''\<rparr> (Auth_Route (Login ''a'' ''b''))
     = answer_as False no_context (\<lambda>a. VNone) (Auth_Route (Login ''a'' ''b'')) (via sample_deps (LoginCommand ''a'' ''b'')) None sample_world"
proof -
  have d: "db_ok (w_work sample_world)" using sample_db_ok by (simp add: sample_world_def)
  have b: "py_split (CHR '' '') (py_strip ''Bearer ann'') = [''Bearer'', ''ann'']"
    "py_split (CHR '' '') (py_strip ''Bearer eve'') = [''Bearer'', ''eve'']" by code_simp+
  have t: "token_account token_libs (default_jwt_config []) (w_work sample_world) (epoch sample_world 0) ''ann'' = Some ann"
    "token_malformed token_libs (default_jwt_config []) (epoch sample_world 0) ''ann'' = None"
    "token_malformed token_libs (default_jwt_config []) (epoch sample_world 0) ''eve'' = Some [([''exp''], ''Input should be a valid integer'')]"
    by (simp_all add: token_account_def token_malformed_def token_claims_def token_libs_def epoch_def sample_defs)
  have u: "reference_route sample_deps (Some (TokenUser (context_of ann))) (User_Route Me) = via sample_deps (MeQuery 1)"
      "reference_route sample_deps None (Auth_Route (Login ''a'' ''b'')) = via sample_deps (LoginCommand ''a'' ''b'')"
    by (simp_all add: reference_route_def context_of_def ann_def)
  have i: "u_id ann = 1" by (simp add: ann_def)
  have k: "b64_decode token_libs ''k'' = Some (utf8_encode ''k'')" "key_owner token_libs [] (w_work sample_world) raw = None" for raw
    by (simp_all add: token_libs_def sample_libs_def key_owner_def sample_world_def sample_db_def)
  have s: "dp_libs sample_deps = token_libs" "dp_jwt sample_deps = default_jwt_config []" "dp_key_secret sample_deps = []"
    by (simp_all add: sample_deps_def)
  note serve = requests_end_to_end [OF d refl, where D = sample_deps and debug = False and ctx = no_context and render = "\<lambda>a. VNone",
      folded serve_sample_def]
  show ?thesis
    using serve [where c = "\<lparr>cr_bearer = Some ''Bearer ann'', cr_api_key = None\<rparr>" and r = "User_Route Me"]
      serve [where c = "\<lparr>cr_bearer = None, cr_api_key = None\<rparr>" and r = "Blob_Route (Delete_Blob 5)"]
      serve [where c = "\<lparr>cr_bearer = Some ''Bearer eve'', cr_api_key = None\<rparr>" and r = "Auth_Route (Login ''a'' ''b'')"]
      serve [where c = "\<lparr>cr_bearer = None, cr_api_key = Some ''k''\<rparr>" and r = "Auth_Route (Login ''a'' ''b'')"]
    by (simp add: guarded_def s b t u i k caller_of_def header_given_def looked_def bearer_token_def)
qed

end
