(* ===== verification/UserListFlows.thy ===== *)
theory UserListFlows
  imports UserList Samples "HOL-Library.Multiset"
begin

text \<open>
  What the list of users answers: the interface of a filter compiler and what a repository gets from
  it, its interpretation on the compiler of user filters, and from there the whole request: which
  parameters are accepted, which rows and which count come back, and that paging reaches every
  matching user.
\<close>

section \<open>Sorting\<close>

lemma mset_insert_row [simp]: "mset (insert_row le x xs) = add_mset x (mset xs)"
  by (induction xs) auto

lemma mset_sort_rows [simp]: "mset (sort_rows le xs) = mset xs"
  by (induction xs) (simp_all add: sort_rows_def)

lemma set_sort_rows [simp]: "set (sort_rows le xs) = set xs"
  by (metis mset_sort_rows set_mset_mset)

lemma length_sort_rows [simp]: "length (sort_rows le xs) = length xs"
  by (metis mset_sort_rows size_mset)

lemma set_insert_row [simp]: "set (insert_row le x xs) = insert x (set xs)"
  by (metis mset_insert_row set_mset_add_mset_insert set_mset_mset)

lemma sorted_insert_row:
  assumes "\<And>a b. le a b \<or> le b a" "\<And>a b c. le a b \<Longrightarrow> le b c \<Longrightarrow> le a c" "sorted_wrt le xs"
  shows "sorted_wrt le (insert_row le x xs)"
  using assms(3)
proof (induction xs)
  case (Cons y ys)
  then show ?case using assms(1) [of x y] assms(2) [of x y] by auto
qed simp

lemma sorted_sort_rows:
  assumes "\<And>a b. le a b \<or> le b a" "\<And>a b c. le a b \<Longrightarrow> le b c \<Longrightarrow> le a c"
  shows "sorted_wrt le (sort_rows le xs)"
  by (induction xs) (simp_all add: sort_rows_def sorted_insert_row [OF assms])

lemma null_less_total: "x = y \<or> null_less x y \<or> null_less y x"
  by (cases x; cases y) auto

lemma null_less_trans: "null_less x y \<Longrightarrow> null_less y z \<Longrightarrow> null_less x z"
  by (cases x; cases y; cases z) auto

lemma null_less_irrefl [simp]: "\<not> null_less x x"
  by (cases x) simp_all

lemma row_before_total: "row_before es a b \<or> row_before es b a"
proof (induction es)
  case (Cons e es)
  obtain f d where "e = (f, d)" by (cases e)
  then show ?case using Cons null_less_total [of "cmp_key (f a)" "cmp_key (f b)"]
    by (cases d) (auto simp: Let_def)
qed simp

lemma row_before_trans: "row_before es a b \<Longrightarrow> row_before es b c \<Longrightarrow> row_before es a c"
proof (induction es)
  case (Cons e es)
  obtain f d where "e = (f, d)" by (cases e)
  then show ?case using Cons
    by (cases d) (auto simp: Let_def split: if_splits dest: null_less_trans)
qed simp

section \<open>The interface of a filter compiler (modules/filtering/ports.py)\<close>

text \<open>
  What a repository relies on: filters that its route accepts compile, and the conditions select
  the rows the filters mean.
\<close>

locale filter_compiler =
  fixes compile_cs :: "container list \<Rightarrow> (exn, 'q list) outcome"
    and holds :: "'r \<Rightarrow> 'q \<Rightarrow> bool"
    and accepts :: "container list \<Rightarrow> bool"
    and means :: "container \<Rightarrow> 'r \<Rightarrow> bool"
  assumes compiles: "accepts cs \<Longrightarrow> \<exists>qs. compile_cs cs = Ret qs
    \<and> (\<forall>r. list_all (holds r) qs \<longleftrightarrow> (\<forall>c \<in> set cs. means c r))"
begin

lemma page_of_matching:
  assumes "accepts cs" "\<And>rows. order rows = Ret (arrange rows)"
  shows "select_page compile_cs holds order limit offset cs scan table =
    (let matching = filter (\<lambda>r. \<forall>c \<in> set cs. means c r) table
     in Ret (length matching, take limit (drop offset (arrange (scan matching)))))"
  using compiles [OF assms(1)] by (auto simp: select_page_def assms(2) Let_def)

end

section \<open>The specifications of the user list\<close>

definition search_spec :: filter_spec where
  "search_spec = mk_spec BT_Str L_EQ (Some ''search'') False None"

definition status_spec :: filter_spec where
  "status_spec = (mk_spec (BT_Enum ''StatusEnum'' status_members) L_EQ (Some ''status'') False None)
     \<lparr>fs_choices := Some status_members\<rparr>"

definition created_spec :: filter_spec where
  "created_spec = range_spec BT_Datetime (Some ''created_at'') False False
     (no_bounds\<lparr>bd_lte := Some (VDatetime datetime_max)\<rparr>) None"

definition the_fields :: "model_field list" where
  "the_fields =
     [\<lparr>mf_name = ''limit'', mf_type = BT_Int, mf_metadata = [M_Gt 0, M_Lt 301], mf_default = Some (VInt 10)\<rparr>,
      \<lparr>mf_name = ''offset'', mf_type = BT_Int, mf_metadata = [M_Gt (- 1)], mf_default = Some (VInt 0)\<rparr>,
      \<lparr>mf_name = ''search'', mf_type = BT_Str,
       mf_metadata = [M_Other ''max_length=100, strip_whitespace'', M_Injector search_spec], mf_default = Some VNone\<rparr>,
      \<lparr>mf_name = ''status'', mf_type = BT_Enum ''StatusEnum'' status_members,
       mf_metadata = [M_Injector status_spec], mf_default = Some VNone\<rparr>,
      \<lparr>mf_name = ''created_at__rn'', mf_type = BT_Datetime, mf_metadata = [M_Injector created_spec],
       mf_default = Some VNone\<rparr>]"

lemmas list_spec_defs = search_spec_def status_spec_def created_spec_def mk_spec_def range_spec_def
  with_bounds_def no_bounds_def

lemma the_fields_eq: "user_list_fields = Ret the_fields"
  by (simp add: user_list_fields_def the_fields_def list_query_decls_def spec_string_def spec_enum_def
      parse_choices_def choices_given_def filter_meta_def meta_field_def extract_declared_def bind_field_def
      created_at_rn_def spec_datetime_range_def list_spec_defs)

text \<open>No value of the three filters fails: the one bound is aware, as the ends of a range are.\<close>

lemma list_specs_safe: "never_crashes search_spec" "never_crashes status_spec" "never_crashes created_spec"
  by (rule never_crashesI; simp add: spec_ok_def bound_ok_def aware_bounds_def list_spec_defs)+

lemma list_specs_ok: "spec_ok search_spec" "spec_ok status_spec" "spec_ok created_spec"
  by (simp_all add: spec_ok_def bound_ok_def list_spec_defs)

section \<open>Accepted requests\<close>

text \<open>A list request as a client means it.\<close>

record list_request =
  rq_limit :: nat
  rq_offset :: nat
  rq_search :: "string option"
  rq_status :: "int option"
  rq_from :: "int option"
  rq_to :: "int option"
  rq_ordering :: "ordering_item list option"

definition opt_datetime :: "int option \<Rightarrow> pyval" where
  "opt_datetime x = (case x of None \<Rightarrow> VNone | Some t \<Rightarrow> VDatetime t)"

definition request_attrs :: "list_request \<Rightarrow> attrs" where
  "request_attrs r =
     [(''limit'', VInt (int (rq_limit r))), (''offset'', VInt (int (rq_offset r))),
      (''search'', opt_text (rq_search r)),
      (''status'', case rq_status r of None \<Rightarrow> VNone | Some i \<Rightarrow> VEnum ''StatusEnum'' (VInt i)),
      (''created_at__rn'', if rq_from r = None \<and> rq_to r = None then VNone
        else VTuple [opt_datetime (rq_from r), opt_datetime (rq_to r)])]"

definition request_query :: "list_request \<Rightarrow> user_list_query" where
  "request_query r = \<lparr>uq_ordering = rq_ordering r, uq_attrs = request_attrs r\<rparr>"

definition request_ok :: "list_request \<Rightarrow> bool" where
  "request_ok r \<longleftrightarrow> 1 \<le> rq_limit r \<and> rq_limit r \<le> 300
     \<and> (case rq_status r of None \<Rightarrow> True | Some i \<Rightarrow> i \<in> {0, 1})
     \<and> (case rq_to r of None \<Rightarrow> True | Some t \<Rightarrow> t \<le> datetime_max)
     \<and> (case rq_from r of None \<Rightarrow> True | Some t \<Rightarrow> t \<le> datetime_max)
     \<and> (case (rq_from r, rq_to r) of (Some a, Some b) \<Rightarrow> a \<le> b | _ \<Rightarrow> True)
     \<and> (case rq_ordering r of None \<Rightarrow> True
         | Some items \<Rightarrow> list_all (\<lambda>i. oi_field i \<in> {''created_at'', ''email''}) items)"

text \<open>The request that the raw parameters spell, by what the schemas make of each.\<close>

definition field_reads :: "pydantic \<Rightarrow> filter_spec \<Rightarrow> pyval option \<Rightarrow> pyval \<Rightarrow> bool" where
  "field_reads P s raw_value x \<longleftrightarrow> (case raw_value of None \<Rightarrow> x = VNone
     | Some v \<Rightarrow> if v = VNone then x = VNone else value_schema P s v = Ret x)"

definition number_reads :: "pydantic \<Rightarrow> pyval option \<Rightarrow> nat \<Rightarrow> nat \<Rightarrow> bool" where
  "number_reads P raw_value dflt n \<longleftrightarrow> (case raw_value of None \<Rightarrow> n = dflt
     | Some v \<Rightarrow> py_coerce P BT_Int v = Ret (VInt (int n)))"

definition reads :: "pydantic \<Rightarrow> raw_query \<Rightarrow> list_request \<Rightarrow> bool" where
  "reads P raw r \<longleftrightarrow> number_reads P (raw ''limit'') 10 (rq_limit r) \<and> number_reads P (raw ''offset'') 0 (rq_offset r)
     \<and> field_reads P search_spec (raw ''search'') (attr (request_attrs r) ''search'')
     \<and> field_reads P status_spec (raw ''status'') (attr (request_attrs r) ''status'')
     \<and> field_reads P created_spec (raw ''created_at__rn'') (attr (request_attrs r) ''created_at__rn'')
     \<and> ordering_field raw = Ret (rq_ordering r)"

text \<open>Which users a request asks for, and in which order.\<close>

definition user_matches :: "list_request \<Rightarrow> user_row \<Rightarrow> bool" where
  "user_matches r u \<longleftrightarrow>
     (case rq_search r of None \<Rightarrow> True
      | Some s \<Rightarrow> ilike (VStr (u_first_name u)) (s @ ''%'') \<or> ilike (VStr (u_last_name u)) (s @ ''%'')
          \<or> ilike (VStr (u_email u)) (s @ ''%''))
     \<and> (case rq_status r of None \<Rightarrow> True | Some i \<Rightarrow> u_status u = i)
     \<and> (case rq_from r of None \<Rightarrow> True | Some t \<Rightarrow> t \<le> u_created_at u)
     \<and> (case rq_to r of None \<Rightarrow> True | Some t \<Rightarrow> u_created_at u \<le> t)"

definition order_expr :: "ordering_item \<Rightarrow> (user_row \<Rightarrow> pyval) \<times> direction" where
  "order_expr i = ((if oi_field i = ''email'' then (\<lambda>u. VStr (u_email u)) else (\<lambda>u. VDatetime (u_created_at u))),
     oi_direction i)"

definition arranged :: "list_request \<Rightarrow> user_row list \<Rightarrow> user_row list" where
  "arranged r rows = (case rq_ordering r of None \<Rightarrow> rows | Some [] \<Rightarrow> rows
     | Some items \<Rightarrow> sort_rows (row_before (map order_expr items)) rows)"

text \<open>The answer, for the order \<open>scan\<close> in which the server delivers the matching rows.\<close>

definition list_answer :: "string \<Rightarrow> list_request \<Rightarrow> (user_row list \<Rightarrow> user_row list) \<Rightarrow> db \<Rightarrow> user_list_dto list_response" where
  "list_answer base r scan d = (let rows = filter (user_matches r) (db_users d)
     in \<lparr>lr_count = length rows,
         lr_rows = map (user_list_dto_of base d) (take (rq_limit r) (drop (rq_offset r) (arranged r (scan rows))))\<rparr>)"

section \<open>What the validation of the query accepts\<close>

lemma both_Ret: "both m n = Ret (a, b) \<longleftrightarrow> m = Ret a \<and> n = Ret b"
  by (auto simp: both_def split: outcome.splits exn.splits)

lemma at_loc_Ret: "at_loc n r = Ret x \<longleftrightarrow> r = Ret x"
  by (auto simp: at_loc_def split: outcome.splits exn.splits)

text \<open>A refusal of the request's parameters: a validation error or an \<open>AppException\<close>.\<close>

definition refused_params :: "exn \<Rightarrow> bool" where
  "refused_params e \<longleftrightarrow> (\<exists>es. e = ValidationError es) \<or> (\<exists>x. e = AppException x)"

lemma at_loc_refused: "(\<And>e. r = Raise e \<Longrightarrow> refused_params e) \<Longrightarrow> at_loc n r = Raise e \<Longrightarrow> refused_params e"
  by (auto simp: at_loc_def refused_params_def split: outcome.splits exn.splits)

lemma both_refused:
  "(\<And>e. m = Raise e \<Longrightarrow> refused_params e) \<Longrightarrow> (\<And>e. n = Raise e \<Longrightarrow> refused_params e) \<Longrightarrow>
   both m n = Raise e \<Longrightarrow> refused_params e"
  by (auto simp: both_def refused_params_def split: outcome.splits exn.splits)

lemma run_validator_Ret: "run_validator s v = Ret x \<Longrightarrow> x = v"
proof (cases "validate s v")
  case (Raise e)
  then show "run_validator s v = Ret x \<Longrightarrow> x = v" by (cases e) (simp_all add: run_validator_def)
qed (simp add: run_validator_def)

lemma pipeline_reads: "\<not> fs_required s \<Longrightarrow> filter_pipeline P s v = Ret x \<Longrightarrow> field_reads P s (Some v) x"
  by (auto simp: filter_pipeline_def field_reads_def oc_bind_Ret_iff dest: run_validator_Ret split: if_splits)

lemma filter_field_Ret:
  assumes "coerces P" "spec_ok s" "\<not> fs_required s" "extract_spec (mf_metadata f) = Some s"
    "mf_default f = Some VNone" "validate_field P raw f = Ret y"
  shows "\<exists>x. y = (mf_name f, x) \<and> typed_value s x \<and> admits s x \<and> field_reads P s (raw (mf_name f)) x"
proof (cases "raw (mf_name f)")
  case None
  then show ?thesis using assms(3,5,6)
    by (auto simp: validate_field_def at_loc_Ret typed_value_def admits_def given_def field_reads_def)
next
  case (Some v)
  then obtain x where x: "y = (mf_name f, x)" "filter_pipeline P s v = Ret x"
    using assms(4,6) by (auto simp: validate_field_def at_loc_Ret oc_bind_Ret_iff)
  moreover have "field_reads P s (Some v) x" by (rule pipeline_reads [OF assms(3) x(2)])
  ultimately show ?thesis using Some pipeline_sound [OF assms(1,2), of v] by simp
qed

lemma filter_field_refused:
  assumes "coerces P" "spec_ok s" "never_crashes s" "extract_spec (mf_metadata f) = Some s"
    "mf_default f = Some VNone" "validate_field P raw f = Raise e"
  shows "refused_params e"
  using assms(6) unfolding validate_field_def
proof (rule at_loc_refused [rotated])
  fix e'
  assume r: "oc_bind (case raw (mf_name f) of
         None \<Rightarrow> (case mf_default f of
             None \<Rightarrow> Raise (ValidationError [([], ''missing'')]) | Some d \<Rightarrow> Ret d)
       | Some v \<Rightarrow> (case extract_spec (mf_metadata f) of
             Some s \<Rightarrow> filter_pipeline P s v
           | None \<Rightarrow> (case py_coerce P (mf_type f) v of
                 Raise e \<Rightarrow> Raise (ValidationError [([], e)])
               | Ret x \<Rightarrow> check_metadata (mf_metadata f) x)))
       (\<lambda>x. Ret (mf_name f, x)) = Raise e'"
  then obtain v where v: "raw (mf_name f) = Some v"
    using assms(5) by (cases "raw (mf_name f)") simp_all
  with r assms(4) have "filter_pipeline P s v = Raise e'"
    by (cases "filter_pipeline P s v") simp_all
  then show "refused_params e'"
    using pipeline_sound [OF assms(1,2), of v] assms(3)
    by (auto simp: refused_params_def refusal_def never_crashes_def)
qed

lemma int_field_Ret:
  assumes "coerces P" "mf_type f = BT_Int" "extract_spec (mf_metadata f) = None"
    "mf_default f = Some (VInt d)" "validate_field P raw f = Ret y"
  shows "\<exists>i. y = (mf_name f, VInt i) \<and> (case raw (mf_name f) of None \<Rightarrow> i = d
     | Some v \<Rightarrow> py_coerce P BT_Int v = Ret (VInt i) \<and> check_metadata (mf_metadata f) (VInt i) = Ret (VInt i))"
proof (cases "raw (mf_name f)")
  case None
  then show ?thesis using assms(4,5) by (auto simp: validate_field_def at_loc_Ret)
next
  case (Some v)
  have same: "x = y" if "check_metadata ms x = Ret y" for ms x y
    using that by (induction ms x rule: check_metadata.induct) (auto split: if_splits)
  obtain x where x: "py_coerce P BT_Int v = Ret x" "check_metadata (mf_metadata f) x = Ret (snd y)" "fst y = mf_name f"
    using Some assms(2,3,5) by (auto simp: validate_field_def at_loc_Ret oc_bind_Ret_iff split: outcome.splits)
  have "of_type BT_Int x" using assms(1) x(1) unfolding coerces_def by blast
  then obtain i where "x = VInt i" by (cases x) auto
  then show ?thesis using x same [OF x(2)] Some by (cases y) auto
qed

lemma check_metadata_Raise: "check_metadata ms v = Raise e \<Longrightarrow> refused_params e"
  by (induction ms v rule: check_metadata.induct) (auto simp: refused_params_def split: if_splits)

lemma int_field_refused:
  assumes "extract_spec (mf_metadata f) = None" "mf_default f = Some d" "validate_field P raw f = Raise e"
  shows "refused_params e"
proof (cases "raw (mf_name f)")
  case None
  then show ?thesis using assms(2,3) by (simp add: validate_field_def at_loc_def)
next
  case (Some v)
  show ?thesis
  proof (cases "py_coerce P (mf_type f) v")
    case (Raise m)
    then show ?thesis using Some assms(1,3) by (auto simp: validate_field_def at_loc_def refused_params_def)
  next
    case (Ret x)
    then show ?thesis using Some assms(1,3) check_metadata_Raise [of "mf_metadata f" x]
      by (cases "check_metadata (mf_metadata f) x")
        (auto simp: validate_field_def at_loc_def refused_params_def split: exn.splits)
  qed
qed

lemma search_value: "typed_value search_spec x \<Longrightarrow> \<exists>t. x = opt_text t"
proof -
  assume "typed_value search_spec x"
  then have "x = VNone \<or> (\<exists>s. x = VStr s)"
    by (cases x) (auto simp: typed_value_def list_spec_defs)
  then show ?thesis
  proof
    assume "x = VNone" then have "x = opt_text None" by (simp add: opt_text_def) then show ?thesis ..
  next
    assume "\<exists>s. x = VStr s"
    then obtain s where "x = opt_text (Some s)" by (auto simp: opt_text_def)
    then show ?thesis ..
  qed
qed

lemma status_value_ok:
  assumes "typed_value status_spec x"
  shows "\<exists>i. x = (case i of None \<Rightarrow> VNone | Some i \<Rightarrow> VEnum ''StatusEnum'' (VInt i))
     \<and> (case i of None \<Rightarrow> True | Some i \<Rightarrow> i \<in> {0, 1})"
proof (cases "x = VNone")
  case True
  then show ?thesis by (intro exI [of _ None]) simp
next
  case False
  then have "x \<in> set status_members"
    using assms by (cases x) (auto simp: typed_value_def list_spec_defs)
  then have "x = VEnum ''StatusEnum'' (VInt 1) \<or> x = VEnum ''StatusEnum'' (VInt 0)"
    by (simp add: status_members_def)
  then show ?thesis
    by (elim disjE) (intro exI [of _ "Some 1"] exI [of _ "Some 0"], simp)+
qed

lemma datetime_cases: "x = VNone \<or> item_type BT_Datetime x \<Longrightarrow> \<exists>t. x = opt_datetime t"
proof -
  assume "x = VNone \<or> item_type BT_Datetime x"
  then have "x = opt_datetime None \<or> (\<exists>t. x = opt_datetime (Some t))"
    by (auto simp: opt_datetime_def dest: item_type_datetime)
  then show ?thesis by blast
qed

lemma val_le_datetime [simp]: "val_le (VDatetime a) (VDatetime b) \<longleftrightarrow> a \<le> b"
  by (simp add: val_le_def comparable_def)

lemma created_value_ok:
  assumes "typed_value created_spec x" "admits created_spec x"
  shows "\<exists>a b. x = (if a = None \<and> b = None then VNone else VTuple [opt_datetime a, opt_datetime b])
     \<and> (case b of None \<Rightarrow> True | Some t \<Rightarrow> t \<le> datetime_max)
     \<and> (case a of None \<Rightarrow> True | Some t \<Rightarrow> t \<le> datetime_max)
     \<and> (case (a, b) of (Some a, Some b) \<Rightarrow> a \<le> b | _ \<Rightarrow> True)"
proof (cases "x = VNone")
  case True
  then show ?thesis by (intro exI [of _ None]) simp
next
  case False
  then obtain y z where x: "x = VTuple [y, z]" "y = VNone \<or> item_type BT_Datetime y" "z = VNone \<or> item_type BT_Datetime z"
    using assms(1) by (auto simp: typed_value_def list_spec_defs split: pyval.splits list.splits)
  then obtain a b where ab: "y = opt_datetime a" "z = opt_datetime b" using datetime_cases by blast
  then show ?thesis using assms(2) x(1)
    by (intro exI [of _ a] exI [of _ b])
      (auto simp: admits_def given_def allowed_def in_bounds_def list_spec_defs opt_datetime_def split: option.splits)
qed

lemma val_less_int [simp]: "val_less (VInt a) (VInt b) \<longleftrightarrow> a < b"
  by (simp add: val_less_def comparable_def)

lemma number_fields:
  "mf_name (the_fields ! 0) = ''limit''" "mf_type (the_fields ! 0) = BT_Int"
  "mf_metadata (the_fields ! 0) = [M_Gt 0, M_Lt 301]" "mf_default (the_fields ! 0) = Some (VInt 10)"
  "mf_name (the_fields ! 1) = ''offset''" "mf_type (the_fields ! 1) = BT_Int"
  "mf_metadata (the_fields ! 1) = [M_Gt (- 1)]" "mf_default (the_fields ! 1) = Some (VInt 0)"
  by (simp_all add: the_fields_def)

lemma limit_value:
  assumes "coerces P" "validate_field P raw (the_fields ! 0) = Ret y"
  shows "\<exists>l. y = (''limit'', VInt (int l)) \<and> 1 \<le> l \<and> l \<le> 300 \<and> number_reads P (raw ''limit'') 10 l"
proof -
  obtain i where "y = (''limit'', VInt i)" "case raw ''limit'' of None \<Rightarrow> i = 10
     | Some v \<Rightarrow> py_coerce P BT_Int v = Ret (VInt i) \<and> check_metadata [M_Gt 0, M_Lt 301] (VInt i) = Ret (VInt i)"
    using int_field_Ret [OF assms(1) _ _ _ assms(2), of 10] by (auto simp only: number_fields extract_spec.simps)
  then have "y = (''limit'', VInt (int (nat i))) \<and> 1 \<le> nat i \<and> nat i \<le> 300 \<and> number_reads P (raw ''limit'') 10 (nat i)"
    by (auto simp: number_reads_def split: if_splits option.splits)
  then show ?thesis ..
qed

lemma offset_value:
  assumes "coerces P" "validate_field P raw (the_fields ! 1) = Ret y"
  shows "\<exists>k. y = (''offset'', VInt (int k)) \<and> number_reads P (raw ''offset'') 0 k"
proof -
  obtain i where "y = (''offset'', VInt i)" "case raw ''offset'' of None \<Rightarrow> i = 0
     | Some v \<Rightarrow> py_coerce P BT_Int v = Ret (VInt i) \<and> check_metadata [M_Gt (- 1)] (VInt i) = Ret (VInt i)"
    using int_field_Ret [OF assms(1) _ _ _ assms(2), of 0] by (auto simp only: number_fields extract_spec.simps)
  then have "y = (''offset'', VInt (int (nat i))) \<and> number_reads P (raw ''offset'') 0 (nat i)"
    by (auto simp: number_reads_def split: if_splits option.splits)
  then show ?thesis ..
qed

lemma fields_Ret:
  "validate_fields P raw (f # fs) = Ret xs \<longleftrightarrow>
   (\<exists>y ys. xs = y # ys \<and> validate_field P raw f = Ret y \<and> validate_fields P raw fs = Ret ys)"
  by (auto simp: oc_bind_Ret_iff both_Ret)

lemma validate_ordering_Ret:
  "validate_ordering names ord = Ret () \<longleftrightarrow>
   (case ord of None \<Rightarrow> True | Some items \<Rightarrow> list_all (\<lambda>i. oi_field i \<in> set names) items)"
  by (auto simp: validate_ordering_def split: option.splits)

lemma query_validate_Ret:
  assumes "user_list_query_validate P raw = Ret q"
  obtains ord obj where "validate_fields P raw the_fields = Ret obj" "q = \<lparr>uq_ordering = ord, uq_attrs = obj\<rparr>"
    "validate_ordering ordering_allowed ord = Ret ()" "ordering_field raw = Ret ord"
proof -
  obtain x where b: "both (ordering_field raw) (validate_fields P raw the_fields) = Ret x"
      and v: "(case x of (ord, obj) \<Rightarrow> (case validate_ordering ordering_allowed ord of
         Ret u \<Rightarrow> Ret \<lparr>uq_ordering = ord, uq_attrs = obj\<rparr>
       | Raise (ValueError m) \<Rightarrow> Raise (ValidationError [([], ''value_error'')])
       | Raise e \<Rightarrow> Raise e)) = Ret q"
    using assms unfolding user_list_query_validate_def the_fields_eq oc_bind_simps oc_bind_Ret_iff by blast
  obtain ord obj where x: "x = (ord, obj)" by (cases x)
  have o: "validate_ordering ordering_allowed ord = Ret ()" and q: "q = \<lparr>uq_ordering = ord, uq_attrs = obj\<rparr>"
    using v x by (auto simp: validate_ordering_def split: option.splits if_splits)
  show ?thesis using that [OF _ q o] b x by (simp add: both_Ret)
qed

lemma query_accepted:
  assumes "coerces P" "user_list_query_validate P raw = Ret q"
  shows "\<exists>r. request_ok r \<and> reads P raw r \<and> q = request_query r"
proof -
  obtain ord obj where q: "validate_fields P raw the_fields = Ret obj" "q = \<lparr>uq_ordering = ord, uq_attrs = obj\<rparr>"
      "validate_ordering ordering_allowed ord = Ret ()" "ordering_field raw = Ret ord"
    by (rule query_validate_Ret [OF assms(2)])
  have fs: "the_fields = [the_fields ! 0, the_fields ! 1, the_fields ! 2, the_fields ! 3, the_fields ! 4]"
    by (simp add: the_fields_def)
  obtain y0 y1 y2 y3 y4 where y: "obj = [y0, y1, y2, y3, y4]"
      "validate_field P raw (the_fields ! 0) = Ret y0" "validate_field P raw (the_fields ! 1) = Ret y1"
      "validate_field P raw (the_fields ! 2) = Ret y2" "validate_field P raw (the_fields ! 3) = Ret y3"
      "validate_field P raw (the_fields ! 4) = Ret y4"
    using q(1) by (subst (asm) fs) (auto simp: fields_Ret simp del: validate_fields.simps(2))
  obtain l where l: "y0 = (''limit'', VInt (int l))" "1 \<le> l" "l \<le> 300" "number_reads P (raw ''limit'') 10 l"
    using limit_value [OF assms(1) y(2)] by auto
  obtain k where k: "y1 = (''offset'', VInt (int k))" "number_reads P (raw ''offset'') 0 k"
    using offset_value [OF assms(1) y(3)] by auto
  have req: "\<not> fs_required search_spec" "\<not> fs_required status_spec" "\<not> fs_required created_spec"
    by (simp_all add: list_spec_defs)
  obtain sx where s: "y2 = (''search'', opt_text sx)" "field_reads P search_spec (raw ''search'') (opt_text sx)"
    using filter_field_Ret [OF assms(1) list_specs_ok(1) req(1) _ _ y(4)] search_value
    by (auto simp: the_fields_def)
  obtain st where st: "y3 = (''status'', case st of None \<Rightarrow> VNone | Some i \<Rightarrow> VEnum ''StatusEnum'' (VInt i))"
      "case st of None \<Rightarrow> True | Some i \<Rightarrow> i \<in> {0, 1}"
      "field_reads P status_spec (raw ''status'') (case st of None \<Rightarrow> VNone | Some i \<Rightarrow> VEnum ''StatusEnum'' (VInt i))"
    using filter_field_Ret [OF assms(1) list_specs_ok(2) req(2) _ _ y(5)] status_value_ok
    by (auto simp: the_fields_def)
  obtain x where x: "y4 = (''created_at__rn'', x)" "typed_value created_spec x" "admits created_spec x"
      "field_reads P created_spec (raw ''created_at__rn'') x"
    using filter_field_Ret [OF assms(1) list_specs_ok(3) req(3) _ _ y(6)] by (auto simp: the_fields_def)
  obtain a b where ab: "y4 = (''created_at__rn'', if a = None \<and> b = None then VNone else VTuple [opt_datetime a, opt_datetime b])"
      "case b of None \<Rightarrow> True | Some t \<Rightarrow> t \<le> datetime_max" "case a of None \<Rightarrow> True | Some t \<Rightarrow> t \<le> datetime_max"
      "case (a, b) of (Some a, Some b) \<Rightarrow> a \<le> b | _ \<Rightarrow> True"
    using created_value_ok [OF x(2,3)] x(1) by blast
  define r where "r = \<lparr>rq_limit = l, rq_offset = k, rq_search = sx, rq_status = st, rq_from = a, rq_to = b,
     rq_ordering = ord\<rparr>"
  have "request_attrs r = obj"
    using y(1) l(1) k(1) s(1) st(1) ab(1) by (simp add: r_def request_attrs_def)
  then have "q = request_query r" using q(2) by (simp add: request_query_def r_def)
  moreover have "request_ok r"
    using l st(2) ab q(3)
    by (cases ord) (simp_all add: r_def request_ok_def validate_ordering_Ret ordering_allowed_def)
  moreover have "attr (request_attrs r) ''created_at__rn'' = x"
    using ab(1) x(1) by (simp add: r_def request_attrs_def attr_def)
  then have "reads P raw r"
    using l(4) k(2) s(2) st(3) x(4) q(4) by (simp add: r_def reads_def request_attrs_def attr_def)
  ultimately show ?thesis by blast
qed

lemma query_refused:
  assumes "coerces P" "user_list_query_validate P raw = Raise e"
  shows "refused_params e"
proof -
  have fields: "refused_params e'" if "validate_fields P raw fs = Raise e'"
      "\<And>f e. f \<in> set fs \<Longrightarrow> validate_field P raw f = Raise e \<Longrightarrow> refused_params e" for fs e'
    using that
  proof (induction fs arbitrary: e')
    case (Cons f fs)
    then obtain b where "both (validate_field P raw f) (validate_fields P raw fs) = Raise e'"
      by (cases "both (validate_field P raw f) (validate_fields P raw fs)") auto
    then show ?case using Cons both_refused by (metis list.set_intros)
  qed simp
  have each: "refused_params e'" if "f \<in> set the_fields" "validate_field P raw f = Raise e'" for f e'
    using that int_field_refused [OF _ _ that(2)] filter_field_refused [OF assms(1) list_specs_ok(1) list_specs_safe(1) _ _ that(2)]
      filter_field_refused [OF assms(1) list_specs_ok(2) list_specs_safe(2) _ _ that(2)]
      filter_field_refused [OF assms(1) list_specs_ok(3) list_specs_safe(3) _ _ that(2)]
    by (auto simp: the_fields_def)
  have ord: "refused_params e'" if "ordering_field raw = Raise e'" for e'
    using that by (auto simp: ordering_field_def parse_ordering_param_def refused_params_def Let_def
        split: option.splits pyval.splits if_splits)
  have all: "refused_params e'" if "validate_fields P raw the_fields = Raise e'" for e'
    using fields [OF that] each by blast
  show ?thesis
  proof (cases "both (ordering_field raw) (validate_fields P raw the_fields)")
    case (Raise e')
    then have "refused_params e'" using both_refused [OF ord all] by blast
    then show ?thesis using assms(2) Raise by (simp add: user_list_query_validate_def the_fields_eq)
  next
    case (Ret x)
    then show ?thesis using assms(2)
      by (auto simp: user_list_query_validate_def the_fields_eq validate_ordering_def refused_params_def
          split: prod.splits option.splits if_splits)
  qed
qed

section \<open>The compiler of user filters implements the interface\<close>

definition user_compiler :: compiler where
  "user_compiler = user_compiler_class
     \<lparr>cp_methods := [(''compile_search__eq'', user_search), (''compile_search__eq'', search_by_name (map fst user_column_list))]\<rparr>"

lemma user_compiler_eq: "declare_compiler user_compiler_class = Ret user_compiler"
  by (simp add: declare_compiler_def user_compiler_def user_compiler_class_def)

text \<open>What a filter of the user list asks of a user.\<close>

definition filter_means :: "container \<Rightarrow> user_row \<Rightarrow> bool" where
  "filter_means c u \<longleftrightarrow> (if fc_field c = ''search''
     then (\<exists>s. fc_value c = VStr s \<and> (\<exists>t \<in> {u_first_name u, u_last_name u, u_email u}. ilike (VStr t) (s @ ''%'')))
     else value_matches (fc_lookup c) (fc_value c) (column_value user_columns (fc_field c) u))"

definition list_filters :: "container list \<Rightarrow> bool" where
  "list_filters cs \<longleftrightarrow> (\<exists>r. request_ok r \<and> cs = parse_filters the_fields (request_attrs r))"

lemma parsed_filters:
  "parse_filters the_fields (request_attrs r) =
     (case rq_search r of None \<Rightarrow> [] | Some s \<Rightarrow> [\<lparr>fc_value = VStr s, fc_lookup = L_EQ, fc_field = ''search''\<rparr>])
   @ (case rq_status r of None \<Rightarrow> [] | Some i \<Rightarrow> [\<lparr>fc_value = VEnum ''StatusEnum'' (VInt i), fc_lookup = L_EQ, fc_field = ''status''\<rparr>])
   @ (if rq_from r = None \<and> rq_to r = None then []
      else [\<lparr>fc_value = VTuple [opt_datetime (rq_from r), opt_datetime (rq_to r)], fc_lookup = L_RANGE, fc_field = ''created_at''\<rparr>])"
  by (simp add: parse_filters_def the_fields_def container_of_def request_attrs_def attr_def list_spec_defs opt_text_def
      split: option.splits)

lemma user_compile_one:
  assumes "request_ok r" "c \<in> set (parse_filters the_fields (request_attrs r))"
  shows "\<exists>q. compile_one user_compiler [] None c = Ret q \<and> (\<forall>u. cond_holds user_columns u q \<longleftrightarrow> filter_means c u)"
proof -
  consider s where "rq_search r = Some s" "c = \<lparr>fc_value = VStr s, fc_lookup = L_EQ, fc_field = ''search''\<rparr>"
    | i where "rq_status r = Some i" "c = \<lparr>fc_value = VEnum ''StatusEnum'' (VInt i), fc_lookup = L_EQ, fc_field = ''status''\<rparr>"
    | "\<not> (rq_from r = None \<and> rq_to r = None)"
      "c = \<lparr>fc_value = VTuple [opt_datetime (rq_from r), opt_datetime (rq_to r)], fc_lookup = L_RANGE, fc_field = ''created_at''\<rparr>"
    using assms(2) unfolding parsed_filters
    by (cases "rq_search r"; cases "rq_status r") (auto split: if_splits)
  then show ?thesis
  proof cases
    case 1
    then show ?thesis
      by (auto simp: compile_one_def resolve_def find_method_def user_compiler_def user_compiler_class_def method_suffix_def
          user_search_def prefix_pattern_def filter_means_def user_columns_def user_column_list_def)
  next
    case 2
    then show ?thesis
      by (auto simp: compile_one_def resolve_def find_method_def user_compiler_def user_compiler_class_def method_suffix_def
          filter_means_def value_matches_def column_value_def user_columns_def user_column_list_def)
  next
    case 3
    then show ?thesis
      by (auto simp: compile_one_def resolve_def find_method_def user_compiler_def user_compiler_class_def method_suffix_def
          compile_range_def opt_datetime_def
          filter_means_def value_matches_def column_value_def user_columns_def user_column_list_def)
  qed
qed

lemma user_not_absent: "c \<in> set (parse_filters the_fields (request_attrs r)) \<Longrightarrow> \<not> is_absent c"
  unfolding parsed_filters by (auto simp: is_absent_def split: option.splits if_splits)

interpretation users: filter_compiler "compile_filters user_compiler" "cond_holds user_columns" list_filters filter_means
proof
  fix cs
  assume "list_filters cs"
  then obtain r where r: "request_ok r" "cs = parse_filters the_fields (request_attrs r)"
    by (auto simp: list_filters_def)
  have "\<exists>qs. compile user_compiler [] None cs = Ret qs
      \<and> (\<forall>u. all_hold user_columns qs u \<longleftrightarrow> (\<forall>c \<in> set cs. filter_means c u))"
    using user_compile_one [OF r(1)] user_not_absent r(2) by (intro compile_all) auto
  then show "\<exists>qs. compile_filters user_compiler cs = Ret qs
      \<and> (\<forall>u. list_all (cond_holds user_columns u) qs \<longleftrightarrow> (\<forall>c \<in> set cs. filter_means c u))"
    by (auto simp: compile_filters_def all_hold_def)
qed

lemma filters_mean_request:
  "(\<forall>c \<in> set (parse_filters the_fields (request_attrs r)). filter_means c u) \<longleftrightarrow> user_matches r u"
  unfolding parsed_filters
  by (auto simp: filter_means_def user_matches_def value_matches_def column_value_def user_columns_def
      user_column_list_def opt_datetime_def py_equal_def split: option.splits if_splits)

lemma order_users:
  assumes "request_ok r"
  shows "apply_ordering user_columns (rq_ordering r) rows = Ret (arranged r rows)"
proof (cases "rq_ordering r")
  case None
  then show ?thesis by (simp add: apply_ordering_def arranged_def)
next
  case (Some items)
  have "get_column user_columns (oi_field i) = Ret (fst (order_expr i))" if "i \<in> set items" for i
    using assms Some that
    by (auto simp: request_ok_def list_all_iff get_column_def order_expr_def user_columns_def user_column_list_def)
  then have "parse_ordering user_columns (Some items) = Ret (map order_expr items)"
    by (auto simp: parse_ordering_def order_expr_def intro!: oc_mapM_Ret)
  then show ?thesis using Some by (cases items) (simp_all add: apply_ordering_def arranged_def)
qed

lemma list_handler_answer:
  assumes "request_ok r"
  shows "user_list_handler base (request_query r) w = (Ret (list_answer base r (w_scan w) (w_work w)), w)"
proof -
  let ?cs = "parse_filters the_fields (request_attrs r)"
  have "list_filters ?cs" using assms by (auto simp: list_filters_def)
  from users.page_of_matching [OF this order_users [OF assms], where limit = "rq_limit r" and
      offset = "rq_offset r" and scan = "w_scan w" and table = "db_users (w_work w)"]
  show ?thesis
    by (simp add: user_list_handler_def request_query_def the_fields_eq get_list_def user_compiler_eq list_answer_def
        int_attr_def attr_def filters_mean_request Let_def py_bind_app)
      (simp add: request_attrs_def)
qed

section \<open>The request\<close>

text \<open>
  Claim C11. The list of users does what its parameters say: a request whose query string, body and
  path merge to parameters that spell a request within the limits is answered with the number of
  users that match it, all of them, and with the requested page of those users in the requested
  order (users that are equal in it, or all when none is asked for, in the order the server delivers
  them), each as the list shows it; any other request is refused as a bad request that lists its
  errors or with the details of its filters; the database is only read.
\<close>

theorem list_users_refines:
  assumes "coerces P"
  shows "case list_users P base line query body path w of
      (Ret res, w') \<Rightarrow> w' = w \<and> (\<exists>r. request_ok r \<and> reads P (merge_sources query body path) r
        \<and> res = list_answer base r (w_scan w) (w_work w))
    | (Raise e, w') \<Rightarrow> w' = w \<and> ((\<exists>errors. e = HTTPException 400 (''Validation failed for '' @ line)
          (VList (map extra_entry errors))) \<or> (\<exists>x. e = AppException x))"
proof (cases "user_list_query_validate P (merge_sources query body path)")
  case (Ret q)
  from query_accepted [OF assms Ret] obtain r where r: "request_ok r" "reads P (merge_sources query body path) r"
      "q = request_query r"
    by blast
  then show ?thesis using Ret list_handler_answer [OF r(1)]
    by (auto simp: list_users_def path_bound_query_def bind_exn_def py_bind_app)
next
  case (Raise e)
  have "\<exists>errors. map (extra_entry \<circ> error_entry) es = map extra_entry errors" for es
    by (rule exI [of _ "map error_entry es"]) simp
  then show ?thesis using Raise query_refused [OF assms Raise]
    by (auto simp: list_users_def path_bound_query_def bind_exn_def refused_params_def py_bind_app)
qed

definition sample_query :: "(string \<times> pyval) list" where
  "sample_query = [(''search'', VStr ''BO''), (''limit'', VStr ''5''), (''created_at__rn'', VStr '',7'')]"

lemma sample_query_accepted:
  "user_list_query_validate sample_pydantic (merge_sources sample_query None [(''status'', VStr ''0'')])
     = Ret (request_query \<lparr>rq_limit = 5, rq_offset = 0, rq_search = Some ''BO'', rq_status = Some 0,
         rq_from = None, rq_to = Some 7, rq_ordering = None\<rparr>)"
  by code_simp

theorem list_users_refines_witness:
  "\<exists>res r. list_users sample_pydantic ''http://x'' ''GET /users'' sample_query None [(''status'', VStr ''0'')] sample_world = (Ret res, sample_world)
     \<and> reads sample_pydantic (merge_sources sample_query None [(''status'', VStr ''0'')]) r \<and> res = list_answer ''http://x'' r (w_scan sample_world) sample_db"
proof -
  have ok: "request_ok \<lparr>rq_limit = 5, rq_offset = 0, rq_search = Some ''BO'', rq_status = Some 0,
         rq_from = None, rq_to = Some 7, rq_ordering = None\<rparr>"
    by (simp add: request_ok_def datetime_max_def)
  have "\<exists>res. list_users sample_pydantic ''http://x'' ''GET /users'' sample_query None [(''status'', VStr ''0'')] sample_world = (Ret res, sample_world)"
    using sample_query_accepted list_handler_answer [OF ok]
    by (simp add: list_users_def path_bound_query_def bind_exn_def py_bind_app)
  then obtain res where res: "list_users sample_pydantic ''http://x'' ''GET /users'' sample_query None [(''status'', VStr ''0'')] sample_world
      = (Ret res, sample_world)" ..
  have "w_work sample_world = sample_db" by (simp add: sample_world_def)
  with list_users_refines [OF sample_coerces, where base = "''http://x''" and line = "''GET /users''" and query = sample_query and
      body = None and path = "[(''status'', VStr ''0'')]" and w = sample_world] res
  show ?thesis by auto
qed

section \<open>Paging\<close>

text \<open>
  Every page is a statement of its own: \<open>scans k\<close> is the order in which the server delivers the
  matching rows to the statement of page \<open>k\<close>, any permutation of them.
\<close>

definition page_rows :: "string \<Rightarrow> list_request \<Rightarrow> (nat \<Rightarrow> user_row list \<Rightarrow> user_row list) \<Rightarrow> world \<Rightarrow> nat \<Rightarrow> user_list_dto list" where
  "page_rows base r scans w k =
     (case user_list_handler base (request_query (r\<lparr>rq_offset := k * rq_limit r\<rparr>)) (w\<lparr>w_scan := scans k\<rparr>) of
        (Ret res, w') \<Rightarrow> lr_rows res | (Raise e, w') \<Rightarrow> [])"

definition permuting :: "(nat \<Rightarrow> user_row list \<Rightarrow> user_row list) \<Rightarrow> bool" where
  "permuting scans \<longleftrightarrow> (\<forall>k rows. mset (scans k rows) = mset rows)"

definition orders_by :: "string \<Rightarrow> list_request \<Rightarrow> bool" where
  "orders_by name r \<longleftrightarrow> (\<exists>items. rq_ordering r = Some items \<and> name \<in> set (map oi_field items))"

lemma concat_pages: "concat (map (\<lambda>k. take l (drop (k * l) xs)) [0..<n]) = take (n * l) xs"
proof (induction n)
  case (Suc n)
  then show ?case by (simp add: take_add [of "n * l" l, symmetric] add.commute)
qed simp

lemma page_rows_eq:
  assumes "request_ok r"
  shows "page_rows base r scans w k = take (rq_limit r) (drop (k * rq_limit r)
    (map (user_list_dto_of base (w_work w)) (arranged r (scans k (filter (user_matches r) (db_users (w_work w)))))))"
proof -
  let ?r = "r\<lparr>rq_offset := k * rq_limit r\<rparr>"
  have "request_ok ?r" using assms by (simp add: request_ok_def)
  moreover have "user_matches ?r = user_matches r" by (rule ext) (simp add: user_matches_def)
  moreover have "arranged ?r = arranged r" by (rule ext) (simp add: arranged_def)
  ultimately show ?thesis
    using list_handler_answer [of ?r base "w\<lparr>w_scan := scans k\<rparr>"]
    by (simp add: page_rows_def list_answer_def Let_def take_map drop_map)
qed

lemma mset_arranged [simp]: "mset (arranged r rows) = mset rows"
  by (simp add: arranged_def split: option.splits list.splits)

lemma length_arranged [simp]: "length (arranged r rows) = length rows"
  by (metis mset_arranged size_mset)

lemma arranged_sorted:
  "rq_ordering r = Some items \<Longrightarrow> sorted_wrt (row_before (map order_expr items)) (arranged r rows)"
proof (cases items)
  case Nil
  then show "rq_ordering r = Some items \<Longrightarrow> ?thesis" by (simp add: sorted_wrt_iff_nth_less)
next
  case (Cons i js)
  then show "rq_ordering r = Some items \<Longrightarrow> ?thesis"
    using sorted_sort_rows [of "row_before (map order_expr items)", OF row_before_total row_before_trans]
    by (simp add: arranged_def)
qed

text \<open>A sorted list of given elements is unique when no two different ones are in order both ways.\<close>

lemma sorted_unique:
  assumes "sorted_wrt le xs" "sorted_wrt le ys" "mset xs = mset ys"
    and "\<And>a b. a \<in> set xs \<Longrightarrow> b \<in> set xs \<Longrightarrow> le a b \<Longrightarrow> le b a \<Longrightarrow> a = b"
  shows "xs = ys"
  using assms
proof (induction xs arbitrary: ys)
  case (Cons x xs)
  then obtain y zs where ys: "ys = y # zs" by (cases ys) auto
  have set: "set (x # xs) = set (y # zs)" using Cons.prems(3) ys by (metis set_mset_mset)
  have "x = y"
  proof (rule ccontr)
    assume n: "x \<noteq> y"
    then have "y \<in> set xs" "x \<in> set zs" using set by (metis insert_iff list.simps(15))+
    then have "le x y" "le y x" using Cons.prems(1,2) ys by auto
    moreover have "y \<in> set (x # xs)" using set by simp
    ultimately show False using Cons.prems(4) [of x y] n by simp
  qed
  then show ?case using Cons ys by auto
qed simp

lemma row_before_antisym:
  "row_before es a b \<Longrightarrow> row_before es b a \<Longrightarrow> (f, d) \<in> set es \<Longrightarrow> cmp_key (f a) = cmp_key (f b)"
proof (induction es)
  case (Cons e es)
  obtain g c where e: "e = (g, c)" by (cases e)
  have "cmp_key (g a) = cmp_key (g b)"
  proof (rule ccontr)
    assume n: "cmp_key (g a) \<noteq> cmp_key (g b)"
    then have "null_less (cmp_key (g a)) (cmp_key (g b))" "null_less (cmp_key (g b)) (cmp_key (g a))"
      using Cons.prems(1,2) by (cases c; simp add: e Let_def)+
    then show False using null_less_trans null_less_irrefl by blast
  qed
  then show ?case using Cons e by (cases c) (auto simp: Let_def)
qed simp

lemma email_orders:
  assumes "orders_by ''email'' r" "distinct (map u_email rows)" "mset rows' = mset rows"
  shows "arranged r rows' = arranged r rows"
proof -
  obtain items i where i: "rq_ordering r = Some items" "i \<in> set items" "oi_field i = ''email''"
    using assms(1) by (auto simp: orders_by_def)
  let ?es = "map order_expr items"
  have f: "((\<lambda>u. VStr (u_email u)), oi_direction i) \<in> set ?es"
    using i(2,3) by (force simp: order_expr_def)
  show ?thesis
  proof (rule sorted_unique [of "row_before ?es"])
    fix a b
    assume ab: "a \<in> set (arranged r rows')" "b \<in> set (arranged r rows')" "row_before ?es a b" "row_before ?es b a"
    have "set (arranged r rows') = set rows" using assms(3) by (metis mset_arranged set_mset_mset)
    then show "a = b"
      using row_before_antisym [OF ab(3,4) f] ab(1,2) assms(2) by (auto simp: distinct_map dest: inj_onD)
  qed (use arranged_sorted [OF i(1)] assms(3) in simp_all)
qed


definition by_email :: list_request where
  "by_email = \<lparr>rq_limit = 1, rq_offset = 0, rq_search = None, rq_status = None, rq_from = None, rq_to = None,
     rq_ordering = Some [\<lparr>oi_direction = DESC, oi_field = ''email''\<rparr>]\<rparr>"

text \<open>The rows are turned around for every second page.\<close>

definition alternating :: "nat \<Rightarrow> user_row list \<Rightarrow> user_row list" where
  "alternating k rows = (if even k then rows else rev rows)"

lemma alternating_permuting: "permuting alternating"
  by (simp add: permuting_def alternating_def)


text \<open>
  Without an ordering, and with one whose keys tie, two pages of one user each can both show the
  same user: no default \<open>ORDER BY\<close> and no unique last key ties the statements together.
\<close>

lemma unordered_paging_misses:
  assumes "ord = None \<or> ord = Some [\<lparr>oi_direction = ASC, oi_field = ''created_at''\<rparr>]"
  shows "permuting alternating"
    and "concat (map (page_rows ''http://x'' (by_email\<lparr>rq_ordering := ord\<rparr>) alternating sample_world) [0..<2])
      = [user_list_dto_of ''http://x'' sample_db ann, user_list_dto_of ''http://x'' sample_db ann]"
proof -
  let ?r = "by_email\<lparr>rq_ordering := ord\<rparr>"
  have ok: "request_ok ?r" using assms by (auto simp: request_ok_def by_email_def)
  have rows: "filter (user_matches ?r) (db_users (w_work sample_world)) = [ann, bob]"
    by (simp add: sample_world_def sample_db_def user_matches_def by_email_def)
  have "arranged ?r [ann, bob] = [ann, bob]" "arranged ?r [bob, ann] = [bob, ann]"
    using assms by (auto simp: arranged_def sort_rows_def order_expr_def Let_def ann_def bob_def)
  then show "concat (map (page_rows ''http://x'' ?r alternating sample_world) [0..<2])
      = [user_list_dto_of ''http://x'' sample_db ann, user_list_dto_of ''http://x'' sample_db ann]"
    unfolding page_rows_eq [OF ok] rows
    by (simp add: alternating_def upt_conv_Cons by_email_def sample_world_def)
qed (rule alternating_permuting)

end
