(* ===== verification/FilterDocs.thy ===== *)
theory FilterDocs
  imports UserListFlows
begin

text \<open>
  The OpenAPI description of query models (\<open>modules/filtering/litestar_integration.py\<close>): which fields
  of a model are documented as query parameters, the schema of a filter, and the injection of the
  parameters into the generated operations; with the agreement of a documented schema with what the
  validator accepts.
\<close>

section \<open>Types as annotations\<close>

datatype py_type =
    T_None
  | T_Base base_type
  | T_Annotated py_type
  | T_Union "py_type list"
  | T_Generic string "py_type list"

text \<open>
  \<open>_unwrap\<close>: an optional type becomes its only other member, \<open>Annotated\<close> its type; a union of several
  stays as it is.
\<close>

function unwrap_type :: "py_type \<Rightarrow> py_type" where
  "unwrap_type T_None = T_None"
| "unwrap_type (T_Base b) = T_Base b"
| "unwrap_type (T_Annotated t) = unwrap_type t"
| "unwrap_type (T_Union ts) = (case filter (\<lambda>t. t \<noteq> T_None) ts of [t] \<Rightarrow> unwrap_type t | _ \<Rightarrow> T_Union ts)"
| "unwrap_type (T_Generic n ts) = T_Generic n ts"
  by pat_completeness auto

lemma only_member: "filter P ts = [t] \<Longrightarrow> size t < Suc (size_list size ts)"
proof -
  assume "filter P ts = [t]"
  then have "t \<in> set (filter P ts)" by simp
  then have "t \<in> set ts" by simp
  then show ?thesis by (simp add: size_list_estimation' less_Suc_eq_le)
qed

termination unwrap_type
  by (relation "measure size") (auto simp: only_member)

lemma unwrap_size: "size (unwrap_type t) \<le> size t"
proof (induction t rule: unwrap_type.induct)
  case (4 ts)
  show ?case
  proof (cases "\<exists>t. filter (\<lambda>t. t \<noteq> T_None) ts = [t]")
    case True
    then obtain t where t: "filter (\<lambda>t. t \<noteq> T_None) ts = [t]" ..
    then have "size (unwrap_type t) \<le> size t" using 4 by simp
    then show ?thesis using t only_member [OF t] by simp
  next
    case False
    then show ?thesis by (auto split: list.splits)
  qed
qed simp_all

fun is_model :: "base_type \<Rightarrow> bool" where
  "is_model (BT_Model n fs) = True"
| "is_model _ = False"

text \<open>\<open>_is_structured\<close>: a nested model, or a generic type with one among its arguments.\<close>

function is_structured :: "py_type \<Rightarrow> bool" where
  "is_structured t = (case unwrap_type t of
       T_Base b \<Rightarrow> is_model b
     | T_Union ts \<Rightarrow> list_ex is_structured ts
     | T_Generic n ts \<Rightarrow> list_ex is_structured ts
     | _ \<Rightarrow> False)"
  by pat_completeness auto

lemma member_smaller:
  "unwrap_type t = T_Union ts \<or> unwrap_type t = T_Generic n ts \<Longrightarrow> x \<in> set ts \<Longrightarrow> size x < size t"
proof -
  assume u: "unwrap_type t = T_Union ts \<or> unwrap_type t = T_Generic n ts" and "x \<in> set ts"
  then have "size x < size (unwrap_type t)" by (auto simp: size_list_estimation' less_Suc_eq_le)
  then show ?thesis using unwrap_size [of t] by linarith
qed

termination is_structured
  by (relation "measure size") (auto intro: member_smaller [OF disjI1] member_smaller [OF disjI2])

declare is_structured.simps [simp del]

section \<open>Schemas\<close>

datatype oa_type = OA_Number | OA_Integer | OA_Boolean | OA_String

record schema =
  sc_type :: oa_type
  sc_format :: "string option"
  sc_enum :: "pyval list option"
  sc_exclusive_minimum :: "pyval option"
  sc_minimum :: "pyval option"
  sc_exclusive_maximum :: "pyval option"
  sc_maximum :: "pyval option"
  sc_min_length :: "int option"
  sc_max_length :: "int option"
  sc_examples :: "pyval list"

definition mk_schema :: "oa_type \<Rightarrow> string option \<Rightarrow> schema" where
  "mk_schema t f = \<lparr>sc_type = t, sc_format = f, sc_enum = None, sc_exclusive_minimum = None,
     sc_minimum = None, sc_exclusive_maximum = None, sc_maximum = None, sc_min_length = None,
     sc_max_length = None, sc_examples = []\<rparr>"

text \<open>\<open>_PY_TO_OPENAPI\<close>, with a plain string for every other type.\<close>

fun openapi_type :: "base_type \<Rightarrow> oa_type \<times> string option" where
  "openapi_type BT_Decimal = (OA_Number, None)"
| "openapi_type BT_Int = (OA_Integer, None)"
| "openapi_type BT_Bool = (OA_Boolean, None)"
| "openapi_type BT_Date = (OA_String, Some ''date'')"
| "openapi_type BT_Datetime = (OA_String, Some ''date-time'')"
| "openapi_type _ = (OA_String, None)"

text \<open>\<open>_to_number\<close>: a \<open>Decimal\<close> that is whole becomes an \<open>int\<close>, any other a float of the same value.\<close>

definition to_number :: "pyval \<Rightarrow> pyval" where
  "to_number v = (case v of VDec q \<Rightarrow> if of_int \<lfloor>q\<rfloor> = q then VInt \<lfloor>q\<rfloor> else VDec q | _ \<Rightarrow> v)"

fun is_py_int :: "pyval \<Rightarrow> bool" where
  "is_py_int (VInt i) = True"
| "is_py_int (VBool b) = True"
| "is_py_int _ = False"

definition enum_schema :: "pyval list \<Rightarrow> schema" where
  "enum_schema ms = (mk_schema (if list_all is_py_int (map enum_value ms) then OA_Integer else OA_String) None)
     \<lparr>sc_enum := Some (map enum_value ms)\<rparr>"

text \<open>\<open>_JSON_PLACEHOLDERS\<close> and the example of a structured filter, before \<open>json.dumps\<close>.\<close>

fun json_placeholder :: "base_type \<Rightarrow> pyval" where
  "json_placeholder BT_Int = VInt 1"
| "json_placeholder BT_Decimal = VInt 1"
| "json_placeholder BT_Bool = VBool True"
| "json_placeholder BT_Str = VStr ''value''"
| "json_placeholder BT_Date = VStr ''2026-01-31''"
| "json_placeholder BT_Datetime = VStr ''2026-01-31T12:00:00Z''"
| "json_placeholder _ = VStr ''value''"

definition json_example :: "base_type \<Rightarrow> pyval" where
  "json_example t = VList [VDict (case t of
       BT_Model n fs \<Rightarrow> map (\<lambda>(k, b). (k, json_placeholder b)) fs
     | _ \<Rightarrow> [(''field'', VStr ''value'')])]"

definition range_examples :: "base_type \<Rightarrow> pyval list" where
  "range_examples t =
     (if t = BT_Decimal then [VStr ''1500.10,3540.53'', VStr ''34.98,41.40'']
      else if t = BT_Int then [VStr ''13,20'', VStr ''50,1000'']
      else if t = BT_Datetime then [VStr ''2020-01-10T10:24:59,2024-03-15T21:23:59'']
      else if t = BT_Date then [VStr ''2020-01-10,2026-07-10'']
      else [VStr ''<start>,<end>''])"

text \<open>\<open>_schema_for_spec\<close>; the texts of its descriptions are left out.\<close>

definition schema_for_spec :: "filter_spec \<Rightarrow> schema" where
  "schema_for_spec s =
     (if fs_lookup s = L_JSON then (mk_schema OA_String None)\<lparr>sc_examples := [json_example (fs_base_type s)]\<rparr>
      else if fs_lookup s = L_RANGE then (mk_schema OA_String None)\<lparr>sc_examples := range_examples (fs_base_type s)\<rparr>
      else (case fs_base_type s of
          BT_Enum n ms \<Rightarrow> if fs_lookup s \<noteq> L_IN then enum_schema ms
            else (mk_schema OA_String None)\<lparr>sc_exclusive_minimum := map_option to_number (fs_gt s),
              sc_minimum := map_option to_number (fs_gte s), sc_exclusive_maximum := map_option to_number (fs_lt s),
              sc_maximum := map_option to_number (fs_lte s), sc_min_length := fs_min_length s, sc_max_length := fs_max_length s\<rparr>
        | t \<Rightarrow> (case openapi_type t of (ot, fmt) \<Rightarrow>
            (mk_schema ot fmt)\<lparr>sc_enum := (if fs_lookup s = L_IN then None
                else map_option (map (\<lambda>c. case c of VEnum n v \<Rightarrow> v | _ \<Rightarrow> to_number c)) (fs_choices s)),
              sc_exclusive_minimum := map_option to_number (fs_gt s),
              sc_minimum := map_option to_number (fs_gte s), sc_exclusive_maximum := map_option to_number (fs_lt s),
              sc_maximum := map_option to_number (fs_lte s), sc_min_length := fs_min_length s, sc_max_length := fs_max_length s\<rparr>)))"

definition schema_for_plain :: "py_type \<Rightarrow> schema" where
  "schema_for_plain t = (case unwrap_type t of
       T_Base (BT_Enum n ms) \<Rightarrow> enum_schema ms
     | T_Base b \<Rightarrow> (case openapi_type b of (ot, fmt) \<Rightarrow> mk_schema ot fmt)
     | _ \<Rightarrow> mk_schema OA_String None)"

section \<open>Parameters of an operation\<close>

record query_param =
  qp_name :: string
  qp_required :: bool
  qp_schema :: schema
  qp_description :: "string option"

record doc_field =
  df_name :: string
  df_type :: py_type
  df_metadata :: "ann_meta list"
  df_required :: bool
  df_description :: "string option"

definition ordering_param :: query_param where
  "ordering_param = \<lparr>qp_name = ''ordering'', qp_required = False,
     qp_schema = (mk_schema OA_String None)\<lparr>sc_examples := [VStr ''-created_at'', VStr ''-created_at,name'', VStr ''name,-created_at'']\<rparr>,
     qp_description = Some ''comma separated fields for ordering''\<rparr>"

definition documented :: "bool \<Rightarrow> string list \<Rightarrow> doc_field \<Rightarrow> bool" where
  "documented has_ordering exclude f \<longleftrightarrow>
     \<not> (df_name f = ''ordering'' \<and> has_ordering) \<and> df_name f \<notin> set exclude
     \<and> \<not> (is_structured (df_type f)
          \<and> (case extract_spec (df_metadata f) of None \<Rightarrow> True | Some s \<Rightarrow> fs_lookup s \<noteq> L_JSON))"

definition param_of :: "doc_field \<Rightarrow> query_param" where
  "param_of f = (case extract_spec (df_metadata f) of
       Some s \<Rightarrow> \<lparr>qp_name = df_name f, qp_required = df_required f, qp_schema = schema_for_spec s,
         qp_description = fs_description s\<rparr>
     | None \<Rightarrow> \<lparr>qp_name = df_name f, qp_required = df_required f, qp_schema = schema_for_plain (df_type f),
         qp_description = df_description f\<rparr>)"

definition build_query_parameters :: "bool \<Rightarrow> doc_field list \<Rightarrow> string list \<Rightarrow> query_param list" where
  "build_query_parameters has_ordering fds exclude =
     (if has_ordering then [ordering_param] else [])
     @ map param_of (filter (documented has_ordering exclude) fds)"

text \<open>
  The handlers of a route: a signature is the list of its parameters' types, of which the first
  that is a query model counts. An operation is its list of parameters.
\<close>

record query_model =
  qm_fields :: "doc_field list"
  qm_has_ordering :: bool
  qm_is_query :: bool

datatype sig_type = S_Model query_model | S_Other

fun find_query_model :: "sig_type list \<Rightarrow> query_model option" where
  "find_query_model [] = None"
| "find_query_model (S_Model m # ts) = (if qm_is_query m \<or> qm_has_ordering m then Some m else find_query_model ts)"
| "find_query_model (S_Other # ts) = find_query_model ts"

definition merge_params :: "query_param list \<Rightarrow> query_param list \<Rightarrow> query_param list" where
  "merge_params old params = filter (\<lambda>p. qp_name p \<notin> qp_name ` set params) old @ params"

record route_handler =
  rh_signature :: "sig_type list"
  rh_methods :: "string list"

type_synonym operations = "string \<rightharpoonup> query_param list"

definition inject_handler :: "string list \<Rightarrow> route_handler \<Rightarrow> operations \<Rightarrow> operations" where
  "inject_handler path_params h ops =
     (case find_query_model (rh_signature h) of
        None \<Rightarrow> ops
      | Some m \<Rightarrow> (let params = build_query_parameters (qm_has_ordering m) (qm_fields m) path_params in
          fold (\<lambda>meth ops. case ops (py_lower meth) of None \<Rightarrow> ops
              | Some old \<Rightarrow> ops(py_lower meth \<mapsto> merge_params old params)) (rh_methods h) ops))"

definition inject_route :: "string list \<Rightarrow> route_handler list \<Rightarrow> operations \<Rightarrow> operations" where
  "inject_route path_params handlers ops = fold (inject_handler path_params) handlers ops"

section \<open>The documented schema agrees with the validator\<close>

text \<open>What a JSON schema of a scalar says of a value; an enum lists values as they are sent.\<close>

definition opt_holds :: "('a \<Rightarrow> bool) \<Rightarrow> 'a option \<Rightarrow> bool" where
  "opt_holds P x = (case x of None \<Rightarrow> True | Some a \<Rightarrow> P a)"

definition satisfies :: "schema \<Rightarrow> pyval \<Rightarrow> bool" where
  "satisfies sc v \<longleftrightarrow>
     opt_holds (\<lambda>es. \<exists>e \<in> set es. py_equal v e) (sc_enum sc)
     \<and> opt_holds (\<lambda>b. val_less b v) (sc_exclusive_minimum sc) \<and> opt_holds (\<lambda>b. val_le b v) (sc_minimum sc)
     \<and> opt_holds (\<lambda>b. val_less v b) (sc_exclusive_maximum sc) \<and> opt_holds (\<lambda>b. val_le v b) (sc_maximum sc)
     \<and> (case v of VStr t \<Rightarrow> opt_holds (\<lambda>m. m \<le> int (length t)) (sc_min_length sc)
          \<and> opt_holds (\<lambda>m. int (length t) \<le> m) (sc_max_length sc) | _ \<Rightarrow> True)"

lemma to_number_key [simp]: "cmp_key (to_number v) = cmp_key v"
  by (simp add: to_number_def split: pyval.split)

lemma key_only:
  "cmp_key a = cmp_key b \<Longrightarrow> val_less a v = val_less b v" "cmp_key a = cmp_key b \<Longrightarrow> val_less v a = val_less v b"
  "cmp_key a = cmp_key b \<Longrightarrow> val_le a v = val_le b v" "cmp_key a = cmp_key b \<Longrightarrow> val_le v a = val_le v b"
  by (simp_all add: val_less_def val_le_def comparable_def)

lemma opt_number:
  "opt_holds (\<lambda>b. val_less b v) (map_option to_number x) = opt_holds (\<lambda>b. val_less b v) x"
  "opt_holds (\<lambda>b. val_less v b) (map_option to_number x) = opt_holds (\<lambda>b. val_less v b) x"
  "opt_holds (\<lambda>b. val_le b v) (map_option to_number x) = opt_holds (\<lambda>b. val_le b v) x"
  "opt_holds (\<lambda>b. val_le v b) (map_option to_number x) = opt_holds (\<lambda>b. val_le v b) x"
  by (cases x; simp add: opt_holds_def key_only [of "to_number _"])+

lemma shown_choice_key: "cmp_key (case c of VEnum n v \<Rightarrow> v | _ \<Rightarrow> to_number c) = cmp_key c"
  by (cases c) (simp_all add: to_number_def)

lemma equal_by_key: "cmp_key v \<noteq> None \<Longrightarrow> cmp_key a = cmp_key b \<Longrightarrow> py_equal v a = py_equal v b"
  by (auto simp: py_equal_def split: option.splits)

lemma of_type_has_key: "of_type t x \<Longrightarrow> ordered_type t \<Longrightarrow> cmp_key x \<noteq> None"
  by (cases x) (auto split: base_type.splits)

lemma in_bounds_opt:
  "in_bounds s x \<longleftrightarrow> opt_holds (\<lambda>b. val_less b x) (fs_gt s) \<and> opt_holds (\<lambda>b. val_le b x) (fs_gte s)
     \<and> opt_holds (\<lambda>b. val_less x b) (fs_lt s) \<and> opt_holds (\<lambda>b. val_le x b) (fs_lte s)"
  by (simp add: in_bounds_def opt_holds_def)

lemma shown_choices:
  assumes "cmp_key x \<noteq> None"
  shows "opt_holds (\<lambda>es. \<exists>e \<in> set es. py_equal x e)
     (map_option (map (\<lambda>c. case c of VEnum n v \<Rightarrow> v | _ \<Rightarrow> to_number c)) (fs_choices s)) = chosen s x"
  using equal_by_key [OF assms shown_choice_key]
  by (cases "fs_choices s") (simp_all add: opt_holds_def chosen_def)

lemma admitted_scalar:
  assumes "spec_ok s" "fs_lookup s = L_EQ" "of_type (fs_base_type s) x" "fs_base_type s \<noteq> BT_Datetime"
  shows "validate s x = Ret () \<longleftrightarrow> in_bounds s x \<and> chosen s x \<and> length_ok s x"
proof -
  have x: "x \<noteq> VNone" using assms(3) by auto
  have "typed_value s x" using assms(2,3) by (simp add: typed_value_def)
  moreover from this have "\<not> crashes s x" using crashes_only [OF assms(1)] assms(2,4) by auto
  ultimately have "decides s (validate s x) (admits s x)"
    using validator_decides [OF assms(1)] assms(2) by (simp add: answers_def empty_range_def)
  moreover have "admits s x \<longleftrightarrow> in_bounds s x \<and> chosen s x \<and> length_ok s x"
    using assms(2) x by (simp add: admits_def given_def allowed_def)
  ultimately show ?thesis by (auto simp: decides_def refusal_def)
qed

text \<open>The base types whose values JSON Schema compares itself, and enums of numbers or texts.\<close>

fun schema_type :: "base_type \<Rightarrow> bool" where
  "schema_type BT_Str = True"
| "schema_type BT_Int = True"
| "schema_type BT_Decimal = True"
| "schema_type BT_Bool = True"
| "schema_type (BT_Enum n ms) = list_all (\<lambda>m. cmp_key m \<noteq> None) ms"
| "schema_type _ = False"

lemma plain_schema:
  assumes "fs_lookup s = L_EQ" "fs_base_type s \<in> {BT_Str, BT_Int, BT_Decimal, BT_Bool}"
  shows "sc_enum (schema_for_spec s) = map_option (map (\<lambda>c. case c of VEnum n v \<Rightarrow> v | _ \<Rightarrow> to_number c)) (fs_choices s)
    \<and> sc_exclusive_minimum (schema_for_spec s) = map_option to_number (fs_gt s)
    \<and> sc_minimum (schema_for_spec s) = map_option to_number (fs_gte s)
    \<and> sc_exclusive_maximum (schema_for_spec s) = map_option to_number (fs_lt s)
    \<and> sc_maximum (schema_for_spec s) = map_option to_number (fs_lte s)
    \<and> sc_min_length (schema_for_spec s) = fs_min_length s \<and> sc_max_length (schema_for_spec s) = fs_max_length s"
  using assms by (auto simp: schema_for_spec_def mk_schema_def)

text \<open>
  The filters whose published schema says all the validator asks: scalar ones over strings, numbers, booleans or an
  enum whose choices are all its members.
\<close>

definition plain_filter :: "filter_spec \<Rightarrow> bool" where
  "plain_filter s \<longleftrightarrow> spec_ok s \<and> fs_lookup s = L_EQ \<and> schema_type (fs_base_type s)
     \<and> (case fs_base_type s of BT_Enum n ms \<Rightarrow> fs_choices s = Some ms | _ \<Rightarrow> True)"

lemma schema_agrees:
  assumes "spec_ok s" "fs_lookup s = L_EQ" "schema_type (fs_base_type s)" "of_type (fs_base_type s) x"
    "\<forall>n ms. fs_base_type s = BT_Enum n ms \<longrightarrow> fs_choices s = Some ms"
  shows "satisfies (schema_for_spec s) x \<longleftrightarrow> validate s x = Ret ()"
proof -
  have nd: "fs_base_type s \<noteq> BT_Datetime" using assms(3) by auto
  show ?thesis
  proof (cases "ordered_type (fs_base_type s)")
    case True
    then have t: "fs_base_type s \<in> {BT_Str, BT_Int, BT_Decimal, BT_Bool}"
      using assms(3) by (cases "fs_base_type s") simp_all
    note sc = plain_schema [OF assms(2) t, THEN conjunct1] plain_schema [OF assms(2) t, THEN conjunct2]
    have l: "(case x of VStr t \<Rightarrow> opt_holds (\<lambda>m. m \<le> int (length t)) (fs_min_length s)
        \<and> opt_holds (\<lambda>m. int (length t) \<le> m) (fs_max_length s) | _ \<Rightarrow> True) \<longleftrightarrow> length_ok s x"
      using assms(4) t by (cases x) (auto simp: length_ok_def length_fits_def opt_holds_def split: option.splits)
    then show ?thesis
      unfolding admitted_scalar [OF assms(1,2,4) nd] satisfies_def in_bounds_opt
      by (simp only: sc opt_number shown_choices [OF of_type_has_key [OF assms(4) True]] l conj_ac)
  next
    case False
    then obtain n ms where e: "fs_base_type s = BT_Enum n ms" "list_all (\<lambda>m. cmp_key m \<noteq> None) ms"
      using assms(3) by (cases "fs_base_type s") simp_all
    then obtain v where x: "x = VEnum n v" "x \<in> set ms" using assms(4) by (cases x) auto
    have none: "fs_gt s = None" "fs_gte s = None" "fs_lt s = None" "fs_lte s = None"
        "fs_min_length s = None" "fs_max_length s = None"
      using assms(1,2) e by (auto simp: spec_ok_def bound_ok_def split: option.splits)
    have "py_equal x v" using e(2) x by (auto simp: py_equal_def list_all_iff split: option.splits)
    then have "satisfies (schema_for_spec s) x"
      using e x assms(2) by (auto simp: satisfies_def schema_for_spec_def enum_schema_def mk_schema_def opt_holds_def
          enum_value_def intro!: bexI [of _ x])
    moreover have "validate s x = Ret ()"
      unfolding admitted_scalar [OF assms(1,2,4) nd]
      using none assms(5) e x by (auto simp: in_bounds_def chosen_def length_ok_def intro!: bexI [of _ x])
    ultimately show ?thesis by simp
  qed
qed

section \<open>The injected parameters\<close>

lemma param_name [simp]: "qp_name (param_of f) = df_name f"
  by (simp add: param_of_def split: option.splits)

lemma parameters_once:
  assumes "distinct (map df_name fds)" "''ordering'' \<notin> set exclude"
  shows "distinct (map qp_name (build_query_parameters ho fds exclude))
    \<and> set exclude \<inter> set (map qp_name (build_query_parameters ho fds exclude)) = {}"
proof -
  have d: "distinct (map df_name (filter (documented ho exclude) fds))"
    using assms(1) by (simp add: distinct_map_filter)
  then show ?thesis using assms(2)
    by (auto simp: build_query_parameters_def documented_def ordering_param_def comp_def)
qed

lemma parameter_names:
  "set (map qp_name (build_query_parameters ho fds exclude)) = (if ho then {''ordering''} else {})
     \<union> {df_name f | f. f \<in> set fds \<and> df_name f \<notin> set exclude
         \<and> (is_structured (df_type f) \<longrightarrow> (\<exists>s. extract_spec (df_metadata f) = Some s \<and> fs_lookup s = L_JSON))}"
  by (auto simp: build_query_parameters_def documented_def ordering_param_def split: option.splits)


text \<open>A model with a filter of whole numbers from 18 on, a field that is part of the path, and a nested model.\<close>

definition adult_spec :: filter_spec where
  "adult_spec = (mk_spec BT_Int L_EQ (Some ''age'') False None)\<lparr>fs_gte := Some (VDec 18)\<rparr>"

definition plain_field :: "string \<Rightarrow> py_type \<Rightarrow> doc_field" where
  "plain_field n t = \<lparr>df_name = n, df_type = t, df_metadata = [], df_required = True, df_description = None\<rparr>"

definition age_field :: doc_field where
  "age_field = \<lparr>df_name = ''age'', df_type = T_Base BT_Int, df_metadata = [M_Spec adult_spec], df_required = False, df_description = None\<rparr>"

definition sample_fields :: "doc_field list" where
  "sample_fields = [age_field, plain_field ''id'' (T_Base BT_Str), plain_field ''address'' (T_Base (BT_Model ''Address'' []))]"


lemma merge_params_once:
  assumes "distinct (map qp_name old)" "distinct (map qp_name params)"
  shows "distinct (map qp_name (merge_params old params))
    \<and> set params \<subseteq> set (merge_params old params)
    \<and> set (map qp_name (merge_params old params)) = set (map qp_name old) \<union> set (map qp_name params)"
  using assms by (auto simp: merge_params_def distinct_map_filter image_iff)

end
