(* ===== verification/Telemetry.thy ===== *)
theory Telemetry
  imports Errors Config
begin

text \<open>
  Telemetry up to the writers (\<open>modules/telemetry\<close>): the event, the masking of secrets, the
  formatter of log records, the events of HTTP requests, the filters, the composer and its routes.
  Times are rational numbers where the code has floats.
\<close>

section \<open>Events (logging/event.py)\<close>

record event_rec =
  te_service :: string
  te_level :: string
  te_kind :: string
  te_epoch :: rat
  te_trace_id :: "string option"
  te_exec_ms :: "rat option"
  te_user_id :: "string option"
  te_ip :: "string option"
  te_method :: "string option"
  te_url :: "string option"
  te_url_params :: "pyval option"
  te_data :: "pyval option"
  te_status_code :: "int option"
  te_user_agent :: "string option"
  te_logger :: "string option"
  te_message :: "string option"
  te_traceback :: "string option"

definition KIND_HTTP_REQUEST :: string where "KIND_HTTP_REQUEST = ''http_request''"
definition KIND_LOG :: string where "KIND_LOG = ''log''"
definition KIND_SYSTEM :: string where "KIND_SYSTEM = ''system''"

text \<open>The struct with its defaults; the epoch is the time it is made.\<close>

definition mk_event_rec :: "string \<Rightarrow> rat \<Rightarrow> event_rec" where
  "mk_event_rec service now = \<lparr>te_service = service, te_level = ''INFO'', te_kind = KIND_HTTP_REQUEST,
     te_epoch = now, te_trace_id = None, te_exec_ms = None, te_user_id = None, te_ip = None,
     te_method = None, te_url = None, te_url_params = None, te_data = None, te_status_code = None,
     te_user_agent = None, te_logger = None, te_message = None, te_traceback = None\<rparr>"

section \<open>Masking (logging/masking.py)\<close>

definition redacted :: string where "redacted = ''***''"
definition omitted :: string where "omitted = ''<omitted>''"

fun py_contains :: "'a list \<Rightarrow> 'a list \<Rightarrow> bool" where
  "py_contains p [] = (p = [])"
| "py_contains p (c # cs) = (take (length p) (c # cs) = p \<or> py_contains p cs)"

text \<open>\<open>_SENSITIVE_KEY_RE\<close>: any of the words, anywhere in the key, ignoring case.\<close>

definition sensitive_words :: "string list" where
  "sensitive_words = [''pass'', ''pwd'', ''token'', ''secret'', ''authorization'', ''refresh'', ''access'',
     ''apikey'', ''api_key'', ''api-key'', ''cvv'', ''card'']"

definition is_sensitive_key :: "string \<Rightarrow> bool" where
  "is_sensitive_key k = list_ex (\<lambda>p. py_contains p (py_lower k)) sensitive_words"

text \<open>\<open>_DATA_URI_RE\<close>: \<open>data:\<close>, a type without \<open>;\<close> and \<open>,\<close>, then \<open>;base64,\<close>.\<close>

definition is_data_uri :: "string \<Rightarrow> bool" where
  "is_data_uri s = (let t = py_lower s in py_startswith t ''data:''
     \<and> py_startswith (dropWhile (\<lambda>c. c \<noteq> CHR '';'' \<and> c \<noteq> CHR '','') (drop 5 t)) '';base64,'')"

definition max_str_len :: nat where "max_str_len = 4096"
definition max_depth :: nat where "max_depth = 32"

definition looks_binary :: "pyval \<Rightarrow> bool" where
  "looks_binary v = (case v of
       VBytes b \<Rightarrow> True
     | VStr s \<Rightarrow> is_data_uri s \<or> max_str_len < length s
     | _ \<Rightarrow> False)"

function mask :: "nat \<Rightarrow> pyval \<Rightarrow> pyval" where
  "mask d v =
     (if max_depth < d then v
      else case v of
          VDict kvs \<Rightarrow> VDict (map (\<lambda>kv. (fst kv,
            if is_sensitive_key (fst kv) then VStr redacted
            else if looks_binary (snd kv) then VStr omitted
            else mask (Suc d) (snd kv))) kvs)
        | VList xs \<Rightarrow> VList (map (mask (Suc d)) xs)
        | VTuple xs \<Rightarrow> VList (map (mask (Suc d)) xs)
        | _ \<Rightarrow> if looks_binary v then VStr omitted else v)"
  by pat_completeness auto

termination mask
  by (relation "measure (\<lambda>(d, v). Suc max_depth - d)") auto

declare mask.simps [simp del]

text \<open>
  \<open>_TEXT_SECRET_RE\<close> at one position: a word, an optional quote, blanks around \<open>=\<close> or \<open>:\<close>, an optional
  quote, and then the secret, up to a blank or one of \<open>,;"'&\<close>. No word is the beginning of another and
  no part can give characters back, so the match, if any, is this one. The answer is the length of
  what is kept and of the secret.
\<close>

definition secret_words :: "string list" where
  "secret_words = [''password'', ''passwd'', ''pwd'', ''token'', ''secret'', ''authorization'', ''refresh'',
     ''access'', ''apikey'', ''api_key'', ''api-key'']"

definition skip_quote :: "string \<Rightarrow> string" where
  "skip_quote s = (case s of [] \<Rightarrow> [] | c # cs \<Rightarrow> if c = CHR 0x22 \<or> c = CHR 0x27 then cs else s)"

definition secret_char :: "char \<Rightarrow> bool" where
  "secret_char c \<longleftrightarrow> \<not> py_space c \<and> c \<notin> {CHR '','', CHR '';'', CHR 0x22, CHR 0x27, CHR ''&''}"

definition after_word :: "string \<Rightarrow> string option" where
  "after_word s = (case find (\<lambda>p. py_startswith (py_lower s) p) secret_words of
       None \<Rightarrow> None
     | Some p \<Rightarrow> (case py_lstrip (skip_quote (drop (length p) s)) of
           [] \<Rightarrow> None
         | c # cs \<Rightarrow> if c = CHR ''='' \<or> c = CHR '':'' then Some (skip_quote (py_lstrip cs)) else None))"

definition secret_at :: "string \<Rightarrow> (string \<times> string) option" where
  "secret_at s = (case after_word s of
       None \<Rightarrow> None
     | Some rest \<Rightarrow> if takeWhile secret_char rest = [] then None
         else Some (take (length s - length rest) s, dropWhile secret_char rest))"

lemma secret_at_shorter [termination_simp]: "secret_at (c # cs) = Some (pfx, rest) \<Longrightarrow> length rest < Suc (length cs)"
proof -
  assume "secret_at (c # cs) = Some (pfx, rest)"
  then obtain r where r: "after_word (c # cs) = Some r" "rest = dropWhile secret_char r" "takeWhile secret_char r \<noteq> []"
    by (auto simp: secret_at_def split: option.splits if_splits)
  have q: "length (skip_quote t) \<le> length t" for t by (cases t) (auto simp: skip_quote_def)
  have l: "length (py_lstrip t) \<le> length t" for t by (simp add: py_lstrip_def length_dropWhile_le)
  obtain n b bs where "py_lstrip (skip_quote (drop n (c # cs))) = b # bs" "r = skip_quote (py_lstrip bs)"
    using r(1) by (auto simp: after_word_def split: option.splits list.splits if_splits)
  then have "length r < length (c # cs)"
    using q [of "py_lstrip bs"] l [of bs] l [of "skip_quote (drop n (c # cs))"] q [of "drop n (c # cs)"]
    by (simp add: le_less_trans)
  then show ?thesis using r(2) length_dropWhile_le [of secret_char r] by simp
qed

fun mask_text :: "string \<Rightarrow> string" where
  "mask_text [] = []"
| "mask_text (c # cs) = (case secret_at (c # cs) of
       None \<Rightarrow> c # mask_text cs
     | Some (pfx, rest) \<Rightarrow> pfx @ redacted @ mask_text rest)"

section \<open>Log records (logging/formatter.py, context.py, filter.py)\<close>

record log_record =
  lg_levelname :: string
  lg_name :: string
  lg_created :: rat
  lg_message :: string
  lg_exc_text :: "string option"
  lg_extras :: "(string \<times> pyval) list"
  lg_event :: "event_rec option"

text \<open>
  The event a record is written as, before the JSON encoding: an attached event as it is, any other
  record with its message, traceback and extras masked. \<open>lg_message\<close> is \<open>getMessage()\<close>, \<open>lg_exc_text\<close>
  the formatted exception, \<open>lg_extras\<close> the attributes that are not the standard ones.
\<close>

definition format_record :: "string \<Rightarrow> string option \<times> string option \<Rightarrow> log_record \<Rightarrow> event_rec" where
  "format_record service ctx r = (case lg_event r of
       Some e \<Rightarrow> e
     | None \<Rightarrow> (mk_event_rec service (lg_created r))
         \<lparr>te_level := lg_levelname r, te_kind := KIND_LOG, te_trace_id := fst ctx, te_user_id := snd ctx,
          te_logger := Some (lg_name r), te_message := Some (mask_text (lg_message r)),
          te_traceback := map_option mask_text (lg_exc_text r),
          te_data := (if lg_extras r = [] then None else Some (mask 0 (VDict (lg_extras r))))\<rparr>)"

text \<open>\<open>current_context\<close>: the ids of the active request, as texts; an empty id counts as none.\<close>

definition current_context :: "(string option \<times> string option) option \<Rightarrow> string option \<times> string option" where
  "current_context ctx = (case ctx of None \<Rightarrow> (None, None) | Some (t, u) \<Rightarrow> (t, u))"

definition masking_filter :: "string \<Rightarrow> string" where
  "masking_filter msg = (if msg = [] then msg else mask_text msg)"

section \<open>HTTP requests (integrations/http.py, litestar\_middleware.py)\<close>

definition max_body_bytes :: nat where "max_body_bytes = 16 * 1024"

definition should_capture_body :: "string option \<Rightarrow> bool" where
  "should_capture_body ct = (case ct of None \<Rightarrow> False
     | Some c \<Rightarrow> let l = py_lower c in c \<noteq> []
         \<and> \<not> py_contains ''multipart/form-data'' l \<and> \<not> py_contains ''application/octet-stream'' l
         \<and> py_contains ''application/json'' l)"

definition level_for_status :: "int option \<Rightarrow> string" where
  "level_for_status st = (case st of None \<Rightarrow> ''INFO''
     | Some c \<Rightarrow> if 500 \<le> c then ''ERROR'' else if 400 \<le> c then ''WARNING'' else ''INFO'')"

text \<open>\<open>parsed\<close> is what \<open>parse_qs\<close> makes of the query string: each key with its values.\<close>

definition flat_query :: "(string \<times> string list) list \<Rightarrow> (string \<times> pyval) list" where
  "flat_query parsed = map (\<lambda>(k, vs). (k, case vs of [v] \<Rightarrow> VStr v | _ \<Rightarrow> VList (map VStr vs))) parsed"

definition parse_query :: "(string \<times> string list) list \<Rightarrow> pyval option" where
  "parse_query parsed = (let m = mask 0 (VDict (flat_query parsed)) in if m = VDict [] then None else Some m)"

text \<open>\<open>decode\<close> is the JSON decoder, with \<open>None\<close> for a body that is not JSON.\<close>

definition parse_json_body :: "(8 word list \<Rightarrow> pyval option) \<Rightarrow> 8 word list option \<Rightarrow> string option \<Rightarrow> pyval option" where
  "parse_json_body decode body ct = (case body of
       None \<Rightarrow> None
     | Some b \<Rightarrow> if b = [] \<or> \<not> should_capture_body ct then None else map_option (mask 0) (decode b))"

record http_facts =
  hf_method :: "string option"
  hf_url :: "string option"
  hf_query :: "(string \<times> string list) list"
  hf_body :: "8 word list option"
  hf_content_type :: "string option"
  hf_status :: "int option"
  hf_exec_ms :: "rat option"
  hf_ip :: "string option"
  hf_user_agent :: "string option"
  hf_trace_id :: "string option"
  hf_user_id :: "string option"

definition build_http_event :: "(8 word list \<Rightarrow> pyval option) \<Rightarrow> rat \<Rightarrow> string \<Rightarrow> http_facts \<Rightarrow> event_rec" where
  "build_http_event decode now service f = (mk_event_rec service now)
     \<lparr>te_level := level_for_status (hf_status f), te_trace_id := hf_trace_id f, te_exec_ms := hf_exec_ms f,
      te_user_id := hf_user_id f, te_ip := hf_ip f, te_method := hf_method f, te_url := hf_url f,
      te_url_params := parse_query (hf_query f), te_data := parse_json_body decode (hf_body f) (hf_content_type f),
      te_status_code := hf_status f, te_user_agent := hf_user_agent f\<rparr>"

text \<open>The body buffer of the middleware: each received chunk fills it up to the limit.\<close>

definition receive_chunk :: "8 word list \<Rightarrow> 8 word list \<Rightarrow> 8 word list" where
  "receive_chunk buf chunk = (if length buf < max_body_bytes \<and> chunk \<noteq> []
     then buf @ take (max_body_bytes - length buf) chunk else buf)"

definition captured_body :: "string option \<Rightarrow> 8 word list list \<Rightarrow> 8 word list option" where
  "captured_body ct chunks = (if should_capture_body ct then Some (foldl receive_chunk [] chunks) else None)"

text \<open>\<open>_headers\<close>: lower-cased names, a repeated header keeps its last value.\<close>

definition headers_of :: "(string \<times> string) list \<Rightarrow> string \<rightharpoonup> string" where
  "headers_of raw = map_of (rev (map (\<lambda>(k, v). (py_lower k, v)) raw))"

definition client_ip :: "string option \<Rightarrow> (string \<rightharpoonup> string) \<Rightarrow> string option" where
  "client_ip client headers = (case headers ''x-forwarded-for'' of
       Some f \<Rightarrow> if f \<noteq> [] then Some (py_strip (hd (py_split (CHR '','') f))) else client
     | None \<Rightarrow> client)"

record http_scope =
  sp_client :: "string option"
  sp_headers :: "(string \<times> string) list"
  sp_method :: "string option"
  sp_root_path :: string
  sp_path :: string
  sp_query :: "(string \<times> string list) list"

text \<open>
  The event the middleware emits when the application returned or raised: the status is that of the
  response start, if one was sent; the body is what was received meanwhile.
\<close>

definition request_event :: "(8 word list \<Rightarrow> pyval option) \<Rightarrow> rat \<Rightarrow> http_scope \<Rightarrow> 8 word list list \<Rightarrow> int option \<Rightarrow> rat \<Rightarrow>
    string option \<times> string option \<Rightarrow> event_rec" where
  "request_event decode now sc chunks status exec_ms ctx = (let hs = headers_of (sp_headers sc) in
     build_http_event decode now ''api''
       \<lparr>hf_method = sp_method sc, hf_url = Some (sp_root_path sc @ sp_path sc), hf_query = sp_query sc,
        hf_body = captured_body (hs ''content-type'') chunks, hf_content_type = hs ''content-type'',
        hf_status = status, hf_exec_ms = Some exec_ms, hf_ip = client_ip (sp_client sc) hs,
        hf_user_agent = hs ''user-agent'', hf_trace_id = fst ctx, hf_user_id = snd ctx\<rparr>)"

section \<open>Filters (filters/common.py, filters/base.py)\<close>

text \<open>\<open>logging.getLevelName\<close> of a level name; any other name counts as \<open>INFO\<close>.\<close>

definition level_no :: "string \<Rightarrow> int" where
  "level_no level = (case map_of [(''CRITICAL'', 50), (''FATAL'', 50), (''ERROR'', 40), (''WARN'', 30),
       (''WARNING'', 30), (''INFO'', 20), (''DEBUG'', 10), (''NOTSET'', 0)] (py_upper level) of
     Some n \<Rightarrow> n | None \<Rightarrow> 20)"

type_synonym event_filter = "event_rec \<Rightarrow> bool"

definition min_level :: "string \<Rightarrow> event_filter" where
  "min_level level e \<longleftrightarrow> level_no level \<le> level_no (te_level e)"

definition service_in :: "string list \<Rightarrow> event_filter" where
  "service_in services e \<longleftrightarrow> te_service e \<in> set services"

definition kind_in :: "string list \<Rightarrow> event_filter" where
  "kind_in kinds e \<longleftrightarrow> te_kind e \<in> set kinds"

definition status_at_least :: "int \<Rightarrow> bool \<Rightarrow> event_filter" where
  "status_at_least code pass_when_missing e =
     (case te_status_code e of None \<Rightarrow> pass_when_missing | Some s \<Rightarrow> code \<le> s)"

text \<open>The number is \<open>random.random()\<close>.\<close>

definition sampling :: "rat \<Rightarrow> rat \<Rightarrow> event_filter" where
  "sampling rate u e \<longleftrightarrow> u < max 0 (min 1 rate)"

definition not_filter :: "event_filter \<Rightarrow> event_filter" where
  "not_filter flt e \<longleftrightarrow> \<not> flt e"

definition any_of :: "event_filter list \<Rightarrow> event_filter" where
  "any_of flts e = list_ex (\<lambda>f. f e) flts"

definition exclude_urls :: "string list \<Rightarrow> event_filter" where
  "exclude_urls excluded e = (case te_url e of None \<Rightarrow> True
     | Some u \<Rightarrow> u = [] \<or> \<not> list_ex (\<lambda>p. py_startswith u p) excluded)"

fun pipeline_passes :: "event_filter list \<Rightarrow> event_filter" where
  "pipeline_passes [] e = True"
| "pipeline_passes (f # fs) e = (if \<not> f e then False else pipeline_passes fs e)"

section \<open>Composer and routes (composer.py, runner.py)\<close>

text \<open>A route is a writer's name and the destination filter, which may raise.\<close>

type_synonym route = "string \<times> (event_rec \<Rightarrow> (exn, bool) outcome)"

record composer =
  cm_global :: "event_filter list"
  cm_routes :: "route list"

text \<open>The writers an event is submitted to, in order; a filter that raises only skips its route.\<close>

definition dispatch :: "composer \<Rightarrow> event_rec \<Rightarrow> string list" where
  "dispatch c e = (if te_kind e \<noteq> KIND_SYSTEM \<and> \<not> pipeline_passes (cm_global c) e then []
     else map fst (filter (\<lambda>(w, flt). flt e = Ret True) (cm_routes c)))"

definition telegram_route :: "string \<Rightarrow> event_filter" where
  "telegram_route level e \<longleftrightarrow>
     te_kind e = KIND_SYSTEM \<or> min_level level e \<or> status_at_least 500 False e"

record telemetry_config =
  tc_min_level :: string
  tc_telegram_min_level :: string
  tc_exclude_url_prefixes :: string
  tc_postgres_enabled :: bool
  tc_telegram_enabled :: bool

definition default_telemetry_config :: telemetry_config where
  "default_telemetry_config = \<lparr>tc_min_level = ''INFO'', tc_telegram_min_level = ''ERROR'',
     tc_exclude_url_prefixes = default_exclude_url_prefixes, tc_postgres_enabled = True, tc_telegram_enabled = False\<rparr>"

definition build_composer :: "telemetry_config \<Rightarrow> telegram_config \<Rightarrow> composer" where
  "build_composer tel tg =
     \<lparr>cm_global = [min_level (tc_min_level tel), exclude_urls (excluded_prefixes (tc_exclude_url_prefixes tel))],
      cm_routes =
        (if tc_postgres_enabled tel then [(''postgres'', \<lambda>e. Ret (pipeline_passes [] e))] else [])
        @ (if tc_telegram_enabled tel \<and> telegram_enabled tg
           then [(''telegram'', \<lambda>e. Ret (telegram_route (tc_telegram_min_level tel) e))] else [])\<rparr>"

end
