(* ===== verification/TelemetryFlows.thy ===== *)
theory TelemetryFlows
  imports Telemetry
begin

text \<open>
  What telemetry promises before the writers: a masked payload holds no value under a sensitive key
  and no long text down to the depth the masking looks at, and what lies deeper is written as it
  is; what the masking of texts hides and what it leaves; which writers an event reaches.
\<close>

section \<open>Masked payloads\<close>

text \<open>No secret and no blob above the given number of levels of nesting.\<close>

fun clean :: "nat \<Rightarrow> pyval \<Rightarrow> bool" where
  "clean 0 v = True"
| "clean (Suc n) v = (case v of
       VDict kvs \<Rightarrow> list_all (\<lambda>kv. (is_sensitive_key (fst kv) \<longrightarrow> snd kv = VStr redacted) \<and> clean n (snd kv)) kvs
     | VList xs \<Rightarrow> list_all (clean n) xs
     | VTuple xs \<Rightarrow> False
     | _ \<Rightarrow> \<not> looks_binary v)"

lemma short_texts [simp]: "\<not> looks_binary (VStr redacted)" "\<not> looks_binary (VStr omitted)"
  by (simp_all add: looks_binary_def is_data_uri_def redacted_def omitted_def max_str_len_def py_startswith_def
      py_lower_def Let_def)

lemma clean_text: "\<not> looks_binary (VStr s) \<Longrightarrow> clean n (VStr s)"
  by (cases n) simp_all

lemma mask_clean: "clean (Suc max_depth - d) (mask d v)"
proof (induction d v rule: mask.induct)
  case (1 d v)
  show ?case
  proof (cases "max_depth < d")
    case True
    then show ?thesis by (simp add: mask.simps [of d])
  next
    case False
    then have n: "Suc max_depth - d = Suc (max_depth - d)" by simp
    note shorts = clean_text [OF short_texts(1)] clean_text [OF short_texts(2)]
    show ?thesis
    proof (cases v)
      case (VDict kvs)
      have "clean (max_depth - d) (mask (Suc d) (snd kv))"
        if "kv \<in> set kvs" "\<not> is_sensitive_key (fst kv)" "\<not> looks_binary (snd kv)" for kv
        using 1(3) [OF False VDict that] by simp
      then show ?thesis using False VDict shorts
        by (simp add: mask.simps [of d] n list_all_iff)
    next
      case (VList xs)
      have "clean (max_depth - d) (mask (Suc d) x)" if "x \<in> set xs" for x
        using 1(1) [OF False VList that] by simp
      then show ?thesis using False VList by (simp add: mask.simps [of d] n list_all_iff)
    next
      case (VTuple xs)
      have "clean (max_depth - d) (mask (Suc d) x)" if "x \<in> set xs" for x
        using 1(2) [OF False VTuple that] by simp
      then show ?thesis using False VTuple by (simp add: mask.simps [of d] n list_all_iff)
    qed (use False n shorts in \<open>auto simp: mask.simps [of d]\<close>)
  qed
qed

text \<open>A value wrapped in a number of lists.\<close>

fun nested :: "nat \<Rightarrow> pyval \<Rightarrow> pyval" where
  "nested 0 v = v"
| "nested (Suc n) v = VList [nested n v]"

lemma mask_nested: "d + n \<le> Suc max_depth \<Longrightarrow> mask d (nested n v) = nested n (mask (d + n) v)"
  by (induction n arbitrary: d) (simp_all add: mask.simps [of _ "VList _"])

lemma mask_deep: "max_depth < d \<Longrightarrow> mask d v = v"
  by (simp add: mask.simps)

text \<open>
  Claim C36. What is written of a structured payload: down to 33 levels of nesting no entry under a
  sensitive key keeps its value and no binary, inline file or text of more than 4096 characters
  remains; what lies deeper is written unchanged, secrets included.
\<close>

theorem mask_hides:
  "clean 33 (mask 0 v) \<and> mask 0 (nested 33 v) = nested 33 v"
  using mask_clean [of 0 v] mask_nested [of 0 33 v] mask_deep [of 33 v] by (simp add: max_depth_def)

text \<open>Masking a payload twice changes nothing more, as long as it has no tuples left to turn into lists.\<close>

lemma mask_text_word: "secret_at s = Some (pfx, rest) \<Longrightarrow> s \<noteq> [] \<Longrightarrow> mask_text s = pfx @ redacted @ mask_text rest"
  by (cases s) simp_all

text \<open>
  The value of a header \<open>Authorization: Bearer ...\<close> is not hidden: the secret ends at the blank.
\<close>

lemma bearer_token_remains:
  "mask_text ''Authorization: Bearer eyJhbGciOi'' = ''Authorization: *** eyJhbGciOi''"
  by code_simp

lemma assignment_is_masked: "mask_text ''login password=hunter2, ok'' = ''login password=***, ok''"
  by code_simp

section \<open>Which writers an event reaches\<close>

lemma pipeline_all: "pipeline_passes fs e \<longleftrightarrow> (\<forall>f \<in> set fs. f e)"
  by (induction fs) auto

text \<open>
  Which events reach which writer of the configured daemon: the database gets every event
  of the system, and every other one that has the minimum level and no excluded path; Telegram gets
  of those only the events of the system, those at Telegram's own level and the requests that ended
  with a server error. A disabled writer gets nothing.
\<close>

theorem dispatch_spec:
  "dispatch (build_composer tel tg) e =
     (let shown = te_kind e = KIND_SYSTEM \<or> (level_no (tc_min_level tel) \<le> level_no (te_level e)
          \<and> \<not> (\<exists>u p. te_url e = Some u \<and> u \<noteq> [] \<and> p \<in> set (excluded_prefixes (tc_exclude_url_prefixes tel)) \<and> prefix p u));
        alarming = te_kind e = KIND_SYSTEM \<or> level_no (tc_telegram_min_level tel) \<le> level_no (te_level e)
          \<or> (\<exists>s. te_status_code e = Some s \<and> 500 \<le> s)
      in (if shown \<and> tc_postgres_enabled tel then [''postgres''] else [])
       @ (if shown \<and> alarming \<and> tc_telegram_enabled tel \<and> telegram_enabled tg then [''telegram''] else []))"
proof -
  have ex: "exclude_urls ps e \<longleftrightarrow> \<not> (\<exists>u p. te_url e = Some u \<and> u \<noteq> [] \<and> p \<in> set ps \<and> prefix p u)" for ps
    by (auto simp: exclude_urls_def list_ex_iff py_startswith_prefix split: option.splits)
  have al: "telegram_route l e \<longleftrightarrow> te_kind e = KIND_SYSTEM \<or> level_no l \<le> level_no (te_level e)
      \<or> (\<exists>s. te_status_code e = Some s \<and> 500 \<le> s)" for l
    by (auto simp: telegram_route_def min_level_def status_at_least_def split: option.splits)
  have "pipeline_passes (cm_global (build_composer tel tg)) e \<longleftrightarrow> level_no (tc_min_level tel) \<le> level_no (te_level e)
      \<and> exclude_urls (excluded_prefixes (tc_exclude_url_prefixes tel)) e"
    by (simp add: build_composer_def min_level_def)
  then show ?thesis
    unfolding dispatch_def Let_def ex [symmetric] al [symmetric]
    by (simp add: build_composer_def)
qed

section \<open>Captured bodies\<close>

lemma captured_prefix:
  "captured_body ct chunks = (if should_capture_body ct then Some (take max_body_bytes (concat chunks)) else None)"
proof -
  have "foldl receive_chunk (take max_body_bytes buf) chunks = take max_body_bytes (buf @ concat chunks)" for buf
  proof (induction chunks arbitrary: buf)
    case (Cons c cs)
    have "receive_chunk (take max_body_bytes buf) c = take max_body_bytes (buf @ c)"
      by (auto simp: receive_chunk_def min_def)
    then show ?case using Cons [of "buf @ c"] by simp
  qed simp
  from this [of "[]"] show ?thesis by (simp add: captured_body_def)
qed

end
