(* ===== verification/TelemetryReader.thy ===== *)
theory TelemetryReader
  imports TelemetryFlows
begin

text \<open>
  The reader of the telemetry daemon (\<open>modules/telemetry/reader/filesystem.py\<close>): the poller with a
  cursor per file, and the asynchronous iterator over it; with the equivalence of any sequence of
  polls of a growing file to reading it once.

  \<open>dc_event\<close> is the JSON decoder of a line, \<open>None\<close> where it raises; \<open>dc_text\<close> is the decoding of
  bytes to text with replacement; \<open>dc_now\<close> is the time given to a wrapped line.
\<close>

record decoder =
  dc_event :: "8 word list \<Rightarrow> event_rec option"
  dc_text :: "8 word list \<Rightarrow> string"
  dc_now :: rat

section \<open>Lines\<close>

definition newline :: "8 word" where "newline = 10"

text \<open>\<open>bytes.strip()\<close>\<close>

definition byte_space :: "8 word \<Rightarrow> bool" where
  "byte_space b \<longleftrightarrow> b = 32 \<or> (9 \<le> b \<and> b \<le> 13)"

definition bytes_strip :: "8 word list \<Rightarrow> 8 word list" where
  "bytes_strip bs = rev (dropWhile byte_space (rev (dropWhile byte_space bs)))"

definition parse_line :: "decoder \<Rightarrow> string \<Rightarrow> 8 word list \<Rightarrow> event_rec option" where
  "parse_line D service raw = (let line = bytes_strip raw in
     if line = [] then None
     else (case dc_event D line of
         Some e \<Rightarrow> Some e
       | None \<Rightarrow> Some ((mk_event_rec service (dc_now D))\<lparr>te_level := ''INFO'', te_kind := KIND_LOG,
           te_message := Some (dc_text D line)\<rparr>)))"

definition parse_lines :: "decoder \<Rightarrow> string \<Rightarrow> 8 word list list \<Rightarrow> event_rec list" where
  "parse_lines D service ls = List.map_filter (parse_line D service) ls"

section \<open>Polling (\_Poller)\<close>

record cursor =
  cu_inode :: nat
  cu_offset :: nat
  cu_buffer :: "8 word list"

text \<open>
  A file at the time of a poll: its name without the suffix, its inode, its size when it is looked
  at and its content when it is read a moment later, at least as long.
\<close>

record log_file =
  lf_stem :: string
  lf_inode :: nat
  lf_size :: nat
  lf_content :: "8 word list"

text \<open>The cursor a poll starts from: a new or rotated file, a truncated one, or the known one.\<close>

definition start_cursor :: "bool \<Rightarrow> cursor option \<Rightarrow> log_file \<Rightarrow> cursor" where
  "start_cursor from_end cur f =
     (case cur of
        None \<Rightarrow> \<lparr>cu_inode = lf_inode f, cu_offset = (if from_end then lf_size f else 0), cu_buffer = []\<rparr>
      | Some c \<Rightarrow>
          if cu_inode c \<noteq> lf_inode f then \<lparr>cu_inode = lf_inode f, cu_offset = 0, cu_buffer = []\<rparr>
          else if lf_size f < cu_offset c then c\<lparr>cu_offset := 0, cu_buffer := []\<rparr>
          else c)"

definition read_file :: "decoder \<Rightarrow> bool \<Rightarrow> cursor option \<Rightarrow> log_file \<Rightarrow> event_rec list \<times> cursor" where
  "read_file D from_end cur f =
     (let c = start_cursor from_end cur f
      in if lf_size f \<le> cu_offset c then ([], c)
         else (let chunk = drop (cu_offset c) (lf_content f);
                   parts = py_split newline (cu_buffer c @ chunk)
               in (parse_lines D (lf_stem f) (butlast parts),
                   c\<lparr>cu_offset := length (lf_content f), cu_buffer := last parts\<rparr>)))"

type_synonym cursors = "string \<rightharpoonup> cursor"

text \<open>
  \<open>collect\<close>: the matching files in the order of their paths; \<open>None\<close> is a file that cannot be looked
  at any more.
\<close>

fun collect :: "decoder \<Rightarrow> bool \<Rightarrow> (string \<times> log_file option) list \<Rightarrow> cursors \<Rightarrow> event_rec list \<times> cursors" where
  "collect D from_end [] cs = ([], cs)"
| "collect D from_end ((path, None) # fs) cs = collect D from_end fs cs"
| "collect D from_end ((path, Some f) # fs) cs =
     (case read_file D from_end (cs path) f of (es, c) \<Rightarrow>
        (case collect D from_end fs (cs(path \<mapsto> c)) of (es', cs') \<Rightarrow> (es @ es', cs')))"

section \<open>The iterator (FileSystemLogReader)\<close>

text \<open>
  \<open>__anext__\<close>: the queue first; an empty queue polls, and after an empty poll sleeps and tries again.
  The directory at the \<open>k\<close>-th poll is \<open>dir k\<close>; \<open>stopped k\<close> says whether the reader was closed before it.
  The loop may wait for ever; an end of the iteration is \<open>None\<close> in the answer.
\<close>

record reader =
  rd_queue :: "event_rec list"
  rd_cursors :: cursors
  rd_polls :: nat

partial_function (option) next_event ::
  "decoder \<Rightarrow> bool \<Rightarrow> (nat \<Rightarrow> (string \<times> log_file option) list) \<Rightarrow> (nat \<Rightarrow> bool) \<Rightarrow> reader \<Rightarrow> (event_rec option \<times> reader) option" where
  "next_event D from_end dir stopped r =
     (if stopped (rd_polls r) then Some (None, r)
      else (case rd_queue r of
          e # es \<Rightarrow> Some (Some e, r\<lparr>rd_queue := es\<rparr>)
        | [] \<Rightarrow> (case collect D from_end (dir (rd_polls r)) (rd_cursors r) of (es, cs) \<Rightarrow>
            next_event D from_end dir stopped
              \<lparr>rd_queue = es, rd_cursors = cs, rd_polls = Suc (rd_polls r)\<rparr>)))"

section \<open>A growing file\<close>

text \<open>Polls of one file: the events of each, and the cursor at the end.\<close>

fun poll_all :: "decoder \<Rightarrow> bool \<Rightarrow> cursor option \<Rightarrow> log_file list \<Rightarrow> event_rec list \<times> cursor option" where
  "poll_all D from_end cur [] = ([], cur)"
| "poll_all D from_end cur (f # fs) = (case read_file D from_end cur f of (es, c) \<Rightarrow>
     (case poll_all D from_end (Some c) fs of (es', cur') \<Rightarrow> (es @ es', cur')))"

text \<open>
  Snapshots of one file that is only appended to: the same inode, each content extending the one
  before, and at each poll the size at most the content that is read. A poll that finds the size
  unchanged does not read, and its snapshot is the content it saw before.
\<close>

fun growing :: "string \<Rightarrow> nat \<Rightarrow> 8 word list \<Rightarrow> log_file list \<Rightarrow> bool" where
  "growing stem i old [] = True"
| "growing stem i old (f # fs) = (lf_stem f = stem \<and> lf_inode f = i \<and> prefix old (lf_content f)
     \<and> length old \<le> lf_size f \<and> lf_size f \<le> length (lf_content f)
     \<and> (if lf_size f = length old then lf_content f = old else True) \<and> growing stem i (lf_content f) fs)"

text \<open>The complete lines of a content.\<close>

definition complete_lines :: "8 word list \<Rightarrow> 8 word list list" where
  "complete_lines bs = butlast (py_split newline bs)"

section \<open>Lemmas\<close>

lemma split_append: "py_split c (p @ q) = butlast (py_split c p) @ py_split c (last (py_split c p) @ q)"
proof (induction p)
  case (Cons x p)
  show ?case
  proof (cases "x = c")
    case True
    then show ?thesis using Cons by simp
  next
    case False
    obtain y ys where y: "py_split c p = y # ys" by (cases "py_split c p") auto
    show ?thesis
    proof (cases ys)
      case Nil
      then show ?thesis using Cons False y by (simp split: list.splits)
    next
      case (Cons z zs)
      then show ?thesis using Cons.IH False y by (simp split: list.splits)
    qed
  qed
qed simp

lemma lines_append: "complete_lines (p @ q) = complete_lines p @ complete_lines (last (py_split newline p) @ q)"
  by (subst complete_lines_def, subst split_append) (simp add: complete_lines_def butlast_append)

lemma rest_append: "last (py_split newline (p @ q)) = last (py_split newline (last (py_split newline p) @ q))"
  by (subst split_append) simp

lemma parse_lines_append: "parse_lines D s (a @ b) = parse_lines D s a @ parse_lines D s b"
  by (simp add: parse_lines_def List.map_filter_def)

text \<open>The cursor after everything of \<open>bs\<close> from position \<open>k\<close> on was read.\<close>

definition cursor_at :: "nat \<Rightarrow> nat \<Rightarrow> 8 word list \<Rightarrow> cursor" where
  "cursor_at i k bs = \<lparr>cu_inode = i, cu_offset = length bs, cu_buffer = last (py_split newline (drop k bs))\<rparr>"

lemma read_growing:
  assumes "k \<le> length old" "prefix old (lf_content f)" "length old \<le> lf_size f" "lf_size f \<le> length (lf_content f)" "lf_inode f = i"
    "lf_size f = length old \<longrightarrow> lf_content f = old"
  shows "read_file D from_end (Some (cursor_at i k old)) f =
     (parse_lines D (lf_stem f) (complete_lines (last (py_split newline (drop k old)) @ drop (length old) (lf_content f))),
      cursor_at i k (lf_content f))"
proof (cases "lf_size f = length old")
  case True
  then have "lf_content f = old" using assms(6) by simp
  moreover have "complete_lines (last (py_split newline (drop k old))) = []"
    using py_split_no_sep py_split_parts by (metis complete_lines_def butlast.simps last_in_set py_split_nonempty)
  ultimately show ?thesis using True assms(5)
    by (simp add: read_file_def start_cursor_def cursor_at_def parse_lines_def List.map_filter_def Let_def)
next
  case False
  obtain new where new: "lf_content f = old @ new" using assms(2) by (auto simp: prefix_def)
  have "drop k (lf_content f) = drop k old @ new" using assms(1) new by simp
  then have "last (py_split newline (drop k (lf_content f))) = last (py_split newline (last (py_split newline (drop k old)) @ new))"
    using rest_append by simp
  then show ?thesis using False assms(3,5) new
    by (simp add: read_file_def start_cursor_def cursor_at_def complete_lines_def Let_def)
qed

text \<open>The content at the last of a list of snapshots.\<close>

definition final_content :: "8 word list \<Rightarrow> log_file list \<Rightarrow> 8 word list" where
  "final_content old fs = last (old # map lf_content fs)"

lemma final_content_simps [simp]:
  "final_content old [] = old" "final_content old (f # fs) = final_content (lf_content f) fs"
  by (simp_all add: final_content_def)

lemma growing_prefix: "growing stem i old fs \<Longrightarrow> prefix old (final_content old fs)"
  by (induction fs arbitrary: old) (auto intro: prefix_order.trans)

lemma poll_growing:
  assumes "growing stem i old fs" "k \<le> length old"
  shows "poll_all D from_end (Some (cursor_at i k old)) fs =
     (parse_lines D stem (complete_lines (last (py_split newline (drop k old)) @ drop (length old) (final_content old fs))),
      Some (cursor_at i k (final_content old fs)))"
  using assms
proof (induction fs arbitrary: old)
  case Nil
  have "complete_lines (last (py_split newline (drop k old))) = []"
    by (metis complete_lines_def butlast.simps(2) last_in_set py_split_no_sep py_split_nonempty py_split_parts)
  then show ?case by (simp add: parse_lines_def List.map_filter_def)
next
  case (Cons f fs)
  let ?b = "last (py_split newline (drop k old))"
  let ?fin = "final_content (lf_content f) fs"
  have f: "lf_stem f = stem" "lf_inode f = i" "prefix old (lf_content f)" "length old \<le> lf_size f"
    "lf_size f \<le> length (lf_content f)" "lf_size f = length old \<longrightarrow> lf_content f = old" "growing stem i (lf_content f) fs"
    using Cons.prems by (auto split: if_splits)
  have k: "k \<le> length (lf_content f)" using Cons.prems(2) f(4,5) by simp
  obtain new where new: "lf_content f = old @ new" using f(3) by (auto simp: prefix_def)
  obtain more where more: "?fin = lf_content f @ more" using growing_prefix [OF f(7)] by (auto simp: prefix_def)
  have "last (py_split newline (drop k (lf_content f))) = last (py_split newline (?b @ new))"
    using rest_append [of "drop k old" new] Cons.prems(2) new by simp
  then have "complete_lines (?b @ new @ more) =
    complete_lines (?b @ new) @ complete_lines (last (py_split newline (drop k (lf_content f))) @ more)"
    using lines_append [of "?b @ new" more] by simp
  then show ?case
    using read_growing [OF Cons.prems(2) f(3,4,5,2,6), where D = D and from_end = from_end]
      Cons.IH [OF f(7) k] f(1) new more by (simp add: parse_lines_append)
qed

lemma first_poll:
  assumes "growing stem i [] (f # fs)" "from_end \<longrightarrow> length (lf_content f) = lf_size f"
  shows "fst (poll_all D from_end None (f # fs)) =
    parse_lines D stem (complete_lines (drop (if from_end then lf_size f else 0) (final_content [] (f # fs))))"
proof (cases from_end)
  case True
  have "read_file D True None f = ([], cursor_at i (lf_size f) (lf_content f))"
    using assms True by (simp add: read_file_def start_cursor_def cursor_at_def Let_def)
  moreover have g: "growing stem i (lf_content f) fs" using assms(1) by (simp split: if_splits)
  ultimately show ?thesis
    using True assms(2) poll_growing [OF g, of "lf_size f" D True] growing_prefix [OF g]
    by (auto simp: prefix_def)
next
  case False
  have "read_file D False None f = read_file D False (Some (cursor_at i 0 [])) f"
    using assms by (simp add: read_file_def start_cursor_def cursor_at_def Let_def)
  then have "poll_all D False None (f # fs) = poll_all D False (Some (cursor_at i 0 [])) (f # fs)" by simp
  then show ?thesis using False poll_growing [OF assms(1), of 0 D False] by simp
qed

text \<open>
  Claim C30. Following a log file that is only appended to gives exactly what reading it in one go
  would: whatever the moments of the polls, and wherever they cut the lines, the events reported are
  those of the complete lines of the final content, in order, none lost, torn or repeated; an
  unfinished last line is held back. With \<open>from_end\<close> the reading begins where the file ended when it
  was first seen.
\<close>

theorem tail_reads_complete_lines:
  assumes "growing stem i [] (f # fs)" "from_end \<longrightarrow> length (lf_content f) = lf_size f"
  shows "fst (poll_all D from_end None (f # fs)) =
    parse_lines D stem (complete_lines (drop (if from_end then lf_size f else 0) (final_content [] (f # fs))))"
  using assms by (rule first_poll)

text \<open>A file with a line that the first poll cuts in two, read by three polls.\<close>

definition plain_decoder :: decoder where
  "plain_decoder = \<lparr>dc_event = (\<lambda>_. None), dc_text = map (\<lambda>b. char_of (unat b)), dc_now = 0\<rparr>"

definition snapshot :: "8 word list \<Rightarrow> log_file" where
  "snapshot bs = \<lparr>lf_stem = ''api'', lf_inode = 7, lf_size = length bs, lf_content = bs\<rparr>"

theorem tail_reads_complete_lines_witness:
  "map te_message (fst (poll_all plain_decoder False None
      [snapshot [97], snapshot [97, 98, 10, 32, 10], snapshot [97, 98, 10, 32, 10, 99]])) = [Some ''ab'']
   \<and> fst (poll_all plain_decoder False None [snapshot [97], snapshot [97, 98, 10, 32, 10], snapshot [97, 98, 10, 32, 10, 99]])
     = parse_lines plain_decoder ''api'' (complete_lines [97, 98, 10, 32, 10, 99])"
proof -
  have g: "growing ''api'' 7 [] [snapshot [97], snapshot [97, 98, 10, 32, 10], snapshot [97, 98, 10, 32, 10, 99]]"
    by (simp add: snapshot_def)
  have e: "fst (poll_all plain_decoder False None [snapshot [97], snapshot [97, 98, 10, 32, 10], snapshot [97, 98, 10, 32, 10, 99]])
     = parse_lines plain_decoder ''api'' (complete_lines [97, 98, 10, 32, 10, 99])"
    using tail_reads_complete_lines [OF g, of False plain_decoder] by (simp add: snapshot_def)
  moreover have "map te_message (parse_lines plain_decoder ''api'' (complete_lines [97, 98, 10, 32, 10, 99])) = [Some ''ab'']"
    by code_simp
  ultimately show ?thesis by simp
qed

section \<open>Several files, and the iterator\<close>

text \<open>The files of a poll do not disturb one another: each is read from its own cursor.\<close>

lemma collect_files:
  "distinct (map fst fs) \<Longrightarrow> fst (collect D from_end fs cs) =
     concat (map (\<lambda>(p, f). case f of None \<Rightarrow> [] | Some f \<Rightarrow> fst (read_file D from_end (cs p) f)) fs)"
proof (induction D from_end fs cs rule: collect.induct)
  case (3 D from_end path f fs cs)
  obtain es c where r: "read_file D from_end (cs path) f = (es, c)" by fastforce
  obtain es' cs' where q: "collect D from_end fs (cs(path \<mapsto> c)) = (es', cs')" by fastforce
  have same: "(cs(path \<mapsto> c)) (fst x) = cs (fst x)" if "x \<in> set fs" for x
    using "3.prems" that by (auto simp: image_iff)
  have eq: "map (\<lambda>(p, f). case f of None \<Rightarrow> [] | Some f \<Rightarrow> fst (read_file D from_end ((cs(path \<mapsto> c)) p) f)) fs =
      map (\<lambda>(p, f). case f of None \<Rightarrow> [] | Some f \<Rightarrow> fst (read_file D from_end (cs p) f)) fs"
    using same by (intro map_cong refl) (simp add: case_prod_beta split: option.splits)
  have "es' = concat (map (\<lambda>(p, f). case f of None \<Rightarrow> [] | Some f \<Rightarrow> fst (read_file D from_end (cs p) f)) fs)"
    using "3.IH" [OF r [symmetric]] "3.prems" unfolding q fst_conv eq by simp
  then show ?case using r q by simp
qed auto

lemma collect_cursors:
  "distinct (map fst fs) \<Longrightarrow> snd (collect D from_end fs cs) p =
     (case map_of fs p of Some (Some f) \<Rightarrow> Some (snd (read_file D from_end (cs p) f)) | _ \<Rightarrow> cs p)"
proof (induction D from_end fs cs rule: collect.induct)
  case (3 D from_end path f fs cs)
  obtain es c where r: "read_file D from_end (cs path) f = (es, c)" by fastforce
  obtain es' cs' where q: "collect D from_end fs (cs(path \<mapsto> c)) = (es', cs')" by fastforce
  have n: "map_of fs path = None" using "3.prems" by (simp add: map_of_eq_None_iff)
  have "cs' p = (case map_of fs p of Some (Some f) \<Rightarrow> Some (snd (read_file D from_end ((cs(path \<mapsto> c)) p) f))
      | _ \<Rightarrow> (cs(path \<mapsto> c)) p)"
    using "3.IH" [OF r [symmetric]] "3.prems" unfolding q snd_conv by simp
  then show ?case using r q n by (cases "p = path") (simp_all cong: option.case_cong)
next
  case (2 D from_end path fs cs)
  have "map_of fs path = None" using "2.prems" by (simp add: map_of_eq_None_iff)
  then show ?case using 2 by (cases "p = path") simp_all
qed simp

text \<open>Waiting ends: with the queue's next event, with the first poll that finds one, or when stopped.\<close>

lemma next_event_ends: "stopped (rd_polls r + k) \<Longrightarrow> next_event D from_end dir stopped r \<noteq> None"
proof (induction k arbitrary: r)
  case 0
  then show ?case by (subst next_event.simps) simp
next
  case (Suc k)
  then show ?case
    by (subst next_event.simps) (auto split: list.splits prod.splits)
qed

end
