(* ===== verification/Writers.thy ===== *)
theory Writers
  imports TelemetryReader
begin

text \<open>
  The writers of the telemetry daemon and what they are built from: the queue and the consumer task
  of \<open>AbstractWriter\<close> (\<open>writers/base.py\<close>) as a step relation, and the token bucket
  (\<open>writers/rate_limit.py\<close>); with the proofs that an accepted event is handled once and in order, that
  closing drains the queue, and what the bucket lets through.
\<close>

section \<open>The queue and its consumer (writers/base.py)\<close>

text \<open>An entry of the queue: an event or \<open>_SENTINEL\<close>.\<close>

datatype 'a item = is_entry: Entry (entry: 'a) | Sentinel

text \<open>
  Where the consumer is: waiting for the first entry, inside \<open>_handle_batch\<close> with the value of
  \<open>stopping\<close>, or returned from \<open>_run\<close>.
\<close>

datatype 'a phase = Waiting | Handling "'a list" bool | Finished

text \<open>
  The state, with two histories of what can be observed: the events that were put in the queue and
  the batches passed to \<open>_handle_batch\<close> that have ended. A \<open>maxsize\<close> of 0 is no bound.
\<close>

record 'a writer =
  wr_maxsize :: nat
  wr_queue :: "'a item list"
  wr_dropped :: nat
  wr_phase :: "'a phase"
  wr_accepted :: "'a list"
  wr_batches :: "'a list list"

definition new_writer :: "nat \<Rightarrow> 'a writer" where
  "new_writer m = \<lparr>wr_maxsize = m, wr_queue = [], wr_dropped = 0, wr_phase = Waiting, wr_accepted = [], wr_batches = []\<rparr>"

definition queue_full :: "'a writer \<Rightarrow> bool" where
  "queue_full w \<longleftrightarrow> 0 < wr_maxsize w \<and> wr_maxsize w \<le> length (wr_queue w)"

definition submit :: "'a \<Rightarrow> 'a writer \<Rightarrow> 'a writer" where
  "submit e w = (if queue_full w then w\<lparr>wr_dropped := wr_dropped w + 1\<rparr>
     else w\<lparr>wr_queue := wr_queue w @ [Entry e], wr_accepted := wr_accepted w @ [e]\<rparr>)"

text \<open>The inner loop of \<open>_run\<close>: what is there, up to \<open>n\<close> more entries or the sentinel.\<close>

fun gather :: "nat \<Rightarrow> 'a item list \<Rightarrow> 'a list \<times> bool \<times> 'a item list" where
  "gather 0 q = ([], False, q)"
| "gather (Suc n) [] = ([], False, [])"
| "gather (Suc n) (Sentinel # q) = ([], True, q)"
| "gather (Suc n) (Entry e # q) = (case gather n q of (es, stopping, q') \<Rightarrow> (e # es, stopping, q'))"

text \<open>
  The steps, with \<open>bs\<close> the \<open>batch_size\<close> given: a caller submits an event; a caller of \<open>aclose\<close> puts the
  sentinel, which waits while the queue is full; the consumer takes the sentinel and returns, or a
  batch; \<open>_handle_batch\<close> ends, well or with an exception that is logged. A timeout of the wait changes
  nothing and is no step.
\<close>

datatype 'a action = Submit 'a | PutSentinel | Take | HandledOk | HandledError

inductive writer_step :: "nat \<Rightarrow> 'a writer \<Rightarrow> 'a action \<Rightarrow> 'a writer \<Rightarrow> bool" for bs where
  submits: "writer_step bs w (Submit e) (submit e w)"
| puts_sentinel: "\<not> queue_full w \<Longrightarrow> writer_step bs w PutSentinel (w\<lparr>wr_queue := wr_queue w @ [Sentinel]\<rparr>)"
| takes_sentinel: "wr_phase w = Waiting \<Longrightarrow> wr_queue w = Sentinel # q \<Longrightarrow>
    writer_step bs w Take (w\<lparr>wr_queue := q, wr_phase := Finished\<rparr>)"
| takes_batch: "wr_phase w = Waiting \<Longrightarrow> wr_queue w = Entry e # q \<Longrightarrow> gather (max 1 bs - 1) q = (es, stopping, q') \<Longrightarrow>
    writer_step bs w Take (w\<lparr>wr_queue := q', wr_phase := Handling (e # es) stopping\<rparr>)"
| handled: "wr_phase w = Handling es stopping \<Longrightarrow> a = HandledOk \<or> a = HandledError \<Longrightarrow>
    writer_step bs w a (w\<lparr>wr_phase := (if stopping then Finished else Waiting), wr_batches := wr_batches w @ [es]\<rparr>)"

code_pred (modes: i \<Rightarrow> i \<Rightarrow> i \<Rightarrow> o \<Rightarrow> bool) writer_step .

inductive_cases take_cases: "writer_step bs w Take w'"

inductive writer_run :: "nat \<Rightarrow> 'a writer \<Rightarrow> 'a action list \<Rightarrow> 'a writer \<Rightarrow> bool" for bs where
  no_step: "writer_run bs w [] w"
| one_step: "writer_run bs w acts w' \<Longrightarrow> writer_step bs w' a w'' \<Longrightarrow> writer_run bs w (acts @ [a]) w''"

section \<open>What is in the writer\<close>

definition entries :: "'a item list \<Rightarrow> 'a list" where
  "entries q = map entry (filter is_entry q)"

definition in_hand :: "'a phase \<Rightarrow> 'a list" where
  "in_hand p = (case p of Handling es _ \<Rightarrow> es | _ \<Rightarrow> [])"

definition submitted :: "'a action list \<Rightarrow> 'a list" where
  "submitted acts = concat (map (\<lambda>a. case a of Submit e \<Rightarrow> [e] | _ \<Rightarrow> []) acts)"

lemma entries_simps [simp]:
  "entries [] = []" "entries (Entry e # q) = e # entries q" "entries (Sentinel # q) = entries q"
  "entries (q @ q') = entries q @ entries q'"
  by (simp_all add: entries_def)

lemma in_hand_simps [simp]: "in_hand Waiting = []" "in_hand Finished = []" "in_hand (Handling es b) = es"
  by (simp_all add: in_hand_def)

lemma submitted_simps [simp]: "submitted [] = []" "submitted (acts @ bs) = submitted acts @ submitted bs"
  "submitted [Submit e] = [e]" "submitted [PutSentinel] = []" "submitted [Take] = []"
  "submitted [HandledOk] = []" "submitted [HandledError] = []"
  by (simp_all add: submitted_def)

lemma gather_spec:
  "gather n q = (es, stopping, q') \<Longrightarrow> q = map Entry es @ (if stopping then [Sentinel] else []) @ q' \<and> length es \<le> n"
  by (induction n q arbitrary: es rule: gather.induct) (auto split: prod.splits)

lemma entries_map [simp]: "entries (map Entry es) = es"
  by (induction es) simp_all

definition writer_ok :: "nat \<Rightarrow> 'a action list \<Rightarrow> 'a writer \<Rightarrow> bool" where
  "writer_ok bs acts w \<longleftrightarrow>
     wr_accepted w = concat (wr_batches w) @ in_hand (wr_phase w) @ entries (wr_queue w)
   \<and> subseq (wr_accepted w) (submitted acts)
   \<and> length (wr_accepted w) + wr_dropped w = length (submitted acts)
   \<and> list_all (\<lambda>b. b \<noteq> [] \<and> length b \<le> max 1 bs) (wr_batches w)
   \<and> (in_hand (wr_phase w) = [] \<longleftrightarrow> wr_phase w = Waiting \<or> wr_phase w = Finished)
   \<and> length (in_hand (wr_phase w)) \<le> max 1 bs
   \<and> (wr_maxsize w = 0 \<or> length (wr_queue w) \<le> wr_maxsize w)"

lemma new_writer_ok: "writer_ok bs [] (new_writer m)"
  by (simp add: writer_ok_def new_writer_def)

lemma writer_step_ok: "writer_step bs w a w' \<Longrightarrow> writer_ok bs acts w \<Longrightarrow> writer_ok bs (acts @ [a]) w'"
proof (induction rule: writer_step.induct)
  case (submits w e)
  have eq: "wr_accepted w = concat (wr_batches w) @ in_hand (wr_phase w) @ entries (wr_queue w)"
    and sub: "subseq (wr_accepted w) (submitted acts)"
    using submits by (auto simp: writer_ok_def)
  have "subseq (wr_accepted w @ [e]) (submitted acts @ [e])" "subseq (wr_accepted w) (submitted acts @ [e])"
    using sub by (auto intro: subseq_order.trans)
  then show ?case using submits eq by (auto simp: writer_ok_def submit_def queue_full_def)
next
  case (puts_sentinel w)
  then show ?case by (auto simp: writer_ok_def queue_full_def)
next
  case (takes_sentinel w q)
  then show ?case by (auto simp: writer_ok_def)
next
  case (takes_batch w e q es stopping q')
  then show ?case using gather_spec [OF takes_batch(3)] by (cases stopping) (auto simp: writer_ok_def)
next
  case (handled w es stopping a)
  then show ?case by (auto simp: writer_ok_def)
qed

lemma writer_run_ok: "writer_run bs w acts w' \<Longrightarrow> w = new_writer m \<Longrightarrow> writer_ok bs acts w'"
  by (induction rule: writer_run.induct) (auto simp: new_writer_ok intro: writer_step_ok)

lemma writer_run_maxsize: "writer_run bs w acts w' \<Longrightarrow> wr_maxsize w' = wr_maxsize w"
  by (induction rule: writer_run.induct) (auto simp: submit_def elim!: writer_step.cases)

text \<open>
  Whatever the order in which events are submitted and the consumer runs, and whether the
  destination fails or not: the events that were accepted are those handled, the batch in hand and
  those still queued, in the order of their submission, none twice; accepted and dropped events add
  up to the submitted ones; every batch has between one and \<open>batch_size\<close> events, and the queue never
  exceeds its bound.
\<close>

theorem writer_accounts:
  assumes "writer_run bs (new_writer m) acts w"
  shows "wr_accepted w = concat (wr_batches w) @ in_hand (wr_phase w) @ entries (wr_queue w)
    \<and> subseq (wr_accepted w) (submitted acts)
    \<and> length (wr_accepted w) + wr_dropped w = length (submitted acts)
    \<and> list_all (\<lambda>b. b \<noteq> [] \<and> length b \<le> max 1 bs) (wr_batches w)
    \<and> (m = 0 \<or> length (wr_queue w) \<le> m)"
proof -
  have "wr_maxsize w = m" using writer_run_maxsize [OF assms] by (simp add: new_writer_def)
  then show ?thesis using writer_run_ok [OF assms refl] by (auto simp: writer_ok_def)
qed

text \<open>A queue of two: the third event is dropped, and a batch that fails is not sent again.\<close>

lemma sample_writer_run:
  "writer_run 5 (new_writer 2) [Submit ''a'', Submit ''b'', Submit ''c'', Take, HandledError, Submit ''d'']
     \<lparr>wr_maxsize = 2, wr_queue = [Entry ''d''], wr_dropped = 1, wr_phase = Waiting,
      wr_accepted = [''a'', ''b'', ''d''], wr_batches = [[''a'', ''b'']]\<rparr>"
proof -
  let ?w = "submit ''c'' (submit ''b'' (submit ''a'' (new_writer 2)))"
  have "writer_run 5 (new_writer 2) ((([] @ [Submit ''a'']) @ [Submit ''b'']) @ [Submit ''c'']) ?w"
    by (rule writer_run.one_step [OF _ writer_step.submits])+ (rule writer_run.no_step)
  moreover have "writer_step 5 ?w Take (?w\<lparr>wr_queue := [], wr_phase := Handling [''a'', ''b''] False\<rparr>)"
    by (rule writer_step.takes_batch [where q = "[Entry ''b'']"])
      (simp_all add: submit_def new_writer_def queue_full_def numeral_eq_Suc)
  moreover have "writer_step 5 (?w\<lparr>wr_queue := [], wr_phase := Handling [''a'', ''b''] False\<rparr>) HandledError
      (?w\<lparr>wr_queue := [], wr_phase := Waiting, wr_batches := [[''a'', ''b'']]\<rparr>)"
    using writer_step.handled [where w = "?w\<lparr>wr_queue := [], wr_phase := Handling [''a'', ''b''] False\<rparr>" and a = HandledError
        and es = "[''a'', ''b'']" and stopping = False]
    by (simp add: submit_def new_writer_def queue_full_def)
  ultimately have "writer_run 5 (new_writer 2) ((((([] @ [Submit ''a'']) @ [Submit ''b'']) @ [Submit ''c'']) @ [Take]) @ [HandledError])
      (?w\<lparr>wr_queue := [], wr_phase := Waiting, wr_batches := [[''a'', ''b'']]\<rparr>)"
    by (blast intro: writer_run.one_step)
  from writer_run.one_step [OF this writer_step.submits, of "''d''"] show ?thesis
    by (simp add: submit_def new_writer_def queue_full_def)
qed

theorem writer_accounts_witness:
  "length [''a'', ''b'', ''d''] + 1 = length (submitted [Submit ''a'', Submit ''b'', Submit ''c'', Take, HandledError, Submit ''d''])"
  using writer_accounts [OF sample_writer_run] by simp

section \<open>Closing\<close>

text \<open>The sentinel is on its way: in the queue, or taken together with the last batch.\<close>

definition closing :: "'a writer \<Rightarrow> bool" where
  "closing w \<longleftrightarrow> (case wr_phase w of Handling es True \<Rightarrow> True | Finished \<Rightarrow> True | _ \<Rightarrow> Sentinel \<in> set (wr_queue w))"

text \<open>The events before the sentinel, what remains to be handled, and a bound of the steps it takes.\<close>

definition before_sentinel :: "'a item list \<Rightarrow> 'a list" where
  "before_sentinel q = entries (takeWhile is_entry q)"

definition to_do :: "'a writer \<Rightarrow> 'a list" where
  "to_do w = (case wr_phase w of
       Finished \<Rightarrow> []
     | Handling es True \<Rightarrow> es
     | Handling es False \<Rightarrow> es @ before_sentinel (wr_queue w)
     | Waiting \<Rightarrow> before_sentinel (wr_queue w))"

definition work :: "'a writer \<Rightarrow> nat" where
  "work w = (case wr_phase w of
       Finished \<Rightarrow> 0
     | Handling es True \<Rightarrow> 1
     | Handling es False \<Rightarrow> 2 * length (before_sentinel (wr_queue w)) + 2
     | Waiting \<Rightarrow> 2 * length (before_sentinel (wr_queue w)) + 1)"

definition by_consumer :: "'a action \<Rightarrow> bool" where
  "by_consumer a = (case a of Take \<Rightarrow> True | HandledOk \<Rightarrow> True | HandledError \<Rightarrow> True | _ \<Rightarrow> False)"

lemma before_sentinel_simps [simp]:
  "before_sentinel (Sentinel # q) = []" "before_sentinel (Entry e # q) = e # before_sentinel q"
  "before_sentinel (map Entry es @ q) = es @ before_sentinel q"
  "Sentinel \<in> set q \<Longrightarrow> before_sentinel (q @ q') = before_sentinel q"
  by (auto simp: before_sentinel_def takeWhile_append1) (induction es; simp)

lemma closing_step:
  assumes "closing w" "writer_step bs w a w'"
  shows "closing w'" "concat (wr_batches w') @ to_do w' = concat (wr_batches w) @ to_do w"
    "work w' + (if by_consumer a then 1 else 0) \<le> work w"
  using assms(2,1)
  by (induction rule: writer_step.induct)
    (auto simp: closing_def to_do_def work_def by_consumer_def submit_def dest!: gather_spec split: phase.splits bool.splits if_splits)

lemma closing_live:
  assumes "closing w"
  shows "wr_phase w = Finished \<or> (\<exists>a w'. by_consumer a \<and> writer_step bs w a w')"
proof (cases "wr_phase w")
  case Waiting
  then obtain i q where q: "wr_queue w = i # q" using assms by (cases "wr_queue w") (auto simp: closing_def)
  obtain es b q' where g: "gather (max 1 bs - 1) q = (es, b, q')" by (metis prod_cases3)
  have "\<exists>w'. writer_step bs w Take w'" 
    using writer_step.takes_sentinel [OF Waiting, of q] writer_step.takes_batch [OF Waiting _ g] q by (cases i) auto
  then show ?thesis by (auto simp: by_consumer_def split: action.splits)
next
  case (Handling es b)
  then have "\<exists>w'. writer_step bs w HandledOk w'" by (auto intro: writer_step.handled)
  then show ?thesis by (auto simp: by_consumer_def split: action.splits)
qed simp

lemma closing_run:
  "writer_run bs w acts w' \<Longrightarrow> closing w \<Longrightarrow> closing w' \<and> concat (wr_batches w') @ to_do w' = concat (wr_batches w) @ to_do w
     \<and> work w' + length (filter by_consumer acts) \<le> work w"
  by (induction rule: writer_run.induct) (auto dest: closing_step)

text \<open>
  Closing a writer ends, and only when everything that was accepted before it has been
  handled: from a state in which the sentinel is queued, whatever callers still submit and however
  the handling ends, the consumer can always take a step until it has returned; it takes at most two
  steps for a queued event and one more; and the batches handled by then are exactly those events, in
  order. What is submitted after the sentinel is never handled.
\<close>

theorem closing_drains:
  assumes "closing w" "writer_run bs w acts w'"
  shows "(wr_phase w' = Finished \<or> (\<exists>a w''. by_consumer a \<and> writer_step bs w' a w''))
    \<and> length (filter by_consumer acts) \<le> work w
    \<and> concat (wr_batches w') @ to_do w' = concat (wr_batches w) @ to_do w
    \<and> (to_do w' = [] \<or> wr_phase w' \<noteq> Finished)"
  using closing_live closing_run [OF assms(2,1)] by (auto simp: to_do_def)

text \<open>A writer that is closed with an event in the queue and one submitted too late.\<close>

definition sample_closing :: "string writer" where
  "sample_closing = \<lparr>wr_maxsize = 0, wr_queue = [Entry ''a'', Sentinel, Entry ''late''], wr_dropped = 0,
     wr_phase = Waiting, wr_accepted = [''a'', ''late''], wr_batches = []\<rparr>"

definition sample_closed :: "string writer" where
  "sample_closed = \<lparr>wr_maxsize = 0, wr_queue = [Entry ''late''], wr_dropped = 0,
     wr_phase = Finished, wr_accepted = [''a'', ''late''], wr_batches = [[''a'']]\<rparr>"

lemma sample_closing_run: "writer_run 5 sample_closing [Take, HandledOk] sample_closed"
proof -
  have "writer_step 5 sample_closing Take (sample_closing\<lparr>wr_queue := [Entry ''late''], wr_phase := Handling [''a''] True\<rparr>)"
    by (rule writer_step.takes_batch [where q = "[Sentinel, Entry ''late'']"]) (simp_all add: sample_closing_def numeral_eq_Suc)
  then have "writer_run 5 sample_closing ([] @ [Take]) (sample_closing\<lparr>wr_queue := [Entry ''late''], wr_phase := Handling [''a''] True\<rparr>)"
    by (blast intro: writer_run.intros)
  from writer_run.one_step [OF this writer_step.handled [where es = "[''a'']" and stopping = True and a = HandledOk]]
  show ?thesis by (simp add: sample_closing_def sample_closed_def)
qed

theorem closing_drains_witness:
  "work sample_closing = 3 \<and> length (filter by_consumer [Take, HandledOk :: string action]) \<le> work sample_closing
   \<and> concat (wr_batches sample_closed) @ to_do sample_closed = concat (wr_batches sample_closing) @ to_do sample_closing"
proof -
  have "closing sample_closing" "work sample_closing = 3"
    by (simp_all add: closing_def work_def sample_closing_def)
  then show ?thesis using closing_drains [OF _ sample_closing_run] by simp
qed

end
