(* ===== verification/RateLimit.thy ===== *)
theory RateLimit
  imports Errors
begin

text \<open>
  The token bucket of the Telegram writer (\<open>modules/telemetry/writers/rate_limit.py\<close>): when an
  acquisition returns, and how many can be granted in a span of time. Times, rates and tokens are
  rational numbers where the code has floats. The lock makes acquisitions follow one another.
\<close>

section \<open>The bucket\<close>

record bucket =
  bk_rate :: rat
  bk_capacity :: rat
  bk_tokens :: rat
  bk_updated :: rat

definition new_bucket :: "rat \<Rightarrow> rat option \<Rightarrow> rat \<Rightarrow> bucket" where
  "new_bucket rate capacity now = (let c = (case capacity of None \<Rightarrow> rate | Some c \<Rightarrow> c)
     in \<lparr>bk_rate = rate, bk_capacity = c, bk_tokens = c, bk_updated = now\<rparr>)"

definition refill :: "rat \<Rightarrow> bucket \<Rightarrow> bucket" where
  "refill now b = b\<lparr>bk_tokens := min (bk_capacity b) (bk_tokens b + (now - bk_updated b) * bk_rate b), bk_updated := now\<rparr>"

text \<open>
  \<open>acquire\<close>: \<open>wake t\<close> is the time of the loop when a sleep until \<open>t\<close> is over. The answer is the outcome,
  the bucket and the time; a loop that never ends has none.
\<close>

partial_function (option) acquire ::
  "(rat \<Rightarrow> rat) \<Rightarrow> rat \<Rightarrow> rat \<Rightarrow> bucket \<Rightarrow> ((exn, unit) outcome \<times> bucket \<times> rat) option" where
  "acquire wake tokens now b =
     (let b' = refill now b
      in if tokens \<le> bk_tokens b' then Some (Ret (), b'\<lparr>bk_tokens := bk_tokens b' - tokens\<rparr>, now)
         else if bk_rate b' = 0 then Some (Raise (OtherError ''ZeroDivisionError''), b', now)
         else acquire wake tokens (wake (now + (tokens - bk_tokens b') / bk_rate b')) b')"

section \<open>When an acquisition returns\<close>

text \<open>Sleeps last at least as long as asked.\<close>

definition wakes_late :: "(rat \<Rightarrow> rat) \<Rightarrow> bool" where
  "wakes_late wake \<longleftrightarrow> (\<forall>t. t \<le> wake t)"

lemma refill_simps [simp]:
  "bk_rate (refill now b) = bk_rate b" "bk_capacity (refill now b) = bk_capacity b" "bk_updated (refill now b) = now"
  "bk_tokens (refill now b) = min (bk_capacity b) (bk_tokens b + (now - bk_updated b) * bk_rate b)"
  by (simp_all add: refill_def)

lemma acquire_never:
  assumes "acquire wake tokens now b = Some r"
  shows "bk_capacity b < tokens \<longrightarrow> bk_rate b = 0"
proof (rule acquire.raw_induct [where P = "\<lambda>_ tokens _ b _. bk_capacity b < tokens \<longrightarrow> bk_rate b = 0", OF _ assms], rule impI)
  fix self and wake :: "rat \<Rightarrow> rat" and tokens now b r
  assume ih: "\<And>wake tokens now b r. self wake tokens now b = Some r \<Longrightarrow> bk_capacity b < tokens \<longrightarrow> bk_rate b = 0"
    and body: "(let b' = refill now b
      in if tokens \<le> bk_tokens b' then Some (Ret (), b'\<lparr>bk_tokens := bk_tokens b' - tokens\<rparr>, now)
         else if bk_rate b' = 0 then Some (Raise (OtherError ''ZeroDivisionError''), b', now)
         else self wake tokens (wake (now + (tokens - bk_tokens b') / bk_rate b')) b') = Some r"
    and short: "bk_capacity b < tokens"
  let ?b = "refill now b"
  have few: "\<not> tokens \<le> bk_tokens ?b" using short by simp
  show "bk_rate b = 0"
  proof (rule ccontr)
    assume "bk_rate b \<noteq> 0"
    then have "self wake tokens (wake (now + (tokens - bk_tokens ?b) / bk_rate ?b)) ?b = Some r"
      using body few by (simp only: Let_def refill_simps if_False)
    from ih [OF this] show False using short \<open>bk_rate b \<noteq> 0\<close> by simp
  qed
qed

lemma acquire_returns:
  assumes "0 < bk_rate b" "tokens \<le> bk_capacity b" "wakes_late wake"
  shows "\<exists>b' t. acquire wake tokens now b = Some (Ret (), b', t) \<and> now \<le> t"
proof (cases "tokens \<le> bk_tokens (refill now b)")
  case True
  then show ?thesis by (subst acquire.simps) (auto simp: Let_def)
next
  case False
  let ?b = "refill now b"
  let ?u = "now + (tokens - bk_tokens ?b) / bk_rate b"
  let ?t = "wake ?u"
  have u: "?u \<le> ?t" using assms(3) by (simp add: wakes_late_def)
  have "tokens - bk_tokens ?b = (?u - now) * bk_rate b" using assms(1) by simp
  also have "\<dots> \<le> (?t - now) * bk_rate b" using u assms(1) by (intro mult_right_mono) auto
  finally have "tokens \<le> bk_tokens (refill ?t ?b)" using assms(2) by simp
  then have "acquire wake tokens ?t ?b = Some (Ret (), (refill ?t ?b)\<lparr>bk_tokens := bk_tokens (refill ?t ?b) - tokens\<rparr>, ?t)"
    by (subst acquire.simps) (simp add: Let_def)
  moreover have "now \<le> ?t"
  proof -
    have "0 < tokens - bk_tokens ?b" using False by (simp only: not_le diff_gt_0_iff_gt)
    then have "0 < (tokens - bk_tokens ?b) / bk_rate b" using assms(1) by (rule divide_pos_pos)
    then show ?thesis using u by linarith
  qed
  moreover have "acquire wake tokens now b = acquire wake tokens ?t ?b"
    using False assms(1) by (subst acquire.simps) (simp only: Let_def refill_simps if_False less_imp_neq [THEN not_sym])
  ultimately show ?thesis by simp
qed

text \<open>
  Claim C35. An acquisition of a bucket with a positive rate returns exactly when the bucket can ever
  hold that many tokens. In particular a bucket made with a rate below one per second, whose capacity
  is the rate, never grants a token: the sender waits for ever.
\<close>

theorem acquire_returns_iff:
  assumes "0 < bk_rate b" "wakes_late wake"
  shows "(\<exists>b' t. acquire wake tokens now b = Some (Ret (), b', t)) = (tokens \<le> bk_capacity b)
    \<and> (acquire wake tokens now b = None) = (bk_capacity b < tokens)"
proof (cases "tokens \<le> bk_capacity b")
  case True
  then show ?thesis using acquire_returns [OF assms(1) True assms(2)] by (metis not_le option.distinct(1))
next
  case False
  then have "acquire wake tokens now b = None" using acquire_never assms(1) by (metis less_irrefl not_le not_None_eq)
  then show ?thesis using False by simp
qed

theorem acquire_returns_iff_witness:
  "acquire (\<lambda>t. t) 1 10 (new_bucket (1/2) None 0) = None
   \<and> (\<exists>b' t. acquire (\<lambda>t. t + 1/10) 1 10 (new_bucket 25 None 0) = Some (Ret (), b', t))"
  using acquire_returns_iff [of "new_bucket (1/2) None 0" "\<lambda>t. t" 1 10]
    acquire_returns_iff [of "new_bucket 25 None 0" "\<lambda>t. t + 1/10" 1 10]
  by (simp add: new_bucket_def wakes_late_def Let_def)

section \<open>What the bucket grants\<close>

text \<open>The bucket between acquisitions, and what one of \<open>n\<close> tokens does to it.\<close>

definition bucket_ok :: "rat \<Rightarrow> bucket \<Rightarrow> bool" where
  "bucket_ok now b \<longleftrightarrow> 0 \<le> bk_rate b \<and> 0 \<le> bk_tokens b \<and> bk_updated b \<le> now"

definition spent :: "rat \<Rightarrow> bucket \<Rightarrow> rat \<Rightarrow> bucket \<Rightarrow> bool" where
  "spent n b t b' \<longleftrightarrow> bk_rate b' = bk_rate b \<and> bk_capacity b' = bk_capacity b \<and> bk_updated b' = t
     \<and> 0 \<le> bk_tokens b' \<and> bk_tokens b' + n \<le> bk_capacity b
     \<and> bk_tokens b' + n \<le> bk_tokens b + (t - bk_updated b) * bk_rate b"

definition grants :: "(rat \<Rightarrow> rat) \<Rightarrow> rat \<Rightarrow> rat \<Rightarrow> bucket \<Rightarrow> (exn, unit) outcome \<times> bucket \<times> rat \<Rightarrow> bool" where
  "grants wake n now b r = (case r of (Ret _, b', t) \<Rightarrow> now \<le> t \<and> spent n b t b' | _ \<Rightarrow> True)"

lemma acquire_grants:
  assumes "acquire wake n now b = Some r"
  shows "wakes_late wake \<longrightarrow> 0 \<le> bk_rate b \<longrightarrow> bk_updated b \<le> now \<longrightarrow> grants wake n now b r"
proof (rule acquire.raw_induct [where P = "\<lambda>wake n now b r. wakes_late wake \<longrightarrow> 0 \<le> bk_rate b \<longrightarrow> bk_updated b \<le> now
    \<longrightarrow> grants wake n now b r", OF _ assms], intro impI)
  fix self and wake :: "rat \<Rightarrow> rat" and n now b r
  assume ih: "\<And>wake n now b r. self wake n now b = Some r \<Longrightarrow> wakes_late wake \<longrightarrow> 0 \<le> bk_rate b
      \<longrightarrow> bk_updated b \<le> now \<longrightarrow> grants wake n now b r"
    and body: "(let b' = refill now b
      in if n \<le> bk_tokens b' then Some (Ret (), b'\<lparr>bk_tokens := bk_tokens b' - n\<rparr>, now)
         else if bk_rate b' = 0 then Some (Raise (OtherError ''ZeroDivisionError''), b', now)
         else self wake n (wake (now + (n - bk_tokens b') / bk_rate b')) b') = Some r"
    and late: "wakes_late wake" and rate: "0 \<le> bk_rate b" and upd: "bk_updated b \<le> now"
  let ?b = "refill now b"
  let ?u = "now + (n - bk_tokens ?b) / bk_rate b"
  consider "n \<le> bk_tokens ?b" | "\<not> n \<le> bk_tokens ?b" "bk_rate b = 0" | "\<not> n \<le> bk_tokens ?b" "bk_rate b \<noteq> 0" by blast
  then show "grants wake n now b r"
  proof cases
    case 1
    then have "r = (Ret (), ?b\<lparr>bk_tokens := bk_tokens ?b - n\<rparr>, now)" using body by (simp only: Let_def if_True option.inject)
    then show ?thesis using 1 by (simp add: grants_def spent_def)
  next
    case 2
    have "bk_rate ?b = 0" using 2 by simp
    then have "r = (Raise (OtherError ''ZeroDivisionError''), ?b, now)" using body 2(1)
      by (simp only: Let_def if_False if_True simp_thms option.inject)
    then show ?thesis by (simp add: grants_def)
  next
    case 3
    then have s: "self wake n (wake ?u) ?b = Some r" using body by (simp only: Let_def if_False refill_simps)
    have "0 < n - bk_tokens ?b" using 3(1) by (simp only: not_le diff_gt_0_iff_gt)
    then have "now \<le> ?u" using rate by (simp only: less_eq_rat_def) auto
    then have w: "now \<le> wake ?u" using late by (meson order_trans wakes_late_def)
    then have g: "grants wake n (wake ?u) ?b r" using ih [OF s] late rate by simp
    show ?thesis
    proof (cases r)
      case (fields o' b' t)
      then show ?thesis using g w by (cases o') (auto simp: grants_def spent_def left_diff_distrib)
    qed
  qed
qed

text \<open>
  Acquisitions of one token, asked for at the times given and served one after the other, as the lock
  makes them; \<open>None\<close> when one does not return. The answer is the times at which they are granted.
\<close>

fun serve :: "(rat \<Rightarrow> rat) \<Rightarrow> rat \<Rightarrow> bucket \<Rightarrow> rat list \<Rightarrow> rat list option" where
  "serve wake now b [] = Some []"
| "serve wake now b (c # cs) =
     (case acquire wake 1 (max now c) b of
        Some (Ret _, b', t) \<Rightarrow> map_option (Cons t) (serve wake t b' cs)
      | _ \<Rightarrow> None)"

definition granted_between :: "rat \<Rightarrow> rat \<Rightarrow> rat list \<Rightarrow> rat" where
  "granted_between s e ts = of_nat (length (filter (\<lambda>t. s \<le> t \<and> t \<le> e) ts))"

lemma granted_between_simps [simp]:
  "granted_between s e [] = 0"
  "granted_between s e (t # ts) = (if s \<le> t \<and> t \<le> e then 1 else 0) + granted_between s e ts"
  by (simp_all add: granted_between_def)

lemma serve_Cons:
  assumes "serve wake now b (c # cs) = Some ts" "wakes_late wake" "0 \<le> bk_rate b" "bk_updated b \<le> now"
  obtains b' t ts' where "ts = t # ts'" "serve wake t b' cs = Some ts'" "now \<le> t" "spent 1 b t b'"
proof -
  obtain u b' t ts' where a: "acquire wake 1 (max now c) b = Some (Ret u, b', t)"
    and rest: "serve wake t b' cs = Some ts'" "ts = t # ts'"
    using assms(1) by (auto split: option.splits outcome.splits)
  have "grants wake 1 (max now c) b (Ret u, b', t)"
    using acquire_grants [OF a] assms(2-4) by simp
  then show ?thesis using that rest by (simp add: grants_def)
qed

lemma serve_times:
  assumes "serve wake now b cs = Some ts" "wakes_late wake" "0 \<le> bk_rate b" "bk_updated b \<le> now" "e < now"
  shows "granted_between s e ts = 0"
  using assms
proof (induction cs arbitrary: now b ts)
  case (Cons c cs)
  obtain b' t ts' where r: "ts = t # ts'" "serve wake t b' cs = Some ts'" "now \<le> t" "spent 1 b t b'"
    using serve_Cons [OF Cons.prems(1-4)] by blast
  then show ?case using Cons.IH [OF r(2) Cons.prems(2)] Cons.prems(3,5) by (simp add: spent_def)
qed simp

lemma granted_until:
  assumes "serve wake now b cs = Some ts" "wakes_late wake" "0 \<le> bk_rate b" "bk_updated b \<le> now" "0 \<le> bk_tokens b" "now \<le> e"
  shows "granted_between s e ts \<le> bk_tokens b + (e - bk_updated b) * bk_rate b"
  using assms
proof (induction cs arbitrary: now b ts)
  case Nil
  then show ?case by (simp add: mult_nonneg_nonneg)
next
  case (Cons c cs)
  obtain b' t ts' where r: "ts = t # ts'" "serve wake t b' cs = Some ts'" "now \<le> t" "spent 1 b t b'"
    using serve_Cons [OF Cons.prems(1-4)] by blast
  have b': "0 \<le> bk_rate b'" "bk_updated b' \<le> t" "0 \<le> bk_tokens b'" "bk_rate b' = bk_rate b" "bk_updated b' = t"
    using r(4) Cons.prems(3) by (auto simp: spent_def)
  show ?case
  proof (cases "t \<le> e")
    case True
    then have "granted_between s e ts' \<le> bk_tokens b' + (e - t) * bk_rate b"
      using Cons.IH [OF r(2) Cons.prems(2) b'(1-3)] b'(4,5) by simp
    moreover have "bk_tokens b' + 1 \<le> bk_tokens b + (t - bk_updated b) * bk_rate b" using r(4) by (simp add: spent_def)
    ultimately show ?thesis using r(1) by (simp add: left_diff_distrib)
  next
    case False
    then have "granted_between s e ts = 0" using r(1) serve_times [OF r(2) Cons.prems(2) b'(1,2)] by simp
    then show ?thesis using Cons.prems by (simp add: mult_nonneg_nonneg)
  qed
qed

lemma granted_window:
  assumes "serve wake now b cs = Some ts" "wakes_late wake" "0 \<le> bk_rate b" "bk_updated b \<le> now" "0 \<le> bk_capacity b" "s \<le> e"
  shows "granted_between s e ts \<le> bk_capacity b + (e - s) * bk_rate b"
  using assms
proof (induction cs arbitrary: now b ts)
  case Nil
  then show ?case by simp
next
  case (Cons c cs)
  obtain b' t ts' where r: "ts = t # ts'" "serve wake t b' cs = Some ts'" "now \<le> t" "spent 1 b t b'"
    using serve_Cons [OF Cons.prems(1-4)] by blast
  have b': "0 \<le> bk_rate b'" "bk_updated b' \<le> t" "0 \<le> bk_capacity b'" "0 \<le> bk_tokens b'"
    "bk_rate b' = bk_rate b" "bk_updated b' = t" "bk_capacity b' = bk_capacity b" "bk_tokens b' + 1 \<le> bk_capacity b"
    using r(4) Cons.prems(3,5) by (auto simp: spent_def)
  consider "t < s" | "s \<le> t" "t \<le> e" | "e < t" by linarith
  then show ?case
  proof cases
    case 1
    then show ?thesis using Cons.IH [OF r(2) Cons.prems(2) b'(1-3)] Cons.prems(6) r(1) b'(5,7) by simp
  next
    case 2
    have "granted_between s e ts' \<le> bk_tokens b' + (e - t) * bk_rate b"
      using granted_until [OF r(2) Cons.prems(2) b'(1,2,4) 2(2)] b'(5,6) by simp
    moreover have "(e - t) * bk_rate b \<le> (e - s) * bk_rate b" using 2 Cons.prems(3) by (intro mult_right_mono) auto
    ultimately show ?thesis using r(1) 2 b'(8) by simp
  next
    case 3
    then have "granted_between s e ts = 0" using r(1) serve_times [OF r(2) Cons.prems(2) b'(1,2)] by simp
    then show ?thesis using Cons.prems by (simp add: mult_nonneg_nonneg)
  qed
qed

text \<open>
  Claim C32. The limit holds over every span of time: of the acquisitions served by a bucket, those
  granted between two moments are at most its capacity and the rate times the length of the span,
  however the requests come and however late sleeps end.
\<close>

theorem bucket_limits:
  assumes "serve wake now (new_bucket rate capacity now) cs = Some ts" "wakes_late wake" "0 < rate" "s \<le> e"
  shows "granted_between s e ts \<le> max 0 (bk_capacity (new_bucket rate capacity now)) + (e - s) * rate"
proof (cases "0 \<le> bk_capacity (new_bucket rate capacity now)")
  case True
  then show ?thesis using granted_window [OF assms(1,2)] assms(3,4) by (simp add: new_bucket_def Let_def)
next
  case False
  let ?b = "new_bucket rate capacity now"
  have "acquire wake 1 t ?b = None" for t
    using acquire_never [of wake 1 t ?b] False assms(3) by (cases "acquire wake 1 t ?b") (auto simp: new_bucket_def Let_def)
  then have "ts = []" using assms(1) by (cases cs) simp_all
  then show ?thesis using assms(3,4) by (simp add: mult_nonneg_nonneg)
qed

text \<open>Three requests at once to a bucket of two per second: two at once, the third half a second later.\<close>

lemma sample_serve: "serve (\<lambda>t. t) 0 (new_bucket 2 None 0) [0, 0, 0] = Some [0, 0, 1/2]"
proof -
  let ?b = "new_bucket 2 None 0"
  have a1: "acquire (\<lambda>t. t) 1 0 ?b = Some (Ret (), ?b\<lparr>bk_tokens := 1\<rparr>, 0)"
    by (subst acquire.simps) (simp add: new_bucket_def refill_def Let_def)
  have a2: "acquire (\<lambda>t. t) 1 0 (?b\<lparr>bk_tokens := 1\<rparr>) = Some (Ret (), ?b\<lparr>bk_tokens := 0\<rparr>, 0)"
    by (subst acquire.simps) (simp add: new_bucket_def refill_def Let_def)
  have a3: "acquire (\<lambda>t. t) 1 0 (?b\<lparr>bk_tokens := 0\<rparr>) = Some (Ret (), ?b\<lparr>bk_tokens := 0, bk_updated := 1/2\<rparr>, 1/2)"
    by (subst acquire.simps, subst acquire.simps) (simp add: new_bucket_def refill_def Let_def)
  show ?thesis by (simp add: a1 a2 a3)
qed

theorem bucket_limits_witness: "granted_between 0 (1/4) [0, 0, 1/2] \<le> 2 + (1/4 - 0) * 2"
  using bucket_limits [OF sample_serve, of 0 "1/4"] by (simp add: wakes_late_def new_bucket_def Let_def)

end
