(* ===== verification/Destinations.thy ===== *)
theory Destinations
  imports Writers RateLimit
begin

text \<open>
  The two destinations of telemetry (\<open>writers/telegram.py\<close>, \<open>writers/postgres.py\<close>): which chat a
  message goes to, its text, how often a send is tried; which rows a batch becomes and what a failing
  statement leaves.
\<close>

definition the_default :: "'a \<Rightarrow> 'a option \<Rightarrow> 'a" where
  "the_default d x = (case x of None \<Rightarrow> d | Some a \<Rightarrow> a)"

section \<open>Telegram destinations\<close>

record destination =
  ds_chat_id :: string
  ds_thread_id :: "int option"

definition destination_key :: "destination \<Rightarrow> string" where
  "destination_key d = (case ds_thread_id d of None \<Rightarrow> ds_chat_id d | Some t \<Rightarrow> ds_chat_id d @ ''#'' @ show_int t)"

text \<open>
  \<open>int(s)\<close> of a text of digits after any number of minus signs: more than one is a \<open>ValueError\<close>.
  The text of the exception is not modelled.
\<close>

definition int_of_thread :: "string \<Rightarrow> (exn, int) outcome" where
  "int_of_thread s = (let t = py_strip s; ds = dropWhile (\<lambda>c. c = CHR ''-'') t; n = int (read_digits ds)
     in case length t - length ds of 0 \<Rightarrow> Ret n | Suc 0 \<Rightarrow> Ret (- n)
        | _ \<Rightarrow> Raise (ValueError ''invalid literal for int() with base 10''))"

definition parse_destination :: "string \<Rightarrow> (exn, destination) outcome" where
  "parse_destination text = (let raw = py_strip text; parts = py_split (CHR '':'') raw;
       chat = py_join '':'' (butlast parts); thread = last parts;
       ds = dropWhile (\<lambda>c. c = CHR ''-'') (py_strip thread)
     in if CHR '':'' \<in> set raw \<and> chat \<noteq> [] \<and> ds \<noteq> [] \<and> list_all py_digit ds
        then oc_bind (int_of_thread thread) (\<lambda>n. Ret \<lparr>ds_chat_id = chat, ds_thread_id = Some n\<rparr>)
        else Ret \<lparr>ds_chat_id = raw, ds_thread_id = None\<rparr>)"

text \<open>One pair of a map of routes, \<open>None\<close> where it is skipped; \<open>partition\<close> splits at the first \<open>=\<close>.\<close>

definition parse_route :: "string \<Rightarrow> (string \<times> string) option" where
  "parse_route text = (let pair = py_strip text; key = takeWhile (\<lambda>c. c \<noteq> CHR ''='') pair;
       val = tl (dropWhile (\<lambda>c. c \<noteq> CHR ''='') pair)
     in if CHR ''='' \<notin> set pair then None
        else if py_strip key \<noteq> [] \<and> py_strip val \<noteq> [] then Some (py_strip key, val) else None)"

definition parse_destination_map :: "string \<Rightarrow> (exn, string \<rightharpoonup> destination) outcome" where
  "parse_destination_map raw =
     oc_bind (oc_mapM (\<lambda>(k, v). oc_bind (parse_destination v) (\<lambda>d. Ret (k, d)))
        (List.map_filter parse_route (py_split (CHR '','') raw)))
       (\<lambda>routes. Ret (map_of (rev routes)))"

section \<open>The Telegram writer\<close>

record telegram =
  tw_default :: destination
  tw_system :: destination
  tw_service_routes :: "string \<rightharpoonup> destination"
  tw_level_routes :: "string \<rightharpoonup> destination"
  tw_global_bucket :: bucket
  tw_per_chat_rate :: rat
  tw_dest_buckets :: "string \<rightharpoonup> bucket"

text \<open>The writer that \<open>build_composer\<close> makes of the settings, at a time of the loop.\<close>

definition telegram_writer :: "telegram_config \<Rightarrow> rat \<Rightarrow> (exn, telegram) outcome" where
  "telegram_writer c now =
     oc_bind (parse_destination (the_default [] (tg_chat_id c))) (\<lambda>dflt.
     oc_bind (if filled (tg_system_chat_id c)
         then oc_bind (parse_destination (the_default [] (tg_system_chat_id c))) (\<lambda>d. Ret (Some d)) else Ret None) (\<lambda>sys.
     oc_bind (parse_destination_map (tg_service_routes c)) (\<lambda>services.
     oc_bind (parse_destination_map (tg_level_routes c)) (\<lambda>levels.
       Ret \<lparr>tw_default = dflt, tw_system = the_default dflt sys, tw_service_routes = services, tw_level_routes = levels,
            tw_global_bucket = new_bucket (tg_global_rate c) None now, tw_per_chat_rate = tg_per_chat_rate c,
            tw_dest_buckets = Map.empty\<rparr>))))"

definition dest_route :: "telegram \<Rightarrow> event_rec \<Rightarrow> destination" where
  "dest_route w e = (if te_kind e = KIND_SYSTEM then tw_system w
     else case tw_service_routes w (te_service e) of Some d \<Rightarrow> d
       | None \<Rightarrow> (case tw_level_routes w (te_level e) of Some d \<Rightarrow> d | None \<Rightarrow> tw_default w))"

text \<open>\<open>_bucket\<close>: the bucket of a destination, made when it is first used.\<close>

definition dest_bucket :: "rat \<Rightarrow> destination \<Rightarrow> telegram \<Rightarrow> bucket \<times> telegram" where
  "dest_bucket now d w = (case tw_dest_buckets w (destination_key d) of
       Some b \<Rightarrow> (b, w)
     | None \<Rightarrow> (let b = new_bucket (tw_per_chat_rate w) None now
         in (b, w\<lparr>tw_dest_buckets := (tw_dest_buckets w)(destination_key d \<mapsto> b)\<rparr>)))"

text \<open>
  \<open>_format\<close>. \<open>sy_emoji\<close> is \<open>_LEVEL_EMOJI\<close> with its fallback, \<open>sy_dot\<close> and \<open>sy_arrow\<close> the separators between
  parts: characters outside the set of \<open>char\<close>. \<open>whole\<close> is the format \<open>.0f\<close>, rounding half to even.
\<close>

record symbols =
  sy_emoji :: "string \<Rightarrow> string"
  sy_dot :: string
  sy_arrow :: string

definition tg_escape_char :: "char \<Rightarrow> string" where
  "tg_escape_char c = (if c = CHR ''&'' then ''&amp;'' else if c = CHR ''<'' then ''&lt;''
     else if c = CHR ''>'' then ''&gt;'' else [c])"

definition tg_escape :: "string \<Rightarrow> string" where
  "tg_escape s = concat (map tg_escape_char s)"

definition whole :: "rat \<Rightarrow> string" where
  "whole q = (let n = \<lfloor>q\<rfloor>; r = q - of_int n
     in show_int (if r < 1/2 then n else if 1/2 < r then n + 1 else if even n then n else n + 1))"

definition max_text :: nat where "max_text = 3800"

definition newline_text :: string where "newline_text = [CHR 0x0A]"

definition format_event :: "symbols \<Rightarrow> event_rec \<Rightarrow> string" where
  "format_event S e = (let emoji = sy_emoji S (te_level e) in
     if te_kind e = KIND_SYSTEM
     then take max_text (emoji @ '' <b>SYSTEM</b>'' @ newline_text @ tg_escape (the_default [] (te_message e)))
     else (let
         head = emoji @ '' <b>'' @ te_level e @ ''</b> '' @ sy_dot S @ '' <code>'' @ te_service e @ ''</code>'';
         status = (case te_status_code e of Some s \<Rightarrow> if s \<noteq> 0 then '' '' @ sy_arrow S @ '' '' @ show_int s else [] | None \<Rightarrow> []);
         request = (if filled (te_method e) \<or> filled (te_url e)
           then [py_strip (the_default [] (te_method e) @ '' '' @ tg_escape (the_default [] (te_url e)) @ status)] else []);
         meta = (case te_exec_ms e of Some ms \<Rightarrow> [whole ms @ ''ms''] | None \<Rightarrow> [])
           @ (case te_user_id e of Some u \<Rightarrow> [''user='' @ u] | None \<Rightarrow> [])
           @ (if filled (te_ip e) then [''ip='' @ the_default [] (te_ip e)] else []);
         trace = (if filled (te_trace_id e) then [''trace_id=<code>'' @ the_default [] (te_trace_id e) @ ''</code>''] else []);
         message = (if filled (te_message e) then [tg_escape (the_default [] (te_message e))] else [])
       in take max_text (py_join newline_text ([head] @ request
            @ (if meta = [] then [] else [py_join ('' '' @ sy_dot S @ '' '') meta]) @ trace @ message))))"

text \<open>
  \<open>_send\<close>, as what it does: it takes a token of each bucket, posts, and after an answer of 429 sleeps
  and starts over, twice at most. \<open>answers k\<close> is what the \<open>k\<close>-th post gives: a status with the
  \<open>retry_after\<close> of the body where it has one, or \<open>None\<close> for a failed connection.
\<close>

datatype effect = TakeGlobal | TakeDest string | Post destination string | Sleep rat

fun send :: "nat \<Rightarrow> (nat \<Rightarrow> (nat \<times> rat option) option) \<Rightarrow> nat \<Rightarrow> destination \<Rightarrow> string \<Rightarrow> effect list" where
  "send retries answers k d txt = [TakeGlobal, TakeDest (destination_key d), Post d txt] @
     (case answers k of
        Some (status, after) \<Rightarrow>
          if status = 429 \<and> 0 < retries
          then Sleep (the_default 1 after) # send (retries - 1) answers (k + 1) d txt
          else []
      | None \<Rightarrow> [])"

declare send.simps [simp del]

text \<open>\<open>_handle_batch\<close>: the events one after the other; the answers to the posts of the \<open>i\<close>-th event are \<open>answers i\<close>.\<close>

definition telegram_batch :: "symbols \<Rightarrow> telegram \<Rightarrow> (nat \<Rightarrow> nat \<Rightarrow> (nat \<times> rat option) option) \<Rightarrow> event_rec list \<Rightarrow> effect list" where
  "telegram_batch S w answers batch =
     concat (map (\<lambda>(i, e). send 2 (answers i) 0 (dest_route w e) (format_event S e)) (enumerate 0 batch))"

section \<open>PostgreSQL (writers/postgres.py)\<close>

text \<open>The values of one INSERT; \<open>epoch\<close> is also given to \<open>to_timestamp\<close>. \<open>enc\<close> is the JSON encoder.\<close>

record log_row =
  lr_trace_id :: "string option"
  lr_kind :: string
  lr_service :: string
  lr_level :: string
  lr_epoch :: rat
  lr_exec_ms :: "rat option"
  lr_user_id :: "string option"
  lr_ip :: "string option"
  lr_method :: "string option"
  lr_url :: "string option"
  lr_url_params :: "string option"
  lr_data :: "string option"
  lr_status_code :: "int option"
  lr_user_agent :: "string option"
  lr_message :: "string option"

definition json_or_none :: "(pyval \<Rightarrow> string) \<Rightarrow> pyval option \<Rightarrow> string option" where
  "json_or_none enc v = (case v of None \<Rightarrow> None | Some VNone \<Rightarrow> None | Some v \<Rightarrow> Some (enc v))"

definition to_row :: "(pyval \<Rightarrow> string) \<Rightarrow> event_rec \<Rightarrow> log_row" where
  "to_row enc e = \<lparr>lr_trace_id = te_trace_id e, lr_kind = te_kind e, lr_service = te_service e, lr_level = te_level e,
     lr_epoch = te_epoch e, lr_exec_ms = te_exec_ms e, lr_user_id = te_user_id e, lr_ip = te_ip e,
     lr_method = te_method e, lr_url = te_url e, lr_url_params = json_or_none enc (te_url_params e),
     lr_data = json_or_none enc (te_data e), lr_status_code = te_status_code e,
     lr_user_agent = te_user_agent e, lr_message = te_message e\<rparr>"

text \<open>
  The two tables, the next generated id, and the number of statements sent. Which statement fails, and
  how, is the parameter \<open>fails\<close>; \<open>executemany\<close> stores all its rows or none, as its documentation says.
\<close>

record log_db =
  db_logs :: "(nat \<times> log_row) list"
  db_tracebacks :: "(nat \<times> string) list"
  db_next :: nat
  db_statements :: nat

type_synonym 'a db_prog = "(log_db, exn, 'a) prog"

definition statement :: "(nat \<Rightarrow> exn option) \<Rightarrow> (log_db \<Rightarrow> 'a \<times> log_db) \<Rightarrow> 'a db_prog" where
  "statement fails f w = (let w' = w\<lparr>db_statements := db_statements w + 1\<rparr> in
     case fails (db_statements w) of Some e \<Rightarrow> (Raise e, w') | None \<Rightarrow> (case f w' of (a, w'') \<Rightarrow> (Ret a, w'')))"

definition insert_log :: "log_row \<Rightarrow> log_db \<Rightarrow> nat \<times> log_db" where
  "insert_log r w = (db_next w, w\<lparr>db_logs := db_logs w @ [(db_next w, r)], db_next := db_next w + 1\<rparr>)"

fun insert_rows :: "log_row list \<Rightarrow> log_db \<Rightarrow> unit \<times> log_db" where
  "insert_rows [] w = ((), w)"
| "insert_rows (r # rs) w = insert_rows rs (snd (insert_log r w))"

definition insert_traceback :: "nat \<Rightarrow> string \<Rightarrow> log_db \<Rightarrow> unit \<times> log_db" where
  "insert_traceback i t w = ((), w\<lparr>db_tracebacks := db_tracebacks w @ [(i, t)]\<rparr>)"

text \<open>\<open>conn.transaction()\<close>: a commit at the end, a rollback of the tables on any exception.\<close>

definition db_transaction :: "(nat \<Rightarrow> exn option) \<Rightarrow> 'a db_prog \<Rightarrow> 'a db_prog" where
  "db_transaction fails body w =
     (case py_bind body (\<lambda>a. py_bind (statement fails (Pair ())) (\<lambda>_. py_ret a)) w of
        (Ret a, w') \<Rightarrow> (Ret a, w')
      | (Raise e, w') \<Rightarrow> (Raise e, w'\<lparr>db_logs := db_logs w, db_tracebacks := db_tracebacks w\<rparr>))"

definition has_traceback :: "event_rec \<Rightarrow> bool" where
  "has_traceback e = filled (te_traceback e)"

definition store_with_traceback :: "(nat \<Rightarrow> exn option) \<Rightarrow> (pyval \<Rightarrow> string) \<Rightarrow> event_rec \<Rightarrow> unit db_prog" where
  "store_with_traceback fails enc e = db_transaction fails
     (py_bind (statement fails (insert_log (to_row enc e))) (\<lambda>log_id.
       statement fails (insert_traceback log_id (the_default [] (te_traceback e)))))"

definition postgres_batch :: "(nat \<Rightarrow> exn option) \<Rightarrow> (pyval \<Rightarrow> string) \<Rightarrow> event_rec list \<Rightarrow> unit db_prog" where
  "postgres_batch fails enc batch =
     (let plain_rows = map (to_row enc) (filter (\<lambda>e. \<not> has_traceback e) batch);
          with_traceback = filter has_traceback batch
      in py_bind (if plain_rows \<noteq> [] then statement fails (insert_rows plain_rows) else py_ret ()) (\<lambda>_.
         py_for with_traceback (store_with_traceback fails enc)))"

end
