(* ===== verification/DestinationFlows.thy ===== *)
theory DestinationFlows
  imports Destinations "HOL-Library.Multiset"
begin

text \<open>
  What the two destinations guarantee: how often and at what price a Telegram message is tried, that
  a destination read from its text is the one written, and that a stored event has its traceback
  beside it whatever statement fails.
\<close>

section \<open>Telegram\<close>

definition busy :: "(nat \<Rightarrow> (nat \<times> rat option) option) \<Rightarrow> nat \<Rightarrow> bool" where
  "busy answers k = (case answers k of Some (status, _) \<Rightarrow> status = 429 | None \<Rightarrow> False)"

definition pause_after :: "(nat \<Rightarrow> (nat \<times> rat option) option) \<Rightarrow> nat \<Rightarrow> rat" where
  "pause_after answers k = (case answers k of Some (_, after) \<Rightarrow> the_default 1 after | None \<Rightarrow> 1)"

definition attempt :: "destination \<Rightarrow> string \<Rightarrow> effect list" where
  "attempt d msg = [TakeGlobal, TakeDest (destination_key d), Post d msg]"

lemma send_attempts:
  "send r answers k d msg =
     concat (map (\<lambda>i. attempt d msg @ [Sleep (pause_after answers i)]) (takeWhile (busy answers) [k..<k + r])) @ attempt d msg"
proof (induction r arbitrary: k)
  case 0
  then show ?case by (subst send.simps) (auto simp: attempt_def split: option.splits)
next
  case (Suc r)
  have up: "[k..<k + Suc r] = k # [Suc k..<Suc k + r]" by (simp add: upt_rec [of k])
  have "send r answers (k + 1) d msg =
     concat (map (\<lambda>i. attempt d msg @ [Sleep (pause_after answers i)]) (takeWhile (busy answers) [Suc k..<Suc k + r])) @ attempt d msg"
    using Suc [of "Suc k"] by simp
  then show ?case unfolding up
    by (subst send.simps) (auto simp: busy_def pause_after_def attempt_def split: option.splits)
qed

definition is_post :: "effect \<Rightarrow> bool" where
  "is_post f = (case f of Post _ _ \<Rightarrow> True | _ \<Rightarrow> False)"

lemma posts_of_send: "filter is_post (send r answers k d msg) = replicate (Suc (length (takeWhile (busy answers) [k..<k + r]))) (Post d msg)"
proof -
  have "filter is_post (concat (map (\<lambda>i. attempt d msg @ [Sleep (pause_after answers i)]) ks)) = replicate (length ks) (Post d msg)" for ks
    by (induction ks) (simp_all add: is_post_def attempt_def)
  moreover have "filter is_post (attempt d msg) = [Post d msg]" by (simp add: is_post_def attempt_def)
  ultimately show ?thesis unfolding send_attempts by (simp add: replicate_append_same)
qed

lemma format_event_length: "length (format_event S e) \<le> 3800"
  by (simp add: format_event_def Let_def max_text_def del: take_append)

text \<open>
  Claim C37. A batch of the Telegram writer, whatever the service answers: every event is posted to its
  own destination with its own text, in order, once more for each answer 429 before another one, three
  times at most; every attempt first takes a token of the global and of the destination's bucket, and
  a repeated one sleeps as long as the service asks; no text is longer than 3800 characters.
\<close>

theorem telegram_batch_spec:
  "telegram_batch S w answers batch = concat (map (\<lambda>(i, e). let n = length (takeWhile (busy (answers i)) [0, 1]) in
       concat (map (\<lambda>k. attempt (dest_route w e) (format_event S e) @ [Sleep (pause_after (answers i) k)]) [0..<n])
       @ attempt (dest_route w e) (format_event S e)) (enumerate 0 batch))
   \<and> length (filter is_post (telegram_batch S w answers batch)) \<le> 3 * length batch
   \<and> list_all (\<lambda>e. length (format_event S e) \<le> 3800) batch"
proof -
  have up: "[0..<0 + 2] = [0, 1 :: nat]" by (simp add: upt_rec)
  have tw: "takeWhile P [0, 1] = [0..<length (takeWhile P [0, 1 :: nat])]" for P
    by (simp add: upt_rec)
  have s: "send 2 a 0 d msg = (let n = length (takeWhile (busy a) [0, 1]) in
       concat (map (\<lambda>k. attempt d msg @ [Sleep (pause_after a k)]) [0..<n]) @ attempt d msg)" for a d msg
    unfolding send_attempts up Let_def by (subst tw) (rule refl)
  have "length (filter is_post (send 2 a 0 d msg)) \<le> 3" for a d msg
    using length_takeWhile_le [of "busy a" "[0..<0 + 2]"] by (simp add: posts_of_send)
  then have "length (filter is_post (concat (map (\<lambda>(i, e). send 2 (answers i) 0 (dest_route w e) (format_event S e)) ies))) \<le> 3 * length ies" for ies
    by (induction ies) (auto intro: add_mono split: prod.splits)
  from this [of "enumerate 0 batch"] show ?thesis
    by (simp add: telegram_batch_def s format_event_length list_all_iff)
qed

text \<open>What the service is given has no markup of the message, unless the cut at 3800 leaves half of an entity.\<close>

lemma tg_escape_plain: "CHR ''<'' \<notin> set (tg_escape s) \<and> CHR ''>'' \<notin> set (tg_escape s)"
  by (auto simp: tg_escape_def tg_escape_char_def split: if_splits)

section \<open>Destinations\<close>

lemma show_nat_no_minus: "CHR ''-'' \<notin> set (show_nat n)" "CHR '':'' \<notin> set (show_nat n)" "c \<in> set (show_nat n) \<Longrightarrow> \<not> py_space c"
  using show_nat_digits [of n] by (auto simp: py_digit_def py_space_def Let_def)

lemma split_at: "py_split c (p @ c # s) = py_split c p @ py_split c s"
  by (induction p) (auto split: list.splits)

lemma show_int_chars: "c \<in> set (show_int n) \<Longrightarrow> \<not> py_space c \<and> c \<noteq> CHR '':''"
  using show_nat_no_minus by (auto simp: show_int_def py_space_def Let_def split: if_splits)

lemma strip_minus: "dropWhile (\<lambda>c. c = CHR ''-'') (show_int n) = show_nat (nat \<bar>n\<bar>)"
  using show_nat_no_minus(1) [of "nat \<bar>n\<bar>"]
  by (cases "show_nat (nat \<bar>n\<bar>)") (auto simp: show_int_def split: if_splits)

lemma int_of_thread_show: "int_of_thread (show_int n) = Ret n"
proof -
  have "py_strip (show_int n) = show_int n" using show_int_chars by (intro strip_no_space) auto
  moreover have "length (show_int n) - length (show_nat (nat \<bar>n\<bar>)) = (if n < 0 then 1 else 0)" by (simp add: show_int_def)
  ultimately show ?thesis by (simp add: int_of_thread_def strip_minus read_digits_show_nat Let_def)
qed

text \<open>A topic written as \<open>chat:thread\<close> is read back, also where the chat has colons of its own.\<close>

lemma destination_round_trip:
  assumes "chat \<noteq> []" "\<not> py_space (hd chat)"
  shows "parse_destination (chat @ '':'' @ show_int n) = Ret \<lparr>ds_chat_id = chat, ds_thread_id = Some n\<rparr>"
proof -
  let ?raw = "chat @ '':'' @ show_int n"
  have colon: "CHR '':'' \<notin> set (show_int n)" using show_int_chars by blast
  have ne: "show_int n \<noteq> []" by (simp add: show_int_def)
  have "py_strip ?raw = ?raw"
  proof -
    have "dropWhile py_space ?raw = ?raw" using assms by (intro dropWhile_hd_id) simp
    moreover have "hd (rev ?raw) = last (show_int n)" using ne by (simp add: hd_rev)
    then have "dropWhile py_space (rev ?raw) = rev ?raw"
      using show_int_chars [of "last (show_int n)" n] ne by (intro dropWhile_hd_id) (simp del: rev_append)
    ultimately show ?thesis by (simp add: py_strip_def)
  qed
  moreover have "py_split (CHR '':'') ?raw = py_split (CHR '':'') chat @ [show_int n]"
    using split_at [of "CHR '':''" chat "show_int n"] py_split_no_sep [OF colon] by simp
  moreover have "py_strip (show_int n) = show_int n" using show_int_chars by (intro strip_no_space) auto
  moreover have "list_all py_digit (show_nat (nat \<bar>n\<bar>))" using show_nat_digits by (auto simp: list_all_iff)
  moreover have "\<exists>c \<in> set (show_int n). c \<noteq> CHR ''-''"
    using dropWhile_eq_Nil_conv [of "\<lambda>c. c = CHR ''-''" "show_int n"]
    unfolding strip_minus by auto
  ultimately show ?thesis using assms(1)
    by (simp add: parse_destination_def strip_minus int_of_thread_show py_join_split Let_def)
qed

text \<open>Two minus signs before the thread are not refused but raise.\<close>

lemma thread_with_two_minus: 
  "parse_destination ''-100:--5'' = Raise (ValueError ''invalid literal for int() with base 10'')"
  by code_simp

section \<open>PostgreSQL\<close>

text \<open>The rows of events from an id on, and the tracebacks beside them.\<close>

definition rows_from :: "(pyval \<Rightarrow> string) \<Rightarrow> nat \<Rightarrow> event_rec list \<Rightarrow> (nat \<times> log_row) list" where
  "rows_from enc i es = enumerate i (map (to_row enc) es)"

definition tracebacks_from :: "nat \<Rightarrow> event_rec list \<Rightarrow> (nat \<times> string) list" where
  "tracebacks_from i es = map (\<lambda>(j, e). (j, the_default [] (te_traceback e))) (filter (\<lambda>(j, e). has_traceback e) (enumerate i es))"

lemma rows_from_simps [simp]: "rows_from enc i [] = []" "rows_from enc i (e # es) = (i, to_row enc e) # rows_from enc (Suc i) es"
  by (simp_all add: rows_from_def)

lemma tracebacks_from_simps [simp]: "tracebacks_from i [] = []"
  "tracebacks_from i (e # es) = (if has_traceback e then [(i, the_default [] (te_traceback e))] else []) @ tracebacks_from (Suc i) es"
  by (simp_all add: tracebacks_from_def)

lemma rows_from_append: "rows_from enc i (es @ fs) = rows_from enc i es @ rows_from enc (i + length es) fs"
  by (induction es arbitrary: i) simp_all

lemma tracebacks_from_append: "tracebacks_from i (es @ fs) = tracebacks_from i es @ tracebacks_from (i + length es) fs"
  by (induction es arbitrary: i) simp_all

lemma tracebacks_from_none: "list_all (\<lambda>e. \<not> has_traceback e) es \<Longrightarrow> tracebacks_from i es = []"
  by (induction es arbitrary: i) simp_all

lemma insert_rows_spec:
  "insert_rows (map (to_row enc) es) w = ((), w\<lparr>db_logs := db_logs w @ rows_from enc (db_next w) es, db_next := db_next w + length es\<rparr>)"
  by (induction es arbitrary: w) (simp_all add: insert_log_def)

lemma store_one:
  assumes "has_traceback e" "store_with_traceback fails enc e w = (r, w')"
  shows "(r = Ret () \<and> db_logs w' = db_logs w @ [(db_next w, to_row enc e)]
      \<and> db_tracebacks w' = db_tracebacks w @ [(db_next w, the_default [] (te_traceback e))] \<and> db_next w' = Suc (db_next w))
    \<or> ((\<exists>x. r = Raise x) \<and> db_logs w' = db_logs w \<and> db_tracebacks w' = db_tracebacks w)"
  using assms(2)
  by (auto simp: store_with_traceback_def db_transaction_def statement_def insert_log_def insert_traceback_def py_bind_def Let_def
      split: option.splits prod.splits outcome.splits if_splits)

lemma store_all:
  "list_all has_traceback es \<Longrightarrow> py_for es (store_with_traceback fails enc) w = (r, w') \<Longrightarrow>
   \<exists>k. db_logs w' = db_logs w @ rows_from enc (db_next w) (take k es)
     \<and> db_tracebacks w' = db_tracebacks w @ tracebacks_from (db_next w) (take k es)
     \<and> (r = Ret () \<longrightarrow> length es \<le> k)"
proof (induction es arbitrary: w)
  case Nil
  then show ?case by auto
next
  case (Cons e es)
  obtain r1 w1 where s: "store_with_traceback fails enc e w = (r1, w1)" by fastforce
  show ?case
  proof (cases r1)
    case (Ret u)
    then have w1: "db_logs w1 = db_logs w @ [(db_next w, to_row enc e)]"
      "db_tracebacks w1 = db_tracebacks w @ [(db_next w, the_default [] (te_traceback e))]" "db_next w1 = Suc (db_next w)"
      using store_one [OF _ s] Cons.prems(1) by auto
    have "py_for es (store_with_traceback fails enc) w1 = (r, w')" using Cons.prems(2) s Ret by simp
    then obtain k where "db_logs w' = db_logs w1 @ rows_from enc (db_next w1) (take k es)"
      "db_tracebacks w' = db_tracebacks w1 @ tracebacks_from (db_next w1) (take k es)" "r = Ret () \<longrightarrow> length es \<le> k"
      using Cons.IH Cons.prems(1) by auto
    then show ?thesis using w1 Cons.prems(1) by (intro exI [of _ "Suc k"]) simp
  next
    case (Raise x)
    then have "r = Raise x" "w' = w1" using Cons.prems(2) s by auto
    then show ?thesis using store_one [OF _ s] Cons.prems(1) Raise by (intro exI [of _ 0]) auto
  qed
qed

text \<open>
  Claim C31. What a batch leaves in the database, whichever statements fail: the rows of some of its
  events, under consecutive new ids, and beside them exactly the tracebacks that these events have,
  linked to their rows. The events stored are all those without a traceback or none of the batch, and
  then those with one up to the first failure; and all of them when no exception is raised.
\<close>

theorem postgres_batch_spec:
  "case postgres_batch fails enc batch w of (r, w') \<Rightarrow>
     \<exists>stored k. db_logs w' = db_logs w @ rows_from enc (db_next w) stored
       \<and> db_tracebacks w' = db_tracebacks w @ tracebacks_from (db_next w) stored
       \<and> (stored = [] \<or> stored = filter (\<lambda>e. \<not> has_traceback e) batch @ take k (filter has_traceback batch))
       \<and> (case r of Ret _ \<Rightarrow> mset stored = mset batch | Raise _ \<Rightarrow> True)"
proof -
  let ?plain = "filter (\<lambda>e. \<not> has_traceback e) batch"
  let ?traced = "filter has_traceback batch"
  let ?first = "if map (to_row enc) ?plain \<noteq> [] then statement fails (insert_rows (map (to_row enc) ?plain)) else py_ret ()"
  obtain r1 w1 where f: "?first w = (r1, w1)" by fastforce
  obtain r w' where b: "postgres_batch fails enc batch w = (r, w')" by fastforce
  show ?thesis
  proof (cases r1)
    case (Raise x)
    then have "r = Raise x" "w' = w1" using b f by (auto simp: postgres_batch_def Let_def split: if_splits)
    moreover have "db_logs w1 = db_logs w" "db_tracebacks w1 = db_tracebacks w"
      using f Raise by (auto simp: statement_def Let_def split: if_splits option.splits prod.splits)
    ultimately show ?thesis using b by (auto intro: exI [of _ "[]"])
  next
    case (Ret u)
    have w1: "db_logs w1 = db_logs w @ rows_from enc (db_next w) ?plain" "db_tracebacks w1 = db_tracebacks w"
      "db_next w1 = db_next w + length ?plain"
      using f Ret by (auto simp: statement_def insert_rows_spec Let_def split: if_splits option.splits prod.splits)
    have "py_for ?traced (store_with_traceback fails enc) w1 = (r, w')"
      using b f Ret by (simp add: postgres_batch_def Let_def split: if_splits)
    from store_all [OF _ this] obtain k where k: "db_logs w' = db_logs w1 @ rows_from enc (db_next w1) (take k ?traced)"
      "db_tracebacks w' = db_tracebacks w1 @ tracebacks_from (db_next w1) (take k ?traced)" "r = Ret () \<longrightarrow> length ?traced \<le> k"
      by (auto simp: list_all_iff)
    have m: "mset (?plain @ ?traced) = mset batch" 
      using multiset_partition [of "mset batch" has_traceback] by (simp add: union_commute mset_filter)
    show ?thesis using b w1 k m
      by (auto simp: rows_from_append tracebacks_from_append tracebacks_from_none list_all_iff split: outcome.splits
          intro!: exI [of _ "?plain @ take k ?traced"])
  qed
qed

end
