(* ===== verification/StaticChecks.thy ===== *)
theory StaticChecks
  imports Errors
begin

text \<open>
  The check of classes against the interfaces they implement, run when a module is imported
  (\<open>shared_kernel/utils/static_analys/assertion_funcs.py\<close>): the comparison of return annotations, and
  of the members of a class; with the soundness of what it accepts.
\<close>

section \<open>Annotations\<close>

text \<open>
  What \<open>inspect.signature\<close> gives as an annotation. A class or alias, a type variable and the origin of
  a generic alias are known by the name \<open>repr\<close> shows. \<open>T_None\<close> is the object \<open>None\<close> of a bare
  \<open>-> None\<close>, \<open>T_NoneType\<close> the type it becomes inside a union. Both spellings of a union are \<open>T_Union\<close>.
\<close>

datatype annotation = T_Any | T_Var string | T_Name string | T_None | T_NoneType
  | T_Generic string "annotation list" | T_Union "annotation list"

lemma zip_size [termination_simp]: "(x, y) \<in> set (zip as bs) \<Longrightarrow> size (x :: annotation) \<le> size_list size as"
  by (auto dest!: set_zip_leftD intro: size_list_estimation')

text \<open>\<open>==\<close> of annotations: the options of a union count as a set.\<close>

fun ann_eq :: "annotation \<Rightarrow> annotation \<Rightarrow> bool" where
  "ann_eq (T_Union as) b = (case b of
     T_Union bs \<Rightarrow> list_all (\<lambda>x. list_ex (\<lambda>y. ann_eq x y) bs) as \<and> list_all (\<lambda>y. list_ex (\<lambda>x. ann_eq x y) as) bs
   | _ \<Rightarrow> False)"
| "ann_eq (T_Generic n as) b = (case b of
     T_Generic m bs \<Rightarrow> n = m \<and> length as = length bs \<and> list_all (\<lambda>(x, y). ann_eq x y) (zip as bs)
   | _ \<Rightarrow> False)"
| "ann_eq a b = (a = b)"

text \<open>\<open>_is_same_type\<close>: the same \<open>repr\<close>.\<close>

definition is_same_type :: "annotation \<Rightarrow> annotation \<Rightarrow> bool" where
  "is_same_type a b = (a = b)"

definition is_union :: "annotation \<Rightarrow> bool" where
  "is_union a = (case a of T_Union _ \<Rightarrow> True | _ \<Rightarrow> False)"

definition is_type_var :: "annotation \<Rightarrow> bool" where
  "is_type_var a = (case a of T_Var _ \<Rightarrow> True | _ \<Rightarrow> False)"

definition union_args :: "annotation \<Rightarrow> annotation list" where
  "union_args a = (case a of T_Union as \<Rightarrow> as | _ \<Rightarrow> [])"

definition is_optional :: "annotation \<Rightarrow> bool" where
  "is_optional a \<longleftrightarrow> T_NoneType \<in> set (union_args a)"

text \<open>\<open>Union[...]\<close> of one type is that type.\<close>

definition make_union :: "annotation list \<Rightarrow> annotation" where
  "make_union as = (case as of [a] \<Rightarrow> a | _ \<Rightarrow> T_Union as)"

definition inner :: "annotation \<Rightarrow> annotation list" where
  "inner a = filter (\<lambda>x. x \<noteq> T_NoneType) (union_args a)"

lemma union_args_size [termination_simp]: "x \<in> set (union_args a) \<Longrightarrow> size x < size a"
  by (cases a) (auto simp: union_args_def less_Suc_eq_le size_list_estimation')

lemma inner_size [termination_simp]: "x \<in> set (inner a) \<Longrightarrow> size x < size a"
  by (simp add: inner_def union_args_size)

text \<open>
  \<open>_is_return_compatible\<close> on two annotations. The branch for \<open>Awaitable\<close> compares an origin, which is
  the class of \<open>collections.abc\<close>, with the alias of \<open>typing\<close>: it is never taken.
\<close>

fun compatible :: "annotation \<Rightarrow> annotation \<Rightarrow> bool" where
  "compatible b t =
     (if b = T_Any then True
      else if ann_eq b t then True
      else if is_type_var b then True
      else if is_optional b then
        (if is_optional t then list_ex (\<lambda>i. compatible i (make_union (inner t))) (inner b)
         else list_ex (\<lambda>i. compatible i t) (inner b))
      else if is_optional t \<and> \<not> is_union b then False
      else if is_union b then list_ex (\<lambda>i. compatible i t) (union_args b)
      else is_same_type b t)"

declare compatible.simps [simp del]

text \<open>\<open>None\<close> is the missing annotation.\<close>

definition is_return_compatible :: "annotation option \<Rightarrow> annotation option \<Rightarrow> bool" where
  "is_return_compatible b t = (case b of None \<Rightarrow> True | Some b \<Rightarrow> (case t of None \<Rightarrow> False | Some t \<Rightarrow> compatible b t))"

section \<open>Members and classes\<close>

datatype param_kind = Positional_Only | Positional_Or_Keyword | Var_Positional | Keyword_Only | Var_Keyword

record parameter =
  pr_name :: string
  pr_kind :: param_kind
  pr_default :: bool

record signature =
  sg_params :: "parameter list"
  sg_return :: "annotation option"

datatype member = Callable signature | Not_Callable

text \<open>A class: its own \<open>__dict__\<close> in order, and what \<open>getattr\<close> finds, bases included.\<close>

record klass =
  kl_name :: string
  kl_dict :: "(string \<times> member) list"
  kl_attr :: "string \<rightharpoonup> member"

definition param_matches :: "parameter \<Rightarrow> parameter \<Rightarrow> bool" where
  "param_matches b t \<longleftrightarrow> pr_name b = pr_name t \<and> pr_kind b = pr_kind t \<and> \<not> (\<not> pr_default b \<and> pr_default t)"

definition signature_matches :: "signature \<Rightarrow> signature \<Rightarrow> bool" where
  "signature_matches b t \<longleftrightarrow>
     \<not> length (sg_params t) < length (sg_params b)
   \<and> list_all (\<lambda>(x, y). param_matches x y) (zip (sg_params b) (sg_params t))
   \<and> \<not> (sg_return b \<noteq> None \<and> sg_return t = None)
   \<and> is_return_compatible (sg_return b) (sg_return t)"

definition public :: "string \<Rightarrow> bool" where
  "public name \<longleftrightarrow> \<not> (py_startswith name ''_'' \<and> name \<noteq> ''__call__'')"

text \<open>
  The loop over the members of one base, with the value of \<open>_is\<close>: a missing attribute ends it;
  \<open>inspect.signature\<close> of an attribute that cannot be called raises.
\<close>

fun check_members :: "klass \<Rightarrow> (string \<times> member) list \<Rightarrow> bool \<Rightarrow> (exn, bool) outcome" where
  "check_members t [] ok = Ret ok"
| "check_members t ((name, m) # ms) ok =
     (if \<not> public name then check_members t ms ok
      else (case m of
          Not_Callable \<Rightarrow> check_members t ms ok
        | Callable b \<Rightarrow> (case kl_attr t name of
              None \<Rightarrow> Ret False
            | Some Not_Callable \<Rightarrow> Raise (TypeError ''not callable'')
            | Some (Callable s) \<Rightarrow> check_members t ms (ok \<and> signature_matches b s))))"

text \<open>
  The loop over the bases; \<open>_is\<close> is not set back between them. The answer is the bases warned about;
  \<open>TypeAssertionException\<close> is what \<open>raise\<close> ends with.
\<close>

datatype on_err = Err_Raise | Err_Warning

fun check_bases :: "klass \<Rightarrow> on_err \<Rightarrow> klass list \<Rightarrow> bool \<Rightarrow> (exn, string list) outcome" where
  "check_bases t mode [] ok = Ret []"
| "check_bases t mode (b # bs) ok =
     oc_bind (check_members t (kl_dict b) ok) (\<lambda>ok'.
       if ok' then check_bases t mode bs ok'
       else (case mode of
           Err_Raise \<Rightarrow> Raise (OtherError ''TypeAssertionException'')
         | Err_Warning \<Rightarrow> oc_bind (check_bases t mode bs ok') (\<lambda>ws. Ret (kl_name b # ws))))"

definition ensure_isimplementation :: "klass list \<Rightarrow> klass list \<Rightarrow> on_err \<Rightarrow> (exn, string list list) outcome" where
  "ensure_isimplementation targets bases mode = oc_mapM (\<lambda>t. check_bases t mode bases True) targets"

section \<open>What a return annotation promises\<close>

text \<open>
  The values an annotation admits, over any meaning of the classes and generic aliases; a type variable
  of an interface is open.
\<close>

record 'v universe =
  un_none :: 'v
  un_class :: "string \<Rightarrow> 'v set"
  un_generic :: "string \<Rightarrow> 'v set list \<Rightarrow> 'v set"

fun ann_values :: "('v, 'm) universe_scheme \<Rightarrow> annotation \<Rightarrow> 'v set" where
  "ann_values U T_Any = UNIV"
| "ann_values U (T_Var n) = UNIV"
| "ann_values U (T_Name n) = un_class U n"
| "ann_values U T_None = {un_none U}"
| "ann_values U T_NoneType = {un_none U}"
| "ann_values U (T_Generic n as) = un_generic U n (map (ann_values U) as)"
| "ann_values U (T_Union as) = (\<Union>a \<in> set as. ann_values U a)"

lemma ann_values_eq: "ann_eq a b \<Longrightarrow> ann_values U a = ann_values U b"
proof (induction a b rule: ann_eq.induct)
  case (1 as b)
  then obtain bs where b: "b = T_Union bs" by (auto split: annotation.splits)
  have l: "\<forall>x \<in> set as. \<exists>y \<in> set bs. ann_eq x y" and r: "\<forall>y \<in> set bs. \<exists>x \<in> set as. ann_eq x y"
    using "1.prems" b by (auto simp: list_all_iff list_ex_iff)
  have "ann_values U x = ann_values U y" if "x \<in> set as" "y \<in> set bs" "ann_eq x y" for x y
    using 1(1) [OF b that(1,2,3)] by blast
  then show ?case using b l r by (auto; metis)
next
  case (2 n as b)
  then obtain bs where b: "b = T_Generic n bs" and len: "length as = length bs" by (auto split: annotation.splits)
  have "ann_values U (as ! i) = ann_values U (bs ! i)" if "i < length as" for i
  proof -
    have p: "(as ! i, bs ! i) \<in> set (zip as bs)" using that len by (auto simp: set_zip)
    then have "ann_eq (as ! i) (bs ! i)" using "2.prems" b by (auto simp: list_all_iff)
    then show ?thesis using 2(1) [OF b p refl] by blast
  qed
  then have "map (ann_values U) as = map (ann_values U) bs" using len by (auto intro: nth_equalityI)
  then show ?case using b by simp
qed simp_all

lemma ann_values_union: "is_union a \<Longrightarrow> ann_values U a = (\<Union>x \<in> set (union_args a). ann_values U x)"
  by (cases a) (auto simp: is_union_def union_args_def)

lemma optional_union: "is_optional a \<Longrightarrow> is_union a"
  by (cases a) (auto simp: is_optional_def union_args_def is_union_def)

lemma ann_values_make_union: "ann_values U (make_union as) = (\<Union>x \<in> set as. ann_values U x)"
  by (auto simp: make_union_def split: list.splits)

lemma ann_values_optional: "is_optional a \<Longrightarrow> ann_values U a = insert (un_none U) (\<Union>x \<in> set (inner a). ann_values U x)"
  using ann_values_union [OF optional_union, of a U] by (auto simp: is_optional_def inner_def)

lemma compatible_sound: "compatible b t \<Longrightarrow> ann_values U t \<subseteq> ann_values U b"
proof (induction b t rule: compatible.induct)
  case (1 b t)
  show ?case
  proof (cases "b = T_Any \<or> ann_eq b t \<or> is_type_var b")
    case True
    moreover have "ann_values U b = UNIV" if "is_type_var b" using that by (cases b) (simp_all add: is_type_var_def)
    ultimately show ?thesis using ann_values_eq [of b t U] by (elim disjE) simp_all
  next
    case False
    then have n: "b \<noteq> T_Any" "\<not> ann_eq b t" "\<not> is_type_var b" by simp_all
    have step: "if is_optional b then
        (if is_optional t then list_ex (\<lambda>i. compatible i (make_union (inner t))) (inner b) else list_ex (\<lambda>i. compatible i t) (inner b))
      else if is_optional t \<and> \<not> is_union b then False
      else if is_union b then list_ex (\<lambda>i. compatible i t) (union_args b) else is_same_type b t"
      using "1.prems" n compatible.simps [of b t] by simp
    consider "is_optional b" "is_optional t" | "is_optional b" "\<not> is_optional t"
      | "\<not> is_optional b" "is_union b" | "\<not> is_optional b" "\<not> is_union b" by blast
    then show ?thesis
    proof cases
      case 1
      then obtain i where i: "i \<in> set (inner b)" "compatible i (make_union (inner t))"
        using step by (auto simp: list_ex_iff)
      then have "ann_values U (make_union (inner t)) \<subseteq> ann_values U i" using "1.IH"(1) n 1 by blast
      then show ?thesis using 1 i(1) by (auto simp: ann_values_optional ann_values_make_union)
    next
      case 2
      then obtain i where i: "i \<in> set (inner b)" "compatible i t" using step by (auto simp: list_ex_iff)
      then have "ann_values U t \<subseteq> ann_values U i" using "1.IH"(2) n 2 by blast
      then show ?thesis using 2 i(1) by (auto simp: ann_values_optional)
    next
      case 3
      then obtain i where i: "i \<in> set (union_args b)" "compatible i t" using step by (auto simp: list_ex_iff split: if_splits)
      then have "ann_values U t \<subseteq> ann_values U i" using "1.IH"(3) n 3 by blast
      then show ?thesis using 3 i(1) by (auto simp: ann_values_union)
    next
      case 4
      then show ?thesis using step by (auto simp: is_same_type_def split: if_splits)
    qed
  qed
qed

section \<open>What an accepted class promises\<close>

lemma check_members_Ret:
  "check_members t ms ok = Ret True \<Longrightarrow> ok \<and> (\<forall>(name, m) \<in> set ms. \<forall>b. m = Callable b \<longrightarrow> public name
     \<longrightarrow> (\<exists>s. kl_attr t name = Some (Callable s) \<and> signature_matches b s))"
  by (induction t ms ok rule: check_members.induct) (auto split: if_splits member.splits option.splits)

lemma check_bases_Ret:
  "check_bases t Err_Raise bs ok = Ret ws \<Longrightarrow> bs = [] \<or> ok \<Longrightarrow> \<forall>b \<in> set bs. check_members t (kl_dict b) True = Ret True"
  by (induction bs arbitrary: ok ws) (auto simp: oc_bind_Ret_iff split: if_splits)

lemma signature_matches_params:
  assumes "signature_matches b s"
  shows "list_all2 (\<lambda>p q. pr_name p = pr_name q \<and> pr_kind p = pr_kind q \<and> (pr_default q \<longrightarrow> pr_default p))
        (sg_params b) (take (length (sg_params b)) (sg_params s))"
  using assms by (auto simp: signature_matches_def param_matches_def list_all2_conv_all_nth list_all_length)


text \<open>An interface with one method of two parameters, and a class that returns less than it may.\<close>

definition self_param :: parameter where
  "self_param = \<lparr>pr_name = ''self'', pr_kind = Positional_Or_Keyword, pr_default = False\<rparr>"

definition key_param :: "bool \<Rightarrow> parameter" where
  "key_param dflt = \<lparr>pr_name = ''key'', pr_kind = Positional_Or_Keyword, pr_default = dflt\<rparr>"

definition class_of :: "string \<Rightarrow> parameter list \<Rightarrow> annotation \<Rightarrow> klass" where
  "class_of n ps r = (let m = Callable \<lparr>sg_params = ps, sg_return = Some r\<rparr>
     in \<lparr>kl_name = n, kl_dict = [(''get'', m)], kl_attr = [''get'' \<mapsto> m]\<rparr>)"

definition sample_universe :: "nat universe" where
  "sample_universe = \<lparr>un_none = 0, un_class = (\<lambda>n. {length n}), un_generic = (\<lambda>n vs. {})\<rparr>"


text \<open>
  What the check lets through: a parameter that the interface may be called without and the class not,
  and a further required parameter. What it refuses although nothing is wrong: an option of the
  interface's union given as the union of two of its members, and \<open>-> None\<close> for \<open>Optional\<close>.
\<close>

lemma lost_default_accepted:
  "ensure_isimplementation [class_of ''C'' [self_param, key_param False] T_Any] [class_of ''P'' [self_param, key_param True] T_Any] Err_Raise = Ret [[]]"
  by code_simp

lemma extra_parameter_accepted:
  "ensure_isimplementation [class_of ''C'' [self_param, key_param False] T_Any] [class_of ''P'' [self_param] T_Any] Err_Raise = Ret [[]]"
  by code_simp

lemma narrower_union_refused:
  "\<not> compatible (T_Union [T_Name ''A'', T_Name ''B'', T_Name ''C'', T_NoneType]) (T_Union [T_Name ''A'', T_Name ''B''])"
  by code_simp

lemma none_refused: "\<not> compatible (T_Union [T_Name ''A'', T_NoneType]) T_None"
  by code_simp

text \<open>After one failed base the warning names every later one, implemented or not.\<close>

lemma warning_carried_on:
  "ensure_isimplementation [class_of ''C'' [self_param] T_Any]
     [class_of ''P'' [self_param, key_param False] T_Any, class_of ''Q'' [self_param] T_Any] Err_Warning = Ret [[''P'', ''Q'']]"
  by code_simp

end
