(* ===== verification/Schema.thy ===== *)
theory Schema
  imports Orm
begin

text \<open>
  The database schema: what the ORM models declare (\<open>data_access/orm/*/models\<close>, \<open>base_orm_models.py\<close>,
  \<open>db_constants.py\<close>), what the migrations build (\<open>migrations/versions\<close>), and what the built schema
  demands of the rows.
\<close>

section \<open>Names (db\_constants.py)\<close>

definition max_db_identifier_length :: nat where "max_db_identifier_length = 63"

text \<open>\<open>digest\<close> is the hexadecimal SHA-1 of a name.\<close>

definition db_identifier :: "(string \<Rightarrow> string) \<Rightarrow> string \<Rightarrow> string" where
  "db_identifier digest name =
     (if length name \<le> max_db_identifier_length then name
      else let d = take 8 (digest name) in take (max_db_identifier_length - (2 + length d)) name @ ''__'' @ d)"

lemma db_identifier_fits: "length (db_identifier digest name) \<le> max_db_identifier_length"
  by (simp add: db_identifier_def Let_def max_db_identifier_length_def)

definition USER_T :: string where "USER_T = ''identity_user''"
definition OTP_T :: string where "OTP_T = ''identity_otp''"
definition API_KEY_T :: string where "API_KEY_T = ''identity_api_key''"
definition BLOB_OBJECT_T :: string where "BLOB_OBJECT_T = ''blob_object''"
definition TELEMETRY_LOG_T :: string where "TELEMETRY_LOG_T = ''telemetry_log''"
definition TELEMETRY_LOG_TRACEBACK_T :: string where "TELEMETRY_LOG_TRACEBACK_T = ''telemetry_log_traceback''"

lemmas table_names = USER_T_def OTP_T_def API_KEY_T_def BLOB_OBJECT_T_def TELEMETRY_LOG_T_def TELEMETRY_LOG_TRACEBACK_T_def

section \<open>Columns, constraints, tables\<close>

datatype sql_type = UUID_C | String_C nat | Text_C | Boolean_C | DateTime_C | SmallInteger_C | Integer_C
  | BigInteger_C | LargeBinary_C nat | Double_C | INET_C | JSONB_C

datatype server_default = Now_D | Uuidv7_D

record column =
  cl_name :: string
  cl_type :: sql_type
  cl_nullable :: bool
  cl_default :: "server_default option"

datatype on_delete = SET_NULL | CASCADE

text \<open>A constraint declared without a name gets one from the database.\<close>

record foreign_key =
  fk_name :: "string option"
  fk_columns :: "string list"
  fk_table :: string
  fk_ref :: "string list"
  fk_ondelete :: on_delete

record sql_index =
  ix_name :: string
  ix_columns :: "string list"
  ix_unique :: bool

record table =
  tb_name :: string
  tb_columns :: "column list"
  tb_key :: "string list"
  tb_key_name :: "string option"
  tb_fks :: "foreign_key list"
  tb_indexes :: "sql_index list"

definition col :: "string \<Rightarrow> sql_type \<Rightarrow> bool \<Rightarrow> column" where
  "col n t nullable = \<lparr>cl_name = n, cl_type = t, cl_nullable = nullable, cl_default = None\<rparr>"

definition with_default :: "server_default \<Rightarrow> column \<Rightarrow> column" where
  "with_default d c = c\<lparr>cl_default := Some d\<rparr>"

definition fk :: "string option \<Rightarrow> string \<Rightarrow> string \<Rightarrow> on_delete \<Rightarrow> foreign_key" where
  "fk n c t d = \<lparr>fk_name = n, fk_columns = [c], fk_table = t, fk_ref = [''id''], fk_ondelete = d\<rparr>"

definition index :: "string \<Rightarrow> string list \<Rightarrow> bool \<Rightarrow> sql_index" where
  "index n cs u = \<lparr>ix_name = n, ix_columns = cs, ix_unique = u\<rparr>"

type_synonym schema = "table list"

definition find_table :: "string \<Rightarrow> schema \<Rightarrow> table option" where
  "find_table n s = find (\<lambda>t. tb_name t = n) s"

definition column_names :: "table \<Rightarrow> string list" where
  "column_names t = map cl_name (tb_columns t)"

section \<open>The declared schema (base\_orm\_models.py and the models)\<close>

definition id_column :: "column list" where
  "id_column = [with_default Uuidv7_D (col ''id'' UUID_C False)]"

definition chrono_columns :: "column list" where
  "chrono_columns = [col ''created_at'' DateTime_C False, col ''updated_at'' DateTime_C False]"

text \<open>The name of a foreign key of a mixin, of the table \<open>t\<close>.\<close>

definition mixin_fk :: "(string \<Rightarrow> string) \<Rightarrow> string \<Rightarrow> string \<Rightarrow> foreign_key" where
  "mixin_fk digest t c = fk (Some (db_identifier digest (''fk_'' @ t @ ''__'' @ c @ ''__'' @ USER_T @ ''__id''))) c USER_T SET_NULL"

definition author_columns :: "column list" where
  "author_columns = [col ''created_by_id'' UUID_C True, col ''updated_by_id'' UUID_C True]"

definition author_fks :: "(string \<Rightarrow> string) \<Rightarrow> string \<Rightarrow> foreign_key list" where
  "author_fks digest t = [mixin_fk digest t ''created_by_id'', mixin_fk digest t ''updated_by_id'']"

definition status_columns :: "column list" where
  "status_columns = [col ''status'' SmallInteger_C False, col ''deactivated_at'' DateTime_C True,
     col ''activated_at'' DateTime_C True, col ''activated_by_id'' UUID_C True, col ''deactivated_by_id'' UUID_C True]"

definition status_fks :: "(string \<Rightarrow> string) \<Rightarrow> string \<Rightarrow> foreign_key list" where
  "status_fks digest t = [mixin_fk digest t ''activated_by_id'', mixin_fk digest t ''deactivated_by_id'']"

text \<open>An index of \<open>index=True\<close> is called after its table and column; \<open>unique=True\<close> beside it makes it unique.\<close>

definition ix :: "string \<Rightarrow> string \<Rightarrow> bool \<Rightarrow> sql_index" where
  "ix t c u = index (''ix_'' @ t @ ''_'' @ c) [c] u"

definition user_model :: "(string \<Rightarrow> string) \<Rightarrow> table" where
  "user_model digest = \<lparr>tb_name = USER_T,
     tb_columns = id_column @ status_columns @ chrono_columns @
       [col ''email'' (String_C 254) False, col ''password'' (String_C 128) True, col ''phone'' (String_C 15) True,
        col ''first_name'' (String_C 50) False, col ''last_name'' (String_C 50) False, col ''address'' (String_C 500) True,
        col ''description'' Text_C True, col ''information'' Text_C True, col ''avatar_id'' UUID_C True,
        col ''is_active'' Boolean_C False, col ''is_superuser'' Boolean_C False, col ''email_confirmed'' Boolean_C False,
        with_default Now_D (col ''date_joined'' DateTime_C True), col ''last_login_time'' DateTime_C True],
     tb_key = [''id''], tb_key_name = None,
     tb_fks = status_fks digest USER_T @ [fk None ''avatar_id'' BLOB_OBJECT_T SET_NULL],
     tb_indexes = [ix USER_T ''email'' True]\<rparr>"

definition otp_model :: "(string \<Rightarrow> string) \<Rightarrow> table" where
  "otp_model digest = \<lparr>tb_name = OTP_T,
     tb_columns = id_column @ filter (\<lambda>c. cl_name c \<noteq> ''updated_at'') chrono_columns @
       [col ''otp'' (String_C 40) True, col ''content_id'' UUID_C False, col ''content_type'' (String_C 50) False,
        col ''kind'' SmallInteger_C False, col ''used_at'' BigInteger_C True, col ''expires_at'' BigInteger_C False,
        col ''target_value'' (String_C 254) False, col ''verified'' Boolean_C False],
     tb_key = [''id''], tb_key_name = None, tb_fks = [],
     tb_indexes = [index (db_identifier digest (''idx_'' @ OTP_T @ ''__content__kind'')) [''content_id'', ''content_type'', ''kind''] False]\<rparr>"

definition api_key_model :: "(string \<Rightarrow> string) \<Rightarrow> table" where
  "api_key_model digest = \<lparr>tb_name = API_KEY_T,
     tb_columns = id_column @ chrono_columns @
       [col ''key'' (LargeBinary_C 32) False, col ''status'' SmallInteger_C False, col ''last_used_at'' Integer_C True,
        col ''owner_id'' UUID_C False],
     tb_key = [''id''], tb_key_name = None, tb_fks = [fk None ''owner_id'' USER_T CASCADE],
     tb_indexes = [ix API_KEY_T ''key'' False]\<rparr>"

definition blob_model :: "(string \<Rightarrow> string) \<Rightarrow> table" where
  "blob_model digest = \<lparr>tb_name = BLOB_OBJECT_T,
     tb_columns = id_column @ chrono_columns @ author_columns @
       [col ''name'' (String_C 255) False, col ''kind'' SmallInteger_C False, col ''content_type'' (String_C 120) True,
        col ''size'' Integer_C True, col ''path'' (String_C 500) False, col ''medium_path'' (String_C 500) True,
        col ''thumbnail_path'' (String_C 500) True],
     tb_key = [''id''], tb_key_name = None, tb_fks = author_fks digest BLOB_OBJECT_T, tb_indexes = []\<rparr>"

definition log_record_model :: "(string \<Rightarrow> string) \<Rightarrow> table" where
  "log_record_model digest = (let idx = (\<lambda>n cs. index (db_identifier digest (''idx_'' @ TELEMETRY_LOG_T @ ''__'' @ n)) cs False) in
   \<lparr>tb_name = TELEMETRY_LOG_T,
     tb_columns = id_column @
       [col ''trace_id'' UUID_C True, col ''kind'' (String_C 32) False, col ''service'' (String_C 64) False,
        col ''level'' (String_C 16) False, col ''ts'' DateTime_C False, col ''epoch'' Double_C False, col ''exec_ms'' Double_C True,
        col ''user_id'' UUID_C True, col ''ip'' INET_C True, col ''method'' (String_C 8) True, col ''url'' Text_C True,
        col ''url_params'' JSONB_C True, col ''data'' JSONB_C True, col ''status_code'' SmallInteger_C True,
        col ''user_agent'' Text_C True, col ''message'' Text_C True, with_default Now_D (col ''created_at'' DateTime_C False)],
     tb_key = [''id''], tb_key_name = None, tb_fks = [],
     tb_indexes = [idx ''trace_id'' [''trace_id''], idx ''service__ts'' [''service'', ''ts''], idx ''user_id__ts'' [''user_id'', ''ts''],
       idx ''level'' [''level''], idx ''status_code'' [''status_code'']]\<rparr>)"

definition traceback_model :: "(string \<Rightarrow> string) \<Rightarrow> table" where
  "traceback_model digest = \<lparr>tb_name = TELEMETRY_LOG_TRACEBACK_T,
     tb_columns = [col ''log_id'' UUID_C False, col ''traceback'' Text_C False],
     tb_key = [''log_id''], tb_key_name = Some (db_identifier digest (''pk_'' @ TELEMETRY_LOG_TRACEBACK_T @ ''__log_id'')),
     tb_fks = [fk (Some (db_identifier digest (''pk_'' @ TELEMETRY_LOG_TRACEBACK_T @ ''__log_id__'' @ TELEMETRY_LOG_T @ ''__id'')))
       ''log_id'' TELEMETRY_LOG_T CASCADE],
     tb_indexes = []\<rparr>"

text \<open>The metadata the environment of the migrations compares with.\<close>

definition declared_schema :: "(string \<Rightarrow> string) \<Rightarrow> schema" where
  "declared_schema digest = [user_model digest, otp_model digest, api_key_model digest, blob_model digest,
     log_record_model digest, traceback_model digest]"

section \<open>The migrations (migrations/versions)\<close>

text \<open>
  The operations of Alembic that the migrations use, as PostgreSQL carries them out: tables and indexes
  share one name space, a foreign key needs its columns and the key it refers to, and a table that
  another one refers to cannot be dropped.
\<close>

datatype schema_op = Create_Table table
  | Create_Index string string "string list" bool
  | Create_Foreign_Key string foreign_key
  | Alter_Default string string "server_default option"
  | Drop_Table string
  | Drop_Constraint string string

datatype schema_error = Already_Exists string | Missing string | Still_Referenced string

definition key_index :: "table \<Rightarrow> string" where
  "key_index t = (case tb_key_name t of Some n \<Rightarrow> n | None \<Rightarrow> tb_name t @ ''_pkey'')"

definition table_relations :: "table \<Rightarrow> string list" where
  "table_relations t = tb_name t # key_index t # map ix_name (tb_indexes t)"

definition relations :: "schema \<Rightarrow> string list" where
  "relations s = concat (map table_relations s)"

definition has_columns :: "table \<Rightarrow> string list \<Rightarrow> bool" where
  "has_columns t cs \<longleftrightarrow> list_all (\<lambda>c. c \<in> set (column_names t)) cs"

text \<open>A foreign key of \<open>t\<close> refers to the key of a table of \<open>s\<close>, or of \<open>t\<close> itself.\<close>

definition links :: "table \<Rightarrow> schema \<Rightarrow> foreign_key \<Rightarrow> bool" where
  "links t s f \<longleftrightarrow> has_columns t (fk_columns f) \<and>
     (if fk_table f = tb_name t then fk_ref f = tb_key t
      else case find_table (fk_table f) s of None \<Rightarrow> False | Some u \<Rightarrow> fk_ref f = tb_key u)"

definition update_table :: "string \<Rightarrow> (table \<Rightarrow> table) \<Rightarrow> schema \<Rightarrow> schema" where
  "update_table n f s = map (\<lambda>t. if tb_name t = n then f t else t) s"

definition on_table :: "string \<Rightarrow> schema \<Rightarrow> (table \<Rightarrow> (schema_error, schema) outcome) \<Rightarrow> (schema_error, schema) outcome" where
  "on_table n s f = (case find_table n s of None \<Rightarrow> Raise (Missing n) | Some t \<Rightarrow> f t)"

fun apply_op :: "schema_op \<Rightarrow> schema \<Rightarrow> (schema_error, schema) outcome" where
  "apply_op (Create_Table t) s =
     (if tb_name t \<in> set (relations s) \<or> key_index t \<in> set (relations s) then Raise (Already_Exists (tb_name t))
      else if has_columns t (tb_key t) \<and> list_all (links t s) (tb_fks t) then Ret (s @ [t])
      else Raise (Missing (tb_name t)))"
| "apply_op (Create_Index n tn cs u) s = on_table tn s (\<lambda>t.
     if n \<in> set (relations s) then Raise (Already_Exists n)
     else if has_columns t cs then Ret (update_table tn (\<lambda>t. t\<lparr>tb_indexes := tb_indexes t @ [index n cs u]\<rparr>) s)
     else Raise (Missing n))"
| "apply_op (Create_Foreign_Key tn f) s = on_table tn s (\<lambda>t.
     if fk_name f \<noteq> None \<and> fk_name f \<in> set (map fk_name (tb_fks t)) then Raise (Already_Exists tn)
     else if links t s f then Ret (update_table tn (\<lambda>t. t\<lparr>tb_fks := tb_fks t @ [f]\<rparr>) s)
     else Raise (Missing tn))"
| "apply_op (Alter_Default tn c d) s = on_table tn s (\<lambda>t.
     if has_columns t [c]
     then Ret (update_table tn (\<lambda>t. t\<lparr>tb_columns := map (\<lambda>x. if cl_name x = c then x\<lparr>cl_default := d\<rparr> else x) (tb_columns t)\<rparr>) s)
     else Raise (Missing c))"
| "apply_op (Drop_Table n) s = on_table n s (\<lambda>t.
     if list_ex (\<lambda>u. tb_name u \<noteq> n \<and> n \<in> set (map fk_table (tb_fks u))) s then Raise (Still_Referenced n)
     else Ret (filter (\<lambda>u. tb_name u \<noteq> n) s))"
| "apply_op (Drop_Constraint c tn) s = on_table tn s (\<lambda>t.
     if Some c \<in> set (map fk_name (tb_fks t))
     then Ret (update_table tn (\<lambda>t. t\<lparr>tb_fks := filter (\<lambda>f. fk_name f \<noteq> Some c) (tb_fks t)\<rparr>) s)
     else Raise (Missing c))"

fun run_ops :: "schema_op list \<Rightarrow> schema \<Rightarrow> (schema_error, schema) outcome" where
  "run_ops [] s = Ret s"
| "run_ops (p # ps) s = oc_bind (apply_op p s) (run_ops ps)"

text \<open>\<open>0001_initial_schema.py\<close>, its tables in the order of the file.\<close>

definition new_table :: "string \<Rightarrow> column list \<Rightarrow> string list \<Rightarrow> string option \<Rightarrow> foreign_key list \<Rightarrow> schema_op" where
  "new_table n cs k kn fks = Create_Table \<lparr>tb_name = n, tb_columns = cs, tb_key = k, tb_key_name = kn, tb_fks = fks, tb_indexes = []\<rparr>"

definition create_users :: schema_op where
  "create_users = new_table ''identity_user''
     [col ''id'' UUID_C False, col ''email'' (String_C 254) False, col ''password'' (String_C 128) True, col ''phone'' (String_C 15) True,
      col ''first_name'' (String_C 50) False, col ''last_name'' (String_C 50) False, col ''address'' (String_C 500) True,
      col ''description'' Text_C True, col ''information'' Text_C True, col ''avatar_id'' UUID_C True, col ''is_active'' Boolean_C False,
      col ''is_superuser'' Boolean_C False, col ''email_confirmed'' Boolean_C False, with_default Now_D (col ''date_joined'' DateTime_C True),
      col ''last_login_time'' DateTime_C True, col ''status'' SmallInteger_C False, col ''activated_at'' DateTime_C True,
      col ''deactivated_at'' DateTime_C True, col ''activated_by_id'' UUID_C True, col ''deactivated_by_id'' UUID_C True,
      col ''created_at'' DateTime_C False, col ''updated_at'' DateTime_C False]
     [''id''] None
     [fk (Some ''fk_identity_user__activated_by_id__identity_user__id'') ''activated_by_id'' ''identity_user'' SET_NULL,
      fk (Some ''fk_identity_user__deactivated_by_id__identity_user__id'') ''deactivated_by_id'' ''identity_user'' SET_NULL]"

definition create_blobs :: schema_op where
  "create_blobs = new_table ''blob_object''
     [col ''id'' UUID_C False, col ''name'' (String_C 255) False, col ''kind'' SmallInteger_C False, col ''content_type'' (String_C 120) True,
      col ''size'' Integer_C True, col ''path'' (String_C 500) False, col ''medium_path'' (String_C 500) True,
      col ''thumbnail_path'' (String_C 500) True, col ''created_by_id'' UUID_C True, col ''updated_by_id'' UUID_C True,
      col ''created_at'' DateTime_C False, col ''updated_at'' DateTime_C False]
     [''id''] None
     [fk (Some ''fk_blob_object__created_by_id__identity_user__id'') ''created_by_id'' ''identity_user'' SET_NULL,
      fk (Some ''fk_blob_object__updated_by_id__identity_user__id'') ''updated_by_id'' ''identity_user'' SET_NULL]"

definition create_otps :: schema_op where
  "create_otps = new_table ''identity_otp''
     [col ''id'' UUID_C False, col ''otp'' (String_C 40) True, col ''content_id'' UUID_C False, col ''content_type'' (String_C 50) False,
      col ''kind'' SmallInteger_C False, col ''used_at'' BigInteger_C True, col ''expires_at'' BigInteger_C False,
      col ''target_value'' (String_C 254) False, col ''verified'' Boolean_C False, col ''created_at'' DateTime_C False]
     [''id''] None []"

definition create_api_keys :: schema_op where
  "create_api_keys = new_table ''identity_api_key''
     [col ''id'' UUID_C False, col ''key'' (LargeBinary_C 32) False, col ''status'' SmallInteger_C False, col ''last_used_at'' Integer_C True,
      col ''owner_id'' UUID_C False, col ''created_at'' DateTime_C False, col ''updated_at'' DateTime_C False]
     [''id''] None [fk None ''owner_id'' ''identity_user'' CASCADE]"

definition create_logs :: schema_op where
  "create_logs = new_table ''telemetry_log''
     [col ''id'' UUID_C False, col ''trace_id'' UUID_C True, col ''kind'' (String_C 32) False, col ''service'' (String_C 64) False,
      col ''level'' (String_C 16) False, col ''ts'' DateTime_C False, col ''epoch'' Double_C False, col ''exec_ms'' Double_C True,
      col ''user_id'' UUID_C True, col ''ip'' INET_C True, col ''method'' (String_C 8) True, col ''url'' Text_C True,
      col ''url_params'' JSONB_C True, col ''data'' JSONB_C True, col ''status_code'' SmallInteger_C True, col ''user_agent'' Text_C True,
      col ''message'' Text_C True, col ''created_at'' DateTime_C False]
     [''id''] None []"

definition create_tracebacks :: schema_op where
  "create_tracebacks = new_table ''telemetry_log_traceback''
     [col ''log_id'' UUID_C False, col ''traceback'' Text_C False]
     [''log_id''] (Some ''pk_telemetry_log_traceback__log_id'')
     [fk (Some ''pk_telemetry_log_traceback__log_id__telemetry_log__id'') ''log_id'' ''telemetry_log'' CASCADE]"

definition upgrade_0001 :: "schema_op list" where
  "upgrade_0001 =
     [create_users, Create_Index ''ix_identity_user_email'' ''identity_user'' [''email''] True,
      create_blobs,
      Create_Foreign_Key ''identity_user'' (fk (Some ''fk_identity_user__avatar_id__blob_object__id'') ''avatar_id'' ''blob_object'' SET_NULL),
      create_otps, Create_Index ''idx_identity_otp__content__kind'' ''identity_otp'' [''content_id'', ''content_type'', ''kind''] False,
      create_api_keys, Create_Index ''ix_identity_api_key_key'' ''identity_api_key'' [''key''] False,
      create_logs,
      Create_Index ''idx_telemetry_log__trace_id'' ''telemetry_log'' [''trace_id''] False,
      Create_Index ''idx_telemetry_log__service__ts'' ''telemetry_log'' [''service'', ''ts''] False,
      Create_Index ''idx_telemetry_log__user_id__ts'' ''telemetry_log'' [''user_id'', ''ts''] False,
      Create_Index ''idx_telemetry_log__level'' ''telemetry_log'' [''level''] False,
      Create_Index ''idx_telemetry_log__status_code'' ''telemetry_log'' [''status_code''] False,
      create_tracebacks]"

definition downgrade_0001 :: "schema_op list" where
  "downgrade_0001 = [Drop_Table ''telemetry_log_traceback'', Drop_Table ''telemetry_log'', Drop_Table ''identity_api_key'',
     Drop_Table ''identity_otp'', Drop_Constraint ''fk_identity_user__avatar_id__blob_object__id'' ''identity_user'',
     Drop_Table ''blob_object'', Drop_Table ''identity_user'']"

text \<open>\<open>0002_uuidv7_server_defaults.py\<close>\<close>

definition id_tables :: "string list" where
  "id_tables = [''identity_user'', ''identity_otp'', ''identity_api_key'', ''blob_object'', ''telemetry_log'']"

definition upgrade_0002 :: "schema_op list" where
  "upgrade_0002 = map (\<lambda>t. Alter_Default t ''id'' (Some Uuidv7_D)) id_tables @ [Alter_Default ''telemetry_log'' ''created_at'' (Some Now_D)]"

definition downgrade_0002 :: "schema_op list" where
  "downgrade_0002 = Alter_Default ''telemetry_log'' ''created_at'' None # map (\<lambda>t. Alter_Default t ''id'' None) id_tables"

text \<open>What the migrations make of an empty database.\<close>

definition migrated_to :: "schema_op list \<Rightarrow> schema" where
  "migrated_to ps = (case run_ops ps [] of Ret s \<Rightarrow> s | Raise e \<Rightarrow> [])"

definition migrated_schema :: schema where
  "migrated_schema = migrated_to (upgrade_0001 @ upgrade_0002)"

end
