(* ===== verification/SchemaFlows.thy ===== *)
theory SchemaFlows
  imports Schema Blob
begin

text \<open>
  What is shown of the schema: the migrations run on any database that has none of their names, build
  the declared schema, and are undone exactly; the built schema demands of the rows what \<open>db_ok\<close> says;
  and deleting a stored object does to its referrers what the schema's \<open>ON DELETE\<close> clauses say.
\<close>

section \<open>Operations beside other tables\<close>

definition op_names :: "schema_op \<Rightarrow> string list" where
  "op_names p = (case p of
       Create_Table t \<Rightarrow> tb_name t # key_index t # map fk_table (tb_fks t)
     | Create_Index n tn cs u \<Rightarrow> [n, tn]
     | Create_Foreign_Key tn f \<Rightarrow> [tn, fk_table f]
     | Alter_Default tn c d \<Rightarrow> [tn]
     | Drop_Table n \<Rightarrow> [n]
     | Drop_Constraint c tn \<Rightarrow> [tn])"

definition avoids :: "schema \<Rightarrow> string list \<Rightarrow> bool" where
  "avoids s ns \<longleftrightarrow> list_all (\<lambda>n. n \<notin> set (relations s)) ns
     \<and> list_all (\<lambda>t. list_all (\<lambda>f. fk_table f \<notin> set ns) (tb_fks t)) s"

definition after_tables :: "schema \<Rightarrow> (schema_error, schema) outcome \<Rightarrow> (schema_error, schema) outcome" where
  "after_tables s r = oc_bind r (\<lambda>ts. Ret (s @ ts))"

lemma relations_append [simp]: "relations (s @ ts) = relations s @ relations ts"
  by (simp add: relations_def)

lemma table_in_relations: "t \<in> set s \<Longrightarrow> tb_name t \<in> set (relations s)"
  by (auto simp: relations_def table_relations_def)

lemma find_table_append: "n \<notin> set (relations s) \<Longrightarrow> find_table n (s @ ts) = find_table n ts"
  unfolding find_table_def by (induction s) (auto simp: relations_def table_relations_def)

lemma update_table_append: "n \<notin> set (relations s) \<Longrightarrow> update_table n f (s @ ts) = s @ update_table n f ts"
  unfolding update_table_def using table_in_relations by (fastforce intro: map_idI)

lemma drop_append: "n \<notin> set (relations s) \<Longrightarrow> filter (\<lambda>u. tb_name u \<noteq> n) (s @ ts) = s @ filter (\<lambda>u. tb_name u \<noteq> n) ts"
  using table_in_relations by (fastforce simp: filter_id_conv)

lemma links_append: "fk_table f \<notin> set (relations s) \<Longrightarrow> links t (s @ ts) f = links t ts f"
  by (simp add: links_def find_table_append)

lemma apply_op_beside:
  assumes "avoids s (op_names p)"
  shows "apply_op p (s @ ts) = after_tables s (apply_op p ts)"
proof (cases p)
  case (Create_Table t)
  then have "list_all (links t (s @ ts)) (tb_fks t) = list_all (links t ts) (tb_fks t)"
    using assms by (auto simp: avoids_def op_names_def list_all_iff links_append)
  then show ?thesis using assms Create_Table by (auto simp: avoids_def op_names_def after_tables_def)
next
  case (Create_Index n tn cs u)
  then show ?thesis using assms
    by (auto simp: avoids_def op_names_def after_tables_def on_table_def find_table_append update_table_append split: option.splits)
next
  case (Create_Foreign_Key tn f)
  then show ?thesis using assms
    by (auto simp: avoids_def op_names_def after_tables_def on_table_def find_table_append update_table_append links_append split: option.splits)
next
  case (Alter_Default tn c d)
  then show ?thesis using assms
    by (auto simp: avoids_def op_names_def after_tables_def on_table_def find_table_append update_table_append split: option.splits)
next
  case (Drop_Table n)
  then have "list_ex (\<lambda>u. tb_name u \<noteq> n \<and> n \<in> set (map fk_table (tb_fks u))) s = False"
    using assms by (auto simp: avoids_def op_names_def list_all_iff list_ex_iff)
  then show ?thesis using assms Drop_Table
    by (auto simp: avoids_def op_names_def after_tables_def on_table_def find_table_append drop_append simp del: filter_append split: option.splits)
next
  case (Drop_Constraint c tn)
  then show ?thesis using assms
    by (auto simp: avoids_def op_names_def after_tables_def on_table_def find_table_append update_table_append split: option.splits)
qed

lemma avoids_subset: "avoids s ns \<Longrightarrow> set ms \<subseteq> set ns \<Longrightarrow> avoids s ms"
  by (auto simp: avoids_def list_all_iff)

lemma run_ops_beside:
  "list_all (\<lambda>p. avoids s (op_names p)) ps \<Longrightarrow> run_ops ps (s @ ts) = after_tables s (run_ops ps ts)"
proof (induction ps arbitrary: ts)
  case Nil
  then show ?case by (simp add: after_tables_def)
next
  case (Cons p ps)
  then show ?case by (cases "apply_op p ts") (simp_all add: apply_op_beside after_tables_def)
qed

section \<open>The built schema and the declared one\<close>

definition same_fk :: "foreign_key \<Rightarrow> foreign_key \<Rightarrow> bool" where
  "same_fk declared built \<longleftrightarrow> fk_columns built = fk_columns declared \<and> fk_table built = fk_table declared
     \<and> fk_ref built = fk_ref declared \<and> fk_ondelete built = fk_ondelete declared
     \<and> (case fk_name declared of None \<Rightarrow> True | Some n \<Rightarrow> fk_name built = Some n)"

text \<open>The same columns, indexes and foreign keys in any order; a name that is not declared may be any.\<close>

definition same_table :: "table \<Rightarrow> table \<Rightarrow> bool" where
  "same_table declared built \<longleftrightarrow>
     distinct (column_names built) \<and> length (tb_columns built) = length (tb_columns declared)
     \<and> list_all (\<lambda>c. c \<in> set (tb_columns built)) (tb_columns declared)
     \<and> tb_key built = tb_key declared
     \<and> (case tb_key_name declared of None \<Rightarrow> True | Some n \<Rightarrow> tb_key_name built = Some n)
     \<and> length (tb_fks built) = length (tb_fks declared)
     \<and> list_all (\<lambda>f. list_ex (same_fk f) (tb_fks built)) (tb_fks declared)
     \<and> length (tb_indexes built) = length (tb_indexes declared)
     \<and> list_all (\<lambda>i. i \<in> set (tb_indexes built)) (tb_indexes declared)"

definition same_schema :: "schema \<Rightarrow> schema \<Rightarrow> bool" where
  "same_schema declared built \<longleftrightarrow> length built = length declared \<and> distinct (map tb_name built)
     \<and> list_all (\<lambda>t. case find_table (tb_name t) built of None \<Rightarrow> False | Some u \<Rightarrow> same_table t u) declared"

lemmas op_defs = create_users_def create_blobs_def create_otps_def create_api_keys_def create_logs_def create_tracebacks_def
  new_table_def upgrade_0001_def upgrade_0002_def downgrade_0001_def downgrade_0002_def id_tables_def col_def with_default_def
  fk_def index_def

lemmas run_defs = op_defs key_index_def table_relations_def relations_def has_columns_def links_def update_table_def on_table_def
  find_table_def column_names_def

lemma migrated_runs: "run_ops (upgrade_0001 @ upgrade_0002) [] = Ret migrated_schema"
  unfolding migrated_schema_def migrated_to_def by code_simp

lemma migrated_back: "run_ops (downgrade_0002 @ downgrade_0001) migrated_schema = Ret []"
  by code_simp

text \<open>No declared name is cut: the digest does not matter.\<close>

lemmas model_defs = user_model_def otp_model_def api_key_model_def blob_model_def log_record_model_def traceback_model_def

lemma declared_names_fit: "declared_schema digest = declared_schema (\<lambda>_. [])"
  by (simp add: declared_schema_def model_defs author_fks_def status_fks_def mixin_fk_def db_identifier_def
      max_db_identifier_length_def table_names Let_def)

lemma migrated_is_declared: "same_schema (declared_schema digest) migrated_schema"
proof -
  have "same_schema (declared_schema (\<lambda>_. [])) migrated_schema" by code_simp
  then show ?thesis using declared_names_fit [of digest] by metis
qed

lemma migrations_avoid:
  assumes "avoids s (relations migrated_schema)"
  shows "list_all (\<lambda>p. avoids s (op_names p)) (upgrade_0001 @ upgrade_0002)"
    "list_all (\<lambda>p. avoids s (op_names p)) (downgrade_0002 @ downgrade_0001)"
proof -
  have "list_all (\<lambda>p. list_all (\<lambda>n. n \<in> set (relations migrated_schema)) (op_names p))
      ((upgrade_0001 @ upgrade_0002) @ downgrade_0002 @ downgrade_0001)" by code_simp
  then have "avoids s (op_names p)" if "p \<in> set ((upgrade_0001 @ upgrade_0002) @ downgrade_0002 @ downgrade_0001)" for p
    using that by (intro avoids_subset [OF assms]) (auto simp: list_all_iff)
  then show "list_all (\<lambda>p. avoids s (op_names p)) (upgrade_0001 @ upgrade_0002)"
    "list_all (\<lambda>p. avoids s (op_names p)) (downgrade_0002 @ downgrade_0001)"
    by (auto simp: list_all_iff)
qed

text \<open>
  Claim C18. Run on a database none of whose tables, indexes and foreign keys uses a name of the schema, the
  two migrations succeed and add, beside what is there, exactly the tables the ORM models declare (with
  the names of their constraints, all within the length PostgreSQL keeps); running the
  downgrades on the result succeeds and gives the first database back.
\<close>

theorem migrations_spec:
  assumes "avoids s (relations migrated_schema)"
  shows "run_ops (upgrade_0001 @ upgrade_0002) s = Ret (s @ migrated_schema)
    \<and> same_schema (declared_schema digest) migrated_schema
    \<and> run_ops (downgrade_0002 @ downgrade_0001) (s @ migrated_schema) = Ret s"
  using run_ops_beside [OF migrations_avoid(1) [OF assms], of "[]"] run_ops_beside [OF migrations_avoid(2) [OF assms], of migrated_schema]
    migrated_is_declared by (simp add: migrated_runs migrated_back after_tables_def)

definition other_tables :: schema where
  "other_tables = [\<lparr>tb_name = ''alembic_version'', tb_columns = [col ''version_num'' (String_C 32) False],
     tb_key = [''version_num''], tb_key_name = Some ''alembic_version_pkc'', tb_fks = [], tb_indexes = []\<rparr>]"

theorem migrations_spec_witness:
  "avoids other_tables (relations migrated_schema)
   \<and> run_ops (upgrade_0001 @ upgrade_0002) other_tables = Ret (other_tables @ migrated_schema)
   \<and> run_ops (downgrade_0002 @ downgrade_0001) (other_tables @ migrated_schema) = Ret other_tables"
proof -
  have a: "avoids other_tables (relations migrated_schema)" by code_simp
  then show ?thesis using migrations_spec [OF a, of "\<lambda>_. []"] by blast
qed

section \<open>Rows under the built schema\<close>

datatype cell = Null | Id_V uuid | Str_V string | Bool_V bool | Int_V int | Time_V int | Bytes_V "8 word list"

type_synonym sql_row = "(string \<times> cell) list"

definition cell :: "sql_row \<Rightarrow> string \<Rightarrow> cell" where
  "cell r c = (case map_of r c of None \<Rightarrow> Null | Some v \<Rightarrow> v)"

text \<open>The kind of value of a column, widths aside.\<close>

definition kind_fits :: "sql_type \<Rightarrow> cell \<Rightarrow> bool" where
  "kind_fits t v = (case v of Null \<Rightarrow> True
     | Id_V _ \<Rightarrow> t = UUID_C
     | Str_V _ \<Rightarrow> (case t of String_C _ \<Rightarrow> True | Text_C \<Rightarrow> True | _ \<Rightarrow> False)
     | Bool_V _ \<Rightarrow> t = Boolean_C
     | Int_V _ \<Rightarrow> t = SmallInteger_C \<or> t = Integer_C \<or> t = BigInteger_C
     | Time_V _ \<Rightarrow> t = DateTime_C
     | Bytes_V _ \<Rightarrow> (case t of LargeBinary_C _ \<Rightarrow> True | _ \<Rightarrow> False))"

definition cell_ok :: "column \<Rightarrow> cell \<Rightarrow> bool" where
  "cell_ok c v \<longleftrightarrow> kind_fits (cl_type c) v \<and> (v = Null \<longrightarrow> cl_nullable c)"

definition cells :: "string list \<Rightarrow> sql_row \<Rightarrow> cell list" where
  "cells cs r = map (cell r) cs"

definition table_enforced :: "(string \<Rightarrow> sql_row list) \<Rightarrow> table \<Rightarrow> bool" where
  "table_enforced rows t = (let rs = rows (tb_name t) in
     list_all (\<lambda>r. list_all (\<lambda>c. cell_ok c (cell r (cl_name c))) (tb_columns t)) rs
     \<and> distinct (map (cells (tb_key t)) rs)
     \<and> list_all (\<lambda>i. ix_unique i \<longrightarrow> distinct (filter (\<lambda>k. Null \<notin> set k) (map (cells (ix_columns i)) rs))) (tb_indexes t)
     \<and> list_all (\<lambda>f. list_all (\<lambda>r. Null \<in> set (cells (fk_columns f) r)
           \<or> cells (fk_columns f) r \<in> set (map (cells (fk_ref f)) (rows (fk_table f)))) rs) (tb_fks t))"

definition enforced :: "schema \<Rightarrow> (string \<Rightarrow> sql_row list) \<Rightarrow> bool" where
  "enforced s rows \<longleftrightarrow> list_all (table_enforced rows) s"

definition opt :: "('a \<Rightarrow> cell) \<Rightarrow> 'a option \<Rightarrow> cell" where
  "opt f v = (case v of None \<Rightarrow> Null | Some x \<Rightarrow> f x)"

text \<open>The columns of the rows of the model; those no code writes are \<open>NULL\<close>.\<close>

definition user_cells :: "user_row \<Rightarrow> sql_row" where
  "user_cells u = [(''id'', Id_V (u_id u)), (''created_at'', Time_V (u_created_at u)), (''updated_at'', Time_V (u_updated_at u)),
     (''status'', Int_V (u_status u)), (''email'', Str_V (u_email u)), (''password'', opt Str_V (u_password u)),
     (''phone'', opt Str_V (u_phone u)), (''first_name'', Str_V (u_first_name u)), (''last_name'', Str_V (u_last_name u)),
     (''address'', opt Str_V (u_address u)), (''description'', opt Str_V (u_description u)),
     (''information'', opt Str_V (u_information u)), (''avatar_id'', opt Id_V (u_avatar_id u)),
     (''is_active'', Bool_V (u_is_active u)), (''is_superuser'', Bool_V (u_is_superuser u)),
     (''email_confirmed'', Bool_V (u_email_confirmed u)), (''date_joined'', opt Time_V (u_date_joined u)),
     (''last_login_time'', opt Time_V (u_last_login_time u))]"

definition otp_cells :: "otp_row \<Rightarrow> sql_row" where
  "otp_cells r = [(''id'', Id_V (o_id r)), (''created_at'', Time_V (o_created_at r)), (''otp'', opt Str_V (o_otp r)),
     (''content_id'', Id_V (o_content_id r)), (''content_type'', case o_content_type r of CT_USER \<Rightarrow> Str_V ''identity_user''),
     (''kind'', Int_V (otp_kind_value (o_kind r))), (''used_at'', opt Int_V (o_used_at r)), (''expires_at'', Int_V (o_expires_at r)),
     (''target_value'', Str_V (o_target_value r)), (''verified'', Bool_V (o_verified r))]"

definition blob_cells :: "blob_row \<Rightarrow> sql_row" where
  "blob_cells b = [(''id'', Id_V (b_id b)), (''created_at'', Time_V (b_created_at b)), (''updated_at'', Time_V (b_updated_at b)),
     (''created_by_id'', opt Id_V (b_created_by_id b)), (''updated_by_id'', opt Id_V (b_updated_by_id b)), (''name'', Str_V (b_name b)),
     (''kind'', Int_V (case b_kind b of BK_RAW \<Rightarrow> 0 | BK_IMAGE \<Rightarrow> 1)), (''content_type'', opt Str_V (b_content_type b)),
     (''size'', opt Int_V (b_size b)), (''path'', Str_V (b_path b)), (''medium_path'', opt Str_V (b_medium_path b)),
     (''thumbnail_path'', opt Str_V (b_thumbnail_path b))]"

definition key_cells :: "api_key_row \<Rightarrow> sql_row" where
  "key_cells k = [(''id'', Id_V (k_id k)), (''created_at'', Time_V (k_created_at k)), (''updated_at'', Time_V (k_updated_at k)),
     (''key'', Bytes_V (k_key k)), (''status'', Int_V (case k_status k of KEY_ACTIVE \<Rightarrow> 1 | KEY_INACTIVE \<Rightarrow> 2 | KEY_BLOCKED \<Rightarrow> 3)),
     (''last_used_at'', opt Int_V (k_last_used_at k)), (''owner_id'', Id_V (k_owner_id k))]"

definition rows_of :: "db \<Rightarrow> string \<Rightarrow> sql_row list" where
  "rows_of d t =
     (if t = USER_T then map user_cells (db_users d)
      else if t = OTP_T then map otp_cells (db_otps d)
      else if t = BLOB_OBJECT_T then map blob_cells (db_blobs d)
      else if t = API_KEY_T then map key_cells (db_api_keys d)
      else [])"

lemma kind_fits_opt [simp]: "kind_fits t (opt f v) \<longleftrightarrow> (case v of None \<Rightarrow> True | Some x \<Rightarrow> kind_fits t (f x))"
  by (simp add: opt_def kind_fits_def split: option.splits)

lemma kind_fits_simps [simp]:
  "kind_fits t Null" "kind_fits UUID_C (Id_V i)" "kind_fits (String_C n) (Str_V x)" "kind_fits Text_C (Str_V x)"
  "kind_fits Boolean_C (Bool_V b)" "kind_fits SmallInteger_C (Int_V k)" "kind_fits Integer_C (Int_V k)"
  "kind_fits BigInteger_C (Int_V k)" "kind_fits DateTime_C (Time_V k)" "kind_fits (LargeBinary_C n) (Bytes_V bs)"
  by (simp_all add: kind_fits_def)

lemma opt_Null [simp]: "(\<And>x. f x \<noteq> Null) \<Longrightarrow> opt f v = Null \<longleftrightarrow> v = None" "(\<And>x. f x \<noteq> Null) \<Longrightarrow> Null = opt f v \<longleftrightarrow> v = None"
  by (simp_all add: opt_def eq_commute [of Null] split: option.splits)

lemma user_cell:
  "cell (user_cells u) ''id'' = Id_V (u_id u)" "cell (user_cells u) ''created_at'' = Time_V (u_created_at u)"
  "cell (user_cells u) ''updated_at'' = Time_V (u_updated_at u)" "cell (user_cells u) ''status'' = Int_V (u_status u)"
  "cell (user_cells u) ''email'' = Str_V (u_email u)" "cell (user_cells u) ''password'' = opt Str_V (u_password u)"
  "cell (user_cells u) ''phone'' = opt Str_V (u_phone u)" "cell (user_cells u) ''first_name'' = Str_V (u_first_name u)"
  "cell (user_cells u) ''last_name'' = Str_V (u_last_name u)" "cell (user_cells u) ''address'' = opt Str_V (u_address u)"
  "cell (user_cells u) ''description'' = opt Str_V (u_description u)" "cell (user_cells u) ''information'' = opt Str_V (u_information u)"
  "cell (user_cells u) ''avatar_id'' = opt Id_V (u_avatar_id u)" "cell (user_cells u) ''is_active'' = Bool_V (u_is_active u)"
  "cell (user_cells u) ''is_superuser'' = Bool_V (u_is_superuser u)" "cell (user_cells u) ''email_confirmed'' = Bool_V (u_email_confirmed u)"
  "cell (user_cells u) ''date_joined'' = opt Time_V (u_date_joined u)" "cell (user_cells u) ''last_login_time'' = opt Time_V (u_last_login_time u)"
  "cell (user_cells u) ''activated_at'' = Null" "cell (user_cells u) ''deactivated_at'' = Null"
  "cell (user_cells u) ''activated_by_id'' = Null" "cell (user_cells u) ''deactivated_by_id'' = Null"
  by (simp_all add: cell_def user_cells_def)

definition built :: "string \<Rightarrow> table" where
  "built n = the (find_table n migrated_schema)"

lemma migrated_tables: "migrated_schema = map built [''identity_user'', ''blob_object'', ''identity_otp'', ''identity_api_key'',
    ''telemetry_log'', ''telemetry_log_traceback'']"
  by code_simp

lemma built_columns:
  "list_all (\<lambda>t. list_all (\<lambda>c. c \<in> set (tb_columns t)) (tb_columns (built (tb_name t)))) (declared_schema (\<lambda>_. []))"
  by code_simp

lemma fits_if_declared:
  assumes "t \<in> set (declared_schema (\<lambda>_. []))"
    and "list_all (\<lambda>c. cell_ok c (cell r (cl_name c))) (tb_columns t)"
  shows "list_all (\<lambda>c. cell_ok c (cell r (cl_name c))) (tb_columns (built (tb_name t)))"
  using assms built_columns unfolding list_all_iff by blast

lemmas declared_defs = declared_schema_def model_defs table_names status_columns_def chrono_columns_def author_columns_def
  id_column_def with_default_def col_def cell_ok_def

lemma otp_cell:
  "cell (otp_cells r) ''id'' = Id_V (o_id r)" "cell (otp_cells r) ''created_at'' = Time_V (o_created_at r)"
  "cell (otp_cells r) ''otp'' = opt Str_V (o_otp r)" "cell (otp_cells r) ''content_id'' = Id_V (o_content_id r)"
  "cell (otp_cells r) ''content_type'' = Str_V ''identity_user''" "cell (otp_cells r) ''kind'' = Int_V (otp_kind_value (o_kind r))"
  "cell (otp_cells r) ''used_at'' = opt Int_V (o_used_at r)" "cell (otp_cells r) ''expires_at'' = Int_V (o_expires_at r)"
  "cell (otp_cells r) ''target_value'' = Str_V (o_target_value r)" "cell (otp_cells r) ''verified'' = Bool_V (o_verified r)"
  by (simp_all add: cell_def otp_cells_def split: content_type.split)

lemma blob_cell:
  "cell (blob_cells b) ''id'' = Id_V (b_id b)" "cell (blob_cells b) ''created_at'' = Time_V (b_created_at b)"
  "cell (blob_cells b) ''updated_at'' = Time_V (b_updated_at b)" "cell (blob_cells b) ''created_by_id'' = opt Id_V (b_created_by_id b)"
  "cell (blob_cells b) ''updated_by_id'' = opt Id_V (b_updated_by_id b)" "cell (blob_cells b) ''name'' = Str_V (b_name b)"
  "cell (blob_cells b) ''kind'' = Int_V (case b_kind b of BK_RAW \<Rightarrow> 0 | BK_IMAGE \<Rightarrow> 1)"
  "cell (blob_cells b) ''content_type'' = opt Str_V (b_content_type b)" "cell (blob_cells b) ''size'' = opt Int_V (b_size b)"
  "cell (blob_cells b) ''path'' = Str_V (b_path b)" "cell (blob_cells b) ''medium_path'' = opt Str_V (b_medium_path b)"
  "cell (blob_cells b) ''thumbnail_path'' = opt Str_V (b_thumbnail_path b)"
  by (simp_all add: cell_def blob_cells_def)

lemma key_cell:
  "cell (key_cells k) ''id'' = Id_V (k_id k)" "cell (key_cells k) ''created_at'' = Time_V (k_created_at k)"
  "cell (key_cells k) ''updated_at'' = Time_V (k_updated_at k)" "cell (key_cells k) ''key'' = Bytes_V (k_key k)"
  "cell (key_cells k) ''status'' = Int_V (case k_status k of KEY_ACTIVE \<Rightarrow> 1 | KEY_INACTIVE \<Rightarrow> 2 | KEY_BLOCKED \<Rightarrow> 3)"
  "cell (key_cells k) ''last_used_at'' = opt Int_V (k_last_used_at k)" "cell (key_cells k) ''owner_id'' = Id_V (k_owner_id k)"
  by (simp_all add: cell_def key_cells_def)

lemma user_fits: "list_all (\<lambda>c. cell_ok c (cell (user_cells u) (cl_name c))) (tb_columns (built ''identity_user''))"
  using fits_if_declared [of "user_model (\<lambda>_. [])" "user_cells u"] by (simp add: declared_defs user_cell split: option.splits)

lemma otp_fits: "list_all (\<lambda>c. cell_ok c (cell (otp_cells r) (cl_name c))) (tb_columns (built ''identity_otp''))"
  using fits_if_declared [of "otp_model (\<lambda>_. [])" "otp_cells r"] by (simp add: declared_defs otp_cell split: option.splits)

lemma blob_fits: "list_all (\<lambda>c. cell_ok c (cell (blob_cells b) (cl_name c))) (tb_columns (built ''blob_object''))"
  using fits_if_declared [of "blob_model (\<lambda>_. [])" "blob_cells b"] by (simp add: declared_defs blob_cell split: option.splits)

lemma key_fits: "list_all (\<lambda>c. cell_ok c (cell (key_cells k) (cl_name c))) (tb_columns (built ''identity_api_key''))"
  using fits_if_declared [of "api_key_model (\<lambda>_. [])" "key_cells k"] by (simp add: declared_defs key_cell split: option.splits)

lemma built_tables:
  "map (\<lambda>t. (tb_name t, tb_key t, tb_indexes t, tb_fks t)) migrated_schema =
    [(''identity_user'', [''id''], [index ''ix_identity_user_email'' [''email''] True],
      [fk (Some ''fk_identity_user__activated_by_id__identity_user__id'') ''activated_by_id'' ''identity_user'' SET_NULL,
       fk (Some ''fk_identity_user__deactivated_by_id__identity_user__id'') ''deactivated_by_id'' ''identity_user'' SET_NULL,
       fk (Some ''fk_identity_user__avatar_id__blob_object__id'') ''avatar_id'' ''blob_object'' SET_NULL]),
     (''blob_object'', [''id''], [],
      [fk (Some ''fk_blob_object__created_by_id__identity_user__id'') ''created_by_id'' ''identity_user'' SET_NULL,
       fk (Some ''fk_blob_object__updated_by_id__identity_user__id'') ''updated_by_id'' ''identity_user'' SET_NULL]),
     (''identity_otp'', [''id''], [index ''idx_identity_otp__content__kind'' [''content_id'', ''content_type'', ''kind''] False], []),
     (''identity_api_key'', [''id''], [index ''ix_identity_api_key_key'' [''key''] False], [fk None ''owner_id'' ''identity_user'' CASCADE]),
     (''telemetry_log'', [''id''], tb_indexes (built ''telemetry_log''), []),
     (''telemetry_log_traceback'', [''log_id''], [],
      [fk (Some ''pk_telemetry_log_traceback__log_id__telemetry_log__id'') ''log_id'' ''telemetry_log'' CASCADE])]"
  by code_simp

lemmas built_facts = built_tables [unfolded migrated_tables, simplified]

lemma rows_simps:
  "rows_of d ''identity_user'' = map user_cells (db_users d)" "rows_of d ''identity_otp'' = map otp_cells (db_otps d)"
  "rows_of d ''blob_object'' = map blob_cells (db_blobs d)" "rows_of d ''identity_api_key'' = map key_cells (db_api_keys d)"
  "rows_of d ''telemetry_log'' = []" "rows_of d ''telemetry_log_traceback'' = []"
  by (simp_all add: rows_of_def table_names)

lemma cells_one: "cells [c] r = [cell r c]"
  by (simp add: cells_def)

lemmas enforcement = table_enforced_def rows_simps Let_def index_def fk_def cells_one

lemma distinct_tag: "inj C \<Longrightarrow> distinct (map (\<lambda>x. [C (f x)]) xs) \<longleftrightarrow> distinct (map f xs)"
  by (induction xs) (auto simp: inj_eq)

lemma inj_cells: "inj Id_V" "inj Str_V"
  by (simp_all add: inj_def)

text \<open>A foreign key of one column, to the ids of some rows.\<close>

lemma refers_opt: "v = None \<or> [opt Id_V v] \<in> (\<lambda>x. [Id_V (f x)]) ` S \<longleftrightarrow> (case v of None \<Rightarrow> True | Some i \<Rightarrow> i \<in> f ` S)"
  by (auto simp: opt_def split: option.splits)

lemma refers: "[Id_V i] \<in> (\<lambda>x. [Id_V (f x)]) ` S \<longleftrightarrow> i \<in> f ` S"
  by auto

lemmas enforcement_simps = list.pred_map list.pred_True image_image comp_def user_cell otp_cell blob_cell key_cell
  user_fits otp_fits blob_fits key_fits distinct_tag inj_cells refers_opt refers

lemma users_enforced: "table_enforced (rows_of d) (built ''identity_user'') \<longleftrightarrow>
    distinct (map u_id (db_users d)) \<and> distinct (map u_email (db_users d))
    \<and> list_all (\<lambda>u. case u_avatar_id u of None \<Rightarrow> True | Some b \<Rightarrow> b \<in> set (map b_id (db_blobs d))) (db_users d)"
  by (simp add: enforcement built_facts enforcement_simps cong: option.case_cong)

lemma blobs_enforced: "table_enforced (rows_of d) (built ''blob_object'') \<longleftrightarrow>
    distinct (map b_id (db_blobs d))
    \<and> list_all (\<lambda>b. case b_created_by_id b of None \<Rightarrow> True | Some u \<Rightarrow> u \<in> set (map u_id (db_users d))) (db_blobs d)
    \<and> list_all (\<lambda>b. case b_updated_by_id b of None \<Rightarrow> True | Some u \<Rightarrow> u \<in> set (map u_id (db_users d))) (db_blobs d)"
  by (simp add: enforcement built_facts enforcement_simps cong: option.case_cong)

lemma otps_enforced: "table_enforced (rows_of d) (built ''identity_otp'') \<longleftrightarrow> distinct (map o_id (db_otps d))"
  by (simp add: enforcement built_facts enforcement_simps)

lemma keys_enforced: "table_enforced (rows_of d) (built ''identity_api_key'') \<longleftrightarrow>
    distinct (map k_id (db_api_keys d)) \<and> list_all (\<lambda>k. k_owner_id k \<in> set (map u_id (db_users d))) (db_api_keys d)"
  by (simp add: enforcement built_facts enforcement_simps)

lemma logs_enforced:
  "table_enforced (rows_of d) (built ''telemetry_log'')" "table_enforced (rows_of d) (built ''telemetry_log_traceback'')"
  by (simp_all add: enforcement built_facts list_all_iff)

text \<open>
  Claim C16. The constraints that every statement of the model is checked against are those of the schema the
  migrations build: a database is accepted by \<open>db_ok\<close> exactly when its rows, laid out in the columns
  of the built tables, have a value of the column's kind in every column (and in every one that is not
  nullable), and no primary key, unique index or foreign key is violated.
\<close>

theorem schema_is_db_ok: "enforced migrated_schema (rows_of d) \<longleftrightarrow> db_ok d"
  by (auto simp: enforced_def migrated_tables db_ok_def users_enforced blobs_enforced otps_enforced keys_enforced logs_enforced)

section \<open>Deleting a row\<close>

text \<open>
  \<open>DELETE\<close> of the row with an id: the rows that refer to it through a foreign key with \<open>ON DELETE SET NULL\<close> lose the
  reference, those with \<open>CASCADE\<close> are deleted too (and nothing refers to them in this schema).
\<close>

definition set_null :: "string list \<Rightarrow> sql_row \<Rightarrow> sql_row" where
  "set_null cs r = map (\<lambda>(c, v). (c, if c \<in> set cs then Null else v)) r"

definition apply_fk :: "string \<Rightarrow> uuid \<Rightarrow> foreign_key \<Rightarrow> sql_row list \<Rightarrow> sql_row list" where
  "apply_fk n i f rs =
     (if fk_table f \<noteq> n then rs
      else let hit = (\<lambda>r. cells (fk_columns f) r = [Id_V i])
       in case fk_ondelete f of
            CASCADE \<Rightarrow> filter (\<lambda>r. \<not> hit r) rs
          | SET_NULL \<Rightarrow> map (\<lambda>r. if hit r then set_null (fk_columns f) r else r) rs)"

definition delete_row :: "schema \<Rightarrow> string \<Rightarrow> uuid \<Rightarrow> (string \<Rightarrow> sql_row list) \<Rightarrow> string \<Rightarrow> sql_row list" where
  "delete_row s n i rows t =
     (let rs = (if t = n then filter (\<lambda>r. cell r ''id'' \<noteq> Id_V i) (rows t) else rows t)
      in case find_table t s of None \<Rightarrow> rs | Some u \<Rightarrow> fold (apply_fk n i) (tb_fks u) rs)"

lemma drop_avatar_cells:
  "user_cells (drop_avatar i u) = (if opt Id_V (u_avatar_id u) = Id_V i then set_null [''avatar_id''] (user_cells u) else user_cells u)"
  by (simp add: user_cells_def drop_avatar_def set_null_def opt_def split: option.splits)

lemma found_tables:
  "find_table ''identity_user'' migrated_schema = Some (built ''identity_user'')"
  "find_table ''identity_otp'' migrated_schema = Some (built ''identity_otp'')"
  "find_table ''blob_object'' migrated_schema = Some (built ''blob_object'')"
  "find_table ''identity_api_key'' migrated_schema = Some (built ''identity_api_key'')"
  by (simp_all add: find_table_def migrated_tables built_facts)

lemma apply_fk_Nil: "fold (apply_fk n i) fs [] = []"
  by (induction fs) (simp_all add: apply_fk_def Let_def split: on_delete.split)

text \<open>
  Deleting a stored object removes the row and, as the schema says, takes it out of the accounts it
  was the avatar of.
\<close>

lemmas delete_simps = delete_row_def rows_simps found_tables built_facts apply_fk_def fk_def
  cells_one remove_blob_def Let_def

lemma remove_blob_by_schema: "rows_of (remove_blob i d) t = delete_row migrated_schema ''blob_object'' i (rows_of d) t"
proof -
  consider "t = ''identity_user''" | "t = ''identity_otp''" | "t = ''blob_object''" | "t = ''identity_api_key''"
    | "t \<notin> {USER_T, OTP_T, BLOB_OBJECT_T, API_KEY_T}" by (auto simp: table_names)
  then show ?thesis
  proof cases
    case 1
    then show ?thesis by (simp add: delete_simps drop_avatar_cells user_cell comp_def)
  next
    case 2
    then show ?thesis by (simp add: delete_simps)
  next
    case 3
    then show ?thesis by (simp add: delete_simps filter_map comp_def blob_cell)
  next
    case 4
    then show ?thesis by (simp add: delete_simps)
  next
    case 5
    then show ?thesis by (simp add: rows_of_def delete_row_def apply_fk_Nil table_names split: option.split)
  qed
qed

section \<open>The writer of the telemetry\<close>

text \<open>\<open>_COLUMNS\<close> of \<open>writers/postgres.py\<close>: what its \<open>INSERT\<close> gives values for.\<close>

definition log_columns :: "string list" where
  "log_columns = [''trace_id'', ''kind'', ''service'', ''level'', ''ts'', ''epoch'', ''exec_ms'', ''user_id'', ''ip'', ''method'', ''url'',
     ''url_params'', ''data'', ''status_code'', ''user_agent'', ''message'']"

text \<open>An \<open>INSERT\<close> that leaves out only columns with a default or that may be \<open>NULL\<close>.\<close>

definition insertable :: "schema \<Rightarrow> string \<Rightarrow> string list \<Rightarrow> bool" where
  "insertable s n cs = (case find_table n s of None \<Rightarrow> False
     | Some t \<Rightarrow> has_columns t cs \<and> list_all (\<lambda>c. cl_name c \<in> set cs \<or> cl_nullable c \<or> cl_default c \<noteq> None) (tb_columns t))"

text \<open>The second migration is what lets the writer insert.\<close>

lemma writer_needs_0002:
  "\<not> insertable (migrated_to upgrade_0001) TELEMETRY_LOG_T log_columns" "insertable migrated_schema TELEMETRY_LOG_T log_columns"
  by code_simp+

end
