(* ===== verification/Adapters.thy ===== *)
theory Adapters
  imports Errors Utils
begin

text \<open>
  The adapters to other services: the HTTP client (\<open>infra/adapters/http_client.py\<close>), the cache
  (\<open>modules/cache\<close>), mail delivery (\<open>infra/services/email_service.py\<close>) and the registry of a context
  variable (\<open>shared_kernel/registries/context_registry.py\<close>). What the other side answers is a parameter.
\<close>

section \<open>HTTP client (http\_client.py)\<close>

text \<open>
  What a request of httpx may end with: an answer, a timeout, another \<open>RequestError\<close>, or an exception
  that is neither, such as an invalid URL. A \<open>RequestError\<close>, timeouts included, has no \<open>response\<close>.
\<close>

record 'b http_answer =
  ha_status :: nat
  ha_body :: 'b

datatype http_failure = Timeout_Exception | Request_Error | Not_Httpx exn

text \<open>\<open>raise_for_status\<close> lets the successful statuses pass.\<close>

definition is_success :: "nat \<Rightarrow> bool" where
  "is_success st \<longleftrightarrow> 200 \<le> st \<and> st < 300"

definition full_url :: "bool \<Rightarrow> string \<Rightarrow> string" where
  "full_url use_tls rest = (if use_tls then ''https'' else ''http'') @ ''://'' @ rest"

type_synonym 'b transport = "string \<Rightarrow> (http_failure, 'b http_answer) outcome"

definition is_alive :: "'b transport \<Rightarrow> bool \<Rightarrow> string \<Rightarrow> (exn, bool) outcome" where
  "is_alive head use_tls host = (case head (full_url use_tls host) of
       Ret a \<Rightarrow> Ret (is_success (ha_status a))
     | Raise (Not_Httpx e) \<Rightarrow> Raise e
     | Raise f \<Rightarrow> Ret False)"

definition route_exists :: "'b transport \<Rightarrow> bool \<Rightarrow> string \<Rightarrow> (exn, bool) outcome" where
  "route_exists head use_tls path = (case head (full_url use_tls path) of
       Ret a \<Rightarrow> Ret (ha_status a \<noteq> 404)
     | Raise (Not_Httpx e) \<Rightarrow> Raise e
     | Raise f \<Rightarrow> Ret False)"

text \<open>
  \<open>post\<close>. \<open>texts\<close> gives the messages, which are not in the set of \<open>char\<close>; \<open>dto\<close> builds the result from
  the body, \<open>None\<close> is its default. The handler of timeouts and error statuses reads \<open>e.response\<close>.
\<close>

datatype http_text = Unexpected_Answer string | Network_Error string | Undecodable

definition http_detail :: "(http_text \<Rightarrow> string) \<Rightarrow> http_text \<Rightarrow> detail" where
  "http_detail texts t = mk_detail UNEXPECTED_RESPONSE None (Some (texts t))"

definition http_post :: "(http_text \<Rightarrow> string) \<Rightarrow> 'b transport \<Rightarrow> ('b \<Rightarrow> (exn, 'v) outcome) option \<Rightarrow> bool \<Rightarrow> string
    \<Rightarrow> (exn, ('v, detail) result) outcome" where
  "http_post texts send dto use_tls url =
     (let parts = py_split (CHR ''/'') url in
      case send (full_url use_tls url) of
        Raise Timeout_Exception \<Rightarrow> Raise (AttributeError ''response'')
      | Raise Request_Error \<Rightarrow>
          if length parts < 3 then Raise (OtherError ''IndexError'')
          else Ret (Err (http_detail texts (Network_Error (parts ! 2))))
      | Raise (Not_Httpx e) \<Rightarrow> Raise e
      | Ret a \<Rightarrow>
          if \<not> is_success (ha_status a) then Ret (Err (http_detail texts (Unexpected_Answer (parts ! 0))))
          else (case dto of
              None \<Rightarrow> Ret (Err (http_detail texts Undecodable))
            | Some build \<Rightarrow> (case build (ha_body a) of
                  Ret v \<Rightarrow> Ret (Ok v)
                | Raise e \<Rightarrow> Ret (Err (http_detail texts Undecodable)))))"

text \<open>Which posts raise, although the port promises a \<open>Result\<close>; and the default \<open>dto\<close> never succeeds.\<close>

lemma http_post_raises:
  "(\<exists>e. http_post texts send dto use_tls url = Raise e) \<longleftrightarrow>
     (case send (full_url use_tls url) of Ret a \<Rightarrow> False
      | Raise Timeout_Exception \<Rightarrow> True | Raise (Not_Httpx e) \<Rightarrow> True
      | Raise Request_Error \<Rightarrow> length (py_split (CHR ''/'') url) < 3)"
  by (auto simp: http_post_def Let_def split: outcome.splits http_failure.splits option.splits)

lemma http_post_Ok:
  "http_post texts send dto use_tls url = Ret (Ok v) \<longleftrightarrow>
     (\<exists>a build. send (full_url use_tls url) = Ret a \<and> is_success (ha_status a) \<and> dto = Some build \<and> build (ha_body a) = Ret v)"
  by (auto simp: http_post_def Let_def split: outcome.splits http_failure.splits option.splits)

section \<open>Cache (redis\_client.py, ports.py)\<close>

text \<open>
  The server as its documentation has it: a value with the time at which it expires, a clock, and
  whether it can be reached. \<open>SET\<close> refuses an expiry of less than one second.
\<close>

record server =
  sv_store :: "string \<rightharpoonup> 8 word list \<times> rat option"
  sv_now :: rat
  sv_up :: bool

definition unreachable :: exn where "unreachable = OtherError ''ConnectionError''"

definition server_set :: "string \<Rightarrow> 8 word list \<Rightarrow> int option \<Rightarrow> (server, exn, unit) prog" where
  "server_set k v ex s =
     (if \<not> sv_up s then (Raise unreachable, s)
      else if (case ex of Some n \<Rightarrow> n \<le> 0 | None \<Rightarrow> False) then (Raise (OtherError ''ResponseError''), s)
      else (Ret (), s\<lparr>sv_store := (sv_store s)(k \<mapsto> (v, map_option (\<lambda>n. sv_now s + of_int n) ex))\<rparr>))"

definition live :: "rat \<Rightarrow> 8 word list \<times> rat option \<Rightarrow> bool" where
  "live now x = (case snd x of None \<Rightarrow> True | Some e \<Rightarrow> now < e)"

definition server_get :: "string \<Rightarrow> (server, exn, 8 word list option) prog" where
  "server_get k s = (if \<not> sv_up s then (Raise unreachable, s)
     else (Ret (case sv_store s k of Some x \<Rightarrow> if live (sv_now s) x then Some (fst x) else None | None \<Rightarrow> None), s))"

definition server_delete :: "string list \<Rightarrow> (server, exn, unit) prog" where
  "server_delete ks s = (if \<not> sv_up s then (Raise unreachable, s)
     else (Ret (), s\<lparr>sv_store := sv_store s |` (- set ks)\<rparr>))"

text \<open>The client: \<open>int(ttl) if ttl else None\<close>, and every exception swallowed.\<close>

definition expiry_of :: "rat option \<Rightarrow> int option" where
  "expiry_of ttl = (case ttl of None \<Rightarrow> None | Some t \<Rightarrow> if t = 0 then None else Some (rat_trunc t))"

definition cache_set :: "string \<Rightarrow> 8 word list \<Rightarrow> rat option \<Rightarrow> (server, exn, unit) prog" where
  "cache_set k v ttl = py_catch (server_set k v (expiry_of ttl)) (\<lambda>e. py_ret ())"

definition cache_get :: "string \<Rightarrow> (server, exn, 8 word list option) prog" where
  "cache_get k = py_catch (server_get k) (\<lambda>e. py_ret None)"

definition cache_invalidate :: "string list \<Rightarrow> (server, exn, unit) prog" where
  "cache_invalidate ks = (if ks = [] then py_ret () else py_catch (server_delete ks) (\<lambda>e. py_ret ()))"

text \<open>What a cache promises its callers: it shows a map, never raises, and forgets when told to.\<close>

locale cache =
  fixes usable :: "'s \<Rightarrow> bool"
    and view :: "'s \<Rightarrow> string \<rightharpoonup> 'v"
    and put :: "string \<Rightarrow> 'v \<Rightarrow> rat option \<Rightarrow> ('s, exn, unit) prog"
    and read :: "string \<Rightarrow> ('s, exn, 'v option) prog"
    and drop_keys :: "string list \<Rightarrow> ('s, exn, unit) prog"
  assumes put_returns: "fst (put k v ttl s) = Ret ()"
    and read_returns: "\<exists>x. read k s = (Ret x, s)"
    and drop_returns: "fst (drop_keys ks s) = Ret ()"
    and put_usable: "usable s \<Longrightarrow> usable (snd (put k v ttl s))"
    and drop_usable: "usable s \<Longrightarrow> usable (snd (drop_keys ks s))"
    and put_view: "usable s \<Longrightarrow> view (snd (put k v None s)) = (view s)(k \<mapsto> v)"
    and read_view: "usable s \<Longrightarrow> read k s = (Ret (view s k), s)"
    and drop_view: "usable s \<Longrightarrow> view (snd (drop_keys ks s)) = view s |` (- set ks)"
begin

lemma read_your_writes: "usable s \<Longrightarrow> fst (read j (snd (put k v None s))) = Ret (if j = k then Some v else view s j)"
  by (simp add: put_usable put_view read_view)

lemma dropped_keys_miss: "usable s \<Longrightarrow> k \<in> set ks \<Longrightarrow> fst (read k (snd (drop_keys ks s))) = Ret None"
  by (simp add: drop_usable drop_view read_view restrict_map_def)

lemma last_write_wins:
  "usable s \<Longrightarrow> view (snd (put k v None (snd (put k u None s)))) = view (snd (put k v None s))"
  by (simp add: put_usable put_view)

end

definition cache_view :: "server \<Rightarrow> string \<rightharpoonup> 8 word list" where
  "cache_view s = (\<lambda>k. case sv_store s k of Some x \<Rightarrow> if live (sv_now s) x then Some (fst x) else None | None \<Rightarrow> None)"

interpretation redis: cache sv_up cache_view cache_set cache_get cache_invalidate
  by unfold_locales
    (auto simp: cache_set_def cache_get_def cache_invalidate_def server_set_def server_get_def server_delete_def py_catch_def
      cache_view_def live_def expiry_of_def restrict_map_def fun_eq_iff split: option.splits)

text \<open>The value of a key some time after it was stored, and the values of the others.\<close>

definition later :: "rat \<Rightarrow> server \<Rightarrow> server" where
  "later d s = s\<lparr>sv_now := sv_now s + d\<rparr>"

text \<open>How long a value is to be kept: for ever without a time to live or with 0, else that many whole seconds.\<close>

definition kept_for :: "rat option \<Rightarrow> rat \<Rightarrow> bool" where
  "kept_for ttl d = (case ttl of None \<Rightarrow> True | Some t \<Rightarrow> t = 0 \<or> 1 \<le> t \<and> d < of_int \<lfloor>t\<rfloor>)"

lemma kept_expiry: "kept_for ttl d \<longleftrightarrow> (case expiry_of ttl of None \<Rightarrow> True | Some n \<Rightarrow> 0 < n \<and> d < of_int n)"
proof (cases ttl)
  case (Some t)
  have "0 < rat_trunc t \<longleftrightarrow> 1 \<le> t" by (simp add: rat_trunc_def less_le_not_le) linarith
  moreover have "1 \<le> t \<Longrightarrow> rat_trunc t = \<lfloor>t\<rfloor>" by (simp add: rat_trunc_def)
  ultimately show ?thesis by (auto simp: Some kept_for_def expiry_of_def)
qed (simp add: kept_for_def expiry_of_def)

text \<open>
  Claim C38. The cache as its callers see it. No operation raises, reachable or not; while the server cannot be
  reached every read is a miss and nothing changes; otherwise a stored value is read back until as many whole
  seconds are over as its time to live has, for ever without one or with 0, other keys keep theirs, and
  invalidated keys miss. A time to live below one second stores nothing.
\<close>

theorem cache_refines:
  "fst (cache_set k v ttl s) = Ret () \<and> fst (cache_invalidate ks s) = Ret () \<and> (\<exists>x. cache_get k s = (Ret x, s))
   \<and> (if sv_up s then
        cache_get k s = (Ret (cache_view s k), s)
        \<and> cache_view (snd (cache_invalidate ks s)) = cache_view s |` (- set ks)
        \<and> (if kept_for ttl 0
           then cache_view (later d (snd (cache_set k v ttl s))) =
             (cache_view (later d s))(k := (if kept_for ttl d then Some v else None))
           else cache_set k v ttl s = (Ret (), s))
      else cache_get k s = (Ret None, s) \<and> cache_set k v ttl s = (Ret (), s) \<and> cache_invalidate ks s = (Ret (), s))"
proof -
  have a: "fst (cache_set k v ttl s) = Ret () \<and> fst (cache_invalidate ks s) = Ret () \<and> (\<exists>x. cache_get k s = (Ret x, s))"
    by (simp add: redis.put_returns redis.drop_returns redis.read_returns)
  have down: "cache_get k s = (Ret None, s) \<and> cache_set k v ttl s = (Ret (), s) \<and> cache_invalidate ks s = (Ret (), s)"
    if "\<not> sv_up s"
    using that by (simp add: cache_get_def cache_set_def cache_invalidate_def server_get_def server_set_def server_delete_def py_catch_def)
  have up: "if kept_for ttl 0
      then cache_view (later d (snd (cache_set k v ttl s))) = (cache_view (later d s))(k := (if kept_for ttl d then Some v else None))
      else cache_set k v ttl s = (Ret (), s)" if "sv_up s"
  proof (cases "kept_for ttl 0")
    case True
    then have "cache_set k v ttl s = (Ret (), s\<lparr>sv_store := (sv_store s)(k \<mapsto> (v, map_option (\<lambda>n. sv_now s + of_int n) (expiry_of ttl)))\<rparr>)"
      using that by (auto simp: cache_set_def server_set_def py_catch_def kept_expiry split: option.splits)
    then show ?thesis using True
      by (auto simp: cache_view_def later_def live_def kept_expiry fun_eq_iff split: option.splits)
  next
    case False
    then show ?thesis using that by (auto simp: cache_set_def server_set_def py_catch_def kept_expiry split: option.splits)
  qed
  show ?thesis using a down up redis.read_view [of s k] redis.drop_view [of s ks] by (cases "sv_up s") simp_all
qed

text \<open>A time to live of no second means for ever, one of half a second not at all.\<close>

lemma ttl_zero_is_for_ever: "kept_for (Some 0) d"
  by (simp add: kept_for_def)

lemma half_second_not_stored: "\<not> kept_for (Some (1/2)) 0"
  by (simp add: kept_for_def)

section \<open>Mail delivery (email\_service.py)\<close>

record attachment =
  at_name :: string
  at_type :: string
  at_data :: "8 word list"

record outgoing =
  og_from :: string
  og_to :: string
  og_subject :: string
  og_content :: string
  og_subtype :: string
  og_attachments :: "attachment list"

text \<open>
  \<open>guess\<close> is \<open>mimetypes.guess_type\<close>, the type and the encoding; \<open>name_of\<close> the last part of a path and
  \<open>read\<close> the bytes of a file, with its \<open>OSError\<close>.
\<close>

record mail_files =
  mf_guess :: "string \<Rightarrow> string option \<times> string option"
  mf_read :: "string \<Rightarrow> (exn, 8 word list) outcome"
  mf_base :: "string \<Rightarrow> string"

definition attach :: "mail_files \<Rightarrow> string \<Rightarrow> (exn, attachment) outcome" where
  "attach F path = (let (ctype, enc) = mf_guess F path;
       t = (case ctype of Some t \<Rightarrow> if enc = None then t else ''application/octet-stream'' | None \<Rightarrow> ''application/octet-stream'')
     in oc_bind (mf_read F path) (\<lambda>d. Ret \<lparr>at_name = mf_base F path, at_type = t, at_data = d\<rparr>))"

definition build_mail :: "mail_files \<Rightarrow> string \<Rightarrow> string \<Rightarrow> string \<Rightarrow> string \<Rightarrow> string list \<Rightarrow> string \<Rightarrow> (exn, outgoing) outcome" where
  "build_mail F username subject content subtype paths d =
     oc_bind (oc_mapM (attach F) paths) (\<lambda>as.
       Ret \<lparr>og_from = ''Anbor <'' @ username @ ''> '', og_to = d, og_subject = subject, og_content = content,
            og_subtype = subtype, og_attachments = as\<rparr>)"

text \<open>
  \<open>send_email\<close>: all messages are built before any is sent; then every one is tried, and what fails is
  logged. \<open>deliver\<close> is the SMTP server: \<open>None\<close> for an accepted message. The answer is the accepted
  messages and the recipients in the log.
\<close>

definition send_email :: "mail_files \<Rightarrow> (outgoing \<Rightarrow> exn option) \<Rightarrow> string \<Rightarrow> string list \<Rightarrow> string \<Rightarrow> string \<Rightarrow> string
    \<Rightarrow> string list \<Rightarrow> (exn, outgoing list \<times> string list) outcome" where
  "send_email F deliver username dest subject content subtype paths =
     oc_bind (oc_mapM (build_mail F username subject content subtype paths) dest) (\<lambda>ms.
       Ret (filter (\<lambda>m. deliver m = None) ms,
            map fst (filter (\<lambda>(d, m). deliver m \<noteq> None) (zip dest ms))))"

text \<open>A recipient that is refused takes nothing from the others; a file that cannot be read stops all.\<close>

lemma send_email_spec:
  "send_email F deliver username dest subject content subtype paths =
     (case oc_mapM (attach F) paths of
        Raise e \<Rightarrow> if dest = [] then Ret ([], []) else Raise e
      | Ret as \<Rightarrow> let mail = (\<lambda>d. \<lparr>og_from = ''Anbor <'' @ username @ ''> '', og_to = d, og_subject = subject,
            og_content = content, og_subtype = subtype, og_attachments = as\<rparr>)
          in Ret (filter (\<lambda>m. deliver m = None) (map mail dest), filter (\<lambda>d. deliver (mail d) \<noteq> None) dest))"
proof (cases "oc_mapM (attach F) paths")
  case (Ret as)
  let ?mail = "\<lambda>d. \<lparr>og_from = ''Anbor <'' @ username @ ''> '', og_to = d, og_subject = subject,
            og_content = content, og_subtype = subtype, og_attachments = as\<rparr>"
  have "oc_mapM (build_mail F username subject content subtype paths) dest = Ret (map ?mail dest)"
    by (rule oc_mapM_Ret) (simp add: build_mail_def Ret)
  moreover have "map fst (filter (\<lambda>(d, m). deliver m \<noteq> None) (zip dest (map ?mail dest))) = filter (\<lambda>d. deliver (?mail d) \<noteq> None) dest"
    by (induction dest) auto
  ultimately show ?thesis using Ret by (simp add: send_email_def)
next
  case (Raise e)
  then show ?thesis by (cases dest) (simp_all add: send_email_def build_mail_def)
qed

section \<open>A context variable (context\_registry.py)\<close>

text \<open>The value of the running context; the token of \<open>set\<close> is the value it replaced.\<close>

definition registry_set :: "'v \<Rightarrow> ('v option, exn, 'v option) prog" where
  "registry_set v = (\<lambda>cur. (Ret cur, Some v))"

definition registry_get :: "bool \<Rightarrow> ('v option, exn, 'v option) prog" where
  "registry_get required = (\<lambda>cur. (if required \<and> cur = None
     then Raise (ValueError ''Required value was not set in context var registry.'') else Ret cur, cur))"

definition registry_reset :: "'v option \<Rightarrow> ('v option, exn, unit) prog" where
  "registry_reset token = (\<lambda>cur. (Ret (), token))"

lemma registry_nested:
  "py_bind (registry_set v) (\<lambda>t. py_bind body (\<lambda>a. py_bind (registry_reset t) (\<lambda>_. py_ret a))) cur =
     (case body (Some v) of (Ret a, w) \<Rightarrow> (Ret a, cur) | (Raise e, w) \<Rightarrow> (Raise e, w))"
  by (simp add: registry_set_def registry_reset_def py_bind_app split: prod.splits outcome.splits)

end
