(* ===== verification/Wiring.thy ===== *)
theory Wiring
  imports Errors Adapters
begin

text \<open>
  The dependency-injection containers (\<open>infra/di\<close>, \<open>shared_kernel/di\<close>) and the session of a request
  (\<open>db_di.py\<close>, \<open>SessionDIMiddleware\<close>): every container class as the list of its attributes, and the
  objects that calling a provider makes.
\<close>

section \<open>Providers and containers\<close>

text \<open>The class or function a provider calls, by its name.\<close>

type_synonym cls = string

text \<open>
  The providers of \<open>dependency_injector\<close> that the containers use. \<open>Ref\<close> names an attribute of the
  container (calling it); \<open>Call_If_Provider\<close> is \<open>call_if_provider\<close> of an attribute read with \<open>provided\<close>,
  which is a provider here; \<open>Attribute\<close> reads an attribute of the object a provider makes;
  \<open>Current_Session\<close> is the callable \<open>_get_current_session\<close>; \<open>Delegated\<close> is \<open>.provider\<close>, whose value is the provider.
\<close>

datatype provider = Factory cls "(string \<times> provider) list"
  | Singleton cls "(string \<times> provider) list"
  | Ref "string list"
  | Call_If_Provider "string list"
  | Attribute provider string
  | Current_Session
  | Value string
  | Delegated provider

datatype container_class = Configuration_DI | Core_Services_DI | Core_DI | Database_DI | Infra_Services_DI | Infra_Event_Handlers_DI
  | Infra_DI | Identity_Repositories_DI | Identity_Services_DI | Identity_Validators_DI | Identity_Commands_DI | Identity_Queries_DI
  | Identity_Events_DI | Identity_DI | Blob_Repositories_DI | Blob_Commands_DI | Blob_Queries_DI | Blob_DI | Root_DI

text \<open>What a container is made with: an attribute of the enclosing one, or a container or provider written in place.\<close>

datatype arg = At "string list" | Made_Container container_class "(string \<times> arg) list" | Made_Provider provider

text \<open>An attribute of a container class: a dependency given from outside, a contained container, or a provider.\<close>

datatype entry = Dependency | Contains container_class "(string \<times> arg) list" | Provides provider

type_synonym attributes = "(string \<times> entry) list"

section \<open>The container classes\<close>

definition configuration_di :: attributes where
  "configuration_di =
     [(''db'', Provides (Singleton ''DatabaseConfig'' [])), (''app'', Provides (Singleton ''AppConfig'' [])),
      (''jwt'', Provides (Singleton ''JwtConfig'' [])), (''smtp'', Provides (Singleton ''SmtpConfig'' [])),
      (''redis'', Provides (Singleton ''RedisConfig'' []))]"

definition core_services_di :: attributes where
  "core_services_di = [(''clock'', Dependency)]"

definition core_di :: attributes where
  "core_di = [(''config'', Dependency), (''services'', Dependency),
     (''execution_context_provider'', Provides (Singleton ''ExecutionContextProvider'' []))]"

definition engine_provider :: provider where
  "engine_provider =
     Singleton ''create_async_engine'' [(''db_cfg'', Call_If_Provider [''core'', ''config'', ''db'']),
     (''app_cfg'', Call_If_Provider [''core'', ''config'', ''app''])]"

definition session_factory_provider :: provider where
  "session_factory_provider =
     Singleton ''async_sessionmaker'' [(''bind'', Ref [''engine'']), (''autoflush'', Value ''False''), (''expire_on_commit'', Value ''False''),
     (''class_'', Value ''AsyncSession'')]"

definition uow_provider :: provider where
  "uow_provider =
     Factory ''OrmUnitOfWork'' [(''session'', Ref [''session''])]"

definition entity_source_factory_provider :: provider where
  "entity_source_factory_provider =
     Singleton ''SqlAlchemyEntitySourceFactory'' [(''domain_model_to_orm_model_map'', Value ''ENTITY_ORM_MODEL_MAP'')]"

definition database_di :: attributes where
  "database_di =
     [(''core'', Dependency),
      (''engine'', Provides engine_provider),
      (''session_factory'', Provides session_factory_provider),
      (''session'', Provides Current_Session),
      (''uow'', Provides uow_provider),
      (''entity_source_factory'', Provides entity_source_factory_provider)]"

definition email_service_provider :: provider where
  "email_service_provider =
     Singleton ''EmailService'' [(''smtp_config'', Ref [''config'', ''smtp''])]"

definition encryption_service_provider :: provider where
  "encryption_service_provider =
     Singleton ''AESGCMEncryptionService'' [(''config'', Ref [''config'', ''app''])]"

definition signature_service_provider :: provider where
  "signature_service_provider =
     Singleton ''HmacSha256SignatureService'' [(''config'', Ref [''config'', ''app''])]"

definition cache_client_provider :: provider where
  "cache_client_provider =
     Singleton ''RedisClient'' [(''config'', Ref [''config'', ''redis''])]"

definition infra_services_di :: attributes where
  "infra_services_di =
     [(''config'', Dependency),
      (''email_service'', Provides email_service_provider),
      (''password_service'', Provides (Singleton ''PasswordService'' [])),
      (''encryption_service'', Provides encryption_service_provider),
      (''signature_service'', Provides signature_service_provider),
      (''secret_service'', Provides (Singleton ''SecretService'' [])),
      (''cache_client'', Provides cache_client_provider),
      (''http_client'', Provides (Factory ''HttpClient'' []))]"

definition user_registered_event_handler_provider :: provider where
  "user_registered_event_handler_provider =
     Delegated (Factory ''UserRegisteredEventHandler'' [(''email_service'', Ref [''services'', ''email_service''])])"

definition forgot_password_step1_event_handler_provider :: provider where
  "forgot_password_step1_event_handler_provider =
     Delegated (Factory ''ForgotPasswordStep1EventHandler'' [(''email_service'', Ref [''services'', ''email_service''])])"

definition forgot_password_step2_event_handler_provider :: provider where
  "forgot_password_step2_event_handler_provider =
     Delegated (Factory ''ForgotPasswordStep2EventHandler'' [(''email_service'', Ref [''services'', ''email_service''])])"

definition infra_event_handlers_di :: attributes where
  "infra_event_handlers_di =
     [(''services'', Dependency),
      (''user_registered_event_handler'', Provides user_registered_event_handler_provider),
      (''forgot_password_step1_event_handler'', Provides forgot_password_step1_event_handler_provider),
      (''forgot_password_step2_event_handler'', Provides forgot_password_step2_event_handler_provider)]"

definition jwt_provider_provider :: provider where
  "jwt_provider_provider =
     Singleton ''JwtProvider'' [(''config'', Ref [''config'', ''jwt''])]"

definition event_bus_provider :: provider where
  "event_bus_provider =
     Singleton ''InProcessEventBus'' [(''publisher_middlewares'', Value ''LoggingEventPublisherMiddleware''),
     (''handler_middlewares'', Value ''ObservabilityEventHandlerMiddleware'')]"

definition infra_di :: attributes where
  "infra_di =
     [(''config'', Dependency),
      (''mediator'', Provides (Singleton ''Mediator'' [])),
      (''jwt_provider'', Provides jwt_provider_provider),
      (''services'', Contains Infra_Services_DI [(''config'', At [''config''])]),
      (''event_bus'', Provides event_bus_provider),
      (''event_handlers'', Contains Infra_Event_Handlers_DI [(''services'', At [''services''])])]"

definition user_repo_provider :: provider where
  "user_repo_provider =
     Factory ''UserOrmRepository'' [(''db'', Ref [''db'', ''session'']), (''source_factory'', Ref [''db'', ''entity_source_factory''])]"

definition otp_repo_provider :: provider where
  "otp_repo_provider =
     Factory ''OtpOrmRepository'' [(''db'', Ref [''db'', ''session''])]"

definition api_key_repo_provider :: provider where
  "api_key_repo_provider =
     Factory ''ApiKeyOrmRepository'' [(''db'', Ref [''db'', ''session''])]"

definition identity_repositories_di :: attributes where
  "identity_repositories_di =
     [(''db'', Dependency),
      (''user_repo'', Provides user_repo_provider),
      (''otp_repo'', Provides otp_repo_provider),
      (''api_key_repo'', Provides api_key_repo_provider)]"

text \<open>The clock and the password service as the identity containers ask for them.\<close>

definition the_clock :: provider where
  "the_clock = Call_If_Provider [''core'', ''services'', ''clock'']"

definition the_password_service :: provider where
  "the_password_service = Call_If_Provider [''infra'', ''services'', ''password_service'']"

definition confirmation_service_provider :: provider where
  "confirmation_service_provider =
     Factory ''UserConfirmationService'' [(''otp_repo'', Ref [''repositories'', ''otp_repo'']), (''otp_generator'', Ref [''otp_generator'']),
     (''clock'', the_clock), (''bus'', Ref [''infra'', ''event_bus''])]"

definition registration_service_provider :: provider where
  "registration_service_provider =
     Factory ''UserRegistrationService'' [(''user_repo'', Ref [''repositories'', ''user_repo'']),
     (''confirmation_service'', Ref [''confirmation_service'']), (''password_service'', the_password_service),
     (''source_factory'', Ref [''db'', ''entity_source_factory'']), (''clock'', the_clock), (''uow'', Ref [''db'', ''uow''])]"

definition forgot_password_service_provider :: provider where
  "forgot_password_service_provider =
     Factory ''ForgotPasswordService'' [(''confirmation_service'', Ref [''confirmation_service''])]"

definition auth_service_provider :: provider where
  "auth_service_provider =
     Factory ''AuthService'' [(''user_repo'', Ref [''repositories'', ''user_repo'']), (''password_service'', the_password_service),
     (''jwt_provider'', Ref [''infra'', ''jwt_provider''])]"

definition api_key_service_provider :: provider where
  "api_key_service_provider =
     Factory ''ApiKeyService'' [(''api_key_repo'', Ref [''repositories'', ''api_key_repo'']),
     (''secret_service'', Call_If_Provider [''infra'', ''services'', ''secret_service'']),
     (''signature_service'', Call_If_Provider [''infra'', ''services'', ''signature_service''])]"

definition identity_services_di :: attributes where
  "identity_services_di =
     [(''core'', Dependency), (''db'', Dependency), (''infra'', Dependency), (''repositories'', Dependency),
      (''otp_generator'', Provides (Value ''generate_numeric_otp'')),
      (''confirmation_service'', Provides confirmation_service_provider),
      (''registration_service'', Provides registration_service_provider),
      (''forgot_password_service'', Provides forgot_password_service_provider),
      (''auth_service'', Provides auth_service_provider),
      (''api_key_service'', Provides api_key_service_provider)]"

definition register_validator_provider :: provider where
  "register_validator_provider =
     Factory ''RegisterValidator'' [(''user_repo'', Ref [''repositories'', ''user_repo''])]"

definition identity_validators_di :: attributes where
  "identity_validators_di =
     [(''repositories'', Dependency),
      (''register_validator'', Provides register_validator_provider)]"

definition register_handler_provider :: provider where
  "register_handler_provider =
     Delegated (Factory ''RegisterCommandHandler'' [(''validator'', Ref [''validators'', ''register_validator'']),
     (''service'', Ref [''services'', ''registration_service'']), (''uow'', Ref [''db'', ''uow'']), (''bus'', Ref [''infra'', ''event_bus''])])"

definition confirm_email_handler_provider :: provider where
  "confirm_email_handler_provider =
     Delegated (Factory ''ConfirmEmailCommandHandler'' [(''user_repo'', Ref [''repositories'', ''user_repo'']),
     (''confirmation_service'', Ref [''services'', ''confirmation_service'']), (''auth_service'', Ref [''services'', ''auth_service'']),
     (''uow'', Ref [''db'', ''uow''])])"

definition resend_confirmation_handler_provider :: provider where
  "resend_confirmation_handler_provider =
     Delegated (Factory ''ResendEmailConfirmationCommandHandler'' [(''user_repo'', Ref [''repositories'', ''user_repo'']),
     (''confirmation_service'', Ref [''services'', ''confirmation_service'']), (''uow'', Ref [''db'', ''uow'']),
     (''bus'', Ref [''infra'', ''event_bus''])])"

definition login_handler_provider :: provider where
  "login_handler_provider =
     Delegated (Factory ''LoginCommandHandler'' [(''auth_service'', Ref [''services'', ''auth_service'']), (''uow'', Ref [''db'', ''uow''])])"

definition refresh_token_handler_provider :: provider where
  "refresh_token_handler_provider =
     Delegated (Factory ''RefreshTokenCommandHandler'' [(''auth_service'', Ref [''services'', ''auth_service'']),
     (''uow'', Ref [''db'', ''uow''])])"

definition forgot_step1_handler_provider :: provider where
  "forgot_step1_handler_provider =
     Delegated (Factory ''ForgotPasswordStep1CommandHandler'' [(''user_repo'', Ref [''repositories'', ''user_repo'']),
     (''service'', Ref [''services'', ''forgot_password_service'']), (''uow'', Ref [''db'', ''uow'']),
     (''bus'', Ref [''infra'', ''event_bus''])])"

definition forgot_step2_handler_provider :: provider where
  "forgot_step2_handler_provider =
     Delegated (Factory ''ForgotPasswordStep2CommandHandler'' [(''user_repo'', Ref [''repositories'', ''user_repo'']),
     (''otp_repo'', Ref [''repositories'', ''otp_repo'']), (''clock'', the_clock), (''uow'', Ref [''db'', ''uow''])])"

definition forgot_step3_handler_provider :: provider where
  "forgot_step3_handler_provider =
     Delegated (Factory ''ForgotPasswordStep3CommandHandler'' [(''password_service'', the_password_service),
     (''user_repo'', Ref [''repositories'', ''user_repo'']), (''service'', Ref [''services'', ''forgot_password_service'']),
     (''otp_repo'', Ref [''repositories'', ''otp_repo'']), (''clock'', the_clock), (''uow'', Ref [''db'', ''uow'']),
     (''bus'', Ref [''infra'', ''event_bus''])])"

definition update_me_handler_provider :: provider where
  "update_me_handler_provider =
     Delegated (Factory ''UserUpdateMeCommandHandler'' [(''user_repo'', Ref [''repositories'', ''user_repo'']),
     (''uow'', Ref [''db'', ''uow''])])"

definition change_password_handler_provider :: provider where
  "change_password_handler_provider =
     Delegated (Factory ''ChangePasswordCommandHandler'' [(''user_repo'', Ref [''repositories'', ''user_repo'']),
     (''password_service'', the_password_service), (''uow'', Ref [''db'', ''uow''])])"

definition user_toggle_status_handler_provider :: provider where
  "user_toggle_status_handler_provider =
     Delegated (Factory ''UserToggleStatusCommandHandler'' [(''account_repo'', Ref [''repositories'', ''user_repo'']),
     (''uow'', Ref [''db'', ''uow''])])"

definition identity_commands_di :: attributes where
  "identity_commands_di =
     [(''core'', Dependency), (''db'', Dependency), (''infra'', Dependency), (''repositories'', Dependency), (''services'', Dependency), (''validators'', Dependency),
      (''register_handler'', Provides register_handler_provider),
      (''confirm_email_handler'', Provides confirm_email_handler_provider),
      (''resend_confirmation_handler'', Provides resend_confirmation_handler_provider),
      (''login_handler'', Provides login_handler_provider),
      (''refresh_token_handler'', Provides refresh_token_handler_provider),
      (''forgot_step1_handler'', Provides forgot_step1_handler_provider),
      (''forgot_step2_handler'', Provides forgot_step2_handler_provider),
      (''forgot_step3_handler'', Provides forgot_step3_handler_provider),
      (''update_me_handler'', Provides update_me_handler_provider),
      (''change_password_handler'', Provides change_password_handler_provider),
      (''user_toggle_status_handler'', Provides user_toggle_status_handler_provider)]"

definition me_handler_provider :: provider where
  "me_handler_provider =
     Delegated (Factory ''MeQueryHandler'' [(''query_repo'', Ref [''repositories'', ''user_repo''])])"

definition user_detailed_handler_provider :: provider where
  "user_detailed_handler_provider =
     Delegated (Factory ''UserDetailedQueryHandler'' [(''query_repo'', Ref [''repositories'', ''user_repo''])])"

definition user_list_handler_provider :: provider where
  "user_list_handler_provider =
     Delegated (Factory ''UserListQueryHandler'' [(''query_repo'', Ref [''repositories'', ''user_repo''])])"

definition identity_queries_di :: attributes where
  "identity_queries_di =
     [(''repositories'', Dependency),
      (''me_handler'', Provides me_handler_provider),
      (''user_detailed_handler'', Provides user_detailed_handler_provider),
      (''user_list_handler'', Provides user_list_handler_provider)]"

definition identity_events_di :: attributes where
  "identity_events_di = [(''user_email_confirmed_handler'', Provides (Delegated (Factory ''UserEmailConfirmedEventHandler'' [])))]"

definition identity_di :: attributes where
  "identity_di =
     [(''core'', Dependency), (''db'', Dependency), (''infra'', Dependency),
      (''repositories'', Contains Identity_Repositories_DI [(''db'', At [''db''])]),
      (''services'', Contains Identity_Services_DI
        [(''core'', At [''core'']), (''db'', At [''db'']), (''infra'', At [''infra'']), (''repositories'', At [''repositories''])]),
      (''validators'', Contains Identity_Validators_DI [(''repositories'', At [''repositories''])]),
      (''command_handlers'', Contains Identity_Commands_DI
        [(''core'', At [''core'']), (''db'', At [''db'']), (''infra'', At [''infra'']), (''repositories'', At [''repositories'']),
         (''services'', At [''services'']), (''validators'', At [''validators''])]),
      (''query_handlers'', Contains Identity_Queries_DI [(''repositories'', At [''repositories''])]),
      (''event_handlers'', Contains Identity_Events_DI [])]"

definition blob_repo_provider :: provider where
  "blob_repo_provider =
     Factory ''BlobOrmRepository'' [(''db'', Ref [''db'', ''session''])]"

definition blob_repositories_di :: attributes where
  "blob_repositories_di = [(''db'', Dependency), (''blob_repo'', Provides blob_repo_provider)]"

definition upload_handler_provider :: provider where
  "upload_handler_provider =
     Delegated (Factory ''BlobUploadCommandHandler'' [(''validator'', Factory ''BlobUploadValidator'' []), (''storage'', Ref [''storage'']),
     (''blob_repo'', Ref [''repositories'', ''blob_repo'']), (''uow'', Ref [''db'', ''uow''])])"

definition delete_handler_provider :: provider where
  "delete_handler_provider =
     Delegated (Factory ''BlobDeleteCommandHandler'' [(''validator'', Factory ''BlobDeleteValidator'' [(''blob_repo'', Ref [''repositories'', ''blob_repo''])]),
     (''storage'', Ref [''storage'']), (''blob_repo'', Ref [''repositories'', ''blob_repo'']), (''uow'', Ref [''db'', ''uow''])])"

definition blob_commands_di :: attributes where
  "blob_commands_di =
     [(''db'', Dependency), (''repositories'', Dependency), (''storage'', Dependency),
      (''upload_handler'', Provides upload_handler_provider),
      (''delete_handler'', Provides delete_handler_provider)]"

definition detailed_handler_provider :: provider where
  "detailed_handler_provider =
     Delegated (Factory ''BlobDetailedByIdQueryHandler'' [(''blob_repo'', Ref [''repositories'', ''blob_repo''])])"

definition list_handler_provider :: provider where
  "list_handler_provider =
     Delegated (Factory ''BlobListQueryHandler'' [(''blob_repo'', Ref [''repositories'', ''blob_repo''])])"

definition blob_queries_di :: attributes where
  "blob_queries_di =
     [(''repositories'', Dependency),
      (''detailed_handler'', Provides detailed_handler_provider),
      (''list_handler'', Provides list_handler_provider)]"

definition storage_provider :: provider where
  "storage_provider =
     Singleton ''LocalBlobStorage'' [(''app_config'', Ref [''config'', ''app''])]"

definition blob_di :: attributes where
  "blob_di =
     [(''db'', Dependency), (''config'', Dependency),
      (''storage'', Provides storage_provider),
      (''repositories'', Contains Blob_Repositories_DI [(''db'', At [''db''])]),
      (''command_handlers'', Contains Blob_Commands_DI [(''db'', At [''db'']), (''repositories'', At [''repositories'']), (''storage'', At [''storage''])]),
      (''query_handlers'', Contains Blob_Queries_DI [(''repositories'', At [''repositories''])])]"

definition root_di :: attributes where
  "root_di =
     [(''config'', Contains Configuration_DI []),
      (''core'', Contains Core_DI
        [(''config'', At [''config'']),
         (''services'', Made_Container Core_Services_DI
           [(''clock'', Made_Provider (Singleton ''Clock'' [(''tz_'', Attribute (Ref [''config'', ''app'']) ''tzinfo'')]))])]),
      (''db'', Contains Database_DI [(''core'', At [''core''])]),
      (''infra'', Contains Infra_DI [(''config'', At [''config''])]),
      (''identity'', Contains Identity_DI [(''core'', At [''core'']), (''db'', At [''db'']), (''infra'', At [''infra''])]),
      (''blob'', Contains Blob_DI [(''db'', At [''db'']), (''config'', At [''config''])])]"

fun attributes_of :: "container_class \<Rightarrow> attributes" where
  "attributes_of Configuration_DI = configuration_di"
| "attributes_of Core_Services_DI = core_services_di"
| "attributes_of Core_DI = core_di"
| "attributes_of Database_DI = database_di"
| "attributes_of Infra_Services_DI = infra_services_di"
| "attributes_of Infra_Event_Handlers_DI = infra_event_handlers_di"
| "attributes_of Infra_DI = infra_di"
| "attributes_of Identity_Repositories_DI = identity_repositories_di"
| "attributes_of Identity_Services_DI = identity_services_di"
| "attributes_of Identity_Validators_DI = identity_validators_di"
| "attributes_of Identity_Commands_DI = identity_commands_di"
| "attributes_of Identity_Queries_DI = identity_queries_di"
| "attributes_of Identity_Events_DI = identity_events_di"
| "attributes_of Identity_DI = identity_di"
| "attributes_of Blob_Repositories_DI = blob_repositories_di"
| "attributes_of Blob_Commands_DI = blob_commands_di"
| "attributes_of Blob_Queries_DI = blob_queries_di"
| "attributes_of Blob_DI = blob_di"
| "attributes_of Root_DI = root_di"

section \<open>The constructors\<close>

text \<open>The parameters of \<open>__init__\<close> without a default, and those with one; a class without \<open>__init__\<close> has none.\<close>

type_synonym inits = "(cls \<times> string list \<times> string list) list"

definition clock_inits :: inits where
  "clock_inits = [(''Clock'', [''tz_''], [])]"

definition database_inits :: inits where
  "database_inits = [(''create_async_engine'', [''db_cfg'', ''app_cfg''], []),
     (''async_sessionmaker'', [], [''bind'', ''class_'', ''autoflush'', ''expire_on_commit'', ''info''])]"

definition uow_inits :: inits where
  "uow_inits = [(''OrmUnitOfWork'', [''session''], [])]"

definition source_factory_inits :: inits where
  "source_factory_inits = [(''SqlAlchemyEntitySourceFactory'', [''domain_model_to_orm_model_map''], [])]"

definition email_inits :: inits where
  "email_inits = [(''EmailService'', [''smtp_config''], [])]"

definition security_inits :: inits where
  "security_inits = [(''AESGCMEncryptionService'', [''config''], []),
     (''HmacSha256SignatureService'', [''config''], [])]"

definition redis_inits :: inits where
  "redis_inits = [(''RedisClient'', [''config''], [])]"

definition jwt_inits :: inits where
  "jwt_inits = [(''JwtProvider'', [''config''], [])]"

definition bus_inits :: inits where
  "bus_inits = [(''InProcessEventBus'', [], [''publisher_middlewares'', ''handler_middlewares''])]"

definition event_handler_inits :: inits where
  "event_handler_inits = [(''UserRegisteredEventHandler'', [''email_service''], []),
     (''ForgotPasswordStep1EventHandler'', [''email_service''], []),
     (''ForgotPasswordStep2EventHandler'', [''email_service''], [])]"

definition user_repo_inits :: inits where
  "user_repo_inits = [(''UserOrmRepository'', [''db'', ''source_factory''], [])]"

definition repo_inits :: inits where
  "repo_inits = [(''OtpOrmRepository'', [''db''], []),
     (''ApiKeyOrmRepository'', [''db''], []),
     (''BlobOrmRepository'', [''db''], [])]"

definition confirmation_inits :: inits where
  "confirmation_inits = [(''UserConfirmationService'', [''otp_repo'', ''otp_generator'', ''clock'', ''bus''], [])]"

definition registration_inits :: inits where
  "registration_inits = [(''UserRegistrationService'', [''user_repo'', ''confirmation_service'', ''password_service'', ''source_factory'', ''clock'', ''uow''], []),
     (''ForgotPasswordService'', [''confirmation_service''], [])]"

definition auth_service_inits :: inits where
  "auth_service_inits = [(''AuthService'', [''user_repo'', ''password_service'', ''jwt_provider''], [])]"

definition api_key_inits :: inits where
  "api_key_inits = [(''ApiKeyService'', [''api_key_repo'', ''secret_service'', ''signature_service''], [])]"

definition register_validator_inits :: inits where
  "register_validator_inits = [(''RegisterValidator'', [''user_repo''], [])]"

definition blob_validator_inits :: inits where
  "blob_validator_inits = [(''BlobDeleteValidator'', [''blob_repo''], [])]"

definition storage_inits :: inits where
  "storage_inits = [(''LocalBlobStorage'', [''app_config''], [])]"

definition auth_handler_inits :: inits where
  "auth_handler_inits = [(''RegisterCommandHandler'', [''validator'', ''service'', ''uow'', ''bus''], []),
     (''ConfirmEmailCommandHandler'', [''user_repo'', ''confirmation_service'', ''auth_service'', ''uow''], []),
     (''ResendEmailConfirmationCommandHandler'', [''user_repo'', ''confirmation_service'', ''uow'', ''bus''], []),
     (''LoginCommandHandler'', [''auth_service'', ''uow''], []),
     (''RefreshTokenCommandHandler'', [''auth_service'', ''uow''], [])]"

definition forgot_handler_inits :: inits where
  "forgot_handler_inits = [(''ForgotPasswordStep1CommandHandler'', [''user_repo'', ''service'', ''uow'', ''bus''], []),
     (''ForgotPasswordStep2CommandHandler'', [''user_repo'', ''otp_repo'', ''clock'', ''uow''], []),
     (''ForgotPasswordStep3CommandHandler'', [''password_service'', ''user_repo'', ''service'', ''otp_repo'', ''clock'', ''uow'', ''bus''], [])]"

definition account_handler_inits :: inits where
  "account_handler_inits = [(''UserUpdateMeCommandHandler'', [''user_repo'', ''uow''], []),
     (''ChangePasswordCommandHandler'', [''user_repo'', ''password_service'', ''uow''], []),
     (''UserToggleStatusCommandHandler'', [''account_repo'', ''uow''], []),
     (''MeQueryHandler'', [''query_repo''], []),
     (''UserDetailedQueryHandler'', [''query_repo''], []),
     (''UserListQueryHandler'', [''query_repo''], [])]"

definition blob_handler_inits :: inits where
  "blob_handler_inits = [(''BlobUploadCommandHandler'', [''validator'', ''storage'', ''blob_repo'', ''uow''], []),
     (''BlobDeleteCommandHandler'', [''validator'', ''storage'', ''blob_repo'', ''uow''], []),
     (''BlobDetailedByIdQueryHandler'', [''blob_repo''], []),
     (''BlobListQueryHandler'', [''blob_repo''], [])]"

definition init_table :: inits where
  "init_table = concat [clock_inits, database_inits, uow_inits, source_factory_inits, email_inits, security_inits, redis_inits, jwt_inits, bus_inits, event_handler_inits, user_repo_inits, repo_inits, confirmation_inits, registration_inits, auth_service_inits, api_key_inits, register_validator_inits, blob_validator_inits, storage_inits, auth_handler_inits, forgot_handler_inits, account_handler_inits, blob_handler_inits]"

definition init_params :: "cls \<Rightarrow> string list \<times> string list" where
  "init_params c = (case map_of init_table c of Some ps \<Rightarrow> ps | None \<Rightarrow> ([], []))"

text \<open>A call with keyword arguments: every parameter that needs one has it, and no other name is given.\<close>

definition init_fits :: "cls \<Rightarrow> string list \<Rightarrow> bool" where
  "init_fits c names \<longleftrightarrow> (case init_params c of (required, optional) \<Rightarrow>
     list_all (\<lambda>n. n \<in> set names) required \<and> list_all (\<lambda>n. n \<in> set required \<or> n \<in> set optional) names)"

section \<open>Looking up an attribute\<close>

text \<open>
  A container: the place of its first mention, which is what its singletons are kept by, its class, what it was made
  with, and the container those arguments are read in. A dependency leads to the argument.
\<close>

datatype box = Box "string list" container_class "(string \<times> arg) list" "box option"

datatype found = A_Container box | A_Provider "string list" box provider

definition root_box :: box where "root_box = Box [] Root_DI [] None"

datatype step = Here found | Elsewhere box "string list" | Nowhere

fun attribute_step :: "box \<Rightarrow> string \<Rightarrow> step" where
  "attribute_step (Box key c given outer) n =
     (case map_of (attributes_of c) n of
        None \<Rightarrow> Nowhere
      | Some (Provides p) \<Rightarrow> Here (A_Provider (key @ [n]) (Box key c given outer) p)
      | Some (Contains c' as) \<Rightarrow> Here (A_Container (Box (key @ [n]) c' as (Some (Box key c given outer))))
      | Some Dependency \<Rightarrow> (case (map_of given n, outer) of
            (Some (At path), Some b) \<Rightarrow> Elsewhere b path
          | (Some (Made_Container c' as), Some b) \<Rightarrow> Here (A_Container (Box (key @ [n]) c' as (Some b)))
          | (Some (Made_Provider p), Some b) \<Rightarrow> Here (A_Provider (key @ [n]) b p)
          | _ \<Rightarrow> Nowhere))"

type_synonym fuel = "unit list"

text \<open>A dotted path; the fuel bounds the steps (a path of the program takes at most 12).\<close>

fun walk :: "fuel \<Rightarrow> box \<Rightarrow> string list \<Rightarrow> found option" where
  "walk k b [] = Some (A_Container b)"
| "walk [] b (n # ns) = None"
| "walk (() # k) b (n # ns) = (case attribute_step b n of
       Nowhere \<Rightarrow> None
     | Elsewhere b' path \<Rightarrow> walk k b' (path @ ns)
     | Here (A_Container b') \<Rightarrow> walk k b' ns
     | Here (A_Provider key b' p) \<Rightarrow> if ns = [] then Some (A_Provider key b' p) else None)"

definition walk_fuel :: fuel where "walk_fuel = replicate 30 ()"

section \<open>Making objects\<close>

text \<open>
  An object with its number, its class and what it was made of; the session; or a constant. The state:
  the singletons made so far by their place, the next number, and the registry of the session.
\<close>

datatype obj = Made nat cls "obj list" | Session_Obj nat | Constant_Obj string | Field_Obj obj string

record di_state =
  di_singletons :: "(string list \<times> obj) list"
  di_next :: nat
  di_session :: "nat option"
  di_closed :: "nat list"

type_synonym 'a di_prog = "(di_state, exn, 'a) prog"

text \<open>\<open>_get_current_session\<close>, with the registry of Adapters\<close>

definition no_session :: exn where
  "no_session = ValueError ''Required value was not set in context var registry.''"

definition on_registry :: "(nat option, exn, 'a) prog \<Rightarrow> 'a di_prog" where
  "on_registry m = (\<lambda>w. case m (di_session w) of (r, s) \<Rightarrow> (r, w\<lparr>di_session := s\<rparr>))"

definition get_current_session :: "nat di_prog" where
  "get_current_session = py_bind (on_registry (registry_get True)) (\<lambda>s.
     case s of Some i \<Rightarrow> py_ret i | None \<Rightarrow> py_raise no_session)"

definition fresh_number :: "nat di_prog" where
  "fresh_number = (\<lambda>w. (Ret (di_next w), w\<lparr>di_next := di_next w + 1\<rparr>))"

definition construct :: "cls \<Rightarrow> string list \<Rightarrow> obj list \<Rightarrow> obj di_prog" where
  "construct c names os = (if init_fits c names then py_bind fresh_number (\<lambda>i. py_ret (Made i c os))
     else py_raise (TypeError ''unexpected or missing argument''))"

definition keep_singleton :: "string list \<Rightarrow> obj \<Rightarrow> obj di_prog" where
  "keep_singleton key ob = py_bind (py_write (\<lambda>w. w\<lparr>di_singletons := di_singletons w @ [(key, ob)]\<rparr>)) (\<lambda>_. py_ret ob)"

text \<open>Calling the provider at a place; its references are read in the container \<open>b\<close>. The fuel bounds the depth.\<close>

fun call :: "fuel \<Rightarrow> box \<Rightarrow> string list \<Rightarrow> provider \<Rightarrow> obj di_prog"
  and call_args :: "fuel \<Rightarrow> box \<Rightarrow> string list \<Rightarrow> (string \<times> provider) list \<Rightarrow> obj list di_prog" where
  "call [] b key p = py_raise (OtherError ''RecursionError'')"
| "call (() # k) b key p = (case p of
       Factory c kws \<Rightarrow> py_bind (call_args k b key kws) (construct c (map fst kws))
     | Singleton c kws \<Rightarrow> py_bind (py_read di_singletons) (\<lambda>xs. case map_of xs key of
           Some ob \<Rightarrow> py_ret ob
         | None \<Rightarrow> py_bind (call_args k b key kws) (\<lambda>os. py_bind (construct c (map fst kws) os) (keep_singleton key)))
     | Ref path \<Rightarrow> (case walk walk_fuel b path of
           Some (A_Provider key' b' p') \<Rightarrow> call k b' key' p'
         | _ \<Rightarrow> py_raise (AttributeError ''container''))
     | Call_If_Provider path \<Rightarrow> (case walk walk_fuel b path of
           Some (A_Provider key' b' p') \<Rightarrow> call k b' key' p'
         | _ \<Rightarrow> py_raise (AttributeError ''container''))
     | Attribute q n \<Rightarrow> py_bind (call k b key q) (\<lambda>ob. py_ret (Field_Obj ob n))
     | Current_Session \<Rightarrow> py_bind get_current_session (\<lambda>i. py_ret (Session_Obj i))
     | Value v \<Rightarrow> py_ret (Constant_Obj v)
     | Delegated q \<Rightarrow> py_ret (Constant_Obj ''provider''))"
| "call_args k b key [] = py_ret []"
| "call_args [] b key (x # kws) = py_raise (OtherError ''RecursionError'')"
| "call_args (() # k) b key ((n, p) # kws) = py_bind (call k b (key @ [n]) p) (\<lambda>ob. py_bind (call_args k b key kws) (\<lambda>os. py_ret (ob # os)))"

definition call_fuel :: fuel where "call_fuel = replicate 60 ()"

definition call_at :: "string list \<Rightarrow> obj di_prog" where
  "call_at path = (case walk walk_fuel root_box path of
     Some (A_Provider key b p) \<Rightarrow> call call_fuel b key p | _ \<Rightarrow> py_raise (AttributeError ''container''))"

text \<open>
  \<open>Provide[...]\<close> of a \<open>.provider\<close> gives the factory itself, which the mediator stores and calls for each message.
\<close>

definition call_factory :: "string list \<Rightarrow> obj di_prog" where
  "call_factory path = (case walk walk_fuel root_box path of
     Some (A_Provider key b (Delegated p)) \<Rightarrow> call call_fuel b key p | _ \<Rightarrow> py_raise (AttributeError ''container''))"

section \<open>The session of a request (db\_di.py, SessionDIMiddleware)\<close>

definition set_current_session :: "nat option di_prog" where
  "set_current_session = py_bind (call_at [''db'', ''session_factory'']) (\<lambda>f. py_bind fresh_number (\<lambda>i. on_registry (registry_set i)))"

definition clear_current_session :: "nat option \<Rightarrow> unit di_prog" where
  "clear_current_session token = py_bind get_current_session (\<lambda>i.
     py_bind (py_write (\<lambda>w. w\<lparr>di_closed := di_closed w @ [i]\<rparr>)) (\<lambda>_. on_registry (registry_reset token)))"

definition py_finally :: "('w, 'e, 'a) prog \<Rightarrow> ('w, 'e, unit) prog \<Rightarrow> ('w, 'e, 'a) prog" where
  "py_finally m f = (\<lambda>w. case m w of (r, w1) \<Rightarrow> (case f w1 of (Ret _, w2) \<Rightarrow> (r, w2) | (Raise e, w2) \<Rightarrow> (Raise e, w2)))"

definition session_middleware :: "bool \<Rightarrow> 'a di_prog \<Rightarrow> 'a di_prog" where
  "session_middleware is_http inner =
     (if \<not> is_http then inner
      else py_bind set_current_session (\<lambda>token. py_finally inner (clear_current_session token)))"

end
