(* ===== verification/WiringFlows.thy ===== *)
theory WiringFlows
  imports Wiring Routes
begin

text \<open>
  What is shown of the wiring: every handler the mediator is given can be made, and every object it is made
  of works on the session of the request that asks for it; only what does not know a session is shared.
\<close>

section \<open>What is registered (register\_identity.py, register\_blob.py, register\_events.py)\<close>

definition identity_command_key :: "string \<Rightarrow> string list" where
  "identity_command_key n = [''identity'', ''command_handlers'', n]"

definition identity_query_key :: "string \<Rightarrow> string list" where
  "identity_query_key n = [''identity'', ''query_handlers'', n]"

text \<open>The \<open>Provide\<close> key behind every message class.\<close>

definition identity_keys :: "(message_class \<times> string list) list" where
  "identity_keys =
     [(RegisterC, identity_command_key ''register_handler''), (ConfirmEmailC, identity_command_key ''confirm_email_handler''),
      (ResendEmailConfirmationC, identity_command_key ''resend_confirmation_handler''), (LoginC, identity_command_key ''login_handler''),
      (RefreshTokenC, identity_command_key ''refresh_token_handler''), (ForgotPasswordStep1C, identity_command_key ''forgot_step1_handler''),
      (ForgotPasswordStep2C, identity_command_key ''forgot_step2_handler''), (ForgotPasswordStep3C, identity_command_key ''forgot_step3_handler''),
      (UserUpdateMeC, identity_command_key ''update_me_handler''), (ChangePasswordC, identity_command_key ''change_password_handler''),
      (UserToggleStatusC, identity_command_key ''user_toggle_status_handler''), (MeQ, identity_query_key ''me_handler''),
      (UserDetailedQ, identity_query_key ''user_detailed_handler''), (UserListQ, identity_query_key ''user_list_handler'')]"

definition blob_keys :: "(message_class \<times> string list) list" where
  "blob_keys =
     [(BlobUploadC, [''blob'', ''command_handlers'', ''upload_handler'']), (BlobDeleteC, [''blob'', ''command_handlers'', ''delete_handler'']),
      (BlobByIdQ, [''blob'', ''query_handlers'', ''detailed_handler'']), (BlobListQ, [''blob'', ''query_handlers'', ''list_handler''])]"

definition event_keys :: "(cls \<times> string list) list" where
  "event_keys =
     [(''UserRegisteredEventHandler'', [''infra'', ''event_handlers'', ''user_registered_event_handler'']),
      (''ForgotPasswordStep1EventHandler'', [''infra'', ''event_handlers'', ''forgot_password_step1_event_handler'']),
      (''ForgotPasswordStep2EventHandler'', [''infra'', ''event_handlers'', ''forgot_password_step2_event_handler'']),
      (''UserEmailConfirmedEventHandler'', [''identity'', ''event_handlers'', ''user_email_confirmed_handler''])]"

text \<open>The handler a message is meant for.\<close>

fun handler_class :: "message_class \<Rightarrow> cls" where
  "handler_class RegisterC = ''RegisterCommandHandler''"
| "handler_class ConfirmEmailC = ''ConfirmEmailCommandHandler''"
| "handler_class ResendEmailConfirmationC = ''ResendEmailConfirmationCommandHandler''"
| "handler_class LoginC = ''LoginCommandHandler''"
| "handler_class RefreshTokenC = ''RefreshTokenCommandHandler''"
| "handler_class ForgotPasswordStep1C = ''ForgotPasswordStep1CommandHandler''"
| "handler_class ForgotPasswordStep2C = ''ForgotPasswordStep2CommandHandler''"
| "handler_class ForgotPasswordStep3C = ''ForgotPasswordStep3CommandHandler''"
| "handler_class UserUpdateMeC = ''UserUpdateMeCommandHandler''"
| "handler_class ChangePasswordC = ''ChangePasswordCommandHandler''"
| "handler_class UserToggleStatusC = ''UserToggleStatusCommandHandler''"
| "handler_class MeQ = ''MeQueryHandler''"
| "handler_class UserDetailedQ = ''UserDetailedQueryHandler''"
| "handler_class UserListQ = ''UserListQueryHandler''"
| "handler_class BlobUploadC = ''BlobUploadCommandHandler''"
| "handler_class BlobDeleteC = ''BlobDeleteCommandHandler''"
| "handler_class BlobByIdQ = ''BlobDetailedByIdQueryHandler''"
| "handler_class BlobListQ = ''BlobListQueryHandler''"

definition factory_of :: "message_class \<Rightarrow> obj di_prog" where
  "factory_of c = (case map_of (identity_keys @ blob_keys) c of
     Some key \<Rightarrow> call_factory key | None \<Rightarrow> py_raise (KeyError ''handler''))"

section \<open>Two checks of a provider\<close>

text \<open>No session can be reached; and: every reference leads to a provider, every constructor fits, and no singleton reaches a session.\<close>

fun session_free :: "fuel \<Rightarrow> box \<Rightarrow> provider \<Rightarrow> bool" and all_free :: "fuel \<Rightarrow> box \<Rightarrow> (string \<times> provider) list \<Rightarrow> bool" where
  "session_free [] b p = False"
| "session_free (() # k) b p = (case p of
       Factory c kws \<Rightarrow> all_free k b kws
     | Singleton c kws \<Rightarrow> all_free k b kws
     | Ref path \<Rightarrow> (case walk walk_fuel b path of Some (A_Provider key' b' p') \<Rightarrow> session_free k b' p' | _ \<Rightarrow> False)
     | Call_If_Provider path \<Rightarrow> (case walk walk_fuel b path of Some (A_Provider key' b' p') \<Rightarrow> session_free k b' p' | _ \<Rightarrow> False)
     | Attribute q n \<Rightarrow> session_free k b q
     | Current_Session \<Rightarrow> False
     | Value v \<Rightarrow> True
     | Delegated q \<Rightarrow> True)"
| "all_free k b [] = True"
| "all_free [] b (x # kws) = False"
| "all_free (() # k) b ((n, p) # kws) = (session_free k b p \<and> all_free k b kws)"

fun well_wired :: "fuel \<Rightarrow> box \<Rightarrow> provider \<Rightarrow> bool" and all_wired :: "fuel \<Rightarrow> box \<Rightarrow> (string \<times> provider) list \<Rightarrow> bool" where
  "well_wired [] b p = False"
| "well_wired (() # k) b p = (case p of
       Factory c kws \<Rightarrow> init_fits c (map fst kws) \<and> all_wired k b kws
     | Singleton c kws \<Rightarrow> init_fits c (map fst kws) \<and> all_wired k b kws \<and> all_free k b kws
     | Ref path \<Rightarrow> (case walk walk_fuel b path of Some (A_Provider key' b' p') \<Rightarrow> well_wired k b' p' | _ \<Rightarrow> False)
     | Call_If_Provider path \<Rightarrow> (case walk walk_fuel b path of Some (A_Provider key' b' p') \<Rightarrow> well_wired k b' p' | _ \<Rightarrow> False)
     | Attribute q n \<Rightarrow> well_wired k b q
     | Current_Session \<Rightarrow> True
     | Value v \<Rightarrow> True
     | Delegated q \<Rightarrow> True)"
| "all_wired k b [] = True"
| "all_wired [] b (x # kws) = False"
| "all_wired (() # k) b ((n, p) # kws) = (well_wired k b p \<and> all_wired k b kws)"

section \<open>What a well wired provider makes\<close>

fun sessions_of :: "obj \<Rightarrow> nat list" where
  "sessions_of (Made i c os) = concat (map sessions_of os)"
| "sessions_of (Session_Obj i) = [i]"
| "sessions_of (Constant_Obj v) = []"
| "sessions_of (Field_Obj ob n) = sessions_of ob"

fun numbers_of :: "obj \<Rightarrow> nat list" where
  "numbers_of (Made i c os) = i # concat (map numbers_of os)"
| "numbers_of (Session_Obj i) = []"
| "numbers_of (Constant_Obj v) = []"
| "numbers_of (Field_Obj ob n) = numbers_of ob"

definition shared :: "di_state \<Rightarrow> nat set" where
  "shared w = (\<Union>(key, ob) \<in> set (di_singletons w). set (numbers_of ob))"

text \<open>No singleton holds a session.\<close>

definition clean :: "di_state \<Rightarrow> bool" where
  "clean w \<longleftrightarrow> list_all (\<lambda>(key, ob). sessions_of ob = []) (di_singletons w) \<and> shared w \<subseteq> {..<di_next w}"

definition grows :: "di_state \<Rightarrow> di_state \<Rightarrow> bool" where
  "grows w w' \<longleftrightarrow> clean w' \<and> di_session w' = di_session w \<and> di_closed w' = di_closed w \<and> di_next w \<le> di_next w'
     \<and> shared w \<subseteq> shared w' \<and> shared w' \<subseteq> shared w \<union> {di_next w..<di_next w'}"

text \<open>
  Objects made between two states: they hold no session but the current one, none at all when \<open>free\<close>, and are
  new or shared.
\<close>

definition made_well :: "bool \<Rightarrow> di_state \<Rightarrow> di_state \<Rightarrow> obj list \<Rightarrow> bool" where
  "made_well free w w' os \<longleftrightarrow> (\<forall>ob \<in> set os.
       set (sessions_of ob) \<subseteq> (if free then {} else set_option (di_session w))
     \<and> set (numbers_of ob) \<subseteq> shared w' \<union> {di_next w..<di_next w'})"

definition runs_well :: "bool \<Rightarrow> ('v \<Rightarrow> obj list) \<Rightarrow> di_state \<Rightarrow> (exn, 'v) outcome \<times> di_state \<Rightarrow> bool" where
  "runs_well free f w r \<longleftrightarrow> (case r of (out, w') \<Rightarrow> grows w w' \<and>
     (if di_session w = None \<and> \<not> free then out = Raise no_session
      else \<exists>v. out = Ret v \<and> made_well free w w' (f v)))"

lemma grows_refl: "clean w \<Longrightarrow> grows w w"
  by (simp add: grows_def)

lemma grows_trans:
  assumes "grows a b" "grows b c"
  shows "grows a c"
proof -
  have "shared c \<subseteq> shared a \<union> {di_next a..<di_next b} \<union> {di_next b..<di_next c}" "di_next a \<le> di_next b" "di_next b \<le> di_next c"
    "shared a \<subseteq> shared c"
    using assms unfolding grows_def by blast+
  moreover from this have "{di_next a..<di_next b} \<union> {di_next b..<di_next c} = {di_next a..<di_next c}" by (simp add: ivl_disj_un)
  ultimately have "shared c \<subseteq> shared a \<union> {di_next a..<di_next c}" by (simp add: Un_assoc)
  then show ?thesis using assms \<open>shared a \<subseteq> shared c\<close> unfolding grows_def by simp
qed

lemma made_well_mono:
  assumes "made_well free a b os" "di_session a = di_session w" "shared b \<subseteq> shared w'" "di_next w \<le> di_next a" "di_next b \<le> di_next w'"
  shows "made_well free w w' os"
proof -
  have "shared b \<union> {di_next a..<di_next b} \<subseteq> shared w' \<union> {di_next w..<di_next w'}"
    using assms(3,4,5) by (intro Un_mono) auto
  then show ?thesis using assms(1,2) unfolding made_well_def by (metis subset_trans)
qed

lemma made_well_later: "made_well free w w' os \<Longrightarrow> grows w' w'' \<Longrightarrow> made_well free w w'' os"
  by (rule made_well_mono [where a = w and b = w']) (auto simp: grows_def)

lemma made_well_earlier: "made_well free w' w'' os \<Longrightarrow> grows w w' \<Longrightarrow> made_well free w w'' os"
  by (rule made_well_mono [where a = w' and b = w'']) (auto simp: grows_def)

lemma made_well_weaken: "made_well free w w' os \<Longrightarrow> (fr \<Longrightarrow> free) \<Longrightarrow> made_well fr w w' os"
  by (cases fr; cases free) (simp_all add: made_well_def)

lemma made_well_Cons: "made_well free w w' (ob # os) \<longleftrightarrow> made_well free w w' [ob] \<and> made_well free w w' os"
  by (simp add: made_well_def)

text \<open>How a run that is well is put together.\<close>

lemma runs_well_cases:
  assumes "runs_well free f w (m w)"
  obtains (raised) w' where "m w = (Raise no_session, w')" "grows w w'" "di_session w = None" "\<not> free"
  | (returned) v w' where "m w = (Ret v, w')" "grows w w'" "made_well free w w' (f v)" "di_session w \<noteq> None \<or> free"
  using assms unfolding runs_well_def by (cases "m w") (auto split: if_split_asm)

lemma grows_clean: "grows w w' \<Longrightarrow> clean w'" and grows_session: "grows w w' \<Longrightarrow> di_session w' = di_session w"
  by (simp_all add: grows_def)

lemma runs_args:
  assumes "runs_well fr1 (\<lambda>ob. [ob]) w (m w)" "\<And>w'. clean w' \<Longrightarrow> runs_well fr2 (\<lambda>os. os) w' (ms w')"
  shows "runs_well (fr1 \<and> fr2) (\<lambda>os. os) w (py_bind m (\<lambda>ob. py_bind ms (\<lambda>os. py_ret (ob # os))) w)"
  using assms(1)
proof (cases rule: runs_well_cases)
  case (raised w')
  then show ?thesis by (simp add: runs_well_def)
next
  case (returned ob w1)
  note first = returned
  from assms(2) [OF grows_clean [OF first(2)]] show ?thesis
  proof (cases rule: runs_well_cases)
    case (raised w')
    then show ?thesis using first grows_trans [OF first(2) raised(2)] by (simp add: runs_well_def grows_session)
  next
    case (returned os w2)
    have "made_well (fr1 \<and> fr2) w w2 (ob # os)"
      unfolding made_well_Cons [of _ _ _ _ os]
      using made_well_weaken [OF made_well_later [OF first(3) returned(2)]] made_well_weaken [OF made_well_earlier [OF returned(3) first(2)]]
      by simp
    moreover have "di_session w \<noteq> None \<or> (fr1 \<and> fr2)" using first(2,4) returned(4) by (auto simp: grows_session)
    ultimately show ?thesis using first returned grows_trans [OF first(2) returned(2)] by (auto simp: runs_well_def)
  qed
qed

lemma runs_construct:
  assumes "runs_well fr (\<lambda>os. os) w (ms w)" "init_fits c names"
  shows "runs_well fr (\<lambda>ob. [ob]) w (py_bind ms (construct c names) w)"
  using assms(1)
proof (cases rule: runs_well_cases)
  case (raised w')
  then show ?thesis by (simp add: runs_well_def)
next
  case (returned os w1)
  let ?w2 = "w1\<lparr>di_next := di_next w1 + 1\<rparr>"
  have g: "grows w1 ?w2" using returned(2) by (auto simp: grows_def clean_def shared_def)
  have "made_well fr w ?w2 os" using made_well_later [OF returned(3) g] .
  moreover have "di_next w \<le> di_next w1" using returned(2) by (simp add: grows_def)
  ultimately have "made_well fr w ?w2 [Made (di_next w1) c os]"
    by (fastforce simp: made_well_def)
  then show ?thesis using returned assms(2) grows_trans [OF returned(2) g]
    by (auto simp: runs_well_def construct_def fresh_number_def py_bind_app)
qed

lemma runs_keep:
  assumes "runs_well True (\<lambda>ob. [ob]) w (m w)"
  shows "runs_well True (\<lambda>ob. [ob]) w (py_bind m (keep_singleton key) w)"
  using assms
proof (cases rule: runs_well_cases)
  case (raised w')
  then show ?thesis by simp
next
  case (returned ob w1)
  let ?w2 = "w1\<lparr>di_singletons := di_singletons w1 @ [(key, ob)]\<rparr>"
  have s: "shared ?w2 = shared w1 \<union> set (numbers_of ob)" by (auto simp: shared_def)
  have n: "set (numbers_of ob) \<subseteq> shared w1 \<union> {di_next w..<di_next w1}" "sessions_of ob = []"
    using returned(3) by (auto simp: made_well_def)
  have "grows w ?w2" using returned(2) n s by (auto simp: grows_def clean_def)
  moreover have "made_well True w ?w2 [ob]" using n s by (auto simp: made_well_def)
  ultimately show ?thesis using returned by (simp add: runs_well_def keep_singleton_def py_bind_app)
qed

lemma runs_stored: "clean w \<Longrightarrow> map_of (di_singletons w) key = Some ob \<Longrightarrow> runs_well True (\<lambda>ob. [ob]) w (Ret ob, w)"
  by (drule map_of_SomeD) (auto simp: runs_well_def grows_refl made_well_def clean_def list_all_iff shared_def)

lemma runs_constant: "clean w \<Longrightarrow> runs_well True (\<lambda>ob. [ob]) w (Ret (Constant_Obj v), w)"
  by (simp add: runs_well_def grows_refl made_well_def)

lemma runs_session: "clean w \<Longrightarrow> runs_well False (\<lambda>ob. [ob]) w (py_bind get_current_session (\<lambda>i. py_ret (Session_Obj i)) w)"
  by (cases "di_session w")
    (simp_all add: runs_well_def grows_refl made_well_def get_current_session_def on_registry_def registry_get_def no_session_def py_bind_app)

lemma runs_attribute: "runs_well fr (\<lambda>ob. [ob]) w (m w) \<Longrightarrow> runs_well fr (\<lambda>ob. [ob]) w (py_bind m (\<lambda>ob. py_ret (Field_Obj ob n)) w)"
  by (erule runs_well_cases) (auto simp: runs_well_def made_well_def)

lemma runs_no_args: "clean w \<Longrightarrow> runs_well True (\<lambda>os. os) w (Ret [], w)"
  by (simp add: runs_well_def grows_refl made_well_def)

lemma call_runs:
  "well_wired k b p \<Longrightarrow> clean w \<Longrightarrow> runs_well (session_free k b p) (\<lambda>ob. [ob]) w (call k b key p w)"
  "all_wired k b kws \<Longrightarrow> clean w \<Longrightarrow> runs_well (all_free k b kws) (\<lambda>os. os) w (call_args k b key kws w)"
proof (induction k arbitrary: b p key w kws)
  case Nil
  case 1
  then show ?case by simp
next
  case Nil
  case 2
  then show ?case by (cases kws) (simp_all add: runs_no_args)
next
  case (Cons u k)
  case 1
  show ?case
  proof (cases p)
    case (Factory c kws)
    then show ?thesis using 1 by (simp add: runs_construct Cons.IH(2))
  next
    case (Singleton c kws)
    then have fits: "init_fits c (map fst kws)" "all_free k b kws" and r: "runs_well True (\<lambda>os. os) w (call_args k b key kws w)"
      using 1 Cons.IH(2) [of b kws w key] by simp_all
    show ?thesis
    proof (cases "map_of (di_singletons w) key")
      case None
      have "runs_well True (\<lambda>ob. [ob]) w (py_bind (call_args k b key kws) (construct c (map fst kws)) w)"
        by (rule runs_construct [where ms = "call_args k b key kws", OF r fits(1)])
      then have "runs_well True (\<lambda>ob. [ob]) w (py_bind (py_bind (call_args k b key kws) (construct c (map fst kws))) (keep_singleton key) w)"
        by (rule runs_keep)
      then show ?thesis using None Singleton fits by (simp add: py_bind_assoc)
    next
      case (Some ob)
      then show ?thesis using Singleton fits 1 by (simp add: runs_stored)
    qed
  next
    case (Ref path)
    then show ?thesis using 1 Cons.IH(1) by (simp split: option.split_asm found.split_asm)
  next
    case (Call_If_Provider path)
    then show ?thesis using 1 Cons.IH(1) by (simp split: option.split_asm found.split_asm)
  next
    case (Attribute q n)
    then show ?thesis using 1 by (simp add: runs_attribute Cons.IH(1))
  next
    case Current_Session
    then show ?thesis using 1 by (simp add: runs_session)
  next
    case (Value v)
    then show ?thesis using 1 by (simp add: runs_constant)
  next
    case (Delegated q)
    then show ?thesis using 1 by (simp add: runs_constant)
  qed
next
  case (Cons u k)
  note IH = Cons.IH
  case 2
  show ?case
  proof (cases kws)
    case Nil
    then show ?thesis using 2 by (simp add: runs_no_args)
  next
    case (Cons x r)
    then show ?thesis using 2 by (cases x) (simp add: runs_args IH)
  qed
qed

text \<open>A factory makes a new object of its class.\<close>

lemma factory_new:
  assumes "call (u # k) b key (Factory c kws) w = (Ret ob, w')" "all_wired k b kws" "clean w"
  shows "\<exists>i os. ob = Made i c os \<and> di_next w \<le> i \<and> i \<notin> shared w'"
proof -
  from assms(1) obtain os w1 where a: "call_args k b key kws w = (Ret os, w1)" and c: "construct c (map fst kws) os w1 = (Ret ob, w')"
    by (cases "call_args k b key kws w"; cases "fst (call_args k b key kws w)") (simp_all add: py_bind_app split: outcome.split_asm prod.split_asm)
  have "grows w w1" using call_runs(2) [OF assms(2,3), of key] a by (simp add: runs_well_def)
  then have "di_next w \<le> di_next w1" "di_next w1 \<notin> shared w1" by (auto simp: grows_def clean_def)
  with c show ?thesis
    by (auto simp: construct_def fresh_number_def py_bind_app shared_def split: if_split_asm)
qed

section \<open>The wiring of the program\<close>

text \<open>The factory behind a key is one of the class, and well wired.\<close>

definition wired_key :: "cls \<Rightarrow> string list \<Rightarrow> bool" where
  "wired_key c path = (case walk walk_fuel root_box path of
     Some (A_Provider key b (Delegated p)) \<Rightarrow> (case p of Factory c' kws \<Rightarrow> c' = c \<and> well_wired call_fuel b p | _ \<Rightarrow> False)
   | _ \<Rightarrow> False)"

lemma wired_register: "wired_key ''RegisterCommandHandler'' (identity_command_key ''register_handler'')" by code_simp
lemma wired_confirm: "wired_key ''ConfirmEmailCommandHandler'' (identity_command_key ''confirm_email_handler'')" by code_simp
lemma wired_resend: "wired_key ''ResendEmailConfirmationCommandHandler'' (identity_command_key ''resend_confirmation_handler'')" by code_simp
lemma wired_login: "wired_key ''LoginCommandHandler'' (identity_command_key ''login_handler'')" by code_simp
lemma wired_refresh: "wired_key ''RefreshTokenCommandHandler'' (identity_command_key ''refresh_token_handler'')" by code_simp
lemma wired_step1: "wired_key ''ForgotPasswordStep1CommandHandler'' (identity_command_key ''forgot_step1_handler'')" by code_simp
lemma wired_step2: "wired_key ''ForgotPasswordStep2CommandHandler'' (identity_command_key ''forgot_step2_handler'')" by code_simp
lemma wired_step3: "wired_key ''ForgotPasswordStep3CommandHandler'' (identity_command_key ''forgot_step3_handler'')" by code_simp
lemma wired_update: "wired_key ''UserUpdateMeCommandHandler'' (identity_command_key ''update_me_handler'')" by code_simp
lemma wired_password: "wired_key ''ChangePasswordCommandHandler'' (identity_command_key ''change_password_handler'')" by code_simp
lemma wired_toggle: "wired_key ''UserToggleStatusCommandHandler'' (identity_command_key ''user_toggle_status_handler'')" by code_simp
lemma wired_me: "wired_key ''MeQueryHandler'' (identity_query_key ''me_handler'')" by code_simp
lemma wired_detailed: "wired_key ''UserDetailedQueryHandler'' (identity_query_key ''user_detailed_handler'')" by code_simp
lemma wired_list: "wired_key ''UserListQueryHandler'' (identity_query_key ''user_list_handler'')" by code_simp
lemma wired_blobs: "list_all (\<lambda>(m, key). wired_key (handler_class m) key) blob_keys" by code_simp
lemma wired_events: "list_all (\<lambda>(c, key). wired_key c key) event_keys" by code_simp

lemma wired_sessions:
  "case walk walk_fuel root_box [''db'', ''session_factory''] of Some (A_Provider key b p) \<Rightarrow> well_wired call_fuel b p \<and> session_free call_fuel b p
     | _ \<Rightarrow> False"
  by code_simp

lemma wired_handler: "\<exists>key. map_of (identity_keys @ blob_keys) m = Some key \<and> wired_key (handler_class m) key"
  using wired_blobs by (cases m) (simp_all add: identity_keys_def blob_keys_def wired_register wired_confirm wired_resend wired_login wired_refresh
      wired_step1 wired_step2 wired_step3 wired_update wired_password wired_toggle wired_me wired_detailed wired_list)

end
