(* ===== verification/RequestScope.thy ===== *)
theory RequestScope
  imports WiringFlows
begin

text \<open>
  The objects of a request: the session that is opened for it, the handlers made for its messages, and what
  is left when it ends.
\<close>

section \<open>A request\<close>

text \<open>The handlers made while a request sends some messages.\<close>

fun handlers_for :: "message_class list \<Rightarrow> obj list di_prog" where
  "handlers_for [] = py_ret []"
| "handlers_for (m # ms) = py_bind (factory_of m) (\<lambda>ob. py_bind (handlers_for ms) (\<lambda>obs. py_ret (ob # obs)))"

definition new_handler :: "di_state \<Rightarrow> di_state \<Rightarrow> message_class \<Rightarrow> obj \<Rightarrow> bool" where
  "new_handler w w' m ob \<longleftrightarrow> (\<exists>i os. ob = Made i (handler_class m) os \<and> di_next w \<le> i \<and> i < di_next w' \<and> i \<notin> shared w')"

lemma call_fuel_Cons: "call_fuel = () # replicate 59 ()"
  by (simp add: call_fuel_def numeral_eq_Suc)

lemma factory_runs:
  assumes "clean w" "di_session w = Some s"
  obtains ob w' where "factory_of m w = (Ret ob, w')" "grows w w'" "made_well False w w' [ob]" "new_handler w w' m ob"
proof -
  obtain path where path: "map_of (identity_keys @ blob_keys) m = Some path" "wired_key (handler_class m) path"
    using wired_handler [of m] by blast
  then obtain key b kws where p: "walk walk_fuel root_box path = Some (A_Provider key b (Delegated (Factory (handler_class m) kws)))"
      "well_wired call_fuel b (Factory (handler_class m) kws)"
    by (auto simp: wired_key_def split: option.splits found.splits provider.splits)
  have f: "factory_of m w = call call_fuel b key (Factory (handler_class m) kws) w"
    using path(1) p(1) by (simp add: factory_of_def call_factory_def)
  have r: "runs_well (session_free call_fuel b (Factory (handler_class m) kws)) (\<lambda>ob. [ob]) w (call call_fuel b key (Factory (handler_class m) kws) w)"
    by (rule call_runs(1) [OF p(2) assms(1)])
  from r show thesis
  proof (cases rule: runs_well_cases)
    case (raised w')
    with assms(2) show thesis by simp
  next
    case (returned ob w')
    have "\<exists>i os. ob = Made i (handler_class m) os \<and> di_next w \<le> i \<and> i \<notin> shared w'"
      by (rule factory_new [OF returned(1) [unfolded call_fuel_Cons]]) (use p(2) assms(1) in \<open>simp_all add: call_fuel_Cons\<close>)
    then obtain i os where i: "ob = Made i (handler_class m) os" "di_next w \<le> i" "i \<notin> shared w'" by blast
    have m: "made_well False w w' [ob]" by (rule made_well_weaken [OF returned(3)]) simp
    then have "i \<in> shared w' \<union> {di_next w..<di_next w'}" by (simp add: made_well_def i(1))
    then have n: "new_handler w w' m ob" using i by (simp add: new_handler_def)
    from f returned(1) have "factory_of m w = (Ret ob, w')" by (rule trans)
    then show thesis by (rule that [OF _ returned(2) m n])
  qed
qed

lemma new_handler_later:
  assumes "new_handler w w1 m ob" "grows w w1" "grows w1 w2"
  shows "new_handler w w2 m ob"
proof -
  from assms(1) obtain i os where i: "ob = Made i (handler_class m) os" "di_next w \<le> i" "i < di_next w1" "i \<notin> shared w1"
    by (auto simp: new_handler_def)
  have "shared w2 \<subseteq> shared w1 \<union> {di_next w1..<di_next w2}" "di_next w1 \<le> di_next w2" using assms(3) by (simp_all add: grows_def)
  then have "i \<notin> shared w2" "i < di_next w2" using i by auto
  then show ?thesis using i by (auto simp: new_handler_def)
qed

lemma new_handler_earlier: "new_handler w1 w2 m ob \<Longrightarrow> grows w w1 \<Longrightarrow> new_handler w w2 m ob"
  by (auto simp: new_handler_def grows_def)

lemma handlers_run:
  assumes "clean w" "di_session w = Some s"
  shows "\<exists>obs w'. handlers_for ms w = (Ret obs, w') \<and> grows w w' \<and> made_well False w w' obs \<and> list_all2 (new_handler w w') ms obs"
  using assms
proof (induction ms arbitrary: w)
  case Nil
  then show ?case by (simp add: grows_refl made_well_def)
next
  case (Cons m ms)
  obtain ob w1 where a: "factory_of m w = (Ret ob, w1)" "grows w w1" "made_well False w w1 [ob]" "new_handler w w1 m ob"
    using factory_runs [OF Cons.prems] .
  obtain obs w2 where b: "handlers_for ms w1 = (Ret obs, w2)" "grows w1 w2" "made_well False w1 w2 obs" "list_all2 (new_handler w1 w2) ms obs"
    using Cons.IH [of w1] a(2) Cons.prems(2) by (auto simp: grows_clean grows_session)
  have "made_well False w w2 (ob # obs)"
    unfolding made_well_Cons [of _ _ _ _ obs] using made_well_later [OF a(3) b(2)] made_well_earlier [OF b(3) a(2)] by simp
  moreover have "list_all2 (new_handler w w2) ms obs"
    using b(4) by (rule list_all2_mono) (rule new_handler_earlier [OF _ a(2)])
  ultimately show ?case
    using a b grows_trans [OF a(2) b(2)] new_handler_later [OF a(4,2) b(2)] by simp
qed

lemma session_opens:
  assumes "clean w"
  obtains s w1 where "set_current_session w = (Ret (di_session w), w1)" "di_session w1 = Some s" "clean w1" "di_next w \<le> s" "s < di_next w1"
    "di_closed w1 = di_closed w"
proof -
  obtain key b p where p: "walk walk_fuel root_box [''db'', ''session_factory''] = Some (A_Provider key b p)"
      "well_wired call_fuel b p" "session_free call_fuel b p"
    using wired_sessions by (auto split: option.splits found.splits)
  have r: "runs_well True (\<lambda>ob. [ob]) w (call call_fuel b key p w)"
    using call_runs(1) [OF p(2) assms, of key] p(3) by simp
  from r show thesis
  proof (cases rule: runs_well_cases)
    case (raised w')
    then show thesis by simp
  next
    case (returned ob w1)
    let ?w2 = "w1\<lparr>di_next := di_next w1 + 1, di_session := Some (di_next w1)\<rparr>"
    have g: "clean w1" "di_session w1 = di_session w" "di_closed w1 = di_closed w" "di_next w \<le> di_next w1" "shared w \<subseteq> shared w1"
      "shared w1 \<subseteq> shared w \<union> {di_next w..<di_next w1}"
      using returned(2) by (simp_all add: grows_def)
    have "set_current_session w = (Ret (di_session w), ?w2)"
      using p(1) returned(1) g(2)
      by (simp add: set_current_session_def call_at_def py_bind_app fresh_number_def on_registry_def registry_set_def)
    moreover have "clean ?w2" "shared ?w2 = shared w1" using g(1) by (auto simp: clean_def shared_def)
    ultimately show thesis using g by - (rule that [of ?w2 "di_next w1"], simp_all)
  qed
qed

text \<open>
  Claim C15. Whatever messages a request sends, its handlers are made: each is a new object of the class meant
  for its message, every session in it or in anything it is made of is the one session that was opened
  for the request, and every object of it is new or a singleton, none of which holds a session. After
  the request that session, which no request had before, is closed, and the registry is what it was.
\<close>

theorem requests_isolated:
  assumes "clean w"
  shows "\<exists>s obs w'. session_middleware True (handlers_for ms) w = (Ret obs, w')
    \<and> di_next w \<le> s \<and> di_closed w' = di_closed w @ [s] \<and> di_session w' = di_session w \<and> clean w' \<and> di_next w \<le> di_next w'
    \<and> list_all2 (\<lambda>m ob. (\<exists>i os. ob = Made i (handler_class m) os \<and> di_next w \<le> i \<and> i \<notin> shared w')
        \<and> set (sessions_of ob) \<subseteq> {s} \<and> set (numbers_of ob) \<subseteq> shared w' \<union> {di_next w..<di_next w'}) ms obs"
proof -
  obtain s w1 where o: "set_current_session w = (Ret (di_session w), w1)" "di_session w1 = Some s" "clean w1" "di_next w \<le> s" "s < di_next w1"
    "di_closed w1 = di_closed w" by (rule session_opens [OF assms])
  obtain obs w2 where h: "handlers_for ms w1 = (Ret obs, w2)" "grows w1 w2" "made_well False w1 w2 obs" "list_all2 (new_handler w1 w2) ms obs"
    using handlers_run [OF o(3,2), of ms] by blast
  let ?w3 = "w2\<lparr>di_closed := di_closed w2 @ [s], di_session := di_session w\<rparr>"
  have same: "shared ?w3 = shared w2" "clean ?w3" using grows_clean [OF h(2)] by (simp_all add: shared_def clean_def)
  have g: "di_session w2 = Some s" "di_closed w2 = di_closed w" "di_next w1 \<le> di_next w2" using h(2) o by (simp_all add: grows_def)
  have run: "session_middleware True (handlers_for ms) w = (Ret obs, ?w3)"
    using o h g by (simp add: session_middleware_def py_bind_app py_finally_def clear_current_session_def get_current_session_def on_registry_def
        registry_get_def registry_reset_def)
  have each: "(\<exists>i os. ob = Made i (handler_class m) os \<and> di_next w \<le> i \<and> i \<notin> shared w2)
      \<and> set (sessions_of ob) \<subseteq> {s} \<and> set (numbers_of ob) \<subseteq> shared w2 \<union> {di_next w..<di_next w2}"
    if "new_handler w1 w2 m ob" "ob \<in> set obs" for m ob
  proof -
    have "di_next w \<le> di_next w1" using o(4,5) by simp
    then show ?thesis using that h(3) o(2) by (fastforce simp: new_handler_def made_well_def)
  qed
  have "list_all2 (\<lambda>m ob. (\<exists>i os. ob = Made i (handler_class m) os \<and> di_next w \<le> i \<and> i \<notin> shared w2)
      \<and> set (sessions_of ob) \<subseteq> {s} \<and> set (numbers_of ob) \<subseteq> shared w2 \<union> {di_next w..<di_next w2}) ms obs"
    by (rule list.rel_mono_strong [OF h(4)]) (rule each)
  then show ?thesis
    using run g(2,3) o(4,5) same by (intro exI [of _ s] exI [of _ obs] exI [of _ ?w3]) simp
qed

definition first_state :: di_state where
  "first_state = \<lparr>di_singletons = [], di_next = 0, di_session = None, di_closed = []\<rparr>"

theorem requests_isolated_witness:
  "clean first_state \<and> (\<exists>s ob w'. session_middleware True (handlers_for [LoginC]) first_state = (Ret [ob], w')
     \<and> di_closed w' = [s] \<and> di_session w' = None \<and> set (sessions_of ob) \<subseteq> {s})"
proof -
  have c: "clean first_state" by (simp add: clean_def shared_def first_state_def)
  then show ?thesis using requests_isolated [OF c, of "[LoginC]"]
    by (auto simp: first_state_def list_all2_Cons1)
qed

end
