(* ===== verification/EntitySources.thy ===== *)
theory EntitySources
  imports Utils "HOL-Library.AList"
begin

text \<open>
  The sources behind the entities (\<open>data_access/entity_source\<close>): a source keeps an ORM object and the
  entities related to it, and mirrors each relation in an attribute of the object. Objects, sources
  and the lists of entities live in an explicit store, since callers and sources share them.
\<close>

section \<open>The store\<close>

text \<open>
  The value of an attribute: an id or other plain value, \<open>None\<close>, another ORM object, or a list of them.
  An entity is known by the source it proxies.
\<close>

datatype attr_value = A_Id uuid | A_Plain string | A_None | A_Object nat | A_Objects "nat list"

record orm_object =
  oo_model :: string
  oo_attrs :: "string \<rightharpoonup> attr_value"

record entity_source =
  es_obj :: nat
  es_related :: "(string \<times> nat option) list"
  es_collections :: "(string \<times> nat) list"

record store =
  st_objects :: "nat \<rightharpoonup> orm_object"
  st_sources :: "nat \<rightharpoonup> entity_source"
  st_lists :: "nat \<rightharpoonup> nat list"
  st_next :: nat
  st_ids :: "nat \<Rightarrow> uuid"

type_synonym 'a store_prog = "(store, exn, 'a) prog"

definition dangling :: exn where "dangling = OtherError ''dangling reference''"

definition the_source :: "nat \<Rightarrow> entity_source store_prog" where
  "the_source s = (\<lambda>w. (case st_sources w s of Some x \<Rightarrow> Ret x | None \<Rightarrow> Raise dangling, w))"

definition the_list :: "nat \<Rightarrow> nat list store_prog" where
  "the_list l = (\<lambda>w. (case st_lists w l of Some es \<Rightarrow> Ret es | None \<Rightarrow> Raise dangling, w))"

definition set_attr :: "nat \<Rightarrow> string \<Rightarrow> attr_value \<Rightarrow> unit store_prog" where
  "set_attr ob k v = (\<lambda>w. case st_objects w ob of
       Some x \<Rightarrow> (Ret (), w\<lparr>st_objects := (st_objects w)(ob \<mapsto> x\<lparr>oo_attrs := (oo_attrs x)(k \<mapsto> v)\<rparr>)\<rparr>)
     | None \<Rightarrow> (Raise dangling, w))"

definition get_attr :: "nat \<Rightarrow> string \<Rightarrow> attr_value store_prog" where
  "get_attr ob k = (\<lambda>w. (case st_objects w ob of
       Some x \<Rightarrow> (case oo_attrs x k of Some v \<Rightarrow> Ret v | None \<Rightarrow> Raise (AttributeError k))
     | None \<Rightarrow> Raise dangling, w))"

definition set_source :: "nat \<Rightarrow> entity_source \<Rightarrow> unit store_prog" where
  "set_source s x = py_write (\<lambda>w. w\<lparr>st_sources := (st_sources w)(s \<mapsto> x)\<rparr>)"

definition fresh :: "nat store_prog" where
  "fresh = (\<lambda>w. (Ret (st_next w), w\<lparr>st_next := st_next w + 1\<rparr>))"

definition new_list :: "nat list \<Rightarrow> nat store_prog" where
  "new_list es = py_bind fresh (\<lambda>l. py_bind (py_write (\<lambda>w. w\<lparr>st_lists := (st_lists w)(l \<mapsto> es)\<rparr>)) (\<lambda>_. py_ret l))"

fun py_collect :: "'a list \<Rightarrow> ('a \<Rightarrow> ('w, 'e, 'b) prog) \<Rightarrow> ('w, 'e, 'b list) prog" where
  "py_collect [] f = py_ret []"
| "py_collect (x # xs) f = py_bind (f x) (\<lambda>y. py_bind (py_collect xs f) (\<lambda>ys. py_ret (y # ys)))"

section \<open>SqlAlchemyEntitySource (sources.py)\<close>

definition source_init :: "nat \<Rightarrow> nat store_prog" where
  "source_init ob = py_bind fresh (\<lambda>s. py_bind (set_source s \<lparr>es_obj = ob, es_related = [], es_collections = []\<rparr>) (\<lambda>_. py_ret s))"

definition source_set :: "nat \<Rightarrow> string \<Rightarrow> attr_value \<Rightarrow> unit store_prog" where
  "source_set s k v = py_bind (the_source s) (\<lambda>x. set_attr (es_obj x) k v)"

definition source_get :: "nat \<Rightarrow> string \<Rightarrow> attr_value store_prog" where
  "source_get s k = py_bind (the_source s) (\<lambda>x. get_attr (es_obj x) k)"

definition source_has :: "nat \<Rightarrow> string \<Rightarrow> bool store_prog" where
  "source_has s k = py_catch (py_bind (source_get s k) (\<lambda>_. py_ret True))
     (\<lambda>e. case e of AttributeError _ \<Rightarrow> py_ret False | _ \<Rightarrow> py_raise e)"

text \<open>\<open>build_root\<close>; the fuel is the interpreter's recursion limit.\<close>

fun build_root :: "nat \<Rightarrow> nat \<Rightarrow> nat store_prog" where
  "build_root 0 s = py_raise (OtherError ''RecursionError'')"
| "build_root (Suc n) s = py_bind (the_source s) (\<lambda>x.
     py_bind (py_for (es_related x) (\<lambda>(k, v). case v of
         None \<Rightarrow> set_attr (es_obj x) k A_None
       | Some e \<Rightarrow> py_bind (build_root n e) (\<lambda>r. set_attr (es_obj x) k (A_Object r)))) (\<lambda>_.
     py_bind (py_for (es_collections x) (\<lambda>(k, l). py_bind (the_list l) (\<lambda>es.
         py_bind (py_collect es (build_root n)) (\<lambda>rs. set_attr (es_obj x) k (A_Objects rs))))) (\<lambda>_.
     py_ret (es_obj x))))"

text \<open>The dictionary is written first; \<open>None\<close> has no \<open>source\<close>.\<close>

definition set_related_entity :: "nat \<Rightarrow> string \<Rightarrow> nat option \<Rightarrow> unit store_prog" where
  "set_related_entity s k v = py_bind (the_source s) (\<lambda>x.
     py_bind (set_source s (x\<lparr>es_related := AList.update k v (es_related x)\<rparr>)) (\<lambda>_.
     case v of None \<Rightarrow> py_raise (AttributeError ''source'')
     | Some e \<Rightarrow> py_bind (the_source e) (\<lambda>y. set_attr (es_obj x) k (A_Object (es_obj y)))))"

definition set_related_entities :: "nat \<Rightarrow> nat \<Rightarrow> string \<Rightarrow> nat \<Rightarrow> unit store_prog" where
  "set_related_entities n s k l = py_bind (the_source s) (\<lambda>x.
     py_bind (set_source s (x\<lparr>es_collections := AList.update k l (es_collections x)\<rparr>)) (\<lambda>_.
     py_bind (the_list l) (\<lambda>es. py_bind (py_collect es (build_root n)) (\<lambda>rs. set_attr (es_obj x) k (A_Objects rs)))))"

definition get_related_entity :: "nat \<Rightarrow> string \<Rightarrow> nat option store_prog" where
  "get_related_entity s k = py_bind (the_source s) (\<lambda>x.
     py_ret (case map_of (es_related x) k of None \<Rightarrow> None | Some v \<Rightarrow> v))"

text \<open>A list of its own is made for the first entity; later ones are appended to the list the source holds.\<close>

definition append_related_entity :: "nat \<Rightarrow> nat \<Rightarrow> string \<Rightarrow> nat \<Rightarrow> unit store_prog" where
  "append_related_entity n s k e = py_bind (the_source s) (\<lambda>x. case map_of (es_collections x) k of
       None \<Rightarrow> py_bind (new_list [e]) (\<lambda>l. py_bind (set_source s (x\<lparr>es_collections := AList.update k l (es_collections x)\<rparr>)) (\<lambda>_.
         py_bind (build_root n e) (\<lambda>r. set_attr (es_obj x) k (A_Objects [r]))))
     | Some l \<Rightarrow> py_bind (the_list l) (\<lambda>es. py_bind (py_write (\<lambda>w. w\<lparr>st_lists := (st_lists w)(l \<mapsto> es @ [e])\<rparr>)) (\<lambda>_.
         py_bind (get_attr (es_obj x) k) (\<lambda>v. case v of
             A_Objects rs \<Rightarrow> py_bind (build_root n e) (\<lambda>r. set_attr (es_obj x) k (A_Objects (rs @ [r])))
           | _ \<Rightarrow> py_raise (AttributeError ''append'')))))"

definition get_related_entities :: "nat \<Rightarrow> string \<Rightarrow> nat list store_prog" where
  "get_related_entities s k = py_bind (the_source s) (\<lambda>x. case map_of (es_collections x) k of
     None \<Rightarrow> py_ret [] | Some l \<Rightarrow> the_list l)"

fun keep_others :: "uuid \<Rightarrow> nat list \<Rightarrow> nat list store_prog" where
  "keep_others i [] = py_ret []"
| "keep_others i (e # es) = py_bind (source_get e ''id'') (\<lambda>v. py_bind (keep_others i es) (\<lambda>r.
     py_ret (if v \<noteq> A_Id i then e # r else r)))"

definition remove_entity_from_collection :: "nat \<Rightarrow> nat \<Rightarrow> string \<Rightarrow> uuid \<Rightarrow> unit store_prog" where
  "remove_entity_from_collection n s k i = py_bind (the_source s) (\<lambda>x. case map_of (es_collections x) k of
       None \<Rightarrow> py_ret ()
     | Some l \<Rightarrow> py_bind (the_list l) (\<lambda>es. py_bind (keep_others i es) (\<lambda>es'. py_bind (new_list es') (\<lambda>l'.
         py_bind (set_source s (x\<lparr>es_collections := AList.update k l' (es_collections x)\<rparr>)) (\<lambda>_.
         py_bind (py_collect es' (build_root n)) (\<lambda>rs. set_attr (es_obj x) k (A_Objects rs)))))))"

section \<open>SqlAlchemyEntitySourceFactory (factories.py)\<close>

text \<open>
  The model of an entity class, the relations of a model (the attribute, whether it is a collection, the
  model it leads to), and the columns and relations a model accepts as keyword arguments.
\<close>

record factory =
  fc_model :: "string \<rightharpoonup> string"
  fc_entity :: "string \<rightharpoonup> string"
  fc_relations :: "string \<Rightarrow> (string \<times> bool \<times> string) list"
  fc_accepts :: "string \<Rightarrow> string \<Rightarrow> bool"

text \<open>An argument: an entity, a list of entities by its address, or a plain value (an empty list is one).\<close>

datatype init_value = An_Entity nat | Some_Entities nat | A_Value attr_value

definition plain_values :: "(string \<times> init_value) list \<Rightarrow> (string \<times> attr_value) list" where
  "plain_values kws = concat (map (\<lambda>(k, v). case v of A_Value x \<Rightarrow> [(k, x)] | _ \<Rightarrow> []) kws)"

definition related_values :: "(string \<times> init_value) list \<Rightarrow> (string \<times> nat) list" where
  "related_values kws = concat (map (\<lambda>(k, v). case v of An_Entity e \<Rightarrow> [(k, e)] | _ \<Rightarrow> []) kws)"

definition collection_values :: "(string \<times> init_value) list \<Rightarrow> (string \<times> nat) list" where
  "collection_values kws = concat (map (\<lambda>(k, v). case v of Some_Entities l \<Rightarrow> [(k, l)] | _ \<Rightarrow> []) kws)"

definition new_object :: "string \<Rightarrow> (string \<rightharpoonup> attr_value) \<Rightarrow> nat store_prog" where
  "new_object model vs = py_bind fresh (\<lambda>ob. py_bind (py_write (\<lambda>w.
     w\<lparr>st_objects := (st_objects w)(ob \<mapsto> \<lparr>oo_model = model, oo_attrs = vs\<rparr>)\<rparr>)) (\<lambda>_. py_ret ob))"

definition stamp_id :: "nat \<Rightarrow> unit store_prog" where
  "stamp_id ob = (\<lambda>w. case st_objects w ob of
       None \<Rightarrow> (Raise dangling, w)
     | Some x \<Rightarrow> if oo_attrs x ''id'' = None \<or> oo_attrs x ''id'' = Some A_None
         then set_attr ob ''id'' (A_Id (st_ids w (st_next w))) (w\<lparr>st_next := st_next w + 1\<rparr>)
         else (Ret (), w))"

definition factory_empty :: "factory \<Rightarrow> nat \<Rightarrow> string \<Rightarrow> (string \<times> init_value) list \<Rightarrow> nat store_prog" where
  "factory_empty F n entity kws = (case fc_model F entity of
       None \<Rightarrow> py_raise (KeyError entity)
     | Some model \<Rightarrow>
         if \<not> list_all (\<lambda>(k, v). fc_accepts F model k) (plain_values kws) then py_raise (TypeError ''invalid keyword argument'')
         else py_bind (new_object model (map_of (rev (plain_values kws)))) (\<lambda>ob.
           py_bind (stamp_id ob) (\<lambda>_. py_bind (source_init ob) (\<lambda>s.
           py_bind (py_for (related_values kws) (\<lambda>(k, e). set_related_entity s k (Some e))) (\<lambda>_.
           py_bind (py_for (collection_values kws) (\<lambda>(k, l). set_related_entities n s k l)) (\<lambda>_.
           py_ret s))))))"

text \<open>\<open>from_source\<close>: relations that are not loaded, \<open>None\<close>, or lead to a model without an entity are left out.\<close>

fun from_source :: "factory \<Rightarrow> nat \<Rightarrow> nat \<Rightarrow> nat store_prog" where
  "from_source F 0 ob = py_raise (OtherError ''RecursionError'')"
| "from_source F (Suc n) ob = py_bind (source_init ob) (\<lambda>s. py_bind (py_read (\<lambda>w. st_objects w ob)) (\<lambda>x. case x of
       None \<Rightarrow> py_raise dangling
     | Some x \<Rightarrow> py_bind (py_for (fc_relations F (oo_model x)) (\<lambda>(k, many, target).
           case oo_attrs x k of
             None \<Rightarrow> py_ret ()
           | Some A_None \<Rightarrow> py_ret ()
           | Some v \<Rightarrow> if fc_entity F target = None then py_ret ()
               else (case v of
                   A_Objects obs \<Rightarrow> py_bind (py_collect obs (from_source F n)) (\<lambda>es. py_bind (new_list es) (\<lambda>l. set_related_entities n s k l))
                 | A_Object r \<Rightarrow> py_bind (from_source F n r) (\<lambda>e. set_related_entity s k (Some e))
                 | _ \<Rightarrow> py_raise (TypeError ''relation'')))) (\<lambda>_. py_ret s)))"

end
