(* ===== verification/EntitySourceFlows.thy ===== *)
theory EntitySourceFlows
  imports EntitySources
begin

text \<open>
  What is shown of the sources: the attributes of the ORM objects mirror the relations between the entities
  through every operation, so that what is flushed is what the entities say.
\<close>

section \<open>The mirror\<close>

definition obj_of :: "store \<Rightarrow> nat \<Rightarrow> nat" where
  "obj_of w s = es_obj (the (st_sources w s))"

text \<open>The attribute of the object has the value.\<close>

definition displays :: "store \<Rightarrow> entity_source \<Rightarrow> string \<Rightarrow> attr_value \<Rightarrow> bool" where
  "displays w x k v \<longleftrightarrow> (\<exists>ob. st_objects w (es_obj x) = Some ob \<and> oo_attrs ob k = Some v)"

definition one_mirrored :: "store \<Rightarrow> entity_source \<Rightarrow> string \<times> nat option \<Rightarrow> bool" where
  "one_mirrored w x p \<longleftrightarrow> (\<exists>e. snd p = Some e \<and> st_sources w e \<noteq> None \<and> displays w x (fst p) (A_Object (obj_of w e)))"

definition many_mirrored :: "store \<Rightarrow> entity_source \<Rightarrow> string \<times> nat \<Rightarrow> bool" where
  "many_mirrored w x p \<longleftrightarrow> (\<exists>es. st_lists w (snd p) = Some es \<and> list_all (\<lambda>e. st_sources w e \<noteq> None) es
     \<and> displays w x (fst p) (A_Objects (map (obj_of w) es)))"

definition source_mirrored :: "store \<Rightarrow> entity_source \<Rightarrow> bool" where
  "source_mirrored w x \<longleftrightarrow> st_objects w (es_obj x) \<noteq> None \<and> distinct (map fst (es_related x) @ map fst (es_collections x))
     \<and> list_all (one_mirrored w x) (es_related x) \<and> list_all (many_mirrored w x) (es_collections x)"

text \<open>Every source has an object of its own, and every collection a list of its own.\<close>

definition own_objects :: "store \<Rightarrow> bool" where
  "own_objects w \<longleftrightarrow> (\<forall>s x t y. st_sources w s = Some x \<longrightarrow> st_sources w t = Some y \<longrightarrow> es_obj x = es_obj y \<longrightarrow> s = t)"

definition owns :: "store \<Rightarrow> nat \<Rightarrow> string \<Rightarrow> nat \<Rightarrow> bool" where
  "owns w s k l \<longleftrightarrow> (\<forall>t y j. st_sources w t = Some y \<longrightarrow> (j, l) \<in> set (es_collections y) \<longrightarrow> t = s \<and> j = k)"

definition own_lists :: "store \<Rightarrow> bool" where
  "own_lists w \<longleftrightarrow> (\<forall>s x k l. st_sources w s = Some x \<longrightarrow> (k, l) \<in> set (es_collections x) \<longrightarrow> owns w s k l)"

definition mirrored :: "store \<Rightarrow> bool" where
  "mirrored w \<longleftrightarrow> own_objects w \<and> own_lists w \<and> (\<forall>s x. st_sources w s = Some x \<longrightarrow> source_mirrored w x)
     \<and> (\<forall>l. st_lists w l \<noteq> None \<longrightarrow> l < st_next w)"

text \<open>The sources a source leads to.\<close>

definition leads_to :: "store \<Rightarrow> entity_source \<Rightarrow> nat set" where
  "leads_to w x = {e. \<exists>k. (k, Some e) \<in> set (es_related x)}
     \<union> {e. \<exists>k l es. (k, l) \<in> set (es_collections x) \<and> st_lists w l = Some es \<and> e \<in> set es}"

text \<open>Below \<open>b\<close> the ranks fall along the relations: there is no cycle, and the rank bounds the depth.\<close>

definition settled_below :: "(nat \<Rightarrow> nat) \<Rightarrow> nat \<Rightarrow> store \<Rightarrow> bool" where
  "settled_below rank b w \<longleftrightarrow> (\<forall>s x. st_sources w s = Some x \<longrightarrow> rank s < b \<longrightarrow>
     source_mirrored w x \<and> (\<forall>e \<in> leads_to w x. rank e < rank s))"

definition ranked :: "(nat \<Rightarrow> nat) \<Rightarrow> store \<Rightarrow> bool" where
  "ranked rank w \<longleftrightarrow> (\<forall>s x. st_sources w s = Some x \<longrightarrow> (\<forall>e \<in> leads_to w x. rank e < rank s))"

section \<open>Building\<close>

lemma set_attr_same: "displays w x k v \<Longrightarrow> set_attr (es_obj x) k v w = (Ret (), w)"
  by (auto simp: displays_def set_attr_def fun_upd_idem)

lemma py_collect_pure: "(\<And>x. x \<in> set xs \<Longrightarrow> f x w = (Ret (g x), w)) \<Longrightarrow> py_collect xs f w = (Ret (map g xs), w)"
  by (induction xs) simp_all

lemma mirrored_one:
  assumes "source_mirrored w x" "(k, v) \<in> set (es_related x)"
  obtains e where "v = Some e" "st_sources w e \<noteq> None" "displays w x k (A_Object (obj_of w e))"
proof -
  have "one_mirrored w x (k, v)" using assms by (simp add: source_mirrored_def list_all_iff)
  then show thesis using that unfolding one_mirrored_def by auto
qed

lemma mirrored_many:
  assumes "source_mirrored w x" "(k, l) \<in> set (es_collections x)"
  obtains es where "st_lists w l = Some es" "\<forall>e \<in> set es. st_sources w e \<noteq> None" "displays w x k (A_Objects (map (obj_of w) es))"
proof -
  have "many_mirrored w x (k, l)" using assms by (simp add: source_mirrored_def list_all_iff)
  then show thesis using that unfolding many_mirrored_def list_all_iff by auto
qed

text \<open>Where everything is mirrored \<open>build_root\<close> gives the object and changes nothing.\<close>

lemma build_root_idle:
  assumes "settled_below rank b w"
  shows "st_sources w s \<noteq> None \<Longrightarrow> rank s < b \<Longrightarrow> rank s < n \<Longrightarrow> build_root n s w = (Ret (obj_of w s), w)"
proof (induction n arbitrary: s)
  case 0
  then show ?case by simp
next
  case (Suc n)
  then obtain x where x: "st_sources w s = Some x" by blast
  then have m: "source_mirrored w x" and r: "e \<in> leads_to w x \<Longrightarrow> rank e < rank s" for e
    using assms Suc.prems(2) unfolding settled_below_def by blast+
  have below: "build_root n e w = (Ret (obj_of w e), w)" if "e \<in> leads_to w x" "st_sources w e \<noteq> None" for e
    using r [OF that(1)] Suc.IH [of e] Suc.prems(2,3) that(2) by simp
  have one: "(case v of None \<Rightarrow> set_attr (es_obj x) k A_None
       | Some e \<Rightarrow> py_bind (build_root n e) (\<lambda>r. set_attr (es_obj x) k (A_Object r))) w = (Ret (), w)" if kv: "(k, v) \<in> set (es_related x)" for k v
  proof -
    obtain e where e: "v = Some e" "st_sources w e \<noteq> None" "displays w x k (A_Object (obj_of w e))"
      by (rule mirrored_one [OF m kv])
    then have "e \<in> leads_to w x" using kv by (auto simp: leads_to_def)
    then show ?thesis using e by (simp add: below set_attr_same)
  qed
  have many: "py_bind (the_list l) (\<lambda>es. py_bind (py_collect es (build_root n)) (\<lambda>rs. set_attr (es_obj x) k (A_Objects rs))) w = (Ret (), w)"
    if kl: "(k, l) \<in> set (es_collections x)" for k l
  proof -
    obtain es where es: "st_lists w l = Some es" "\<forall>e \<in> set es. st_sources w e \<noteq> None" "displays w x k (A_Objects (map (obj_of w) es))"
      by (rule mirrored_many [OF m kl])
    have "py_collect es (build_root n) w = (Ret (map (obj_of w) es), w)"
      by (rule py_collect_pure, rule below) (use kl es in \<open>auto simp: leads_to_def\<close>)
    then show ?thesis using es by (simp add: the_list_def py_bind_app set_attr_same)
  qed
  have "py_for (es_related x) (\<lambda>(k, v). case v of None \<Rightarrow> set_attr (es_obj x) k A_None
      | Some e \<Rightarrow> py_bind (build_root n e) (\<lambda>r. set_attr (es_obj x) k (A_Object r))) w = (Ret (), w)"
    by (rule py_for_idle) (use one in auto)
  moreover have "py_for (es_collections x) (\<lambda>(k, l). py_bind (the_list l) (\<lambda>es.
      py_bind (py_collect es (build_root n)) (\<lambda>rs. set_attr (es_obj x) k (A_Objects rs)))) w = (Ret (), w)"
    by (rule py_for_idle) (use many in auto)
  ultimately show ?case using x by (simp add: the_source_def obj_of_def py_bind_app)
qed

text \<open>A source that leads to itself is never built.\<close>

lemma cycle_never_built:
  "st_sources w s = Some x \<Longrightarrow> es_related x = [(k, Some s)] \<Longrightarrow> build_root n s w = (Raise (OtherError ''RecursionError''), w)"
  by (induction n) (simp_all add: the_source_def py_bind_app)

section \<open>Putting a relation\<close>

lemma update_member: "distinct (map fst xs) \<Longrightarrow> (j, u) \<in> set (AList.update k v xs) \<Longrightarrow> j = k \<and> u = v \<or> j \<noteq> k \<and> (j, u) \<in> set xs"
  by (induction xs) (force split: if_split_asm)+

lemma update_keys: "set (map fst (AList.update k v xs)) = insert k (set (map fst xs))"
  by (induction xs) auto

lemma update_distinct: "distinct (map fst xs) \<Longrightarrow> distinct (map fst (AList.update k v xs))"
  by (rule distinct_update)

text \<open>The store after the attribute \<open>k\<close> of the object of \<open>s\<close>, the source itself and perhaps a list have changed.\<close>

definition put :: "store \<Rightarrow> nat \<Rightarrow> entity_source \<Rightarrow> (nat \<rightharpoonup> nat list) \<Rightarrow> nat \<Rightarrow> string \<Rightarrow> attr_value \<Rightarrow> store" where
  "put w s x' L nx k v = w\<lparr>st_sources := (st_sources w)(s \<mapsto> x'),
     st_objects := (st_objects w)(es_obj x' \<mapsto> (the (st_objects w (es_obj x')))\<lparr>oo_attrs := (oo_attrs (the (st_objects w (es_obj x'))))(k \<mapsto> v)\<rparr>),
     st_lists := L, st_next := nx\<rparr>"

lemma put_obj_of: "st_sources w s = Some x \<Longrightarrow> es_obj x' = es_obj x \<Longrightarrow> obj_of (put w s x' L nx k v) = obj_of w"
  by (auto simp: put_def obj_of_def fun_eq_iff)

lemma put_displays_other:
  "es_obj y \<noteq> es_obj x' \<or> j \<noteq> k \<Longrightarrow> displays w y j u \<Longrightarrow> displays (put w s x' L nx k v) y j u"
  by (auto simp: put_def displays_def)

lemma put_displays: "displays (put w s x' L nx k v) x' k v"
  by (simp add: put_def displays_def)

lemma put_alive: "st_sources w e \<noteq> None \<Longrightarrow> st_sources (put w s x' L nx k v) e \<noteq> None"
  by (simp add: put_def)

lemma put_keeps_one:
  assumes "st_sources w s = Some x" "es_obj x' = es_obj x" "one_mirrored w y p" "es_obj y \<noteq> es_obj x' \<or> fst p \<noteq> k"
  shows "one_mirrored (put w s x' L nx k v) y p"
proof -
  obtain e where "snd p = Some e" "st_sources w e \<noteq> None" "displays w y (fst p) (A_Object (obj_of w e))"
    using assms(3) unfolding one_mirrored_def by blast
  then show ?thesis unfolding one_mirrored_def put_obj_of [OF assms(1,2)]
    using put_displays_other [OF assms(4)] put_alive by blast
qed

lemma put_keeps_many:
  assumes "st_sources w s = Some x" "es_obj x' = es_obj x" "many_mirrored w y p" "es_obj y \<noteq> es_obj x' \<or> fst p \<noteq> k"
    and "L (snd p) = st_lists w (snd p)"
  shows "many_mirrored (put w s x' L nx k v) y p"
proof -
  obtain es where es: "st_lists w (snd p) = Some es" "list_all (\<lambda>e. st_sources w e \<noteq> None) es" "displays w y (fst p) (A_Objects (map (obj_of w) es))"
    using assms(3) unfolding many_mirrored_def by blast
  then have "list_all (\<lambda>e. st_sources (put w s x' L nx k v) e \<noteq> None) es" using put_alive by (metis (mono_tags, lifting) list.pred_mono_strong)
  moreover have "st_lists (put w s x' L nx k v) (snd p) = Some es" using es(1) assms(5) by (simp add: put_def)
  ultimately show ?thesis unfolding many_mirrored_def put_obj_of [OF assms(1,2)]
    using put_displays_other [OF assms(4) es(3)] by blast
qed


lemma put_collections:
  assumes "\<And>p. p \<in> set (es_collections x') \<Longrightarrow> p \<in> set (es_collections x) \<and> fst p \<noteq> k \<or> p = (k, l)" "st_sources w s = Some x"
    and "st_sources (put w s x' L nx k v) t = Some y" "(j, m) \<in> set (es_collections y)"
  shows "t = s \<and> j = k \<and> m = l \<or> (\<exists>y'. st_sources w t = Some y' \<and> (j, m) \<in> set (es_collections y'))"
proof (cases "t = s")
  case True
  then have "y = x'" using assms(3) by (simp add: put_def)
  then show ?thesis using assms(1) [of "(j, m)"] assms(2,4) True by auto
next
  case False
  then show ?thesis using assms(3,4) by (auto simp: put_def)
qed

lemma put_own_lists:
  assumes "\<And>p. p \<in> set (es_collections x') \<Longrightarrow> p \<in> set (es_collections x) \<and> fst p \<noteq> k \<or> p = (k, l)" "st_sources w s = Some x"
    and "own_lists w" "owns w s k l"
  shows "own_lists (put w s x' L nx k v)"
  unfolding own_lists_def owns_def
proof (intro allI impI)
  fix s1 x1 k1 l1 t y j
  assume "st_sources (put w s x' L nx k v) s1 = Some x1" "(k1, l1) \<in> set (es_collections x1)"
    and "st_sources (put w s x' L nx k v) t = Some y" "(j, l1) \<in> set (es_collections y)"
  then have "s1 = s \<and> k1 = k \<and> l1 = l \<or> (\<exists>y'. st_sources w s1 = Some y' \<and> (k1, l1) \<in> set (es_collections y'))"
    and "t = s \<and> j = k \<and> l1 = l \<or> (\<exists>y'. st_sources w t = Some y' \<and> (j, l1) \<in> set (es_collections y'))"
    using put_collections [OF assms(1,2)] by blast+
  then show "t = s1 \<and> j = k1" using assms(3,4) unfolding own_lists_def owns_def by blast
qed

lemma put_mirrored:
  assumes w: "mirrored w" "st_sources w s = Some x" "es_obj x' = es_obj x"
    and keys: "distinct (map fst (es_related x') @ map fst (es_collections x'))"
    and one: "\<And>p. p \<in> set (es_related x') \<Longrightarrow> p \<in> set (es_related x) \<and> fst p \<noteq> k \<or> one_mirrored (put w s x' L nx k v) x' p"
    and many: "\<And>p. p \<in> set (es_collections x') \<Longrightarrow> p \<in> set (es_collections x) \<and> fst p \<noteq> k \<or> p = (k, l) \<and> many_mirrored (put w s x' L nx k v) x' p"
    and lists: "\<And>j. j \<noteq> l \<Longrightarrow> L j = st_lists w j" "L l \<noteq> None \<Longrightarrow> l < nx" "owns w s k l" "st_next w \<le> nx"
  shows "mirrored (put w s x' L nx k v)" (is "mirrored ?W")
proof -
  have old: "source_mirrored w y" if "st_sources w t = Some y" for t y using w(1) that by (simp add: mirrored_def)
  have "own_objects ?W"
    using w unfolding mirrored_def own_objects_def put_def by (auto split: if_split_asm)
  moreover have "own_lists ?W"
    by (rule put_own_lists [OF _ w(2)]) (use many w(1) lists(3) in \<open>auto simp: mirrored_def\<close>)
  moreover have "source_mirrored ?W y" if y: "st_sources ?W t = Some y" for t y
  proof (cases "t = s")
    case True
    then have [simp]: "y = x'" using y by (simp add: put_def)
    have "displays w x' = displays w x" "one_mirrored w x' = one_mirrored w x" "many_mirrored w x' = many_mirrored w x"
      using w(3) by (auto simp: displays_def one_mirrored_def many_mirrored_def fun_eq_iff)
    moreover have "L m = st_lists w m" if "(j, m) \<in> set (es_collections x)" "j \<noteq> k" for j m
      using lists(1) [of m] lists(3) w(2) that unfolding owns_def by metis
    ultimately have "one_mirrored ?W x' p" if "p \<in> set (es_related x')" for p
      using one [OF that] old [OF w(2)] put_keeps_one [OF w(2,3)] unfolding source_mirrored_def list_all_iff by metis
    moreover have "many_mirrored ?W x' p" if "p \<in> set (es_collections x')" for p
      using many [OF that] old [OF w(2)] put_keeps_many [where L = L, OF w(2,3)]
        \<open>many_mirrored w x' = many_mirrored w x\<close> \<open>\<And>j m. (j, m) \<in> set (es_collections x) \<Longrightarrow> j \<noteq> k \<Longrightarrow> L m = st_lists w m\<close>
      unfolding source_mirrored_def list_all_iff by (metis prod.collapse)
    ultimately show ?thesis using keys by (simp add: source_mirrored_def list_all_iff put_def)
  next
    case False
    then have t: "st_sources w t = Some y" using y by (simp add: put_def)
    then have ob: "es_obj y \<noteq> es_obj x'" using w False unfolding mirrored_def own_objects_def by metis
    have "L m = st_lists w m" if "(j, m) \<in> set (es_collections y)" for j m
      using lists(1) [of m] lists(3) t that False unfolding owns_def by metis
    then show ?thesis using old [OF t] ob put_keeps_one [OF w(2,3)] put_keeps_many [OF w(2,3), where L = L]
      unfolding source_mirrored_def list_all_iff by (auto simp: put_def)
  qed
  moreover have "\<forall>j. st_lists ?W j \<noteq> None \<longrightarrow> j < st_next ?W"
  proof (intro allI impI)
    fix j assume "st_lists ?W j \<noteq> None"
    then have "L j \<noteq> None" by (simp add: put_def)
    then show "j < st_next ?W" using w(1) lists by (cases "j = l") (force simp: mirrored_def put_def)+
  qed
  ultimately show ?thesis unfolding mirrored_def by blast
qed


lemma unused_list_owned: "mirrored w \<Longrightarrow> st_lists w l = None \<Longrightarrow> owns w s k l"
  by (fastforce simp: mirrored_def owns_def elim: mirrored_many)

lemma unchanged_keys: "k \<notin> set (map fst xs) \<Longrightarrow> p \<in> set xs \<Longrightarrow> fst p \<noteq> k"
  by auto

lemma put_related_mirrored:
  assumes "mirrored w" "st_sources w s = Some x" "st_sources w e \<noteq> None" "k \<notin> set (map fst (es_collections x))"
    and "x' = x\<lparr>es_related := AList.update k (Some e) (es_related x)\<rparr>"
  shows "mirrored (put w s x' (st_lists w) (st_next w) k (A_Object (obj_of w e)))" (is "mirrored ?W")
proof (rule put_mirrored [OF assms(1,2), where l = "st_next w"])
  have d: "distinct (map fst (es_related x) @ map fst (es_collections x))"
    using assms(1,2) by (simp add: mirrored_def source_mirrored_def)
  show x': "es_obj x' = es_obj x" by (simp add: assms(5))
  show "distinct (map fst (es_related x') @ map fst (es_collections x'))"
    using d assms(4) by (simp add: assms(5) update_distinct update_keys del: set_map)
  have "one_mirrored ?W x' (k, Some e)"
    unfolding one_mirrored_def fst_conv snd_conv put_obj_of [OF assms(2) x'] using put_displays put_alive [OF assms(3)] by blast
  then show "p \<in> set (es_related x) \<and> fst p \<noteq> k \<or> one_mirrored ?W x' p" if "p \<in> set (es_related x')" for p
    using update_member [where xs = "es_related x" and k = k and v = "Some e" and j = "fst p" and u = "snd p"] d that by (cases p) (auto simp: assms(5))
  show "p \<in> set (es_collections x) \<and> fst p \<noteq> k \<or> p = (k, st_next w) \<and> many_mirrored ?W x' p" if "p \<in> set (es_collections x')" for p
    using that assms(4) by (auto simp: assms(5))
  show "owns w s k (st_next w)" using assms(1) by (intro unused_list_owned) (auto simp: mirrored_def)
  show "st_lists w (st_next w) \<noteq> None \<Longrightarrow> st_next w < st_next w" using assms(1) unfolding mirrored_def by blast
qed simp_all

lemma put_members_mirrored_aux:
  assumes "mirrored w" "st_sources w s = Some x" "\<forall>e \<in> set es. st_sources w e \<noteq> None" "k \<notin> set (map fst (es_related x))"
    and "x' = x\<lparr>es_collections := AList.update k l (es_collections x)\<rparr>" "owns w s k l" "l < nx" "st_next w \<le> nx"
  shows "mirrored (put w s x' ((st_lists w)(l \<mapsto> es)) nx k (A_Objects (map (obj_of w) es)))" (is "mirrored ?W")
proof (rule put_mirrored [OF assms(1,2), where l = l])
  have d: "distinct (map fst (es_related x) @ map fst (es_collections x))"
    using assms(1,2) by (simp add: mirrored_def source_mirrored_def)
  show x': "es_obj x' = es_obj x" by (simp add: assms(5))
  show "distinct (map fst (es_related x') @ map fst (es_collections x'))"
    using d assms(4) by (simp add: assms(5) update_distinct update_keys del: set_map)
  have "\<forall>e \<in> set es. st_sources ?W e \<noteq> None" using assms(3) put_alive by blast
  moreover have "st_lists ?W l = Some es" by (simp add: put_def)
  ultimately have "many_mirrored ?W x' (k, l)"
    unfolding many_mirrored_def fst_conv snd_conv put_obj_of [OF assms(2) x'] list_all_iff using put_displays by blast
  then show "p \<in> set (es_collections x) \<and> fst p \<noteq> k \<or> p = (k, l) \<and> many_mirrored ?W x' p" if "p \<in> set (es_collections x')" for p
    using update_member [where xs = "es_collections x" and k = k and v = l and j = "fst p" and u = "snd p"] d that by (cases p) (auto simp: assms(5))
  show "p \<in> set (es_related x) \<and> fst p \<noteq> k \<or> one_mirrored ?W x' p" if "p \<in> set (es_related x')" for p
    using that assms(4) by (auto simp: assms(5))
qed (use assms in simp_all)

section \<open>The operations\<close>

datatype source_op = Relate nat string nat | Collect nat string nat | Append nat string nat | Remove nat string uuid

fun run_op :: "nat \<Rightarrow> source_op \<Rightarrow> unit store_prog" where
  "run_op n (Relate s k e) = set_related_entity s k (Some e)"
| "run_op n (Collect s k l) = set_related_entities n s k l"
| "run_op n (Append s k e) = append_related_entity n s k e"
| "run_op n (Remove s k i) = remove_entity_from_collection n s k i"

text \<open>What the entities say: the one related to \<open>s\<close> under \<open>k\<close>, and the ones collected under it.\<close>

definition the_one :: "store \<Rightarrow> nat \<Rightarrow> string \<Rightarrow> nat option" where
  "the_one w s k = (case st_sources w s of None \<Rightarrow> None | Some x \<Rightarrow> (case map_of (es_related x) k of None \<Rightarrow> None | Some v \<Rightarrow> v))"

definition members :: "store \<Rightarrow> nat \<Rightarrow> string \<Rightarrow> nat list" where
  "members w s k = (case st_sources w s of None \<Rightarrow> []
     | Some x \<Rightarrow> (case map_of (es_collections x) k of None \<Rightarrow> [] | Some l \<Rightarrow> (case st_lists w l of None \<Rightarrow> [] | Some es \<Rightarrow> es)))"

definition id_of :: "store \<Rightarrow> nat \<Rightarrow> attr_value option" where
  "id_of w e = (case st_objects w (obj_of w e) of None \<Rightarrow> None | Some ob \<Rightarrow> oo_attrs ob ''id'')"

fun one_after :: "source_op \<Rightarrow> store \<Rightarrow> nat \<Rightarrow> string \<Rightarrow> nat option" where
  "one_after (Relate s k e) w = (the_one w)(s := (the_one w s)(k := Some e))"
| "one_after _ w = the_one w"

fun members_after :: "source_op \<Rightarrow> store \<Rightarrow> nat \<Rightarrow> string \<Rightarrow> nat list" where
  "members_after (Relate s k e) w = members w"
| "members_after (Collect s k l) w = (members w)(s := (members w s)(k := the (st_lists w l)))"
| "members_after (Append s k e) w = (members w)(s := (members w s)(k := members w s k @ [e]))"
| "members_after (Remove s k i) w = (members w)(s := (members w s)(k := filter (\<lambda>e. id_of w e \<noteq> Some (A_Id i)) (members w s k)))"

text \<open>
  The operation names sources that exist, an attribute is used for one entity or for a collection but not
  both, the entity is of a lower rank, and a list handed over is not the list of another collection.
\<close>

fun op_allowed :: "(nat \<Rightarrow> nat) \<Rightarrow> store \<Rightarrow> source_op \<Rightarrow> bool" where
  "op_allowed rank w (Relate s k e) \<longleftrightarrow> (\<exists>x. st_sources w s = Some x \<and> k \<notin> set (map fst (es_collections x)))
     \<and> st_sources w e \<noteq> None \<and> rank e < rank s"
| "op_allowed rank w (Collect s k l) \<longleftrightarrow> (\<exists>x. st_sources w s = Some x \<and> k \<notin> set (map fst (es_related x)))
     \<and> owns w s k l \<and> (\<exists>es. st_lists w l = Some es \<and> (\<forall>e \<in> set es. st_sources w e \<noteq> None \<and> rank e < rank s))"
| "op_allowed rank w (Append s k e) \<longleftrightarrow> (\<exists>x. st_sources w s = Some x \<and> k \<notin> set (map fst (es_related x)))
     \<and> st_sources w e \<noteq> None \<and> rank e < rank s"
| "op_allowed rank w (Remove s k i) \<longleftrightarrow> (\<exists>x. st_sources w s = Some x \<and> k \<notin> set (map fst (es_related x)))
     \<and> (\<forall>e \<in> set (members w s k). id_of w e \<noteq> None)"

text \<open>While an operation runs, the sources below the one it changes are as they were.\<close>

definition aside :: "store \<Rightarrow> nat \<Rightarrow> entity_source \<Rightarrow> (nat \<rightharpoonup> nat list) \<Rightarrow> nat \<Rightarrow> store" where
  "aside w s x' L nx = w\<lparr>st_sources := (st_sources w)(s \<mapsto> x'), st_lists := L, st_next := nx\<rparr>"

lemma aside_obj_of: "st_sources w s = Some x \<Longrightarrow> es_obj x' = es_obj x \<Longrightarrow> obj_of (aside w s x' L nx) = obj_of w"
  by (auto simp: aside_def obj_of_def fun_eq_iff)

lemma aside_settled:
  assumes "mirrored w" "ranked rank w" "st_sources w s = Some x" "owns w s k l" "\<And>j. j \<noteq> l \<Longrightarrow> L j = st_lists w j" "es_obj x' = es_obj x"
    and w'_def: "w' = aside w s x' L nx"
  shows "settled_below rank (rank s) w'"
  unfolding settled_below_def
proof (intro allI impI)
  have obj: "obj_of w' = obj_of w" using assms(3,6) by (simp add: w'_def aside_obj_of)
  have shown: "displays w' = displays w" by (simp add: w'_def aside_def displays_def fun_eq_iff)
  fix t y assume t: "st_sources w' t = Some y" "rank t < rank s"
  then have y: "st_sources w t = Some y" "t \<noteq> s" by (auto simp: w'_def aside_def split: if_split_asm)
  have same: "st_lists w' m = st_lists w m" if "(j, m) \<in> set (es_collections y)" for j m
  proof -
    have "m \<noteq> l" using assms(4) y that unfolding owns_def by blast
    then show ?thesis using assms(5) [of m] by (simp add: w'_def aside_def)
  qed
  have alive: "st_sources w e \<noteq> None \<Longrightarrow> st_sources w' e \<noteq> None" for e by (simp add: w'_def aside_def)
  have m: "source_mirrored w y" using assms(1) y by (simp add: mirrored_def)
  have "one_mirrored w' y p" if "p \<in> set (es_related y)" for p
    using m that alive obj shown unfolding source_mirrored_def list_all_iff one_mirrored_def by metis
  moreover have "many_mirrored w' y p" if "p \<in> set (es_collections y)" for p
    using m that alive obj shown same unfolding source_mirrored_def list_all_iff many_mirrored_def by (metis prod.collapse)
  moreover have "leads_to w' y \<subseteq> leads_to w y" using same by (fastforce simp: leads_to_def)
  ultimately show "source_mirrored w' y \<and> (\<forall>e \<in> leads_to w' y. rank e < rank t)"
    using m y assms(2) by (auto simp: source_mirrored_def list_all_iff ranked_def w'_def aside_def)
qed

lemma aside_builds:
  assumes "settled_below rank (rank s) (aside w s x' L nx)" "st_sources w s = Some x" "es_obj x' = es_obj x"
    and "st_sources w e \<noteq> None" "rank e < rank s" "rank s \<le> n"
  shows "build_root n e (aside w s x' L nx) = (Ret (obj_of w e), aside w s x' L nx)"
  using build_root_idle [OF assms(1), of e n] assms(4-) by (simp add: aside_obj_of [OF assms(2,3)]) (simp add: aside_def)

lemma aside_collects:
  assumes "settled_below rank (rank s) (aside w s x' L nx)" "st_sources w s = Some x" "es_obj x' = es_obj x"
    and "\<forall>e \<in> set es. st_sources w e \<noteq> None \<and> rank e < rank s" "rank s \<le> n"
  shows "py_collect es (build_root n) (aside w s x' L nx) = (Ret (map (obj_of w) es), aside w s x' L nx)"
  by (rule py_collect_pure) (use aside_builds [OF assms(1-3)] assms(4,5) in blast)

lemma set_attr_put:
  "st_objects w (es_obj x') \<noteq> None \<Longrightarrow> set_attr (es_obj x') k v (aside w s x' L nx) = (Ret (), put w s x' L nx k v)"
  by (auto simp: set_attr_def aside_def put_def)

lemma aside_same: "aside w s x' (st_lists w) (st_next w) = w\<lparr>st_sources := (st_sources w)(s \<mapsto> x')\<rparr>"
  by (simp add: aside_def)

lemma mirrored_object: "mirrored w \<Longrightarrow> st_sources w s = Some x \<Longrightarrow> st_objects w (es_obj x) \<noteq> None"
  by (simp add: mirrored_def source_mirrored_def)

lemma relate_runs:
  assumes "mirrored w" "st_sources w s = Some x" "st_sources w e \<noteq> None" "e \<noteq> s"
  shows "set_related_entity s k (Some e) w = (Ret (), put w s (x\<lparr>es_related := AList.update k (Some e) (es_related x)\<rparr>)
      (st_lists w) (st_next w) k (A_Object (obj_of w e)))"
proof -
  obtain y where y: "st_sources w e = Some y" using assms(3) by blast
  have a: "aside w s x' (st_lists w) (st_next w) = w\<lparr>st_sources := (st_sources w)(s \<mapsto> x')\<rparr>" for x' by (rule aside_same)
  show ?thesis using set_attr_put [of w "x\<lparr>es_related := AList.update k (Some e) (es_related x)\<rparr>" k "A_Object (es_obj y)" s "st_lists w" "st_next w"]
      mirrored_object [OF assms(1,2)] assms(2,4) y
    by (simp add: set_related_entity_def the_source_def set_source_def py_bind_app py_write_def a obj_of_def)
qed

text \<open>The three operations on collections end in the store where \<open>s\<close> collects \<open>es\<close> under \<open>k\<close>.\<close>

definition put_members :: "store \<Rightarrow> nat \<Rightarrow> entity_source \<Rightarrow> string \<Rightarrow> nat \<Rightarrow> nat list \<Rightarrow> nat \<Rightarrow> store" where
  "put_members w s x k l es nx = put w s (x\<lparr>es_collections := AList.update k l (es_collections x)\<rparr>)
     ((st_lists w)(l \<mapsto> es)) nx k (A_Objects (map (obj_of w) es))"

lemma members_built:
  assumes "mirrored w" "ranked rank w" "st_sources w s = Some x" "owns w s k l" "rank s \<le> n"
    and "\<forall>e \<in> set es. st_sources w e \<noteq> None \<and> rank e < rank s"
    and "x' = x\<lparr>es_collections := AList.update k l (es_collections x)\<rparr>" "w' = aside w s x' ((st_lists w)(l \<mapsto> es')) nx"
  shows "py_collect es (build_root n) w' = (Ret (map (obj_of w) es), w')"
  using aside_collects [OF aside_settled [OF assms(1-4)] assms(3) _ assms(6,5)] assms(7,8) by simp

lemma collect_runs:
  assumes "mirrored w" "ranked rank w" "st_sources w s = Some x" "owns w s k l" "rank s \<le> n" "st_lists w l = Some es"
    and "\<forall>e \<in> set es. st_sources w e \<noteq> None \<and> rank e < rank s"
  shows "set_related_entities n s k l w = (Ret (), put_members w s x k l es (st_next w))"
proof -
  let ?x = "x\<lparr>es_collections := AList.update k l (es_collections x)\<rparr>"
  have a: "w\<lparr>st_sources := (st_sources w)(s \<mapsto> ?x)\<rparr> = aside w s ?x ((st_lists w)(l \<mapsto> es)) (st_next w)"
    using assms(6) by (simp add: aside_def fun_upd_idem)
  have l: "the_list l (aside w s ?x ((st_lists w)(l \<mapsto> es)) (st_next w)) = (Ret es, aside w s ?x ((st_lists w)(l \<mapsto> es)) (st_next w))"
    by (simp add: the_list_def aside_def)
  show ?thesis
    using set_attr_put [of w ?x] mirrored_object [OF assms(1,3)] members_built [OF assms(1-5,7) refl refl] assms(3)
    by (simp add: set_related_entities_def the_source_def set_source_def py_bind_app a l put_members_def)
qed

lemma append_new_runs:
  assumes "mirrored w" "ranked rank w" "st_sources w s = Some x" "map_of (es_collections x) k = None" "rank s \<le> n"
    and "st_sources w e \<noteq> None" "rank e < rank s"
  shows "append_related_entity n s k e w = (Ret (), put_members w s x k (st_next w) [e] (st_next w + 1))"
proof -
  let ?x = "x\<lparr>es_collections := AList.update k (st_next w) (es_collections x)\<rparr>"
  let ?w = "aside w s ?x ((st_lists w)(st_next w \<mapsto> [e])) (st_next w + 1)"
  have "st_lists w (st_next w) = None" using assms(1) unfolding mirrored_def by blast
  then have o: "owns w s k (st_next w)" by (rule unused_list_owned [OF assms(1)])
  have "py_collect [e] (build_root n) ?w = (Ret (map (obj_of w) [e]), ?w)"
    by (rule members_built [OF assms(1-3) o assms(5) _ refl refl]) (use assms(6,7) in simp)
  then have b: "build_root n e ?w = (Ret (obj_of w e), ?w)" by (simp add: py_bind_app split: prod.splits outcome.splits)
  have a: "w\<lparr>st_next := Suc (st_next w), st_lists := (st_lists w)(st_next w \<mapsto> [e]), st_sources := (st_sources w)(s \<mapsto> ?x)\<rparr> = ?w"
    by (simp add: aside_def)
  show ?thesis
    using set_attr_put [of w ?x] mirrored_object [OF assms(1,3)] b a assms(3,4)
    by (simp add: append_related_entity_def the_source_def set_source_def new_list_def fresh_def py_bind_app put_members_def)
qed

lemma append_old_runs:
  assumes "mirrored w" "ranked rank w" "st_sources w s = Some x" "map_of (es_collections x) k = Some l" "st_lists w l = Some es" "rank s \<le> n"
    and "st_sources w e \<noteq> None" "rank e < rank s"
  shows "append_related_entity n s k e w = (Ret (), put_members w s x k l (es @ [e]) (st_next w))"
proof -
  have x: "x\<lparr>es_collections := AList.update k l (es_collections x)\<rparr> = x" using assms(4) by (simp add: update_triv)
  let ?w = "aside w s x ((st_lists w)(l \<mapsto> es @ [e])) (st_next w)"
  have kl: "(k, l) \<in> set (es_collections x)" using assms(4) by (rule map_of_SomeD)
  have o: "owns w s k l" using assms(1,3) kl unfolding mirrored_def own_lists_def by blast
  have "py_collect [e] (build_root n) ?w = (Ret (map (obj_of w) [e]), ?w)"
    by (rule members_built [OF assms(1-3) o assms(6) _ refl]) (use assms(7,8) x in simp_all)
  then have b: "build_root n e ?w = (Ret (obj_of w e), ?w)" by (simp add: py_bind_app split: prod.splits outcome.splits)
  have a: "w\<lparr>st_lists := (st_lists w)(l \<mapsto> es @ [e])\<rparr> = ?w" using assms(3) by (simp add: aside_def fun_upd_idem)
  have "displays w x k (A_Objects (map (obj_of w) es))"
    using mirrored_many [OF _ kl] assms(1,3,5) unfolding mirrored_def by (metis option.inject)
  then have g: "get_attr (es_obj x) k ?w = (Ret (A_Objects (map (obj_of w) es)), ?w)"
    by (auto simp: displays_def get_attr_def aside_def)
  show ?thesis
    using set_attr_put [of w x] mirrored_object [OF assms(1,3)] assms(3-5)
    by (simp add: append_related_entity_def the_source_def the_list_def py_bind_app put_members_def a b g x)
qed

text \<open>Which members a removal keeps.\<close>

lemma keep_others_runs:
  "\<forall>e \<in> set es. st_sources w e \<noteq> None \<and> id_of w e \<noteq> None \<Longrightarrow>
   keep_others i es w = (Ret (filter (\<lambda>e. id_of w e \<noteq> Some (A_Id i)) es), w)"
proof (induction es)
  case (Cons e es)
  then obtain y v where "st_sources w e = Some y" "id_of w e = Some v" by auto
  then have "source_get e ''id'' w = (Ret v, w)"
    by (auto simp: source_get_def the_source_def get_attr_def id_of_def obj_of_def py_bind_app split: option.split_asm)
  then show ?case using Cons \<open>id_of w e = Some v\<close> by (simp add: py_bind_app)
qed simp

lemma remove_runs:
  assumes "mirrored w" "ranked rank w" "st_sources w s = Some x" "map_of (es_collections x) k = Some l" "st_lists w l = Some es" "rank s \<le> n"
    and "\<forall>e \<in> set es. id_of w e \<noteq> None"
    and kept_def: "kept = filter (\<lambda>e. id_of w e \<noteq> Some (A_Id i)) es"
  shows "remove_entity_from_collection n s k i w = (Ret (), put_members w s x k (st_next w) kept (st_next w + 1))"
proof -
  have kl: "(k, l) \<in> set (es_collections x)" using assms(4) by (rule map_of_SomeD)
  have alive: "\<forall>e \<in> set es. st_sources w e \<noteq> None"
    using mirrored_many [OF _ kl] assms(1,3,5) unfolding mirrored_def by (metis option.inject)
  have "\<forall>e \<in> set es. rank e < rank s" using assms(2,3,5) kl unfolding ranked_def leads_to_def by blast
  then have low: "\<forall>e \<in> set kept. st_sources w e \<noteq> None \<and> rank e < rank s" using alive by (simp add: kept_def)
  let ?x = "x\<lparr>es_collections := AList.update k (st_next w) (es_collections x)\<rparr>"
  let ?w = "aside w s ?x ((st_lists w)(st_next w \<mapsto> kept)) (st_next w + 1)"
  have "st_lists w (st_next w) = None" using assms(1) unfolding mirrored_def by blast
  then have b: "py_collect kept (build_root n) ?w = (Ret (map (obj_of w) kept), ?w)"
    using members_built [OF assms(1-3) unused_list_owned [OF assms(1)] assms(6) low refl refl] by simp
  have a: "w\<lparr>st_next := Suc (st_next w), st_lists := (st_lists w)(st_next w \<mapsto> kept), st_sources := (st_sources w)(s \<mapsto> ?x)\<rparr> = ?w"
    by (simp add: aside_def)
  have f: "keep_others i es w = (Ret kept, w)" unfolding kept_def by (rule keep_others_runs) (use alive assms(7) in blast)
  show ?thesis
    using set_attr_put [of w ?x] mirrored_object [OF assms(1,3)] b a f assms(3-5)
    by (simp add: remove_entity_from_collection_def the_source_def the_list_def set_source_def new_list_def fresh_def py_bind_app put_members_def)
qed

section \<open>Refinement\<close>

lemma the_one_related:
  assumes "st_sources w s = Some x"
  shows "the_one (put w s (x\<lparr>es_related := AList.update k (Some e) (es_related x)\<rparr>) L nx k' v) = (the_one w)(s := (the_one w s)(k := Some e))"
  using assms by (auto simp: the_one_def put_def fun_eq_iff update_conv')

lemma members_related:
  "st_sources w s = Some x \<Longrightarrow> members (put w s (x\<lparr>es_related := r\<rparr>) (st_lists w) nx k v) = members w"
  by (auto simp: members_def put_def fun_eq_iff cong: option.case_cong)

lemma the_one_members: "st_sources w s = Some x \<Longrightarrow> the_one (put_members w s x k l es nx) = the_one w"
  by (auto simp: the_one_def put_members_def put_def fun_eq_iff)

lemma members_members:
  assumes "mirrored w" "st_sources w s = Some x" "owns w s k l"
  shows "members (put_members w s x k l es nx) = (members w)(s := (members w s)(k := es))"
proof -
  have "m \<noteq> l" if "st_sources w t = Some y" "map_of (es_collections y) j = Some m" "t \<noteq> s \<or> j \<noteq> k" for t y j m
    using assms(3) that map_of_SomeD [OF that(2)] unfolding owns_def by blast
  then show ?thesis using assms(2)
    by (auto simp: members_def put_members_def put_def fun_eq_iff update_conv' split: option.splits)
qed

lemma ranked_related:
  assumes "ranked rank w" "st_sources w s = Some x" "rank e < rank s" "distinct (map fst (es_related x))"
  shows "ranked rank (put w s (x\<lparr>es_related := AList.update k (Some e) (es_related x)\<rparr>) (st_lists w) nx k' v)"
  using assms(1-3) unfolding ranked_def
  by (fastforce simp: leads_to_def put_def dest!: update_member [OF assms(4)] split: if_split_asm)

lemma ranked_members:
  assumes "mirrored w" "ranked rank w" "st_sources w s = Some x" "owns w s k l" "\<forall>e \<in> set es. rank e < rank s"
  shows "ranked rank (put_members w s x k l es nx)"
  unfolding ranked_def
proof (intro allI impI ballI)
  let ?x = "x\<lparr>es_collections := AList.update k l (es_collections x)\<rparr>"
  fix t y e assume t: "st_sources (put_members w s x k l es nx) t = Some y" "e \<in> leads_to (put_members w s x k l es nx) y"
  have d: "distinct (map fst (es_collections x))" using assms(1,3) by (simp add: mirrored_def source_mirrored_def)
  obtain y' where y': "st_sources w t = Some y'" "es_related y' = es_related y"
      "\<And>j m. (j, m) \<in> set (es_collections y) \<Longrightarrow> t = s \<and> j = k \<and> m = l \<or> (j, m) \<in> set (es_collections y') \<and> (t \<noteq> s \<or> j \<noteq> k)"
  proof (cases "t = s")
    case True
    then have "y = ?x" using t(1) by (simp add: put_members_def put_def)
    then show thesis by (intro that [of x]) (use True assms(3) update_member [OF d] in auto)
  next
    case False
    then show thesis by (intro that [of y]) (use t(1) in \<open>simp_all add: put_members_def put_def\<close>)
  qed
  have "t = s \<and> e \<in> set es \<or> e \<in> leads_to w y'"
  proof (cases "\<exists>j. (j, Some e) \<in> set (es_related y)")
    case True
    then show ?thesis using y'(2) by (simp add: leads_to_def)
  next
    case False
    then obtain j m ms where jm: "(j, m) \<in> set (es_collections y)" "((st_lists w)(l \<mapsto> es)) m = Some ms" "e \<in> set ms"
      using t(2) by (auto simp: leads_to_def put_members_def put_def)
    then show ?thesis using y'(3) [OF jm(1)] y'(1) assms(4) unfolding owns_def leads_to_def by (force split: if_split_asm)
  qed
  then show "rank e < rank t" using assms(2,5) y'(1) unfolding ranked_def by blast
qed

lemma mirrored_settled: "mirrored w \<Longrightarrow> ranked rank w \<Longrightarrow> settled_below rank b w"
  by (simp add: mirrored_def ranked_def settled_below_def)

lemma put_members_mirrored:
  assumes "mirrored w" "st_sources w s = Some x" "\<forall>e \<in> set es. st_sources w e \<noteq> None" "k \<notin> set (map fst (es_related x))"
    and "owns w s k l" "l < nx" "st_next w \<le> nx"
  shows "mirrored (put_members w s x k l es nx)"
  unfolding put_members_def by (rule put_members_mirrored_aux [OF assms(1-4) refl assms(5-7)])

fun op_target :: "source_op \<Rightarrow> nat" where
  "op_target (Relate s k e) = s"
| "op_target (Collect s k l) = s"
| "op_target (Append s k e) = s"
| "op_target (Remove s k i) = s"

definition refines :: "(nat \<Rightarrow> nat) \<Rightarrow> nat \<Rightarrow> source_op \<Rightarrow> store \<Rightarrow> bool" where
  "refines rank n op w \<longleftrightarrow> (\<exists>w'. run_op n op w = (Ret (), w') \<and> mirrored w' \<and> ranked rank w'
     \<and> the_one w' = one_after op w \<and> members w' = members_after op w)"

lemma members_put_refines:
  assumes w: "mirrored w" "ranked rank w" "st_sources w s = Some x" "owns w s k l" "k \<notin> set (map fst (es_related x))"
    and es: "\<forall>e \<in> set es. st_sources w e \<noteq> None \<and> rank e < rank s" "l < nx" "st_next w \<le> nx"
    and run: "run_op n op w = (Ret (), put_members w s x k l es nx)" "one_after op w = the_one w"
      "members_after op w = (members w)(s := (members w s)(k := es))"
  shows "refines rank n op w"
  unfolding refines_def
proof (intro exI conjI)
  show "run_op n op w = (Ret (), put_members w s x k l es nx)" by (rule run(1))
  show "mirrored (put_members w s x k l es nx)" by (rule put_members_mirrored [OF w(1,3) _ w(5,4) es(2,3)]) (use es(1) in blast)
  show "ranked rank (put_members w s x k l es nx)" by (rule ranked_members [OF w(1-4)]) (use es(1) in blast)
qed (use w run the_one_members members_members in metis)+

lemma relate_refines:
  assumes "mirrored w" "ranked rank w" "op_allowed rank w (Relate s k e)"
  shows "refines rank n (Relate s k e) w"
proof -
  obtain x where x: "st_sources w s = Some x" "k \<notin> set (map fst (es_collections x))" and e: "st_sources w e \<noteq> None" "rank e < rank s"
    using assms(3) by auto
  have d: "distinct (map fst (es_related x))" using assms(1) x(1) by (simp add: mirrored_def source_mirrored_def)
  from e have "e \<noteq> s" by auto
  then show ?thesis unfolding refines_def
    using relate_runs [OF assms(1) x(1) e(1)] put_related_mirrored [OF assms(1) x(1) e(1) x(2) refl] ranked_related [OF assms(2) x(1) e(2) d]
      the_one_related [OF x(1)] members_related [OF x(1)] by simp
qed

lemma collect_refines:
  assumes "mirrored w" "ranked rank w" "op_allowed rank w (Collect s k l)" "rank s \<le> n"
  shows "refines rank n (Collect s k l) w"
proof -
  obtain x es where x: "st_sources w s = Some x" "k \<notin> set (map fst (es_related x))" and o: "owns w s k l"
    and es: "st_lists w l = Some es" "\<forall>e \<in> set es. st_sources w e \<noteq> None \<and> rank e < rank s"
    using assms(3) by auto
  have "l < st_next w" using assms(1) es(1) by (simp add: mirrored_def)
  then show ?thesis using es collect_runs [OF assms(1,2) x(1) o assms(4) es]
    by (intro members_put_refines [OF assms(1,2) x(1) o x(2) es(2)]) simp_all
qed

lemma append_refines:
  assumes "mirrored w" "ranked rank w" "op_allowed rank w (Append s k e)" "rank s \<le> n"
  shows "refines rank n (Append s k e) w"
proof -
  obtain x where x: "st_sources w s = Some x" "k \<notin> set (map fst (es_related x))" and e: "st_sources w e \<noteq> None" "rank e < rank s"
    using assms(3) by auto
  show ?thesis
  proof (cases "map_of (es_collections x) k")
    case None
    have "owns w s k (st_next w)" using assms(1) by (intro unused_list_owned) (auto simp: mirrored_def)
    moreover have "members w s k = []" using None x by (simp add: members_def)
    ultimately show ?thesis using append_new_runs [OF assms(1,2) x(1) None assms(4) e] e
      by (intro members_put_refines [OF assms(1,2) x(1) _ x(2)]) simp_all
  next
    case (Some l)
    then have kl: "(k, l) \<in> set (es_collections x)" by (rule map_of_SomeD)
    have o: "owns w s k l" using assms(1) x(1) kl unfolding mirrored_def own_lists_def by blast
    have m: "source_mirrored w x" using assms(1) x(1) by (simp add: mirrored_def)
    obtain es where es: "st_lists w l = Some es" "\<forall>e \<in> set es. st_sources w e \<noteq> None" by (rule mirrored_many [OF m kl])
    have "\<forall>e \<in> set es. rank e < rank s" using assms(2) x(1) kl es(1) unfolding ranked_def leads_to_def by blast
    moreover have "members w s k = es" using Some x es by (simp add: members_def)
    moreover have "l < st_next w" using assms(1) es(1) by (simp add: mirrored_def)
    ultimately show ?thesis using append_old_runs [OF assms(1,2) x(1) Some es(1) assms(4) e] e es(2)
      by (intro members_put_refines [OF assms(1,2) x(1) o x(2)]) auto
  qed
qed

lemma remove_refines:
  assumes "mirrored w" "ranked rank w" "op_allowed rank w (Remove s k i)" "rank s \<le> n"
  shows "refines rank n (Remove s k i) w"
proof -
  obtain x where x: "st_sources w s = Some x" "k \<notin> set (map fst (es_related x))" and ids: "\<forall>e \<in> set (members w s k). id_of w e \<noteq> None"
    using assms(3) by auto
  show ?thesis
  proof (cases "map_of (es_collections x) k")
    case None
    then have "members w s k = []" using x by (simp add: members_def)
    then have "members_after (Remove s k i) w = members w" by (auto simp: fun_eq_iff)
    moreover have "remove_entity_from_collection n s k i w = (Ret (), w)"
      using None x by (simp add: remove_entity_from_collection_def the_source_def py_bind_app)
    ultimately show ?thesis using assms(1,2) by (simp add: refines_def)
  next
    case (Some l)
    then have kl: "(k, l) \<in> set (es_collections x)" by (rule map_of_SomeD)
    have m: "source_mirrored w x" using assms(1) x(1) by (simp add: mirrored_def)
    obtain es where es: "st_lists w l = Some es" "\<forall>e \<in> set es. st_sources w e \<noteq> None" by (rule mirrored_many [OF m kl])
    have ms: "members w s k = es" using Some x es by (simp add: members_def)
    have r: "\<forall>e \<in> set es. rank e < rank s" using assms(2) x(1) kl es(1) unfolding ranked_def leads_to_def by blast
    have o: "owns w s k (st_next w)" using assms(1) by (intro unused_list_owned) (auto simp: mirrored_def)
    have "\<forall>e \<in> set es. id_of w e \<noteq> None" using ids ms by simp
    from remove_runs [OF assms(1,2) x(1) Some es(1) assms(4) this refl] show ?thesis
      by (intro members_put_refines [OF assms(1,2) x(1) o x(2)]) (use es(2) r ms in simp_all)
  qed
qed

lemma op_refines:
  "mirrored w \<Longrightarrow> ranked rank w \<Longrightarrow> op_allowed rank w op \<Longrightarrow> rank (op_target op) \<le> n \<Longrightarrow> refines rank n op w"
  by (cases op) (use relate_refines collect_refines append_refines remove_refines in auto)

text \<open>The two getters read exactly this.\<close>

lemma getters_read:
  assumes "mirrored w" "st_sources w s \<noteq> None"
  shows "get_related_entity s k w = (Ret (the_one w s k), w)" "get_related_entities s k w = (Ret (members w s k), w)"
proof -
  obtain x where x: "st_sources w s = Some x" using assms(2) by blast
  then show "get_related_entity s k w = (Ret (the_one w s k), w)"
    by (simp add: get_related_entity_def the_source_def the_one_def py_bind_app)
  have m: "source_mirrored w x" using assms(1) x by (simp add: mirrored_def)
  show "get_related_entities s k w = (Ret (members w s k), w)"
  proof (cases "map_of (es_collections x) k")
    case None
    then show ?thesis using x by (simp add: get_related_entities_def the_source_def members_def py_bind_app)
  next
    case (Some l)
    obtain es where "st_lists w l = Some es" by (rule mirrored_many [OF m map_of_SomeD [OF Some]])
    then show ?thesis using x Some by (simp add: get_related_entities_def the_source_def the_list_def members_def py_bind_app)
  qed
qed

text \<open>A user with one API key.\<close>

definition key_store :: store where
  "key_store = \<lparr>
     st_objects = [10 \<mapsto> \<lparr>oo_model = ''UserModel'', oo_attrs = [''id'' \<mapsto> A_Id 1, ''api_keys'' \<mapsto> A_Objects [11]]\<rparr>,
       11 \<mapsto> \<lparr>oo_model = ''ApiKeyModel'', oo_attrs = [''id'' \<mapsto> A_Id 2]\<rparr>],
     st_sources = [0 \<mapsto> \<lparr>es_obj = 10, es_related = [], es_collections = [(''api_keys'', 20)]\<rparr>,
       1 \<mapsto> \<lparr>es_obj = 11, es_related = [], es_collections = []\<rparr>],
     st_lists = [20 \<mapsto> [1]], st_next = 21, st_ids = of_nat\<rparr>"

definition key_rank :: "nat \<Rightarrow> nat" where "key_rank s = (if s = 0 then 1 else 0)"

lemma key_store_sources: "st_sources key_store s = Some x \<longleftrightarrow>
    s = 0 \<and> x = \<lparr>es_obj = 10, es_related = [], es_collections = [(''api_keys'', 20)]\<rparr>
  \<or> s = 1 \<and> x = \<lparr>es_obj = 11, es_related = [], es_collections = []\<rparr>"
  by (auto simp: key_store_def)

lemma key_store_mirrored: "mirrored key_store"
proof -
  have "own_objects key_store" "own_lists key_store"
    by (auto simp: own_objects_def own_lists_def owns_def key_store_sources)
  moreover have "source_mirrored key_store x" if "st_sources key_store s = Some x" for s x
    using that unfolding key_store_sources
    by (auto simp: source_mirrored_def many_mirrored_def displays_def obj_of_def key_store_def)
  moreover have "\<forall>l. st_lists key_store l \<noteq> None \<longrightarrow> l < st_next key_store" by (simp add: key_store_def)
  ultimately show ?thesis by (simp add: mirrored_def)
qed

lemma key_store_ranked: "ranked key_rank key_store"
  unfolding ranked_def key_store_sources by (auto simp: leads_to_def key_store_def key_rank_def)

lemma key_store_members: "members key_store 0 ''api_keys'' = [1]"
  by (simp add: members_def key_store_def)

text \<open>
  Claim C17. Relating, collecting, appending and removing entities each succeed, and each refines the operation on
  the bare relations: the related entity and the members it collects change as the operation says and
  nothing else does. The attributes of the ORM objects mirror the relations before and after, so that
  \<open>build_root\<close> at a flush finds nothing to write.
\<close>

theorem sources_refine:
  assumes "mirrored w" "ranked rank w" "op_allowed rank w op" "rank (op_target op) \<le> n"
  shows "\<exists>w'. run_op n op w = (Ret (), w') \<and> mirrored w' \<and> ranked rank w'
    \<and> the_one w' = one_after op w \<and> members w' = members_after op w
    \<and> (\<forall>t. st_sources w' t \<noteq> None \<longrightarrow> rank t < n \<longrightarrow> build_root n t w' = (Ret (obj_of w' t), w'))"
proof -
  obtain w' where w': "run_op n op w = (Ret (), w')" "mirrored w'" "ranked rank w'" "the_one w' = one_after op w" "members w' = members_after op w"
    using op_refines [OF assms] unfolding refines_def by blast
  have "build_root n t w' = (Ret (obj_of w' t), w')" if "st_sources w' t \<noteq> None" "rank t < n" for t
    using mirrored_settled [OF w'(2,3)] that by (intro build_root_idle [where b = n]) simp_all
  then show ?thesis using w' by blast
qed

theorem sources_refine_witness:
  "\<exists>w'. run_op 2 (Remove 0 ''api_keys'' 2) key_store = (Ret (), w') \<and> mirrored w' \<and> members w' 0 ''api_keys'' = []"
proof -
  have "op_allowed key_rank key_store (Remove 0 ''api_keys'' 2)"
    by (simp add: key_store_members) (simp add: key_store_def id_of_def obj_of_def)
  moreover have "key_rank (op_target (Remove 0 ''api_keys'' 2)) \<le> 2" by (simp add: key_rank_def)
  moreover have "members_after (Remove 0 ''api_keys'' 2) key_store 0 ''api_keys'' = []"
    by (simp add: key_store_members) (simp add: key_store_def id_of_def obj_of_def)
  ultimately show ?thesis using sources_refine [OF key_store_mirrored key_store_ranked] by metis
qed

text \<open>What a source without a relation reports, and an entity set to \<open>None\<close>: it is stored before the error.\<close>

lemma nothing_related: "st_sources w s = Some x \<Longrightarrow> map_of (es_related x) k = None \<Longrightarrow> get_related_entity s k w = (Ret None, w)"
  by (simp add: get_related_entity_def the_source_def py_bind_app)

lemma set_none_raises:
  "st_sources w s = Some x \<Longrightarrow> set_related_entity s k None w
   = (Raise (AttributeError ''source''), w\<lparr>st_sources := (st_sources w)(s \<mapsto> x\<lparr>es_related := AList.update k None (es_related x)\<rparr>)\<rparr>)"
  by (simp add: set_related_entity_def the_source_def set_source_def py_bind_app)

end
