(* ===== verification/Startup.thy ===== *)
theory Startup
  imports Errors
begin

text \<open>
  The start of the process (\<open>src/bootstrap.py\<close>, \<open>wire_recursive\<close> of \<open>di_funcs.py\<close>, \<open>infra/globals.py\<close>): the
  modules that are imported and set up, and the tasks and threads that bootstrap, initialise the
  containers or wait until the application is ready, as a step relation.
\<close>

section \<open>wire\_recursive (di\_funcs.py)\<close>

text \<open>What importing a module comes to. An \<open>ImportError\<close> is told from the others by \<open>pkgutil.walk_packages\<close>.\<close>

datatype import_result = Imported | Import_Error | Import_Raises exn

text \<open>A module or package below the package that is wired: its name, whether it is a package, its submodules in the order found.\<close>

datatype module_tree = Module (mt_name: string) (mt_is_pkg: bool) (mt_children: "module_tree list") (mt_import: import_result)

record walk_state =
  ws_collected :: "string list"
  ws_seen :: "string set"

type_synonym walk_prog = "(walk_state, exn, unit) prog"

definition see :: "string \<Rightarrow> walk_prog" where
  "see n = py_write (\<lambda>w. w\<lparr>ws_seen := insert n (ws_seen w)\<rparr>)"

definition collect_module :: "string \<Rightarrow> walk_prog" where
  "collect_module n = py_write (\<lambda>w. w\<lparr>ws_collected := ws_collected w @ [n]\<rparr>)"

declare py_for_cong [fundef_cong]

text \<open>
  One entry of \<open>walk_packages\<close> as the loop of \<open>_walk\<close> consumes it: the body of the loop, with \<open>_walk\<close> of a package
  that was imported, and then the generator, which imports a package again and goes on below it.
\<close>

fun walk_entry :: "(string \<Rightarrow> bool) \<Rightarrow> module_tree \<Rightarrow> walk_prog" where
  "walk_entry exclude (Module n pkg cs r) =
     py_bind (py_read ws_seen) (\<lambda>seen.
     py_bind (if exclude n \<or> n \<in> seen then py_ret ()
        else py_bind (see n) (\<lambda>_. if r = Imported
          then py_bind (collect_module n) (\<lambda>_. if pkg then py_for cs (walk_entry exclude) else py_ret ())
          else py_ret ())) (\<lambda>_.
     if pkg then (case r of Imported \<Rightarrow> py_for cs (walk_entry exclude) | Import_Error \<Rightarrow> py_ret () | Import_Raises e \<Rightarrow> py_raise e)
     else py_ret ()))"

text \<open>The modules that are wired, and whether \<open>after_wire\<close> is called; \<open>wire\<close> is \<open>container.wire\<close>.\<close>

definition wire_recursive ::
  "(string list \<Rightarrow> (exn, unit) outcome) \<Rightarrow> (string \<Rightarrow> bool) \<Rightarrow> module_tree \<Rightarrow> (exn, string list \<times> bool) outcome" where
  "wire_recursive wire exclude package = (case package of Module n pkg cs r \<Rightarrow>
     if \<not> pkg then oc_bind (wire [n]) (\<lambda>_. Ret ([n], False))
     else (case py_for cs (walk_entry exclude) \<lparr>ws_collected = [], ws_seen = {}\<rparr> of
         (Raise e, w) \<Rightarrow> Raise e
       | (Ret _, w) \<Rightarrow> oc_bind (wire (n # ws_collected w)) (\<lambda>_. Ret (n # ws_collected w, True))))"

section \<open>Bootstrap (bootstrap.py)\<close>

text \<open>
  What the process finds: the package \<open>src.app\<close>, what \<open>container.wire\<close> does, and the \<open>setup\<close> of every module that
  has one that can be called.
\<close>

record boot_env =
  be_package :: module_tree
  be_wire :: "string list \<Rightarrow> (exn, unit) outcome"
  be_setup :: "string \<Rightarrow> (exn, unit) outcome option"

text \<open>\<open>_after_wire\<close>: the set-ups that have finished, and the outcome.\<close>

fun run_setups :: "(string \<Rightarrow> (exn, unit) outcome option) \<Rightarrow> string list \<Rightarrow> string list \<times> (exn, unit) outcome" where
  "run_setups f [] = ([], Ret ())"
| "run_setups f (m # ms) = (case f m of
       None \<Rightarrow> run_setups f ms
     | Some (Ret _) \<Rightarrow> (case run_setups f ms of (ms', r) \<Rightarrow> (m # ms', r))
     | Some (Raise e) \<Rightarrow> ([], Raise e))"

definition wiring :: "boot_env \<Rightarrow> string list \<times> (exn, unit) outcome" where
  "wiring E = (case wire_recursive (be_wire E) (\<lambda>_. False) (be_package E) of
     Raise e \<Rightarrow> ([], Raise e)
   | Ret (ms, after) \<Rightarrow> if after then run_setups (be_setup E) ms else ([], Ret ()))"

text \<open>
  The class attributes of \<open>Bootstrap\<close> and the root of \<open>DIContainerRegistry\<close>. A lock or event that does not exist yet is
  \<open>None\<close>; a lock has its holder, an event says whether it is set. The last field lists the set-ups that have run.
\<close>

record process =
  bs_async_lock :: "nat option option"
  bs_sync_owner :: "nat option"
  bs_project_init_done :: bool
  bs_ready_event :: "bool option"
  bs_di_init_done :: bool
  bs_root :: "nat option"
  bs_made :: nat
  bs_ran :: "string list"

definition new_process :: process where
  "new_process = \<lparr>bs_async_lock = None, bs_sync_owner = None, bs_project_init_done = False, bs_ready_event = None,
     bs_di_init_done = False, bs_root = None, bs_made = 0, bs_ran = []\<rparr>"

text \<open>Where \<open>init_di_containers\<close> was called from.\<close>

datatype caller = Boot_Caller | Module_Caller

text \<open>
  Where a task is: in \<open>bootstrap_async\<close> (\<open>Boot_\<close>), in \<open>wait_ready\<close> (\<open>Wait_\<close>), in \<open>init_di_containers\<close> (\<open>Init_\<close>),
  or at the end of one of them. The calls of \<open>bootstrap_async\<close> and \<open>wait_ready\<close> are coroutines of one
  event loop: \<open>asyncio.Lock\<close> and \<open>asyncio.Event\<close> belong to one loop and are not safe between threads. The
  calls of \<open>init_di_containers\<close> from elsewhere (\<open>Init_Want_Sync Module_Caller\<close>) may be threads of their own:
  they take the \<open>threading\<close> lock only. The coroutines interleave here at every statement and not only
  where they wait, so the runs of one event loop are among the runs of the model.
\<close>

datatype pc = Boot_Start | Boot_See_Lock | Boot_Want_Sync | Boot_Create_Event | Boot_Create_Lock | Boot_Created
  | Boot_Want_Lock | Boot_Locked | Boot_Need_DI | Boot_Mark | Boot_Signal | Boot_Leave | Boot_Raise exn
  | Wait_Start | Wait_See_Event | Wait_Want_Sync | Wait_Create_Event | Wait_Created | Wait_Event
  | Init_Want_Sync caller | Init_Locked caller | Init_Made caller nat | Init_Rooted caller | Init_Wired caller | Init_Leave caller
  | Booted | Ready | Initialised | Failed exn

definition acquire_sync :: "nat \<Rightarrow> pc \<Rightarrow> process \<Rightarrow> (pc \<times> process) option" where
  "acquire_sync i c p = (if bs_sync_owner p = None then Some (c, p\<lparr>bs_sync_owner := Some i\<rparr>) else None)"

text \<open>An exception leaves the \<open>with\<close> of the sync lock, and in \<open>bootstrap_async\<close> the one of the async lock after it.\<close>

definition init_raises :: "caller \<Rightarrow> exn \<Rightarrow> process \<Rightarrow> (pc \<times> process) option" where
  "init_raises from e p = Some (case from of Boot_Caller \<Rightarrow> Boot_Raise e | Module_Caller \<Rightarrow> Failed e, p\<lparr>bs_sync_owner := None\<rparr>)"

definition root_is_read_only :: exn where
  "root_is_read_only = ValueError ''Root di container is read only!''"

definition attribute_of_none :: exn where
  "attribute_of_none = AttributeError ''NoneType''"

text \<open>One step of the task \<open>i\<close>; \<open>None\<close> when it waits or has ended.\<close>

fun task_step :: "boot_env \<Rightarrow> nat \<Rightarrow> pc \<Rightarrow> process \<Rightarrow> (pc \<times> process) option" where
  "task_step E i Boot_Start p = Some (if bs_project_init_done p then Booted else Boot_See_Lock, p)"
| "task_step E i Boot_See_Lock p = Some (if bs_async_lock p = None then Boot_Want_Sync else Boot_Want_Lock, p)"
| "task_step E i Boot_Want_Sync p = acquire_sync i Boot_Create_Event p"
| "task_step E i Boot_Create_Event p = Some (Boot_Create_Lock, if bs_ready_event p = None then p\<lparr>bs_ready_event := Some False\<rparr> else p)"
| "task_step E i Boot_Create_Lock p = Some (Boot_Created, if bs_async_lock p = None then p\<lparr>bs_async_lock := Some None\<rparr> else p)"
| "task_step E i Boot_Created p = Some (Boot_Want_Lock, p\<lparr>bs_sync_owner := None\<rparr>)"
| "task_step E i Boot_Want_Lock p = (case bs_async_lock p of
       None \<Rightarrow> Some (Failed attribute_of_none, p)
     | Some None \<Rightarrow> Some (Boot_Locked, p\<lparr>bs_async_lock := Some (Some i)\<rparr>)
     | Some (Some j) \<Rightarrow> None)"
| "task_step E i Boot_Locked p = Some (if bs_project_init_done p then Boot_Leave else Boot_Need_DI, p)"
| "task_step E i Boot_Need_DI p = Some (if bs_di_init_done p then Boot_Mark else Init_Want_Sync Boot_Caller, p)"
| "task_step E i Boot_Mark p = Some (Boot_Signal, p\<lparr>bs_project_init_done := True\<rparr>)"
| "task_step E i Boot_Signal p = Some (Boot_Leave, if bs_ready_event p = None then p else p\<lparr>bs_ready_event := Some True\<rparr>)"
| "task_step E i Boot_Leave p = Some (Booted, p\<lparr>bs_async_lock := Some None\<rparr>)"
| "task_step E i (Boot_Raise e) p = Some (Failed e, p\<lparr>bs_async_lock := Some None\<rparr>)"
| "task_step E i Wait_Start p = Some (if bs_project_init_done p then Ready else Wait_See_Event, p)"
| "task_step E i Wait_See_Event p = Some (if bs_ready_event p = None then Wait_Want_Sync else Wait_Event, p)"
| "task_step E i Wait_Want_Sync p = acquire_sync i Wait_Create_Event p"
| "task_step E i Wait_Create_Event p = Some (Wait_Created, if bs_ready_event p = None then p\<lparr>bs_ready_event := Some False\<rparr> else p)"
| "task_step E i Wait_Created p = Some (Wait_Event, p\<lparr>bs_sync_owner := None\<rparr>)"
| "task_step E i Wait_Event p = (case bs_ready_event p of
       None \<Rightarrow> Some (Failed attribute_of_none, p)
     | Some b \<Rightarrow> if b then Some (Ready, p) else None)"
| "task_step E i (Init_Want_Sync from) p = acquire_sync i (Init_Locked from) p"
| "task_step E i (Init_Locked from) p = Some (if bs_di_init_done p then (Init_Leave from, p)
     else (Init_Made from (bs_made p), p\<lparr>bs_made := bs_made p + 1\<rparr>))"
| "task_step E i (Init_Made from r) p = (if bs_root p = None then Some (Init_Rooted from, p\<lparr>bs_root := Some r\<rparr>)
     else init_raises from root_is_read_only p)"
| "task_step E i (Init_Rooted from) p = (case wiring E of (ms, out) \<Rightarrow> (case out of
       Ret _ \<Rightarrow> Some (Init_Wired from, p\<lparr>bs_ran := bs_ran p @ ms\<rparr>)
     | Raise e \<Rightarrow> init_raises from e (p\<lparr>bs_ran := bs_ran p @ ms\<rparr>)))"
| "task_step E i (Init_Wired from) p = Some (Init_Leave from, p\<lparr>bs_di_init_done := True\<rparr>)"
| "task_step E i (Init_Leave from) p = Some (case from of Boot_Caller \<Rightarrow> Boot_Mark | Module_Caller \<Rightarrow> Initialised, p\<lparr>bs_sync_owner := None\<rparr>)"
| "task_step E i Booted p = None"
| "task_step E i Ready p = None"
| "task_step E i Initialised p = None"
| "task_step E i (Failed e) p = None"

text \<open>All tasks together, and one of them moving.\<close>

record startup =
  su_pcs :: "pc list"
  su_proc :: process

inductive startup_step :: "boot_env \<Rightarrow> startup \<Rightarrow> startup \<Rightarrow> bool" for E where
  task_moves: "i < length (su_pcs s) \<Longrightarrow> task_step E i (su_pcs s ! i) (su_proc s) = Some (c, p)
    \<Longrightarrow> startup_step E s \<lparr>su_pcs = (su_pcs s)[i := c], su_proc = p\<rparr>"

inductive_cases startup_stepE: "startup_step E s s'"

text \<open>
  The beginning of tasks: coroutines of one event loop that bootstrap or wait, and threads that
  initialise the containers.
\<close>

definition begins :: "pc list \<Rightarrow> startup \<Rightarrow> bool" where
  "begins cs s \<longleftrightarrow> set cs \<subseteq> {Boot_Start, Wait_Start, Init_Want_Sync Module_Caller} \<and> s = \<lparr>su_pcs = cs, su_proc = new_process\<rparr>"

end
