(* ===== verification/StartupFlows.thy ===== *)
theory StartupFlows
  imports Startup
begin

text \<open>
  What is shown of the start: which modules are wired and set up, and that under every interleaving of the
  tasks the application is initialised once, that whoever is told it is ready finds it so, and that all
  tasks end.
\<close>

section \<open>The modules\<close>

text \<open>The modules that can be imported, a package before what is below it; nothing below a package that cannot.\<close>

fun importable :: "(string \<Rightarrow> bool) \<Rightarrow> module_tree \<Rightarrow> string list" where
  "importable exclude (Module n pkg cs r) =
     (if r = Imported \<and> \<not> exclude n then [n] else [])
     @ (if pkg \<and> r = Imported then concat (map (importable exclude) cs) else [])"

text \<open>The names the walk meets, and those of a whole tree.\<close>

fun met :: "(string \<Rightarrow> bool) \<Rightarrow> module_tree \<Rightarrow> string list" where
  "met exclude (Module n pkg cs r) =
     (if exclude n then [] else [n]) @ (if pkg \<and> r = Imported then concat (map (met exclude) cs) else [])"

text \<open>No package fails in another way than by an \<open>ImportError\<close>.\<close>

fun packages_import :: "module_tree \<Rightarrow> bool" where
  "packages_import (Module n pkg cs r) \<longleftrightarrow> (pkg \<longrightarrow> (case r of Import_Raises e \<Rightarrow> False | Import_Error \<Rightarrow> True
     | Imported \<Rightarrow> list_all packages_import cs))"

definition walked :: "(string \<Rightarrow> bool) \<Rightarrow> module_tree list \<Rightarrow> walk_state \<Rightarrow> walk_state" where
  "walked exclude ts w = w\<lparr>ws_collected := ws_collected w @ concat (map (importable exclude) ts),
     ws_seen := ws_seen w \<union> set (concat (map (met exclude) ts))\<rparr>"

text \<open>A second walk meets only names it has seen.\<close>

lemma walk_again:
  "packages_import t \<Longrightarrow> set (met exclude t) \<subseteq> ws_seen w \<Longrightarrow> walk_entry exclude t w = (Ret (), w)"
proof (induction t arbitrary: w)
  case (Module n pkg cs r)
  have below: "py_for cs (walk_entry exclude) w = (Ret (), w)" if "pkg" "r = Imported"
  proof -
    have "walk_entry exclude t w = (Ret (), w)" if "t \<in> set cs" for t
      using Module.prems \<open>pkg\<close> \<open>r = Imported\<close> that by (intro Module.IH) (auto simp: list_all_iff)
    then show ?thesis by (rule py_for_idle)
  qed
  have "exclude n \<or> n \<in> ws_seen w" using Module.prems(2) by auto
  then show ?case using below Module.prems(1) by (auto simp: py_bind_app split: import_result.splits)
qed

lemma walked_Nil [simp]: "walked exclude [] w = w"
  by (simp add: walked_def)

lemma walked_Cons: "walked exclude ts (walked exclude [t] w) = walked exclude (t # ts) w"
  by (simp add: walked_def Un_assoc)

lemma walk_all:
  assumes "\<And>t w. t \<in> set ts \<Longrightarrow> set (met exclude t) \<inter> ws_seen w = {} \<Longrightarrow> walk_entry exclude t w = (Ret (), walked exclude [t] w)"
    and "distinct (concat (map (met exclude) ts))" "set (concat (map (met exclude) ts)) \<inter> ws_seen w = {}"
  shows "py_for ts (walk_entry exclude) w = (Ret (), walked exclude ts w)"
  using assms
proof (induction ts arbitrary: w)
  case (Cons t ts)
  have "walk_entry exclude t w = (Ret (), walked exclude [t] w)" by (rule Cons.prems(1)) (use Cons.prems(3) in auto)
  moreover have "py_for ts (walk_entry exclude) (walked exclude [t] w) = (Ret (), walked exclude ts (walked exclude [t] w))"
    by (rule Cons.IH) (use Cons.prems in \<open>auto simp: walked_def\<close>)
  ultimately show ?case by (simp add: py_bind_app walked_Cons)
qed simp

lemma walk_first:
  "packages_import t \<Longrightarrow> distinct (met exclude t) \<Longrightarrow> set (met exclude t) \<inter> ws_seen w = {} \<Longrightarrow>
   walk_entry exclude t w = (Ret (), walked exclude [t] w)"
proof (induction t arbitrary: w)
  case (Module n pkg cs r)
  show ?case
  proof (cases "pkg \<and> r = Imported")
    case False
    have "exclude n \<or> n \<notin> ws_seen w" using Module.prems(3) by auto
    with False show ?thesis using Module.prems(1)
      by (cases r) (auto simp: py_bind_app see_def collect_module_def walked_def)
  next
    case True
    have p: "packages_import t" if "t \<in> set cs" for t using Module.prems(1) True that by (auto simp: list_all_iff)
    have d: "distinct (concat (map (met exclude) cs))" using Module.prems(2) True by simp
    have first: "py_for cs (walk_entry exclude) w' = (Ret (), walked exclude cs w')"
      if "set (concat (map (met exclude) cs)) \<inter> ws_seen w' = {}" for w'
    proof (rule walk_all [OF _ d that])
      fix t and w'' :: walk_state assume t: "t \<in> set cs" "set (met exclude t) \<inter> ws_seen w'' = {}"
      have "distinct (met exclude t)" using d t(1) by (auto simp: distinct_concat_iff)
      then show "walk_entry exclude t w'' = (Ret (), walked exclude [t] w'')" using Module.IH t p by blast
    qed
    have again: "py_for cs (walk_entry exclude) (walked exclude cs w') = (Ret (), walked exclude cs w')" for w'
    proof -
      have "walk_entry exclude t (walked exclude cs w') = (Ret (), walked exclude cs w')" if "t \<in> set cs" for t
        by (rule walk_again) (use p that in \<open>auto simp: walked_def\<close>)
      then show ?thesis by (rule py_for_idle)
    qed
    show ?thesis
    proof (cases "exclude n")
      case e: True
      have "set (concat (map (met exclude) cs)) \<inter> ws_seen w = {}" using Module.prems(3) True e by auto
      from first [OF this] e True show ?thesis by (simp add: py_bind_app) (simp add: walked_def)
    next
      case e: False
      let ?w = "w\<lparr>ws_seen := insert n (ws_seen w), ws_collected := ws_collected w @ [n]\<rparr>"
      have n: "n \<notin> ws_seen w" and s: "set (concat (map (met exclude) cs)) \<inter> ws_seen ?w = {}"
        using Module.prems(2,3) True e by auto
      from True n e first [OF s] again [of ?w] show ?thesis
        by (simp add: py_bind_app see_def collect_module_def) (simp add: walked_def)
    qed
  qed
qed

text \<open>
  What the loop survives and what it does not: a module that cannot be imported is passed over, whatever it
  raises; a package that raises anything but an \<open>ImportError\<close> ends the walk when the generator imports it
  again, although the loop has just caught it.
\<close>

lemma broken_module_skipped:
  "r \<noteq> Imported \<Longrightarrow> n \<notin> ws_seen w \<Longrightarrow> \<not> exclude n \<Longrightarrow>
   walk_entry exclude (Module n False cs r) w = (Ret (), w\<lparr>ws_seen := insert n (ws_seen w)\<rparr>)"
  by (simp add: py_bind_app see_def)

lemma broken_package_raises: "fst (walk_entry exclude (Module n True cs (Import_Raises e)) w) = Raise e"
  by (simp add: py_bind_app see_def)

text \<open>A module that is no package is wired, and its set-up is never called.\<close>

lemma plain_module_not_set_up: "be_package E = Module n False cs r \<Longrightarrow> be_wire E [n] = Ret () \<Longrightarrow> wiring E = ([], Ret ())"
  by (simp add: wiring_def wire_recursive_def)

section \<open>What holds at every place\<close>

fun holds_sync :: "pc \<Rightarrow> bool" where
  "holds_sync Boot_Create_Event = True"
| "holds_sync Boot_Create_Lock = True"
| "holds_sync Boot_Created = True"
| "holds_sync Wait_Create_Event = True"
| "holds_sync Wait_Created = True"
| "holds_sync (Init_Locked c) = True"
| "holds_sync (Init_Made c r) = True"
| "holds_sync (Init_Rooted c) = True"
| "holds_sync (Init_Wired c) = True"
| "holds_sync (Init_Leave c) = True"
| "holds_sync _ = False"

fun holds_async :: "pc \<Rightarrow> bool" where
  "holds_async Boot_Locked = True"
| "holds_async Boot_Need_DI = True"
| "holds_async Boot_Mark = True"
| "holds_async Boot_Signal = True"
| "holds_async Boot_Leave = True"
| "holds_async (Boot_Raise e) = True"
| "holds_async (Init_Want_Sync c) = (c = Boot_Caller)"
| "holds_async (Init_Locked c) = (c = Boot_Caller)"
| "holds_async (Init_Made c r) = (c = Boot_Caller)"
| "holds_async (Init_Rooted c) = (c = Boot_Caller)"
| "holds_async (Init_Wired c) = (c = Boot_Caller)"
| "holds_async (Init_Leave c) = (c = Boot_Caller)"
| "holds_async _ = False"

definition wiring_fails :: "boot_env \<Rightarrow> bool" where
  "wiring_fails E \<longleftrightarrow> snd (wiring E) \<noteq> Ret ()"

text \<open>A registered root without the end of the initialisation is what a failure left behind.\<close>

definition settled :: "boot_env \<Rightarrow> process \<Rightarrow> bool" where
  "settled E p \<longleftrightarrow> (bs_root p \<noteq> None \<and> \<not> bs_di_init_done p \<longrightarrow> wiring_fails E \<and> bs_ran p = fst (wiring E))"

definition signalled :: "process \<Rightarrow> bool" where
  "signalled p \<longleftrightarrow> (bs_project_init_done p \<longrightarrow> bs_ready_event p = Some True)"

fun lock_free :: "nat option option \<Rightarrow> bool" where
  "lock_free (Some (Some i)) = False"
| "lock_free _ = True"

definition proc_inv :: "boot_env \<Rightarrow> process \<Rightarrow> bool" where
  "proc_inv E p \<longleftrightarrow> (bs_async_lock p \<noteq> None \<longrightarrow> bs_ready_event p \<noteq> None)
     \<and> (bs_project_init_done p \<longrightarrow> bs_di_init_done p)
     \<and> (bs_ready_event p = Some True \<longrightarrow> bs_project_init_done p)
     \<and> (bs_di_init_done p \<longrightarrow> \<not> wiring_fails E \<and> bs_ran p = fst (wiring E) \<and> bs_root p \<noteq> None)
     \<and> (bs_root p = None \<longrightarrow> bs_ran p = [])
     \<and> (bs_sync_owner p = None \<longrightarrow> settled E p)
     \<and> (lock_free (bs_async_lock p) \<longrightarrow> signalled p)"

definition failure :: "boot_env \<Rightarrow> exn \<Rightarrow> bool" where
  "failure E e \<longleftrightarrow> wiring_fails E \<and> (e = root_is_read_only \<or> snd (wiring E) = Raise e)"

fun facts :: "boot_env \<Rightarrow> pc \<Rightarrow> process \<Rightarrow> bool" where
  "facts E Boot_Create_Event p \<longleftrightarrow> settled E p"
| "facts E Boot_Create_Lock p \<longleftrightarrow> settled E p \<and> bs_ready_event p \<noteq> None"
| "facts E Boot_Created p \<longleftrightarrow> settled E p \<and> bs_async_lock p \<noteq> None"
| "facts E Boot_Want_Lock p \<longleftrightarrow> bs_async_lock p \<noteq> None"
| "facts E Boot_Locked p \<longleftrightarrow> signalled p"
| "facts E Boot_Need_DI p \<longleftrightarrow> \<not> bs_project_init_done p"
| "facts E Boot_Mark p \<longleftrightarrow> bs_di_init_done p \<and> \<not> bs_project_init_done p"
| "facts E Boot_Signal p \<longleftrightarrow> bs_project_init_done p"
| "facts E Boot_Leave p \<longleftrightarrow> bs_project_init_done p \<and> bs_ready_event p = Some True"
| "facts E Booted p \<longleftrightarrow> bs_project_init_done p"
| "facts E (Boot_Raise e) p \<longleftrightarrow> failure E e \<and> \<not> bs_project_init_done p"
| "facts E Wait_Create_Event p \<longleftrightarrow> settled E p"
| "facts E Wait_Created p \<longleftrightarrow> settled E p \<and> bs_ready_event p \<noteq> None"
| "facts E Wait_Event p \<longleftrightarrow> bs_ready_event p \<noteq> None"
| "facts E Ready p \<longleftrightarrow> bs_project_init_done p"
| "facts E (Init_Want_Sync c) p \<longleftrightarrow> (c = Boot_Caller \<longrightarrow> \<not> bs_project_init_done p)"
| "facts E (Init_Locked c) p \<longleftrightarrow> settled E p \<and> (c = Boot_Caller \<longrightarrow> \<not> bs_project_init_done p)"
| "facts E (Init_Made c r) p \<longleftrightarrow> settled E p \<and> \<not> bs_di_init_done p"
| "facts E (Init_Rooted c) p \<longleftrightarrow> bs_root p \<noteq> None \<and> bs_ran p = [] \<and> \<not> bs_di_init_done p"
| "facts E (Init_Wired c) p \<longleftrightarrow> bs_root p \<noteq> None \<and> bs_ran p = fst (wiring E) \<and> \<not> wiring_fails E \<and> \<not> bs_di_init_done p"
| "facts E (Init_Leave c) p \<longleftrightarrow> bs_di_init_done p \<and> (c = Boot_Caller \<longrightarrow> \<not> bs_project_init_done p)"
| "facts E Initialised p \<longleftrightarrow> bs_di_init_done p"
| "facts E (Failed e) p \<longleftrightarrow> failure E e"
| "facts E _ p \<longleftrightarrow> True"

text \<open>What holds at the place of task \<open>i\<close>, with the locks it is the holder of.\<close>

definition pc_inv :: "boot_env \<Rightarrow> nat \<Rightarrow> pc \<Rightarrow> process \<Rightarrow> bool" where
  "pc_inv E i c p \<longleftrightarrow> (holds_sync c \<longleftrightarrow> bs_sync_owner p = Some i) \<and> (holds_async c \<longleftrightarrow> bs_async_lock p = Some (Some i)) \<and> facts E c p"

lemmas inv_defs = proc_inv_def pc_inv_def settled_def signalled_def

lemma init_outcome:
  obtains (wired) ms where "\<not> wiring_fails E" "wiring E = (ms, Ret ())"
  | (raised) ms e where "wiring_fails E" "wiring E = (ms, Raise e)"
  by (cases "wiring E"; cases "snd (wiring E)") (auto simp: wiring_fails_def)

text \<open>A step keeps what holds of the process and brings the task where the facts of its next place hold.\<close>

definition stepped :: "(pc \<times> process) option \<Rightarrow> (pc \<Rightarrow> process \<Rightarrow> bool) \<Rightarrow> bool" where
  "stepped r Q \<longleftrightarrow> (case r of None \<Rightarrow> True | Some (c, p) \<Rightarrow> Q c p)"

lemma stepped_simps [simp]:
  "stepped None Q" "stepped (Some (c, p)) Q \<longleftrightarrow> Q c p" "stepped (if b then r1 else r2) Q \<longleftrightarrow> (if b then stepped r1 Q else stepped r2 Q)"
  "stepped (acquire_sync i c q) Q \<longleftrightarrow> (bs_sync_owner q = None \<longrightarrow> Q c (q\<lparr>bs_sync_owner := Some i\<rparr>))"
  by (simp_all add: stepped_def acquire_sync_def del: not_None_eq)

lemma step_keeps_create:
  assumes "proc_inv E p" "pc_inv E i Boot_Create_Lock p"
  shows "stepped (task_step E i Boot_Create_Lock p) (\<lambda>c' p'. proc_inv E p' \<and> pc_inv E i c' p')"
  using assms by (cases "bs_async_lock p") (auto simp: inv_defs del: not_None_eq)

lemma step_keeps_lock:
  assumes "proc_inv E p" "pc_inv E i Boot_Want_Lock p"
  shows "stepped (task_step E i Boot_Want_Lock p) (\<lambda>c' p'. proc_inv E p' \<and> pc_inv E i c' p')"
  using assms by (cases "bs_async_lock p"; cases "the (bs_async_lock p)") (auto simp: inv_defs del: not_None_eq)

lemma step_keeps_wiring:
  assumes "proc_inv E p" "pc_inv E i (Init_Rooted k) p"
  shows "stepped (task_step E i (Init_Rooted k) p) (\<lambda>c' p'. proc_inv E p' \<and> pc_inv E i c' p')"
  using assms by (cases k; cases rule: init_outcome [of E]) (auto simp: inv_defs init_raises_def failure_def del: not_None_eq)

lemma step_keeps:
  assumes "proc_inv E p" "pc_inv E i c p"
  shows "stepped (task_step E i c p) (\<lambda>c' p'. proc_inv E p' \<and> pc_inv E i c' p')"
proof (cases c)
  case Boot_Create_Lock
  then show ?thesis using step_keeps_create assms by blast
next
  case Boot_Want_Lock
  then show ?thesis using step_keeps_lock assms by blast
next
  case (Init_Rooted k)
  then show ?thesis using step_keeps_wiring assms by blast
qed (use assms in \<open>(clarsimp simp: inv_defs init_raises_def failure_def simp del: not_None_eq split: caller.split option.split; blast?)+\<close>)

text \<open>
  What another task relies on: its locks stay its own, what they guard does not change, and the lock, the event
  and the two flags only ever come into being or are set.
\<close>

definition undisturbed :: "nat \<Rightarrow> process \<Rightarrow> process \<Rightarrow> bool" where
  "undisturbed j p p' \<longleftrightarrow> (bs_sync_owner p' = Some j \<longleftrightarrow> bs_sync_owner p = Some j)
     \<and> (bs_async_lock p' = Some (Some j) \<longleftrightarrow> bs_async_lock p = Some (Some j))
     \<and> (bs_async_lock p \<noteq> None \<longrightarrow> bs_async_lock p' \<noteq> None)
     \<and> (bs_ready_event p \<noteq> None \<longrightarrow> bs_ready_event p' \<noteq> None)
     \<and> (bs_ready_event p = Some True \<longrightarrow> bs_ready_event p' = Some True)
     \<and> (bs_project_init_done p \<longrightarrow> bs_project_init_done p')
     \<and> (bs_di_init_done p \<longrightarrow> bs_di_init_done p')
     \<and> (bs_sync_owner p = Some j \<longrightarrow> bs_root p' = bs_root p \<and> bs_ran p' = bs_ran p \<and> bs_di_init_done p' = bs_di_init_done p)
     \<and> (bs_async_lock p = Some (Some j) \<longrightarrow> bs_project_init_done p' = bs_project_init_done p)"

definition owns_locks :: "nat \<Rightarrow> pc \<Rightarrow> process \<Rightarrow> bool" where
  "owns_locks i c p \<longleftrightarrow> (holds_sync c \<longleftrightarrow> bs_sync_owner p = Some i) \<and> (holds_async c \<longleftrightarrow> bs_async_lock p = Some (Some i))"

lemma wiring_guarantees:
  "owns_locks i (Init_Rooted k) p \<Longrightarrow> j \<noteq> i \<Longrightarrow> stepped (task_step E i (Init_Rooted k) p) (\<lambda>c'. undisturbed j p)"
  by (cases rule: init_outcome [of E]) (auto simp: undisturbed_def owns_locks_def init_raises_def del: not_None_eq)

lemma lock_guarantees:
  "owns_locks i Boot_Want_Lock p \<Longrightarrow> j \<noteq> i \<Longrightarrow> stepped (task_step E i Boot_Want_Lock p) (\<lambda>c'. undisturbed j p)"
  by (cases "bs_async_lock p"; cases "the (bs_async_lock p)") (auto simp: undisturbed_def owns_locks_def del: not_None_eq)

lemma step_guarantees:
  assumes "owns_locks i c p" "facts E c p" "j \<noteq> i"
  shows "stepped (task_step E i c p) (\<lambda>c'. undisturbed j p)"
proof (cases c)
  case Boot_Want_Lock
  then show ?thesis using lock_guarantees assms by blast
next
  case (Init_Rooted k)
  then show ?thesis using wiring_guarantees assms by blast
qed (use assms in \<open>auto simp: undisturbed_def owns_locks_def init_raises_def del: not_None_eq split: option.split\<close>)

lemma undisturbed_facts:
  assumes "pc_inv E j d p" "undisturbed j p p'"
  shows "pc_inv E j d p'"
  using assms by (cases d) (auto simp: pc_inv_def undisturbed_def settled_def signalled_def del: not_None_eq)

text \<open>The invariant of all tasks; a number that no task has owns no lock.\<close>

definition place :: "startup \<Rightarrow> nat \<Rightarrow> pc" where
  "place s i = (if i < length (su_pcs s) then su_pcs s ! i else Wait_Start)"

definition startup_inv :: "boot_env \<Rightarrow> startup \<Rightarrow> bool" where
  "startup_inv E s \<longleftrightarrow> proc_inv E (su_proc s) \<and> (\<forall>i. pc_inv E i (place s i) (su_proc s))"

lemma startup_step_place:
  assumes "startup_step E s s'"
  obtains i where "i < length (su_pcs s)" "length (su_pcs s') = length (su_pcs s)"
    "task_step E i (place s i) (su_proc s) = Some (place s' i, su_proc s')" "\<And>j. j \<noteq> i \<Longrightarrow> place s' j = place s j"
proof -
  obtain i c p where "s' = \<lparr>su_pcs = (su_pcs s)[i := c], su_proc = p\<rparr>" "i < length (su_pcs s)"
      "task_step E i (su_pcs s ! i) (su_proc s) = Some (c, p)"
    using assms by (blast elim: startup_stepE)
  then show thesis by (intro that [of i]) (auto simp: place_def)
qed

lemma startup_step_inv:
  assumes "startup_step E s s'" "startup_inv E s"
  shows "startup_inv E s'"
proof -
  obtain i where i: "task_step E i (place s i) (su_proc s) = Some (place s' i, su_proc s')" "\<And>j. j \<noteq> i \<Longrightarrow> place s' j = place s j"
    using startup_step_place [OF assms(1)] by metis
  have inv: "proc_inv E (su_proc s)" "pc_inv E j (place s j) (su_proc s)" for j
    using assms(2) by (simp_all add: startup_inv_def)
  have moved: "proc_inv E (su_proc s')" "pc_inv E i (place s' i) (su_proc s')"
    using step_keeps [OF inv(1) inv(2) [of i]] i(1) by simp_all
  have "pc_inv E j (place s' j) (su_proc s')" if "j \<noteq> i" for j
  proof -
    have "owns_locks i (place s i) (su_proc s)" "facts E (place s i) (su_proc s)"
      using inv(2) [of i] by (simp_all add: pc_inv_def owns_locks_def)
    from step_guarantees [OF this that] have "undisturbed j (su_proc s) (su_proc s')" using i(1) by simp
    from undisturbed_facts [OF inv(2) this] show ?thesis using i(2) [OF that] by simp
  qed
  then show ?thesis using moved unfolding startup_inv_def by metis
qed

lemma begins_inv: "begins cs s \<Longrightarrow> startup_inv E s"
  unfolding startup_inv_def
proof
  assume b: "begins cs s"
  then show "proc_inv E (su_proc s)" by (simp add: begins_def new_process_def inv_defs)
  have at: "place s i \<in> {Boot_Start, Wait_Start, Init_Want_Sync Module_Caller}" for i
  proof (cases "i < length cs")
    case True
    then have "cs ! i \<in> {Boot_Start, Wait_Start, Init_Want_Sync Module_Caller}" using b nth_mem [OF True] unfolding begins_def by blast
    then show ?thesis using b True by (simp add: begins_def place_def)
  next
    case False
    then show ?thesis using b by (simp add: begins_def place_def)
  qed
  have new: "su_proc s = new_process" using b by (simp add: begins_def)
  have "pc_inv E i c new_process" if "c \<in> {Boot_Start, Wait_Start, Init_Want_Sync Module_Caller}" for i c
    using that by (auto simp: pc_inv_def new_process_def)
  then show "\<forall>i. pc_inv E i (place s i) (su_proc s)" using at new by metis
qed

lemma run_inv: "(startup_step E)\<^sup>*\<^sup>* s s' \<Longrightarrow> startup_inv E s \<Longrightarrow> startup_inv E s'"
  by (induction rule: rtranclp_induct) (auto intro: startup_step_inv)

section \<open>Every run ends\<close>

fun weight :: "pc \<Rightarrow> nat" where
  "weight Boot_Start = 18"
| "weight Boot_See_Lock = 17"
| "weight Boot_Want_Sync = 16"
| "weight Boot_Create_Event = 15"
| "weight Boot_Create_Lock = 14"
| "weight Boot_Created = 13"
| "weight Boot_Want_Lock = 12"
| "weight Boot_Locked = 11"
| "weight Boot_Need_DI = 10"
| "weight (Init_Want_Sync c) = 9"
| "weight (Init_Locked c) = 8"
| "weight (Init_Made c r) = 7"
| "weight (Init_Rooted c) = 6"
| "weight (Init_Wired c) = 5"
| "weight (Init_Leave c) = 4"
| "weight Boot_Mark = 3"
| "weight Boot_Signal = 2"
| "weight Boot_Leave = 1"
| "weight (Boot_Raise e) = 1"
| "weight Wait_Start = 6"
| "weight Wait_See_Event = 5"
| "weight Wait_Want_Sync = 4"
| "weight Wait_Create_Event = 3"
| "weight Wait_Created = 2"
| "weight Wait_Event = 1"
| "weight _ = 0"

lemma step_descends: "stepped (task_step E i c p) (\<lambda>c' p'. weight c' < weight c)"
  by (cases c) (auto simp: init_raises_def split: option.split caller.split prod.split outcome.split)

definition work_left :: "startup \<Rightarrow> nat" where
  "work_left s = sum_list (map weight (su_pcs s))"

lemma startup_step_descends: "startup_step E s s' \<Longrightarrow> work_left s' < work_left s"
proof (erule startup_stepE)
  fix i c p assume s': "s' = \<lparr>su_pcs = (su_pcs s)[i := c], su_proc = p\<rparr>" and i: "i < length (su_pcs s)"
    and "task_step E i (su_pcs s ! i) (su_proc s) = Some (c, p)"
  then have "weight c < weight (su_pcs s ! i)" using step_descends [of E i "su_pcs s ! i" "su_proc s"] by simp
  moreover have "work_left s' + weight (su_pcs s ! i) = work_left s + weight c"
    using i by (simp add: s' work_left_def map_update sum_list_update add_increasing2 member_le_sum_list)
  ultimately show ?thesis by simp
qed

lemma run_bound: "(startup_step E ^^ n) s s' \<Longrightarrow> n + work_left s' \<le> work_left s"
proof (induction n arbitrary: s')
  case (Suc n)
  then obtain t where "(startup_step E ^^ n) s t" "startup_step E t s'" by auto
  then show ?case using Suc.IH [of t] startup_step_descends [of E t s'] by simp
qed simp

lemma begins_work: "begins cs s \<Longrightarrow> work_left s \<le> 18 * length cs"
proof -
  assume b: "begins cs s"
  have "weight c \<le> 18" for c by (cases c) simp_all
  then have "sum_list (map weight cs) \<le> sum_list (map (\<lambda>_. 18) cs)" by (intro sum_list_mono) simp
  then show ?thesis using b by (simp add: begins_def work_left_def sum_list_triv)
qed

section \<open>Where a run ends\<close>

definition stuck :: "boot_env \<Rightarrow> startup \<Rightarrow> bool" where
  "stuck E s \<longleftrightarrow> (\<nexists>s'. startup_step E s s')"

lemma stuckI: "(\<And>i. i < length (su_pcs s) \<Longrightarrow> task_step E i (su_pcs s ! i) (su_proc s) = None) \<Longrightarrow> stuck E s"
  unfolding stuck_def by (auto elim!: startup_stepE)

lemma stuck_places:
  assumes "stuck E s"
  shows "i < length (su_pcs s) \<Longrightarrow> task_step E i (place s i) (su_proc s) = None"
  using assms task_moves [of i s E] unfolding stuck_def place_def by (cases "task_step E i (su_pcs s ! i) (su_proc s)") auto

text \<open>Who holds the sync lock goes on, and so does who holds the async lock once the sync lock is free.\<close>

lemma sync_holder_moves: "holds_sync c \<Longrightarrow> task_step E i c p \<noteq> None"
  by (cases c; cases "wiring E"; cases "snd (wiring E)") (auto simp: init_raises_def)

lemma async_holder_moves: "holds_async c \<Longrightarrow> bs_sync_owner p = None \<Longrightarrow> task_step E i c p \<noteq> None"
  by (cases "holds_sync c") (use sync_holder_moves in blast, cases c, auto simp: acquire_sync_def)

fun ended :: "pc \<Rightarrow> bool" where
  "ended Booted = True"
| "ended Ready = True"
| "ended Initialised = True"
| "ended (Failed e) = True"
| "ended _ = False"

lemma free_moves:
  "bs_sync_owner p = None \<Longrightarrow> lock_free (bs_async_lock p) \<Longrightarrow> task_step E i c p = None \<Longrightarrow> \<not> holds_sync c \<Longrightarrow> \<not> holds_async c
   \<Longrightarrow> ended c \<or> c = Wait_Event \<and> bs_ready_event p = Some False"
  by (cases c; cases "bs_async_lock p") (auto simp: acquire_sync_def split: option.splits if_split_asm elim: lock_free.elims)

lemma stuck_ended:
  assumes "startup_inv E s" "stuck E s"
  shows "lock_free (bs_async_lock (su_proc s))"
    and "i < length (su_pcs s) \<Longrightarrow> ended (place s i) \<or> place s i = Wait_Event \<and> bs_ready_event (su_proc s) = Some False"
proof -
  let ?p = "su_proc s"
  have owner: "holds_sync (place s j) \<longleftrightarrow> bs_sync_owner ?p = Some j" "holds_async (place s j) \<longleftrightarrow> bs_async_lock ?p = Some (Some j)" for j
    using assms(1) by (simp_all add: startup_inv_def pc_inv_def)
  have inside: "j < length (su_pcs s)" if "holds_sync (place s j) \<or> holds_async (place s j)" for j
    using that by (auto simp: place_def split: if_split_asm)
  have "bs_sync_owner ?p \<noteq> Some j" for j
    using stuck_places [OF assms(2)] owner(1) [of j] inside sync_holder_moves by metis
  then have sync: "bs_sync_owner ?p = None" by (cases "bs_sync_owner ?p") auto
  have async: "bs_async_lock ?p \<noteq> Some (Some j)" for j
    using stuck_places [OF assms(2)] owner(2) [of j] inside async_holder_moves [OF _ sync] by metis
  from async [of "the (the (bs_async_lock ?p))"] show free: "lock_free (bs_async_lock ?p)" by (cases "bs_async_lock ?p" rule: lock_free.cases) auto
  show "ended (place s i) \<or> place s i = Wait_Event \<and> bs_ready_event ?p = Some False" if "i < length (su_pcs s)"
  proof -
    have "\<not> holds_sync (place s i)" "\<not> holds_async (place s i)" using owner [of i] sync async by simp_all
    from free_moves [OF sync free stuck_places [OF assms(2) that] this] show ?thesis .
  qed
qed

text \<open>What a task is there for does not change, until it fails.\<close>

fun role :: "pc \<Rightarrow> pc" where
  "role Wait_Start = Ready"
| "role Wait_See_Event = Ready"
| "role Wait_Want_Sync = Ready"
| "role Wait_Create_Event = Ready"
| "role Wait_Created = Ready"
| "role Wait_Event = Ready"
| "role Ready = Ready"
| "role (Init_Want_Sync c) = (if c = Module_Caller then Initialised else Booted)"
| "role (Init_Locked c) = (if c = Module_Caller then Initialised else Booted)"
| "role (Init_Made c r) = (if c = Module_Caller then Initialised else Booted)"
| "role (Init_Rooted c) = (if c = Module_Caller then Initialised else Booted)"
| "role (Init_Wired c) = (if c = Module_Caller then Initialised else Booted)"
| "role (Init_Leave c) = (if c = Module_Caller then Initialised else Booted)"
| "role Initialised = Initialised"
| "role (Failed e) = Failed e"
| "role _ = Booted"

fun failed :: "pc \<Rightarrow> bool" where
  "failed (Failed e) = True"
| "failed _ = False"

lemma step_role: "stepped (task_step E i c p) (\<lambda>c' p'. failed c' \<or> role c' = role c)"
  by (cases c) (auto simp: init_raises_def split: option.split caller.split prod.split outcome.split)

lemma startup_step_role:
  assumes "startup_step E s s'" "failed (place s i) \<or> role (place s i) = r"
  shows "failed (place s' i) \<or> role (place s' i) = r"
proof -
  obtain j where j: "task_step E j (place s j) (su_proc s) = Some (place s' j, su_proc s')" "\<And>k. k \<noteq> j \<Longrightarrow> place s' k = place s k"
    using startup_step_place [OF assms(1)] by metis
  show ?thesis
  proof (cases "i = j")
    case True
    have "\<not> failed (place s j)" using j(1) by (cases "place s j") auto
    then show ?thesis using True assms(2) step_role [of E j "place s j" "su_proc s"] j(1) by auto
  next
    case False
    then show ?thesis using assms(2) j(2) by simp
  qed
qed

lemma run_role:
  "(startup_step E)\<^sup>*\<^sup>* s s' \<Longrightarrow> failed (place s' i) \<or> role (place s' i) = role (place s i)"
  by (induction rule: rtranclp_induct) (use startup_step_role in blast)+

lemma run_length: "(startup_step E)\<^sup>*\<^sup>* s s' \<Longrightarrow> length (su_pcs s') = length (su_pcs s)"
  by (induction rule: rtranclp_induct) (auto elim: startup_stepE)

section \<open>One initialisation, and everybody ready\<close>

lemma ended_role: "ended c \<Longrightarrow> \<not> failed c \<Longrightarrow> role c = c"
  by (cases c) simp_all

lemma run_ran:
  assumes "startup_inv E s"
  shows "bs_ran (su_proc s) = [] \<or> bs_ran (su_proc s) = fst (wiring E)"
proof (cases "bs_sync_owner (su_proc s)")
  case None
  then show ?thesis using assms by (auto simp: startup_inv_def proc_inv_def settled_def)
next
  case (Some i)
  have p: "proc_inv E (su_proc s)" "facts E (place s i) (su_proc s)" "holds_sync (place s i)"
    using assms Some by (auto simp: startup_inv_def pc_inv_def)
  have "bs_di_init_done (su_proc s) \<or> bs_root (su_proc s) = None \<or> settled E (su_proc s) \<or> bs_ran (su_proc s) = [] \<or> bs_ran (su_proc s) = fst (wiring E)"
    using p(2,3) by (cases "place s i") simp_all
  then show ?thesis using p(1) by (auto simp: proc_inv_def settled_def)
qed

lemma root_kept: "stepped (task_step E i c p) (\<lambda>c' p'. bs_root p = None \<or> bs_root p' = bs_root p)"
  by (cases c) (auto simp: init_raises_def split: option.split caller.split prod.split outcome.split)

lemma run_root: "(startup_step E)\<^sup>*\<^sup>* s s' \<Longrightarrow> bs_root (su_proc s) = Some r \<Longrightarrow> bs_root (su_proc s') = Some r"
proof (induction rule: rtranclp_induct)
  case (step t u)
  then obtain i where "task_step E i (place t i) (su_proc t) = Some (place u i, su_proc u)"
    using startup_step_place [OF step.hyps(2)] by metis
  then show ?case using root_kept [of E i "place t i" "su_proc t"] step by simp
qed simp

definition initialising :: "pc \<Rightarrow> bool" where
  "initialising c \<longleftrightarrow> (\<exists>k r. c = Init_Made k r \<or> c = Init_Rooted k \<or> c = Init_Wired k)"

lemma one_in_sync:
  assumes "startup_inv E s" "holds_sync (place s i)" "holds_sync (place s j)"
  shows "i = j"
  using assms unfolding startup_inv_def pc_inv_def by force

lemma one_initialising:
  assumes "startup_inv E s" "initialising (place s i)" "initialising (place s j)"
  shows "i = j"
proof -
  have "holds_sync (place s i)" "holds_sync (place s j)" using assms(2,3) by (auto simp: initialising_def)
  then show ?thesis using assms(1) unfolding startup_inv_def pc_inv_def by force
qed

lemma place_of: "c \<in> set (su_pcs s) \<Longrightarrow> \<exists>i < length (su_pcs s). c = place s i"
  by (auto simp: in_set_conv_nth place_def)

text \<open>A thread outside the event loop leaves the lock and the event of \<open>asyncio\<close> alone.\<close>

fun thread_place :: "pc \<Rightarrow> bool" where
  "thread_place (Init_Want_Sync c) = (c = Module_Caller)"
| "thread_place (Init_Locked c) = (c = Module_Caller)"
| "thread_place (Init_Made c r) = (c = Module_Caller)"
| "thread_place (Init_Rooted c) = (c = Module_Caller)"
| "thread_place (Init_Wired c) = (c = Module_Caller)"
| "thread_place (Init_Leave c) = (c = Module_Caller)"
| "thread_place Initialised = True"
| "thread_place (Failed e) = True"
| "thread_place c = False"

lemma threads_leave_asyncio:
  "thread_place c \<Longrightarrow> task_step E i c p = Some (c', p') \<Longrightarrow>
   thread_place c' \<and> bs_async_lock p' = bs_async_lock p \<and> bs_ready_event p' = bs_ready_event p"
  by (cases c) (auto simp: init_raises_def acquire_sync_def split: if_splits prod.splits outcome.splits)

text \<open>How many containers have been made, while the wiring succeeds.\<close>

definition making :: "pc \<Rightarrow> bool" where
  "making c \<longleftrightarrow> (\<exists>k r. c = Init_Made k r)"

definition made_inv :: "startup \<Rightarrow> bool" where
  "made_inv s \<longleftrightarrow> bs_made (su_proc s) = (if bs_root (su_proc s) \<noteq> None \<or> (\<exists>i. making (place s i)) then 1 else 0)"

lemma step_making:
  "task_step E i c p = Some (c', p') \<Longrightarrow> \<not> (\<exists>k. c = Init_Locked k) \<Longrightarrow> \<not> making c \<Longrightarrow>
   bs_made p' = bs_made p \<and> bs_root p' = bs_root p \<and> \<not> making c'"
  by (cases c) (auto simp: making_def init_raises_def acquire_sync_def split: if_splits prod.splits outcome.splits caller.splits
      option.splits bool.splits)

lemma made_step:
  assumes "startup_inv E s" "\<not> wiring_fails E" "made_inv s" "startup_step E s t"
  shows "made_inv t"
proof -
  obtain i where i: "task_step E i (place s i) (su_proc s) = Some (place t i, su_proc t)" "\<And>j. j \<noteq> i \<Longrightarrow> place t j = place s j"
    using startup_step_place [OF assms(4)] by metis
  have alone: "\<not> making (place s j)" if "holds_sync (place s i)" "j \<noteq> i" for j
    using assms(1) that unfolding startup_inv_def pc_inv_def making_def by (metis holds_sync.simps(7) option.inject)
  have f: "facts E (place s i) (su_proc s)" using assms(1) by (simp add: startup_inv_def pc_inv_def)
  consider (locked) k where "place s i = Init_Locked k" | (made) k r where "place s i = Init_Made k r"
    | (other) "\<not> (\<exists>k. place s i = Init_Locked k)" "\<not> making (place s i)"
    by (auto simp: making_def)
  then show ?thesis
  proof cases
    case locked
    have n: "\<not> making (place s j)" for j using alone locked by (cases "j = i") (auto simp: making_def)
    show ?thesis
    proof (cases "bs_di_init_done (su_proc s)")
      case True
      then have "place t i = Init_Leave k" "su_proc t = su_proc s" using i(1) locked by auto
      then have "\<not> making (place t j)" for j using n i(2) by (cases "j = i") (auto simp: making_def)
      then show ?thesis using assms(3) n \<open>su_proc t = su_proc s\<close> by (simp add: made_inv_def)
    next
      case False
      then have "bs_root (su_proc s) = None" using f locked assms(2) by (auto simp: settled_def)
      then have "bs_made (su_proc s) = 0" using assms(3) n by (simp add: made_inv_def)
      moreover have "place t i = Init_Made k (bs_made (su_proc s))" "su_proc t = (su_proc s)\<lparr>bs_made := bs_made (su_proc s) + 1\<rparr>"
        using i(1) locked False by simp_all
      then have "making (place t i)" "bs_made (su_proc t) = bs_made (su_proc s) + 1" by (simp_all add: making_def)
      ultimately show ?thesis by (auto simp: made_inv_def)
    qed
  next
    case made
    then have "bs_root (su_proc s) = None" using f assms(2) by (auto simp: settled_def)
    then have "su_proc t = (su_proc s)\<lparr>bs_root := Some r\<rparr>" using i(1) made by auto
    moreover have "making (place s i)" using made by (simp add: making_def)
    ultimately show ?thesis using assms(3) by (auto simp: made_inv_def)
  next
    case other
    from step_making [OF i(1) this] have "bs_made (su_proc t) = bs_made (su_proc s)" "bs_root (su_proc t) = bs_root (su_proc s)"
      "\<not> making (place t i)" by simp_all
    moreover have "(\<exists>j. making (place t j)) \<longleftrightarrow> (\<exists>j. making (place s j))"
      using i(2) other(2) \<open>\<not> making (place t i)\<close> by metis
    ultimately show ?thesis using assms(3) by (simp add: made_inv_def)
  qed
qed

lemma run_made:
  assumes "begins cs s0" "(startup_step E)\<^sup>*\<^sup>* s0 s" "\<not> wiring_fails E"
  shows "made_inv s"
  using assms(2)
proof (induction rule: rtranclp_induct)
  case base
  have cs: "set cs \<subseteq> {Boot_Start, Wait_Start, Init_Want_Sync Module_Caller}" "su_pcs s0 = cs"
    using assms(1) by (simp_all add: begins_def)
  have "place s0 i \<in> {Boot_Start, Wait_Start, Init_Want_Sync Module_Caller}" for i
  proof (cases "i < length cs")
    case True
    from subsetD [OF cs(1) nth_mem [OF this]] True show ?thesis by (simp add: place_def cs(2))
  qed (simp add: place_def cs(2))
  moreover have "c \<in> {Boot_Start, Wait_Start, Init_Want_Sync Module_Caller} \<Longrightarrow> \<not> making c" for c
    by (auto simp: making_def)
  ultimately have "\<not> making (place s0 i)" for i by blast
  then show ?case using assms(1) by (simp add: made_inv_def begins_def new_process_def)
next
  case (step t u)
  then show ?case using made_step [OF run_inv [OF step.hyps(1) begins_inv [OF assms(1)]] assms(3)] by blast
qed

lemma one_in_async:
  assumes "startup_inv E s" "holds_async (place s i)" "holds_async (place s j)"
  shows "i = j"
  using assms unfolding startup_inv_def pc_inv_def by force


text \<open>Tasks moved in a given order; a task that waits is passed over.\<close>

fun schedule :: "boot_env \<Rightarrow> nat list \<Rightarrow> startup \<Rightarrow> startup" where
  "schedule E [] s = s"
| "schedule E (i # is) s = (if i < length (su_pcs s) then (case task_step E i (su_pcs s ! i) (su_proc s) of
       None \<Rightarrow> schedule E is s | Some (c, p) \<Rightarrow> schedule E is \<lparr>su_pcs = (su_pcs s)[i := c], su_proc = p\<rparr>) else schedule E is s)"

lemma schedule_runs: "(startup_step E)\<^sup>*\<^sup>* s (schedule E is s)"
proof (induction "is" arbitrary: s)
  case (Cons i "is")
  show ?case
  proof (cases "i < length (su_pcs s) \<and> task_step E i (su_pcs s ! i) (su_proc s) \<noteq> None")
    case True
    then obtain c p where r: "task_step E i (su_pcs s ! i) (su_proc s) = Some (c, p)" by auto
    then have "startup_step E s \<lparr>su_pcs = (su_pcs s)[i := c], su_proc = p\<rparr>" using True by (intro task_moves) simp_all
    from converse_rtranclp_into_rtranclp [OF this Cons.IH] show ?thesis using True r by simp
  next
    case False
    then have "\<not> i < length (su_pcs s) \<or> task_step E i (su_pcs s ! i) (su_proc s) = None" by blast
    then show ?thesis using Cons.IH [of s] by auto
  qed
qed simp

text \<open>A package whose modules can be imported, with set-ups that all succeed.\<close>

definition module_names :: "boot_env \<Rightarrow> string list" where
  "module_names E = mt_name (be_package E) # concat (map (importable (\<lambda>_. False)) (mt_children (be_package E)))"

definition setups :: "boot_env \<Rightarrow> string list" where
  "setups E = filter (\<lambda>m. be_setup E m \<noteq> None) (module_names E)"

definition good_env :: "boot_env \<Rightarrow> bool" where
  "good_env E \<longleftrightarrow> mt_is_pkg (be_package E) \<and> list_all packages_import (mt_children (be_package E))
     \<and> distinct (concat (map (met (\<lambda>_. False)) (mt_children (be_package E))))
     \<and> be_wire E (module_names E) = Ret () \<and> list_all (\<lambda>m. be_setup E m = Some (Ret ())) (setups E)"

lemma run_setups_all:
  "list_all (\<lambda>m. f m = Some (Ret ())) (filter (\<lambda>m. f m \<noteq> None) ms) \<Longrightarrow> run_setups f ms = (filter (\<lambda>m. f m \<noteq> None) ms, Ret ())"
  by (induction ms) (auto split: if_split_asm)

lemma good_wiring:
  assumes "good_env E"
  shows "wiring E = (setups E, Ret ())"
proof -
  obtain n pkg cs r where pk: "be_package E = Module n pkg cs r" by (cases "be_package E")
  let ?w = "\<lparr>ws_collected = [], ws_seen = {}\<rparr>"
  have g: "pkg" "list_all packages_import cs" "distinct (concat (map (met (\<lambda>_. False)) cs))"
    "be_wire E (module_names E) = Ret ()" "list_all (\<lambda>m. be_setup E m = Some (Ret ())) (setups E)"
    using assms pk by (simp_all add: good_env_def)
  have "py_for cs (walk_entry (\<lambda>_. False)) ?w = (Ret (), walked (\<lambda>_. False) cs ?w)"
  proof (rule walk_all)
    fix t and w :: walk_state assume "t \<in> set cs" "set (met (\<lambda>_. False) t) \<inter> ws_seen w = {}"
    then show "walk_entry (\<lambda>_. False) t w = (Ret (), walked (\<lambda>_. False) [t] w)"
      using g(2,3) by (intro walk_first) (auto simp: list_all_iff distinct_concat_iff)
  qed (use g(3) in simp_all)
  then have "wire_recursive (be_wire E) (\<lambda>_. False) (be_package E) = Ret (module_names E, True)"
    using g(1,4) pk by (simp add: wire_recursive_def walked_def module_names_def)
  then show ?thesis using run_setups_all g(5) by (simp add: wiring_def setups_def)
qed

lemma good_never_fails: "good_env E \<Longrightarrow> \<not> wiring_fails E"
  by (simp add: wiring_fails_def good_wiring)

lemma good_stuck:
  assumes "startup_inv E s" "stuck E s" "good_env E" "k < length (su_pcs s)" "role (place s k) = Booted" "i < length (su_pcs s)"
  shows "ended (place s i) \<and> \<not> failed (place s i)"
proof -
  have f: "facts E (place s j) (su_proc s)" and p: "proc_inv E (su_proc s)" for j using assms(1) by (simp_all add: startup_inv_def pc_inv_def)
  have nf: "\<not> failed (place s j)" for j
    using f [of j] good_never_fails [OF assms(3)] by (cases "place s j") (simp_all add: failure_def)
  have e: "ended (place s j) \<or> place s j = Wait_Event \<and> bs_ready_event (su_proc s) = Some False" if "j < length (su_pcs s)" for j
    by (rule stuck_ended(2) [OF assms(1,2) that])
  have "place s k = Booted"
    using e [OF assms(4)] assms(5) nf [of k] by (cases "place s k") simp_all
  then have "bs_project_init_done (su_proc s)" using f [of k] by simp
  then have "bs_ready_event (su_proc s) = Some True"
    using stuck_ended(1) [OF assms(1,2)] p by (simp add: proc_inv_def signalled_def)
  then show ?thesis using e [OF assms(6)] nf by auto
qed

text \<open>
  Claim C20. When the modules of the application can be imported and set up, and somebody bootstraps, every run of
  any number of tasks (coroutines of one event loop, and threads that initialise) ends after at most eighteen steps for each, and ends with every task returned: no
  task is left waiting for a lock or for the event, and the set-up of every module that has one has run,
  once, in the order of the modules.
\<close>

theorem startup_completes:
  assumes "begins cs s0" "good_env E" "Boot_Start \<in> set cs"
  shows "((startup_step E ^^ n) s0 s \<longrightarrow> n \<le> 18 * length cs)
    \<and> ((startup_step E)\<^sup>*\<^sup>* s0 s \<and> stuck E s \<longrightarrow> su_pcs s = map role cs \<and> bs_ran (su_proc s) = setups E)"
proof (intro conjI impI)
  assume "(startup_step E ^^ n) s0 s"
  then show "n \<le> 18 * length cs" using run_bound [of n E s0 s] begins_work [OF assms(1)] by simp
next
  assume r: "(startup_step E)\<^sup>*\<^sup>* s0 s \<and> stuck E s"
  have inv: "startup_inv E s" using run_inv begins_inv [OF assms(1)] r by blast
  have len: "length (su_pcs s) = length cs" using run_length r assms(1) by (fastforce simp: begins_def)
  have at: "place s0 i = cs ! i" if "i < length cs" for i using assms(1) that by (simp add: begins_def place_def)
  have ro: "failed (place s i) \<or> role (place s i) = role (cs ! i)" if "i < length cs" for i
    using run_role [of E s0 s i] r at [OF that] by simp
  have nf: "\<not> failed (place s j)" for j
    using inv good_never_fails [OF assms(2)] by (cases "place s j") (auto simp: startup_inv_def pc_inv_def failure_def dest!: spec [of _ j])
  obtain k where k: "k < length cs" "cs ! k = Boot_Start" using assms(3) by (auto simp: in_set_conv_nth)
  then have b: "role (place s k) = Booted" using ro [of k] nf [of k] by simp
  have e: "ended (place s i) \<and> \<not> failed (place s i)" if "i < length cs" for i
    using good_stuck [OF inv _ assms(2) _ b] r k(1) that len by simp
  then have "su_pcs s ! i = role (cs ! i)" if "i < length cs" for i
    using ro [OF that] ended_role that len by (metis place_def)
  then show "su_pcs s = map role cs" using len by (intro nth_equalityI) simp_all
  have "place s k = Booted" using e [OF k(1)] b ended_role by metis
  then have "bs_di_init_done (su_proc s)" using inv by (auto simp: startup_inv_def pc_inv_def proc_inv_def dest!: spec [of _ k])
  then show "bs_ran (su_proc s) = setups E" using inv good_wiring [OF assms(2)] by (simp add: startup_inv_def proc_inv_def)
qed

text \<open>When the wiring fails nobody is ever ready: who bootstraps fails, and who waits for the event waits for ever.\<close>

lemma failed_start:
  assumes "begins cs s0" "(startup_step E)\<^sup>*\<^sup>* s0 s" "wiring_fails E" "stuck E s" "c \<in> set (su_pcs s)"
  shows "c = Wait_Event \<or> (\<exists>e. c = Failed e \<and> failure E e)"
proof -
  have inv: "startup_inv E s" by (rule run_inv [OF assms(2) begins_inv [OF assms(1)]])
  obtain i where i: "i < length (su_pcs s)" "c = place s i" using place_of [OF assms(5)] by blast
  have f: "facts E c (su_proc s)" and p: "proc_inv E (su_proc s)" using inv i(2) by (simp_all add: startup_inv_def pc_inv_def)
  from p have "\<not> bs_project_init_done (su_proc s)" "\<not> bs_di_init_done (su_proc s)" using assms(3) unfolding proc_inv_def by blast+
  moreover have "ended c \<or> c = Wait_Event" using stuck_ended(2) [OF inv assms(4) i(1)] i(2) by blast
  ultimately show ?thesis using f by (cases c) simp_all
qed

text \<open>Two tasks that bootstrap and one that waits, over three modules of which one cannot be imported.\<close>

definition sample_env :: boot_env where
  "sample_env = \<lparr>be_package = Module ''src.app'' True [Module ''src.app.cqrs'' True
       [Module ''src.app.cqrs.register_identity'' False [] Imported, Module ''src.app.cqrs.broken'' False [] Import_Error] Imported] Imported,
     be_wire = (\<lambda>ms. Ret ()), be_setup = (\<lambda>m. if m = ''src.app.cqrs.register_identity'' then Some (Ret ()) else None)\<rparr>"

definition sample_start :: startup where
  "sample_start = \<lparr>su_pcs = [Boot_Start, Wait_Start, Boot_Start], su_proc = new_process\<rparr>"

definition sample_turns :: "nat list" where
  "sample_turns = [0, 1, 2, 1, 2, 1, 0, 2, 1, 1, 0, 2] @ replicate 20 0 @ replicate 20 2 @ [1, 1]"


text \<open>When the set-up of a module fails, a second call makes a second container before it fails on the root.\<close>

lemma failed_tries_make_more:
  "let s = schedule (sample_env\<lparr>be_setup := \<lambda>m. Some (Raise (RuntimeError ''no broker''))\<rparr>) (replicate 9 0 @ replicate 9 1)
       \<lparr>su_pcs = [Init_Want_Sync Module_Caller, Init_Want_Sync Module_Caller], su_proc = new_process\<rparr>
   in bs_made (su_proc s) = 2 \<and> bs_root (su_proc s) = Some 0
      \<and> su_pcs s = [Failed (RuntimeError ''no broker''), Failed root_is_read_only]"
  by code_simp

theorem startup_completes_witness:
  "\<not> (\<exists>s. (startup_step sample_env ^^ 55) sample_start s)
   \<and> su_pcs (schedule sample_env sample_turns sample_start) = [Booted, Ready, Booted]"
proof -
  have b: "begins [Boot_Start, Wait_Start, Boot_Start] sample_start" by (simp add: begins_def sample_start_def)
  have g: "good_env sample_env"
    by (simp add: good_env_def sample_env_def setups_def module_names_def)
  have n: "length (su_pcs (schedule sample_env sample_turns sample_start)) = 3"
    "list_all (\<lambda>i. task_step sample_env i (su_pcs (schedule sample_env sample_turns sample_start) ! i)
       (su_proc (schedule sample_env sample_turns sample_start)) = None) [0, 1, 2]" by code_simp+
  have "stuck sample_env (schedule sample_env sample_turns sample_start)"
    by (rule stuckI) (use n in \<open>auto simp: less_Suc_eq numeral_3_eq_3 numeral_2_eq_2\<close>)
  then show ?thesis
    using startup_completes [OF b g, of _ "schedule sample_env sample_turns sample_start"]
      startup_completes [OF b g, of 55] schedule_runs [of sample_env sample_start sample_turns] by auto
qed

end
