(* ===== verification/LogSink.thy ===== *)
theory LogSink
  imports TelemetryFlows Http
begin

text \<open>
  Where log records and events go inside the process (\<open>logging/service_logger.py\<close>): the file handler, its
  installation at the root logger, and the emission of events; and the events that the error handler
  (\<open>exception_middleware.py\<close>) emits beside its responses.
\<close>

section \<open>Settings of the sink\<close>

type_synonym environ = "string \<rightharpoonup> string"

text \<open>\<open>int\<close> of a text: blanks around it, a sign, digits with single underscores between them.\<close>

fun int_digits :: "bool \<Rightarrow> string \<Rightarrow> bool" where
  "int_digits after_digit [] = after_digit"
| "int_digits after_digit (c # cs) = (if CHR ''0'' \<le> c \<and> c \<le> CHR ''9'' then int_digits True cs
     else c = CHR ''_'' \<and> after_digit \<and> cs \<noteq> [] \<and> hd cs \<noteq> CHR ''_'' \<and> int_digits False cs)"

definition digits_value :: "string \<Rightarrow> int" where
  "digits_value s = foldl (\<lambda>n c. if c = CHR ''_'' then n else 10 * n + (int (of_char c) - 48)) 0 s"

definition py_int :: "string \<Rightarrow> int option" where
  "py_int s = (let t = py_strip s; ds = (if t \<noteq> [] \<and> (hd t = CHR ''+'' \<or> hd t = CHR ''-'') then tl t else t)
     in if int_digits False ds then Some (if t \<noteq> [] \<and> hd t = CHR ''-'' then - digits_value ds else digits_value ds) else None)"

definition default_max_bytes :: int where "default_max_bytes = 5 * 1024 * 1024"
definition default_backup_count :: int where "default_backup_count = 5"

definition env_int :: "environ \<Rightarrow> string \<Rightarrow> int \<Rightarrow> int" where
  "env_int env name d = (case env name of None \<Rightarrow> d | Some s \<Rightarrow> (case py_int s of Some i \<Rightarrow> i | None \<Rightarrow> d))"

definition log_dir :: "environ \<Rightarrow> string" where
  "log_dir env = (case env ''TELEMETRY_LOG_DIR'' of Some d \<Rightarrow> d | None \<Rightarrow> ''logs'')"

definition current_service :: "environ \<Rightarrow> string" where
  "current_service env = (case env ''TELEMETRY_SERVICE'' of Some s \<Rightarrow> s | None \<Rightarrow> ''api'')"

section \<open>TelemetryLogHandler\<close>

record file_handler =
  fh_service :: string
  fh_target :: string
  fh_max_bytes :: int
  fh_backup_count :: int

datatype path_kind = Absent | A_File | A_Directory

definition parent_of :: "string \<Rightarrow> string" where
  "parent_of path = (let p = rev (drop 1 (dropWhile (\<lambda>c. c \<noteq> CHR ''/'') (rev path)))
     in if CHR ''/'' \<notin> set path then ''.'' else if p = [] then ''/'' else p)"

text \<open>
  \<open>__init__\<close>; an argument that is \<open>None\<close> or, for texts, empty counts as not given. The directories made come with the handler;
  making one where a file is raises. The names are written without doubled or trailing slashes, as \<open>Path\<close> writes them.
\<close>

definition mk_file_handler :: "environ \<Rightarrow> (string \<Rightarrow> path_kind) \<Rightarrow> string option \<Rightarrow> string option \<Rightarrow> int option \<Rightarrow> int option
    \<Rightarrow> (exn, file_handler \<times> string list) outcome" where
  "mk_file_handler env kind_of service filename max_bytes backup_count =
     (let svc = (case service of Some s \<Rightarrow> if s = [] then current_service env else s | None \<Rightarrow> current_service env);
          named = (case filename of Some f \<Rightarrow> f \<noteq> [] | None \<Rightarrow> False);
          base = log_dir env;
          target = (if named then the filename else base @ ''/'' @ svc @ ''/'' @ svc @ ''.log.json'');
          parent = parent_of target
      in if \<not> named \<and> kind_of base = A_File then Raise (OtherError ''FileExistsError'')
         else if kind_of parent = A_File then Raise (OtherError ''RuntimeError: Expected a directory'')
         else if kind_of target = A_Directory then Raise (OtherError ''RuntimeError: Expected a file'')
         else Ret (\<lparr>fh_service = svc, fh_target = target,
                 fh_max_bytes = (case max_bytes of Some n \<Rightarrow> n | None \<Rightarrow> env_int env ''TELEMETRY_MAX_BYTES'' default_max_bytes),
                 fh_backup_count = (case backup_count of Some n \<Rightarrow> n | None \<Rightarrow> env_int env ''TELEMETRY_BACKUP_COUNT'' default_backup_count)\<rparr>,
               (if \<not> named \<and> kind_of base = Absent then [base] else []) @ (if kind_of parent = Absent then [parent] else [])))"

section \<open>The root logger\<close>

text \<open>A handler of the root logger: its level, whether it has a \<open>MaskingLogFilter\<close>, and its file when it is one of ours.\<close>

record log_handler =
  lh_level :: int
  lh_masks :: bool
  lh_file :: "file_handler option"

record log_state =
  lo_env :: environ
  lo_root_level :: int
  lo_event_level :: int
  lo_handlers :: "log_handler list"

definition is_telemetry :: "log_handler \<Rightarrow> bool" where
  "is_telemetry h \<longleftrightarrow> lh_file h \<noteq> None"

definition add_mask :: "log_handler \<Rightarrow> log_handler" where
  "add_mask h = (if \<not> is_telemetry h \<and> \<not> lh_masks h then h\<lparr>lh_masks := True\<rparr> else h)"

text \<open>\<open>install_root_handler\<close>: the name of the service, the level of the root, the masks; then the handler, if there is none.\<close>

definition prepare_root :: "string option \<Rightarrow> log_state \<Rightarrow> log_state" where
  "prepare_root service c =
     (let c1 = (case service of
                  None \<Rightarrow> c
                | Some s \<Rightarrow> if s = [] \<or> lo_env c ''TELEMETRY_SERVICE'' \<noteq> None then c
                    else c\<lparr>lo_env := (lo_env c)(''TELEMETRY_SERVICE'' \<mapsto> s)\<rparr>);
          c2 = (if lo_root_level c1 = 0 \<or> 20 < lo_root_level c1 then c1\<lparr>lo_root_level := 20\<rparr> else c1)
      in c2\<lparr>lo_handlers := map add_mask (lo_handlers c2)\<rparr>)"

definition install_root_handler :: "(string \<Rightarrow> path_kind) \<Rightarrow> string option \<Rightarrow> log_state \<Rightarrow> (exn, unit) outcome \<times> log_state" where
  "install_root_handler kind_of service c =
     (let c3 = prepare_root service c
      in if list_ex is_telemetry (lo_handlers c3) then (Ret (), c3\<lparr>lo_event_level := 10\<rparr>)
         else (case mk_file_handler (lo_env c3) kind_of None None None None of
             Raise e \<Rightarrow> (Raise e, c3)
           | Ret (f, dirs) \<Rightarrow> (Ret (), c3\<lparr>lo_handlers := lo_handlers c3 @ [\<lparr>lh_level = 0, lh_masks = False, lh_file = Some f\<rparr>],
                 lo_event_level := 10\<rparr>)))"

section \<open>emit\_event\<close>

text \<open>\<open>logging.getLevelName\<close> of the level as it is written; what is no number counts as \<open>INFO\<close>.\<close>

definition emit_level :: "string \<Rightarrow> int" where
  "emit_level level = (case map_of [(''CRITICAL'', 50), (''FATAL'', 50), (''ERROR'', 40), (''WARN'', 30),
       (''WARNING'', 30), (''INFO'', 20), (''DEBUG'', 10), (''NOTSET'', 0)] level of
     Some n \<Rightarrow> n | None \<Rightarrow> 20)"

definition effective_level :: "log_state \<Rightarrow> int" where
  "effective_level c = (if lo_event_level c \<noteq> 0 then lo_event_level c else lo_root_level c)"

definition event_record :: "event_rec \<Rightarrow> log_record" where
  "event_record e = \<lparr>lg_levelname = te_level e, lg_name = ''telemetry.event'', lg_created = te_epoch e, lg_message = [],
     lg_exc_text = None, lg_extras = [], lg_event = Some e\<rparr>"

text \<open>The lines written: the file, and the event that the formatter encodes.\<close>

definition emit_event :: "log_state \<Rightarrow> string option \<times> string option \<Rightarrow> event_rec \<Rightarrow> (string \<times> event_rec) list" where
  "emit_event c ctx e = (let n = emit_level (te_level e) in
     if n < effective_level c then []
     else concat (map (\<lambda>h. case lh_file h of
         Some f \<Rightarrow> if lh_level h \<le> n then [(fh_target f, format_record (fh_service f) ctx (event_record e))] else []
       | None \<Rightarrow> []) (lo_handlers c)))"

section \<open>The events of errors (exception\_middleware.py)\<close>

text \<open>What the error handler finds: the context, when there is one, the request, and the texts of the error and its stack.\<close>

record error_request =
  er_context :: "(string option \<times> string option) option"
  er_method :: string
  er_url :: string
  er_text :: "exn \<Rightarrow> string"
  er_stack :: "exn \<Rightarrow> string"

definition error_event :: "environ \<Rightarrow> rat \<Rightarrow> error_request \<Rightarrow> exn \<Rightarrow> int \<Rightarrow> string \<Rightarrow> event_rec" where
  "error_event env now r e status level = (let ctx = current_context (er_context r) in (mk_event_rec (current_service env) now)
     \<lparr>te_level := level, te_kind := KIND_LOG, te_trace_id := fst ctx, te_user_id := snd ctx, te_method := Some (er_method r),
      te_url := Some (er_url r), te_status_code := Some status, te_message := Some (mask_text (er_text r e)),
      te_traceback := Some (mask_text (er_stack r e))\<rparr>)"

text \<open>The status and level \<open>exception_handler\<close> reports an error with.\<close>

definition reported_as :: "exn \<Rightarrow> int \<times> string" where
  "reported_as e = (case e of
     AppException x \<Rightarrow> (400, ''WARNING'')
   | ValidationError errs \<Rightarrow> (422, ''WARNING'')
   | HTTPException st det extra \<Rightarrow> (st, if 500 \<le> st then ''ERROR'' else ''WARNING'')
   | _ \<Rightarrow> (500, ''ERROR''))"

text \<open>
  The whole handler: \<open>sink\<close> is what emitting the event does to the rest of the process, an error included, which
  \<open>_emit_error_event\<close> swallows.
\<close>

definition handle_error :: "(event_rec \<Rightarrow> ('w, exn, unit) prog) \<Rightarrow> environ \<Rightarrow> rat \<Rightarrow> error_request \<Rightarrow> bool \<Rightarrow> (exn \<Rightarrow> error_context)
    \<Rightarrow> exn \<Rightarrow> ('w, exn, response) prog" where
  "handle_error sink env now r debug ctx e = (case reported_as e of (status, level) \<Rightarrow>
     py_bind (py_catch (sink (error_event env now r e status level)) (\<lambda>_. py_ret ())) (\<lambda>_.
     py_ret (exception_handler debug ctx e)))"

section \<open>What is shown\<close>

lemma add_mask_once [simp]: "add_mask (add_mask h) = add_mask h"
  by (simp add: add_mask_def is_telemetry_def)

lemma add_mask_telemetry [simp]: "is_telemetry (add_mask h) = is_telemetry h"
  by (simp add: add_mask_def is_telemetry_def)

lemma add_mask_of_telemetry [simp]: "is_telemetry h \<Longrightarrow> add_mask h = h"
  by (simp add: add_mask_def)

lemma add_mask_masks: "\<not> is_telemetry h \<Longrightarrow> lh_masks (add_mask h)"
  by (simp add: add_mask_def)

lemma env_int_cases: "env_int env name d = d \<or> (\<exists>s. env name = Some s \<and> py_int s = Some (env_int env name d))"
  by (auto simp: env_int_def split: option.splits)

lemma prepared_handlers [simp]: "lo_handlers (prepare_root service c) = map add_mask (lo_handlers c)"
  by (simp add: prepare_root_def Let_def split: option.split)

lemma prepared_telemetry [simp]: "list_ex is_telemetry (map add_mask hs) = list_ex is_telemetry hs"
  by (simp add: list_ex_iff)

lemma prepared_again: "prepare_root service (prepare_root service c) = prepare_root service c"
proof (cases service)
  case None
  then show ?thesis by (simp add: prepare_root_def comp_def Let_def)
next
  case (Some s)
  show ?thesis
  proof (cases "s = [] \<or> lo_env c ''TELEMETRY_SERVICE'' \<noteq> None")
    case True
    then show ?thesis using Some by (simp add: prepare_root_def comp_def Let_def)
  next
    case False
    then show ?thesis using Some by (simp add: prepare_root_def comp_def Let_def)
  qed
qed

lemma prepared_event_level: "prepare_root service (c\<lparr>lo_event_level := n\<rparr>) = (prepare_root service c)\<lparr>lo_event_level := n\<rparr>"
  by (simp add: prepare_root_def Let_def split: option.split)

lemma prepared_more_handlers:
  "prepare_root service (c\<lparr>lo_handlers := hs\<rparr>) = (prepare_root service c)\<lparr>lo_handlers := map add_mask hs\<rparr>"
  by (simp add: prepare_root_def Let_def split: option.split)

text \<open>What an installation that returns leaves behind: a handler of ours, one at most if there was none, and masks on all others.\<close>

lemma installed:
  assumes "install_root_handler kind_of service c = (Ret (), c')"
  obtains hs where "c' = (prepare_root service c)\<lparr>lo_handlers := map add_mask (lo_handlers c) @ hs, lo_event_level := 10\<rparr>"
    "if list_ex is_telemetry (lo_handlers c) then hs = []
     else \<exists>f. hs = [\<lparr>lh_level = 0, lh_masks = False, lh_file = Some f\<rparr>]"
proof (cases "list_ex is_telemetry (lo_handlers c)")
  case True
  then have "c' = (prepare_root service c)\<lparr>lo_handlers := map add_mask (lo_handlers c) @ [], lo_event_level := 10\<rparr>"
    using assms prepared_handlers [of service c] by (simp add: install_root_handler_def Let_def del: prepared_handlers) (metis log_state.surjective log_state.update_convs(4))
  then show thesis using True that [of "[]"] by simp
next
  case False
  then obtain f where "c' = (prepare_root service c)\<lparr>lo_handlers := map add_mask (lo_handlers c)
      @ [\<lparr>lh_level = 0, lh_masks = False, lh_file = Some f\<rparr>], lo_event_level := 10\<rparr>"
    using assms by (auto simp: install_root_handler_def Let_def split: outcome.splits prod.splits)
  then show thesis using False that by auto
qed

lemma telemetry_handler [simp]: "is_telemetry \<lparr>lh_level = n, lh_masks = b, lh_file = Some f\<rparr>"
  by (simp add: is_telemetry_def)

lemma installed_again:
  assumes "install_root_handler kind_of service c = (Ret (), c')"
  shows "install_root_handler kind_of service c' = (Ret (), c')"
proof -
  obtain hs where c': "c' = (prepare_root service c)\<lparr>lo_handlers := map add_mask (lo_handlers c) @ hs, lo_event_level := 10\<rparr>"
    and hs: "if list_ex is_telemetry (lo_handlers c) then hs = []
     else \<exists>f. hs = [\<lparr>lh_level = 0, lh_masks = False, lh_file = Some f\<rparr>]"
    using assms by (rule installed)
  have "prepare_root service c' = c'"
    using hs by (auto simp: c' prepared_event_level prepared_more_handlers prepared_again split: if_splits)
  moreover have "list_ex is_telemetry (lo_handlers c')"
    using hs by (auto simp: c' split: if_splits)
  ultimately show ?thesis by (simp add: install_root_handler_def) (simp add: c')
qed

lemma installed_masks:
  assumes "install_root_handler kind_of service c = (Ret (), c')" "h \<in> set (lo_handlers c')"
  shows "is_telemetry h \<or> lh_masks h"
proof -
  obtain hs where "c' = (prepare_root service c)\<lparr>lo_handlers := map add_mask (lo_handlers c) @ hs, lo_event_level := 10\<rparr>"
    and "if list_ex is_telemetry (lo_handlers c) then hs = []
     else \<exists>f. hs = [\<lparr>lh_level = 0, lh_masks = False, lh_file = Some f\<rparr>]"
    using assms(1) by (rule installed)
  then show ?thesis using assms(2) by (auto simp: is_telemetry_def add_mask_def split: if_splits)
qed

text \<open>An event from \<open>DEBUG\<close> on is written once, as it is, to the one file of a process that had no handler of ours before.\<close>

lemma installed_writes:
  assumes "install_root_handler kind_of service c = (Ret (), c')" "\<not> list_ex is_telemetry (lo_handlers c)"
  obtains path where "\<And>ctx e. 10 \<le> emit_level (te_level e) \<Longrightarrow> emit_event c' ctx e = [(path, e)]"
proof -
  obtain f where c': "c' = (prepare_root service c)\<lparr>lo_handlers := map add_mask (lo_handlers c)
      @ [\<lparr>lh_level = 0, lh_masks = False, lh_file = Some f\<rparr>], lo_event_level := 10\<rparr>"
    using assms(1) by (rule installed) (use assms(2) in auto)
  have none: "concat (map (\<lambda>h. case lh_file h of None \<Rightarrow> [] | Some f \<Rightarrow> g h f) (map add_mask (lo_handlers c))) = []" for g
    using assms(2) by (auto simp: list_ex_iff is_telemetry_def add_mask_def split: option.splits)
  show thesis
    by (rule that [of "fh_target f"])
       (use none in \<open>simp add: emit_event_def effective_level_def Let_def c' format_record_def event_record_def\<close>)
qed

section \<open>Errors are answered and reported\<close>

lemma reported_status: "fst (reported_as e) = rs_status (exception_handler debug ctx e)"
  by (cases e) (simp_all add: reported_as_def exception_handler_def)

lemma reported_level: "snd (reported_as e) = (if 500 \<le> fst (reported_as e) then ''ERROR'' else ''WARNING'')"
  by (cases e) (simp_all add: reported_as_def)

lemma absolute_url_not_excluded:
  "py_startswith u ''http'' \<Longrightarrow> exclude_urls (excluded_prefixes default_exclude_url_prefixes) (e\<lparr>te_url := Some u\<rparr>)"
proof -
  have "excluded_prefixes default_exclude_url_prefixes = [''/healthcheck'', ''/api/v1/docs'', ''/api/v1/get-schema'']"
    by code_simp
  then show "py_startswith u ''http'' \<Longrightarrow> ?thesis"
    by (cases u) (simp_all add: exclude_urls_def py_startswith_def)
qed

lemma handle_error_answers:
  "fst (handle_error sink env now r debug ctx e w) = Ret (exception_handler debug ctx e)"
  by (simp add: handle_error_def py_bind_def py_catch_def py_ret_def split: prod.splits outcome.splits)

text \<open>
  The handler of errors in a process whose log is installed. \<open>append_lines\<close> appends to the lines of the files; any other sink,
  one that raises included, changes nothing of the answer.
\<close>

definition append_lines :: "log_state \<Rightarrow> string option \<times> string option \<Rightarrow> event_rec \<Rightarrow> ((string \<times> event_rec) list, exn, unit) prog" where
  "append_lines c ctx e = (\<lambda>w. (Ret (), w @ emit_event c ctx e))"

definition reported :: "log_state \<Rightarrow> rat \<Rightarrow> error_request \<Rightarrow> exn \<Rightarrow> event_rec" where
  "reported c now r e = error_event (lo_env c) now r e (fst (reported_as e)) (snd (reported_as e))"

lemma reported_fields [simp]:
  "te_level (reported c now r e) = snd (reported_as e)" "te_kind (reported c now r e) = KIND_LOG"
  "te_status_code (reported c now r e) = Some (fst (reported_as e))" "te_url (reported c now r e) = Some (er_url r)"
  "te_message (reported c now r e) = Some (mask_text (er_text r e))"
  "te_traceback (reported c now r e) = Some (mask_text (er_stack r e))"
  by (simp_all add: reported_def error_event_def Let_def)

lemma reported_dispatch:
  assumes "level_no (tc_min_level tel) \<le> 30" "tc_telegram_min_level tel = ''ERROR''"
    "tc_exclude_url_prefixes tel = default_exclude_url_prefixes" "py_startswith (er_url r) ''http''"
    "tc_postgres_enabled tel" "tc_telegram_enabled tel" "telegram_enabled tg"
  shows "dispatch (build_composer tel tg) (reported c now r e) =
    ''postgres'' # (if 500 \<le> fst (reported_as e) then [''telegram''] else [])"
proof -
  let ?e = "reported c now r e"
  have n: "level_no ''ERROR'' = 40" "level_no ''WARNING'' = 30" by code_simp+
  have "?e = ?e\<lparr>te_url := Some (er_url r)\<rparr>" by (simp add: reported_def error_event_def Let_def)
  then have "exclude_urls (excluded_prefixes (tc_exclude_url_prefixes tel)) ?e"
    using absolute_url_not_excluded [OF assms(4)] assms(3) by metis
  moreover have "min_level (tc_min_level tel) ?e"
    using assms(1) by (simp add: min_level_def reported_level n)
  moreover have "telegram_route ''ERROR'' ?e \<longleftrightarrow> 500 \<le> fst (reported_as e)"
    by (simp add: telegram_route_def min_level_def status_at_least_def reported_level n KIND_LOG_def KIND_SYSTEM_def)
  ultimately show ?thesis using assms by (simp add: dispatch_def build_composer_def)
qed

text \<open>
  Claim C21. Every error that reaches the handler is answered and reported. Whatever becomes of the event, the client
  gets the answer of \<open>exception_handler\<close>. In a process that had no file handler before the installation, exactly one
  line is written, to the one file: it carries the status of the answer, \<open>ERROR\<close> exactly for a status of 500 and
  more, and the message and the stack with their secrets masked. The daemon with the default exclusions stores it in
  the database, and tells Telegram exactly of the statuses of 500 and more. A second installation changes nothing.
\<close>

theorem errors_reported:
  assumes "install_root_handler kind_of service c = (Ret (), c')" "\<not> list_ex is_telemetry (lo_handlers c)"
    and "level_no (tc_min_level tel) \<le> 30" "tc_telegram_min_level tel = ''ERROR''"
    "tc_exclude_url_prefixes tel = default_exclude_url_prefixes" "py_startswith (er_url r) ''http''"
    "tc_postgres_enabled tel" "tc_telegram_enabled tel" "telegram_enabled tg"
  shows "install_root_handler kind_of service c' = (Ret (), c')
    \<and> fst (handle_error sink env now r debug ctx e w) = Ret (exception_handler debug ctx e)
    \<and> (\<exists>path. \<forall>w now e. let ans = exception_handler debug ctx e; ev = reported c' now r e
      in handle_error (append_lines c' ids) (lo_env c') now r debug ctx e w = (Ret ans, w @ [(path, ev)])
       \<and> te_status_code ev = Some (rs_status ans) \<and> te_level ev = (if 500 \<le> rs_status ans then ''ERROR'' else ''WARNING'')
       \<and> te_message ev = Some (mask_text (er_text r e)) \<and> te_traceback ev = Some (mask_text (er_stack r e))
       \<and> dispatch (build_composer tel tg) ev = ''postgres'' # (if 500 \<le> rs_status ans then [''telegram''] else []))"
proof -
  have again: "install_root_handler kind_of service c' = (Ret (), c')" using assms(1) by (rule installed_again)
  have answered: "fst (handle_error sink env now r debug ctx e w) = Ret (exception_handler debug ctx e)"
    by (rule handle_error_answers)
  obtain path where path: "\<And>ctx e. 10 \<le> emit_level (te_level e) \<Longrightarrow> emit_event c' ctx e = [(path, e)]"
    using installed_writes [OF assms(1,2)] by blast
  have n: "emit_level ''ERROR'' = 40" "emit_level ''WARNING'' = 30" by code_simp+
  have "10 \<le> emit_level (te_level (reported c' now r e))" for now e by (simp add: reported_level n)
  then have "emit_event c' ids (reported c' now r e) = [(path, reported c' now r e)]" for now e by (rule path)
  then have "handle_error (append_lines c' ids) (lo_env c') now r debug ctx e w
      = (Ret (exception_handler debug ctx e), w @ [(path, reported c' now r e)])" for w now e
    by (simp add: handle_error_def py_bind_def py_catch_def py_ret_def append_lines_def reported_def case_prod_beta)
  then have "\<exists>path. \<forall>w now e. let ans = exception_handler debug ctx e; ev = reported c' now r e
      in handle_error (append_lines c' ids) (lo_env c') now r debug ctx e w = (Ret ans, w @ [(path, ev)])
       \<and> te_status_code ev = Some (rs_status ans) \<and> te_level ev = (if 500 \<le> rs_status ans then ''ERROR'' else ''WARNING'')
       \<and> te_message ev = Some (mask_text (er_text r e)) \<and> te_traceback ev = Some (mask_text (er_stack r e))
       \<and> dispatch (build_composer tel tg) ev = ''postgres'' # (if 500 \<le> rs_status ans then [''telegram''] else [])"
    using reported_dispatch [OF assms(3-9)] by (auto simp: Let_def reported_level simp flip: reported_status)
  with again answered show ?thesis by blast
qed

definition sample_logs :: log_state where
  "sample_logs = \<lparr>lo_env = (\<lambda>x. None), lo_root_level = 30, lo_event_level = 0,
     lo_handlers = [\<lparr>lh_level = 0, lh_masks = False, lh_file = None\<rparr>]\<rparr>"

definition sample_error :: error_request where
  "sample_error = \<lparr>er_context = None, er_method = ''GET'', er_url = ''http://localhost/api/v1/users'',
     er_text = (\<lambda>e. ''token=abc''), er_stack = (\<lambda>e. ''Traceback'')\<rparr>"

lemma sample_installed: "install_root_handler (\<lambda>p. Absent) (Some ''api'') sample_logs = (Ret (), \<lparr>lo_env = [''TELEMETRY_SERVICE'' \<mapsto> ''api''],
    lo_root_level = 20, lo_event_level = 10, lo_handlers = [\<lparr>lh_level = 0, lh_masks = True, lh_file = None\<rparr>,
      \<lparr>lh_level = 0, lh_masks = False, lh_file = Some \<lparr>fh_service = ''api'', fh_target = ''logs/api/api.log.json'',
        fh_max_bytes = 5242880, fh_backup_count = 5\<rparr>\<rparr>]\<rparr>)"
  by (simp add: install_root_handler_def prepare_root_def sample_logs_def mk_file_handler_def Let_def add_mask_def is_telemetry_def
    log_dir_def current_service_def env_int_def default_max_bytes_def default_backup_count_def)

definition sample_writers :: "telemetry_config \<times> telegram_config" where
  "sample_writers = (default_telemetry_config\<lparr>tc_telegram_enabled := True\<rparr>,
     \<lparr>tg_bot_token = Some ''t'', tg_chat_id = Some ''1'', tg_system_chat_id = None, tg_service_routes = [], tg_level_routes = [],
      tg_global_rate = 30, tg_per_chat_rate = 1\<rparr>)"

definition sample_context :: "exn \<Rightarrow> error_context" where
  "sample_context e = \<lparr>ec_text = ''down'', ec_trace_id = [], ec_user_id = [], ec_url = [], ec_method = []\<rparr>"

theorem errors_reported_witness:
  "\<exists>c' path. let e = HTTPException 503 ''down'' VNone; ev = reported c' 0 sample_error e
     in install_root_handler (\<lambda>p. Absent) (Some ''api'') sample_logs = (Ret (), c')
       \<and> handle_error (append_lines c' (None, None)) (lo_env c') 0 sample_error False sample_context e []
         = (Ret (exception_handler False sample_context e), [(path, ev)])
       \<and> te_message ev = Some ''token=***''
       \<and> dispatch (build_composer (fst sample_writers) (snd sample_writers)) ev = [''postgres'', ''telegram'']"
proof -
  let ?e = "HTTPException 503 ''down'' VNone"
  obtain c' where c': "install_root_handler (\<lambda>p. Absent) (Some ''api'') sample_logs = (Ret (), c')"
    using sample_installed by blast
  have none: "\<not> list_ex is_telemetry (lo_handlers sample_logs)" by (simp add: sample_logs_def is_telemetry_def)
  have level: "level_no (tc_min_level (fst sample_writers)) \<le> 30" by code_simp
  have url: "py_startswith (er_url sample_error) ''http''" by code_simp
  have masked: "mask_text (er_text sample_error ?e) = ''token=***''" by code_simp
  have status: "rs_status (exception_handler False sample_context ?e) = 503" by (simp add: exception_handler_def)
  have settings: "tc_telegram_min_level (fst sample_writers) = ''ERROR''"
    "tc_exclude_url_prefixes (fst sample_writers) = default_exclude_url_prefixes"
    "tc_postgres_enabled (fst sample_writers)" "tc_telegram_enabled (fst sample_writers)"
    by (simp_all add: sample_writers_def default_telemetry_config_def)
  have enabled: "telegram_enabled (snd sample_writers)" by code_simp
  obtain path where path: "\<forall>w now e. let ans = exception_handler False sample_context e; ev = reported c' now sample_error e
      in handle_error (append_lines c' (None, None)) (lo_env c') now sample_error False sample_context e w = (Ret ans, w @ [(path, ev)])
       \<and> te_status_code ev = Some (rs_status ans) \<and> te_level ev = (if 500 \<le> rs_status ans then ''ERROR'' else ''WARNING'')
       \<and> te_message ev = Some (mask_text (er_text sample_error e)) \<and> te_traceback ev = Some (mask_text (er_stack sample_error e))
       \<and> dispatch (build_composer (fst sample_writers) (snd sample_writers)) ev
         = ''postgres'' # (if 500 \<le> rs_status ans then [''telegram''] else [])"
    using errors_reported [OF c' none level settings(1,2) url settings(3,4) enabled, THEN conjunct2, THEN conjunct2] by (rule exE)
  show ?thesis using spec [OF spec [OF spec [OF path, of "[]"], of 0], of ?e] c' masked status
    by (intro exI [of _ c'] exI [of _ path]) (simp add: Let_def)
qed

end
