(* ===== verification/Daemon.thy ===== *)
theory Daemon
  imports Writers
begin

text \<open>
  The telemetry daemon as a whole (\<open>run\<close> and \<open>_consume\<close> of \<open>runner.py\<close>, \<open>start\<close>, \<open>dispatch\<close> and \<open>aclose\<close> of
  \<open>composer.py\<close>): the reader's polls, their dispatch to the writers, the consumers of the writers and the
  shutdown, as one step relation. A step is what runs between two awaits; the dispatch of all events
  of a poll is one step, since nothing in it waits.
\<close>

section \<open>The environment\<close>

text \<open>
  The composer, the reader's decoder and settings, what the directory is at each poll (an error of the poll is
  a raise), and for each writer its bounds and what \<open>_on_start\<close> comes to.
\<close>

record daemon_env =
  de_composer :: composer
  de_decoder :: decoder
  de_from_end :: bool
  de_dir :: "nat \<Rightarrow> (exn, (string \<times> log_file option) list) outcome"
  de_batch :: "nat \<Rightarrow> nat"
  de_maxsize :: "nat \<Rightarrow> nat"
  de_on_start :: "nat \<Rightarrow> (exn, unit) outcome"

section \<open>Dispatch to the writers\<close>

definition passes_gate :: "composer \<Rightarrow> event_rec \<Rightarrow> bool" where
  "passes_gate c e \<longleftrightarrow> te_kind e = KIND_SYSTEM \<or> pipeline_passes (cm_global c) e"

text \<open>\<open>dispatch\<close> on the writers themselves, one for each route.\<close>

definition dispatch_to :: "composer \<Rightarrow> event_rec writer list \<Rightarrow> event_rec \<Rightarrow> event_rec writer list" where
  "dispatch_to c ws e = (if te_kind e \<noteq> KIND_SYSTEM \<and> \<not> pipeline_passes (cm_global c) e then ws
     else map2 (\<lambda>r w. if snd r e = Ret True then submit e w else w) (cm_routes c) ws)"

definition takes :: "composer \<Rightarrow> nat \<Rightarrow> event_rec \<Rightarrow> bool" where
  "takes c k e \<longleftrightarrow> passes_gate c e \<and> snd (cm_routes c ! k) e = Ret True"

section \<open>The daemon\<close>

text \<open>\<open>run\<close>: opening the writers, waiting for the signal, putting the sentinel of a writer, waiting for its task.\<close>

datatype main_phase = Opening nat | Serving | Putting nat | Joining nat | Closed_Down | Crashed exn

text \<open>The task of \<open>_consume\<close>: not made yet, made, in the executor, asleep, cancelled, or ended by an error nobody asks for.\<close>

datatype consume_phase = Not_Made | Made | Polling | Sleeping | Cancelled | Died exn

record daemon =
  dm_main :: main_phase
  dm_stop :: bool
  dm_consume :: consume_phase
  dm_cursors :: cursors
  dm_polls :: nat
  dm_writers :: "event_rec writer list"
  dm_seen :: "event_rec list"

definition new_daemon :: "daemon_env \<Rightarrow> daemon" where
  "new_daemon E = \<lparr>dm_main = Opening 0, dm_stop = False, dm_consume = Not_Made, dm_cursors = Map.empty, dm_polls = 0,
     dm_writers = map (\<lambda>k. new_writer (de_maxsize E k)) [0..<length (cm_routes (de_composer E))], dm_seen = []\<rparr>"

text \<open>The writers whose consumer task runs.\<close>

definition running :: "main_phase \<Rightarrow> nat \<Rightarrow> bool" where
  "running m k = (case m of Opening i \<Rightarrow> k < i | Closed_Down \<Rightarrow> False | Crashed e \<Rightarrow> False | _ \<Rightarrow> True)"

definition cancelled :: "consume_phase \<Rightarrow> consume_phase" where
  "cancelled c = (case c of Died e \<Rightarrow> Died e | _ \<Rightarrow> Cancelled)"

inductive daemon_step :: "daemon_env \<Rightarrow> daemon \<Rightarrow> daemon \<Rightarrow> bool" for E where
  opens: "dm_main d = Opening i \<Longrightarrow> i < length (dm_writers d) \<Longrightarrow> de_on_start E i = Ret ()
    \<Longrightarrow> daemon_step E d (d\<lparr>dm_main := Opening (Suc i)\<rparr>)"
| open_fails: "dm_main d = Opening i \<Longrightarrow> i < length (dm_writers d) \<Longrightarrow> de_on_start E i = Raise e
    \<Longrightarrow> daemon_step E d (d\<lparr>dm_main := Crashed e\<rparr>)"
| serves: "dm_main d = Opening (length (dm_writers d)) \<Longrightarrow> daemon_step E d (d\<lparr>dm_main := Serving, dm_consume := Made\<rparr>)"
| signal: "\<not> dm_stop d \<Longrightarrow> daemon_step E d (d\<lparr>dm_stop := True\<rparr>)"
| first_poll: "dm_main d = Serving \<Longrightarrow> dm_consume d = Made \<Longrightarrow> daemon_step E d (d\<lparr>dm_consume := Polling\<rparr>)"
| polled: "dm_main d = Serving \<Longrightarrow> dm_consume d = Polling \<Longrightarrow> de_dir E (dm_polls d) = Ret fs
    \<Longrightarrow> collect (de_decoder E) (de_from_end E) fs (dm_cursors d) = (es, cs)
    \<Longrightarrow> daemon_step E d (d\<lparr>dm_cursors := cs, dm_polls := Suc (dm_polls d), dm_consume := (if es = [] then Sleeping else Polling),
          dm_writers := foldl (dispatch_to (de_composer E)) (dm_writers d) es, dm_seen := dm_seen d @ es\<rparr>)"
| poll_fails: "dm_main d = Serving \<Longrightarrow> dm_consume d = Polling \<Longrightarrow> de_dir E (dm_polls d) = Raise e
    \<Longrightarrow> daemon_step E d (d\<lparr>dm_polls := Suc (dm_polls d), dm_consume := Died e\<rparr>)"
| wakes: "dm_main d = Serving \<Longrightarrow> dm_consume d = Sleeping \<Longrightarrow> daemon_step E d (d\<lparr>dm_consume := Polling\<rparr>)"
| stops: "dm_main d = Serving \<Longrightarrow> dm_stop d
    \<Longrightarrow> daemon_step E d (d\<lparr>dm_main := Putting 0, dm_consume := cancelled (dm_consume d)\<rparr>)"
| puts: "dm_main d = Putting i \<Longrightarrow> i < length (dm_writers d) \<Longrightarrow> writer_step (de_batch E i) (dm_writers d ! i) PutSentinel w
    \<Longrightarrow> daemon_step E d (d\<lparr>dm_main := Joining i, dm_writers := (dm_writers d)[i := w]\<rparr>)"
| joins: "dm_main d = Joining i \<Longrightarrow> wr_phase (dm_writers d ! i) = Finished \<Longrightarrow> daemon_step E d (d\<lparr>dm_main := Putting (Suc i)\<rparr>)"
| ends: "dm_main d = Putting (length (dm_writers d)) \<Longrightarrow> daemon_step E d (d\<lparr>dm_main := Closed_Down\<rparr>)"
| consumes: "k < length (dm_writers d) \<Longrightarrow> running (dm_main d) k \<Longrightarrow> by_consumer a \<Longrightarrow> writer_step (de_batch E k) (dm_writers d ! k) a w
    \<Longrightarrow> daemon_step E d (d\<lparr>dm_writers := (dm_writers d)[k := w]\<rparr>)"

section \<open>What has been read\<close>

text \<open>The events of the first polls, and the cursors after them.\<close>

fun polls_done :: "daemon_env \<Rightarrow> nat \<Rightarrow> event_rec list \<times> cursors" where
  "polls_done E 0 = ([], Map.empty)"
| "polls_done E (Suc n) = (case polls_done E n of (es, cs) \<Rightarrow> (case de_dir E n of
       Raise e \<Rightarrow> (es, cs)
     | Ret fs \<Rightarrow> (case collect (de_decoder E) (de_from_end E) fs cs of (es', cs') \<Rightarrow> (es @ es', cs'))))"

text \<open>Dispatching a list of events is submitting to each writer the events it takes.\<close>

lemma dispatch_names: "dispatch c e = map fst (filter (\<lambda>r. passes_gate c e \<and> snd r e = Ret True) (cm_routes c))"
  by (auto simp: dispatch_def passes_gate_def case_prod_unfold)

lemma dispatch_to_length [simp]: "length ws = length (cm_routes c) \<Longrightarrow> length (dispatch_to c ws e) = length ws"
  by (simp add: dispatch_to_def)

lemma dispatch_to_nth:
  "length ws = length (cm_routes c) \<Longrightarrow> k < length ws \<Longrightarrow>
     dispatch_to c ws e ! k = (if takes c k e then submit e (ws ! k) else ws ! k)"
  by (auto simp: dispatch_to_def takes_def passes_gate_def)

lemma dispatch_all_length [simp]: "length ws = length (cm_routes c) \<Longrightarrow> length (foldl (dispatch_to c) ws es) = length ws"
  by (induction es arbitrary: ws) simp_all

lemma dispatch_all_nth:
  "length ws = length (cm_routes c) \<Longrightarrow> k < length ws \<Longrightarrow>
     foldl (dispatch_to c) ws es ! k = foldl (\<lambda>w e. submit e w) (ws ! k) (filter (takes c k) es)"
  by (induction es arbitrary: ws) (simp_all add: dispatch_to_nth)

lemma submits_run:
  "writer_run bs w0 acts w \<Longrightarrow> writer_run bs w0 (acts @ map Submit es) (foldl (\<lambda>w e. submit e w) w es)"
proof (induction es arbitrary: acts w)
  case (Cons e es)
  have "writer_run bs w0 (acts @ [Submit e]) (submit e w)"
    using Cons.prems writer_step.submits by (rule writer_run.one_step)
  from Cons.IH [OF this] show ?case by simp
qed simp

lemma submitted_map [simp]: "submitted (map Submit es) = es"
  by (induction es) (simp_all add: submitted_def)

text \<open>A backlog is dispatched at once: an idle writer keeps what its queue can hold and drops the rest.\<close>

lemma submits_bounded:
  "0 < wr_maxsize w \<Longrightarrow> length (wr_queue w) \<le> wr_maxsize w \<Longrightarrow>
     wr_dropped (foldl (\<lambda>w e. submit e w) w es) = wr_dropped w + (length (wr_queue w) + length es - wr_maxsize w)"
proof (induction es arbitrary: w)
  case (Cons e es)
  show ?case using Cons.prems Cons.IH [of "submit e w"] by (auto simp: submit_def queue_full_def)
qed simp

lemma backlog_dropped:
  "0 < m \<Longrightarrow> wr_dropped (foldl (\<lambda>w e. submit e w) (new_writer m) es) = length es - m"
  using submits_bounded [of "new_writer m" es] by (simp add: new_writer_def)

end
