(* ===== verification/DaemonFlows.thy ===== *)
theory DaemonFlows
  imports Daemon
begin

text \<open>
  What the daemon does with the events it reads, whatever the order of its steps; and that it shuts
  down, with everything handled that its queues had accepted.
\<close>

section \<open>Writers that are open, and writers that are closing\<close>

definition still_open :: "'a writer \<Rightarrow> bool" where
  "still_open w \<longleftrightarrow> Sentinel \<notin> set (wr_queue w) \<and> (wr_phase w = Waiting \<or> (\<exists>h. wr_phase w = Handling h False))"

definition at_end :: "'a writer \<Rightarrow> bool" where
  "at_end w \<longleftrightarrow> (\<exists>es. wr_queue w = map Entry es @ [Sentinel]) \<and> (wr_phase w = Waiting \<or> (\<exists>h. wr_phase w = Handling h False))
     \<or> wr_queue w = [] \<and> (wr_phase w = Finished \<or> (\<exists>h. wr_phase w = Handling h True))"

lemma no_sentinel: "Sentinel \<notin> set q \<Longrightarrow> \<exists>es. q = map Entry es"
proof (induction q)
  case (Cons i q)
  then obtain es where "q = map Entry es" by auto
  then show ?case using Cons.prems by (cases i) (auto intro: exI [of _ "x # es" for x])
qed simp

lemma gather_to_end:
  "gather n (map Entry es @ [Sentinel]) = (hs, b, q) \<Longrightarrow> if b then q = [] else (\<exists>es'. q = map Entry es' @ [Sentinel])"
proof (induction n arbitrary: es hs)
  case 0
  then show ?case by auto
next
  case (Suc n)
  then show ?case by (cases es) (auto split: prod.splits)
qed

lemma new_writer_open: "still_open (new_writer m)"
  by (simp add: still_open_def new_writer_def)

lemma submit_open: "still_open w \<Longrightarrow> still_open (submit e w)"
  by (simp add: still_open_def submit_def)

lemma submits_open: "still_open w \<Longrightarrow> still_open (foldl (\<lambda>w e. submit e w) w es)"
  by (induction es arbitrary: w) (simp_all add: submit_open)

lemma consumer_open:
  assumes "writer_step bs w a w'" "by_consumer a" "still_open w"
  shows "still_open w'"
  using assms
  by (induction rule: writer_step.induct) (auto simp: still_open_def by_consumer_def dest!: gather_spec split: if_splits)

lemma put_ends: "writer_step bs w PutSentinel w' \<Longrightarrow> still_open w \<Longrightarrow> at_end w'"
  by (erule writer_step.cases) (auto simp: still_open_def at_end_def dest: no_sentinel)

lemma consumer_ends:
  assumes "writer_step bs w a w'" "by_consumer a" "at_end w"
  shows "at_end w'"
  using assms
proof (induction rule: writer_step.induct)
  case (takes_sentinel w q)
  then obtain es where "Sentinel # q = map Entry es @ [Sentinel]" by (auto simp: at_end_def)
  then have "q = []" by (cases es) auto
  then show ?case by (simp add: at_end_def)
next
  case (takes_batch w e q hs stopping q')
  then obtain es where "Entry e # q = map Entry es @ [Sentinel]" by (auto simp: at_end_def)
  then obtain es' where "q = map Entry es' @ [Sentinel]" by (cases es) auto
  then show ?case using gather_to_end [of _ es' hs stopping q'] takes_batch(3) by (cases stopping) (auto simp: at_end_def)
next
  case (handled w es stopping a)
  then show ?case by (cases stopping) (auto simp: at_end_def)
qed (auto simp: by_consumer_def)

lemma ended_is_empty: "at_end w \<Longrightarrow> wr_phase w = Finished \<Longrightarrow> wr_queue w = []"
  by (auto simp: at_end_def)

lemma finished_rests: "writer_step bs w a w' \<Longrightarrow> by_consumer a \<Longrightarrow> wr_phase w \<noteq> Finished"
  by (erule writer_step.cases) (auto simp: by_consumer_def)

section \<open>The invariant\<close>

definition sentinel_put :: "main_phase \<Rightarrow> nat \<Rightarrow> bool" where
  "sentinel_put m k = (case m of Putting i \<Rightarrow> k < i | Joining i \<Rightarrow> k \<le> i | Closed_Down \<Rightarrow> True | _ \<Rightarrow> False)"

definition joined :: "main_phase \<Rightarrow> nat \<Rightarrow> bool" where
  "joined m k = (case m of Putting i \<Rightarrow> k < i | Joining i \<Rightarrow> k < i | Closed_Down \<Rightarrow> True | _ \<Rightarrow> False)"

text \<open>The writer \<open>k\<close> has run on exactly the events it takes of those that were seen.\<close>

definition fed :: "daemon_env \<Rightarrow> event_rec list \<Rightarrow> nat \<Rightarrow> event_rec writer \<Rightarrow> bool" where
  "fed E seen k w \<longleftrightarrow> (\<exists>acts. writer_run (de_batch E k) (new_writer (de_maxsize E k)) acts w
     \<and> submitted acts = filter (takes (de_composer E) k) seen)"

definition writer_inv :: "daemon_env \<Rightarrow> daemon \<Rightarrow> nat \<Rightarrow> bool" where
  "writer_inv E d k \<longleftrightarrow> fed E (dm_seen d) k (dm_writers d ! k)
     \<and> (if sentinel_put (dm_main d) k then at_end (dm_writers d ! k) else still_open (dm_writers d ! k))
     \<and> (joined (dm_main d) k \<longrightarrow> wr_phase (dm_writers d ! k) = Finished)"

definition main_inv :: "daemon \<Rightarrow> bool" where
  "main_inv d \<longleftrightarrow> (case dm_main d of
       Opening i \<Rightarrow> i \<le> length (dm_writers d) \<and> dm_consume d = Not_Made
     | Serving \<Rightarrow> dm_consume d \<noteq> Not_Made
     | Crashed e \<Rightarrow> dm_consume d = Not_Made
     | Putting i \<Rightarrow> i \<le> length (dm_writers d) \<and> dm_stop d
     | Joining i \<Rightarrow> i < length (dm_writers d) \<and> dm_stop d
     | Closed_Down \<Rightarrow> dm_stop d)"

definition daemon_inv :: "daemon_env \<Rightarrow> daemon \<Rightarrow> bool" where
  "daemon_inv E d \<longleftrightarrow> length (dm_writers d) = length (cm_routes (de_composer E)) \<and> main_inv d
     \<and> (dm_seen d, dm_cursors d) = polls_done E (dm_polls d) \<and> (\<forall>k < length (dm_writers d). writer_inv E d k)"

lemma fed_new: "fed E [] k (new_writer (de_maxsize E k))"
  unfolding fed_def by (rule exI [of _ "[]"]) (simp add: writer_run.no_step)

lemma fed_step:
  assumes "fed E seen k w" "writer_step (de_batch E k) w a w'" "submitted [a] = []"
  shows "fed E seen k w'"
proof -
  obtain acts where "writer_run (de_batch E k) (new_writer (de_maxsize E k)) acts w"
    "submitted acts = filter (takes (de_composer E) k) seen" using assms(1) by (auto simp: fed_def)
  then show ?thesis unfolding fed_def using assms(2,3)
    by (intro exI [of _ "acts @ [a]"]) (auto intro: writer_run.one_step)
qed

lemma fed_more:
  assumes "fed E seen k w"
  shows "fed E (seen @ es) k (foldl (\<lambda>w e. submit e w) w (filter (takes (de_composer E) k) es))"
proof -
  obtain acts where "writer_run (de_batch E k) (new_writer (de_maxsize E k)) acts w"
    "submitted acts = filter (takes (de_composer E) k) seen" using assms by (auto simp: fed_def)
  then show ?thesis unfolding fed_def
    by (intro exI [of _ "acts @ map Submit (filter (takes (de_composer E) k) es)"]) (auto intro: submits_run)
qed

lemma by_consumer_submits: "by_consumer a \<Longrightarrow> submitted [a] = []"
  by (cases a) (simp_all add: by_consumer_def)

lemma new_daemon_inv: "daemon_inv E (new_daemon E)"
  by (auto simp: daemon_inv_def main_inv_def writer_inv_def new_daemon_def sentinel_put_def joined_def fed_new new_writer_open)

lemma writer_inv_same:
  "writer_inv E d k \<Longrightarrow> dm_writers d' = dm_writers d \<Longrightarrow> dm_seen d' = dm_seen d
     \<Longrightarrow> sentinel_put (dm_main d') k = sentinel_put (dm_main d) k \<Longrightarrow> joined (dm_main d') k = joined (dm_main d) k \<Longrightarrow> writer_inv E d' k"
  by (simp add: writer_inv_def)

lemma daemon_step_inv: "daemon_step E d d' \<Longrightarrow> daemon_inv E d \<Longrightarrow> daemon_inv E d'"
proof (induction rule: daemon_step.induct)
  case (polled d fs es cs)
  let ?ws = "foldl (dispatch_to (de_composer E)) (dm_writers d) es"
  have len: "length (dm_writers d) = length (cm_routes (de_composer E))" using polled by (simp add: daemon_inv_def)
  have "writer_inv E (d\<lparr>dm_cursors := cs, dm_polls := Suc (dm_polls d), dm_consume := (if es = [] then Sleeping else Polling),
      dm_writers := ?ws, dm_seen := dm_seen d @ es\<rparr>) k" if k: "k < length (dm_writers d)" for k
  proof -
    have "writer_inv E d k" using polled k by (simp add: daemon_inv_def)
    then show ?thesis using polled(1) dispatch_all_nth [OF len k, of es]
      by (simp add: writer_inv_def sentinel_put_def joined_def fed_more submits_open)
  qed
  moreover have "polls_done E (dm_polls d) = (dm_seen d, dm_cursors d)" using polled by (simp add: daemon_inv_def)
  ultimately show ?case using polled len by (auto simp: daemon_inv_def main_inv_def)
next
  case (puts d i w)
  have "writer_inv E (d\<lparr>dm_main := Joining i, dm_writers := (dm_writers d)[i := w]\<rparr>) k" if "k < length (dm_writers d)" for k
  proof -
    have "writer_inv E d k" using puts that by (simp add: daemon_inv_def)
    then show ?thesis using puts(1,3) that
      by (cases "k = i") (auto simp: writer_inv_def sentinel_put_def joined_def intro: fed_step put_ends)
  qed
  then show ?case using puts by (auto simp: daemon_inv_def main_inv_def)
next
  case (consumes k d a w)
  have "writer_inv E (d\<lparr>dm_writers := (dm_writers d)[k := w]\<rparr>) j" if "j < length (dm_writers d)" for j
  proof -
    have "writer_inv E d j" using consumes that by (simp add: daemon_inv_def)
    then show ?thesis using consumes(3,4) that finished_rests [OF consumes(4,3)] by_consumer_submits [OF consumes(3)]
      by (cases "j = k") (auto simp: writer_inv_def intro: fed_step consumer_ends consumer_open split: if_splits)
  qed
  then show ?case using consumes by (auto simp: daemon_inv_def main_inv_def split: main_phase.splits)
next
  case (joins d i)
  have "writer_inv E (d\<lparr>dm_main := Putting (Suc i)\<rparr>) k" if "k < length (dm_writers d)" for k
  proof -
    have "writer_inv E d k" using joins that by (simp add: daemon_inv_def)
    then show ?thesis using joins(1,2) by (cases "k = i") (auto simp: writer_inv_def sentinel_put_def joined_def split: if_splits)
  qed
  then show ?case using joins by (auto simp: daemon_inv_def main_inv_def)
next
  case (poll_fails d e)
  moreover have "polls_done E (dm_polls d) = (dm_seen d, dm_cursors d)" using poll_fails by (simp add: daemon_inv_def)
  ultimately show ?case by (auto simp: daemon_inv_def main_inv_def writer_inv_def sentinel_put_def joined_def)
next
  case (ends d)
  then show ?case by (auto simp: daemon_inv_def main_inv_def writer_inv_def sentinel_put_def joined_def)
next
  case (signal d)
  then show ?case by (auto simp: daemon_inv_def main_inv_def writer_inv_def split: main_phase.splits)
qed (auto simp: daemon_inv_def main_inv_def writer_inv_def sentinel_put_def joined_def cancelled_def split: consume_phase.splits)

lemma daemon_run_inv: "(daemon_step E)\<^sup>*\<^sup>* d d' \<Longrightarrow> daemon_inv E d \<Longrightarrow> daemon_inv E d'"
  by (induction rule: rtranclp_induct) (auto intro: daemon_step_inv)

lemma reachable_inv: "(daemon_step E)\<^sup>*\<^sup>* (new_daemon E) d \<Longrightarrow> daemon_inv E d"
  using daemon_run_inv new_daemon_inv by blast

section \<open>What becomes of the events\<close>

text \<open>
  Claim C28. At any moment of any run of the daemon, however its tasks interleave, whatever fails and whenever it is
  told to stop: the events it has seen are those of the polls it made, in order. Each writer was offered exactly
  those of them that the composer routes to it; accepted and dropped ones add up to these; the accepted ones are
  handled, in hand or queued, in the order they were read, none twice. When the daemon has closed down, every
  accepted event was handled.
\<close>

theorem daemon_accounts:
  assumes "(daemon_step E)\<^sup>*\<^sup>* (new_daemon E) d"
  shows "dm_seen d = fst (polls_done E (dm_polls d))
    \<and> length (dm_writers d) = length (cm_routes (de_composer E))
    \<and> (\<forall>k < length (dm_writers d). let w = dm_writers d ! k; mine = filter (takes (de_composer E) k) (dm_seen d)
         in subseq (wr_accepted w) mine \<and> length (wr_accepted w) + wr_dropped w = length mine
          \<and> wr_accepted w = concat (wr_batches w) @ in_hand (wr_phase w) @ entries (wr_queue w)
          \<and> (dm_main d = Closed_Down \<longrightarrow> concat (wr_batches w) = wr_accepted w))"
proof -
  have inv: "daemon_inv E d" using assms by (rule reachable_inv)
  have per: "subseq (wr_accepted w) (filter (takes (de_composer E) k) (dm_seen d))
      \<and> length (wr_accepted w) + wr_dropped w = length (filter (takes (de_composer E) k) (dm_seen d))
      \<and> wr_accepted w = concat (wr_batches w) @ in_hand (wr_phase w) @ entries (wr_queue w)
      \<and> (dm_main d = Closed_Down \<longrightarrow> concat (wr_batches w) = wr_accepted w)"
    if k: "k < length (dm_writers d)" and w: "w = dm_writers d ! k" for k w
  proof -
    have i: "writer_inv E d k" using inv k by (simp add: daemon_inv_def)
    then obtain acts where r: "writer_run (de_batch E k) (new_writer (de_maxsize E k)) acts w"
      and acts: "submitted acts = filter (takes (de_composer E) k) (dm_seen d)" by (auto simp: writer_inv_def fed_def w)
    have ok: "writer_ok (de_batch E k) acts w" using writer_run_ok [OF r refl] .
    have "wr_queue w = [] \<and> wr_phase w = Finished" if "dm_main d = Closed_Down"
      using i that ended_is_empty by (auto simp: writer_inv_def sentinel_put_def joined_def w)
    then show ?thesis using ok acts by (auto simp: writer_ok_def)
  qed
  have "(dm_seen d, dm_cursors d) = polls_done E (dm_polls d)" using inv by (simp add: daemon_inv_def)
  from arg_cong [OF this, of fst] have "dm_seen d = fst (polls_done E (dm_polls d))" by simp
  moreover have "length (dm_writers d) = length (cm_routes (de_composer E))" using inv by (simp add: daemon_inv_def)
  ultimately show ?thesis unfolding Let_def using per [OF _ refl] by blast
qed

section \<open>Shutting down\<close>

definition closing_down :: "main_phase \<Rightarrow> bool" where
  "closing_down m = (case m of Putting i \<Rightarrow> True | Joining i \<Rightarrow> True | Closed_Down \<Rightarrow> True | _ \<Rightarrow> False)"

text \<open>A bound of the steps that remain: for every entry of a queue its taking and its handling, for every writer its sentinel and its end.\<close>

definition drain :: "'a writer \<Rightarrow> nat" where
  "drain w = 2 * length (wr_queue w) + (case wr_phase w of Handling h b \<Rightarrow> 1 | _ \<Rightarrow> 0)"

definition main_work :: "nat \<Rightarrow> main_phase \<Rightarrow> nat" where
  "main_work n m = (case m of Putting i \<Rightarrow> 4 * (n - i) + 1 | Joining i \<Rightarrow> 4 * (n - i) - 2 | _ \<Rightarrow> 0)"

definition shutdown_bound :: "daemon \<Rightarrow> nat" where
  "shutdown_bound d = sum_list (map drain (dm_writers d)) + main_work (length (dm_writers d)) (dm_main d)"

lemma drain_consumer: "writer_step bs w a w' \<Longrightarrow> by_consumer a \<Longrightarrow> drain w' < drain w"
  by (induction rule: writer_step.induct) (auto simp: drain_def by_consumer_def dest!: gather_spec split: if_splits)

lemma drain_put: "writer_step bs w PutSentinel w' \<Longrightarrow> drain w' = drain w + 2"
  by (erule writer_step.cases) (auto simp: drain_def)

lemma sum_update:
  assumes "k < length xs"
  shows "sum_list (map f (xs[k := y])) + f (xs ! k) = sum_list (map f xs) + (f y :: nat)"
  using elem_le_sum_list [of k "map f xs"] assms by (simp add: map_update sum_list_update)

lemma closing_down_step:
  assumes "daemon_step E d d'" "daemon_inv E d" "closing_down (dm_main d)"
  shows "closing_down (dm_main d') \<and> shutdown_bound d' < shutdown_bound d \<and> dm_seen d' = dm_seen d
    \<and> map wr_accepted (dm_writers d') = map wr_accepted (dm_writers d)"
  using assms
proof (induction rule: daemon_step.induct)
  case (puts d i w)
  have "wr_accepted w = wr_accepted (dm_writers d ! i)" using puts(3) by (cases rule: writer_step.cases) auto
  then show ?case using puts(1,2) drain_put [OF puts(3)] sum_update [OF puts(2), of drain w]
    by (auto simp: closing_down_def shutdown_bound_def main_work_def map_update list_update_same_conv)
next
  case (consumes k d a w)
  have "wr_accepted w = wr_accepted (dm_writers d ! k)" using consumes(4,3) by (cases rule: writer_step.cases) (auto simp: by_consumer_def)
  then show ?case using consumes(1,6) drain_consumer [OF consumes(4,3)] sum_update [OF consumes(1), of drain w]
    by (auto simp: closing_down_def shutdown_bound_def map_update list_update_same_conv)
next
  case (joins d i)
  then show ?case by (auto simp: closing_down_def shutdown_bound_def main_work_def daemon_inv_def main_inv_def)
qed (auto simp: closing_down_def shutdown_bound_def main_work_def daemon_inv_def main_inv_def split: main_phase.splits)

lemma closing_down_run:
  assumes "(daemon_step E ^^ n) d d'" "daemon_inv E d" "closing_down (dm_main d)"
  shows "closing_down (dm_main d') \<and> daemon_inv E d' \<and> shutdown_bound d' + n \<le> shutdown_bound d
    \<and> map wr_accepted (dm_writers d') = map wr_accepted (dm_writers d)"
  using assms
proof (induction n arbitrary: d')
  case (Suc n)
  then obtain d1 where d1: "(daemon_step E ^^ n) d d1" "daemon_step E d1 d'" by auto
  then show ?case using Suc closing_down_step [OF d1(2)] daemon_step_inv [OF d1(2)] by fastforce
qed simp

lemma consumer_goes_on:
  assumes "wr_phase w \<noteq> Finished" "wr_phase w \<noteq> Waiting \<or> wr_queue w \<noteq> []"
  shows "\<exists>a w'. by_consumer a \<and> writer_step bs w a w'"
proof (cases "wr_phase w")
  case Waiting
  then obtain i q where q: "wr_queue w = i # q" using assms(2) by (cases "wr_queue w") auto
  obtain es b q' where g: "gather (max 1 bs - 1) q = (es, b, q')" by (metis prod_cases3)
  have "\<exists>w'. writer_step bs w Take w'"
    using writer_step.takes_sentinel [OF Waiting, of q] writer_step.takes_batch [OF Waiting _ g] q by (cases i) auto
  then show ?thesis by (intro exI [of _ Take]) (auto simp: by_consumer_def)
next
  case (Handling es b)
  then have "\<exists>w'. writer_step bs w HandledOk w'" by (auto intro: writer_step.handled)
  then show ?thesis by (intro exI [of _ HandledOk]) (auto simp: by_consumer_def)
qed (use assms in simp)

lemma closing_down_live:
  assumes "daemon_inv E d" "closing_down (dm_main d)" "dm_main d \<noteq> Closed_Down"
  shows "\<exists>d'. daemon_step E d d'"
proof (cases "dm_main d")
  case (Putting i)
  show ?thesis
  proof (cases "i < length (dm_writers d)")
    case False
    then have "i = length (dm_writers d)" using assms(1) Putting by (simp add: daemon_inv_def main_inv_def)
    then show ?thesis using daemon_step.ends Putting by blast
  next
    case True
    show ?thesis
    proof (cases "queue_full (dm_writers d ! i)")
      case False
      from writer_step.puts_sentinel [OF this] show ?thesis using daemon_step.puts [OF Putting True] by blast
    next
      case full: True
      have "still_open (dm_writers d ! i)" using assms(1) Putting True by (auto simp: daemon_inv_def writer_inv_def sentinel_put_def)
      moreover have "wr_queue (dm_writers d ! i) \<noteq> []" using full by (auto simp: queue_full_def)
      ultimately obtain a w where "by_consumer a" "writer_step (de_batch E i) (dm_writers d ! i) a w"
        using consumer_goes_on [of "dm_writers d ! i" "de_batch E i"] unfolding still_open_def by auto
      then show ?thesis using daemon_step.consumes [OF True] Putting by (fastforce simp: running_def)
    qed
  qed
next
  case (Joining i)
  then have i: "i < length (dm_writers d)" "at_end (dm_writers d ! i)"
    using assms(1) by (auto simp: daemon_inv_def main_inv_def writer_inv_def sentinel_put_def)
  show ?thesis
  proof (cases "wr_phase (dm_writers d ! i) = Finished")
    case True
    then show ?thesis using daemon_step.joins [OF Joining] by blast
  next
    case False
    then obtain a w where "by_consumer a" "writer_step (de_batch E i) (dm_writers d ! i) a w"
      using consumer_goes_on [OF False, of "de_batch E i"] i(2) unfolding at_end_def by auto
    then show ?thesis using daemon_step.consumes [OF i(1)] Joining by (fastforce simp: running_def)
  qed
qed (use assms in \<open>auto simp: closing_down_def\<close>)

text \<open>
  Claim C29. Once the daemon has been told to stop it closes down: whatever the order of the steps and however the
  handling of a batch ends, at most two steps for each queued event and a few for each writer remain, some step is
  possible until all writers are closed, and then every event accepted before was handled, and no other.
\<close>

theorem daemon_closes:
  assumes "(daemon_step E)\<^sup>*\<^sup>* (new_daemon E) d" "closing_down (dm_main d)"
  shows "((daemon_step E ^^ n) d d' \<longrightarrow> n \<le> shutdown_bound d)
    \<and> ((daemon_step E)\<^sup>*\<^sup>* d d' \<and> (\<nexists>d''. daemon_step E d' d'') \<longrightarrow> dm_main d' = Closed_Down
        \<and> map (concat \<circ> wr_batches) (dm_writers d') = map wr_accepted (dm_writers d))"
proof (intro conjI impI)
  have inv: "daemon_inv E d" using assms(1) by (rule reachable_inv)
  show "n \<le> shutdown_bound d" if "(daemon_step E ^^ n) d d'" using closing_down_run [OF that inv assms(2)] by simp
  assume r: "(daemon_step E)\<^sup>*\<^sup>* d d' \<and> (\<nexists>d''. daemon_step E d' d'')"
  then obtain m where "(daemon_step E ^^ m) d d'" by (auto simp: rtranclp_power)
  note run = closing_down_run [OF this inv assms(2)]
  then show main: "dm_main d' = Closed_Down" using closing_down_live r by blast
  have "concat (wr_batches w) = wr_accepted w" if w: "w \<in> set (dm_writers d')" for w
  proof -
    obtain k where k: "k < length (dm_writers d')" "w = dm_writers d' ! k" using w by (auto simp: in_set_conv_nth)
    then have i: "writer_inv E d' k" using run by (simp add: daemon_inv_def)
    then have "wr_queue w = []" "wr_phase w = Finished"
      using main k(2) ended_is_empty by (auto simp: writer_inv_def sentinel_put_def joined_def)
    moreover obtain acts where "writer_run (de_batch E k) (new_writer (de_maxsize E k)) acts w"
      using i k(2) by (auto simp: writer_inv_def fed_def)
    ultimately show ?thesis using writer_run_ok by (fastforce simp: writer_ok_def)
  qed
  then show "map (concat \<circ> wr_batches) (dm_writers d') = map wr_accepted (dm_writers d)" using run by (auto cong: map_cong)
qed

text \<open>An error while a file is read ends the reading for good, and nothing tells: the daemon goes on waiting for the signal.\<close>

lemma died_step: "daemon_step E d d' \<Longrightarrow> dm_consume d = Died e \<Longrightarrow> dm_main d \<noteq> Opening (length (dm_writers d))
    \<Longrightarrow> dm_consume d' = Died e \<and> dm_seen d' = dm_seen d"
  by (induction rule: daemon_step.induct) (auto simp: cancelled_def)

lemma reading_ends_for_good:
  assumes "(daemon_step E)\<^sup>*\<^sup>* (new_daemon E) d" "dm_consume d = Died e" "(daemon_step E)\<^sup>*\<^sup>* d d'"
  shows "dm_consume d' = Died e \<and> dm_seen d' = dm_seen d"
  using assms(3)
proof (induction rule: rtranclp_induct)
  case (step d1 d2)
  have "daemon_inv E d1" using daemon_run_inv [OF step(1) reachable_inv [OF assms(1)]] .
  then have "dm_main d1 \<noteq> Opening (length (dm_writers d1))" using step(3) by (auto simp: daemon_inv_def main_inv_def)
  then show ?case using died_step [OF step(2)] step(3) by simp
qed (simp add: assms(2))

section \<open>A sample\<close>

text \<open>One writer with a queue of one, and a file with two lines.\<close>

definition sample_daemon :: daemon_env where
  "sample_daemon = \<lparr>de_composer = \<lparr>cm_global = [min_level ''INFO''], cm_routes = [(''postgres'', \<lambda>e. Ret True)]\<rparr>,
     de_decoder = plain_decoder, de_from_end = False, de_dir = (\<lambda>k. Ret [(''logs/api.log.json'', Some (snapshot [97, 10, 98, 10]))]),
     de_batch = (\<lambda>k. 5), de_maxsize = (\<lambda>k. 1), de_on_start = (\<lambda>k. Ret ())\<rparr>"

definition sample_read :: "event_rec list \<times> cursors" where
  "sample_read = collect plain_decoder False [(''logs/api.log.json'', Some (snapshot [97, 10, 98, 10]))] Map.empty"

definition sample_serving :: daemon where
  "sample_serving = \<lparr>dm_main = Serving, dm_stop = False, dm_consume = Polling, dm_cursors = snd sample_read, dm_polls = 1,
     dm_writers = foldl (dispatch_to (de_composer sample_daemon)) [new_writer 1] (fst sample_read), dm_seen = fst sample_read\<rparr>"

lemma sample_messages: "map te_message (fst sample_read) = [Some ''a'', Some ''b'']"
  "filter (takes (de_composer sample_daemon) 0) (fst sample_read) = fst sample_read"
proof -
  show "map te_message (fst sample_read) = [Some ''a'', Some ''b'']" by code_simp
  have "list_all (takes (de_composer sample_daemon) 0) (fst sample_read)" by code_simp
  then show "filter (takes (de_composer sample_daemon) 0) (fst sample_read) = fst sample_read"
    by (simp add: list_all_iff filter_id_conv)
qed

lemma sample_reached: "(daemon_step sample_daemon)\<^sup>*\<^sup>* (new_daemon sample_daemon) sample_serving"
proof -
  let ?d0 = "new_daemon sample_daemon"
  let ?d1 = "?d0\<lparr>dm_main := Opening 1\<rparr>" and ?d2 = "?d0\<lparr>dm_main := Serving, dm_consume := Made\<rparr>"
  let ?d3 = "?d0\<lparr>dm_main := Serving, dm_consume := Polling\<rparr>"
  have w: "dm_writers ?d0 = [new_writer 1]" by (simp add: new_daemon_def sample_daemon_def)
  have s1: "daemon_step sample_daemon ?d0 ?d1"
    using daemon_step.opens [of ?d0 0 sample_daemon] w by (simp add: new_daemon_def sample_daemon_def)
  have s2: "daemon_step sample_daemon ?d1 ?d2"
    using daemon_step.serves [of ?d1 sample_daemon] w by simp
  have s3: "daemon_step sample_daemon ?d2 ?d3"
    using daemon_step.first_poll [of ?d2 sample_daemon] by simp
  have ne: "fst sample_read \<noteq> []" using sample_messages(1) by auto
  have col: "collect (de_decoder sample_daemon) (de_from_end sample_daemon)
      [(''logs/api.log.json'', Some (snapshot [97, 10, 98, 10]))] (dm_cursors ?d3) = (fst sample_read, snd sample_read)"
    by (simp add: sample_daemon_def sample_read_def new_daemon_def)
  have dir: "de_dir sample_daemon (dm_polls ?d3) = Ret [(''logs/api.log.json'', Some (snapshot [97, 10, 98, 10]))]"
    by (simp add: sample_daemon_def)
  have "?d3\<lparr>dm_cursors := snd sample_read, dm_polls := Suc (dm_polls ?d3), dm_consume := (if fst sample_read = [] then Sleeping else Polling),
      dm_writers := foldl (dispatch_to (de_composer sample_daemon)) (dm_writers ?d3) (fst sample_read),
      dm_seen := dm_seen ?d3 @ fst sample_read\<rparr> = sample_serving"
    using ne w by (simp add: sample_serving_def) (simp add: new_daemon_def)
  with daemon_step.polled [OF _ _ dir col] have s4: "daemon_step sample_daemon ?d3 sample_serving" by simp
  from rtranclp.rtrancl_into_rtrancl [OF r_into_rtranclp [of "daemon_step sample_daemon", OF s1] s2]
  have "(daemon_step sample_daemon)\<^sup>*\<^sup>* ?d0 ?d2" .
  from rtranclp.rtrancl_into_rtrancl [OF this s3] have "(daemon_step sample_daemon)\<^sup>*\<^sup>* ?d0 ?d3" .
  from rtranclp.rtrancl_into_rtrancl [OF this s4] show ?thesis .
qed

theorem daemon_accounts_witness:
  "map te_message (dm_seen sample_serving) = [Some ''a'', Some ''b'']
   \<and> length (wr_accepted (dm_writers sample_serving ! 0)) + wr_dropped (dm_writers sample_serving ! 0) = 2"
proof -
  have pos: "0 < length (dm_writers sample_serving)" by (simp add: sample_serving_def sample_daemon_def)
  have "length (fst sample_read) = 2" using arg_cong [OF sample_messages(1), of length] by simp
  moreover have "dm_seen sample_serving = fst sample_read" by (simp add: sample_serving_def)
  ultimately show ?thesis
    using daemon_accounts [OF sample_reached, THEN conjunct2, THEN conjunct2, rule_format, OF pos, unfolded Let_def, THEN conjunct2, THEN conjunct1]
      sample_messages by simp
qed

definition sample_stopping :: daemon where
  "sample_stopping = sample_serving\<lparr>dm_stop := True, dm_main := Putting 0, dm_consume := Cancelled\<rparr>"

lemma sample_stopping_reached: "(daemon_step sample_daemon)\<^sup>*\<^sup>* (new_daemon sample_daemon) sample_stopping"
proof -
  have s1: "daemon_step sample_daemon sample_serving (sample_serving\<lparr>dm_stop := True\<rparr>)"
    using daemon_step.signal [of sample_serving] by (simp add: sample_serving_def)
  have s2: "daemon_step sample_daemon (sample_serving\<lparr>dm_stop := True\<rparr>) sample_stopping"
    using daemon_step.stops [of "sample_serving\<lparr>dm_stop := True\<rparr>"] by (simp add: sample_serving_def sample_stopping_def cancelled_def)
  from rtranclp.rtrancl_into_rtrancl [OF sample_reached s1]
  have "(daemon_step sample_daemon)\<^sup>*\<^sup>* (new_daemon sample_daemon) (sample_serving\<lparr>dm_stop := True\<rparr>)" .
  from rtranclp.rtrancl_into_rtrancl [OF this s2] show ?thesis .
qed

theorem daemon_closes_witness: "\<not> (\<exists>d'. (daemon_step sample_daemon ^^ 8) sample_stopping d')"
proof -
  have "map drain (dm_writers sample_stopping) = [2]" "length (dm_writers sample_stopping) = 1" by code_simp+
  then have "shutdown_bound sample_stopping = 7" by (simp add: shutdown_bound_def main_work_def sample_stopping_def)
  moreover have "closing_down (dm_main sample_stopping)" by (simp add: closing_down_def sample_stopping_def)
  ultimately show ?thesis using daemon_closes [OF sample_stopping_reached, of 8] by auto
qed

end
