(* ===== verification/Signing.thy ===== *)
theory Signing
  imports Blob Values "HOL-Library.Multiset"
begin

text \<open>
  Signatures of dictionaries (\<open>HmacSha256SignatureService\<close> of \<open>security_services.py\<close>): the JSON text that is
  signed, with sorted keys and no blanks, and the proof that a signature stands for the content: two
  dictionaries with text keys have the same text exactly when they agree up to the order of keys. Floats are left out.
\<close>

section \<open>JSON texts\<close>

datatype json = J_Null | J_Bool bool | J_Int int | J_Str string | J_Arr "json list" | J_Obj "(string \<times> json) list"

text \<open>
  The objects that are dumped. The key of a dictionary is a text, a number, a boolean or \<open>None\<close>, or something else,
  which is refused; \<open>O_Other\<close> stands for a value of a class that is refused (bytes, dates, UUIDs, decimals). The
  members of the program's enumerations derive from \<open>str\<close> or \<open>int\<close> and stand for their values.
\<close>

datatype pykey = K_Str string | K_Int int | K_Bool bool | K_None | K_Other

datatype pyobj = O_None | O_Bool bool | O_Int int | O_Str string | O_Enum string pyobj | O_List "pyobj list" | O_Tuple "pyobj list"
  | O_Dict "(pykey \<times> pyobj) list" | O_Other

text \<open>The text of a key, \<open>None\<close> for a refused one.\<close>

definition key_text :: "pykey \<Rightarrow> string option" where
  "key_text k = (case k of K_Str s \<Rightarrow> Some s | K_Int i \<Rightarrow> Some (show_int i) | K_Bool b \<Rightarrow> Some (if b then ''true'' else ''false'')
     | K_None \<Rightarrow> Some ''null'' | K_Other \<Rightarrow> None)"

text \<open>
  \<open>sort_keys\<close>: texts are sorted as texts and numbers, among which the booleans count as 0 and 1, as numbers. Keys of
  different kinds cannot be compared, so there \<open>sorted\<close> raises, unless there is nothing to compare.
\<close>

definition key_string :: "pykey \<Rightarrow> string option" where
  "key_string k = (case k of K_Str s \<Rightarrow> Some s | _ \<Rightarrow> None)"

definition key_number :: "pykey \<Rightarrow> int option" where
  "key_number k = (case k of K_Int i \<Rightarrow> Some i | K_Bool b \<Rightarrow> Some (if b then 1 else 0) | _ \<Rightarrow> None)"

definition sorted_items :: "(pykey \<times> 'a) list \<Rightarrow> (pykey \<times> 'a) list option" where
  "sorted_items kvs =
     (if list_all (\<lambda>kv. key_string (fst kv) \<noteq> None) kvs then Some (sort_key (\<lambda>kv. the (key_string (fst kv))) kvs)
      else if list_all (\<lambda>kv. key_number (fst kv) \<noteq> None) kvs then Some (sort_key (\<lambda>kv. the (key_number (fst kv))) kvs)
      else if length kvs \<le> 1 then Some kvs else None)"

definition text_items :: "(pykey \<times> json) list \<Rightarrow> (string \<times> json) list option" where
  "text_items kvs = those (map (\<lambda>kv. map_option (\<lambda>k. (k, snd kv)) (key_text (fst kv))) kvs)"

text \<open>What \<open>json.dumps\<close> writes: tuples are arrays, the keys are sorted; \<open>None\<close> for what it refuses.\<close>

fun to_json :: "pyobj \<Rightarrow> json option" where
  "to_json O_None = Some J_Null"
| "to_json (O_Bool b) = Some (J_Bool b)"
| "to_json (O_Int i) = Some (J_Int i)"
| "to_json (O_Str s) = Some (J_Str s)"
| "to_json (O_Enum n v) = to_json v"
| "to_json (O_List xs) = map_option J_Arr (those (map to_json xs))"
| "to_json (O_Tuple xs) = map_option J_Arr (those (map to_json xs))"
| "to_json (O_Dict kvs) = (case those (map (\<lambda>kv. map_option (Pair (fst kv)) (to_json (snd kv))) kvs) of
     None \<Rightarrow> None
   | Some items \<Rightarrow> (case sorted_items items of None \<Rightarrow> None | Some ordered \<Rightarrow> map_option J_Obj (text_items ordered)))"
| "to_json O_Other = None"

text \<open>One character of a text, with \<open>ensure_ascii\<close>.\<close>

definition json_char :: "char \<Rightarrow> string" where
  "json_char c = (case map_of [(CHR 0x22, CHR 0x22), (CHR 0x5C, CHR 0x5C), (CHR 0x0A, CHR ''n''), (CHR 0x0D, CHR ''r''),
       (CHR 0x09, CHR ''t''), (CHR 0x0C, CHR ''f''), (CHR 0x08, CHR ''b'')] c of
     Some d \<Rightarrow> [CHR 0x5C, d]
   | None \<Rightarrow> if CHR '' '' \<le> c \<and> c \<le> CHR ''~'' then [c]
       else [CHR 0x5C, CHR ''u'', CHR ''0'', CHR ''0'', hex_char (of_char c div 16), hex_char (of_char c mod 16)])"

definition json_string :: "string \<Rightarrow> string" where
  "json_string s = CHR 0x22 # concat (map json_char s) @ [CHR 0x22]"

fun joined_texts :: "string list \<Rightarrow> string" where
  "joined_texts [] = []"
| "joined_texts [p] = p"
| "joined_texts (p # ps) = p @ '','' @ joined_texts ps"

fun render :: "json \<Rightarrow> string" where
  "render J_Null = ''null''"
| "render (J_Bool b) = (if b then ''true'' else ''false'')"
| "render (J_Int i) = show_int i"
| "render (J_Str s) = json_string s"
| "render (J_Arr xs) = ''['' @ joined_texts (map render xs) @ '']''"
| "render (J_Obj kvs) = ''{'' @ joined_texts (map (\<lambda>kv. json_string (fst kv) @ '':'' @ render (snd kv)) kvs) @ ''}''"

text \<open>\<open>_dump_dict\<close>\<close>

definition dump_dict :: "pyobj \<Rightarrow> (exn, bytes) outcome" where
  "dump_dict d = (case to_json d of
     None \<Rightarrow> Raise (TypeError ''Object is not JSON serializable'') | Some j \<Rightarrow> Ret (utf8_encode (render j)))"

section \<open>Signing\<close>

definition sign_dict :: "libs \<Rightarrow> bytes \<Rightarrow> pyobj \<Rightarrow> bytes option \<Rightarrow> (exn, bytes) outcome" where
  "sign_dict L secret d key = (let k = (case key of None \<Rightarrow> secret | Some b \<Rightarrow> if b = [] then secret else b) in
     case dump_dict d of Raise e \<Rightarrow> Raise e | Ret text_ \<Rightarrow> Ret (mac_sha256 L k text_))"

text \<open>\<open>verify_dict\<close>, with the keys it prints.\<close>

definition verify_dict :: "libs \<Rightarrow> bytes \<Rightarrow> pyobj \<Rightarrow> bytes \<Rightarrow> bytes option \<Rightarrow> bytes option list \<times> (exn, bool) outcome" where
  "verify_dict L secret d signature key = ([key], case dump_dict d of
     Raise e \<Rightarrow> Raise e | Ret text_ \<Rightarrow> Ret (verify_signature L secret text_ signature key))"

section \<open>Reading characters back\<close>

definition unhex :: "char \<Rightarrow> nat" where
  "unhex c = (let n = of_char c in if n < 58 then n - 48 else n - 87)"

definition read_char :: "string \<Rightarrow> (char \<times> string) option" where
  "read_char s = (case s of [] \<Rightarrow> None | c # cs \<Rightarrow>
     if c = CHR 0x22 then None
     else if c \<noteq> CHR 0x5C then Some (c, cs)
     else (case cs of [] \<Rightarrow> None | d # ds \<Rightarrow>
       if d = CHR ''u'' then (case ds of z # y # h # l # r \<Rightarrow> Some (char_of (16 * unhex h + unhex l), r) | _ \<Rightarrow> None)
       else map_option (\<lambda>c. (c, ds)) (map_of [(CHR 0x22, CHR 0x22), (CHR 0x5C, CHR 0x5C), (CHR ''n'', CHR 0x0A),
         (CHR ''r'', CHR 0x0D), (CHR ''t'', CHR 0x09), (CHR ''f'', CHR 0x0C), (CHR ''b'', CHR 0x08)] d)))"

lemma read_char_more:
  assumes "read_char s = Some (c, r)"
  shows "read_char (s @ x) = Some (c, r @ x)"
proof -
  obtain d cs where s: "s = d # cs" using assms by (cases s) (simp_all add: read_char_def)
  show ?thesis
  proof (cases "d = CHR 0x5C")
    case False
    then show ?thesis using assms by (simp add: s read_char_def split: if_splits)
  next
    case True
    then obtain k ds where cs: "cs = k # ds" using assms by (cases cs) (simp_all add: s read_char_def)
    show ?thesis
    proof (cases "k = CHR ''u''")
      case u: True
      then obtain z y h l r' where "ds = z # y # h # l # r'" using assms True by (auto simp: s cs read_char_def split: list.splits)
      then show ?thesis using assms True u by (simp add: s cs read_char_def)
    next
      case False
      then show ?thesis using assms True by (auto simp: s cs read_char_def simp del: map_of.simps)
    qed
  qed
qed

lemma of_char_bound: "of_char c < (256::nat)"
proof -
  have "c \<in> char_of ` {0::nat..<256}" using UNIV_char_of_nat by blast
  then show ?thesis by (auto simp: of_char_of)
qed

lemma unhex_hex: "k < 16 \<Longrightarrow> unhex (hex_char k) = k"
  by (simp add: unhex_def hex_char_def Let_def of_char_of)

lemma read_json_char: "read_char (json_char c @ x) = Some (c, x)"
proof -
  have "read_char (json_char c) = Some (c, [])"
  proof (cases "c \<in> {CHR 0x22, CHR 0x5C, CHR 0x0A, CHR 0x0D, CHR 0x09, CHR 0x0C, CHR 0x08}")
    case True
    then show ?thesis by (elim insertE) (simp_all add: json_char_def read_char_def)
  next
    case False
    have "char_of (16 * (of_char c div 16) + of_char c mod 16 :: nat) = c" by simp
    moreover have "unhex (hex_char (of_char c div 16)) = of_char c div 16" "unhex (hex_char (of_char c mod 16)) = of_char c mod 16"
      using of_char_bound [of c] by (intro unhex_hex; linarith)+
    ultimately show ?thesis using False by (simp add: json_char_def read_char_def del: mult_div_mod_eq)
  qed
  from read_char_more [OF this] show ?thesis by simp
qed

lemma read_quote: "read_char (CHR 0x22 # a) = None"
  by (simp add: read_char_def)

lemma json_chars_inj:
  "concat (map json_char s) @ CHR 0x22 # a = concat (map json_char t) @ CHR 0x22 # b \<Longrightarrow> s = t \<and> a = b"
proof (induction s arbitrary: t)
  case Nil
  show ?case
  proof (cases t)
    case Nil
    then show ?thesis using Nil.prems by simp
  next
    case (Cons d t')
    then show ?thesis using arg_cong [OF Nil.prems, of read_char] by (simp add: read_json_char read_quote)
  qed
next
  case (Cons c s)
  show ?case
  proof (cases t)
    case Nil
    then show ?thesis using arg_cong [OF Cons.prems, of read_char] by (simp add: read_json_char read_quote)
  next
    case t: (Cons d t')
    have "c = d" "concat (map json_char s) @ CHR 0x22 # a = concat (map json_char t') @ CHR 0x22 # b"
      using arg_cong [OF Cons.prems, of read_char] by (simp_all add: read_json_char t)
    then show ?thesis using Cons.IH t by blast
  qed
qed

lemma json_string_inj: "json_string s @ a = json_string t @ b \<Longrightarrow> s = t \<and> a = b"
  using json_chars_inj [of s a t b] by (simp add: json_string_def)

section \<open>Texts of values are told apart\<close>

text \<open>Numbers are the only values that can go on; nothing that follows a value begins with a digit.\<close>

definition stops :: "string \<Rightarrow> bool" where
  "stops a \<longleftrightarrow> a = [] \<or> \<not> py_digit (hd a)"

lemma take_digits: "stops a \<Longrightarrow> takeWhile py_digit (show_nat n @ a) = show_nat n"
  using show_nat_digits [of n] by (cases a) (auto simp: stops_def takeWhile_append takeWhile_eq_all_conv)

fun digits_read :: "nat \<Rightarrow> string \<Rightarrow> nat" where
  "digits_read n [] = n"
| "digits_read n (c # cs) = digits_read (10 * n + (of_char c - 48)) cs"

lemma digits_read_append: "digits_read n (s @ t) = digits_read (digits_read n s) t"
  by (induction n s rule: digits_read.induct) simp_all

lemma digits_read_show: "digits_read 0 (show_nat n) = n"
proof (induction n rule: show_nat.induct)
  case (1 n)
  have d: "of_char (digit_char k) = (48 + k :: nat)" if "k < 10" for k
    using that by (simp add: digit_char_def of_char_of)
  show ?case using 1 by (subst show_nat.simps) (simp add: digits_read_append d)
qed

lemma show_nat_prefix: "show_nat n @ a = show_nat m @ b \<Longrightarrow> stops a \<Longrightarrow> stops b \<Longrightarrow> n = m \<and> a = b"
proof -
  assume e: "show_nat n @ a = show_nat m @ b" and s: "stops a" "stops b"
  have t: "show_nat n = show_nat m" using arg_cong [OF e, of "takeWhile py_digit"] by (simp only: take_digits s)
  moreover have "n = m" using arg_cong [OF t, of "digits_read 0"] by (simp only: digits_read_show)
  ultimately show ?thesis using e by simp
qed

lemma show_nat_head: "\<exists>c cs. show_nat n = c # cs \<and> py_digit c"
  using show_nat_digits [of n] show_nat_nonempty [of n] by (cases "show_nat n") auto

lemma show_int_prefix:
  assumes "show_int i @ a = show_int j @ b" "stops a" "stops b"
  shows "i = j \<and> a = b"
proof -
  have m: "\<not> py_digit (CHR ''-'')" by code_simp
  obtain c cs d ds where h: "show_nat (nat i) = c # cs" "py_digit c" "show_nat (nat j) = d # ds" "py_digit d"
    using show_nat_head by metis
  show ?thesis
  proof (cases "i < 0")
    case True
    then have "j < 0" using assms(1) h m by (auto simp: show_int_def split: if_splits)
    then have "show_nat (nat (- i)) @ a = show_nat (nat (- j)) @ b" using assms(1) True by (simp add: show_int_def)
    from show_nat_prefix [OF this assms(2,3)] show ?thesis using True \<open>j < 0\<close> by auto
  next
    case False
    then have "\<not> j < 0" using assms(1) h m by (auto simp: show_int_def split: if_splits)
    then have "show_nat (nat i) @ a = show_nat (nat j) @ b" using assms(1) False by (simp add: show_int_def)
    from show_nat_prefix [OF this assms(2,3)] show ?thesis using False \<open>\<not> j < 0\<close> by auto
  qed
qed

lemma joined_Cons: "joined_texts (p # ps) = p @ (if ps = [] then [] else CHR '','' # joined_texts ps)"
  by (cases ps) simp_all

lemma joined_inj:
  assumes "\<And>x y a b. x \<in> set xs \<Longrightarrow> f x @ a = f y @ b \<Longrightarrow> stops a \<Longrightarrow> stops b \<Longrightarrow> x = y \<and> a = b"
    and heads: "\<And>y. f y \<noteq> [] \<and> hd (f y) \<noteq> e" and e: "e \<noteq> CHR '',''" "\<not> py_digit e"
    and eq: "joined_texts (map f xs) @ e # a = joined_texts (map f ys) @ e # b"
  shows "xs = ys \<and> a = b"
  using assms(1) eq
proof (induction xs arbitrary: ys)
  case Nil
  show ?case
  proof (cases ys)
    case Nil
    then show ?thesis using Nil.prems by simp
  next
    case (Cons y ys')
    then show ?thesis using Nil.prems heads [of y] by (cases "f y") (simp_all add: joined_Cons)
  qed
next
  case (Cons x xs)
  have comma: "\<not> py_digit (CHR '','')" by code_simp
  define more where "more zs r = (if zs = [] then e # r else CHR '','' # joined_texts (map f zs) @ e # r)" for zs r
  have stop: "stops (more zs r)" for zs r using e comma by (simp add: more_def stops_def)
  have join: "joined_texts (map f (z # zs)) @ e # r = f z @ more zs r" for z zs r by (simp add: joined_Cons more_def)
  show ?case
  proof (cases ys)
    case Nil
    then show ?thesis using Cons.prems(2) heads [of x] unfolding join by (cases "f x") simp_all
  next
    case ys: (Cons y ys')
    have "x = y \<and> more xs a = more ys' b"
      using Cons.prems(1) [of x] Cons.prems(2) stop unfolding ys join by simp
    moreover have "xs = ys' \<and> a = b"
    proof (cases "xs = [] \<or> ys' = []")
      case True
      then show ?thesis using calculation e(1) by (cases xs; cases ys') (simp_all add: more_def)
    next
      case False
      then have "joined_texts (map f xs) @ e # a = joined_texts (map f ys') @ e # b"
        using calculation by (simp add: more_def)
      then show ?thesis by (rule Cons.IH [rotated]) (rule Cons.prems(1), simp_all)
    qed
    ultimately show ?thesis by (simp add: ys)
  qed
qed

definition head_of :: "json \<Rightarrow> char" where
  "head_of j = (case j of J_Null \<Rightarrow> CHR ''n'' | J_Bool b \<Rightarrow> if b then CHR ''t'' else CHR ''f'' | J_Int i \<Rightarrow> hd (show_int i)
     | J_Str s \<Rightarrow> CHR 0x22 | J_Arr xs \<Rightarrow> CHR ''['' | J_Obj kvs \<Rightarrow> CHR ''{'')"

lemma render_head: "\<exists>cs. render j = head_of j # cs"
proof (cases j)
  case (J_Int i)
  then show ?thesis using show_nat_nonempty by (cases "show_int i") (simp_all add: head_of_def show_int_def split: if_splits)
qed (simp_all add: head_of_def json_string_def)

lemma int_head: "py_digit (hd (show_int i)) \<or> hd (show_int i) = CHR ''-''"
  using show_nat_head by (auto simp: show_int_def) (metis list.sel(1))

lemma no_int_head: "\<not> py_digit c \<Longrightarrow> c \<noteq> CHR ''-'' \<Longrightarrow> hd (show_int i) \<noteq> c"
  using int_head [of i] by auto

lemma other_heads: "\<not> py_digit (CHR ''n'')" "\<not> py_digit (CHR ''t'')" "\<not> py_digit (CHR ''f'')" "\<not> py_digit (CHR 0x22)"
    "\<not> py_digit (CHR ''['')" "\<not> py_digit (CHR ''{'')" "\<not> py_digit (CHR '']'')" "\<not> py_digit (CHR ''}'')" "\<not> py_digit (CHR '':'')"
  by code_simp+

lemma int_heads [simp]:
  "hd (show_int i) \<noteq> CHR ''n''" "hd (show_int i) \<noteq> CHR ''t''" "hd (show_int i) \<noteq> CHR ''f''" "hd (show_int i) \<noteq> CHR 0x22"
  "hd (show_int i) \<noteq> CHR ''[''" "hd (show_int i) \<noteq> CHR ''{''" "hd (show_int i) \<noteq> CHR '']''" "hd (show_int i) \<noteq> CHR ''}''"
  by (rule no_int_head; simp add: other_heads)+

lemma closing_heads: "head_of j \<noteq> CHR '']''" "head_of j \<noteq> CHR ''}''"
  by (simp_all add: head_of_def split: json.split)

lemma same_kind:
  assumes "render x @ a = render y @ b"
  shows "head_of x = head_of y"
  using assms render_head [of x] render_head [of y] by auto

lemma render_prefix: "render x @ a = render y @ b \<Longrightarrow> stops a \<Longrightarrow> stops b \<Longrightarrow> x = y \<and> a = b"
proof (induction x arbitrary: y a b)
  case J_Null
  then show ?case using same_kind [OF J_Null(1)]
    by (cases y) (simp_all add: head_of_def int_heads [symmetric] split: if_splits)
next
  case (J_Bool c)
  then show ?case using same_kind [OF J_Bool(1)]
    by (cases y) (simp_all add: head_of_def int_heads [symmetric] split: if_splits)
next
  case (J_Int i)
  have "hd (show_int i) = head_of y" using same_kind [OF J_Int(1)] by (simp add: head_of_def)
  then obtain j where "y = J_Int j"
    by (cases y) (simp_all add: head_of_def int_heads [symmetric] split: if_splits)
  then show ?case using J_Int show_int_prefix [of i a j b] by simp
next
  case (J_Str s)
  then obtain t where "y = J_Str t"
    using same_kind [OF J_Str(1)] by (cases y) (simp_all add: head_of_def int_heads [symmetric] split: if_splits)
  then show ?case using J_Str(1) json_string_inj [of s a t b] by simp
next
  case (J_Arr xs)
  then obtain ys where y: "y = J_Arr ys"
    using same_kind [OF J_Arr(2)] by (cases y) (simp_all add: head_of_def int_heads [symmetric] split: if_splits)
  have "render z \<noteq> [] \<and> hd (render z) \<noteq> CHR '']''" for z using render_head [of z] closing_heads(1) [of z] by auto
  moreover have "joined_texts (map render xs) @ CHR '']'' # a = joined_texts (map render ys) @ CHR '']'' # b"
    using J_Arr(2) by (simp add: y)
  ultimately have "xs = ys \<and> a = b" using J_Arr(1) other_heads by (intro joined_inj [where f = render and e = "CHR '']''"]) auto
  then show ?case by (simp add: y)
next
  case (J_Obj kvs)
  let ?f = "\<lambda>kv. json_string (fst kv) @ '':'' @ render (snd kv)"
  obtain kws where y: "y = J_Obj kws"
    using same_kind [OF J_Obj(2)] by (cases y) (simp_all add: head_of_def int_heads [symmetric] split: if_splits)
  have each: "p = q \<and> r = t" if p: "p \<in> set kvs" and e: "?f p @ r = ?f q @ t" and st: "stops r" "stops t" for p q r t
  proof -
    have "fst p = fst q \<and> '':'' @ render (snd p) @ r = '':'' @ render (snd q) @ t"
      using e by (intro json_string_inj) simp
    then have k: "fst p = fst q" "render (snd p) @ r = render (snd q) @ t" by simp_all
    have "snd p \<in> Basic_BNFs.snds p" by (cases p) simp
    from J_Obj(1) [OF p this k(2) st] show ?thesis using k(1) by (simp add: prod_eq_iff)
  qed
  have heads: "?f z \<noteq> [] \<and> hd (?f z) \<noteq> CHR ''}''" for z by (simp add: json_string_def)
  have eq: "joined_texts (map ?f kvs) @ CHR ''}'' # a = joined_texts (map ?f kws) @ CHR ''}'' # b"
    using J_Obj(2) by (simp add: y)
  have "kvs = kws \<and> a = b"
    by (rule joined_inj [where f = ?f and e = "CHR ''}''", OF _ heads _ other_heads(8) eq]) (fact each, simp)
  then show ?case by (simp add: y)
qed

lemma render_inj: "render x = render y \<longleftrightarrow> x = y"
  using render_prefix [of x "[]" y "[]"] by (auto simp: stops_def)

section \<open>The bytes\<close>

definition read_utf8 :: "bytes \<Rightarrow> (char \<times> bytes) option" where
  "read_utf8 s = (case s of [] \<Rightarrow> None | b # bs \<Rightarrow>
     if unat b < 128 then Some (char_of (unat b), bs)
     else (case bs of [] \<Rightarrow> None | d # ds \<Rightarrow> Some (char_of (64 * (unat b - 192) + (unat d - 128)), ds)))"

lemma unat_small: "n < 256 \<Longrightarrow> unat (word_of_nat n :: 8 word) = n"
  by (simp add: unat_of_nat take_bit_nat_eq_self)

lemma read_utf8_char: "read_utf8 (utf8_char c @ x) = Some (c, x)"
proof -
  let ?n = "of_char c :: nat"
  have u: "unat (word_of_nat (192 + ?n div 64) :: 8 word) = 192 + ?n div 64" "unat (word_of_nat (128 + ?n mod 64) :: 8 word) = 128 + ?n mod 64"
    using of_char_bound [of c] by (intro unat_small, linarith)+
  have "char_of (64 * (?n div 64) + ?n mod 64) = c" by simp
  then show ?thesis using of_char_bound [of c]
    by (simp add: utf8_char_def read_utf8_def Let_def unat_small u del: mult_div_mod_eq of_nat_add)
qed

lemma utf8_inj: "utf8_encode s = utf8_encode t \<longleftrightarrow> s = t"
proof
  show "utf8_encode s = utf8_encode t \<Longrightarrow> s = t"
  proof (induction s arbitrary: t)
    case Nil
    show ?case
    proof (cases t)
      case (Cons d t')
      then show ?thesis using arg_cong [OF Nil.prems, of read_utf8] by (simp add: utf8_encode_def read_utf8_char) (simp add: read_utf8_def)
    qed simp
  next
    case (Cons c s)
    show ?case
    proof (cases t)
      case Nil
      then show ?thesis using arg_cong [OF Cons.prems, of read_utf8] by (simp add: utf8_encode_def read_utf8_char) (simp add: read_utf8_def)
    next
      case t: (Cons d t')
      have "c = d" "utf8_encode s = utf8_encode t'"
        using arg_cong [OF Cons.prems, of read_utf8] by (simp_all add: utf8_encode_def read_utf8_char t)
      then show ?thesis using Cons.IH t by blast
    qed
  qed
qed simp

section \<open>What a signature stands for\<close>

lemma those_map: "those (map f xs) = (if list_all (\<lambda>x. f x \<noteq> None) xs then Some (map (the \<circ> f) xs) else None)"
  by (induction xs) (auto split: option.splits)

text \<open>
  When two objects have the same content: the same texts, numbers, booleans and nulls in the same places, sequences in
  the same order, and dictionaries with the same keys and under each key the same content, in whatever order they
  were filled. A member of an enumeration is its value and a tuple is a sequence.
\<close>

fun bare :: "pyobj \<Rightarrow> pyobj" where
  "bare (O_Enum n v) = bare v"
| "bare v = v"

definition sequence :: "pyobj \<Rightarrow> pyobj list option" where
  "sequence v = (case bare v of O_List xs \<Rightarrow> Some xs | O_Tuple xs \<Rightarrow> Some xs | _ \<Rightarrow> None)"

definition entries :: "pyobj \<Rightarrow> (pykey \<times> pyobj) list option" where
  "entries v = (case bare v of O_Dict kvs \<Rightarrow> Some kvs | _ \<Rightarrow> None)"

function same_content :: "pyobj \<Rightarrow> pyobj \<Rightarrow> bool" where
  "same_content (O_Enum n v) w = same_content v w"
| "same_content (O_List xs) w = (case sequence w of None \<Rightarrow> False
     | Some ys \<Rightarrow> length xs = length ys \<and> list_all (\<lambda>xy. same_content (fst xy) (snd xy)) (zip xs ys))"
| "same_content (O_Tuple xs) w = (case sequence w of None \<Rightarrow> False
     | Some ys \<Rightarrow> length xs = length ys \<and> list_all (\<lambda>xy. same_content (fst xy) (snd xy)) (zip xs ys))"
| "same_content (O_Dict kvs) w = (case entries w of None \<Rightarrow> False
     | Some kws \<Rightarrow> length kvs = length kws
         \<and> list_all (\<lambda>kv. case map_of kws (fst kv) of None \<Rightarrow> False | Some u \<Rightarrow> same_content (snd kv) u) kvs)"
| "same_content O_None w = (bare w = O_None)"
| "same_content (O_Bool c) w = (bare w = O_Bool c)"
| "same_content (O_Int i) w = (bare w = O_Int i)"
| "same_content (O_Str s) w = (bare w = O_Str s)"
| "same_content O_Other w = (bare w = O_Other)"
  by pat_completeness auto

lemma size_sequence: "(x, y) \<in> set (zip xs ys) \<Longrightarrow> size x < Suc (size_list size xs)"
  using size_list_estimation' [of x xs "size x" size] by (auto dest: set_zip_leftD)

lemma size_entry: "kv \<in> set kvs \<Longrightarrow> size (snd kv) < Suc (size_list (size_prod (\<lambda>k. 0) size) kvs)"
  using size_list_estimation' [of kv kvs "size (snd kv)" "size_prod (\<lambda>k. 0) size"] by (cases kv) auto

termination same_content
  by (relation "measure (\<lambda>(v, w). size v)") (auto simp: size_sequence size_entry)

text \<open>The objects that \<open>json.dumps\<close> has no quarrel with: the keys of every dictionary are different texts.\<close>

fun signable :: "pyobj \<Rightarrow> bool" where
  "signable (O_Enum n v) = signable v"
| "signable (O_List xs) = list_all signable xs"
| "signable (O_Tuple xs) = list_all signable xs"
| "signable (O_Dict kvs) = (distinct (map fst kvs) \<and> list_all (\<lambda>kv. key_string (fst kv) \<noteq> None \<and> signable (snd kv)) kvs)"
| "signable O_Other = False"
| "signable v = True"

lemma bare_signable [simp]: "signable (bare v) = signable v" and bare_json: "to_json (bare v) = to_json v"
  by (induction v rule: bare.induct) simp_all


lemma sort_map: "sort_key f (map g xs) = map g (sort_key (\<lambda>x. f (g x)) xs)"
proof -
  have i: "insort_key f (g x) (map g ys) = map g (insort_key (\<lambda>x. f (g x)) x ys)" for x ys by (induction ys) simp_all
  show ?thesis by (induction xs) (simp_all add: i)
qed

lemma signable_json: "signable v \<Longrightarrow> \<exists>j. to_json v = Some j"
  and entry_json: "signable (O_Dict kvs) \<Longrightarrow>
    to_json (O_Dict kvs) = Some (J_Obj (sort_key fst (map (\<lambda>kv. (the (key_string (fst kv)), the (to_json (snd kv)))) kvs)))"
proof -
  have obj: "to_json (O_Dict kvs) = Some (J_Obj (sort_key fst (map (\<lambda>kv. (the (key_string (fst kv)), the (to_json (snd kv)))) kvs)))"
    if k: "\<And>kv. kv \<in> set kvs \<Longrightarrow> key_string (fst kv) \<noteq> None \<and> (\<exists>j. to_json (snd kv) = Some j)" for kvs
  proof -
    let ?i = "\<lambda>kv. (fst kv, the (to_json (snd kv)))"
    have texts: "key_text l = key_string l" if "key_string l \<noteq> None" for l
      using that by (cases l) (simp_all add: key_text_def key_string_def)
    have "those (map (\<lambda>kv. map_option (Pair (fst kv)) (to_json (snd kv))) kvs) = Some (map ?i kvs)"
      using k by (induction kvs) fastforce+
    moreover have "sorted_items (map ?i kvs) = Some (sort_key (\<lambda>kv. the (key_string (fst kv))) (map ?i kvs))"
      using k by (simp add: sorted_items_def list_all_iff)
    moreover have "text_items (map ?i kws) = Some (map (\<lambda>kv. (the (key_string (fst kv)), the (to_json (snd kv)))) kws)"
      if "set kws \<subseteq> set kvs" for kws
      using that k by (induction kws) (fastforce simp: text_items_def texts)+
    ultimately show ?thesis by (simp add: sort_map comp_def)
  qed
  show s: "signable v \<Longrightarrow> \<exists>j. to_json v = Some j" for v
  proof (induction v rule: signable.induct)
    case (2 xs)
    then have "those (map to_json xs) = Some (map (the \<circ> to_json) xs)" by (auto simp: those_map list_all_iff)
    then show ?case by simp
  next
    case (3 xs)
    then have "those (map to_json xs) = Some (map (the \<circ> to_json) xs)" by (auto simp: those_map list_all_iff)
    then show ?case by simp
  next
    case (4 kvs)
    then show ?case by (subst obj) (auto simp: list_all_iff)
  qed simp_all
  show "signable (O_Dict kvs) \<Longrightarrow>
    to_json (O_Dict kvs) = Some (J_Obj (sort_key fst (map (\<lambda>kv. (the (key_string (fst kv)), the (to_json (snd kv)))) kvs)))"
    by (rule obj) (auto simp: list_all_iff dest: s)
qed

text \<open>Sorted items are the same exactly when the dictionaries have the same entries.\<close>

lemma sorted_same:
  assumes "distinct (map fst ps)" "distinct (map fst qs)"
  shows "sort_key fst ps = sort_key fst qs \<longleftrightarrow> length ps = length qs \<and> set ps \<subseteq> set qs" (is "?l = ?r")
proof
  assume ?l
  then have "length (sort_key fst ps) = length (sort_key fst qs)" "set (sort_key fst ps) = set (sort_key fst qs)" by simp_all
  then show ?r by simp
next
  assume r: ?r
  have d: "distinct ps" "distinct qs" using assms by (simp_all add: distinct_map)
  then have "card (set ps) = card (set qs)" using r by (simp add: distinct_card)
  then have "set ps = set qs" using r by (simp add: card_subset_eq)
  then have "mset ps = mset (sort_key fst qs)" using d by (simp add: set_eq_iff_mset_eq_distinct [symmetric])
  moreover have "inj_on fst (set ps)" using assms(1) by (simp add: distinct_map)
  ultimately show ?l by (intro sort_key_inj_key_eq) simp_all
qed

lemma string_key: "key_string k \<noteq> None \<Longrightarrow> key_string l = key_string k \<longleftrightarrow> l = k"
  by (cases k; cases l) (simp_all add: key_string_def)

lemma entries_same:
  assumes "signable (O_Dict kvs)" "signable (O_Dict kws)"
  shows "to_json (O_Dict kvs) = to_json (O_Dict kws) \<longleftrightarrow> length kvs = length kws
    \<and> list_all (\<lambda>kv. case map_of kws (fst kv) of None \<Rightarrow> False | Some u \<Rightarrow> to_json (snd kv) = to_json u) kvs"
proof -
  let ?i = "\<lambda>kv. (the (key_string (fst kv)), the (to_json (snd kv)))"
  have d: "distinct (map fst (map ?i kws))" if "signable (O_Dict kws)" for kws
  proof -
    have "key_string k \<noteq> None" if "k \<in> set (map fst kws)" for k
      using that \<open>signable (O_Dict kws)\<close> by (auto simp: list_all_iff)
    then have "inj_on (\<lambda>k. the (key_string k)) (set (map fst kws))"
      by (intro inj_onI) (metis string_key option.collapse)
    moreover have "distinct (map fst kws)" using that by simp
    ultimately have "distinct (map (\<lambda>k. the (key_string k)) (map fst kws))" by (simp only: distinct_map)
    then show ?thesis by (simp add: comp_def)
  qed
  have entry: "?i kv \<in> set (map ?i kws) \<longleftrightarrow> (case map_of kws (fst kv) of None \<Rightarrow> False | Some u \<Rightarrow> to_json (snd kv) = to_json u)"
    if kv: "kv \<in> set kvs" for kv
  proof -
    have k: "key_string (fst kv) \<noteq> None" "\<exists>j. to_json (snd kv) = Some j" using assms(1) kv by (auto simp: list_all_iff dest: signable_json)
    have i: "?i kv = ?i kw \<longleftrightarrow> fst kw = fst kv \<and> to_json (snd kv) = to_json (snd kw)" if "kw \<in> set kws" for kw
    proof -
      have w: "key_string (fst kw) \<noteq> None" "\<exists>j. to_json (snd kw) = Some j" using assms(2) that by (auto simp: list_all_iff dest: signable_json)
      have "the (key_string (fst kv)) = the (key_string (fst kw)) \<longleftrightarrow> fst kw = fst kv"
      proof -
        obtain a b where ab: "key_string (fst kv) = Some a" "key_string (fst kw) = Some b" using k(1) w(1) by blast
        show ?thesis using string_key [OF k(1), of "fst kw"] unfolding ab by auto
      qed
      moreover have "the (to_json (snd kv)) = the (to_json (snd kw)) \<longleftrightarrow> to_json (snd kv) = to_json (snd kw)"
        using k(2) w(2) by auto
      ultimately show ?thesis by simp
    qed
    have "?i kv \<in> set (map ?i kws) \<longleftrightarrow> (\<exists>kw\<in>set kws. ?i kv = ?i kw)" unfolding set_map image_iff ..
    also have "\<dots> \<longleftrightarrow> (\<exists>kw\<in>set kws. fst kw = fst kv \<and> to_json (snd kv) = to_json (snd kw))" by (rule bex_cong [OF refl i])
    also have "\<dots> \<longleftrightarrow> (\<exists>u. (fst kv, u) \<in> set kws \<and> to_json (snd kv) = to_json u)" by (metis fst_conv prod.collapse snd_conv)
    also have "\<dots> \<longleftrightarrow> (case map_of kws (fst kv) of None \<Rightarrow> False | Some u \<Rightarrow> to_json (snd kv) = to_json u)"
    proof -
      have m: "(fst kv, u) \<in> set kws \<longleftrightarrow> map_of kws (fst kv) = Some u" for u using assms(2) by simp
      show ?thesis unfolding m by (cases "map_of kws (fst kv)") auto
    qed
    finally show ?thesis .
  qed
  have "to_json (O_Dict kvs) = to_json (O_Dict kws) \<longleftrightarrow> length kvs = length kws \<and> set (map ?i kvs) \<subseteq> set (map ?i kws)"
    unfolding entry_json [OF assms(1)] entry_json [OF assms(2)] using sorted_same [OF d d, OF assms] by simp
  also have "set (map ?i kvs) \<subseteq> set (map ?i kws) \<longleftrightarrow> (\<forall>kv\<in>set kvs. ?i kv \<in> set (map ?i kws))"
    unfolding set_map [of ?i kvs] image_subset_iff ..
  also have "\<dots> \<longleftrightarrow>
      list_all (\<lambda>kv. case map_of kws (fst kv) of None \<Rightarrow> False | Some u \<Rightarrow> to_json (snd kv) = to_json u) kvs"
    unfolding list_all_iff by (rule ball_cong [OF refl entry])
  finally show ?thesis .
qed


lemma sequences_same:
  assumes "list_all signable xs" "list_all signable ys"
  shows "map_option J_Arr (those (map to_json xs)) = map_option J_Arr (those (map to_json ys)) \<longleftrightarrow>
    length xs = length ys \<and> list_all (\<lambda>xy. to_json (fst xy) = to_json (snd xy)) (zip xs ys)"
proof -
  have t: "those (map to_json zs) = Some (map (the \<circ> to_json) zs)" if "list_all signable zs" for zs
    using that signable_json by (fastforce simp: those_map list_all_iff)
  have e: "the (to_json x) = the (to_json y) \<longleftrightarrow> to_json x = to_json y" if "signable x" "signable y" for x y
    using that signable_json [of x] signable_json [of y] by auto
  have "map (the \<circ> to_json) xs = map (the \<circ> to_json) ys \<longleftrightarrow>
      length xs = length ys \<and> list_all (\<lambda>xy. to_json (fst xy) = to_json (snd xy)) (zip xs ys)"
    using assms
  proof (induction xs arbitrary: ys)
    case (Cons x xs)
    then show ?case by (cases ys) (auto simp: e)
  qed simp
  then show ?thesis by (simp add: t assms)
qed

text \<open>The texts of two objects are the same exactly when their contents are.\<close>

lemma bare_forms:
  assumes "signable w"
  obtains ys where "sequence w = Some ys" "entries w = None" "list_all signable ys" "to_json w = map_option J_Arr (those (map to_json ys))"
      "bare w = O_List ys \<or> bare w = O_Tuple ys"
  | kws where "sequence w = None" "entries w = Some kws" "bare w = O_Dict kws"
  | "sequence w = None" "entries w = None" "bare w \<in> {O_None} \<union> range O_Bool \<union> range O_Int \<union> range O_Str"
proof -
  have n: "bare w = O_Enum n v \<Longrightarrow> thesis" for n v by (induction w rule: bare.induct) simp_all
  have s: "signable (bare w)" "to_json (bare w) = to_json w" using assms by (simp_all add: bare_json)
  show ?thesis
  proof (cases "bare w")
    case (O_List ys)
    then show ?thesis using s by (intro that(1) [of ys]) (simp_all add: sequence_def entries_def)
  next
    case (O_Tuple ys)
    then show ?thesis using s by (intro that(1) [of ys]) (simp_all add: sequence_def entries_def)
  next
    case (O_Dict kws)
    then show ?thesis by (intro that(2) [of kws]) (simp_all add: sequence_def entries_def)
  qed (use s in \<open>auto intro: n that(3) simp: sequence_def entries_def\<close>)
qed

lemma json_kinds:
  assumes "signable w"
  shows "to_json w = Some (J_Arr zs) \<Longrightarrow> sequence w \<noteq> None" "to_json w = Some (J_Obj ps) \<Longrightarrow> entries w \<noteq> None"
    "to_json w = Some J_Null \<longleftrightarrow> bare w = O_None" "to_json w = Some (J_Bool c) \<longleftrightarrow> bare w = O_Bool c"
    "to_json w = Some (J_Int k) \<longleftrightarrow> bare w = O_Int k" "to_json w = Some (J_Str t) \<longleftrightarrow> bare w = O_Str t"
proof -
  have b: "to_json w = to_json (bare w)" by (simp add: bare_json)
  have d: "bare w = O_Dict kws \<Longrightarrow> \<exists>ps. to_json (bare w) = Some (J_Obj ps)" for kws
    using assms entry_json [of kws] bare_signable [of w] by metis
  have "(\<exists>zs. to_json w = Some (J_Arr zs)) \<and> sequence w \<noteq> None \<and> bare w \<notin> {O_None} \<union> range O_Bool \<union> range O_Int \<union> range O_Str
      \<or> (\<exists>ps. to_json w = Some (J_Obj ps)) \<and> entries w \<noteq> None \<and> bare w \<notin> {O_None} \<union> range O_Bool \<union> range O_Int \<union> range O_Str
      \<or> bare w \<in> {O_None} \<union> range O_Bool \<union> range O_Int \<union> range O_Str"
    using assms
  proof (cases rule: bare_forms)
    case (1 ys)
    then obtain zs where "to_json w = Some (J_Arr zs)" using signable_json [OF assms] by auto
    then show ?thesis using 1 by auto
  next
    case (2 kws)
    then show ?thesis using d b by auto
  qed blast
  then show "to_json w = Some (J_Arr zs) \<Longrightarrow> sequence w \<noteq> None" "to_json w = Some (J_Obj ps) \<Longrightarrow> entries w \<noteq> None"
    "to_json w = Some J_Null \<longleftrightarrow> bare w = O_None" "to_json w = Some (J_Bool c) \<longleftrightarrow> bare w = O_Bool c"
    "to_json w = Some (J_Int k) \<longleftrightarrow> bare w = O_Int k" "to_json w = Some (J_Str t) \<longleftrightarrow> bare w = O_Str t"
    unfolding b by (elim disjE; auto)+
qed

lemma sequence_text:
  assumes "list_all signable xs" "signable w" "to_json v = map_option J_Arr (those (map to_json xs))"
    and "\<And>ys xy. sequence w = Some ys \<Longrightarrow> xy \<in> set (zip xs ys) \<Longrightarrow> signable (fst xy) \<Longrightarrow> signable (snd xy) \<Longrightarrow>
      to_json (fst xy) = to_json (snd xy) \<longleftrightarrow> same_content (fst xy) (snd xy)"
  shows "to_json v = to_json w \<longleftrightarrow> same_content (O_List xs) w"
proof (cases "sequence w")
  case None
  obtain zs where "to_json v = Some (J_Arr zs)" using signable_json [of "O_List xs"] assms(1,3) by auto
  then have "to_json v \<noteq> to_json w" using json_kinds(1) [OF assms(2)] None by metis
  then show ?thesis using None by simp
next
  case (Some ys)
  have ys: "list_all signable ys \<and> to_json w = map_option J_Arr (those (map to_json ys))"
    using assms(2) by (cases rule: bare_forms) (use Some in auto)
  note ys = conjunct1 [OF ys] conjunct2 [OF ys]
  have "to_json (fst xy) = to_json (snd xy) \<longleftrightarrow> same_content (fst xy) (snd xy)" if "xy \<in> set (zip xs ys)" for xy
    using assms(1) ys(1) that by (intro assms(4) [OF Some]) (cases xy, auto simp: list_all_iff dest: set_zip_leftD set_zip_rightD)+
  then have "list_all (\<lambda>xy. to_json (fst xy) = to_json (snd xy)) (zip xs ys) = list_all (\<lambda>xy. same_content (fst xy) (snd xy)) (zip xs ys)"
    by (simp add: list_all_iff)
  then show ?thesis using sequences_same [OF assms(1) ys(1)] by (simp add: Some assms(3) ys(2))
qed

lemma same_text: "signable v \<Longrightarrow> signable w \<Longrightarrow> to_json v = to_json w \<longleftrightarrow> same_content v w"
proof (induction v w rule: same_content.induct)
  case (2 xs w)
  then show ?case by (intro sequence_text) simp_all
next
  case (3 xs w)
  have "same_content (O_Tuple xs) w = same_content (O_List xs) w" by simp
  then show ?case using 3 sequence_text [of xs w "O_Tuple xs"] by simp
next
  case (4 kvs w)
  show ?case
  proof (cases "entries w")
    case None
    then have "to_json (O_Dict kvs) \<noteq> to_json w" using json_kinds(2) [OF 4(3)] entry_json [OF 4(2)] by metis
    then show ?thesis using None by simp
  next
    case (Some kws)
    then have w: "bare w = O_Dict kws" by (simp add: entries_def split: pyobj.splits)
    then have s: "signable (O_Dict kws)" "to_json w = to_json (O_Dict kws)"
      using 4(3) bare_signable [of w] bare_json [of w] by (simp_all del: signable.simps to_json.simps)
    have "to_json (snd kv) = to_json u \<longleftrightarrow> same_content (snd kv) u" if "kv \<in> set kvs" "map_of kws (fst kv) = Some u" for kv u
      using 4(2) s(1) that map_of_SomeD [OF that(2)] by (intro 4(1) [OF Some that]) (auto simp: list_all_iff)
    then show ?thesis unfolding s(2) entries_same [OF 4(2) s(1)] by (auto simp: Some list_all_iff split: option.splits)
  qed
next
  case (5 w)
  then show ?case using json_kinds(3) [of w] by (simp add: eq_commute)
next
  case (6 c w)
  then show ?case using json_kinds(4) [of w c] by (simp add: eq_commute)
next
  case (7 i w)
  then show ?case using json_kinds(5) [of w i] by (simp add: eq_commute)
next
  case (8 s w)
  then show ?case using json_kinds(6) [of w s] by (simp add: eq_commute)
qed simp_all


definition key_or :: "bytes option \<Rightarrow> bytes \<Rightarrow> bytes" where
  "key_or key secret = (case key of None \<Rightarrow> secret | Some b \<Rightarrow> if b = [] then secret else b)"


text \<open>
  Nested dictionaries in two orders, a tuple for a list, and a payload whose number has become a text; the MAC of the
  example keeps its input.
\<close>

definition plain_mac :: libs where
  "plain_mac = \<lparr>bc_hashpw = (\<lambda>b n. []), bc_checkpw = (\<lambda>b s. None), jw_encode = (\<lambda>p k a. []), jw_decode = (\<lambda>t k a n. None),
     jw_payload = (\<lambda>c. Inl []),
     mac_sha256 = (\<lambda>k t. k @ t), b64_encode = (\<lambda>b. []), b64_decode = (\<lambda>s. None), aes_encrypt = (\<lambda>k n d p. d),
     aes_decrypt = (\<lambda>k n d p. None)\<rparr>"

definition payload :: "pyobj \<Rightarrow> bool \<Rightarrow> pyobj" where
  "payload v swapped = (let a = (K_Str ''id'', v); b = (K_Str ''tags'', (if swapped then O_Tuple else O_List) [O_Str ''a\"b'', O_None])
     in O_Dict [(K_Str ''p'', O_Dict (if swapped then [b, a] else [a, b]))])"

lemma payload_text: "map_option render (to_json (payload (O_Int 17) True)) = Some (concat [''{'', json_string ''p'', '':{'', json_string ''id'',
    '':17,'', json_string ''tags'', '':['', json_string ''a\"b'', '',null]}}''])"
  by code_simp


text \<open>
  Keys that are not texts are beyond that: a number and its text are different keys with the same text, so one dictionary's
  signature verifies the other; and keys of both kinds in one dictionary cannot be sorted.
\<close>

lemma key_collision:
  "sign_dict L secret (O_Dict [(K_Int 1, v)]) key = sign_dict L secret (O_Dict [(K_Str ''1'', v)]) key
   \<and> \<not> same_content (O_Dict [(K_Int 1, v)]) (O_Dict [(K_Str ''1'', v)])
   \<and> (\<exists>e. sign_dict L secret (O_Dict [(K_Int 1, v), (K_Str ''a'', w)]) key = Raise (TypeError e))"
proof -
  have "show_int 1 = ''1''" by code_simp
  then show ?thesis
    by (auto simp: sign_dict_def dump_dict_def sorted_items_def text_items_def key_text_def key_string_def key_number_def entries_def
      split: option.split)
qed

end
