(* ===== verification/BaseRepo.thy ===== *)
theory BaseRepo
  imports Queries
begin

text \<open>
  The writing half of the base repository (\<open>base_orm_repository.py\<close>) over the session of one mapped class: objects
  by their attributes, the pending ones in the order they were added, and the table. What the session
  does follows SQLAlchemy's documentation: \<open>add\<close> of an object it has changes nothing, \<open>refresh\<close>
  discards what was not flushed and reads the row again, and refuses an object without a row.
\<close>

section \<open>The session\<close>

type_synonym attributes = "string \<rightharpoonup> pyval"

text \<open>An object: its attributes, and the id of its row once it has one.\<close>

record mapped =
  mo_attrs :: attributes
  mo_row :: "uuid option"

text \<open>Objects are named by numbers; \<open>rs_pending\<close> lists those to be inserted; \<open>rs_locked\<close> the rows locked by this transaction.\<close>

record repo_session =
  rs_objects :: "nat \<rightharpoonup> mapped"
  rs_pending :: "nat list"
  rs_table :: "(uuid \<times> attributes) list"
  rs_locked :: "uuid set"

type_synonym 'a repo_prog = "(repo_session, exn, 'a) prog"

definition the_object :: "nat \<Rightarrow> mapped repo_prog" where
  "the_object n = py_bind (py_read rs_objects) (\<lambda>f. case f n of None \<Rightarrow> py_raise (KeyError ''object'') | Some x \<Rightarrow> py_ret x)"

definition session_add :: "nat \<Rightarrow> unit repo_prog" where
  "session_add n = py_bind (the_object n) (\<lambda>x. py_write (\<lambda>s.
     if mo_row x \<noteq> None \<or> n \<in> set (rs_pending s) then s else s\<lparr>rs_pending := rs_pending s @ [n]\<rparr>))"

definition session_add_all :: "nat list \<Rightarrow> unit repo_prog" where
  "session_add_all ns = py_for ns session_add"

definition session_refresh :: "nat \<Rightarrow> unit repo_prog" where
  "session_refresh n = py_bind (the_object n) (\<lambda>x. case mo_row x of
       None \<Rightarrow> py_raise (OtherError ''InvalidRequestError: not persistent'')
     | Some i \<Rightarrow> py_bind (py_read rs_table) (\<lambda>t. case map_of t i of
           None \<Rightarrow> py_raise (OtherError ''InvalidRequestError: Could not refresh instance'')
         | Some attrs \<Rightarrow> py_write (\<lambda>s. s\<lparr>rs_objects := (rs_objects s)(n \<mapsto> x\<lparr>mo_attrs := attrs\<rparr>)\<rparr>)))"

text \<open>\<open>flush\<close> in the order added; \<open>id_of\<close> is the key of a new row. What a changed object writes is its row's new values.\<close>

definition flush_pending :: "(mapped \<Rightarrow> uuid) \<Rightarrow> nat \<Rightarrow> unit repo_prog" where
  "flush_pending id_of n = py_bind (the_object n) (\<lambda>x. let i = id_of x in py_bind (py_read rs_table) (\<lambda>t.
     if map_of t i \<noteq> None then py_raise (IntegrityError ''primary key'')
     else py_write (\<lambda>s. s\<lparr>rs_table := rs_table s @ [(i, mo_attrs x)], rs_objects := (rs_objects s)(n \<mapsto> x\<lparr>mo_row := Some i\<rparr>)\<rparr>)))"

definition write_row :: "nat \<Rightarrow> mapped \<Rightarrow> (uuid \<times> attributes) list \<Rightarrow> (uuid \<times> attributes) list" where
  "write_row n x t = (case mo_row x of None \<Rightarrow> t | Some i \<Rightarrow> map (\<lambda>r. if fst r = i then (i, mo_attrs x) else r) t)"

definition session_flush :: "(mapped \<Rightarrow> uuid) \<Rightarrow> nat list \<Rightarrow> unit repo_prog" where
  "session_flush id_of live =
     py_bind (py_read rs_pending) (\<lambda>ns.
     py_bind (py_for live (\<lambda>n. py_bind (the_object n) (\<lambda>x. py_write (\<lambda>s. s\<lparr>rs_table := write_row n x (rs_table s)\<rparr>)))) (\<lambda>_.
     py_bind (py_for ns (flush_pending id_of)) (\<lambda>_. py_write (\<lambda>s. s\<lparr>rs_pending := []\<rparr>))))"

section \<open>The repository\<close>

definition repo_save :: "nat \<Rightarrow> unit repo_prog" where
  "repo_save n = session_add n"

definition repo_refresh :: "nat \<Rightarrow> unit repo_prog" where
  "repo_refresh n = session_refresh n"

definition repo_flush :: "(mapped \<Rightarrow> uuid) \<Rightarrow> nat list \<Rightarrow> unit repo_prog" where
  "repo_flush id_of live = session_flush id_of live"

definition set_attribute :: "nat \<Rightarrow> string \<times> pyval \<Rightarrow> unit repo_prog" where
  "set_attribute n kv = py_bind (the_object n) (\<lambda>x.
     py_write (\<lambda>s. s\<lparr>rs_objects := (rs_objects s)(n \<mapsto> x\<lparr>mo_attrs := (mo_attrs x)(fst kv \<mapsto> snd kv)\<rparr>)\<rparr>))"

text \<open>\<open>_update\<close>\<close>

definition repo_update :: "nat \<Rightarrow> (string \<times> pyval) list \<Rightarrow> nat repo_prog" where
  "repo_update n obj_in =
     py_bind (py_for obj_in (set_attribute n)) (\<lambda>_.
     py_bind (session_add n) (\<lambda>_.
     py_bind (repo_refresh n) (\<lambda>_. py_ret n)))"

text \<open>\<open>_batch_create\<close>: the loop of \<open>batch_save\<close> with the slices given to the session.\<close>

partial_function (option) batches :: "int \<Rightarrow> 'a list \<Rightarrow> int \<Rightarrow> 'a list list \<Rightarrow> 'a list list option" where
  "batches batch_size objs offset acc =
     (if offset < int (length objs)
      then let n = min batch_size (int (length objs) - offset)
           in batches batch_size objs (offset + n) (acc @ [py_slice objs offset (offset + n)])
      else Some acc)"

definition batch_create :: "int \<Rightarrow> nat list \<Rightarrow> unit repo_prog option" where
  "batch_create batch_size objs_in = map_option (\<lambda>bs. py_for bs session_add_all) (batches batch_size objs_in 0 [])"

text \<open>\<open>self.model(**data, **kwargs)\<close>: a name given twice or unknown to the class is a \<open>TypeError\<close>.\<close>

definition make_model :: "string set \<Rightarrow> (string \<times> pyval) list \<Rightarrow> (string \<times> pyval) list \<Rightarrow> (exn, mapped) outcome" where
  "make_model columns data kwargs =
     (if list_ex (\<lambda>k. k \<in> fst ` set data) (map fst kwargs) then Raise (TypeError ''got multiple values for keyword argument'')
      else if \<not> list_all (\<lambda>k. k \<in> columns) (map fst (data @ kwargs)) then Raise (TypeError ''invalid keyword argument'')
      else Ret \<lparr>mo_attrs = map_of (rev (data @ kwargs)), mo_row = None\<rparr>)"

text \<open>
  \<open>batch_create_from_dict\<close>: all objects of a batch are made before they are added. The new objects take the numbers
  from \<open>start\<close> on.
\<close>

fun add_new :: "nat \<Rightarrow> mapped list \<Rightarrow> unit repo_prog" where
  "add_new n [] = py_ret ()"
| "add_new n (x # xs) = py_bind (py_write (\<lambda>s. s\<lparr>rs_objects := (rs_objects s)(n \<mapsto> x)\<rparr>)) (\<lambda>_.
     py_bind (session_add n) (\<lambda>_. add_new (Suc n) xs))"

fun create_batches :: "string set \<Rightarrow> (string \<times> pyval) list \<Rightarrow> nat \<Rightarrow> (string \<times> pyval) list list list \<Rightarrow> unit repo_prog" where
  "create_batches columns kwargs n [] = py_ret ()"
| "create_batches columns kwargs n (b # bs) = (case oc_mapM (\<lambda>d. make_model columns d kwargs) b of
       Raise e \<Rightarrow> py_raise e
     | Ret xs \<Rightarrow> py_bind (add_new n xs) (\<lambda>_. create_batches columns kwargs (n + length xs) bs))"

definition batch_create_from_dict :: "string set \<Rightarrow> (string \<times> pyval) list \<Rightarrow> nat \<Rightarrow> int \<Rightarrow> (string \<times> pyval) list list \<Rightarrow> unit repo_prog option" where
  "batch_create_from_dict columns kwargs start batch_size objs_in =
     map_option (create_batches columns kwargs start) (batches batch_size objs_in 0 [])"

text \<open>\<open>get_for_update\<close> locks the row it finds, \<open>_exists\<close> and \<open>_get_count\<close> only look.\<close>

definition get_for_update :: "uuid \<Rightarrow> attributes option repo_prog" where
  "get_for_update i = py_bind (py_read rs_table) (\<lambda>t. case map_of t i of
     None \<Rightarrow> py_ret None
   | Some a \<Rightarrow> py_bind (py_write (\<lambda>s. s\<lparr>rs_locked := insert i (rs_locked s)\<rparr>)) (\<lambda>_. py_ret (Some a)))"

definition repo_exists :: "(attributes \<Rightarrow> bool) list \<Rightarrow> bool repo_prog" where
  "repo_exists args = py_read (\<lambda>s. list_ex (\<lambda>r. list_all (\<lambda>f. f (snd r)) args) (rs_table s))"

definition get_count :: "(attributes \<Rightarrow> bool) \<Rightarrow> nat option \<Rightarrow> nat \<Rightarrow> nat repo_prog" where
  "get_count f limit offset = py_read (\<lambda>s. length (page limit offset (filter (\<lambda>r. f (snd r)) (rs_table s))))"

definition get_detail :: "string \<Rightarrow> pyval \<Rightarrow> mapped option repo_prog" where
  "get_detail name x = py_raise (OtherError ''NotImplementedError'')"

section \<open>Lemmas\<close>

lemmas repo_run = py_bind_def py_read_def py_write_def py_ret_def py_raise_def the_object_def

text \<open>\<open>_update\<close> never stores anything: what it sets is discarded by the refresh, and the row is as it was.\<close>

lemma set_attributes_run:
  "rs_objects s n = Some x \<Longrightarrow> \<exists>x'. mo_row x' = mo_row x
     \<and> py_for kvs (set_attribute n) s = (Ret (), s\<lparr>rs_objects := (rs_objects s)(n \<mapsto> x')\<rparr>)"
proof (induction kvs arbitrary: s x)
  case Nil
  then have "s\<lparr>rs_objects := (rs_objects s)(n \<mapsto> x)\<rparr> = s" by (simp add: fun_upd_idem)
  then show ?case by (intro exI [of _ x]) (simp add: py_ret_def del: fun_upd_apply)
next
  case (Cons kv kvs)
  let ?x = "x\<lparr>mo_attrs := (mo_attrs x)(fst kv \<mapsto> snd kv)\<rparr>"
  have "set_attribute n kv s = (Ret (), s\<lparr>rs_objects := (rs_objects s)(n \<mapsto> ?x)\<rparr>)"
    using Cons.prems by (simp add: set_attribute_def repo_run)
  moreover obtain x' where "mo_row x' = mo_row x" "py_for kvs (set_attribute n) (s\<lparr>rs_objects := (rs_objects s)(n \<mapsto> ?x)\<rparr>)
      = (Ret (), s\<lparr>rs_objects := (rs_objects s)(n \<mapsto> x')\<rparr>)"
    using Cons.IH [of "s\<lparr>rs_objects := (rs_objects s)(n \<mapsto> ?x)\<rparr>" ?x] by (auto simp: fun_upd_same simp del: fun_upd_apply)
  ultimately show ?case by (intro exI [of _ x']) (simp add: py_bind_def del: fun_upd_apply)
qed

lemma update_discards:
  assumes "rs_objects s n = Some x" "mo_row x = Some i" "map_of (rs_table s) i = Some a"
  shows "repo_update n obj_in s = (Ret n, s\<lparr>rs_objects := (rs_objects s)(n \<mapsto> \<lparr>mo_attrs = a, mo_row = Some i\<rparr>)\<rparr>)"
proof -
  obtain x' where x': "mo_row x' = mo_row x" and
    r: "py_for obj_in (set_attribute n) s = (Ret (), s\<lparr>rs_objects := (rs_objects s)(n \<mapsto> x')\<rparr>)"
    using set_attributes_run [OF assms(1)] by blast
  have e: "x'\<lparr>mo_attrs := a\<rparr> = \<lparr>mo_attrs = a, mo_row = Some i\<rparr>" using x' assms(2) by (cases x') simp
  show ?thesis using r x' assms
    by (simp add: e repo_update_def session_add_def repo_refresh_def session_refresh_def repo_run)
qed

lemma update_of_new_raises:
  assumes "rs_objects s n = Some x" "mo_row x = None"
  shows "fst (repo_update n obj_in s) = Raise (OtherError ''InvalidRequestError: not persistent'')"
proof -
  obtain x' where "mo_row x' = mo_row x" "py_for obj_in (set_attribute n) s = (Ret (), s\<lparr>rs_objects := (rs_objects s)(n \<mapsto> x')\<rparr>)"
    using set_attributes_run [OF assms(1)] by blast
  then show ?thesis using assms
    by (simp add: repo_update_def session_add_def repo_refresh_def session_refresh_def repo_run)
qed

text \<open>The batches are the objects, cut into pieces of at most the size asked for.\<close>

lemma batches_all:
  assumes "0 < b" "k \<le> length objs"
  shows "\<exists>bs. batches b objs (int k) acc = Some (acc @ bs) \<and> concat bs = drop k objs \<and> (\<forall>p \<in> set bs. p \<noteq> [] \<and> int (length p) \<le> b)"
  using assms(2)
proof (induction "length objs - k" arbitrary: k acc rule: less_induct)
  case less
  show ?case
  proof (cases "k < length objs")
    case True
    define n where "n = nat (min b (int (length objs) - int k))"
    have n: "0 < n" "k + n \<le> length objs" "int n = min b (int (length objs) - int k)"
      using True assms(1) by (auto simp: n_def)
    have piece: "py_slice objs (int k) (int k + int n) = take n (drop k objs)"
      using n(2) True by (simp add: py_slice_def slice_bound_def nat_add_distrib)
    have step: "batches b objs (int k) acc = batches b objs (int (k + n)) (acc @ [take n (drop k objs)])"
      by (subst batches.simps) (use True n piece in \<open>simp add: Let_def\<close>)
    have "length objs - (k + n) < length objs - k" "k + n \<le> length objs" using n True by auto
    from less.hyps [OF this, of "acc @ [take n (drop k objs)]"] obtain bs where
      bs: "batches b objs (int (k + n)) (acc @ [take n (drop k objs)]) = Some ((acc @ [take n (drop k objs)]) @ bs)"
        "concat bs = drop (k + n) objs" "\<forall>p \<in> set bs. p \<noteq> [] \<and> int (length p) \<le> b" by blast
    have "concat (take n (drop k objs) # bs) = drop k objs"
      using bs(2) append_take_drop_id [of n "drop k objs"] by (simp add: add.commute)
    then show ?thesis using bs n True unfolding step by (intro exI [of _ "take n (drop k objs) # bs"]) auto
  next
    case False
    then show ?thesis using less.prems by (subst batches.simps) simp
  qed
qed

text \<open>New objects that are added wait in the order given.\<close>

definition fresh_objects :: "repo_session \<Rightarrow> nat list \<Rightarrow> bool" where
  "fresh_objects s ns \<longleftrightarrow> distinct ns \<and> set ns \<inter> set (rs_pending s) = {}
     \<and> (\<forall>n \<in> set ns. \<exists>x. rs_objects s n = Some x \<and> mo_row x = None)"

lemma add_all_run: "fresh_objects s ns \<Longrightarrow> session_add_all ns s = (Ret (), s\<lparr>rs_pending := rs_pending s @ ns\<rparr>)"
proof (induction ns arbitrary: s)
  case (Cons n ns)
  have "session_add n s = (Ret (), s\<lparr>rs_pending := rs_pending s @ [n]\<rparr>)"
    using Cons.prems by (auto simp: fresh_objects_def session_add_def repo_run)
  moreover have "fresh_objects (s\<lparr>rs_pending := rs_pending s @ [n]\<rparr>) ns" using Cons.prems by (auto simp: fresh_objects_def)
  ultimately show ?case using Cons.IH by (simp add: session_add_all_def py_bind_def)
qed (simp add: session_add_all_def py_ret_def)

lemma add_batches_run:
  "fresh_objects s (concat bs) \<Longrightarrow> py_for bs session_add_all s = (Ret (), s\<lparr>rs_pending := rs_pending s @ concat bs\<rparr>)"
proof (induction bs arbitrary: s)
  case (Cons b bs)
  have "fresh_objects s b" using Cons.prems by (auto simp: fresh_objects_def)
  moreover have "fresh_objects (s\<lparr>rs_pending := rs_pending s @ b\<rparr>) (concat bs)" using Cons.prems by (auto simp: fresh_objects_def)
  ultimately show ?case using Cons.IH add_all_run [of s b] by (simp add: py_bind_def)
qed (simp add: py_ret_def)

lemma batch_create_adds:
  assumes "0 < b" "fresh_objects s ns"
  shows "\<exists>p. batch_create b ns = Some p \<and> p s = (Ret (), s\<lparr>rs_pending := rs_pending s @ ns\<rparr>)"
proof -
  obtain bs where "batches b ns 0 [] = Some bs" "concat bs = ns" using batches_all [OF assms(1), of 0 ns "[]"] by auto
  then show ?thesis using add_batches_run [of s bs] assms(2) by (simp add: batch_create_def)
qed

text \<open>Flushing then stores a row for each, in order, when the keys are new.\<close>

lemma flush_pending_run:
  assumes "\<forall>n \<in> set ns. \<exists>x. rs_objects s n = Some x \<and> mo_row x = None" "distinct ns"
    "distinct (map (\<lambda>n. id_of (the (rs_objects s n))) ns)" "\<forall>n \<in> set ns. map_of (rs_table s) (id_of (the (rs_objects s n))) = None"
  shows "\<exists>f. py_for ns (flush_pending id_of) s = (Ret (), s\<lparr>rs_table := rs_table s
      @ map (\<lambda>n. (id_of (the (rs_objects s n)), mo_attrs (the (rs_objects s n)))) ns, rs_objects := f\<rparr>)"
  using assms
proof (induction ns arbitrary: s)
  case Nil
  then show ?case by (intro exI [of _ "rs_objects s"]) (simp add: py_ret_def)
next
  case (Cons n ns)
  obtain x where x: "rs_objects s n = Some x" using Cons.prems(1) by auto
  define s' where "s' = s\<lparr>rs_table := rs_table s @ [(id_of x, mo_attrs x)], rs_objects := (rs_objects s)(n \<mapsto> x\<lparr>mo_row := Some (id_of x)\<rparr>)\<rparr>"
  have r: "flush_pending id_of n s = (Ret (), s')"
    using Cons.prems(4) x by (simp add: flush_pending_def s'_def repo_run Let_def)
  have same: "rs_objects s' m = rs_objects s m" if "m \<in> set ns" for m using that Cons.prems(2) by (auto simp: s'_def)
  have t: "map_of (rs_table s') k = (case map_of (rs_table s) k of None \<Rightarrow> if k = id_of x then Some (mo_attrs x) else None | Some a \<Rightarrow> Some a)" for k
    by (simp add: s'_def map_add_def split: option.split)
  have new: "id_of (the (rs_objects s m)) \<noteq> id_of x" if "m \<in> set ns" for m
    using that Cons.prems(3) x by (auto simp: image_iff)
  have "\<exists>f. py_for ns (flush_pending id_of) s' = (Ret (), s'\<lparr>rs_table := rs_table s'
      @ map (\<lambda>n. (id_of (the (rs_objects s' n)), mo_attrs (the (rs_objects s' n)))) ns, rs_objects := f\<rparr>)"
  proof (rule Cons.IH)
    show "\<forall>n \<in> set ns. \<exists>x. rs_objects s' n = Some x \<and> mo_row x = None" using Cons.prems(1) same by auto
    show "distinct (map (\<lambda>n. id_of (the (rs_objects s' n))) ns)" using Cons.prems(3) same by (simp cong: map_cong)
    show "\<forall>n \<in> set ns. map_of (rs_table s') (id_of (the (rs_objects s' n))) = None"
      using Cons.prems(4) same t new by (auto simp del: not_None_eq)
  qed (use Cons.prems(2) in simp)
  then obtain f where f: "py_for ns (flush_pending id_of) s' = (Ret (), s'\<lparr>rs_table := rs_table s'
      @ map (\<lambda>n. (id_of (the (rs_objects s' n)), mo_attrs (the (rs_objects s' n)))) ns, rs_objects := f\<rparr>)" by blast
  have "map (\<lambda>n. (id_of (the (rs_objects s' n)), mo_attrs (the (rs_objects s' n)))) ns
      = map (\<lambda>n. (id_of (the (rs_objects s n)), mo_attrs (the (rs_objects s n)))) ns" using same by simp
  then show ?case using f r x by (intro exI [of _ f]) (simp add: py_bind_def s'_def)
qed

text \<open>
  New objects that are saved in batches of any positive size and then flushed are the new rows of the table, in their
  order, and nothing is pending any more; rows that were there stay.
\<close>

lemma saved_batches_stored:
  assumes "0 < b" "fresh_objects s ns" "rs_pending s = []"
    and "distinct (map (\<lambda>n. id_of (the (rs_objects s n))) ns)" "\<forall>n \<in> set ns. map_of (rs_table s) (id_of (the (rs_objects s n))) = None"
  shows "\<exists>p f. batch_create b ns = Some p \<and> py_bind p (\<lambda>_. repo_flush id_of []) s =
    (Ret (), s\<lparr>rs_table := rs_table s @ map (\<lambda>n. (id_of (the (rs_objects s n)), mo_attrs (the (rs_objects s n)))) ns, rs_objects := f\<rparr>)"
proof -
  let ?s = "s\<lparr>rs_pending := ns\<rparr>"
  obtain p where p: "batch_create b ns = Some p" "p s = (Ret (), ?s)" using batch_create_adds [OF assms(1,2)] assms(3) by auto
  obtain f where f: "py_for ns (flush_pending id_of) ?s = (Ret (), ?s\<lparr>rs_table := rs_table ?s
      @ map (\<lambda>n. (id_of (the (rs_objects ?s n)), mo_attrs (the (rs_objects ?s n)))) ns, rs_objects := f\<rparr>)"
    using flush_pending_run [of ns ?s id_of] assms(2,4,5) by (auto simp: fresh_objects_def)
  have "s\<lparr>rs_pending := ns, rs_table := t, rs_objects := f, rs_pending := []\<rparr> = s\<lparr>rs_table := t, rs_objects := f\<rparr>" for t
    using assms(3) by (cases s) simp
  then show ?thesis using p f by (intro exI [of _ p] exI [of _ f]) (simp add: repo_flush_def session_flush_def repo_run)
qed

end
