(* ===== verification/EventLog.thy ===== *)
theory EventLog
  imports Samples Blob TelemetryFlows
begin

text \<open>
  The middlewares of the event bus (\<open>event_bus_middlewares.py\<close>): the records they log and the timing of
  handlers; with the proofs that the bus with them sends the same mails as the one without, and what of an event
  ends up in the log.
\<close>

section \<open>The state of the middlewares\<close>

text \<open>The readings of \<open>time.perf_counter\<close> still to come and those made, the wall clock, the registry, and the records logged.\<close>

record event_log =
  el_clock :: "nat \<Rightarrow> rat"
  el_reads :: nat
  el_wall :: rat
  el_started :: "uuid \<times> nat \<rightharpoonup> rat"
  el_records :: "log_record list"

type_synonym 'a logged = "(world \<times> event_log, exn, 'a) prog"

definition on_world :: "'a app \<Rightarrow> 'a logged" where
  "on_world m = (\<lambda>(w, l). case m w of (r, w') \<Rightarrow> (r, (w', l)))"

definition on_log :: "(event_log, exn, 'a) prog \<Rightarrow> 'a logged" where
  "on_log m = (\<lambda>(w, l). case m l of (r, l') \<Rightarrow> (r, (w, l')))"

text \<open>
  What a request fixes: the trace id of the execution context, \<open>None\<close> when there is no context; the number of the
  object that handles a class of events, which is its \<open>id\<close>; and how times are written.
\<close>

record log_config =
  lc_trace :: "string option"
  lc_handler_id :: "event_type \<Rightarrow> nat"
  lc_occurred_on :: "uuid \<Rightarrow> rat"
  lc_elapsed_text :: "rat option \<Rightarrow> string"

definition get_trace_id :: "log_config \<Rightarrow> (event_log, exn, string) prog" where
  "get_trace_id c = (case lc_trace c of None \<Rightarrow> py_raise LookupError | Some t \<Rightarrow> py_ret t)"

definition perf_counter :: "(event_log, exn, rat) prog" where
  "perf_counter = (\<lambda>l. (Ret (el_clock l (el_reads l)), l\<lparr>el_reads := Suc (el_reads l)\<rparr>))"

definition log_info :: "string \<Rightarrow> (string \<times> pyval) list \<Rightarrow> (event_log, exn, unit) prog" where
  "log_info message extra = py_write (\<lambda>l. l\<lparr>el_records := el_records l @ [\<lparr>lg_levelname = ''INFO'',
     lg_name = ''src.app.infra.event_sourcing.event_bus_middlewares'', lg_created = el_wall l, lg_message = message,
     lg_exc_text = None, lg_extras = extra, lg_event = None\<rparr>]\<rparr>)"

section \<open>The events as dictionaries (domain/identity/events.py)\<close>

fun body_fields :: "event_body \<Rightarrow> (string \<times> pyval) list" where
  "body_fields (UserRegisteredEvent to code name) = [(''recipient'', VStr to), (''otp_code'', VStr code), (''full_name'', VStr name)]"
| "body_fields (UserEmailConfirmedEvent t) = [(''target_value'', VStr t)]"
| "body_fields (ForgotPasswordStep1Event to code) = [(''recipient'', VStr to), (''otp_code'', VStr code)]"
| "body_fields (ForgotPasswordStep2Event to pwd name) = [(''recipient'', VStr to), (''new_password'', VStr pwd), (''full_name'', VStr name)]"

fun class_name :: "event_body \<Rightarrow> string" where
  "class_name (UserRegisteredEvent to code name) = ''UserRegisteredEvent''"
| "class_name (UserEmailConfirmedEvent t) = ''UserEmailConfirmedEvent''"
| "class_name (ForgotPasswordStep1Event to code) = ''ForgotPasswordStep1Event''"
| "class_name (ForgotPasswordStep2Event to pwd name) = ''ForgotPasswordStep2Event''"

text \<open>\<open>model_dump\<close>; the ids are written as their texts.\<close>

definition model_dump :: "log_config \<Rightarrow> event \<Rightarrow> (string \<times> pyval) list" where
  "model_dump c e = [(''event_id'', VStr (uuid_str (ev_id e))), (''occurred_on'', VDec (lc_occurred_on c (ev_id e))),
     (''order'', VInt (ev_order e)), (''meta'', VNone), (''aggregate_id'', VStr (uuid_str (ev_aggregate_id e))),
     (''aggregate_name'', VStr ''user'')] @ body_fields (ev_body e)"

section \<open>LoggingEventPublisherMiddleware and ObservabilityEventHandlerMiddleware\<close>

definition before_publish :: "log_config \<Rightarrow> event \<Rightarrow> (event_log, exn, unit) prog" where
  "before_publish c e = py_bind (get_trace_id c) (\<lambda>t. log_info (t @ '' - Event published'') (model_dump c e))"

definition after_publish :: "log_config \<Rightarrow> event \<Rightarrow> (event_log, exn, unit) prog" where
  "after_publish c e = py_ret ()"

definition registry_key :: "log_config \<Rightarrow> event \<Rightarrow> uuid \<times> nat" where
  "registry_key c e = (ev_id e, lc_handler_id c (event_type_of e))"

definition before_handler :: "log_config \<Rightarrow> event \<Rightarrow> (event_log, exn, unit) prog" where
  "before_handler c e =
     py_bind perf_counter (\<lambda>now.
     py_bind (py_write (\<lambda>l. l\<lparr>el_started := (el_started l)(registry_key c e \<mapsto> now)\<rparr>)) (\<lambda>_.
     py_bind (get_trace_id c) (\<lambda>t.
     log_info (t @ '' - Before handling event: '' @ class_name (ev_body e)) (model_dump c e))))"

definition after_handler :: "log_config \<Rightarrow> event \<Rightarrow> (event_log, exn, unit) prog" where
  "after_handler c e =
     py_bind (py_read (\<lambda>l. el_started l (registry_key c e))) (\<lambda>started.
     py_bind (py_write (\<lambda>l. l\<lparr>el_started := (el_started l)(registry_key c e := None)\<rparr>)) (\<lambda>_.
     py_bind (case started of None \<Rightarrow> py_ret None | Some s \<Rightarrow> py_bind perf_counter (\<lambda>now. py_ret (Some (now - s)))) (\<lambda>elapsed.
     py_bind (get_trace_id c) (\<lambda>t.
     log_info (t @ '' - After handling event: '' @ class_name (ev_body e) @ ''. Completed in: '' @ lc_elapsed_text c elapsed)
       [(''event_id'', VStr (uuid_str (ev_id e)))]))))"

text \<open>The bus as the container builds it, with the subscriptions of \<open>setup\<close>.\<close>

definition logged_bus :: "log_config \<Rightarrow> (world \<times> event_log, event, event_type) bus" where
  "logged_bus c =
     subscribe TUserEmailConfirmed (on_world \<circ> user_email_confirmed_handler)
     (subscribe TForgotStep2 (on_world \<circ> forgot_step2_handler)
     (subscribe TForgotStep1 (on_world \<circ> forgot_step1_handler)
     (subscribe TUserRegistered (on_world \<circ> user_registered_handler)
     (new_bus [(on_log \<circ> before_publish c, on_log \<circ> after_publish c)] [(on_log \<circ> before_handler c, on_log \<circ> after_handler c)]))))"

section \<open>Logging does not change what the bus does\<close>

lemma on_world_app [simp]: "on_world m (w, l) = (case m w of (r, w') \<Rightarrow> (r, (w', l)))"
  by (simp add: on_world_def)

lemma on_log_app [simp]: "on_log m (w, l) = (case m l of (r, l') \<Rightarrow> (r, (w, l')))"
  by (simp add: on_log_def)

text \<open>The handler registered for an event, without the middlewares.\<close>

definition handler_for :: "event \<Rightarrow> unit app" where
  "handler_for e = (case event_type_of e of TUserRegistered \<Rightarrow> user_registered_handler e | TUserEmailConfirmed \<Rightarrow> user_email_confirmed_handler e
     | TForgotStep1 \<Rightarrow> forgot_step1_handler e | TForgotStep2 \<Rightarrow> forgot_step2_handler e)"

lemma py_bind_unit: "py_bind m (\<lambda>_. py_ret ()) = m"
  by (rule ext) (simp add: py_bind_def py_ret_def split: prod.split outcome.split)

lemma logged_handlers: "bus_handlers (logged_bus c) (event_type_of e) =
    [wrap_handler [(on_log \<circ> before_handler c, on_log \<circ> after_handler c)] (case event_type_of e of
       TUserRegistered \<Rightarrow> on_world \<circ> user_registered_handler | TUserEmailConfirmed \<Rightarrow> on_world \<circ> user_email_confirmed_handler
     | TForgotStep1 \<Rightarrow> on_world \<circ> forgot_step1_handler | TForgotStep2 \<Rightarrow> on_world \<circ> forgot_step2_handler)]"
  by (cases "event_type_of e") (simp_all add: logged_bus_def subscribe_def new_bus_def)

lemma publish_logged: "publish event_type_of (logged_bus c) e =
    py_bind (on_log (before_publish c e)) (\<lambda>_. py_bind (on_log (before_handler c e)) (\<lambda>_.
    py_bind (on_world (handler_for e)) (\<lambda>_. py_bind (on_log (after_handler c e)) (\<lambda>_. on_log (after_publish c e)))))"
proof -
  have mws: "bus_publisher_mws (logged_bus c) = [(on_log \<circ> before_publish c, on_log \<circ> after_publish c)]"
    by (simp add: logged_bus_def subscribe_def new_bus_def)
  have h: "(case event_type_of e of TUserRegistered \<Rightarrow> on_world \<circ> user_registered_handler | TUserEmailConfirmed \<Rightarrow> on_world \<circ> user_email_confirmed_handler
     | TForgotStep1 \<Rightarrow> on_world \<circ> forgot_step1_handler | TForgotStep2 \<Rightarrow> on_world \<circ> forgot_step2_handler) e = on_world (handler_for e)"
    by (simp add: handler_for_def split: event_type.split)
  show ?thesis
    unfolding publish_def mws logged_handlers
    by (simp add: wrap_handler_def h py_bind_unit py_bind_assoc)
qed

lemma bus_publish_handler: "bus_publish e = handler_for e"
  by (rule ext, cases "ev_body e")
    (simp_all add: bus_publish_def publish_def identity_bus_def subscribe_def new_bus_def
      wrap_handler_def log_middleware_def event_type_of_def handler_for_def py_bind_unit)

text \<open>The records of one event that was handled.\<close>

definition info_record :: "event_log \<Rightarrow> string \<Rightarrow> (string \<times> pyval) list \<Rightarrow> log_record" where
  "info_record l message extra = \<lparr>lg_levelname = ''INFO'', lg_name = ''src.app.infra.event_sourcing.event_bus_middlewares'',
     lg_created = el_wall l, lg_message = message, lg_exc_text = None, lg_extras = extra, lg_event = None\<rparr>"

definition event_records :: "log_config \<Rightarrow> string \<Rightarrow> event \<Rightarrow> event_log \<Rightarrow> log_record list" where
  "event_records c t e l = [info_record l (t @ '' - Event published'') (model_dump c e),
     info_record l (t @ '' - Before handling event: '' @ class_name (ev_body e)) (model_dump c e),
     info_record l (t @ '' - After handling event: '' @ class_name (ev_body e) @ ''. Completed in: ''
       @ lc_elapsed_text c (Some (el_clock l (Suc (el_reads l)) - el_clock l (el_reads l)))) [(''event_id'', VStr (uuid_str (ev_id e)))]]"

lemmas log_run = before_publish_def before_handler_def after_handler_def after_publish_def get_trace_id_def log_info_def perf_counter_def
  py_bind_def py_ret_def py_raise_def py_read_def py_write_def

text \<open>
  Claim C22. Within a request the bus with its middlewares does to the tables and mails exactly what the bus without
  them does, so that leaving them out elsewhere is faithful. Beside it writes three records, with the trace id of the
  request and the time the handler took, and forgets the start of the handler. Outside a request nothing is
  handled: the first middleware raises.
\<close>

theorem event_log_refines:
  "publish event_type_of (logged_bus c) e (w, l) = (case lc_trace c of
     None \<Rightarrow> (Raise LookupError, (w, l))
   | Some t \<Rightarrow> (fst (bus_publish e w), (snd (bus_publish e w),
        l\<lparr>el_reads := el_reads l + 2, el_started := (el_started l)(registry_key c e := None),
          el_records := el_records l @ event_records c t e l\<rparr>)))"
proof (cases "lc_trace c")
  case None
  then show ?thesis by (simp add: publish_logged log_run)
next
  case (Some t)
  have h: "handler_for e w = (Ret (), w\<lparr>w_mails := w_mails w @ event_mail (ev_body e)\<rparr>)"
    using bus_publish_spec [of e w] by (simp add: bus_publish_handler)
  show ?thesis using Some by (simp add: publish_logged log_run h bus_publish_handler event_records_def info_record_def)
qed

text \<open>A handler that raises leaves its start in the registry: nothing removes it.\<close>

lemma failed_handler_leaks:
  assumes "h e w = (Raise x, w')" "lc_trace c = Some t"
  shows "\<exists>l'. wrap_handler [(on_log \<circ> before_handler c, on_log \<circ> after_handler c)] (on_world \<circ> h) e (w, l) = (Raise x, (w', l'))
    \<and> el_started l' (registry_key c e) = Some (el_clock l (el_reads l))"
  using assms by (simp add: wrap_handler_def log_run)

section \<open>What of an event is in the log\<close>

lemma event_keys:
  "\<not> is_sensitive_key ''event_id''" "\<not> is_sensitive_key ''occurred_on''" "\<not> is_sensitive_key ''order''" "\<not> is_sensitive_key ''meta''"
  "\<not> is_sensitive_key ''aggregate_id''" "\<not> is_sensitive_key ''aggregate_name''" "\<not> is_sensitive_key ''recipient''"
  "\<not> is_sensitive_key ''otp_code''" "\<not> is_sensitive_key ''full_name''" "is_sensitive_key ''new_password''"
  by code_simp+

lemma masked_text: "\<not> looks_binary (VStr s) \<Longrightarrow> mask (Suc 0) (VStr s) = VStr s"
  by (simp add: mask.simps [of "Suc 0"] max_depth_def)

text \<open>The records that publishing an event adds to the log, as the formatter writes them.\<close>

definition log_lines :: "string \<Rightarrow> string option \<times> string option \<Rightarrow> log_config \<Rightarrow> event \<Rightarrow> world \<Rightarrow> event_log \<Rightarrow> event_rec list" where
  "log_lines service ctx c e w l = map (format_record service ctx)
     (drop (length (el_records l)) (el_records (snd (snd (publish event_type_of (logged_bus c) e (w, l))))))"

definition entry :: "event_rec \<Rightarrow> string \<Rightarrow> pyval option" where
  "entry r k = (case te_data r of Some (VDict kvs) \<Rightarrow> map_of kvs k | _ \<Rightarrow> None)"

lemma line_records:
  "log_lines service ctx c e w l = (case lc_trace c of None \<Rightarrow> [] | Some t \<Rightarrow> map (format_record service ctx) (event_records c t e l))"
proof (cases "lc_trace c")
  case None
  then show ?thesis by (simp add: log_lines_def publish_logged log_run)
next
  case (Some t)
  have h: "handler_for e w = (Ret (), w\<lparr>w_mails := w_mails w @ event_mail (ev_body e)\<rparr>)"
    using bus_publish_spec [of e w] by (simp add: bus_publish_handler)
  show ?thesis using Some by (simp add: log_lines_def publish_logged log_run h event_records_def info_record_def)
qed

lemma format_info: "format_record service ctx (info_record l message extra) = (mk_event_rec service (el_wall l))
    \<lparr>te_level := ''INFO'', te_kind := KIND_LOG, te_trace_id := fst ctx, te_user_id := snd ctx,
     te_logger := Some ''src.app.infra.event_sourcing.event_bus_middlewares'', te_message := Some (mask_text message),
     te_traceback := None, te_data := (if extra = [] then None else Some (VDict (map (\<lambda>kv. (fst kv,
       if is_sensitive_key (fst kv) then VStr redacted else if looks_binary (snd kv) then VStr omitted else mask (Suc 0) (snd kv))) extra)))\<rparr>"
  by (simp add: format_record_def info_record_def mask.simps [of 0] max_depth_def)

text \<open>
  Claim C23. A new password never reaches the log: whatever the event of a finished password reset carries beside it, the
  records that publishing it adds are the same for every new password, in all their fields, and its own entry is
  replaced. But the one-time code of a registration or a password reset, which is as good as the password while it
  is valid, is written as it is in the first two of the three records of its event, because no word that marks a
  secret occurs in the name of its field.
\<close>

theorem event_log_secrets:
  assumes "lc_trace c = Some t" "\<not> looks_binary (VStr code)"
  shows "log_lines service ctx c (e\<lparr>ev_body := ForgotPasswordStep2Event to pwd name\<rparr>) w l
      = log_lines service ctx c (e\<lparr>ev_body := ForgotPasswordStep2Event to pwd' name\<rparr>) w' l
    \<and> map (\<lambda>r. entry r ''new_password'') (log_lines service ctx c (e\<lparr>ev_body := ForgotPasswordStep2Event to pwd name\<rparr>) w l)
      = [Some (VStr redacted), Some (VStr redacted), None]
    \<and> map (\<lambda>r. entry r ''otp_code'') (log_lines service ctx c (e\<lparr>ev_body := UserRegisteredEvent to code name\<rparr>) w l)
      = [Some (VStr code), Some (VStr code), None]
    \<and> map (\<lambda>r. entry r ''otp_code'') (log_lines service ctx c (e\<lparr>ev_body := ForgotPasswordStep1Event to code\<rparr>) w l)
      = [Some (VStr code), Some (VStr code), None]"
  using assms by (simp add: line_records event_records_def format_info entry_def model_dump_def event_keys masked_text)

definition sample_log_config :: log_config where
  "sample_log_config = \<lparr>lc_trace = Some ''t'', lc_handler_id = (\<lambda>t. 1), lc_occurred_on = (\<lambda>e. 0), lc_elapsed_text = (\<lambda>r. ''0.1'')\<rparr>"

definition sample_log :: event_log where
  "sample_log = \<lparr>el_clock = (\<lambda>n. 0), el_reads = 0, el_wall = 0, el_started = Map.empty, el_records = []\<rparr>"

definition sample_event :: event where
  "sample_event = \<lparr>ev_id = 1, ev_order = 0, ev_aggregate_id = 2, ev_body = UserRegisteredEvent ''a@b.c'' ''123456'' ''Ann''\<rparr>"

theorem event_log_secrets_witness:
  "log_lines ''api'' (None, None) sample_log_config (sample_event\<lparr>ev_body := ForgotPasswordStep2Event ''a@b.c'' ''old'' ''Ann''\<rparr>) sample_world sample_log
     = log_lines ''api'' (None, None) sample_log_config (sample_event\<lparr>ev_body := ForgotPasswordStep2Event ''a@b.c'' ''new'' ''Ann''\<rparr>) sample_world sample_log
   \<and> map (\<lambda>r. entry r ''otp_code'') (log_lines ''api'' (None, None) sample_log_config sample_event sample_world sample_log)
     = [Some (VStr ''123456''), Some (VStr ''123456''), None]"
proof -
  have "\<not> looks_binary (VStr ''123456'')" by code_simp
  moreover have "sample_event\<lparr>ev_body := UserRegisteredEvent ''a@b.c'' ''123456'' ''Ann''\<rparr> = sample_event" by (simp add: sample_event_def)
  moreover have "lc_trace sample_log_config = Some ''t''" by (simp add: sample_log_config_def)
  ultimately show ?thesis
    using event_log_secrets [where code = "''123456''" and c = sample_log_config and t = "''t''" and e = sample_event
      and to = "''a@b.c''" and name = "''Ann''" and l = sample_log and pwd = "''old''" and pwd' = "''new''" and w = sample_world
      and w' = sample_world and service = "''api''" and ctx = "(None, None)"] by simp
qed

end
