(* ===== verification/Application.thy ===== *)
theory Application
  imports TelemetryFlows Http
begin

text \<open>
  The application object (\<open>config/asgi.py\<close>, \<open>routers/health.py\<close>), the environment it asks about
  (\<open>utils/environment/env_utils.py\<close>) with its caches, the execution context of a request
  (\<open>execution_context.py\<close>, \<open>execution_context_provider.py\<close>) and the bearer scheme (\<open>jwt_bearer_scheme.py\<close>).
\<close>

section \<open>DeploymentEnvironment (env\_utils.py)\<close>

definition PRODUCTION :: string where "PRODUCTION = ''production''"
definition DEVELOPMENT :: string where "DEVELOPMENT = ''development''"
definition TESTING :: string where "TESTING = ''testing''"

fun environment_value :: "environment \<Rightarrow> string" where
  "environment_value Production = PRODUCTION"
| "environment_value Development = DEVELOPMENT"
| "environment_value Testing = TESTING"

text \<open>
  The process: its variables, the configuration once the container is wired, and what \<open>lru_cache\<close> keeps of each class method.
\<close>

record deployment =
  dv_vars :: "string \<rightharpoonup> string"
  dv_config :: "app_config option"
  dv_environment :: "string option"
  dv_prod :: "bool option"
  dv_dev :: "bool option"
  dv_test :: "bool option"
  dv_debug :: "bool option"

type_synonym 'a deployed = "(deployment, exn, 'a) prog"

definition get_environment :: "string deployed" where
  "get_environment = py_bind (py_read dv_environment) (\<lambda>kept. case kept of
     Some v \<Rightarrow> py_ret v
   | None \<Rightarrow> py_bind (py_read (\<lambda>d. case dv_config d of
         Some c \<Rightarrow> environment_value (ac_environment c)
       | None \<Rightarrow> (case dv_vars d ''APP_ENVIRONMENT'' of Some v \<Rightarrow> v | None \<Rightarrow> DEVELOPMENT))) (\<lambda>v.
     py_bind (py_write (\<lambda>d. d\<lparr>dv_environment := Some v\<rparr>)) (\<lambda>_. py_ret v)))"

definition kept_test :: "(deployment \<Rightarrow> bool option) \<Rightarrow> (bool \<Rightarrow> deployment \<Rightarrow> deployment) \<Rightarrow> (string \<Rightarrow> bool) \<Rightarrow> bool deployed" where
  "kept_test get put test = py_bind (py_read get) (\<lambda>kept. case kept of
     Some b \<Rightarrow> py_ret b
   | None \<Rightarrow> py_bind get_environment (\<lambda>v. py_bind (py_write (put (test v))) (\<lambda>_. py_ret (test v))))"

definition is_prod :: "bool deployed" where
  "is_prod = kept_test dv_prod (\<lambda>b d. d\<lparr>dv_prod := Some b\<rparr>) (\<lambda>v. v = PRODUCTION)"

definition is_dev :: "bool deployed" where
  "is_dev = kept_test dv_dev (\<lambda>b d. d\<lparr>dv_dev := Some b\<rparr>) (\<lambda>v. v = DEVELOPMENT)"

definition is_test :: "bool deployed" where
  "is_test = kept_test dv_test (\<lambda>b d. d\<lparr>dv_test := Some b\<rparr>) (\<lambda>v. v = TESTING)"

definition should_debug :: "bool deployed" where
  "should_debug = kept_test dv_debug (\<lambda>b d. d\<lparr>dv_debug := Some b\<rparr>) (\<lambda>v. v = DEVELOPMENT \<or> v = TESTING)"

text \<open>\<open>_app_config\<close> returns the marker of the container before it is wired; that has no \<open>cors_origins\<close>.\<close>

definition cors_allowed_origins :: "string list deployed" where
  "cors_allowed_origins = py_bind (py_read dv_config) (\<lambda>c. case c of
     None \<Rightarrow> py_raise (AttributeError ''cors_origins'') | Some c \<Rightarrow> py_ret (cors_origins c))"

section \<open>The application (asgi.py)\<close>

definition API_PREFIX :: string where "API_PREFIX = ''/api/v1''"

text \<open>A handler with its path below the application's; static files have their directories.\<close>

datatype app_handler = Healthcheck | System_Schema | Identity_Router | Blob_Router | Static_Files "string list"

definition handler_path :: "app_handler \<Rightarrow> string" where
  "handler_path h = (case h of Healthcheck \<Rightarrow> ''/healthcheck/'' | System_Schema \<Rightarrow> ''/get-schema'' | Identity_Router \<Rightarrow> ''/identity''
     | Blob_Router \<Rightarrow> ''/blobs'' | Static_Files ds \<Rightarrow> ''/media'')"

datatype middleware_class = Session_DI | Auth | Telemetry_Events

text \<open>A dependency that \<open>get_current_user_from_request\<close> makes: whether a user is required and whether an API key will do.\<close>

datatype dependency = Provides_Mediator | Provides_Bearer | Provides_Context | Provides_User bool bool

record litestar_app =
  la_debug :: bool
  la_path :: string
  la_handlers :: "app_handler list"
  la_cors_origins :: "string list"
  la_middlewares :: "middleware_class list"
  la_dependencies :: "(string \<times> dependency) list"
  la_docs_path :: string

definition litestar_app_factory :: "litestar_app deployed" where
  "litestar_app_factory =
     py_bind should_debug (\<lambda>static.
     py_bind should_debug (\<lambda>debug.
     py_bind cors_allowed_origins (\<lambda>origins.
     py_ret \<lparr>la_debug = debug, la_path = API_PREFIX,
       la_handlers = [Healthcheck, System_Schema, Identity_Router, Blob_Router] @ (if static then [Static_Files [''media'']] else []),
       la_cors_origins = origins, la_middlewares = [Session_DI, Auth, Telemetry_Events],
       la_dependencies = [(''mediator'', Provides_Mediator), (''jwt_bearer_scheme'', Provides_Bearer), (''ex_ctx'', Provides_Context),
         (''muser'', Provides_User False False), (''user'', Provides_User True False), (''apik_user'', Provides_User True True)],
       la_docs_path = ''/docs''\<rparr>)))"

text \<open>Where a handler is reached: the path of the application comes before every path.\<close>

definition served_at :: "litestar_app \<Rightarrow> app_handler \<Rightarrow> string" where
  "served_at a h = la_path a @ handler_path h"

definition healthcheck :: pyval where
  "healthcheck = VDict [(''status'', VStr ''ok'')]"

section \<open>The execution context\<close>

record request_url =
  ru_scheme :: string
  ru_host :: string
  ru_port :: "int option"
  ru_path :: string
  ru_query :: string

record exec_context =
  xc_trace_id :: uuid
  xc_user :: "principal option"
  xc_url :: request_url

text \<open>The context variable; a token of \<open>set\<close> is the value it had before.\<close>

type_synonym context_var = "exec_context option"

definition create_context :: "uuid \<Rightarrow> principal option \<Rightarrow> request_url \<Rightarrow> context_var \<Rightarrow> (exec_context \<times> context_var) \<times> context_var" where
  "create_context trace user url v = (let c = \<lparr>xc_trace_id = trace, xc_user = user, xc_url = url\<rparr> in ((c, v), Some c))"

definition get_context :: "context_var \<Rightarrow> (exn, exec_context) outcome" where
  "get_context v = (case v of None \<Rightarrow> Raise LookupError | Some c \<Rightarrow> Ret c)"

definition clear_context :: "context_var \<Rightarrow> context_var \<Rightarrow> context_var" where
  "clear_context token v = token"

definition context_user_id :: "exec_context \<Rightarrow> uuid option" where
  "context_user_id c = map_option principal_id (xc_user c)"

text \<open>The URL that \<open>AuthMiddleware\<close> puts in it.\<close>

definition scope_url :: "string option \<Rightarrow> string \<times> int option \<Rightarrow> string \<Rightarrow> string \<Rightarrow> request_url" where
  "scope_url scheme server path query = \<lparr>ru_scheme = (case scheme of Some s \<Rightarrow> s | None \<Rightarrow> ''https''), ru_host = fst server,
     ru_port = snd server, ru_path = path, ru_query = query\<rparr>"

text \<open>What \<open>AuthMiddleware\<close> does around the rest of a request, with the context the rest runs in.\<close>

definition in_context :: "uuid \<Rightarrow> principal option \<Rightarrow> request_url \<Rightarrow> (context_var, exn, 'a) prog \<Rightarrow> (context_var, exn, 'a) prog" where
  "in_context trace user url rest = (\<lambda>v. case create_context trace user url v of ((c, token), v') \<Rightarrow>
     (case rest v' of (r, v'') \<Rightarrow> (r, clear_context token v'')))"

section \<open>JWTBearer (jwt\_bearer\_scheme.py)\<close>

definition bearer_prefix :: string where "bearer_prefix = ''Bearer ''"

definition jwt_bearer :: "string option \<Rightarrow> (exn, string) outcome" where
  "jwt_bearer auth_header = (case auth_header of
     None \<Rightarrow> Raise (HTTPException 401 ''Authorization header is missing'' VNone)
   | Some h \<Rightarrow>
       if h = [] then Raise (HTTPException 401 ''Authorization header is missing'' VNone)
       else if \<not> py_startswith h bearer_prefix then Raise (HTTPException 401 ''Invalid Authorization scheme, expected Bearer'' VNone)
       else (let token = py_strip (drop (length bearer_prefix) h) in
         if token = [] then Raise (HTTPException 401 ''Bearer token is empty'' VNone) else Ret token))"

section \<open>Lemmas\<close>

lemmas deployed_run = py_bind_def py_read_def py_write_def py_ret_def py_raise_def

text \<open>Once asked, the environment is never looked at again.\<close>

lemma environment_kept: "dv_environment d = Some v \<Longrightarrow> get_environment d = (Ret v, d)"
  by (simp add: get_environment_def deployed_run)

lemma environment_asked: "\<exists>v d'. get_environment d = (Ret v, d') \<and> dv_environment d' = Some v \<and> dv_config d' = dv_config d"
  by (cases "dv_environment d") (simp_all add: get_environment_def deployed_run)

text \<open>No answer was kept yet, or all kept ones are those of the configuration.\<close>

definition kept_right :: "deployment \<Rightarrow> bool" where
  "kept_right d \<longleftrightarrow> (\<exists>c. dv_config d = Some c \<and> (let v = environment_value (ac_environment c) in
     dv_environment d \<in> {None, Some v} \<and> dv_prod d \<in> {None, Some (v = PRODUCTION)} \<and> dv_dev d \<in> {None, Some (v = DEVELOPMENT)}
     \<and> dv_test d \<in> {None, Some (v = TESTING)} \<and> dv_debug d \<in> {None, Some (v = DEVELOPMENT \<or> v = TESTING)}))"

lemma get_environment_right:
  assumes "kept_right d" "dv_config d = Some c"
  shows "get_environment d = (Ret (environment_value (ac_environment c)), d\<lparr>dv_environment := Some (environment_value (ac_environment c))\<rparr>)"
proof (cases "dv_environment d")
  case None
  then show ?thesis using assms(2) by (simp add: get_environment_def deployed_run)
next
  case (Some v)
  then have "v = environment_value (ac_environment c)" using assms by (simp add: kept_right_def Let_def)
  then show ?thesis using Some by (simp add: environment_kept)
qed

lemma debug_values: "(environment_value n = DEVELOPMENT \<or> environment_value n = TESTING) \<longleftrightarrow> n = Development \<or> n = Testing"
  by (cases n) (simp_all add: PRODUCTION_def DEVELOPMENT_def TESTING_def)

lemma should_debug_right:
  assumes "kept_right d" "dv_config d = Some c"
  shows "fst (should_debug d) = Ret (app_debug c) \<and> kept_right (snd (should_debug d)) \<and> dv_config (snd (should_debug d)) = Some c"
proof (cases "dv_debug d")
  case None
  let ?v = "environment_value (ac_environment c)"
  have "should_debug d = (Ret (app_debug c), d\<lparr>dv_environment := Some ?v, dv_debug := Some (app_debug c)\<rparr>)"
    using None get_environment_right [OF assms]
    by (simp add: should_debug_def kept_test_def deployed_run debug_values app_debug_def)
  moreover have "kept_right (d\<lparr>dv_environment := Some ?v, dv_debug := Some (app_debug c)\<rparr>)"
    using assms by (simp add: kept_right_def Let_def debug_values app_debug_def)
  ultimately show ?thesis using assms(2) by simp
next
  case (Some b)
  then have "b = app_debug c" using assms by (simp add: kept_right_def Let_def debug_values app_debug_def)
  then show ?thesis using Some assms by (simp add: should_debug_def kept_test_def deployed_run)
qed

text \<open>
  Asked before the container is wired, the variable decides, and it goes on deciding afterwards: a production
  configuration that comes from a file then runs with the debug answers of a process.
\<close>

lemma early_question_decides:
  assumes "dv_config d = None" "dv_vars d ''APP_ENVIRONMENT'' = None" "dv_environment d = None" "dv_debug d = None" "ac_environment c = Production"
  shows "let d' = (snd (should_debug d))\<lparr>dv_config := Some c\<rparr> in fst (should_debug d') = Ret True \<and> \<not> app_debug c"
  using assms by (simp add: should_debug_def kept_test_def get_environment_def deployed_run app_debug_def Let_def)

lemma in_context_restores: "snd (in_context trace user url rest v) = v"
  by (simp add: in_context_def create_context_def clear_context_def Let_def split: prod.split)

lemma in_context_sees: "fst (in_context trace user url (\<lambda>v. (get_context v, v)) v) = Ret \<lparr>xc_trace_id = trace, xc_user = user, xc_url = url\<rparr>"
  by (simp add: in_context_def create_context_def get_context_def Let_def)

lemma jwt_bearer_reads: "py_strip t = t \<Longrightarrow> t \<noteq> [] \<Longrightarrow> jwt_bearer (Some (''Bearer '' @ t)) = Ret t"
  by (simp add: jwt_bearer_def bearer_prefix_def py_startswith_def)

text \<open>
  The application that is built from a wired container agrees with its configuration: it debugs, and
  serves the media itself, exactly in the debug environments, and allows the origins of the configuration. The session
  comes before the authentication and that before the telemetry. Whatever the configuration, the media of the debug
  environments are served below \<open>/api/v1\<close>, where no URL that is given out points; and the liveness check has a
  path that the default exclusions of the telemetry do not match.
\<close>

theorem application_built:
  assumes "kept_right d" "dv_config d = Some c"
  shows "\<exists>a d'. litestar_app_factory d = (Ret a, d')
    \<and> la_debug a = app_debug c \<and> la_cors_origins a = cors_origins c
    \<and> (Static_Files [''media''] \<in> set (la_handlers a) \<longleftrightarrow> ac_environment c \<noteq> Production)
    \<and> la_middlewares a = [Session_DI, Auth, Telemetry_Events]
    \<and> (\<nexists>path rest. make_media_full_url (app_base_url c) path = app_base_url c @ served_at a (Static_Files [''media'']) @ rest)
    \<and> exclude_urls (excluded_prefixes default_exclude_url_prefixes) (e\<lparr>te_url := Some (served_at a Healthcheck)\<rparr>)"
proof -
  obtain d1 where d1: "should_debug d = (Ret (app_debug c), d1)" "kept_right d1" "dv_config d1 = Some c"
    using should_debug_right [OF assms] by (cases "should_debug d") auto
  obtain d2 where d2: "should_debug d1 = (Ret (app_debug c), d2)" "dv_config d2 = Some c"
    using should_debug_right [OF d1(2,3)] by (cases "should_debug d1") auto
  let ?a = "\<lparr>la_debug = app_debug c, la_path = API_PREFIX,
       la_handlers = [Healthcheck, System_Schema, Identity_Router, Blob_Router] @ (if app_debug c then [Static_Files [''media'']] else []),
       la_cors_origins = cors_origins c, la_middlewares = [Session_DI, Auth, Telemetry_Events],
       la_dependencies = [(''mediator'', Provides_Mediator), (''jwt_bearer_scheme'', Provides_Bearer), (''ex_ctx'', Provides_Context),
         (''muser'', Provides_User False False), (''user'', Provides_User True False), (''apik_user'', Provides_User True True)],
       la_docs_path = ''/docs''\<rparr>"
  have "litestar_app_factory d = (Ret ?a, d2)"
    by (simp add: litestar_app_factory_def cors_allowed_origins_def deployed_run d1 d2)
  moreover have "app_debug c \<longleftrightarrow> ac_environment c \<noteq> Production" by (cases "ac_environment c") (simp_all add: app_debug_def)
  moreover have "make_media_full_url u path \<noteq> u @ ''/api/v1/media'' @ rest" for u path rest
    by (simp add: make_media_full_url_def make_full_url_def lstrip_slash_def)
  moreover have "excluded_prefixes default_exclude_url_prefixes = [''/healthcheck'', ''/api/v1/docs'', ''/api/v1/get-schema'']"
    by code_simp
  ultimately show ?thesis
    by (intro exI [of _ ?a] exI [of _ d2])
      (simp add: served_at_def API_PREFIX_def handler_path_def exclude_urls_def py_startswith_def)
qed

definition sample_deployment :: deployment where
  "sample_deployment = \<lparr>dv_vars = Map.empty, dv_config = Some \<lparr>ac_environment = Development, ac_secret_key = ''k'', ac_domain = ''localhost:8000'',
       ac_timezone = ''UTC'', ac_aes_key = [], ac_cors_allowed_origins = []\<rparr>,
     dv_environment = Some ''development'', dv_prod = None, dv_dev = None, dv_test = None, dv_debug = None\<rparr>"

theorem application_built_witness:
  "\<exists>a d'. litestar_app_factory sample_deployment = (Ret a, d') \<and> la_debug a \<and> Static_Files [''media''] \<in> set (la_handlers a)
     \<and> la_middlewares a = [Session_DI, Auth, Telemetry_Events]"
proof -
  obtain c where c: "dv_config sample_deployment = Some c" "ac_environment c = Development"
    by (simp add: sample_deployment_def)
  have "kept_right sample_deployment"
    by (simp add: kept_right_def sample_deployment_def DEVELOPMENT_def)
  then show ?thesis using application_built [OF _ c(1)] c(2) by (fastforce simp: app_debug_def)
qed

end
