(* ===== verification/FilterSchema.thy ===== *)
theory FilterSchema
  imports FilterDocs "HOL-Library.AList"
begin

text \<open>
  The JSON schemas of the query models: the constraints that the injector of a filter adds to the
  schema pydantic generates for its field (\<open>FilterPipelineInjector.__get_pydantic_json_schema__\<close> in
  \<open>modules/filtering/meta.py\<close>), the annotations its metaclass starts from, and the texts
  \<open>ListQuery\<close> adds for \<open>limit\<close> and \<open>offset\<close> (\<open>shared_kernel/pydantic/types.py\<close>).

  A schema is a Python dict from keywords to values. What pydantic generates is an argument; what a
  schema admits (\<open>json_admits\<close>) is the meaning JSON Schema gives to the keywords used here.
\<close>

section \<open>Annotations of a class body (meta.py)\<close>

text \<open>
  The namespace of a class body: \<open>__annotations__\<close>, stored by Python before 3.14, and the value of
  the \<open>__annotate__\<close> function that later versions store. \<open>annotationlib\<close> exists from 3.14 on.
\<close>

record class_body =
  cb_annotations :: "(string \<times> annotation) list option"
  cb_annotate :: "(string \<times> annotation) list option"

definition namespace_annotations :: "bool \<Rightarrow> class_body \<Rightarrow> (string \<times> annotation) list" where
  "namespace_annotations has_annotationlib body =
     (case cb_annotations body of
        Some anns \<Rightarrow> anns
      | None \<Rightarrow>
          if \<not> has_annotationlib then []
          else (case cb_annotate body of None \<Rightarrow> [] | Some anns \<Rightarrow> anns))"

section \<open>The schema of a filter (meta.py)\<close>

type_synonym json_schema = "(string \<times> pyval) list"

text \<open>\<open>isinstance(value, (int, float, Decimal))\<close> without \<open>bool\<close>; a member of an \<open>IntEnum\<close> is an \<open>int\<close>.\<close>

fun is_number :: "pyval \<Rightarrow> bool" where
  "is_number (VInt i) = True"
| "is_number (VDec q) = True"
| "is_number (VEnum n v) = is_number v"
| "is_number _ = False"

definition json_number :: "pyval \<Rightarrow> pyval" where
  "json_number v = (case v of VDec q \<Rightarrow> if q = of_int \<lfloor>q\<rfloor> then VInt \<lfloor>q\<rfloor> else v | _ \<Rightarrow> v)"

definition set_keyword :: "string \<Rightarrow> pyval option \<Rightarrow> json_schema \<Rightarrow> json_schema" where
  "set_keyword k x schema = (case x of None \<Rightarrow> schema | Some v \<Rightarrow> AList.update k v schema)"

definition shown_bound :: "pyval option \<Rightarrow> pyval option" where
  "shown_bound x = (case x of None \<Rightarrow> None | Some b \<Rightarrow> if is_number b then Some (json_number b) else None)"

definition shown_choice :: "pyval \<Rightarrow> pyval" where
  "shown_choice c = (case c of VEnum n v \<Rightarrow> v | _ \<Rightarrow> json_number c)"

definition is_enum_type :: "base_type \<Rightarrow> bool" where
  "is_enum_type t = (case t of BT_Enum n ms \<Rightarrow> True | _ \<Rightarrow> False)"

text \<open>What is written into the target: bounds, then the item counts of a JSON filter or the lengths and choices of any other.\<close>

definition constrain :: "filter_spec \<Rightarrow> json_schema \<Rightarrow> json_schema" where
  "constrain s target =
     (let bounded = set_keyword ''maximum'' (shown_bound (fs_lte s))
        (set_keyword ''exclusiveMaximum'' (shown_bound (fs_lt s))
        (set_keyword ''minimum'' (shown_bound (fs_gte s))
        (set_keyword ''exclusiveMinimum'' (shown_bound (fs_gt s)) target)))
      in if fs_lookup s = L_JSON
         then set_keyword ''maxItems'' (map_option VInt (fs_max_length s))
           (set_keyword ''minItems'' (map_option VInt (fs_min_length s)) bounded)
         else set_keyword ''enum''
           (if is_enum_type (fs_base_type s) then None
            else map_option (\<lambda>cs. VList (map shown_choice cs)) (fs_choices s))
           (set_keyword ''maxLength'' (map_option VInt (fs_max_length s))
           (set_keyword ''minLength'' (map_option VInt (fs_min_length s)) bounded)))"

text \<open>
  The target is the first branch of \<open>anyOf\<close> that is not \<open>null\<close>, or the schema itself; it is part of
  the schema that is returned, so what is written into it shows there.
\<close>

fun at_branch :: "(json_schema \<Rightarrow> json_schema) \<Rightarrow> pyval list \<Rightarrow> pyval list option" where
  "at_branch f [] = None"
| "at_branch f (VDict d # bs) =
     (if map_of d ''type'' \<noteq> Some (VStr ''null'') then Some (VDict (f d) # bs)
      else map_option (\<lambda>cs. VDict d # cs) (at_branch f bs))"
| "at_branch f (b # bs) = map_option (\<lambda>cs. b # cs) (at_branch f bs)"

definition at_target :: "(json_schema \<Rightarrow> json_schema) \<Rightarrow> json_schema \<Rightarrow> json_schema" where
  "at_target f schema = (case map_of schema ''anyOf'' of
       Some (VList bs) \<Rightarrow> (case at_branch f bs of
           Some cs \<Rightarrow> AList.update ''anyOf'' (VList cs) schema | None \<Rightarrow> f schema)
     | _ \<Rightarrow> f schema)"

definition field_json_schema :: "filter_spec \<Rightarrow> json_schema \<Rightarrow> json_schema" where
  "field_json_schema s schema = at_target (constrain s)
     (set_keyword ''description''
       (case fs_description s of None \<Rightarrow> None | Some d \<Rightarrow> if d = [] then None else Some (VStr d)) schema)"

section \<open>The schema of a list query (pydantic/types.py)\<close>

definition dict_update :: "json_schema \<Rightarrow> json_schema \<Rightarrow> json_schema" where
  "dict_update news d = fold (\<lambda>(k, v). AList.update k v) news d"

definition limit_docs :: json_schema where
  "limit_docs = [(''title'', VStr ''Limit''),
     (''description'', VStr (''Maximum number of items to return. Allowed range: '' @ show_int 1 @ ''-''
        @ show_int 300 @ ''. Default: '' @ show_int 10 @ ''.'')),
     (''example'', VInt 10)]"

definition offset_docs :: json_schema where
  "offset_docs = [(''title'', VStr ''Offset''),
     (''description'', VStr (''Number of items to skip before returning results. Minimum: '' @ show_int 0
        @ ''. Default: '' @ show_int 0 @ ''.'')),
     (''example'', VInt 0)]"

definition document_property :: "string \<Rightarrow> json_schema \<Rightarrow> json_schema \<Rightarrow> json_schema" where
  "document_property name docs properties = (case map_of properties name of
       Some (VDict d) \<Rightarrow> AList.update name (VDict (dict_update docs d)) properties
     | _ \<Rightarrow> properties)"

definition list_query_schema :: "json_schema \<Rightarrow> json_schema" where
  "list_query_schema schema =
     (let properties = (case map_of schema ''properties'' of Some (VDict d) \<Rightarrow> d | _ \<Rightarrow> [])
      in AList.update ''properties''
        (VDict (document_property ''offset'' offset_docs (document_property ''limit'' limit_docs properties))) schema)"

section \<open>What a schema admits\<close>

fun json_type :: "string \<Rightarrow> pyval \<Rightarrow> bool" where
  "json_type t VNone = (t = ''null'')"
| "json_type t (VBool b) = (t = ''boolean'')"
| "json_type t (VInt i) = (t = ''integer'' \<or> t = ''number'')"
| "json_type t (VDec q) = (t = ''number'')"
| "json_type t (VStr s) = (t = ''string'')"
| "json_type t (VList xs) = (t = ''array'')"
| "json_type t (VTuple xs) = (t = ''array'')"
| "json_type t (VDict d) = (t = ''object'')"
| "json_type t _ = False"

fun is_bool :: "pyval \<Rightarrow> bool" where
  "is_bool (VBool b) = True"
| "is_bool _ = False"

text \<open>Equality of JSON values: that of Python, but a boolean equals no number.\<close>

definition json_equal :: "pyval \<Rightarrow> pyval \<Rightarrow> bool" where
  "json_equal v e \<longleftrightarrow> py_equal v e \<and> is_bool v = is_bool e"

text \<open>A keyword about numbers, strings or arrays says nothing of other values.\<close>

definition about_number :: "(pyval \<Rightarrow> bool) \<Rightarrow> pyval \<Rightarrow> bool" where
  "about_number P v \<longleftrightarrow> (json_type ''number'' v \<longrightarrow> P v)"

definition about_length :: "(int \<Rightarrow> int \<Rightarrow> bool) \<Rightarrow> pyval \<Rightarrow> int option \<Rightarrow> bool" where
  "about_length P a n = (case (a, n) of (VInt m, Some k) \<Rightarrow> P m k | _ \<Rightarrow> True)"

definition text_length :: "pyval \<Rightarrow> int option" where
  "text_length v = (case v of VStr t \<Rightarrow> Some (int (length t)) | _ \<Rightarrow> None)"

definition item_count :: "pyval \<Rightarrow> int option" where
  "item_count v = map_option (\<lambda>xs. int (length xs)) (seq_items v)"

definition keyword_holds :: "string \<Rightarrow> pyval \<Rightarrow> pyval \<Rightarrow> bool" where
  "keyword_holds k a v =
     (if k = ''type'' then (case a of VStr t \<Rightarrow> json_type t v | _ \<Rightarrow> True)
      else if k = ''enum'' then (case a of VList es \<Rightarrow> list_ex (json_equal v) es | _ \<Rightarrow> True)
      else if k = ''exclusiveMinimum'' then about_number (\<lambda>x. val_less a x) v
      else if k = ''minimum'' then about_number (\<lambda>x. val_le a x) v
      else if k = ''exclusiveMaximum'' then about_number (\<lambda>x. val_less x a) v
      else if k = ''maximum'' then about_number (\<lambda>x. val_le x a) v
      else if k = ''minLength'' then about_length (\<lambda>m n. m \<le> n) a (text_length v)
      else if k = ''maxLength'' then about_length (\<lambda>m n. n \<le> m) a (text_length v)
      else if k = ''minItems'' then about_length (\<lambda>m n. m \<le> n) a (item_count v)
      else if k = ''maxItems'' then about_length (\<lambda>m n. n \<le> m) a (item_count v)
      else True)"

fun json_admits :: "pyval \<Rightarrow> pyval \<Rightarrow> bool" where
  "json_admits (VDict d) v = (\<forall>p \<in> set d.
     if fst p = ''anyOf'' then (case snd p of VList bs \<Rightarrow> (\<exists>b \<in> set bs. json_admits b v) | _ \<Rightarrow> True)
     else keyword_holds (fst p) (snd p) v)"
| "json_admits _ v = True"


section \<open>Schemas and keywords\<close>

lemma update_new: "k \<notin> fst ` set d \<Longrightarrow> AList.update k v d = d @ [(k, v)]"
  by (induction d) auto

definition flat :: "json_schema \<Rightarrow> pyval \<Rightarrow> bool" where
  "flat d v \<longleftrightarrow> (\<forall>p \<in> set d. keyword_holds (fst p) (snd p) v)"

lemma flat_admits:
  assumes "''anyOf'' \<notin> fst ` set d"
  shows "json_admits (VDict d) v = flat d v"
proof -
  have "fst p \<noteq> ''anyOf''" if "p \<in> set d" for p using assms that by (metis image_eqI)
  then show ?thesis unfolding json_admits.simps(1) flat_def by (intro ball_cong refl) (simp only: if_False)
qed

declare json_admits.simps [simp del]

text \<open>Setting a new keyword adds its condition.\<close>

definition holds :: "string \<Rightarrow> pyval option \<Rightarrow> pyval \<Rightarrow> bool" where
  "holds k x v = (case x of None \<Rightarrow> True | Some a \<Rightarrow> keyword_holds k a v)"

lemma set_keyword_keys: "fst ` set (set_keyword k x d) = (if x = None then {} else {k}) \<union> fst ` set d"
  by (simp add: set_keyword_def dom_update split: option.splits)

lemma flat_set: "k \<notin> fst ` set d \<Longrightarrow> flat (set_keyword k x d) v \<longleftrightarrow> flat d v \<and> holds k x v"
  by (auto simp: flat_def holds_def set_keyword_def update_new split: option.splits)

definition constraint_keywords :: "string set" where
  "constraint_keywords = {''maximum'', ''exclusiveMaximum'', ''minimum'', ''exclusiveMinimum'', ''maxItems'',
     ''minItems'', ''enum'', ''maxLength'', ''minLength''}"

definition bounds_hold :: "filter_spec \<Rightarrow> pyval \<Rightarrow> bool" where
  "bounds_hold s v \<longleftrightarrow> holds ''exclusiveMinimum'' (shown_bound (fs_gt s)) v \<and> holds ''minimum'' (shown_bound (fs_gte s)) v
     \<and> holds ''exclusiveMaximum'' (shown_bound (fs_lt s)) v \<and> holds ''maximum'' (shown_bound (fs_lte s)) v"

lemma flat_constrain:
  assumes "fst ` set d \<inter> constraint_keywords = {}"
  shows "flat (constrain s d) v \<longleftrightarrow> flat d v \<and> bounds_hold s v \<and>
     (if fs_lookup s = L_JSON
      then holds ''minItems'' (map_option VInt (fs_min_length s)) v \<and> holds ''maxItems'' (map_option VInt (fs_max_length s)) v
      else holds ''minLength'' (map_option VInt (fs_min_length s)) v \<and> holds ''maxLength'' (map_option VInt (fs_max_length s)) v
        \<and> holds ''enum'' (if is_enum_type (fs_base_type s) then None
            else map_option (\<lambda>cs. VList (map shown_choice cs)) (fs_choices s)) v)"
proof -
  have k: "k \<notin> fst ` set d" if "k \<in> constraint_keywords" for k using assms that by blast
  then show ?thesis
    using k [unfolded constraint_keywords_def]
    by (simp add: constrain_def Let_def flat_set set_keyword_keys bounds_hold_def conj_ac)
qed

lemma constrain_keys: "''anyOf'' \<notin> fst ` set d \<Longrightarrow> ''anyOf'' \<notin> fst ` set (constrain s d)"
  by (auto simp: constrain_def Let_def set_keyword_keys split: if_splits)

section \<open>The schema of a field and the validator\<close>

text \<open>
  What pydantic declares for the field: the schema of the value, or, where the filter may be left
  out, that schema or \<open>null\<close>.
\<close>

definition declared_schema :: "filter_spec \<Rightarrow> json_schema \<Rightarrow> json_schema" where
  "declared_schema s d = (if fs_required s then d
     else [(''anyOf'', VList [VDict d, VDict [(''type'', VStr ''null'')]])])"

text \<open>A schema of values: one that has no union, no constraint and no description of its own, and refuses \<open>null\<close>.\<close>

definition value_node :: "json_schema \<Rightarrow> bool" where
  "value_node d \<longleftrightarrow> fst ` set d \<inter> insert ''anyOf'' (insert ''description'' constraint_keywords) = {}
     \<and> \<not> flat d VNone \<and> map_of d ''type'' \<noteq> Some (VStr ''null'')"

lemma description_mute: "keyword_holds ''description'' a v"
  by (simp add: keyword_holds_def)

lemma anyOf_apart: "map_of d ''anyOf'' = None \<longleftrightarrow> ''anyOf'' \<notin> fst ` set d"
  by (simp add: map_of_eq_None_iff)

text \<open>The field's schema admits what the constrained schema of values admits, and \<open>null\<close> where it may be left out.\<close>

lemma field_schema_admits:
  assumes "value_node d"
  shows "json_admits (VDict (field_json_schema s (declared_schema s d))) v
    \<longleftrightarrow> flat (constrain s d) v \<or> \<not> fs_required s \<and> v = VNone"
proof -
  let ?descr = "case fs_description s of None \<Rightarrow> None | Some x \<Rightarrow> if x = [] then None else Some (VStr x)"
  have d: "''anyOf'' \<notin> fst ` set d" "''description'' \<notin> fst ` set d" "fst ` set d \<inter> constraint_keywords = {}"
    "map_of d ''type'' \<noteq> Some (VStr ''null'')"
    using assms by (auto simp: value_node_def)
  show ?thesis
  proof (cases "fs_required s")
    case True
    let ?e = "set_keyword ''description'' ?descr d"
    have e: "''anyOf'' \<notin> fst ` set ?e" "fst ` set ?e \<inter> constraint_keywords = {}"
      using d by (auto simp: set_keyword_keys constraint_keywords_def split: if_splits)
    have "flat ?e v = flat d v"
      using d(2) by (simp add: flat_set holds_def description_mute split: option.splits)
    moreover have "map_of ?e ''anyOf'' = None" using e(1) by (simp only: anyOf_apart not_False_eq_True)
    ultimately show ?thesis
      using True e d(3) by (simp add: field_json_schema_def declared_schema_def at_target_def flat_admits
          constrain_keys flat_constrain)
  next
    case False
    have "field_json_schema s (declared_schema s d)
      = (''anyOf'', VList [VDict (constrain s d), VDict [(''type'', VStr ''null'')]])
        # (case ?descr of None \<Rightarrow> [] | Some x \<Rightarrow> [(''description'', x)])"
      using False d(4) by (simp add: field_json_schema_def declared_schema_def at_target_def set_keyword_def split: option.splits)
    moreover have "json_admits (VDict [(''type'', VStr ''null'')]) v \<longleftrightarrow> v = VNone"
      by (cases v) (simp_all add: json_admits.simps keyword_holds_def)
    moreover have "json_admits (VDict (constrain s d)) v = flat (constrain s d) v"
      by (rule flat_admits [OF constrain_keys [OF d(1)]])
    ultimately show ?thesis using False
      by (auto simp: json_admits.simps(1) [of "_ # _"] description_mute split: option.splits)
  qed
qed

text \<open>
  The filters whose constraints JSON Schema can state: over strings, without bounds; over numbers,
  with numbers for bounds; no choice a truth value. The factories build such filters.
\<close>

definition bounds_of :: "filter_spec \<Rightarrow> pyval option list" where
  "bounds_of s = [fs_gt s, fs_gte s, fs_lt s, fs_lte s]"

definition documentable :: "filter_spec \<Rightarrow> bool" where
  "documentable s \<longleftrightarrow> (fs_base_type s = BT_Str \<and> list_all (\<lambda>x. x = None) (bounds_of s)
       \<or> fs_base_type s \<in> {BT_Int, BT_Decimal} \<and> list_all (\<lambda>x. \<forall>b. x = Some b \<longrightarrow> is_number b) (bounds_of s))
     \<and> (\<forall>cs. fs_choices s = Some cs \<longrightarrow> list_all (\<lambda>c. \<not> is_bool (shown_choice c)) cs)"

lemma choices_numbers: "parse_choices (Some (ChoiceTuple cs)) = Ret (Some ds) \<Longrightarrow> list_all (\<lambda>c. \<not> is_bool (shown_choice c)) ds"
proof -
  assume "parse_choices (Some (ChoiceTuple cs)) = Ret (Some ds)"
  then have "oc_mapM choice_decimal cs = Ret ds" by (simp add: parse_choices_def oc_bind_Ret_iff)
  then show ?thesis
  proof (induction cs arbitrary: ds)
    case (Cons c cs)
    then obtain d es where d: "choice_decimal c = Ret d" "oc_mapM choice_decimal cs = Ret es" "ds = d # es"
      by (auto split: outcome.splits)
    then have "d = VNone \<or> (\<exists>q. d = VDec q)" using decimal_number by (auto simp: choice_decimal_def split: if_splits)
    then show ?case using d Cons.IH by (auto simp: shown_choice_def json_number_def split: if_splits)
  qed simp
qed

lemma string_documentable:
  assumes "spec_string fld req mn mx ch d = Ret s" "ch = None \<or> ch = Some (ChoiceTuple cs)"
  shows "documentable (s\<lparr>fs_field := f\<rparr>)"
proof -
  obtain ds where s: "parse_choices ch = Ret ds"
      "s = (mk_spec BT_Str L_EQ fld req d)\<lparr>fs_min_length := mn, fs_max_length := mx, fs_choices := ds\<rparr>"
    using assms(1) by (auto simp: spec_string_def oc_bind_Ret_iff)
  have "list_all (\<lambda>c. \<not> is_bool (shown_choice c)) es" if "ds = Some es" for es
    using assms(2) s(1) that choices_numbers [of cs es] by (auto simp: parse_choices_def)
  then show ?thesis using s(2) by (auto simp: documentable_def bounds_of_def)
qed

lemma to_decimal_number: "to_decimal x = Ret y \<Longrightarrow> y = Some b \<Longrightarrow> is_number b"
  using decimal_number by (fastforce simp: to_decimal_def oc_bind_Ret_iff split: option.splits)

lemma numeric_documentable:
  assumes "spec_numeric bt fld lk req b ch d = Ret s" "bt \<in> {BT_Int, BT_Decimal}" "ch = None \<or> ch = Some (ChoiceTuple cs)"
  shows "documentable (s\<lparr>fs_field := f\<rparr>)"
proof -
  obtain db ds where s: "decimal_bounds b = Ret db" "parse_choices ch = Ret ds"
      "s = (with_bounds db (mk_spec bt lk fld req d))\<lparr>fs_choices := ds\<rparr>"
    using assms(1) by (auto simp: spec_numeric_def oc_bind_Ret_iff)
  have "list_all (\<lambda>c. \<not> is_bool (shown_choice c)) es" if "ds = Some es" for es
    using assms(3) s(2) that choices_numbers [of cs es] by (auto simp: parse_choices_def)
  moreover have "list_all (\<lambda>x. \<forall>b. x = Some b \<longrightarrow> is_number b) [bd_gt db, bd_gte db, bd_lt db, bd_lte db]"
    using s(1) by (auto simp: decimal_bounds_def oc_bind_Ret_iff dest: to_decimal_number)
  ultimately show ?thesis using s(3) assms(2) by (auto simp: documentable_def bounds_of_def mk_spec_def)
qed

lemma json_number_key [simp]: "cmp_key (json_number v) = cmp_key v"
  by (simp add: json_number_def split: pyval.split)

lemma bound_shown:
  assumes "json_type ''number'' v" "\<And>b. x = Some b \<Longrightarrow> is_number b"
  shows "holds ''exclusiveMinimum'' (shown_bound x) v = opt_holds (\<lambda>b. val_less b v) x"
    "holds ''minimum'' (shown_bound x) v = opt_holds (\<lambda>b. val_le b v) x"
    "holds ''exclusiveMaximum'' (shown_bound x) v = opt_holds (\<lambda>b. val_less v b) x"
    "holds ''maximum'' (shown_bound x) v = opt_holds (\<lambda>b. val_le v b) x"
  using assms by (cases x; simp add: holds_def shown_bound_def opt_holds_def keyword_holds_def about_number_def
      key_only [of "json_number _"])+

lemma bounds_shown:
  assumes "documentable s" "of_type (fs_base_type s) v"
  shows "bounds_hold s v \<longleftrightarrow> in_bounds s v"
proof (cases "fs_base_type s = BT_Str")
  case True
  then show ?thesis using assms(1)
    by (simp add: documentable_def bounds_of_def bounds_hold_def in_bounds_def shown_bound_def holds_def)
next
  case False
  then have n: "fs_base_type s \<in> {BT_Int, BT_Decimal}" "list_all (\<lambda>x. \<forall>b. x = Some b \<longrightarrow> is_number b) (bounds_of s)"
    using assms(1) by (auto simp: documentable_def)
  then have "json_type ''number'' v" using assms(2) by (cases v) auto
  then show ?thesis using n(2) by (simp add: bounds_hold_def in_bounds_opt bound_shown bounds_of_def)
qed

lemma shown_choice_key': "cmp_key (shown_choice c) = cmp_key c"
  by (cases c) (simp_all add: shown_choice_def)

lemma choices_shown:
  assumes "documentable s" "of_type (fs_base_type s) v"
  shows "holds ''enum'' (if is_enum_type (fs_base_type s) then None
     else map_option (\<lambda>cs. VList (map shown_choice cs)) (fs_choices s)) v \<longleftrightarrow> chosen s v"
proof -
  have t: "fs_base_type s \<in> {BT_Str, BT_Int, BT_Decimal}" using assms(1) by (auto simp: documentable_def)
  then have k: "cmp_key v \<noteq> None" "\<not> is_bool v" "\<not> is_enum_type (fs_base_type s)"
    using of_type_has_key [OF assms(2)] assms(2) by (auto simp: is_enum_type_def) (cases v; auto)+
  show ?thesis
  proof (cases "fs_choices s")
    case (Some cs)
    then have b: "\<not> is_bool (shown_choice c)" if "c \<in> set cs" for c
      using assms(1) that by (simp add: documentable_def list_all_iff)
    have "json_equal v (shown_choice c) \<longleftrightarrow> py_equal v c" if "c \<in> set cs" for c
      using b [OF that] k(2) equal_by_key [OF k(1) shown_choice_key' [of c]] by (simp add: json_equal_def)
    then show ?thesis using Some k(3) by (auto simp: holds_def keyword_holds_def chosen_def list_ex_iff)
  qed (simp add: holds_def chosen_def)
qed

lemma lengths_shown:
  assumes "of_type t v" "t \<in> {BT_Str, BT_Int, BT_Decimal}"
  shows "holds ''minLength'' (map_option VInt (fs_min_length s)) v \<and> holds ''maxLength'' (map_option VInt (fs_max_length s)) v
     \<longleftrightarrow> length_ok s v"
  using assms by (cases v) (auto simp: holds_def keyword_holds_def about_length_def text_length_def length_ok_def
      length_fits_def split: option.splits)

text \<open>
  The JSON schema published for the field of a scalar filter over strings or numbers agrees with
  its validator: a value of the type, or \<open>null\<close>, fits the schema exactly when the validator accepts it,
  whatever schema \<open>d\<close> pydantic generates for the values themselves.
\<close>

theorem field_schema_agrees:
  assumes "spec_ok s" "fs_lookup s = L_EQ" "documentable s" "value_node d"
    "v = VNone \<or> of_type (fs_base_type s) v \<and> flat d v"
  shows "json_admits (VDict (field_json_schema s (declared_schema s d))) v \<longleftrightarrow> validate s v = Ret ()"
proof (cases "v = VNone")
  case True
  have k: "fst ` set d \<inter> constraint_keywords = {}" "\<not> flat d VNone" using assms(4) by (auto simp: value_node_def)
  have "\<not> flat (constrain s d) VNone" unfolding flat_constrain [OF k(1)] using k(2) by blast
  moreover have "fs_field s \<noteq> None" using assms(1) by (simp add: spec_ok_def)
  ultimately show ?thesis using True assms(2) absent_cases [of s]
    by (auto simp: field_schema_admits [OF assms(4)] validate_def validate_scalar_def refusal_def)
next
  case False
  then have v: "of_type (fs_base_type s) v" "flat d v" using assms(5) by auto
  have t: "fs_base_type s \<in> {BT_Str, BT_Int, BT_Decimal}" using assms(3) by (auto simp: documentable_def)
  then have nd: "fs_base_type s \<noteq> BT_Datetime" by auto
  have k: "fst ` set d \<inter> constraint_keywords = {}" using assms(4) by (auto simp: value_node_def)
  show ?thesis
    unfolding field_schema_admits [OF assms(4)] flat_constrain [OF k] admitted_scalar [OF assms(1,2) v(1) nd]
      bounds_shown [OF assms(3) v(1)] conj_assoc [symmetric]
    using False assms(2) v(2) choices_shown [OF assms(3) v(1)] lengths_shown [OF v(1) t, of s] by auto
qed

theorem field_schema_agrees_witness:
  "json_admits (VDict (field_json_schema
       ((mk_spec BT_Int L_EQ (Some ''age'') False None)\<lparr>fs_gte := Some (VDec 18)\<rparr>)
       (declared_schema
         ((mk_spec BT_Int L_EQ (Some ''age'') False None)\<lparr>fs_gte := Some (VDec 18)\<rparr>)
         [(''type'', VStr ''integer'')]))) (VInt 17)
   \<longleftrightarrow> validate ((mk_spec BT_Int L_EQ (Some ''age'') False None)\<lparr>fs_gte := Some (VDec 18)\<rparr>)
       (VInt 17) = Ret ()"
  by (rule field_schema_agrees)
    (simp_all add: mk_spec_def spec_ok_def bound_ok_def documentable_def bounds_of_def value_node_def
      constraint_keywords_def flat_def keyword_holds_def)

text \<open>
  The count of a JSON filter: a list with items fits the published schema exactly when the validator
  accepts it. (An empty list is left to \<open>required\<close>, which the schema does not say.)
\<close>

lemma item_counts_documented:
  assumes "s = (spec_json bt fld req mx descr)\<lparr>fs_field := Some f\<rparr>" "value_node d" "xs \<noteq> []" "flat d (VTuple xs)"
  shows "json_admits (VDict (field_json_schema s (declared_schema s d))) (VTuple xs) \<longleftrightarrow> validate s (VTuple xs) = Ret ()"
proof -
  have k: "fst ` set d \<inter> constraint_keywords = {}" using assms(2) by (auto simp: value_node_def)
  have "bounds_hold s (VTuple xs)" by (simp add: assms(1) spec_json_def mk_spec_def bounds_hold_def shown_bound_def holds_def)
  then show ?thesis
    unfolding field_schema_admits [OF assms(2)] flat_constrain [OF k] using assms(3,4)
    by (auto simp: assms(1) spec_json_def mk_spec_def validate_def validate_json_def validate_length_def length_fits_def
        raise_details_def holds_def keyword_holds_def about_length_def item_count_def split: option.splits)
qed

text \<open>
  The bounds of a range filter are written beside the schema of its pair, where JSON Schema gives
  them no meaning: the published schema admits the same pairs whatever the bounds are.
\<close>

lemma range_bounds_undocumented:
  assumes "value_node d" "fs_lookup s = L_RANGE" "fs_min_length s = None" "fs_max_length s = None" "fs_choices s = None"
  shows "json_admits (VDict (field_json_schema s (declared_schema s d))) (VTuple [a, b]) \<longleftrightarrow> flat d (VTuple [a, b])"
proof -
  have k: "fst ` set d \<inter> constraint_keywords = {}" using assms(1) by (auto simp: value_node_def)
  have "bounds_hold s (VTuple [a, b])"
    by (simp add: bounds_hold_def holds_def keyword_holds_def about_number_def split: option.splits)
  then show ?thesis
    unfolding field_schema_admits [OF assms(1)] flat_constrain [OF k] using assms(2-5) by (simp add: holds_def)
qed

text \<open>Only the first branch of a union of value schemas is constrained: the others admit what they did.\<close>

lemma other_branches_free:
  assumes "map_of a ''type'' \<noteq> Some (VStr ''null'')" "fs_description s = None" "json_admits (VDict b) v"
  shows "json_admits (VDict (field_json_schema s [(''anyOf'', VList [VDict a, VDict b])])) v"
  using assms by (simp add: field_json_schema_def at_target_def set_keyword_def json_admits.simps(1) [of "_ # _"])

section \<open>Annotations and texts\<close>

text \<open>
  Before 3.14 only the eager annotations count; from 3.14 on they still come first. A body that has
  neither declares no filter.
\<close>

lemma namespace_annotations_cases:
  "cb_annotations body = Some anns \<Longrightarrow> namespace_annotations lib body = anns"
  "cb_annotations body = None \<Longrightarrow> namespace_annotations False body = []"
  "cb_annotations body = None \<Longrightarrow> cb_annotate body = Some anns \<Longrightarrow> namespace_annotations True body = anns"
  by (simp_all add: namespace_annotations_def)

lemma dict_update_lookup:
  "map_of (dict_update news d) k = (case map_of (rev news) k of None \<Rightarrow> map_of d k | Some v \<Rightarrow> Some v)"
proof (induction news arbitrary: d)
  case (Cons p news)
  then show ?case by (cases p) (simp add: dict_update_def update_conv' map_add_def split: option.splits)
qed (simp add: dict_update_def)

text \<open>The texts of a list query touch no other keyword of \<open>limit\<close> and \<open>offset\<close>, no other property and no other key.\<close>

lemma document_property_other: "k \<noteq> name \<Longrightarrow> map_of (document_property name docs ps) k = map_of ps k"
  by (simp add: document_property_def update_conv' split: option.splits pyval.splits)

lemma document_property_keyword:
  assumes "map_of ps name = Some (VDict d)"
  shows "map_of (document_property name docs ps) name = Some (VDict (dict_update docs d))"
  using assms by (simp add: document_property_def update_conv')

lemma list_query_schema_spec:
  assumes "map_of schema ''properties'' = Some (VDict ps)" "map_of ps ''limit'' = Some (VDict l)"
    "map_of ps ''offset'' = Some (VDict f)"
  shows "\<exists>qs. map_of (list_query_schema schema) ''properties'' = Some (VDict qs)
    \<and> map_of qs ''limit'' = Some (VDict (dict_update limit_docs l))
    \<and> map_of qs ''offset'' = Some (VDict (dict_update offset_docs f))
    \<and> (\<forall>k. k \<noteq> ''limit'' \<longrightarrow> k \<noteq> ''offset'' \<longrightarrow> map_of qs k = map_of ps k)
    \<and> (\<forall>k. k \<noteq> ''properties'' \<longrightarrow> map_of (list_query_schema schema) k = map_of schema k)"
proof -
  let ?qs = "document_property ''offset'' offset_docs (document_property ''limit'' limit_docs ps)"
  have "map_of (document_property ''limit'' limit_docs ps) ''offset'' = Some (VDict f)"
    using assms(3) by (simp add: document_property_other)
  then have "map_of ?qs ''offset'' = Some (VDict (dict_update offset_docs f))" by (rule document_property_keyword)
  moreover have "map_of ?qs ''limit'' = Some (VDict (dict_update limit_docs l))"
    using document_property_keyword [OF assms(2)] by (simp add: document_property_other)
  ultimately show ?thesis using assms(1)
    by (intro exI [of _ ?qs]) (simp add: list_query_schema_def update_conv' document_property_other)
qed

end
