(* ===== verification/SharedTools.thy ===== *)
theory SharedTools
  imports FilterSpecs UserDomain Signing "HOL-Library.AList"
begin

text \<open>
  The small tools of \<open>shared_kernel\<close>: copying attributes onto a proxy or an object
  (\<open>utils/mapping/mapping_funcs.py\<close>), a dict read by attribute (\<open>data_structures/mappings.py\<close>),
  constructing with the arguments a constructor takes (\<open>utils/inspect/inspection_funcs.py\<close>), the
  validator of a pattern (\<open>pydantic/validators.py\<close>), the text codec of typed values
  (\<open>utils/type_utils.py\<close>), date helpers and slugs (\<open>utils/functions\<close>), and the cached question
  whether a compile method takes the bag of meta values
  (\<open>data_access/orm/adapters/filter_compilers.py\<close>).
\<close>

section \<open>Copying attributes (mapping\_funcs.py)\<close>

text \<open>\<open>hasattr\<close> and \<open>getattr\<close> of the source object are its map of attributes.\<close>

fun copy_fields :: "string list \<Rightarrow> (string \<rightharpoonup> pyval) \<Rightarrow> proxy \<Rightarrow> (exn, proxy) outcome" where
  "copy_fields [] src p = Ret p"
| "copy_fields (f # fs) src p = (case src f of
       None \<Rightarrow> copy_fields fs src p
     | Some v \<Rightarrow> oc_bind (proxy_setattr f v p) (copy_fields fs src))"

definition map_obj_to_entity_proxy :: "(string \<rightharpoonup> pyval) \<Rightarrow> proxy \<Rightarrow> (exn, proxy) outcome" where
  "map_obj_to_entity_proxy src p = copy_fields (px_fields p) src p"

text \<open>
  What \<open>map_data_to_obj\<close> is given: a dict; another object with an \<open>items\<close> method, each value with
  the answer of \<open>callable\<close>; or an object without one. The setter is an argument.
\<close>

datatype data_src = D_Dict "(string \<times> pyval) list" | D_Items "(string \<times> pyval \<times> bool) list" | D_Object

type_synonym 'o setter = "string \<Rightarrow> pyval \<Rightarrow> 'o \<Rightarrow> (exn, 'o) outcome"

fun set_all :: "'o setter \<Rightarrow> (string \<times> pyval) list \<Rightarrow> 'o \<Rightarrow> (exn, 'o) outcome" where
  "set_all setter [] obj = Ret obj"
| "set_all setter ((k, v) # items) obj = oc_bind (setter k v obj) (set_all setter items)"

definition map_data_to_obj :: "'o setter \<Rightarrow> data_src \<Rightarrow> 'o \<Rightarrow> (exn, 'o) outcome" where
  "map_data_to_obj setter src obj = (case src of
       D_Dict items \<Rightarrow> set_all setter items obj
     | D_Items items \<Rightarrow> set_all setter
         (map (\<lambda>(k, v, c). (k, v)) (filter (\<lambda>(k, v, c). \<not> py_startswith k ''_'' \<and> \<not> c) items)) obj
     | D_Object \<Rightarrow> Raise (AttributeError ''items''))"

text \<open>
  The source of \<open>get_unincluded_data\<close> with the attributes of its fields, and the target: the keys of
  a mapping or the attributes of an object. With a mapping the getter is \<open>dict.get\<close>, a descriptor
  that refuses a first argument that is no dict.
\<close>

datatype field_src = F_Model "(string \<times> pyval) list" | F_Dataclass "(string \<times> pyval) list" | F_Other

datatype field_target = T_Mapping "string list" | T_Object "string list"

fun src_fields :: "field_src \<Rightarrow> (string \<times> pyval) list option" where
  "src_fields (F_Model fs) = Some fs"
| "src_fields (F_Dataclass fs) = Some fs"
| "src_fields F_Other = None"

definition get_unincluded_data :: "field_src \<Rightarrow> field_target \<Rightarrow> (exn, (string \<times> pyval) list) outcome" where
  "get_unincluded_data src target = (case src_fields src of
       None \<Rightarrow> Raise (TypeError ''src must be a dataclass or pydantic model'')
     | Some fs \<Rightarrow> (case target of
         T_Mapping ks \<Rightarrow> if fs = [] then Ret []
           else Raise (TypeError ''descriptor get for dict objects does not apply to this object'')
       | T_Object ns \<Rightarrow> Ret fs))"

section \<open>A dict read by attribute (mappings.py)\<close>

text \<open>
  The argument of \<open>NamedDict(obj)\<close>: nothing (or a falsy object), another \<open>NamedDict\<close>, or an object
  with its \<open>__slots__\<close> (absent, a dict, a sequence of names or a text) and attributes.
\<close>

datatype slots = S_Absent | S_Dict "(string \<times> pyval) list" | S_Names "string list" | S_Text string

datatype named_arg = N_Nothing | N_Named "(string \<times> pyval) list" | N_Object slots "(string \<times> pyval) list"

definition merge_items :: "(string \<times> pyval) list \<Rightarrow> (string \<times> pyval) list \<Rightarrow> (string \<times> pyval) list" where
  "merge_items items d = fold (\<lambda>(k, v). AList.update k v) items d"

definition slot_value :: "(string \<times> pyval) list \<Rightarrow> string \<Rightarrow> (exn, string \<times> pyval) outcome" where
  "slot_value attrs n = (case map_of attrs n of None \<Rightarrow> Raise (AttributeError n) | Some v \<Rightarrow> Ret (n, v))"

text \<open>
  \<open>self.__init__(self, **items)\<close>: the items are added, then the dict is updated with itself. A key
  \<open>obj\<close> or \<open>self\<close> would be given twice. Falsy slots are replaced by \<open>(obj, "__dict__")\<close>, whose first member is
  no attribute name.
\<close>

definition init_again :: "(string \<times> pyval) list \<Rightarrow> (string \<times> pyval) list \<Rightarrow> (exn, (string \<times> pyval) list) outcome" where
  "init_again items d =
     (if ''obj'' \<in> fst ` set items \<or> ''self'' \<in> fst ` set items then Raise (TypeError ''got multiple values for argument'')
      else Ret (let e = merge_items items d in merge_items e e))"

definition no_slots :: exn where
  "no_slots = TypeError ''attribute name must be string''"

definition named_dict_init :: "named_arg \<Rightarrow> (string \<times> pyval) list \<Rightarrow> (exn, (string \<times> pyval) list) outcome" where
  "named_dict_init obj kwargs = (case obj of
       N_Nothing \<Rightarrow> Ret kwargs
     | N_Named d \<Rightarrow> Ret (if d = [] then kwargs else merge_items d kwargs)
     | N_Object sl attrs \<Rightarrow> (case sl of
         S_Absent \<Rightarrow> Raise (AttributeError ''__slots__'')
       | S_Dict d \<Rightarrow> if d = [] then Raise no_slots else init_again d kwargs
       | S_Names ns \<Rightarrow> if ns = [] then Raise no_slots
           else oc_bind (oc_mapM (slot_value attrs) ns) (\<lambda>items. init_again items kwargs)
       | S_Text t \<Rightarrow> if t = [] then Raise no_slots else Ret kwargs))"

definition named_getattr :: "string \<Rightarrow> (string \<times> pyval) list \<Rightarrow> (exn, pyval) outcome" where
  "named_getattr name d = (case map_of d name of Some v \<Rightarrow> Ret v | None \<Rightarrow> Raise (AttributeError name))"

definition named_setattr :: "string \<Rightarrow> pyval \<Rightarrow> (string \<times> pyval) list \<Rightarrow> (string \<times> pyval) list" where
  "named_setattr name v d = AList.update name v d"

text \<open>\<open>wrap_to_named_dict\<close> is given a dict; a dict has no \<open>__slots__\<close>.\<close>

definition wrap_to_named_dict :: "(string \<times> pyval) list \<Rightarrow> (exn, (string \<times> pyval) list) outcome" where
  "wrap_to_named_dict d = named_dict_init (if d = [] then N_Nothing else N_Object S_Absent []) []"

section \<open>Constructing safely (inspection\_funcs.py)\<close>

datatype param_kind = Positional_Only | Positional_Or_Keyword | Var_Positional | Keyword_Only | Var_Keyword

record sig_param =
  sp_name :: string
  sp_kind :: param_kind
  sp_has_default :: bool

definition by_keyword :: "sig_param \<Rightarrow> bool" where
  "by_keyword p \<longleftrightarrow> sp_kind p \<in> {Positional_Or_Keyword, Keyword_Only}"

text \<open>
  Calling a class with keywords only, its \<open>__init__\<close> having the parameters \<open>ps\<close> after \<open>self\<close>: every
  parameter without a default must be among them, every keyword must have a parameter.
\<close>

definition needs_argument :: "sig_param \<Rightarrow> bool" where
  "needs_argument p \<longleftrightarrow> \<not> sp_has_default p \<and> sp_kind p \<notin> {Var_Positional, Var_Keyword}"

definition call_keywords :: "sig_param list \<Rightarrow> (string \<times> 'v) list \<Rightarrow> (exn, (string \<times> 'v) list) outcome" where
  "call_keywords ps kwargs =
     (if list_ex (\<lambda>kv. \<not> list_ex (\<lambda>p. by_keyword p \<and> sp_name p = fst kv) ps \<and> \<not> list_ex (\<lambda>p. sp_kind p = Var_Keyword) ps) kwargs
      then Raise (TypeError ''got an unexpected keyword argument'')
      else if list_ex (\<lambda>p. needs_argument p \<and> \<not> (by_keyword p \<and> sp_name p \<in> fst ` set kwargs)) ps
      then Raise (TypeError ''missing required argument'')
      else Ret kwargs)"

definition allowed_names :: "sig_param list \<Rightarrow> string list" where
  "allowed_names ps = map sp_name (filter (\<lambda>p. sp_name p \<noteq> ''self'' \<and> by_keyword p) ps)"

text \<open>\<open>params\<close> are those of \<open>__init__\<close>, \<open>self\<close> first.\<close>

definition construct_safely :: "sig_param list \<Rightarrow> (string \<times> 'v) list \<Rightarrow> (exn, (string \<times> 'v) list) outcome" where
  "construct_safely params data =
     call_keywords (tl params) (filter (\<lambda>kv. fst kv \<in> set (allowed_names params)) data)"

section \<open>The validator of a pattern (validators.py)\<close>

definition regex_validator :: "(string \<Rightarrow> bool) \<Rightarrow> bool \<Rightarrow> bool \<Rightarrow> pyval \<Rightarrow> (exn, pyval) outcome" where
  "regex_validator fullmatch cleaned raise_on_err value = (case value of
       VStr s \<Rightarrow> (let t = (if cleaned then normalize_string s else s)
         in if fullmatch t then Ret (VStr t)
            else if raise_on_err then Raise (ValueError ''Value does not match pattern'') else Ret VNone)
     | _ \<Rightarrow> Raise (TypeError ''Value must be a string''))"

section \<open>The codec of typed values (type\_utils.py)\<close>

datatype type_enum = Ty_Json_Object | Ty_Pydantic_Model | Ty_Dict | Ty_String | Ty_Integer | Ty_Float | Ty_Decimal
  | Ty_Number | Ty_Bool | Ty_Char | Ty_Date | Ty_Datetime | Ty_Time

text \<open>
  Texts of the library types: what \<open>str\<close>, \<open>isoformat\<close>, \<open>json.dumps\<close> or \<open>model_dump_json\<close> print, and what
  the constructor of the type reads back.
\<close>

record text_lib =
  tl_print :: "type_enum \<Rightarrow> pyval \<Rightarrow> (exn, string) outcome"
  tl_read :: "type_enum \<Rightarrow> string \<Rightarrow> (exn, pyval) outcome"

text \<open>\<open>bytes.decode()\<close> on the code points below 256; every other sequence is refused.\<close>

fun utf8_decode :: "bytes \<Rightarrow> (exn, string) outcome" where
  "utf8_decode [] = Ret []"
| "utf8_decode [b] = (if unat b < 128 then Ret [char_of (unat b)] else Raise (ValueError ''invalid utf-8''))"
| "utf8_decode (b # c # bs) =
     (if unat b < 128 then oc_bind (utf8_decode (c # bs)) (\<lambda>s. Ret (char_of (unat b) # s))
      else if 194 \<le> unat b \<and> unat b \<le> 195 \<and> unat c div 64 = 2
      then oc_bind (utf8_decode bs) (\<lambda>s. Ret (char_of (64 * (unat b - 192) + unat c mod 64) # s))
      else Raise (ValueError ''invalid utf-8''))"

text \<open>\<open>int(text)\<close> of a numeral, blanks around it and a sign before it allowed.\<close>

definition py_int :: "string \<Rightarrow> (exn, int) outcome" where
  "py_int s = (case exponent_of (py_strip s) of
       None \<Rightarrow> Raise (ValueError ''invalid literal for int() with base 10'') | Some i \<Rightarrow> Ret i)"

definition no_attribute :: "string \<Rightarrow> (exn, 'a) outcome" where
  "no_attribute n = Raise (AttributeError n)"

definition print_value :: "text_lib \<Rightarrow> type_enum \<Rightarrow> pyval \<Rightarrow> (exn, string) outcome" where
  "print_value L ty v = (case ty of
       Ty_Json_Object \<Rightarrow> Raise (KeyError ''JSON_OBJECT'')
     | Ty_String \<Rightarrow> (case v of VStr s \<Rightarrow> Ret s | _ \<Rightarrow> no_attribute ''encode'')
     | Ty_Char \<Rightarrow> (case v of VStr s \<Rightarrow> Ret s | _ \<Rightarrow> tl_print L ty v)
     | Ty_Integer \<Rightarrow> (case v of VInt i \<Rightarrow> Ret (show_int i) | VBool b \<Rightarrow> Ret (if b then ''True'' else ''False'')
         | _ \<Rightarrow> tl_print L ty v)
     | Ty_Bool \<Rightarrow> (case v of VBool b \<Rightarrow> Ret (show_int (if b then 1 else 0)) | VInt i \<Rightarrow> Ret (show_int i)
         | _ \<Rightarrow> tl_print L ty v)
     | _ \<Rightarrow> tl_print L ty v)"

definition encode_value :: "text_lib \<Rightarrow> type_enum \<Rightarrow> pyval \<Rightarrow> (exn, bytes) outcome" where
  "encode_value L ty v = oc_bind (print_value L ty v) (\<lambda>s. Ret (utf8_encode s))"

definition decode_value :: "text_lib \<Rightarrow> type_enum \<Rightarrow> bytes \<Rightarrow> (exn, pyval) outcome" where
  "decode_value L ty data = (if ty = Ty_Json_Object then Raise (KeyError ''JSON_OBJECT'')
     else oc_bind (utf8_decode data) (\<lambda>s. case ty of
       Ty_String \<Rightarrow> Ret (VStr s)
     | Ty_Char \<Rightarrow> Ret (VStr s)
     | Ty_Integer \<Rightarrow> oc_bind (py_int s) (\<lambda>i. Ret (VInt i))
     | Ty_Bool \<Rightarrow> oc_bind (py_int s) (\<lambda>i. Ret (VBool (i \<noteq> 0)))
     | _ \<Rightarrow> tl_read L ty s))"

section \<open>Dates and slugs (utils/functions)\<close>

text \<open>
  A \<open>datetime\<close>: its wall clock in seconds, with its offset from UTC or without one (naive). The
  offset of the machine's own zone at a wall time is a parameter.
\<close>

datatype py_datetime = Datetime (wall: int) (utc_offset: "int option")

fun instant :: "py_datetime \<Rightarrow> int option" where
  "instant (Datetime t off) = map_option (\<lambda>z. t - z) off"

text \<open>\<open>astimezone(utc)\<close> takes a naive \<open>datetime\<close> to be in the machine's own zone.\<close>

definition as_utc :: "(int \<Rightarrow> int) \<Rightarrow> py_datetime \<Rightarrow> py_datetime" where
  "as_utc local d = Datetime (wall d - (case utc_offset d of None \<Rightarrow> local (wall d) | Some z \<Rightarrow> z)) (Some 0)"

definition parse_datetime :: "(string \<Rightarrow> (exn, py_datetime) outcome) \<Rightarrow> string \<Rightarrow> (exn, py_datetime) outcome" where
  "parse_datetime fromisoformat v = oc_bind (fromisoformat v) (\<lambda>res.
     Ret (if utc_offset res = None then Datetime (wall res) (Some 0) else res))"

definition set_timezone :: "(int \<Rightarrow> int) \<Rightarrow> py_datetime \<Rightarrow> py_datetime" where
  "set_timezone local v = (if utc_offset v = None then as_utc local v else v)"

definition get_now_utc :: "int \<Rightarrow> py_datetime" where
  "get_now_utc now = Datetime now (Some 0)"

definition default_utc_now :: "int \<Rightarrow> py_datetime option \<Rightarrow> py_datetime" where
  "default_utc_now now v = (case v of None \<Rightarrow> get_now_utc now | Some d \<Rightarrow> d)"

text \<open>The members of an enum, aliases included: \<open>tuple_from_enum\<close>.\<close>

definition tuple_from_enum :: "(string \<times> 'a) list \<Rightarrow> 'a list" where
  "tuple_from_enum enum_members = map snd enum_members"

text \<open>
  \<open>slug_generator\<close>: the normal form NFKD and the text of the moment are parameters. After the
  encoding only ASCII is left, where \<open>\\w\<close> is a letter, a digit or an underscore.
\<close>

definition word_char :: "char \<Rightarrow> bool" where
  "word_char c \<longleftrightarrow> ascii_alpha c \<or> py_digit c \<or> c = CHR ''_''"

definition ascii_space :: "char \<Rightarrow> bool" where
  "ascii_space c \<longleftrightarrow> py_space c \<and> (of_char c :: nat) < 128"

definition slug_break :: "char \<Rightarrow> bool" where
  "slug_break c \<longleftrightarrow> ascii_space c \<or> c = CHR ''-''"

fun join_breaks :: "string \<Rightarrow> string" where
  "join_breaks [] = []"
| "join_breaks (c # cs) = (if slug_break c then CHR ''_'' # join_breaks (dropWhile slug_break cs)
     else c # join_breaks cs)"

definition slug_generator :: "(string \<Rightarrow> string) \<Rightarrow> string \<Rightarrow> string \<Rightarrow> string" where
  "slug_generator nfkd now v =
     (let plain = filter (\<lambda>c. (of_char c :: nat) < 128) (nfkd (v @ ''_'' @ now));
          kept = filter (\<lambda>c. word_char c \<or> slug_break c) plain
      in join_breaks (py_lower (py_strip kept)))"

section \<open>A cached question about a method (filter\_compilers.py)\<close>

text \<open>
  \<open>_accepts_meta\<close> for a function, the underlying one of a bound method: the answer is looked up in
  the module's dict, and otherwise read from the signature and kept.
\<close>

definition accepts_meta :: "('f \<Rightarrow> sig_param list) \<Rightarrow> 'f \<Rightarrow> ('f \<rightharpoonup> bool) \<Rightarrow> bool \<times> ('f \<rightharpoonup> bool)" where
  "accepts_meta sig func cache = (case cache func of
       Some answer \<Rightarrow> (answer, cache)
     | None \<Rightarrow> (let answer = list_ex (\<lambda>p. sp_kind p = Var_Keyword) (sig func) in (answer, cache(func \<mapsto> answer))))"

section \<open>Copies\<close>

definition old_value :: "proxy \<Rightarrow> string \<Rightarrow> pyval" where
  "old_value p f = (case px_source p f of None \<Rightarrow> VNone | Some v \<Rightarrow> v)"

text \<open>The fields whose value in \<open>src\<close> differs from that of the proxy.\<close>

definition differs :: "(string \<rightharpoonup> pyval) \<Rightarrow> proxy \<Rightarrow> string \<Rightarrow> bool" where
  "differs src p f \<longleftrightarrow> (case src f of None \<Rightarrow> False | Some v \<Rightarrow> \<not> py_equal (old_value p f) v)"

lemma copy_fields_spec:
  assumes "distinct fs" "set fs \<subseteq> set (px_fields p)" "set fs \<inter> set (px_slots p) = {}"
  shows "\<exists>q. copy_fields fs src p = Ret q \<and> px_fields q = px_fields p \<and> px_slots q = px_slots p \<and> px_own q = px_own p
    \<and> px_source q = (\<lambda>f. if f \<in> set fs \<and> differs src p f then src f else px_source p f)
    \<and> set (px_changed q) = set (px_changed p) \<union> {f \<in> set fs. differs src p f}"
  using assms
proof (induction fs arbitrary: p)
  case (Cons f fs)
  show ?case
  proof (cases "differs src p f")
    case False
    then have "copy_fields (f # fs) src p = copy_fields fs src p"
      using Cons.prems by (auto simp: differs_def old_value_def proxy_setattr_def Let_def split: option.splits)
    then show ?thesis using Cons.IH [of p] Cons.prems False by (auto simp: fun_eq_iff)
  next
    case True
    then obtain v where v: "src f = Some v" "\<not> py_equal (old_value p f) v" by (auto simp: differs_def split: option.splits)
    let ?p = "p\<lparr>px_source := (px_source p)(f \<mapsto> v), px_changed := List.insert f (px_changed p)\<rparr>"
    have "proxy_setattr f v p = Ret ?p"
      using v(2) Cons.prems by (auto simp: proxy_setattr_def Let_def old_value_def)
    then have c: "copy_fields (f # fs) src p = copy_fields fs src ?p" using v(1) by simp
    have d: "differs src ?p g = differs src p g" if "g \<in> set fs" for g
      using that Cons.prems(1) by (auto simp: differs_def old_value_def split: option.splits)
    obtain q where q: "copy_fields fs src ?p = Ret q" "px_fields q = px_fields p" "px_slots q = px_slots p" "px_own q = px_own p"
        "px_source q = (\<lambda>g. if g \<in> set fs \<and> differs src ?p g then src g else px_source ?p g)"
        "set (px_changed q) = set (px_changed ?p) \<union> {g \<in> set fs. differs src ?p g}"
      using Cons.IH [of ?p] Cons.prems by auto
    have "px_source q = (\<lambda>g. if g \<in> set (f # fs) \<and> differs src p g then src g else px_source p g)"
      using q(5) d True v(1) Cons.prems(1) by (auto simp: fun_eq_iff)
    moreover have "set (px_changed q) = set (px_changed p) \<union> {g \<in> set (f # fs). differs src p g}"
      using q(6) d True by auto
    ultimately show ?thesis using c q(1-4) by auto
  qed
qed simp

text \<open>
  Mapping an object onto a proxy: the fields the object has are taken over, the changed fields are
  marked and no other, and nothing else of the proxy moves.
\<close>

theorem map_obj_to_entity_proxy_spec:
  assumes "distinct (px_fields p)" "set (px_fields p) \<inter> set (px_slots p) = {}"
  shows "\<exists>q. map_obj_to_entity_proxy src p = Ret q \<and> px_own q = px_own p
    \<and> (\<forall>f v. f \<in> set (px_fields p) \<longrightarrow> src f = Some v \<longrightarrow> py_equal (old_value q f) v)
    \<and> (\<forall>f. f \<notin> set (px_fields p) \<or> src f = None \<longrightarrow> px_source q f = px_source p f)
    \<and> set (px_changed q) = set (px_changed p) \<union> {f \<in> set (px_fields p). differs src p f}"
proof -
  obtain q where q: "copy_fields (px_fields p) src p = Ret q" "px_own q = px_own p"
      "px_source q = (\<lambda>f. if f \<in> set (px_fields p) \<and> differs src p f then src f else px_source p f)"
      "set (px_changed q) = set (px_changed p) \<union> {f \<in> set (px_fields p). differs src p f}"
    using copy_fields_spec [OF assms(1) subset_refl assms(2), of src] by auto
  have "py_equal (old_value q f) v" if "f \<in> set (px_fields p)" "src f = Some v" for f v
    using that q(3) by (auto simp: old_value_def differs_def)
  then show ?thesis using q by (auto simp: map_obj_to_entity_proxy_def differs_def)
qed

text \<open>A dict is set item by item; of another mapping the private and the callable items are left out; a plain object is refused.\<close>

lemma map_data_to_obj_cases:
  "map_data_to_obj (\<lambda>k v m. Ret (m(k \<mapsto> v))) (D_Dict items) m = Ret (foldl (\<lambda>n (k, v). n(k \<mapsto> v)) m items)"
  "map_data_to_obj setter D_Object obj = Raise (AttributeError ''items'')"
proof -
  have "set_all (\<lambda>k v m. Ret (m(k \<mapsto> v))) items m = Ret (foldl (\<lambda>n (k, v). n(k \<mapsto> v)) m items)"
    by (induction items arbitrary: m) auto
  then show "map_data_to_obj (\<lambda>k v m. Ret (m(k \<mapsto> v))) (D_Dict items) m = Ret (foldl (\<lambda>n (k, v). n(k \<mapsto> v)) m items)"
    by (simp add: map_data_to_obj_def)
qed (simp add: map_data_to_obj_def)

text \<open>What the target holds is never looked at: fields it has are returned too, and a mapping is refused.\<close>

lemma unincluded_data_ignores_target:
  "src_fields src = Some fs \<Longrightarrow> get_unincluded_data src (T_Object ns) = Ret fs"
  "src_fields src = Some (f # fs) \<Longrightarrow> \<exists>m. get_unincluded_data src (T_Mapping ks) = Raise (TypeError m)"
  by (simp_all add: get_unincluded_data_def)

section \<open>Named dicts\<close>

lemma merge_lookup: "map_of (merge_items items d) k = (case map_of (rev items) k of None \<Rightarrow> map_of d k | Some v \<Rightarrow> Some v)"
proof (induction items arbitrary: d)
  case (Cons p items)
  then show ?case by (cases p) (simp add: merge_items_def update_conv' map_add_def split: option.splits)
qed (simp add: merge_items_def)

lemma named_get_set: "named_getattr n (named_setattr m v d) = (if n = m then Ret v else named_getattr n d)"
  by (simp add: named_getattr_def named_setattr_def update_conv')

text \<open>Every dict with an item is refused; a copy of a \<open>NamedDict\<close> has its items.\<close>

lemma wrap_to_named_dict_fails: "d \<noteq> [] \<Longrightarrow> wrap_to_named_dict d = Raise (AttributeError ''__slots__'')"
  by (simp add: wrap_to_named_dict_def named_dict_init_def)

lemma named_dict_copy:
  assumes "distinct (map fst d)"
  shows "\<exists>e. named_dict_init (N_Named d) [] = Ret e \<and> map_of e = map_of d"
proof -
  have "map_of (rev d) k = map_of d k" for k
    using assms by (metis distinct_rev map_of_is_SomeI map_of_inject_set rev_map set_rev)
  then show ?thesis by (auto simp: named_dict_init_def merge_lookup fun_eq_iff split: option.splits)
qed

section \<open>Calls with the arguments a constructor takes\<close>

definition constructible :: "sig_param list \<Rightarrow> string set \<Rightarrow> bool" where
  "constructible ps names \<longleftrightarrow> (\<forall>p \<in> set ps. needs_argument p \<longrightarrow> by_keyword p \<and> sp_name p \<in> names)"

text \<open>
  \<open>construct_safely\<close> calls the class with exactly the data it has parameters for, so surplus keys never
  matter; it fails exactly when a parameter without default is positional only or not in the data.
\<close>

theorem construct_safely_spec:
  assumes "distinct (map sp_name (self # ps))" "sp_name self = ''self''"
  shows "construct_safely (self # ps) data =
    (if constructible ps (fst ` set data) then Ret (filter (\<lambda>kv. \<exists>p \<in> set ps. by_keyword p \<and> sp_name p = fst kv) data)
     else Raise (TypeError ''missing required argument''))"
proof -
  have ns: "sp_name p \<noteq> ''self''" if "p \<in> set ps" for p using assms that by (force simp: image_iff)
  then have a: "k \<in> set (allowed_names (self # ps)) \<longleftrightarrow> (\<exists>p \<in> set ps. by_keyword p \<and> sp_name p = k)" for k
    using assms(2) by (auto simp: allowed_names_def)
  let ?kw = "filter (\<lambda>kv. fst kv \<in> set (allowed_names (self # ps))) data"
  have e: "?kw = filter (\<lambda>kv. \<exists>p \<in> set ps. by_keyword p \<and> sp_name p = fst kv) data" by (simp only: a)
  have "\<not> list_ex (\<lambda>kv. \<not> list_ex (\<lambda>p. by_keyword p \<and> sp_name p = fst kv) ps \<and> \<not> list_ex (\<lambda>p. sp_kind p = Var_Keyword) ps) ?kw"
    by (auto simp: list_ex_iff a)
  moreover have "list_ex (\<lambda>p. needs_argument p \<and> \<not> (by_keyword p \<and> sp_name p \<in> fst ` set ?kw)) ps
      \<longleftrightarrow> \<not> constructible ps (fst ` set data)"
    by (auto simp: list_ex_iff constructible_def a image_iff) fastforce+
  ultimately show ?thesis using e by (simp add: construct_safely_def call_keywords_def)
qed

section \<open>Patterns\<close>

text \<open>The name type of the identity domain is this validator after the length check.\<close>

lemma at_user_name_validator:
  "at_user_name raw = (if len_in 1 50 (trim raw)
     then (case regex_validator name_pattern True True (VStr (trim raw)) of Ret (VStr v) \<Rightarrow> Some v | _ \<Rightarrow> None) else None)"
  by (simp add: at_user_name_def regex_validator_def Let_def)

lemma regex_validator_value:
  "regex_validator m c r v = Ret x \<Longrightarrow> (\<exists>t. x = VStr t \<and> m t) \<or> \<not> r \<and> x = VNone"
  by (auto simp: regex_validator_def Let_def split: pyval.splits if_splits)

section \<open>Dates\<close>

text \<open>
  Both helpers give an aware value and keep the instant of an aware one; of a naive one
  \<open>parse_datetime\<close> takes the wall clock for UTC and \<open>set_timezone\<close> for the machine's zone.
\<close>

lemma set_timezone_spec:
  "utc_offset (set_timezone local d) \<noteq> None" "utc_offset d \<noteq> None \<Longrightarrow> set_timezone local d = d"
  "set_timezone local (set_timezone local d) = set_timezone local d"
  by (auto simp: set_timezone_def as_utc_def)

lemma naive_readings:
  assumes "fromiso v = Ret (Datetime t None)"
  shows "\<exists>d. parse_datetime fromiso v = Ret d \<and> instant d = Some t"
    "instant (set_timezone local (Datetime t None)) = Some (t - local t)"
  using assms by (auto simp: parse_datetime_def set_timezone_def as_utc_def)

section \<open>The cache of answers\<close>

definition answers_ok :: "('f \<Rightarrow> sig_param list) \<Rightarrow> ('f \<rightharpoonup> bool) \<Rightarrow> bool" where
  "answers_ok sig cache \<longleftrightarrow> (\<forall>f b. cache f = Some b \<longrightarrow> b = (\<exists>p \<in> set (sig f). sp_kind p = Var_Keyword))"

lemma accepts_meta_spec:
  assumes "answers_ok sig cache"
  shows "fst (accepts_meta sig f cache) = (\<exists>p \<in> set (sig f). sp_kind p = Var_Keyword)
    \<and> answers_ok sig (snd (accepts_meta sig f cache)) \<and> cache \<subseteq>\<^sub>m snd (accepts_meta sig f cache)
    \<and> snd (accepts_meta sig f cache) f = Some (fst (accepts_meta sig f cache))"
  using assms by (auto simp: accepts_meta_def answers_ok_def list_ex_iff Let_def map_le_def split: option.splits)

section \<open>Round trips of the codec\<close>

lemma decode_char: "utf8_decode (utf8_char c @ bs) = oc_bind (utf8_decode bs) (\<lambda>s. Ret (c # s))"
proof -
  let ?n = "of_char c :: nat"
  have u: "unat (word_of_nat (192 + ?n div 64) :: 8 word) = 192 + ?n div 64" "unat (word_of_nat (128 + ?n mod 64) :: 8 word) = 128 + ?n mod 64"
    using of_char_bound [of c] by (intro unat_small, linarith)+
  show ?thesis
  proof (cases "?n < 128")
    case True
    then have "unat (word_of_nat ?n :: 8 word) = ?n" by (simp add: unat_small)
    then show ?thesis using True by (cases bs) (simp_all add: utf8_char_def Let_def)
  next
    case False
    then have n: "2 \<le> ?n div 64" "?n div 64 \<le> 3" using of_char_bound [of c] by linarith+
    have "64 * (?n div 64) + ?n mod 64 = ?n" by simp
    then have "char_of (64 * ((192 + ?n div 64) - 192) + (128 + ?n mod 64) mod 64) = c"
      by (simp add: mod_add_left_eq [symmetric, of 128] del: mult_div_mod_eq)
    moreover have "(128 + ?n mod 64) div 64 = 2" by simp
    ultimately show ?thesis using False n
      by (simp add: utf8_char_def Let_def u del: of_nat_add)
  qed
qed

lemma utf8_roundtrip: "utf8_decode (utf8_encode s) = Ret s"
  by (induction s) (simp_all add: utf8_encode_def decode_char)

lemma digits_value_read: "digits_value 0 s = read_digits s"
proof -
  have "digits_value n s = foldl (\<lambda>n c. 10 * n + (of_char c - 48)) n s" for n
    by (induction s arbitrary: n) simp_all
  then show ?thesis by (simp add: read_digits_def)
qed

lemma digit_facts: "py_digit c \<Longrightarrow> \<not> py_space c \<and> c \<noteq> CHR ''-'' \<and> c \<noteq> CHR ''+''"
  by (auto simp: py_digit_def py_space_def Let_def)

lemma exponent_digits:
  assumes "ds \<noteq> []" "\<forall>c \<in> set ds. py_digit c"
  shows "exponent_of ds = Some (int (read_digits ds))"
proof -
  have "hd ds \<noteq> CHR ''-''" "hd ds \<noteq> CHR ''+''" using assms digit_facts [of "hd ds"] by simp_all
  then have "signed_text ds = (False, ds)" using assms(1) by (cases ds) (simp_all add: signed_text_def py_startswith_def)
  then show ?thesis using assms by (simp add: exponent_of_def digits_value_read list_all_iff)
qed

lemma py_int_show: "py_int (show_int i) = Ret i"
proof -
  let ?ds = "show_nat (nat \<bar>i\<bar>)"
  have d: "\<forall>c \<in> set ?ds. py_digit c" by (rule show_nat_digits)
  have cs: "set (show_int i) \<subseteq> insert (CHR ''-'') (set ?ds)" by (auto simp: show_int_def)
  have "\<not> py_space (CHR ''-'')" by (simp add: py_space_def Let_def)
  then have "\<forall>c \<in> set (show_int i). \<not> py_space c" using cs d digit_facts by blast
  then have "py_strip (show_int i) = show_int i" by (rule strip_no_space)
  moreover have "exponent_of (show_int i) = Some i"
  proof (cases "i < 0")
    case True
    then have "show_int i = CHR ''-'' # ?ds" by (simp add: show_int_def)
    then show ?thesis using True d
      by (simp add: exponent_of_def signed_text_def py_startswith_def digits_value_read read_digits_show_nat list_all_iff)
  next
    case False
    then show ?thesis using exponent_digits [OF _ d] by (simp add: show_int_def read_digits_show_nat)
  qed
  ultimately show ?thesis by (simp add: py_int_def)
qed

text \<open>The values the codec itself prints, and a library whose texts read back.\<close>

fun own_value :: "type_enum \<Rightarrow> pyval \<Rightarrow> bool" where
  "own_value Ty_String (VStr s) = True"
| "own_value Ty_Char (VStr s) = True"
| "own_value Ty_Integer (VInt i) = True"
| "own_value Ty_Bool (VBool b) = True"
| "own_value _ _ = False"

definition library_type :: "type_enum \<Rightarrow> bool" where
  "library_type ty \<longleftrightarrow> ty \<notin> {Ty_String, Ty_Char, Ty_Integer, Ty_Bool, Ty_Json_Object}"

definition reads_back :: "text_lib \<Rightarrow> type_enum \<Rightarrow> pyval \<Rightarrow> bool" where
  "reads_back L ty v \<longleftrightarrow> (\<exists>s. tl_print L ty v = Ret s \<and> tl_read L ty s = Ret v)"

text \<open>
  A value that is encoded as its own type is decoded to itself: texts, integers and truth values by
  the codec's own reading, every other type when the library reads back what it prints. A
  \<open>JSON_OBJECT\<close> has no coder: both directions raise a \<open>KeyError\<close>.
\<close>

theorem codec_roundtrip:
  assumes "own_value ty v \<or> library_type ty \<and> reads_back L ty v"
  shows "oc_bind (encode_value L ty v) (decode_value L ty) = Ret v"
proof (cases "library_type ty")
  case True
  then obtain s where s: "tl_print L ty v = Ret s" "tl_read L ty s = Ret v"
    using assms by (auto simp: reads_back_def library_type_def elim: own_value.elims(2))
  have "print_value L ty v = Ret s" "ty \<noteq> Ty_Json_Object"
    using True s(1) by (cases ty; simp add: print_value_def library_type_def)+
  moreover have "decode_value L ty (utf8_encode s) = tl_read L ty s"
    using True by (cases ty) (simp_all add: decode_value_def library_type_def utf8_roundtrip)
  ultimately show ?thesis using s(2) by (simp add: encode_value_def)
next
  case False
  then have "own_value ty v" using assms by simp
  then show ?thesis
    by (cases rule: own_value.elims(2))
      (simp_all add: encode_value_def print_value_def decode_value_def utf8_roundtrip py_int_show)
qed

lemma codec_gap:
  "encode_value L Ty_Json_Object v = Raise (KeyError ''JSON_OBJECT'')"
  "decode_value L Ty_Json_Object b = Raise (KeyError ''JSON_OBJECT'')"
  by (simp_all add: encode_value_def print_value_def decode_value_def)

text \<open>A truth value encoded as an integer is text that no integer is read from.\<close>

lemma bool_as_integer: "oc_bind (encode_value L Ty_Integer (VBool True)) (decode_value L Ty_Integer)
    = Raise (ValueError ''invalid literal for int() with base 10'')"
proof -
  have "py_int ''True'' = Raise (ValueError ''invalid literal for int() with base 10'')" by code_simp
  then show ?thesis by (simp add: encode_value_def print_value_def decode_value_def utf8_roundtrip)
qed

section \<open>Slugs\<close>

lemma join_breaks_chars: "c \<in> set (join_breaks s) \<Longrightarrow> c = CHR ''_'' \<or> c \<in> set s \<and> \<not> slug_break c"
  by (induction s rule: join_breaks.induct) (auto split: if_splits dest: set_dropWhileD)

lemma lower_word: "word_char c \<Longrightarrow> is_lower (lower_char c) \<or> py_digit (lower_char c) \<or> lower_char c = CHR ''_''"
  by (auto simp: word_char_def ascii_alpha_def is_upper_def is_lower_def py_digit_def lower_char_def Let_def)

lemma lower_break: "slug_break c \<Longrightarrow> lower_char c = c"
  by (auto simp: slug_break_def ascii_space_def py_space_def lower_char_def Let_def)

text \<open>A slug holds lower-case letters, digits and underscores only, whatever text it is made of.\<close>

theorem slug_characters:
  "c \<in> set (slug_generator nfkd now v) \<Longrightarrow> is_lower c \<or> py_digit c \<or> c = CHR ''_''"
proof -
  assume "c \<in> set (slug_generator nfkd now v)"
  then consider "c = CHR ''_''" | d where "c = lower_char d" "word_char d \<or> slug_break d" "\<not> slug_break c"
    by (auto simp: slug_generator_def Let_def py_lower_def dest!: join_breaks_chars subsetD [OF set_py_strip])
  then show ?thesis using lower_word lower_break by cases auto
qed

end
