(* ===== verification/Spec2Isabelle.thy ===== *)
theory Spec2Isabelle
  imports AccountFlows RoutesFlows FilterDocs DestinationFlows StaticChecks SchemaFlows RequestScope EntitySourceFlows StartupFlows LogSink DaemonFlows
    Signing BaseRepo EventLog Application FilterSchema SharedTools
begin

text \<open>
  A verification library for the application under \<open>src/src/app\<close>: a web service with accounts
  (registration with an emailed code, login with tokens, password reset, profile), stored files,
  lists with filters, and the infrastructure they rest on, with the telemetry beside it. Each theory models one part, in the terms of its code, and
  proves what makes it correct; this root theory imports them all.

  \<^bold>\<open>How the program is modelled.\<close> A method that may raise is a function from a world to an outcome
  and the next world (\<open>prog\<close> in Prelude): \<open>Ret v\<close> for a returned value, \<open>Raise e\<close> for an exception
  of the type \<open>exn\<close> (Errors). \<open>py_bind\<close> sequences statements, \<open>py_catch\<close> is \<open>except\<close>, \<open>py_for\<close> a loop.
  An early \<open>return Result.err(...)\<close> is the value \<open>Ret (Err details)\<close>. The world (Orm) holds the tables
  twice, as last committed and as the open transaction sees them, the ORM session (loaded and new
  user objects, pending inserts), the clock, the ids and random numbers still to be drawn, the mails
  sent and the files below the media root. One request runs at a time; a request is the run of its
  handler.

  \<^bold>\<open>The theories\<close> (files under \<open>src/src/app\<close>).
  \<^item> Prelude: programs, their invariants (\<open>keeps\<close>) and triples (\<open>hoare\<close>), Python's string operations.
  \<^item> Errors: \<open>shared_kernel/errors\<close>, \<open>ports/result.py\<close>: status codes, details, exceptions, \<open>Result\<close>.
  \<^item> Utils: \<open>shared_kernel/utils/functions\<close>, \<open>infra/functions\<close>: ids, codes, amounts, text, URLs, mails.
  \<^item> Orm: the table rows, the schema's constraints (\<open>db_ok\<close>), the session and its flush with the audit
    listeners (\<open>event_listeners.py\<close>), commit and rollback, and \<open>OrmUnitOfWork\<close> (\<open>with_uow\<close>).
  \<^item> Security: \<open>password_service.py\<close>, \<open>security_services.py\<close>, \<open>jwt_provider.py\<close>; bcrypt, PyJWT and the
    ciphers are the functions of the record \<open>libs\<close>, a parameter of every definition that needs them.
  \<^item> Config: \<open>shared_kernel/config\<close>.
  \<^item> UserDomain: \<open>domain/identity\<close>: value types, parameters, events, the entity proxy, the aggregate.
  \<^item> Repositories: \<open>otp_orm_repository.py\<close>, \<open>user_orm_repository.py\<close>.
  \<^item> EventBus: \<open>infra/event_sourcing\<close>: the in-process bus and the mails of the identity events.
  \<^item> Services, Handlers: \<open>application/identity\<close>: confirmation, registration, reset, login, refresh, API
    keys, and every command and query handler with the unit of work it opens.
  \<^item> Blob: \<open>application/blob\<close>, \<open>local_blob_storage.py\<close>, \<open>blob_orm_repository.py\<close>; Pillow and the disk
    are the parameters of the record \<open>media\<close>.
  \<^item> Http: the mediator, \<open>deps_middleware.py\<close> and \<open>context_deps.py\<close>, \<open>exception_middleware.py\<close>.
  \<^item> Queries: \<open>params/ordering.py\<close> and \<open>base_orm_repository.py\<close> over one table.
  \<^item> Values: Python's comparisons, and the order of the keys that rows are sorted by.
  \<^item> FilterSpecs, FilterPipeline, FilterCompiler: \<open>modules/filtering\<close> and \<open>adapters/filter_compilers.py\<close>: a
    filter's declaration, the validation of its value, the reading of a request into a query model
    and its filters, and their compilation into conditions. The coercions of pydantic and its JSON
    reader are the functions of the record \<open>pydantic\<close>.
  \<^item> UserList: \<open>user_queries.py\<close>, the list query of \<open>user_orm_repository.py\<close>, its handler and route.
  \<^item> FilterDocs: the OpenAPI parameters of \<open>litestar_integration.py\<close>.
  \<^item> Telemetry: \<open>modules/telemetry\<close> up to the writers: events, masking, the formatter, HTTP events, filters,
    the composer. TelemetryReader: \<open>reader/filesystem.py\<close>. Writers, RateLimit: \<open>writers/base.py\<close> as a step
    relation, \<open>writers/rate_limit.py\<close>. Destinations: \<open>writers/telegram.py\<close>, \<open>writers/postgres.py\<close>.
  \<^item> Routes: \<open>infra/cqrs/*/register_*.py\<close>, the controllers of \<open>api/http/routers/v1\<close>, and a request through
    middleware, controller, mediator and error handler. Adapters: \<open>http_client.py\<close>, \<open>redis_client.py\<close>,
    \<open>email_service.py\<close>, \<open>context_registry.py\<close>; what the other side answers is a parameter.
  \<^item> StaticChecks: \<open>static_analys/assertion_funcs.py\<close>, the check of classes against their interfaces.
  \<^item> Schema: the tables the ORM models declare (\<open>data_access/orm/*/models\<close>, \<open>base_orm_models.py\<close>) and the
    migrations under \<open>src/migrations/versions\<close> as lists of schema operations.
  \<^item> Wiring: \<open>infra/di\<close>, \<open>shared_kernel/di\<close>: every container with its providers, the constructors they
    call, making an object, and the session of a request (\<open>db_di.py\<close>, \<open>SessionDIMiddleware\<close>).
  \<^item> EntitySources: \<open>data_access/entity_source\<close> over an explicit store of objects, sources and lists.
  \<^item> Startup: \<open>src/bootstrap.py\<close>, \<open>wire_recursive\<close> of \<open>di_funcs.py\<close>, \<open>infra/globals.py\<close>: the import and set-up of the
    modules, and the tasks and threads that bootstrap, initialise or wait, as a step relation.
  \<^item> LogSink: \<open>logging/service_logger.py\<close> and the events of \<open>exception_middleware.py\<close>.
  \<^item> Daemon: \<open>modules/telemetry/runner.py\<close>: reader, composer and writers together, as one step relation.
  \<^item> Signing: the signatures of dictionaries (\<open>security_services.py\<close>) with the JSON text that is signed.
  \<^item> BaseRepo: the writing half of \<open>base_orm_repository.py\<close> over the session of one class.
  \<^item> EventLog: \<open>event_bus_middlewares.py\<close>: the records and the timing of events.
  \<^item> Application: \<open>config/asgi.py\<close>, \<open>env_utils.py\<close> with its caches, the execution context, the bearer scheme.
  \<^item> FilterSchema: the JSON schemas of filters and list queries (\<open>filtering/meta.py\<close>, \<open>pydantic/types.py\<close>).
  \<^item> SharedTools: the mapping helpers, \<open>NamedDict\<close>, the pattern validator, the type codec, dates and slugs
    of \<open>shared_kernel\<close>.
  \<^item> Samples: concrete inputs for the instances of the theorems.

  \<^bold>\<open>What is shown.\<close>
  \<^item> Invariants: over any sequence of identity requests, accepted, refused or failed, the schema's
    constraints hold, a spent code stays spent, an account has at most one usable code of a purpose,
    and a verified code is a spent one. The locale \<open>otp_invariant\<close> states the laws such a predicate
    needs and proves once that every handler keeps it; the interpretations supply the predicates.
  \<^item> Flows, AccountFlows: the answer of every identity flow on every branch, and the exact tables and
    mails it leaves: confirmation, login, toggling, issuing a code, registration, the last reset step;
    and that a refused request changes nothing.
  \<^item> BlobFlows: rows and files agree over any sequence of uploads and deletions; uploads write only
    below the media root; upload and deletion undo each other; a failed upload leaves nothing.
  \<^item> HttpFlows: who reaches a guarded route, and what error responses tell.
  \<^item> FilterAccepts: the validator accepts exactly what an independent predicate says a specification
    admits; UserListFlows: the route that lists users answers as an abstract query over the table,
    for any filters, ordering and page, and its pages reach every match once. The interface between
    the repository and a compiler of filters is the locale \<open>filter_compiler\<close>, interpreted on the users'
    compiler. FilterDocs: the documented parameters are those that are validated.
  \<^item> TelemetryFlows, TelemetryReader, Writers, RateLimit, DestinationFlows: what masking hides and which
    writers an event reaches; polling a growing file equals reading it; the writer's queue accounts for
    every event and closing drains it; what a token bucket grants and when it returns; how often a
    message is sent; a row and its traceback are stored together.
  \<^item> RoutesFlows: every request runs the handler written for it, behind authentication where the route
    asks for a user. Adapters: the cache client behaves as a map with times to live. StaticChecks: what
    an accepted class promises to the callers of its interface.
  \<^item> SchemaFlows: the migrations build the declared schema beside any other tables and are undone
    exactly; the constraints of the built schema are \<open>db_ok\<close>; deleting an object does to its referrers
    what \<open>ON DELETE\<close> says.
  \<^item> WiringFlows, RequestScope: every registered handler can be made, its class is the one meant for the
    message, and all it is made of works on the session of its request; no singleton knows a session.
  \<^item> StartupFlows: however the tasks interleave, the containers are made and set up once, readiness comes after it,
    the locks exclude, and with modules that can be imported every task ends; what a failed start leaves.
  \<^item> LogSink: the handler is installed once; every error is answered whatever becomes of its event, written once,
    and told to Telegram exactly from status 500 on.
  \<^item> DaemonFlows: in any run of the daemon every event read is accounted for at every writer it is routed to, and a
    daemon that is told to stop closes after all accepted events were handled.
  \<^item> Signing: JSON texts are told apart, so a signature stands for the content. EventLog: the middlewares change
    nothing of what the bus does; what of an event is in the log. BaseRepo: batches are stored, updates are
    not. Application: the application agrees with its configuration, once asked the environment never changes.
  \<^item> FilterSchema: the published schema of a scalar filter admits what its validator accepts; the bounds of ranges
    are not published. SharedTools: what a copy onto a proxy changes, which data a constructor is called with,
    codec round trips, the characters of slugs.
  \<^item> EntitySourceFlows: the operations on related entities refine those on the bare relations, and the
    ORM objects mirror the relations throughout.
  \<^item> Orm, Security, Utils, UserDomain, EventBus, Errors, Config, Queries: the laws of each part:
    atomicity of the unit of work, round trips of passwords, ciphers and orderings, normal forms of
    the value types, shapes and bounds of ids, codes and amounts, pages and counts, batches.

  \<^bold>\<open>Bounds.\<close> Ids are words of 128 bits and bytes words of 8; Python integers are \<open>int\<close>, times are
  microseconds since the epoch, floats and decimals are rational numbers. Loops are recursive on their
  list and need no fuel; masking stops at depth 33 as the code does; the loops that may not end (the
  batching loop, the wait for a log event, the token bucket) are \<open>partial_function\<close>s whose value is
  \<open>None\<close> when they never return, with theorems that say when they do. Characters are the code points
  below 256; the symbols of a Telegram message are parameters. The fuel of \<open>build_root\<close> is the recursion
  limit of the interpreter and a bound on the ranks of the sources is enough; the fuel of the containers
  bounds the steps of a dotted path (30) and the depth of a call (60), and the check of every provider,
  which ends with less, shows that both suffice. A task of the start takes at most 18 steps.

  \<^bold>\<open>What is not modelled.\<close> The lengths of text columns in \<open>db_ok\<close>; concurrent requests (the row lock and the
  conditional \<open>UPDATE\<close> of a claim are modelled as one step each); the rotation of the log files;
  the special values of \<open>Decimal\<close> and of floats; the messages of library errors and the text of
  values other than strings in details; the framework's routing and schema validation beyond the value
  types and query models. Alembic, PostgreSQL's checks and dependency_injector appear as their documentation describes
  them, as far as the code uses them.
\<close>

end
